(* ===== verification/Prelude.thy ===== *)
theory Prelude
  imports Main "HOL-Library.Word" "HOL-Library.Char_ord" "HOL-Library.List_Lexorder"
begin

text \<open>
  What every component shares: machine-integer types, the model of \<open>std::map\<close> as an
  association list sorted by key, binary search as \<open>std::ranges::binary_search\<close> does it,
  and locales for state machines: an invariant kept by every step, a mark that only moves
  forward, tickets that are issued once, a specification that the calls of the machine
  refine, and a generation counter of 64 bits that only steps change.
\<close>

named_theorems inv_intros \<open>preservation lemmas of the component invariants\<close>
named_theorems store_simps \<open>characteristic equations of the ordered store\<close>

type_synonym u8 = "8 word"
type_synonym u16 = "16 word"
type_synonym u32 = "32 word"
type_synonym u64 = "64 word"

section \<open>Ordered maps\<close>

text \<open>
  \<open>std::map\<close> iterates in key order (the code relies on it when it evicts
  \<open>cache_.begin()\<close>), so a map is an association list whose keys increase strictly.
\<close>

fun om_put :: "'k::linorder \<Rightarrow> 'v \<Rightarrow> ('k \<times> 'v) list \<Rightarrow> ('k \<times> 'v) list" where
  "om_put k v [] = [(k, v)]"
| "om_put k v ((k', v') # xs) =
     (if k < k' then (k, v) # (k', v') # xs
      else if k = k' then (k, v) # xs
      else (k', v') # om_put k v xs)"

definition om_del :: "'k \<Rightarrow> ('k \<times> 'v) list \<Rightarrow> ('k \<times> 'v) list" where
  "om_del k xs = filter (\<lambda>p. fst p \<noteq> k) xs"

definition om_ok :: "('k::linorder \<times> 'v) list \<Rightarrow> bool" where
  "om_ok xs = sorted_wrt (<) (map fst xs)"

lemma om_put_map_of [store_simps, simp]: "map_of (om_put k v xs) = (map_of xs)(k \<mapsto> v)"
  by (induction k v xs rule: om_put.induct) (auto simp: fun_eq_iff)

lemma om_del_map_of [store_simps, simp]: "map_of (om_del k xs) = (map_of xs)(k := None)"
  by (induction xs) (auto simp: om_del_def fun_eq_iff)

lemma om_put_keys [store_simps, simp]: "fst ` set (om_put k v xs) = insert k (fst ` set xs)"
  by (induction k v xs rule: om_put.induct) auto

lemma om_del_keys [store_simps, simp]: "fst ` set (om_del k xs) = fst ` set xs - {k}"
  by (auto simp: om_del_def)

lemma om_ok_Nil [simp, intro]: "om_ok []"
  by (simp add: om_ok_def)

lemma om_ok_Cons: "om_ok ((k, v) # xs) \<longleftrightarrow> (\<forall>k' \<in> fst ` set xs. k < k') \<and> om_ok xs"
  by (simp add: om_ok_def)

lemma om_ok_put [inv_intros, intro]: "om_ok xs \<Longrightarrow> om_ok (om_put k v xs)"
proof (induction k v xs rule: om_put.induct)
  case (1 k v)
  then show ?case by (simp add: om_ok_def)
next
  case (2 k v k' v' xs)
  then show ?case by (auto simp: om_ok_Cons)
qed

lemma om_ok_del [inv_intros, intro]: "om_ok xs \<Longrightarrow> om_ok (om_del k xs)"
  by (induction xs) (auto simp: om_ok_def om_del_def)

lemma om_ok_tl [intro]: "om_ok xs \<Longrightarrow> om_ok (tl xs)"
  by (cases xs) (auto simp: om_ok_def)

lemma om_ok_distinct: "om_ok xs \<Longrightarrow> distinct (map fst xs)"
  by (auto simp: om_ok_def strict_sorted_iff)

lemma om_length_put_le: "length (om_put k v xs) \<le> Suc (length xs)"
  by (induction k v xs rule: om_put.induct) auto

lemma om_length_put_new: "k \<notin> fst ` set xs \<Longrightarrow> length (om_put k v xs) = Suc (length xs)"
  by (induction k v xs rule: om_put.induct) auto

lemma om_length_put_old: "om_ok xs \<Longrightarrow> k \<in> fst ` set xs \<Longrightarrow> length (om_put k v xs) = length xs"
  by (induction k v xs rule: om_put.induct) (force simp: om_ok_Cons)+

lemma om_length_del_le: "length (om_del k xs) \<le> length xs"
  by (simp add: om_del_def)

lemma om_length_del:
  assumes "om_ok xs" and "k \<in> fst ` set xs"
  shows "Suc (length (om_del k xs)) = length xs"
  using assms
proof (induction xs)
  case Nil
  then show ?case by simp
next
  case (Cons x xs)
  have keep: "om_del k xs = xs" if "k \<notin> fst ` set xs"
    using that by (auto simp: om_del_def filter_id_conv)
  show ?case
  proof (cases "fst x = k")
    case True
    then have "k \<notin> fst ` set xs"
      using Cons.prems(1) by (cases x) (auto simp: om_ok_Cons)
    with True keep show ?thesis by (simp add: om_del_def)
  next
    case False
    with Cons show ?thesis by (cases x) (auto simp: om_ok_Cons om_del_def)
  qed
qed

lemma om_set_put: "set (om_put k v xs) \<subseteq> insert (k, v) (set xs)"
  by (induction k v xs rule: om_put.induct) auto

lemma om_set_del: "set (om_del k xs) \<subseteq> set xs"
  by (auto simp: om_del_def)

lemma om_lookup_in: "om_ok xs \<Longrightarrow> (map_of xs k = Some v) \<longleftrightarrow> (k, v) \<in> set xs"
  by (simp add: om_ok_distinct)

lemma om_del_absent: "k \<notin> fst ` set xs \<Longrightarrow> om_del k xs = xs"
  by (auto simp: om_del_def filter_id_conv)

text \<open>The sum of a quantity over a map, as the code's loops over a map compute it.\<close>

definition om_sum :: "('v \<Rightarrow> nat) \<Rightarrow> ('k \<times> 'v) list \<Rightarrow> nat" where
  "om_sum f xs = sum_list (map (\<lambda>p. f (snd p)) xs)"

lemma om_sum_put: "om_ok xs \<Longrightarrow> om_sum f (om_put k v xs) = f v + om_sum f (om_del k xs)"
proof (induction k v xs rule: om_put.induct)
  case (2 k v k' v' xs)
  show ?case
  proof (cases "k < k'")
    case True
    with "2.prems" have "k \<notin> fst ` set ((k', v') # xs)" by (force simp: om_ok_Cons)
    then show ?thesis using True by (simp add: om_del_absent om_sum_def)
  next
    case False
    show ?thesis
    proof (cases "k = k'")
      case True
      with "2.prems" have "k \<notin> fst ` set xs" by (force simp: om_ok_Cons)
      then show ?thesis using True om_del_absent [of k xs] by (simp add: om_del_def om_sum_def)
    next
      case neq: False
      with False "2.IH" "2.prems" show ?thesis by (simp add: om_ok_Cons om_del_def om_sum_def)
    qed
  qed
qed (simp add: om_del_def om_sum_def)

lemma om_sum_del_le: "om_sum f (om_del k xs) \<le> om_sum f xs"
  by (induction xs) (auto simp: om_sum_def om_del_def)

lemma om_sum_old:
  assumes "om_ok xs" and "map_of xs k = Some v"
  shows "om_sum f xs = f v + om_sum f (om_del k xs)"
  using assms
proof (induction xs)
  case (Cons x xs)
  show ?case
  proof (cases "fst x = k")
    case True
    with Cons.prems have "k \<notin> fst ` set xs" by (cases x) (force simp: om_ok_Cons)
    then show ?thesis using True Cons.prems(2) om_del_absent [of k xs]
      by (cases x) (simp add: om_del_def om_sum_def)
  next
    case False
    with Cons show ?thesis by (cases x) (simp add: om_ok_Cons om_del_def om_sum_def)
  qed
qed simp

lemma om_del_swap: "om_del i (om_del j xs) = om_del j (om_del i xs)"
  by (auto simp: om_del_def conj_commute)

lemma om_del_put_same: "om_ok xs \<Longrightarrow> om_del i (om_put i v xs) = om_del i xs"
proof (induction i v xs rule: om_put.induct)
  case (2 k v k' v' xs)
  then show ?case by (auto simp: om_ok_Cons om_del_def)
qed (simp add: om_del_def)

lemma om_sum_del_put:
  assumes "om_ok xs" and "i \<noteq> j"
  shows "om_sum f (om_del i (om_put j v xs)) = f v + om_sum f (om_del i (om_del j xs))"
proof -
  have "om_ok (om_put j v xs)" using assms(1) by (rule om_ok_put)
  then have "om_ok (om_del i (om_put j v xs))" by (rule om_ok_del)
  moreover have "map_of (om_del i (om_put j v xs)) j = Some v" using assms(2) by simp
  ultimately have "om_sum f (om_del i (om_put j v xs)) =
      f v + om_sum f (om_del j (om_del i (om_put j v xs)))"
    by (rule om_sum_old)
  also have "om_del j (om_del i (om_put j v xs)) = om_del i (om_del j xs)"
    using assms(1) by (simp add: om_del_swap [of j] om_del_put_same)
  finally show ?thesis .
qed

text \<open>Replacing a value by one that weighs no more never increases a sum of the others.\<close>

lemma om_sum_replace_le:
  assumes "om_ok xs" and "map_of xs j = Some v" and "f v' \<le> f v"
  shows "om_sum f (om_del i (om_put j v' xs)) \<le> om_sum f (om_del i xs)"
proof (cases "i = j")
  case True
  with assms(1) show ?thesis by (simp add: om_del_put_same)
next
  case False
  have "map_of (om_del i xs) j = Some v" using False assms(2) by simp
  then have "om_sum f (om_del i xs) = f v + om_sum f (om_del j (om_del i xs))"
    using assms(1) by (intro om_sum_old) auto
  with False assms show ?thesis by (simp add: om_sum_del_put om_del_swap)
qed

text \<open>
  The contract the components use: lookups after an insert or a delete, and an
  invariant that both keep. The client lemmas are proved once here.
\<close>

locale keyed_store =
  fixes put :: "'k \<Rightarrow> 'v \<Rightarrow> 'm \<Rightarrow> 'm"
    and del :: "'k \<Rightarrow> 'm \<Rightarrow> 'm"
    and look :: "'m \<Rightarrow> 'k \<Rightarrow> 'v option"
    and ok :: "'m \<Rightarrow> bool"
  assumes look_put: "look (put k v m) = (look m)(k \<mapsto> v)"
    and look_del: "look (del k m) = (look m)(k := None)"
    and ok_put: "ok m \<Longrightarrow> ok (put k v m)"
    and ok_del: "ok m \<Longrightarrow> ok (del k m)"
begin

lemma put_other: "k \<noteq> k' \<Longrightarrow> look (put k v m) k' = look m k'"
  by (simp add: look_put)

lemma del_put: "look (del k (put k v m)) = (look m)(k := None)"
  by (simp add: look_put look_del)

lemma dom_put: "dom (look (put k v m)) = insert k (dom (look m))"
  by (simp add: look_put)

lemma dom_del: "dom (look (del k m)) = dom (look m) - {k}"
  by (simp add: look_del)

text \<open>A property of all stored values survives an insert of a good value and any delete.\<close>

lemma all_put:
  "\<forall>k v. look m k = Some v \<longrightarrow> P k v \<Longrightarrow> P k v \<Longrightarrow>
   \<forall>k' v'. look (put k v m) k' = Some v' \<longrightarrow> P k' v'"
  by (simp add: look_put)

lemma all_del:
  "\<forall>k v. look m k = Some v \<longrightarrow> P k v \<Longrightarrow>
   \<forall>k' v'. look (del k m) k' = Some v' \<longrightarrow> P k' v'"
  by (simp add: look_del)

end

interpretation om: keyed_store om_put om_del map_of om_ok
  by unfold_locales auto

section \<open>Binary search\<close>

text \<open>
  \<open>std::ranges::binary_search\<close>: a lower bound by halving the interval \<open>[lo, hi)\<close>, then
  one comparison. On a sorted vector it decides membership.
\<close>

function lower_bound :: "'a::linorder list \<Rightarrow> 'a \<Rightarrow> nat \<Rightarrow> nat \<Rightarrow> nat" where
  "lower_bound xs x lo hi =
     (if lo < hi
      then let mid = lo + (hi - lo) div 2
           in if xs ! mid < x then lower_bound xs x (Suc mid) hi else lower_bound xs x lo mid
      else lo)"
  by pat_completeness auto
termination
  by (relation "measure (\<lambda>(xs, x, lo, hi). hi - lo)") auto

declare lower_bound.simps [simp del]

definition binary_search :: "'a::linorder list \<Rightarrow> 'a \<Rightarrow> bool" where
  "binary_search xs x =
     (let i = lower_bound xs x 0 (length xs) in i < length xs \<and> \<not> x < xs ! i)"

lemma lower_bound_spec:
  assumes "sorted xs" and "hi \<le> length xs" and "lo \<le> hi"
    and "\<forall>i < lo. xs ! i < x" and "\<forall>i. hi \<le> i \<and> i < length xs \<longrightarrow> x \<le> xs ! i"
  shows "lower_bound xs x lo hi \<le> length xs \<and>
         (\<forall>i < lower_bound xs x lo hi. xs ! i < x) \<and>
         (\<forall>i. lower_bound xs x lo hi \<le> i \<and> i < length xs \<longrightarrow> x \<le> xs ! i)"
  using assms
proof (induction xs x lo hi rule: lower_bound.induct)
  case (1 xs x lo hi)
  define mid where "mid = lo + (hi - lo) div 2"
  show ?case
  proof (cases "lo < hi")
    case False
    then have "lower_bound xs x lo hi = lo" by (subst lower_bound.simps) simp
    moreover from False "1.prems"(3) have "lo = hi" by simp
    ultimately show ?thesis using "1.prems" by simp
  next
    case True
    then have mid: "lo \<le> mid" "mid < hi" by (auto simp: mid_def)
    have unfold: "lower_bound xs x lo hi =
        (if xs ! mid < x then lower_bound xs x (Suc mid) hi else lower_bound xs x lo mid)"
      by (subst lower_bound.simps) (simp only: True mid_def Let_def if_True)
    show ?thesis
    proof (cases "xs ! mid < x")
      case True
      have below: "xs ! i < x" if "i < Suc mid" for i
      proof -
        have "xs ! i \<le> xs ! mid"
          using "1.prems"(1,2) mid that by (intro sorted_nth_mono) auto
        with True show ?thesis by simp
      qed
      have "lower_bound xs x (Suc mid) hi \<le> length xs \<and>
          (\<forall>i < lower_bound xs x (Suc mid) hi. xs ! i < x) \<and>
          (\<forall>i. lower_bound xs x (Suc mid) hi \<le> i \<and> i < length xs \<longrightarrow> x \<le> xs ! i)"
        by (rule "1.IH"(1) [OF \<open>lo < hi\<close> mid_def True "1.prems"(1,2) _ _ "1.prems"(5)])
          (use mid below in auto)
      then show ?thesis unfolding unfold if_P [OF True] .
    next
      case False
      have above: "x \<le> xs ! i" if "mid \<le> i" and "i < length xs" for i
      proof -
        have "xs ! mid \<le> xs ! i" using "1.prems"(1) that by (rule sorted_nth_mono)
        with False show ?thesis by simp
      qed
      have "lower_bound xs x lo mid \<le> length xs \<and>
          (\<forall>i < lower_bound xs x lo mid. xs ! i < x) \<and>
          (\<forall>i. lower_bound xs x lo mid \<le> i \<and> i < length xs \<longrightarrow> x \<le> xs ! i)"
        by (rule "1.IH"(2) [OF \<open>lo < hi\<close> mid_def False "1.prems"(1) _ _ "1.prems"(4)])
          (use mid above "1.prems"(2) in auto)
      then show ?thesis unfolding unfold if_not_P [OF False] .
    qed
  qed
qed

lemma binary_search_iff:
  assumes "sorted xs"
  shows "binary_search xs x \<longleftrightarrow> x \<in> set xs"
proof -
  let ?i = "lower_bound xs x 0 (length xs)"
  have "?i \<le> length xs \<and> (\<forall>j < ?i. xs ! j < x) \<and>
      (\<forall>j. ?i \<le> j \<and> j < length xs \<longrightarrow> x \<le> xs ! j)"
    by (rule lower_bound_spec [OF assms]) auto
  then have spec: "?i \<le> length xs" "\<forall>j < ?i. xs ! j < x"
      "\<forall>j. ?i \<le> j \<and> j < length xs \<longrightarrow> x \<le> xs ! j"
    by blast+
  show ?thesis
  proof
    assume "binary_search xs x"
    then have "?i < length xs" "\<not> x < xs ! ?i" by (auto simp: binary_search_def Let_def)
    moreover from this spec(3) have "x \<le> xs ! ?i" by blast
    ultimately have "xs ! ?i = x" by simp
    with \<open>?i < length xs\<close> show "x \<in> set xs" by (metis nth_mem)
  next
    assume "x \<in> set xs"
    then obtain j where j: "j < length xs" "xs ! j = x" by (auto simp: in_set_conv_nth)
    with spec(2) have "?i \<le> j" by (meson leI less_irrefl)
    with j have "?i < length xs" by simp
    moreover have "xs ! ?i \<le> x" using assms \<open>?i \<le> j\<close> j by (metis sorted_nth_mono)
    ultimately show "binary_search xs x" by (simp add: binary_search_def Let_def not_less)
  qed
qed

text \<open>Sort, then drop adjacent duplicates: what \<open>sort\<close>, \<open>unique\<close> and \<open>erase\<close> leave.\<close>

definition sort_unique :: "'a::linorder list \<Rightarrow> 'a list" where
  "sort_unique xs = remdups_adj (sort xs)"

lemma sort_unique_set [simp]: "set (sort_unique xs) = set xs"
  by (simp add: sort_unique_def)

lemma sort_unique_sorted [simp]: "sorted (sort_unique xs)"
  by (simp add: sort_unique_def)

lemma sorted_remdups_adj_strict: "sorted xs \<Longrightarrow> sorted_wrt (<) (remdups_adj xs)"
  by (induction xs rule: remdups_adj.induct) (auto simp: less_le)

lemma sort_unique_distinct: "sorted_wrt (<) (sort_unique xs)"
  by (simp add: sort_unique_def sorted_remdups_adj_strict)

lemma sort_unique_length: "length (sort_unique xs) \<le> length xs"
  by (metis length_sort remdups_adj_length sort_unique_def)

lemma sort_unique_Nil [simp]: "sort_unique xs = [] \<longleftrightarrow> xs = []"
  by (metis set_empty sort_unique_set)

section \<open>State machines\<close>

text \<open>
  A run is a fold of the step function. \<open>guarded_run\<close> says that every event of a run is one
  the environment may send in the state it meets.
\<close>

fun guarded_run :: "('s \<Rightarrow> 'e \<Rightarrow> 's) \<Rightarrow> ('s \<Rightarrow> 'e \<Rightarrow> bool) \<Rightarrow> 's \<Rightarrow> 'e list \<Rightarrow> bool" where
  "guarded_run step ok s [] = True"
| "guarded_run step ok s (e # es) = (ok s e \<and> guarded_run step ok (step s e) es)"

lemma guarded_run_append:
  "guarded_run step ok s (es @ fs) \<longleftrightarrow> guarded_run step ok s es \<and> guarded_run step ok (foldl step s es) fs"
  by (induction es arbitrary: s) auto

text \<open>The states that a run leads to.\<close>

definition reached :: "('s \<Rightarrow> 'e \<Rightarrow> 's) \<Rightarrow> ('s \<Rightarrow> 'e \<Rightarrow> bool) \<Rightarrow> 's \<Rightarrow> 's \<Rightarrow> bool" where
  "reached step ok s t \<longleftrightarrow> (\<exists>es. guarded_run step ok s es \<and> t = foldl step s es)"

lemma reached_refl [intro!]: "reached step ok s s"
  unfolding reached_def by (intro exI [of _ "[]"]) simp

lemma reached_step: "reached step ok s t \<Longrightarrow> ok t e \<Longrightarrow> reached step ok s (step t e)"
proof -
  assume "reached step ok s t" "ok t e"
  then obtain es where "guarded_run step ok s es" "t = foldl step s es" by (auto simp: reached_def)
  with \<open>ok t e\<close> show ?thesis
    unfolding reached_def by (intro exI [of _ "es @ [e]"]) (simp add: guarded_run_append)
qed

text \<open>A machine whose every allowed step keeps an invariant keeps it over every run.\<close>

locale machine =
  fixes step :: "'s \<Rightarrow> 'e \<Rightarrow> 's"
    and ok :: "'s \<Rightarrow> 'e \<Rightarrow> bool"
    and inv :: "'s \<Rightarrow> bool"
  assumes inv_step: "inv s \<Longrightarrow> ok s e \<Longrightarrow> inv (step s e)"
begin

lemma inv_run: "inv s \<Longrightarrow> guarded_run step ok s es \<Longrightarrow> inv (foldl step s es)"
  by (induction es arbitrary: s) (auto simp: inv_step)

end

text \<open>A machine with a mark that only moves forward in some order.\<close>

locale ratchet = machine step ok inv
  for step :: "'s \<Rightarrow> 'e \<Rightarrow> 's" and ok inv +
  fixes mark :: "'s \<Rightarrow> 'm"
    and le :: "'m \<Rightarrow> 'm \<Rightarrow> bool"
  assumes le_refl: "le m m"
    and le_trans: "le m n \<Longrightarrow> le n k \<Longrightarrow> le m k"
    and mark_step: "inv s \<Longrightarrow> ok s e \<Longrightarrow> le (mark s) (mark (step s e))"
begin

lemma mark_run: "inv s \<Longrightarrow> guarded_run step ok s es \<Longrightarrow> le (mark s) (mark (foldl step s es))"
proof (induction es arbitrary: s)
  case (Cons e es)
  then have "le (mark s) (mark (step s e))" "le (mark (step s e)) (mark (foldl step (step s e) es))"
    by (simp_all add: mark_step inv_step)
  then show ?case unfolding foldl.simps by (rule le_trans)
qed (simp add: le_refl)

end

text \<open>
  A specification as a partial function on abstract states, replayed over the calls that a
  machine made: a machine refines it when every call was legal and the abstract state is
  the image of the concrete one.
\<close>

fun replay :: "('c \<Rightarrow> 'a \<Rightarrow> 'a option) \<Rightarrow> 'c list \<Rightarrow> 'a \<Rightarrow> 'a option" where
  "replay spec [] a = Some a"
| "replay spec (c # cs) a = (case spec c a of None \<Rightarrow> None | Some b \<Rightarrow> replay spec cs b)"

lemma replay_append [simp]:
  "replay spec (cs @ ds) a = (case replay spec cs a of None \<Rightarrow> None | Some b \<Rightarrow> replay spec ds b)"
  by (induction spec cs a rule: replay.induct) (simp_all split: option.split)

locale refinement = machine step ok inv
  for step :: "'s \<Rightarrow> 'e \<Rightarrow> 's" and ok inv +
  fixes calls :: "'s \<Rightarrow> 'c list"
    and spec :: "'c \<Rightarrow> 'a \<Rightarrow> 'a option"
    and abs_of :: "'s \<Rightarrow> 'a"
  assumes refine_step: "inv s \<Longrightarrow> ok s e \<Longrightarrow>
    \<exists>cs. calls (step s e) = calls s @ cs \<and> replay spec cs (abs_of s) = Some (abs_of (step s e))"
begin

lemma refine_run: "inv s \<Longrightarrow> guarded_run step ok s es \<Longrightarrow>
    \<exists>cs. calls (foldl step s es) = calls s @ cs \<and> replay spec cs (abs_of s) = Some (abs_of (foldl step s es))"
proof (induction es arbitrary: s)
  case (Cons e es)
  then obtain cs where cs: "calls (step s e) = calls s @ cs" "replay spec cs (abs_of s) = Some (abs_of (step s e))"
    using refine_step [of s e] by auto
  from Cons obtain ds where "calls (foldl step (step s e) es) = calls (step s e) @ ds"
    "replay spec ds (abs_of (step s e)) = Some (abs_of (foldl step (step s e) es))"
    using inv_step [of s e] by auto
  with cs show ?case by auto
qed simp

end

text \<open>
  A machine that issues tickets: an event may issue one, and every ticket is accounted for in
  the state from then on.
\<close>

locale ticket_machine = machine step ok inv
  for step :: "'s \<Rightarrow> 'e \<Rightarrow> 's" and ok inv +
  fixes held :: "'s \<Rightarrow> nat \<Rightarrow> nat"
    and issues :: "'e \<Rightarrow> nat option"
  assumes held_step: "inv s \<Longrightarrow> ok s e \<Longrightarrow>
    held (step s e) t = held s t + (if issues e = Some t then 1 else 0)"
begin

lemma held_run: "inv s \<Longrightarrow> guarded_run step ok s es \<Longrightarrow>
    held (foldl step s es) t = held s t + length (filter (\<lambda>e. issues e = Some t) es)"
  by (induction es arbitrary: s) (auto simp: inv_step held_step)

lemma held_once: "inv s \<Longrightarrow> guarded_run step ok s es \<Longrightarrow> held s t = 0 \<Longrightarrow>
    length (filter (\<lambda>e. issues e = Some t) es) \<le> 1 \<Longrightarrow> held (foldl step s es) t \<le> 1"
  by (simp add: held_run)

end

text \<open>A machine that serves in order: who has been served, then who waits, is a line that only grows at its end.\<close>

locale fifo_machine = machine step ok inv
  for step :: "'s \<Rightarrow> 'e \<Rightarrow> 's" and ok inv +
  fixes line :: "'s \<Rightarrow> 't list"
    and joins :: "'e \<Rightarrow> 't list"
  assumes line_step: "inv s \<Longrightarrow> ok s e \<Longrightarrow> line (step s e) = line s @ joins e"
begin

lemma line_run: "inv s \<Longrightarrow> guarded_run step ok s es \<Longrightarrow> line (foldl step s es) = line s @ concat (map joins es)"
  by (induction es arbitrary: s) (auto simp: inv_step line_step)

end

text \<open>
  A machine with a 64-bit generation counter: a step either leaves the counter or adds one.
  As long as fewer than \<open>2 ^ 64\<close> steps run, a token taken before a counting step never
  equals the counter again, which is what makes stale answers detectable.
\<close>

fun tick_count :: "('s \<Rightarrow> 'e \<Rightarrow> 's) \<Rightarrow> ('s \<Rightarrow> 'e \<Rightarrow> bool) \<Rightarrow> 's \<Rightarrow> 'e list \<Rightarrow> nat" where
  "tick_count step ticks s [] = 0"
| "tick_count step ticks s (e # es) =
     (if ticks s e then 1 else 0) + tick_count step ticks (step s e) es"

lemma tick_count_le: "tick_count step ticks s es \<le> length es"
  by (induction es arbitrary: s) (auto simp: le_SucI)

lemma word64_neq: "0 < n \<Longrightarrow> n < 2 ^ 64 \<Longrightarrow> (g :: u64) + of_nat n \<noteq> g"
  by (simp add: word_of_nat_eq_0_iff nat_dvd_not_less)

locale generation_machine =
  fixes step :: "'s \<Rightarrow> 'e \<Rightarrow> 's"
    and gen :: "'s \<Rightarrow> u64"
    and ticks :: "'s \<Rightarrow> 'e \<Rightarrow> bool"
  assumes gen_step: "gen (step s e) = gen s + (if ticks s e then 1 else 0)"
begin

lemma gen_run: "gen (foldl step s es) = gen s + of_nat (tick_count step ticks s es)"
  by (induction es arbitrary: s) (auto simp: gen_step algebra_simps)

lemma stale_token:
  assumes "ticks s e" and "Suc (length es) < 2 ^ 64"
  shows "gen (foldl step s (e # es)) \<noteq> gen s"
proof -
  have "tick_count step ticks s (e # es) \<le> length (e # es)" by (rule tick_count_le)
  with assms have "0 < tick_count step ticks s (e # es)"
    and "tick_count step ticks s (e # es) < 2 ^ 64" by auto
  then show ?thesis unfolding gen_run by (rule word64_neq)
qed

end

end
