(* ===== verification/Platform.thy ===== *)
theory Platform
  imports Prelude
begin

text \<open>
  Code that the sources call and that is not in the repository (GURL, the JSON reader,
  BoringSSL, \<open>base::\<close> string and time helpers) as one record of functions. Every
  definition that uses such code takes the record as its argument \<open>L\<close>; what is relied on
  of it is stated as named laws where it is needed. A \<open>base::DictValue\<close> is the record of
  its typed look-ups. A \<open>double\<close> is its 64-bit IEEE pattern. \<open>base::Time\<close> and
  \<open>base::TimeTicks\<close> are microseconds; an \<open>env\<close> carries the clocks, the random source and
  the fresh token of the one call that is being modelled.
\<close>

section \<open>Values read from a dictionary\<close>

record dict =
  find_int :: "string \<Rightarrow> int option"
  find_bool :: "string \<Rightarrow> bool option"
  find_string :: "string \<Rightarrow> string option"
  find_double :: "string \<Rightarrow> u64 option"
  find_list :: "string \<Rightarrow> string option list option"
  find_dict :: "string \<Rightarrow> (string \<times> string option) list option"
  has_key :: "string \<Rightarrow> bool"

text \<open>
  \<open>find_list\<close> and \<open>find_dict\<close> give, for each item, the string it holds if it is one.
\<close>

definition empty_dict :: dict where
  "empty_dict = \<lparr>find_int = \<lambda>_. None, find_bool = \<lambda>_. None, find_string = \<lambda>_. None,
     find_double = \<lambda>_. None, find_list = \<lambda>_. None, find_dict = \<lambda>_. None,
     has_key = \<lambda>_. False\<rparr>"

text \<open>The header that a subscription cache stores as JSON.\<close>

record sub_header =
  sh_format :: int
  sh_url :: string
  sh_input_format :: string
  sh_rule_type :: string
  sh_sha256 :: string
  sh_fetched :: u64

section \<open>The library record\<close>

record 'u lib =
  gurl :: "string \<Rightarrow> 'u"
  empty_url :: 'u
  url_is_valid :: "'u \<Rightarrow> bool"
  scheme_is_http_or_https :: "'u \<Rightarrow> bool"
  scheme_is_https :: "'u \<Rightarrow> bool"
  has_username :: "'u \<Rightarrow> bool"
  has_password :: "'u \<Rightarrow> bool"
  has_query :: "'u \<Rightarrow> bool"
  has_ref :: "'u \<Rightarrow> bool"
  spec :: "'u \<Rightarrow> string"
  host :: "'u \<Rightarrow> string"
  host_no_brackets :: "'u \<Rightarrow> string"
  host_is_ip :: "'u \<Rightarrow> bool"
  path :: "'u \<Rightarrow> string"
  clear_query_ref :: "'u \<Rightarrow> 'u"
  origin_serialize :: "'u \<Rightarrow> string"
  same_origin :: "'u \<Rightarrow> 'u \<Rightarrow> bool"
  ip_parse :: "string \<Rightarrow> u8 list option"
  ip_is_mapped :: "u8 list \<Rightarrow> bool"
  ip_unmap :: "u8 list \<Rightarrow> u8 list"
  ip_is_public :: "u8 list \<Rightarrow> bool"
  host_registry :: "string \<Rightarrow> string option"
  sha256 :: "string \<Rightarrow> u8 list"
  hex_encode :: "u8 list \<Rightarrow> string"
  ed25519_verify :: "string \<Rightarrow> string \<Rightarrow> string \<Rightarrow> bool"
  base64_decode :: "string \<Rightarrow> string option"
  read_json :: "string \<Rightarrow> dict option"
  write_header :: "sub_header \<Rightarrow> string option"
  is_utf8 :: "string \<Rightarrow> bool"
  to_lower_ascii :: "string \<Rightarrow> string"
  is_alnum :: "char \<Rightarrow> bool"
  trim_ws :: "string \<Rightarrow> string"
  number_to_string :: "nat \<Rightarrow> string"
  string_to_size :: "string \<Rightarrow> nat option"
  time_of_ms :: "u64 \<Rightarrow> int"
  ms_of_time :: "int \<Rightarrow> u64"

record env =
  now :: int
  now_ticks :: int
  rand_int :: "int \<Rightarrow> int \<Rightarrow> int"
  token :: string

section \<open>Time spans and doubles\<close>

definition millis :: "int \<Rightarrow> int" where "millis n = 1000 * n"
definition seconds :: "int \<Rightarrow> int" where "seconds n = 1000000 * n"
definition minutes :: "int \<Rightarrow> int" where "minutes n = seconds (60 * n)"
definition hours :: "int \<Rightarrow> int" where "hours n = minutes (60 * n)"
definition days :: "int \<Rightarrow> int" where "days n = hours (24 * n)"

lemmas span_defs = millis_def seconds_def minutes_def hours_def days_def

unbundle bit_operations_syntax

text \<open>\<open>std::isfinite\<close>: the eleven exponent bits of the IEEE pattern are not all ones.\<close>

definition is_finite_double :: "u64 \<Rightarrow> bool" where
  "is_finite_double w \<longleftrightarrow> drop_bit 52 w AND 0x7FF \<noteq> 0x7FF"

section \<open>\<open>std::string\<close> helpers\<close>

definition starts_with :: "string \<Rightarrow> string \<Rightarrow> bool" where
  "starts_with s p \<longleftrightarrow> take (length p) s = p"

definition ends_with :: "string \<Rightarrow> string \<Rightarrow> bool" where
  "ends_with s p \<longleftrightarrow> length p \<le> length s \<and> drop (length s - length p) s = p"

fun has_substring :: "string \<Rightarrow> string \<Rightarrow> bool" where
  "has_substring [] p = (p = [])"
| "has_substring (c # s) p = (starts_with (c # s) p \<or> has_substring s p)"

lemma ends_with_iff: "ends_with s p \<longleftrightarrow> (\<exists>t. s = t @ p)"
proof
  assume "ends_with s p"
  then show "\<exists>t. s = t @ p"
    by (metis append_take_drop_id ends_with_def)
qed (auto simp: ends_with_def)

lemma starts_with_iff: "starts_with s p \<longleftrightarrow> (\<exists>t. s = p @ t)"
  by (metis append_eq_conv_conj starts_with_def)

text \<open>\<open>find(c)\<close>: the text before the first \<open>c\<close> and the text after it.\<close>

fun split_at :: "char \<Rightarrow> string \<Rightarrow> (string \<times> string) option" where
  "split_at c [] = None"
| "split_at c (x # xs) =
     (if x = c then Some ([], xs)
      else map_option (\<lambda>(a, b). (x # a, b)) (split_at c xs))"

lemma split_at_None: "split_at c s = None \<longleftrightarrow> c \<notin> set s"
  by (induction s) auto

lemma split_at_append: "c \<notin> set a \<Longrightarrow> split_at c (a @ c # b) = Some (a, b)"
  by (induction a) auto

lemma split_at_SomeD: "split_at c s = Some (a, b) \<Longrightarrow> s = a @ c # b \<and> c \<notin> set a"
  by (induction s arbitrary: a b) (auto split: if_splits)

lemma split_at_length: "split_at c s = Some (a, b) \<Longrightarrow> length b < length s"
  by (drule split_at_SomeD) simp

section \<open>Indexes that expire\<close>

text \<open>
  The packaged rules and every subscription are indexes with a validity window: a query at a
  time outside the window never hits. The clients (the rule sources, the service) rely on
  this contract only.
\<close>

locale expiring_index =
  fixes usable :: "'r \<Rightarrow> int \<Rightarrow> bool"
    and hit :: "'r \<Rightarrow> 'u \<Rightarrow> int \<Rightarrow> bool"
    and valid_from :: "'r \<Rightarrow> int"
    and valid_until :: "'r \<Rightarrow> int"
    and eligible :: "'u \<Rightarrow> bool"
  assumes usable_window: "usable r t \<Longrightarrow> valid_from r \<le> t \<and> t < valid_until r"
    and hit_usable: "hit r u t \<Longrightarrow> usable r t"
    and hit_eligible: "hit r u t \<Longrightarrow> eligible u"
begin

lemma no_hit_after: "valid_until r \<le> t \<Longrightarrow> \<not> hit r u t"
  using hit_usable usable_window by force

lemma no_hit_before: "t < valid_from r \<Longrightarrow> \<not> hit r u t"
  using hit_usable usable_window by force

lemma no_hit_ineligible: "\<not> eligible u \<Longrightarrow> \<not> hit r u t"
  using hit_eligible by blast

lemma any_hit_eligible: "\<exists>r \<in> rs. hit r u t \<Longrightarrow> eligible u"
  using hit_eligible by blast

end

end
