(* ===== verification/Local_Rules.thy ===== *)
theory Local_Rules
  imports Platform
begin

text \<open>
  \<open>local_rules.cc\<close>: which URLs may be checked at all, which of them may leave the device,
  and the packaged phishing rules (a sorted vector of SHA-256 digests with a validity
  window of at most seven days).
\<close>

section \<open>Eligible URLs\<close>

definition strip_trailing_dots :: "string \<Rightarrow> string" where
  "strip_trailing_dots h = rev (dropWhile (\<lambda>c. c = CHR ''.'') (rev h))"

definition IsPublicHttpUrl :: "'u lib \<Rightarrow> 'u \<Rightarrow> bool" where
  "IsPublicHttpUrl L url =
     (if \<not> url_is_valid L url \<or> \<not> scheme_is_http_or_https L url \<or> has_username L url \<or>
         has_password L url \<or> length (spec L url) > 4096
      then False
      else let h = strip_trailing_dots (host_no_brackets L url)
           in case ip_parse L h of
                Some a \<Rightarrow> ip_is_public L (if ip_is_mapped L a then ip_unmap L a else a)
              | None \<Rightarrow> CHR ''.'' \<in> set h \<and> h \<noteq> ''localhost'' \<and>
                  \<not> ends_with h ''.localhost'' \<and> \<not> ends_with h ''.local'' \<and>
                  \<not> ends_with h ''.internal'' \<and> \<not> ends_with h ''.home.arpa'')"

text \<open>The loop over the path: the length of the current segment, stopping above 48.\<close>

fun segments_short :: "nat \<Rightarrow> string \<Rightarrow> bool" where
  "segments_short n [] = True"
| "segments_short n (c # cs) =
     (let n' = (if c = CHR ''/'' then 0 else Suc n)
      in if n' > 48 then False else segments_short n' cs)"

definition CloudCheckUrl :: "'u lib \<Rightarrow> 'u \<Rightarrow> 'u" where
  "CloudCheckUrl L url =
     (if \<not> IsPublicHttpUrl L url then empty_url L
      else let p = to_lower_ascii L (path L url)
           in if CHR ''%'' \<in> set p \<or> CHR ''@'' \<in> set p \<or> has_substring p ''token'' \<or>
                 has_substring p ''oauth'' \<or> length p > 256
              then empty_url L
              else if \<not> segments_short 0 p then empty_url L
              else clear_query_ref L url)"

text \<open>The loop accepts exactly the paths in which every slash-free stretch is at most 48 long.\<close>

lemma segments_short_prefix:
  "segments_short n p \<Longrightarrow> CHR ''/'' \<notin> set s \<Longrightarrow> p = s @ b \<Longrightarrow> s \<noteq> [] \<Longrightarrow> n + length s \<le> 48"
proof (induction p arbitrary: n s)
  case Nil
  then show ?case by simp
next
  case (Cons c p)
  then obtain s' where s: "s = c # s'" by (cases s) auto
  with Cons.prems have c: "c \<noteq> CHR ''/''" and rest: "p = s' @ b" "CHR ''/'' \<notin> set s'" by auto
  with Cons.prems(1) have short: "Suc n \<le> 48" "segments_short (Suc n) p"
    by (auto simp: Let_def split: if_splits)
  show ?case
  proof (cases "s' = []")
    case True
    with short s show ?thesis by simp
  next
    case False
    with Cons.IH [OF short(2) rest(2,1)] have "Suc n + length s' \<le> 48" by simp
    with s show ?thesis by simp
  qed
qed

lemma segments_short_infix:
  "segments_short n p \<Longrightarrow> p = a @ s @ b \<Longrightarrow> CHR ''/'' \<notin> set s \<Longrightarrow> length s \<le> 48"
proof (induction a arbitrary: n p)
  case Nil
  then show ?case using segments_short_prefix [of n p s b] by (cases "s = []") auto
next
  case (Cons c a)
  then show ?case by (auto simp: Let_def split: if_splits)
qed

lemma segments_short_complete:
  "(\<And>a s b. p = a @ s @ b \<Longrightarrow> CHR ''/'' \<notin> set s \<Longrightarrow> length s \<le> 48) \<Longrightarrow>
   (\<And>s b. p = s @ b \<Longrightarrow> CHR ''/'' \<notin> set s \<Longrightarrow> n + length s \<le> 48) \<Longrightarrow> segments_short n p"
proof (induction p arbitrary: n)
  case Nil
  then show ?case by simp
next
  case (Cons c p)
  have whole: "length s \<le> 48" if "p = a @ s @ b" "CHR ''/'' \<notin> set s" for a s b
    using Cons.prems(1) [of "c # a" s b] that by simp
  show ?case
  proof (cases "c = CHR ''/''")
    case True
    have "segments_short 0 p"
      by (rule Cons.IH) (use whole [of "[]"] whole in auto)
    with True show ?thesis by simp
  next
    case False
    have start: "Suc n + length s \<le> 48" if "p = s @ b" "CHR ''/'' \<notin> set s" for s b
      using Cons.prems(2) [of "c # s" b] that False by auto
    then have "segments_short (Suc n) p" by (intro Cons.IH) (use whole in auto)
    with start [of "[]" p] False show ?thesis by simp
  qed
qed

lemma segments_short_iff:
  "segments_short 0 p \<longleftrightarrow> (\<forall>a s b. p = a @ s @ b \<and> CHR ''/'' \<notin> set s \<longrightarrow> length s \<le> 48)"
  using segments_short_infix [of 0 p] segments_short_complete [of p 0] by (metis add_0 append_Nil)

section \<open>The packaged rules\<close>

record local_rules =
  lr_status :: string
  lr_version :: string
  lr_generated :: int
  lr_expires :: int
  lr_hashes :: "u8 list list"

definition missing_rules :: local_rules where
  "missing_rules = \<lparr>lr_status = ''missing'', lr_version = [], lr_generated = 0, lr_expires = 0,
     lr_hashes = []\<rparr>"

definition LocalRules_IsUsable :: "local_rules \<Rightarrow> int \<Rightarrow> bool" where
  "LocalRules_IsUsable r t \<longleftrightarrow> lr_status r = ''ready'' \<and> t \<ge> lr_generated r \<and> t < lr_expires r"

definition LocalRules_Matches :: "'u lib \<Rightarrow> local_rules \<Rightarrow> 'u \<Rightarrow> int \<Rightarrow> bool" where
  "LocalRules_Matches L r url t \<longleftrightarrow>
     LocalRules_IsUsable r t \<and> IsPublicHttpUrl L url \<and>
     binary_search (lr_hashes r) (sha256 L (spec L url))"

definition kMaxBytes :: nat where "kMaxBytes = 16 * 1024 * 1024"
definition kMaxRules :: nat where "kMaxRules = 200000"

text \<open>The loop over the \<open>urls\<close> list: \<open>None\<close> as soon as one item is not a public URL.\<close>

fun hash_urls :: "'u lib \<Rightarrow> string option list \<Rightarrow> u8 list list option" where
  "hash_urls L [] = Some []"
| "hash_urls L (None # items) = None"
| "hash_urls L (Some s # items) =
     (if length s > 4096 \<or> \<not> IsPublicHttpUrl L (gurl L s) then None
      else map_option ((#) (sha256 L (spec L (gurl L s)))) (hash_urls L items))"

definition ParseLocalRules :: "'u lib \<Rightarrow> string \<Rightarrow> int \<Rightarrow> local_rules" where
  "ParseLocalRules L json t =
     (let rules = missing_rules\<lparr>lr_status := ''invalid''\<rparr>
      in if length json > kMaxBytes then rules
         else case read_json L json of None \<Rightarrow> rules
         | Some root \<Rightarrow>
           if find_int root ''format'' \<noteq> Some 1 then rules
           else case (find_string root ''version'', find_string root ''source'',
                      find_list root ''urls'', find_double root ''generatedAt'',
                      find_double root ''expiresAt'') of
             (Some version, Some source, Some urls, Some generated, Some expires) \<Rightarrow>
               if version = [] \<or> length version > 80 \<or> source \<noteq> ''Phishing.Database'' \<or>
                  urls = [] \<or> length urls > kMaxRules \<or>
                  \<not> is_finite_double generated \<or> \<not> is_finite_double expires
               then rules
               else let rules = rules\<lparr>lr_generated := time_of_ms L generated,
                                       lr_expires := time_of_ms L expires\<rparr>
                    in if lr_generated rules > t \<or> lr_expires rules \<le> lr_generated rules \<or>
                          lr_expires rules - lr_generated rules > days 7
                       then rules
                       else let rules = rules\<lparr>lr_version := version\<rparr>
                            in if lr_expires rules \<le> t then rules\<lparr>lr_status := ''expired''\<rparr>
                               else case hash_urls L urls of
                                   None \<Rightarrow> missing_rules\<lparr>lr_status := ''invalid''\<rparr>
                                 | Some hs \<Rightarrow> rules\<lparr>lr_hashes := sort_unique hs,
                                                    lr_status := ''ready''\<rparr>
           | _ \<Rightarrow> rules)"

text \<open>
  \<open>LoadLocalRules\<close>: the file is absent, cannot be read within the size limit, or has
  contents (\<open>PathExists\<close> and \<open>ReadFileToStringWithMaxSize\<close> are the arguments).
\<close>

definition LoadLocalRules :: "'u lib \<Rightarrow> bool \<Rightarrow> string option \<Rightarrow> int \<Rightarrow> local_rules" where
  "LoadLocalRules L path_exists contents t =
     (if \<not> path_exists then missing_rules
      else case contents of None \<Rightarrow> missing_rules\<lparr>lr_status := ''invalid''\<rparr>
           | Some json \<Rightarrow> ParseLocalRules L json t)"

text \<open>Packaged rules are an index that expires.\<close>

interpretation local_index: expiring_index LocalRules_IsUsable "LocalRules_Matches L"
    lr_generated lr_expires "IsPublicHttpUrl L" for L :: "'u lib"
  by unfold_locales (auto simp: LocalRules_IsUsable_def LocalRules_Matches_def)

lemma hash_urls_set:
  "hash_urls L items = Some hs \<Longrightarrow>
   set hs = (\<lambda>s. sha256 L (spec L (gurl L s))) ` {s. Some s \<in> set items} \<and>
   (\<forall>s. Some s \<in> set items \<longrightarrow> IsPublicHttpUrl L (gurl L s)) \<and> None \<notin> set items \<and>
   length hs = length items"
proof (induction L items arbitrary: hs rule: hash_urls.induct)
  case (3 L s items)
  then obtain hs' where "hash_urls L items = Some hs'" "hs = sha256 L (spec L (gurl L s)) # hs'"
    by (auto split: if_splits)
  with 3 show ?case by (auto split: if_splits)
qed auto

lemma ParseLocalRules_ready:
  assumes "lr_status (ParseLocalRules L json t) = ''ready''"
  obtains root urls hs where
    "read_json L json = Some root" "find_list root ''urls'' = Some urls"
    "urls \<noteq> []" "length urls \<le> kMaxRules" "length json \<le> kMaxBytes"
    "hash_urls L urls = Some hs"
    "lr_hashes (ParseLocalRules L json t) = sort_unique hs"
    "lr_generated (ParseLocalRules L json t) \<le> t" "t < lr_expires (ParseLocalRules L json t)"
    "lr_expires (ParseLocalRules L json t) - lr_generated (ParseLocalRules L json t) \<le> days 7"
  using assms
  by (auto simp: ParseLocalRules_def missing_rules_def Let_def not_less not_le
      split: option.splits if_splits)

end
