(* ===== verification/Rule_Format.thy ===== *)
theory Rule_Format
  imports Local_Rules
begin

text \<open>
  \<open>rule_update_format.cc\<close>: the update configuration shipped with the application, the
  signed manifest of a rule update, the payload it names, the anti-rollback test and the
  cache file (a decimal length, a newline, the signed manifest, the payload).
\<close>

definition kMaxRuleBytes :: nat where "kMaxRuleBytes = 16 * 1024 * 1024"
definition kMaxManifestBytes :: nat where "kMaxManifestBytes = 16 * 1024"
definition kPublicKeyLen :: nat where "kPublicKeyLen = 32"
definition kSignatureLen :: nat where "kSignatureLen = 64"

definition Endpoint :: "'u lib \<Rightarrow> 'u \<Rightarrow> bool" where
  "Endpoint L url \<longleftrightarrow>
     IsPublicHttpUrl L url \<and> scheme_is_https L url \<and> \<not> has_query L url \<and> \<not> has_ref L url"

definition is_hex_char :: "char \<Rightarrow> bool" where
  "is_hex_char c \<longleftrightarrow> (CHR ''0'' \<le> c \<and> c \<le> CHR ''9'') \<or> (CHR ''a'' \<le> c \<and> c \<le> CHR ''f'')"

definition Hex :: "string \<Rightarrow> nat \<Rightarrow> bool" where
  "Hex s n \<longleftrightarrow> length s = n \<and> list_all is_hex_char s"

section \<open>The update configuration\<close>

record 'u update_config =
  uc_manifest_url :: 'u
  uc_minimum_sequence :: int
  uc_keys :: "(string \<times> string) list"
  uc_status :: string

definition UpdateConfig_valid :: "'u update_config \<Rightarrow> bool" where
  "UpdateConfig_valid c \<longleftrightarrow> uc_status c = ''ready''"

definition initial_config :: "'u lib \<Rightarrow> 'u update_config" where
  "initial_config L = \<lparr>uc_manifest_url = empty_url L, uc_minimum_sequence = 0, uc_keys = [],
     uc_status = ''not_configured''\<rparr>"

text \<open>
  The loop over the keys: each goes into the map as it passes, and the first bad one
  returns the configuration as it is (flag \<open>False\<close>), its status still invalid.
\<close>

fun add_keys ::
  "'u lib \<Rightarrow> (string \<times> string option) list \<Rightarrow> 'u update_config \<Rightarrow> bool \<times> 'u update_config" where
  "add_keys L [] c = (True, c)"
| "add_keys L ((i, None) # ks) c = (False, c)"
| "add_keys L ((i, Some key) # ks) c =
     (if i = [] \<or> length i > 32 \<or>
         \<not> list_all (\<lambda>x. is_alnum L x \<or> x = CHR ''_'' \<or> x = CHR ''-'') i
      then (False, c)
      else case base64_decode L key of None \<Rightarrow> (False, c)
        | Some decoded \<Rightarrow>
            if length decoded \<noteq> kPublicKeyLen then (False, c)
            else add_keys L ks (c\<lparr>uc_keys :=
              (if i \<in> fst ` set (uc_keys c) then uc_keys c else om_put i decoded (uc_keys c))\<rparr>))"

definition ParseUpdateConfig :: "'u lib \<Rightarrow> string \<Rightarrow> 'u update_config" where
  "ParseUpdateConfig L json =
     (if json = [] then initial_config L
      else let config = (initial_config L)\<lparr>uc_status := ''invalid_config''\<rparr>
      in if length json > kMaxManifestBytes then config
      else case read_json L json of None \<Rightarrow> config
      | Some root \<Rightarrow>
        if find_int root ''format'' \<noteq> Some 1 then config
        else case (find_string root ''manifestUrl'', find_dict root ''keys'',
                   find_int root ''minimumSequence'') of
          (Some endpoint, Some keys, Some minimum) \<Rightarrow>
            if keys = [] \<or> length keys > 4 \<or> minimum < 0 then config
            else let config = config\<lparr>uc_manifest_url := gurl L endpoint\<rparr>
            in if \<not> Endpoint L (uc_manifest_url config) then config
               else (case add_keys L keys config of
                   (False, config) \<Rightarrow> config
                 | (True, config) \<Rightarrow>
                     config\<lparr>uc_minimum_sequence := minimum, uc_status := ''ready''\<rparr>)
        | _ \<Rightarrow> config)"

section \<open>The signed manifest\<close>

record 'u rule_manifest =
  rm_sequence :: int
  rm_size :: int
  rm_count :: int
  rm_rules_url :: 'u
  rm_sha256 :: string
  rm_version :: string
  rm_generated :: int
  rm_expires :: int

text \<open>The envelope: its signed text, if the signature verifies under a configured key.\<close>

definition OpenEnvelope :: "'u lib \<Rightarrow> string \<Rightarrow> 'u update_config \<Rightarrow> string option" where
  "OpenEnvelope L json config =
     (if \<not> UpdateConfig_valid config \<or> length json > kMaxManifestBytes then None
      else case read_json L json of None \<Rightarrow> None
      | Some envelope \<Rightarrow>
        if find_int envelope ''format'' \<noteq> Some 1 then None
        else case (find_string envelope ''keyId'', find_string envelope ''signed'',
                   find_string envelope ''signature'') of
          (Some i, Some encoded, Some signature) \<Rightarrow>
            (case map_of (uc_keys config) i of None \<Rightarrow> None
             | Some key \<Rightarrow>
               (case base64_decode L encoded of None \<Rightarrow> None
                | Some message \<Rightarrow>
                  if length message > 8192 then None
                  else case base64_decode L signature of None \<Rightarrow> None
                  | Some sig \<Rightarrow>
                    if length sig \<noteq> kSignatureLen \<or> \<not> ed25519_verify L message sig key
                    then None else Some message))
        | _ \<Rightarrow> None)"

definition ReadManifest ::
  "'u lib \<Rightarrow> string \<Rightarrow> 'u update_config \<Rightarrow> int \<Rightarrow> int \<Rightarrow> 'u rule_manifest option" where
  "ReadManifest L message config minimum_sequence t =
     (case read_json L message of None \<Rightarrow> None
      | Some root \<Rightarrow>
        if find_int root ''format'' \<noteq> Some 1 then None
        else case (find_int root ''sequence'', find_int root ''size'', find_int root ''count'',
                   find_double root ''generatedAt'', find_double root ''expiresAt'',
                   find_string root ''rulesUrl'', find_string root ''sha256'',
                   find_string root ''version'') of
          (Some seqn, Some sz, Some count, Some generated, Some expires, Some url,
           Some digest, Some version) \<Rightarrow>
            if seqn < 1 \<or> seqn < max minimum_sequence (uc_minimum_sequence config) \<or>
               sz \<le> 0 \<or> sz > int kMaxRuleBytes \<or> count < 1 \<or> count > 200000 \<or>
               \<not> is_finite_double generated \<or> \<not> is_finite_double expires \<or>
               \<not> Hex digest 64 \<or> \<not> Hex version 40
            then None
            else let m = \<lparr>rm_sequence = seqn, rm_size = sz, rm_count = count,
                          rm_rules_url = gurl L url, rm_sha256 = digest, rm_version = version,
                          rm_generated = time_of_ms L generated,
                          rm_expires = time_of_ms L expires\<rparr>
            in if \<not> Endpoint L (rm_rules_url m) \<or>
                  \<not> same_origin L (rm_rules_url m) (uc_manifest_url config) \<or>
                  rm_generated m > t \<or> rm_expires m \<le> t \<or> rm_expires m \<le> rm_generated m \<or>
                  rm_expires m - rm_generated m > days 7
               then None else Some m
        | _ \<Rightarrow> None)"

definition VerifyRuleManifest ::
  "'u lib \<Rightarrow> string \<Rightarrow> 'u update_config \<Rightarrow> int \<Rightarrow> int \<Rightarrow> 'u rule_manifest option" where
  "VerifyRuleManifest L json config minimum_sequence t =
     (case OpenEnvelope L json config of None \<Rightarrow> None
      | Some message \<Rightarrow> ReadManifest L message config minimum_sequence t)"

definition VerifyRulePayload ::
  "'u lib \<Rightarrow> string \<Rightarrow> 'u rule_manifest \<Rightarrow> int \<Rightarrow> local_rules option" where
  "VerifyRulePayload L payload m t =
     (if int (length payload) \<noteq> rm_size m \<or>
         to_lower_ascii L (hex_encode L (sha256 L payload)) \<noteq> rm_sha256 m
      then None
      else case read_json L payload of None \<Rightarrow> None
      | Some root \<Rightarrow>
        (case find_list root ''urls'' of None \<Rightarrow> None
         | Some urls \<Rightarrow>
           if int (length urls) \<noteq> rm_count m then None
           else let rules = ParseLocalRules L payload t
                in if \<not> LocalRules_IsUsable rules t \<or> lr_version rules \<noteq> rm_version m \<or>
                      lr_generated rules \<noteq> rm_generated m \<or> lr_expires rules \<noteq> rm_expires m
                   then None else Some rules))"

definition AcceptRuleSequence :: "'u rule_manifest \<Rightarrow> int \<Rightarrow> string \<Rightarrow> bool" where
  "AcceptRuleSequence m installed_sequence installed_digest \<longleftrightarrow>
     rm_sequence m > installed_sequence \<or>
     (rm_sequence m = installed_sequence \<and> installed_digest \<noteq> [] \<and>
      rm_sha256 m = installed_digest)"

section \<open>The cache file\<close>

definition EncodeRuleCache :: "'u lib \<Rightarrow> string \<Rightarrow> string \<Rightarrow> string" where
  "EncodeRuleCache L manifest payload =
     number_to_string L (length manifest) @ [CHR 0x0A] @ manifest @ payload"

definition DecodeRuleCache :: "'u lib \<Rightarrow> string \<Rightarrow> (string \<times> string) option" where
  "DecodeRuleCache L cache =
     (case split_at (CHR 0x0A) cache of None \<Rightarrow> None
      | Some (prefix, rest) \<Rightarrow>
        if length prefix > 6 then None
        else case string_to_size L prefix of None \<Rightarrow> None
        | Some len \<Rightarrow>
          if len = 0 \<or> len > kMaxManifestBytes \<or> length cache \<le> length prefix + 1 + len \<or>
             length cache - length prefix - 1 - len > kMaxRuleBytes
          then None
          else Some (take len rest, drop len rest))"

text \<open>
  What the cache needs of \<open>base::NumberToString\<close> and \<open>base::StringToSizeT\<close>: a decimal
  numeral has no newline, at most as many characters as digits are needed, and reads back.
\<close>

definition decimal_laws :: "'u lib \<Rightarrow> bool" where
  "decimal_laws L \<longleftrightarrow>
     (\<forall>n. string_to_size L (number_to_string L n) = Some n \<and>
          CHR 0x0A \<notin> set (number_to_string L n) \<and>
          (n < 1000000 \<longrightarrow> length (number_to_string L n) \<le> 6))"

lemma cache_roundtrip:
  assumes "decimal_laws L" and "manifest \<noteq> []" and "length manifest \<le> kMaxManifestBytes"
    and "payload \<noteq> []" and "length payload \<le> kMaxRuleBytes"
  shows "DecodeRuleCache L (EncodeRuleCache L manifest payload) = Some (manifest, payload)"
proof -
  let ?n = "number_to_string L (length manifest)"
  have len: "length manifest < 1000000" using assms(3) by (simp add: kMaxManifestBytes_def)
  have n: "CHR 0x0A \<notin> set ?n" "length ?n \<le> 6" "string_to_size L ?n = Some (length manifest)"
    using assms(1) len by (auto simp: decimal_laws_def)
  have "split_at (CHR 0x0A) (?n @ CHR 0x0A # manifest @ payload) = Some (?n, manifest @ payload)"
    using n(1) by (rule split_at_append)
  then show ?thesis
    using n assms(2-5) by (simp add: DecodeRuleCache_def EncodeRuleCache_def)
qed

text \<open>Whatever the decoder accepts is within the limits and is the text of the cache.\<close>

lemma cache_decoded_bounds:
  assumes "DecodeRuleCache L cache = Some (manifest, payload)"
  shows "0 < length manifest \<and> length manifest \<le> kMaxManifestBytes \<and> 0 < length payload \<and>
         length payload \<le> kMaxRuleBytes \<and>
         (\<exists>prefix. length prefix \<le> 6 \<and> cache = prefix @ CHR 0x0A # manifest @ payload)"
proof -
  obtain prefix rest len where split: "split_at (CHR 0x0A) cache = Some (prefix, rest)"
    and bounds: "length prefix \<le> 6" "len \<noteq> 0" "len \<le> kMaxManifestBytes"
      "length prefix + 1 + len < length cache"
      "length cache - length prefix - 1 - len \<le> kMaxRuleBytes"
    and res: "manifest = take len rest" "payload = drop len rest"
    using assms by (auto simp: DecodeRuleCache_def not_le not_less split: option.splits if_splits prod.splits)
  have cache: "cache = prefix @ CHR 0x0A # rest" using split_at_SomeD [OF split] by simp
  then have "len < length rest" using bounds(4) by simp
  then have "length manifest = len" "length payload = length rest - len" "manifest @ payload = rest"
    using res by auto
  with bounds cache show ?thesis by (intro conjI exI [of _ prefix]) auto
qed

section \<open>What a verified manifest and payload guarantee\<close>

lemma OpenEnvelope_Some:
  assumes "OpenEnvelope L json config = Some message"
  obtains envelope i key signature sig where
    "UpdateConfig_valid config" "read_json L json = Some envelope"
    "find_string envelope ''keyId'' = Some i" "map_of (uc_keys config) i = Some key"
    "find_string envelope ''signature'' = Some signature"
    "base64_decode L signature = Some sig" "length sig = kSignatureLen"
    "ed25519_verify L message sig key" "length message \<le> 8192"
  using assms by (auto simp: OpenEnvelope_def split: option.splits if_splits)

lemma ReadManifest_Some:
  assumes "ReadManifest L message config minimum t = Some m"
  shows "max minimum (uc_minimum_sequence config) \<le> rm_sequence m \<and> 1 \<le> rm_sequence m \<and>
         0 < rm_size m \<and> rm_size m \<le> int kMaxRuleBytes \<and>
         1 \<le> rm_count m \<and> rm_count m \<le> 200000 \<and>
         Endpoint L (rm_rules_url m) \<and> same_origin L (rm_rules_url m) (uc_manifest_url config) \<and>
         rm_generated m \<le> t \<and> t < rm_expires m \<and>
         rm_expires m - rm_generated m \<le> days 7 \<and>
         Hex (rm_sha256 m) 64 \<and> Hex (rm_version m) 40"
  using assms by (auto simp: ReadManifest_def Let_def split: option.splits if_splits)

lemma VerifyRulePayload_Some:
  assumes "VerifyRulePayload L payload m t = Some rules"
  shows "int (length payload) = rm_size m \<and>
         to_lower_ascii L (hex_encode L (sha256 L payload)) = rm_sha256 m \<and>
         rules = ParseLocalRules L payload t \<and> LocalRules_IsUsable rules t \<and>
         lr_version rules = rm_version m \<and> lr_generated rules = rm_generated m \<and>
         lr_expires rules = rm_expires m"
  using assms by (auto simp: VerifyRulePayload_def Let_def split: option.splits if_splits)

lemma AcceptRuleSequence_ge: "AcceptRuleSequence m s d \<Longrightarrow> s \<le> rm_sequence m"
  by (auto simp: AcceptRuleSequence_def)

lemma add_keys_length:
  "add_keys L ks c = (b, c') \<Longrightarrow>
   (\<forall>k \<in> snd ` set (uc_keys c). length k = kPublicKeyLen) \<Longrightarrow>
   (\<forall>k \<in> snd ` set (uc_keys c'). length k = kPublicKeyLen) \<and> uc_status c' = uc_status c \<and>
   uc_manifest_url c' = uc_manifest_url c \<and>
   length (uc_keys c') \<le> length (uc_keys c) + length ks"
proof (induction L ks c rule: add_keys.induct)
  case (3 L i key ks c)
  show ?case
  proof (cases "add_keys L ((i, Some key) # ks) c = (False, c)")
    case True
    with 3 show ?thesis by simp
  next
    case False
    then obtain decoded where dec: "base64_decode L key = Some decoded"
        "length decoded = kPublicKeyLen"
      and ok: "\<not> (i = [] \<or> length i > 32 \<or>
         \<not> list_all (\<lambda>x. is_alnum L x \<or> x = CHR ''_'' \<or> x = CHR ''-'') i)"
      by (auto split: if_splits option.splits)
    let ?c = "c\<lparr>uc_keys :=
        (if i \<in> fst ` set (uc_keys c) then uc_keys c else om_put i decoded (uc_keys c))\<rparr>"
    have rec: "add_keys L ks ?c = (b, c')" using "3.prems"(1) dec ok by simp
    have keys: "\<forall>k \<in> snd ` set (uc_keys ?c). length k = kPublicKeyLen"
      using "3.prems"(2) dec(2) om_set_put [of i decoded "uc_keys c"] by auto
    have len: "length (uc_keys ?c) \<le> Suc (length (uc_keys c))"
      using om_length_put_le [of i decoded "uc_keys c"] by simp
    have "(\<forall>k \<in> snd ` set (uc_keys c'). length k = kPublicKeyLen) \<and> uc_status c' = uc_status ?c \<and>
        uc_manifest_url c' = uc_manifest_url ?c \<and>
        length (uc_keys c') \<le> length (uc_keys ?c) + length ks"
      by (rule "3.IH" [OF ok dec(1) _ rec keys]) (use dec(2) in simp)
    with len show ?thesis by simp
  qed
qed auto

lemma ParseUpdateConfig_ready:
  assumes "UpdateConfig_valid (ParseUpdateConfig L json)"
  shows "Endpoint L (uc_manifest_url (ParseUpdateConfig L json)) \<and>
         0 \<le> uc_minimum_sequence (ParseUpdateConfig L json) \<and>
         length (uc_keys (ParseUpdateConfig L json)) \<le> 4 \<and>
         (\<forall>k \<in> snd ` set (uc_keys (ParseUpdateConfig L json)). length k = kPublicKeyLen)"
proof -
  obtain root endpoint keys minimum c' where
    root: "json \<noteq> []" "length json \<le> kMaxManifestBytes" "read_json L json = Some root"
      "find_int root ''format'' = Some 1"
      "find_string root ''manifestUrl'' = Some endpoint" "find_dict root ''keys'' = Some keys"
      "find_int root ''minimumSequence'' = Some minimum"
    and ok: "keys \<noteq> []" "length keys \<le> 4" "0 \<le> minimum" "Endpoint L (gurl L endpoint)"
    and keys: "add_keys L keys ((initial_config L)\<lparr>uc_status := ''invalid_config'',
        uc_manifest_url := gurl L endpoint\<rparr>) = (True, c')"
    using assms
    by (auto simp: ParseUpdateConfig_def UpdateConfig_valid_def initial_config_def Let_def
        split: if_splits option.splits prod.splits bool.splits dest: add_keys_length)
  have res: "ParseUpdateConfig L json =
      c'\<lparr>uc_minimum_sequence := minimum, uc_status := ''ready''\<rparr>"
    using root ok keys by (simp add: ParseUpdateConfig_def Let_def)
  show ?thesis
    using add_keys_length [OF keys] ok by (simp add: res initial_config_def)
qed

end
