(* ===== verification/Subscription_Rules.thy ===== *)
theory Subscription_Rules
  imports Rule_Format
begin

text \<open>
  \<open>subscription_rules.cc\<close>: user-selected threat lists. A list is parsed line by line into
  a sorted vector of SHA-256 digests; the memory the vector may take (its capacity) is part
  of the model because the code limits it. A host matches a suffix rule when the digest of
  the host or of one of its parent domains is in the vector.
\<close>

definition kSubscriptionMaxBytes :: nat where "kSubscriptionMaxBytes = 16 * 1024 * 1024"
definition kSubscriptionMaxRecords :: nat where "kSubscriptionMaxRecords = 500000"
definition kSubscriptionTotalRecords :: nat where "kSubscriptionTotalRecords = 1000000"
definition kSubscriptionMaxSources :: nat where "kSubscriptionMaxSources = 8"

record sub_rules =
  sr_error :: string
  sr_rule_type :: string
  sr_digest :: string
  sr_input_count :: nat
  sr_rejected_broad_count :: nat
  sr_fetched :: int
  sr_hashes :: "u8 list list"
  sr_capacity :: nat

definition empty_sub_rules :: sub_rules where
  "empty_sub_rules = \<lparr>sr_error = [], sr_rule_type = [], sr_digest = [], sr_input_count = 0,
     sr_rejected_broad_count = 0, sr_fetched = 0, sr_hashes = [], sr_capacity = 0\<rparr>"

section \<open>Domains\<close>

definition bad_label :: "'u lib \<Rightarrow> string \<Rightarrow> bool" where
  "bad_label L label \<longleftrightarrow>
     label = [] \<or> length label > 63 \<or> hd label = CHR ''-'' \<or> last label = CHR ''-'' \<or>
     \<not> list_all (\<lambda>c. is_alnum L c \<or> c = CHR ''-'') label"

text \<open>
  The loop over the labels: after a last dot at the very end \<open>start\<close> equals the size and
  the loop stops, so an empty tail is not a label (the caller has refused such hosts).
\<close>

function labels_ok :: "'u lib \<Rightarrow> string \<Rightarrow> bool" where
  "labels_ok L s =
     (if s = [] then True
      else case split_at (CHR ''.'') s of
        None \<Rightarrow> \<not> bad_label L s
      | Some (label, rest) \<Rightarrow> \<not> bad_label L label \<and> labels_ok L rest)"
  by pat_completeness auto
termination
  by (relation "measure (\<lambda>(L, s). length s)") (auto dest: split_at_length)

declare labels_ok.simps [simp del]

definition drop_last_dot :: "string \<Rightarrow> string" where
  "drop_last_dot h = (if ends_with h ''.'' then butlast h else h)"

definition forbidden_domain_chars :: string where
  "forbidden_domain_chars =
     ''/:@?#%*[]'' @ [CHR 0x5C, CHR '' '', CHR 0x09, CHR 0x0D, CHR 0x0A]"

text \<open>The result is the canonical host (or \<open>[]\<close>) and the flag \<open>broad\<close>.\<close>

definition CanonicalDomain :: "'u lib \<Rightarrow> string \<Rightarrow> string \<times> bool" where
  "CanonicalDomain L content =
     (if content = [] \<or> length content > 1024 \<or> (\<exists>c \<in> set content. c \<in> set forbidden_domain_chars)
      then ([], False)
      else let url = gurl L (''https://'' @ content @ ''/'')
      in if \<not> IsPublicHttpUrl L url \<or> host_is_ip L url then ([], False)
      else let h = drop_last_dot (host L url)
      in if h = [] \<or> length h > 253 \<or> starts_with h ''.'' \<or> ends_with h ''.'' \<or>
            has_substring h ''..''
         then ([], False)
      else if \<not> labels_ok L h then ([], False)
      else case host_registry L h of
          None \<Rightarrow> ([], False)
        | Some registry \<Rightarrow> if registry = [] then ([], True) else (h, False))"

definition ValidSubscriptionEndpoint :: "'u lib \<Rightarrow> 'u \<Rightarrow> bool" where
  "ValidSubscriptionEndpoint L url \<longleftrightarrow>
     IsPublicHttpUrl L url \<and> scheme_is_https L url \<and> \<not> has_ref L url"

definition ValidSubscriptionFormat :: "string \<Rightarrow> string \<Rightarrow> bool" where
  "ValidSubscriptionFormat format rule_type \<longleftrightarrow>
     (format = ''domains'' \<and> (rule_type = ''host_exact'' \<or> rule_type = ''host_suffix'')) \<or>
     (format = ''urls'' \<and> rule_type = ''url_exact'')"

section \<open>Matching\<close>

definition SubscriptionRules_usable :: "sub_rules \<Rightarrow> int \<Rightarrow> bool" where
  "SubscriptionRules_usable r t \<longleftrightarrow>
     sr_error r = [] \<and> sr_hashes r \<noteq> [] \<and> t \<ge> sr_fetched r \<and> t < sr_fetched r + days 7"

text \<open>The loop over the host: itself, then what follows each dot.\<close>

function match_host :: "(string \<Rightarrow> bool) \<Rightarrow> bool \<Rightarrow> string \<Rightarrow> bool" where
  "match_host contains suffix candidate =
     (if contains candidate then True
      else case split_at (CHR ''.'') candidate of
        None \<Rightarrow> False
      | Some (label, rest) \<Rightarrow> if \<not> suffix then False else match_host contains suffix rest)"
  by pat_completeness auto
termination
  by (relation "measure (\<lambda>(f, b, s). length s)") (auto dest: split_at_length)

declare match_host.simps [simp del]

definition SubscriptionRules_Matches :: "'u lib \<Rightarrow> sub_rules \<Rightarrow> 'u \<Rightarrow> int \<Rightarrow> bool" where
  "SubscriptionRules_Matches L r url t =
     (if \<not> SubscriptionRules_usable r t \<or> \<not> IsPublicHttpUrl L url then False
      else let contains = (\<lambda>v. binary_search (sr_hashes r) (sha256 L v))
           in if sr_rule_type r = ''url_exact'' then contains (spec L url)
              else match_host contains (sr_rule_type r = ''host_suffix'')
                     (drop_last_dot (host L url)))"

interpretation sub_index: expiring_index SubscriptionRules_usable "SubscriptionRules_Matches L"
    sr_fetched "\<lambda>r. sr_fetched r + days 7" "IsPublicHttpUrl L" for L :: "'u lib"
  by unfold_locales (auto simp: SubscriptionRules_usable_def SubscriptionRules_Matches_def
      split: if_splits)

text \<open>Reference: the host and all its parent domains.\<close>

definition is_parent_domain :: "string \<Rightarrow> string \<Rightarrow> bool" where
  "is_parent_domain p h \<longleftrightarrow> h = p \<or> (\<exists>a. h = a @ CHR ''.'' # p)"

lemma match_host_exact: "match_host contains False h \<longleftrightarrow> contains h"
  by (subst match_host.simps) (auto split: option.splits)

lemma match_host_suffix:
  "match_host contains True h \<longleftrightarrow> (\<exists>p. is_parent_domain p h \<and> contains p)"
proof (induction contains "True" h rule: match_host.induct)
  case (1 contains h)
  show ?case
  proof (cases "contains h")
    case True
    then show ?thesis by (subst match_host.simps) (auto simp: is_parent_domain_def)
  next
    case False
    show ?thesis
    proof (cases "split_at (CHR ''.'') h")
      case None
      then have "CHR ''.'' \<notin> set h" by (simp add: split_at_None)
      then have "is_parent_domain p h \<longleftrightarrow> p = h" for p by (auto simp: is_parent_domain_def)
      with False None show ?thesis by (subst match_host.simps) auto
    next
      case (Some ab)
      then obtain a b where ab: "split_at (CHR ''.'') h = Some (a, b)" by (cases ab) auto
      then have h: "h = a @ CHR ''.'' # b" and a: "CHR ''.'' \<notin> set a"
        by (auto dest: split_at_SomeD)
      have parents: "is_parent_domain p h \<longleftrightarrow> p = h \<or> is_parent_domain p b" for p
      proof
        assume "is_parent_domain p h"
        then consider "p = h" | c where "h = c @ CHR ''.'' # p"
          by (auto simp: is_parent_domain_def)
        then show "p = h \<or> is_parent_domain p b"
        proof cases
          case 2
          with h a have "(c = a \<and> p = b) \<or> (\<exists>d. c = a @ CHR ''.'' # d \<and> b = d @ CHR ''.'' # p)"
            by (auto simp: append_eq_append_conv2 Cons_eq_append_conv append_eq_Cons_conv)
          then show ?thesis by (auto simp: is_parent_domain_def)
        qed simp
      next
        assume "p = h \<or> is_parent_domain p b"
        then show "is_parent_domain p h"
          unfolding is_parent_domain_def h by (metis append.assoc append_Cons)
      qed
      have "match_host contains True h = match_host contains True b"
        using False ab by (subst match_host.simps) simp
      also have "\<dots> \<longleftrightarrow> (\<exists>p. is_parent_domain p b \<and> contains p)"
        using "1.hyps" [OF False ab] by simp
      finally show ?thesis using parents False by auto
    qed
  qed
qed

section \<open>Parsing a list\<close>

text \<open>
  The state of the loop: the counters, the digests in reverse order of insertion and the
  capacity of the vector. \<open>Inl\<close> is an early return with its error.
\<close>

record parse_state =
  ps_count :: nat
  ps_broad :: nat
  ps_rev_hashes :: "u8 list list"
  ps_capacity :: nat

definition CanonicalRule :: "'u lib \<Rightarrow> string \<Rightarrow> string \<Rightarrow> string \<times> bool" where
  "CanonicalRule L format line =
     (if format = ''domains'' then CanonicalDomain L line
      else if (\<forall>c \<in> set line. c \<noteq> CHR '' '' \<and> c \<noteq> CHR 0x09 \<and> c \<noteq> CHR 0x0D) \<and>
              (starts_with line ''https://'' \<or> starts_with line ''http://'')
      then let url = gurl L line in (if IsPublicHttpUrl L url then spec L url else [], False)
      else ([], False))"

definition ParseLine ::
  "'u lib \<Rightarrow> string \<Rightarrow> string \<Rightarrow> parse_state \<Rightarrow> (string \<times> parse_state) + parse_state" where
  "ParseLine L format raw_line s =
     (let line = trim_ws L raw_line
      in if line = [] \<or> starts_with line ''#'' then Inr s
      else let s = s\<lparr>ps_count := Suc (ps_count s)\<rparr>
      in if ps_count s > kSubscriptionMaxRecords then Inl (''record_limit'', s)
      else case CanonicalRule L format line of (canonical, broad) \<Rightarrow>
        if broad then Inr (s\<lparr>ps_broad := Suc (ps_broad s)\<rparr>)
        else if canonical = [] then Inl (''invalid_rule'', s)
        else let s = (if length (ps_rev_hashes s) = ps_capacity s
                      then s\<lparr>ps_capacity := max (ps_capacity s)
                               (min kSubscriptionMaxRecords (max 1024 (ps_capacity s * 2)))\<rparr>
                      else s)
             in Inr (s\<lparr>ps_rev_hashes := sha256 L canonical # ps_rev_hashes s\<rparr>))"

function ParseLines ::
  "'u lib \<Rightarrow> string \<Rightarrow> string \<Rightarrow> parse_state \<Rightarrow> (string \<times> parse_state) + parse_state" where
  "ParseLines L format content s =
     (if content = [] then Inr s
      else case (case split_at (CHR 0x0A) content of None \<Rightarrow> (content, []) | Some p \<Rightarrow> p) of
        (line, rest) \<Rightarrow>
          (case ParseLine L format line s of
             Inl e \<Rightarrow> Inl e
           | Inr s' \<Rightarrow> ParseLines L format rest s'))"
  by pat_completeness auto
termination
  by (relation "measure (\<lambda>(L, f, content, s). length content)")
    (auto split: option.splits dest: split_at_length)

declare ParseLines.simps [simp del]

definition utf8_bom :: string where "utf8_bom = [CHR 0xEF, CHR 0xBB, CHR 0xBF]"

definition ParseSubscriptionRules ::
  "'u lib \<Rightarrow> string \<Rightarrow> string \<Rightarrow> string \<Rightarrow> int \<Rightarrow> sub_rules" where
  "ParseSubscriptionRules L content format rule_type fetched =
     (let rules = empty_sub_rules\<lparr>sr_error := ''invalid_format''\<rparr>
      in if \<not> ValidSubscriptionFormat format rule_type then rules
      else if length content > kSubscriptionMaxBytes then rules\<lparr>sr_error := ''byte_limit''\<rparr>
      else if \<not> is_utf8 L content \<or> CHR 0x00 \<in> set content then rules\<lparr>sr_error := ''invalid_utf8''\<rparr>
      else let rules = rules\<lparr>sr_digest := to_lower_ascii L (hex_encode L (sha256 L content)),
                              sr_rule_type := rule_type, sr_fetched := fetched\<rparr>;
               body = (if starts_with content utf8_bom then drop 3 content else content);
               s0 = \<lparr>ps_count = 0, ps_broad = 0, ps_rev_hashes = [],
                     ps_capacity = min (length body div 32) kSubscriptionMaxRecords\<rparr>
           in case ParseLines L format body s0 of
                Inl (e, s) \<Rightarrow> rules\<lparr>sr_error := e, sr_input_count := ps_count s,
                  sr_rejected_broad_count := ps_broad s, sr_hashes := [],
                  sr_capacity := ps_capacity s\<rparr>
              | Inr s \<Rightarrow> let hs = sort_unique (rev (ps_rev_hashes s))
                  in rules\<lparr>sr_error := (if hs = [] then ''empty_rules'' else []),
                     sr_input_count := ps_count s, sr_rejected_broad_count := ps_broad s,
                     sr_hashes := hs, sr_capacity := length hs\<rparr>)"

text \<open>The loop never holds more digests than its capacity, nor more than the limit.\<close>

definition parse_inv :: "parse_state \<Rightarrow> bool" where
  "parse_inv s \<longleftrightarrow>
     length (ps_rev_hashes s) + ps_broad s \<le> ps_count s \<and>
     ps_count s \<le> kSubscriptionMaxRecords \<and>
     length (ps_rev_hashes s) \<le> ps_capacity s \<and> ps_capacity s \<le> kSubscriptionMaxRecords"

definition parse_out_inv :: "parse_state \<Rightarrow> bool" where
  "parse_out_inv s \<longleftrightarrow> ps_capacity s \<le> kSubscriptionMaxRecords"

lemma ParseLine_inv:
  assumes "parse_inv s"
  shows "case ParseLine L format line s of Inl (e, s') \<Rightarrow> parse_out_inv s' \<and> e \<noteq> []
         | Inr s' \<Rightarrow> parse_inv s'"
  using assms
  by (auto simp: ParseLine_def parse_inv_def parse_out_inv_def Let_def kSubscriptionMaxRecords_def
      split: prod.splits)

lemma ParseLines_inv:
  "parse_inv s \<Longrightarrow> case ParseLines L format content s of Inl (e, s') \<Rightarrow> parse_out_inv s' \<and> e \<noteq> []
         | Inr s' \<Rightarrow> parse_inv s'"
proof (induction L format content s rule: ParseLines.induct)
  case (1 L format content s)
  show ?case
  proof (cases "content = []")
    case True
    with 1 show ?thesis by (subst ParseLines.simps) simp
  next
    case False
    obtain line rest where split:
      "(case split_at (CHR 0x0A) content of None \<Rightarrow> (content, []) | Some p \<Rightarrow> p) = (line, rest)"
      by (meson surj_pair)
    show ?thesis
    proof (cases "ParseLine L format line s")
      case (Inl e)
      with ParseLine_inv [OF "1.prems", of L format line] False split show ?thesis
        by (subst ParseLines.simps) simp
    next
      case (Inr s')
      then have "parse_inv s'" using ParseLine_inv [OF "1.prems", of L format line] by simp
      then show ?thesis
        using "1.IH" [OF False split [symmetric] Inr] False split Inr
        by (subst ParseLines.simps) simp
    qed
  qed
qed

lemma ParseSubscriptionRules_wf:
  fixes L :: "'u lib" and content format rule_type :: string and fetched :: int
  defines "r \<equiv> ParseSubscriptionRules L content format rule_type fetched"
  shows "sorted_wrt (<) (sr_hashes r) \<and> length (sr_hashes r) \<le> sr_capacity r \<and>
         sr_capacity r \<le> kSubscriptionMaxRecords \<and>
         (sr_error r = [] \<longrightarrow> sr_hashes r \<noteq> [] \<and> sr_capacity r = length (sr_hashes r) \<and>
            sr_rule_type r = rule_type \<and> sr_fetched r = fetched)"
proof -
  let ?body = "if starts_with content utf8_bom then drop 3 content else content"
  let ?s0 = "\<lparr>ps_count = 0, ps_broad = 0, ps_rev_hashes = [],
      ps_capacity = min (length ?body div 32) kSubscriptionMaxRecords\<rparr>"
  have "parse_inv ?s0" by (simp add: parse_inv_def)
  then have inv: "case ParseLines L format ?body ?s0 of
      Inl (e, s') \<Rightarrow> parse_out_inv s' \<and> e \<noteq> [] | Inr s' \<Rightarrow> parse_inv s'"
    by (rule ParseLines_inv)
  have len: "length (sort_unique (rev (ps_rev_hashes s))) \<le> kSubscriptionMaxRecords"
    if "parse_inv s" for s
    using that sort_unique_length [of "rev (ps_rev_hashes s)"] by (simp add: parse_inv_def)
  show ?thesis
    using inv len
    by (auto simp: r_def ParseSubscriptionRules_def empty_sub_rules_def Let_def parse_out_inv_def
        sort_unique_distinct simp del: sort_unique_Nil
        split: sum.splits prod.splits)
qed

lemma sub_sorted: "sorted (sr_hashes (ParseSubscriptionRules L content format rule_type fetched))"
  using ParseSubscriptionRules_wf [of L content format rule_type fetched]
  by (simp add: strict_sorted_iff)

section \<open>The cache of a subscription\<close>

definition EncodeSubscriptionCache :: "'u lib \<Rightarrow> 'u \<Rightarrow> string \<Rightarrow> sub_rules \<Rightarrow> string \<Rightarrow> string" where
  "EncodeSubscriptionCache L endpoint format r raw =
     (case write_header L \<lparr>sh_format = 1, sh_url = spec L endpoint, sh_input_format = format,
             sh_rule_type = sr_rule_type r, sh_sha256 = sr_digest r,
             sh_fetched = ms_of_time L (sr_fetched r)\<rparr> of
        None \<Rightarrow> []
      | Some header \<Rightarrow> EncodeRuleCache L header raw)"

definition DecodeSubscriptionCache ::
  "'u lib \<Rightarrow> string \<Rightarrow> 'u \<Rightarrow> string \<Rightarrow> string \<Rightarrow> int \<Rightarrow> sub_rules" where
  "DecodeSubscriptionCache L cache endpoint format rule_type t =
     (let invalid = empty_sub_rules\<lparr>sr_error := ''cache_invalid''\<rparr>
      in case DecodeRuleCache L cache of None \<Rightarrow> invalid
      | Some (header, raw) \<Rightarrow>
        (case read_json L header of None \<Rightarrow> invalid
         | Some meta \<Rightarrow>
           if find_int meta ''format'' \<noteq> Some 1 then invalid
           else let matches = (\<lambda>key expected. find_string meta key = Some expected)
           in case find_double meta ''fetchedAt'' of None \<Rightarrow> invalid
           | Some time \<Rightarrow>
             if \<not> matches ''url'' (spec L endpoint) \<or> \<not> matches ''inputFormat'' format \<or>
                \<not> matches ''ruleType'' rule_type \<or> \<not> is_finite_double time
             then invalid
             else let fetched = time_of_ms L time
             in if fetched > t then invalid
             else if fetched + days 7 \<le> t then invalid\<lparr>sr_error := ''cache_expired''\<rparr>
             else let rules = ParseSubscriptionRules L raw format rule_type fetched
             in if \<not> SubscriptionRules_usable rules t \<or> \<not> matches ''sha256'' (sr_digest rules)
                then invalid else rules))"

text \<open>
  What the cache needs of the JSON reader and writer and of the clock: a written header is
  short, not empty, and reads back field by field; a finite time survives the conversion.
\<close>

definition header_laws :: "'u lib \<Rightarrow> bool" where
  "header_laws L \<longleftrightarrow> decimal_laws L \<and>
     (\<forall>h text. write_header L h = Some text \<longrightarrow> text \<noteq> [] \<and>
        (\<exists>meta. read_json L text = Some meta \<and> find_int meta ''format'' = Some (sh_format h) \<and>
           find_string meta ''url'' = Some (sh_url h) \<and>
           find_string meta ''inputFormat'' = Some (sh_input_format h) \<and>
           find_string meta ''ruleType'' = Some (sh_rule_type h) \<and>
           find_string meta ''sha256'' = Some (sh_sha256 h) \<and>
           find_double meta ''fetchedAt'' = Some (sh_fetched h)))"

lemma subscription_cache_roundtrip:
  fixes L :: "'u lib"
  assumes laws: "header_laws L"
    and parsed: "r = ParseSubscriptionRules L raw format rule_type fetched" "sr_error r = []"
    and header: "write_header L \<lparr>sh_format = 1, sh_url = spec L endpoint,
        sh_input_format = format, sh_rule_type = rule_type, sh_sha256 = sr_digest r,
        sh_fetched = ms_of_time L fetched\<rparr> = Some text"
    and size: "length text \<le> kMaxManifestBytes" "raw \<noteq> []"
    and time: "time_of_ms L (ms_of_time L fetched) = fetched"
      "is_finite_double (ms_of_time L fetched)" "fetched \<le> t" "t < fetched + days 7"
  shows "DecodeSubscriptionCache L (EncodeSubscriptionCache L endpoint format r raw)
           endpoint format rule_type t = r"
proof -
  have wf: "sr_rule_type r = rule_type" "sr_fetched r = fetched" "sr_hashes r \<noteq> []"
    using ParseSubscriptionRules_wf [of L raw format rule_type fetched] parsed by auto
  have "length raw \<le> kMaxRuleBytes"
    using parsed by (auto simp: ParseSubscriptionRules_def kSubscriptionMaxBytes_def
        kMaxRuleBytes_def empty_sub_rules_def Let_def split: if_splits)
  moreover have "text \<noteq> []" using laws header by (auto simp: header_laws_def)
  ultimately have dec: "DecodeRuleCache L (EncodeRuleCache L text raw) = Some (text, raw)"
    using laws size by (intro cache_roundtrip) (auto simp: header_laws_def)
  obtain meta where meta: "read_json L text = Some meta" "find_int meta ''format'' = Some 1"
      "find_string meta ''url'' = Some (spec L endpoint)"
      "find_string meta ''inputFormat'' = Some format"
      "find_string meta ''ruleType'' = Some rule_type"
      "find_string meta ''sha256'' = Some (sr_digest r)"
      "find_double meta ''fetchedAt'' = Some (ms_of_time L fetched)"
    using laws header by (fastforce simp: header_laws_def)
  have "SubscriptionRules_usable r t"
    using wf parsed(2) time by (simp add: SubscriptionRules_usable_def)
  with meta dec wf header time parsed(1) show ?thesis
    by (simp add: DecodeSubscriptionCache_def EncodeSubscriptionCache_def Let_def)
qed

lemma DecodeSubscriptionCache_ok:
  assumes "sr_error (DecodeSubscriptionCache L cache endpoint format rule_type t) = []"
  shows "SubscriptionRules_usable (DecodeSubscriptionCache L cache endpoint format rule_type t) t \<and>
    (\<exists>raw fetched. DecodeSubscriptionCache L cache endpoint format rule_type t =
       ParseSubscriptionRules L raw format rule_type fetched \<and> fetched \<le> t)"
  using assms
  by (auto simp: DecodeSubscriptionCache_def empty_sub_rules_def Let_def not_less
      split: option.splits if_splits prod.splits)

lemma DecodeSubscriptionCache_capacity:
  "sr_capacity (DecodeSubscriptionCache L cache endpoint format rule_type t)
     \<le> kSubscriptionMaxRecords"
  using ParseSubscriptionRules_wf [of L _ format rule_type]
  by (auto simp: DecodeSubscriptionCache_def empty_sub_rules_def Let_def
      split: option.splits prod.splits)

end
