(* ===== verification/Site_Verdict.thy ===== *)
theory Site_Verdict
  imports Platform
begin

text \<open>
  \<open>url_protection.h\<close> (the verdicts and the result of a check) and
  \<open>site_verdict_state.h\<close> (the state that ties a result to the navigation it belongs to).
  The operations of \<open>SiteVerdictState\<close> are one definition each; \<open>sv_step\<close> is the machine
  they form. \<open>generation_\<close> is a 64-bit word, so the stale-answer test is proved with its
  wrap-around.
\<close>

section \<open>Results\<close>

datatype verdict = kUnknown | kNoMatch | kPhishing | kMalware | kOther

record 'u result =
  r_verdict :: verdict
  r_source :: string
  r_reason :: string
  r_url :: 'u
  r_matched_source_ids :: "string list"
  r_rule_type :: string

definition dangerous :: "'u result \<Rightarrow> bool" where
  "dangerous r \<longleftrightarrow> r_verdict r = kPhishing \<or> r_verdict r = kMalware \<or>
     (r_verdict r = kOther \<and> r_matched_source_ids r \<noteq> [])"

definition mk_result :: "verdict \<Rightarrow> string \<Rightarrow> string \<Rightarrow> 'u \<Rightarrow> 'u result" where
  "mk_result v source reason url =
     \<lparr>r_verdict = v, r_source = source, r_reason = reason, r_url = url,
      r_matched_source_ids = [], r_rule_type = []\<rparr>"

section \<open>Snapshots\<close>

record 'u snapshot =
  navigation_id :: string
  sn_url :: 'u
  sn_revision :: int
  sn_verdict :: string
  checked_at :: u64
  sn_matched_source_ids :: "string list"
  sn_rule_type :: string

record 'u site_state =
  current :: "'u snapshot"
  committed :: "'u snapshot"
  pending_navigation :: bool
  generation :: u64

definition empty_snapshot :: "'u \<Rightarrow> 'u snapshot" where
  "empty_snapshot u = \<lparr>navigation_id = [], sn_url = u, sn_revision = 0,
     sn_verdict = ''unchecked'', checked_at = 0, sn_matched_source_ids = [], sn_rule_type = []\<rparr>"

definition IsDangerous :: "'u snapshot \<Rightarrow> bool" where
  "IsDangerous s \<longleftrightarrow> sn_verdict s = ''phishing'' \<or> sn_verdict s = ''malware'' \<or>
     sn_matched_source_ids s \<noteq> []"

definition Reset :: "'u snapshot \<Rightarrow> int \<Rightarrow> bool \<Rightarrow> 'u snapshot" where
  "Reset s revision enabled =
     s\<lparr>sn_revision := revision, sn_verdict := (if enabled then ''unchecked'' else ''skipped''),
       checked_at := 0, sn_matched_source_ids := [], sn_rule_type := []\<rparr>"

section \<open>Operations\<close>

definition fresh_site_state :: "'u \<Rightarrow> 'u site_state" where
  "fresh_site_state u = \<lparr>current = empty_snapshot u, committed = empty_snapshot u,
     pending_navigation = False, generation = 0\<rparr>"

definition Initialize :: "'u \<Rightarrow> int \<Rightarrow> bool \<Rightarrow> 'u site_state \<Rightarrow> 'u site_state" where
  "Initialize url revision enabled s =
     (let c = Reset ((current s)\<lparr>sn_url := url\<rparr>) revision enabled
      in s\<lparr>current := c, committed := c\<rparr>)"

definition IsCurrent :: "string \<Rightarrow> 'u site_state \<Rightarrow> bool" where
  "IsCurrent i s \<longleftrightarrow> i \<noteq> [] \<and> navigation_id (current s) = i"

definition Begin ::
  "'u \<Rightarrow> string \<Rightarrow> 'u \<Rightarrow> int \<Rightarrow> bool \<Rightarrow> 'u site_state \<Rightarrow> bool \<times> 'u site_state" where
  "Begin no_url i url revision enabled s =
     (if IsCurrent i s then (False, s)
      else let c = (empty_snapshot no_url)\<lparr>navigation_id := i, sn_url := url\<rparr>
           in (True, s\<lparr>generation := generation s + 1, pending_navigation := True,
                       current := Reset c revision enabled\<rparr>))"

definition Redirect :: "'u \<Rightarrow> int \<Rightarrow> bool \<Rightarrow> 'u site_state \<Rightarrow> 'u site_state" where
  "Redirect url revision enabled s =
     s\<lparr>generation := generation s + 1,
       current := Reset ((current s)\<lparr>sn_url := url\<rparr>) revision enabled\<rparr>"

definition Finish :: "bool \<Rightarrow> 'u \<Rightarrow> 'u site_state \<Rightarrow> 'u site_state" where
  "Finish has_committed url s =
     (let s = s\<lparr>generation := generation s + 1, pending_navigation := False\<rparr>
      in if has_committed
         then let c = (if \<not> IsDangerous (current s) then (current s)\<lparr>sn_url := url\<rparr> else current s)
              in s\<lparr>current := c, committed := c\<rparr>
         else s\<lparr>current := committed s\<rparr>)"

definition SameDocumentCommit ::
  "string \<Rightarrow> 'u \<Rightarrow> int \<Rightarrow> bool \<Rightarrow> 'u site_state \<Rightarrow> 'u site_state" where
  "SameDocumentCommit i url revision enabled s =
     (let s = s\<lparr>generation := generation s + 1\<rparr>;
          c = (if sn_url (committed s) \<noteq> url \<or> sn_revision (committed s) \<noteq> revision \<or>
                  sn_verdict (committed s) = ''checking''
               then Reset ((committed s)\<lparr>sn_url := url\<rparr>) revision enabled
               else committed s);
          c = c\<lparr>navigation_id := i\<rparr>;
          s = s\<lparr>committed := c\<rparr>
      in if \<not> pending_navigation s then s\<lparr>current := c\<rparr> else s)"

definition PolicyChanged :: "int \<Rightarrow> bool \<Rightarrow> bool \<Rightarrow> 'u site_state \<Rightarrow> 'u site_state" where
  "PolicyChanged revision current_enabled committed_enabled s =
     s\<lparr>generation := generation s + 1,
       current := Reset (current s) revision current_enabled,
       committed := Reset (committed s) revision committed_enabled\<rparr>"

definition verdict_name :: "verdict \<Rightarrow> string" where
  "verdict_name v = (case v of kNoMatch \<Rightarrow> ''no_match'' | kPhishing \<Rightarrow> ''phishing''
     | kMalware \<Rightarrow> ''malware'' | kOther \<Rightarrow> ''other'' | kUnknown \<Rightarrow> ''unknown'')"

definition Report :: "'u result \<Rightarrow> bool \<Rightarrow> bool \<Rightarrow> u64 \<Rightarrow> 'u site_state \<Rightarrow> 'u site_state" where
  "Report r checking enabled t s =
     (let c = (if dangerous r then (current s)\<lparr>sn_url := r_url r\<rparr> else current s);
          c = c\<lparr>sn_matched_source_ids := r_matched_source_ids r, sn_rule_type := r_rule_type r,
                checked_at := 0\<rparr>
      in s\<lparr>current :=
        (if \<not> enabled \<or> r_reason r = ''one_navigation_bypass'' then c\<lparr>sn_verdict := ''skipped''\<rparr>
         else if checking \<and> \<not> dangerous r then c\<lparr>sn_verdict := ''checking''\<rparr>
         else c\<lparr>sn_verdict := verdict_name (r_verdict r), checked_at := t\<rparr>)\<rparr>)"

definition NeedsCommittedCheck :: "'u site_state \<Rightarrow> bool" where
  "NeedsCommittedCheck s \<longleftrightarrow> \<not> pending_navigation s \<and>
     (sn_verdict (current s) = ''unchecked'' \<or> sn_verdict (current s) = ''checking'')"

definition StartCommittedCheck :: "'u site_state \<Rightarrow> u64 \<times> 'u site_state" where
  "StartCommittedCheck s =
     (let s = s\<lparr>generation := generation s + 1\<rparr>;
          c = (current s)\<lparr>sn_verdict := ''checking'', checked_at := 0\<rparr>
      in (generation s, s\<lparr>current := c, committed := c\<rparr>))"

definition CompleteCommittedCheck ::
  "u64 \<Rightarrow> int \<Rightarrow> 'u result \<Rightarrow> u64 \<Rightarrow> 'u site_state \<Rightarrow> bool \<times> 'u site_state" where
  "CompleteCommittedCheck g revision r t s =
     (if pending_navigation s \<or> g \<noteq> generation s \<or> revision \<noteq> sn_revision (current s) \<or>
         r_url r \<noteq> sn_url (current s)
      then (False, s)
      else let s = Report r False True t s in (True, s\<lparr>committed := current s\<rparr>))"

section \<open>The machine\<close>

datatype 'u sv_event =
    EvBegin string 'u int bool
  | EvRedirect 'u int bool
  | EvFinish bool 'u
  | EvSameDocument string 'u int bool
  | EvPolicy int bool bool
  | EvReport "'u result" bool bool u64
  | EvStart
  | EvComplete u64 int "'u result" u64

fun sv_step :: "'u \<Rightarrow> 'u site_state \<Rightarrow> 'u sv_event \<Rightarrow> 'u site_state" where
  "sv_step nu s (EvBegin i u r e) = snd (Begin nu i u r e s)"
| "sv_step nu s (EvRedirect u r e) = Redirect u r e s"
| "sv_step nu s (EvFinish c u) = Finish c u s"
| "sv_step nu s (EvSameDocument i u r e) = SameDocumentCommit i u r e s"
| "sv_step nu s (EvPolicy r a b) = PolicyChanged r a b s"
| "sv_step nu s (EvReport r c e t) = Report r c e t s"
| "sv_step nu s EvStart = snd (StartCommittedCheck s)"
| "sv_step nu s (EvComplete g r res t) = snd (CompleteCommittedCheck g r res t s)"

text \<open>Which steps end the life of earlier tokens.\<close>

fun sv_ticks :: "'u site_state \<Rightarrow> 'u sv_event \<Rightarrow> bool" where
  "sv_ticks s (EvBegin i u r e) = (\<not> IsCurrent i s)"
| "sv_ticks s (EvReport r c e t) = False"
| "sv_ticks s (EvComplete g r res t) = False"
| "sv_ticks s _ = True"

lemmas sv_op_defs = Initialize_def Begin_def Redirect_def Finish_def SameDocumentCommit_def
  PolicyChanged_def Report_def StartCommittedCheck_def CompleteCommittedCheck_def Reset_def Let_def

interpretation sv: generation_machine "sv_step nu" generation sv_ticks for nu :: 'u
proof unfold_locales
  fix s :: "'u site_state" and e
  show "generation (sv_step nu s e) = generation s + (if sv_ticks s e then 1 else 0)"
    by (cases e) (auto simp: sv_op_defs)
qed

lemma stale_check_ignored:
  assumes "sv_ticks s e" and "Suc (length es) < 2 ^ 64"
  shows "CompleteCommittedCheck (generation s) revision r t (foldl (sv_step nu) s (e # es)) =
           (False, foldl (sv_step nu) s (e # es))"
  using sv.stale_token [OF assms, of nu] by (auto simp: CompleteCommittedCheck_def)

section \<open>Agreement of the two snapshots\<close>

text \<open>
  Outside a navigation the current and the committed snapshot agree. The callers send a
  redirect or a report only for the navigation in flight, and compute the two flags of a
  policy change from the two URLs with one function; \<open>sv_protocol\<close> states both.
\<close>

fun sv_protocol :: "('u \<Rightarrow> bool) \<Rightarrow> 'u site_state \<Rightarrow> 'u sv_event \<Rightarrow> bool" where
  "sv_protocol en s (EvRedirect u r e) = pending_navigation s"
| "sv_protocol en s (EvReport r c e t) = pending_navigation s"
| "sv_protocol en s (EvPolicy r a b) = (a = en (sn_url (current s)) \<and> b = en (sn_url (committed s)))"
| "sv_protocol en s EvStart = NeedsCommittedCheck s"
| "sv_protocol en s _ = True"

definition sv_agree :: "'u site_state \<Rightarrow> bool" where
  "sv_agree s \<longleftrightarrow> (\<not> pending_navigation s \<longrightarrow> current s = committed s)"

lemma sv_agree_step: "sv_agree s \<Longrightarrow> sv_protocol en s e \<Longrightarrow> sv_agree (sv_step nu s e)"
  by (cases e) (auto simp: sv_agree_def sv_op_defs NeedsCommittedCheck_def)

interpretation sv_guarded: machine "sv_step nu" "sv_protocol en" sv_agree
  for nu :: 'u and en :: "'u \<Rightarrow> bool"
  by unfold_locales (rule sv_agree_step)

lemma sv_agree_init: "sv_agree (Initialize u r e (fresh_site_state nu))"
  by (simp add: sv_agree_def Initialize_def Let_def)

section \<open>Blocked navigations and cancelled ones\<close>

lemma Report_dangerous_snapshot:
  assumes "dangerous r" and "r_reason r \<noteq> ''one_navigation_bypass''"
  shows "IsDangerous (current (Report r checking True t s)) \<and>
         sn_url (current (Report r checking True t s)) = r_url r"
  using assms by (auto simp: Report_def dangerous_def IsDangerous_def verdict_name_def Let_def)

lemma blocked_target_survives_commit:
  assumes "dangerous r" and "r_reason r \<noteq> ''one_navigation_bypass''"
  shows "sn_url (committed (Finish True url (Report r checking True t s))) = r_url r \<and>
         IsDangerous (committed (Finish True url (Report r checking True t s)))"
  using Report_dangerous_snapshot [OF assms, of "checking" t s]
  by (simp add: Finish_def Let_def IsDangerous_def)

text \<open>
  While a navigation is in flight, nothing but a same-document commit or a policy change
  touches the committed snapshot, and an abort brings it back.
\<close>

definition sv_foreign :: "'u sv_event \<Rightarrow> bool" where
  "sv_foreign e \<longleftrightarrow> (case e of EvRedirect _ _ _ \<Rightarrow> True | EvReport _ _ _ _ \<Rightarrow> True
     | EvComplete _ _ _ _ \<Rightarrow> True | EvBegin _ _ _ _ \<Rightarrow> True | _ \<Rightarrow> False)"

lemma in_flight_keeps_committed:
  "pending_navigation s \<Longrightarrow> list_all sv_foreign es \<Longrightarrow>
   pending_navigation (foldl (sv_step nu) s es) \<and>
   committed (foldl (sv_step nu) s es) = committed s"
proof (induction es arbitrary: s)
  case (Cons e es)
  have "pending_navigation (sv_step nu s e) \<and> committed (sv_step nu s e) = committed s"
    using Cons.prems by (cases e) (auto simp: sv_op_defs sv_foreign_def)
  with Cons show ?case by simp
qed simp

lemma abort_restores_committed:
  assumes "pending_navigation s" and "list_all sv_foreign es"
  shows "current (Finish False url (foldl (sv_step nu) s es)) = committed s"
  using in_flight_keeps_committed [OF assms, of nu] by (simp add: Finish_def Let_def)

end
