(* ===== verification/Sample_Platform.thy ===== *)
theory Sample_Platform
  imports Subscription_Rules Site_Verdict
begin

text \<open>
  A concrete platform for the witnesses: a URL is its own text, a digest is the text's
  bytes, numbers print in decimal, and a JSON text is looked up in a given table. It shows
  that the laws the properties assume of the external code can hold together.
\<close>

fun to_decimal :: "nat \<Rightarrow> string" where
  "to_decimal n = (if n < 10 then [char_of (48 + n)]
                   else to_decimal (n div 10) @ [char_of (48 + n mod 10)])"

declare to_decimal.simps [simp del]

definition of_decimal :: "string \<Rightarrow> nat" where
  "of_decimal s = foldl (\<lambda>a c. 10 * a + (of_char c - 48)) 0 s"

definition is_digit :: "char \<Rightarrow> bool" where
  "is_digit c \<longleftrightarrow> CHR ''0'' \<le> c \<and> c \<le> CHR ''9''"

lemma digit_char: "d < 10 \<Longrightarrow> of_char (char_of (48 + d :: nat)) = 48 + d"
  by (simp add: take_bit_eq_mod)

lemma to_decimal_read: "of_decimal (to_decimal n) = n"
proof (induction n rule: to_decimal.induct)
  case (1 n)
  show ?case
  proof (cases "n < 10")
    case True
    then show ?thesis
      by (subst to_decimal.simps) (simp add: of_decimal_def digit_char)
  next
    case False
    with 1 have "of_decimal (to_decimal (n div 10)) = n div 10" by simp
    with False show ?thesis
      by (subst to_decimal.simps) (simp add: of_decimal_def digit_char)
  qed
qed

lemma to_decimal_no_newline: "CHR 0x0A \<notin> set (to_decimal n)"
proof (induction n rule: to_decimal.induct)
  case (1 n)
  have ne: "CHR 0x0A \<noteq> char_of (48 + d :: nat)" if "d < 10" for d
  proof
    assume "CHR 0x0A = char_of (48 + d)"
    then have "of_char (CHR 0x0A) = (48 + d :: nat)" using digit_char [OF that] by metis
    then show False by simp
  qed
  show ?case
  proof (cases "n < 10")
    case True
    with ne show ?thesis by (subst to_decimal.simps) simp
  next
    case False
    with 1 ne [of "n mod 10"] show ?thesis by (subst to_decimal.simps) simp
  qed
qed

lemma to_decimal_length: "n < 10 ^ Suc k \<Longrightarrow> length (to_decimal n) \<le> Suc k"
proof (induction k arbitrary: n)
  case 0
  then show ?case by (subst to_decimal.simps) simp
next
  case (Suc k)
  show ?case
  proof (cases "n < 10")
    case True
    then show ?thesis by (subst to_decimal.simps) simp
  next
    case False
    have "n div 10 < 10 ^ Suc k" using Suc.prems by (simp add: less_mult_imp_div_less)
    then have "length (to_decimal (n div 10)) \<le> Suc k" by (rule Suc.IH)
    with False show ?thesis by (subst to_decimal.simps) simp
  qed
qed

definition url_rest :: "string \<Rightarrow> string" where
  "url_rest u = drop 8 u"

definition sample_lib :: "(string \<Rightarrow> dict option) \<Rightarrow> (sub_header \<Rightarrow> string option) \<Rightarrow> string lib" where
  "sample_lib json header =
     \<lparr>gurl = (\<lambda>s. s), empty_url = [], url_is_valid = (\<lambda>u. u \<noteq> []),
      scheme_is_http_or_https = (\<lambda>u. starts_with u ''https://''),
      scheme_is_https = (\<lambda>u. starts_with u ''https://''),
      has_username = (\<lambda>u. False), has_password = (\<lambda>u. False),
      has_query = (\<lambda>u. CHR ''?'' \<in> set u), has_ref = (\<lambda>u. CHR ''#'' \<in> set u),
      spec = (\<lambda>u. u),
      host = (\<lambda>u. takeWhile (\<lambda>c. c \<noteq> CHR ''/'') (url_rest u)),
      host_no_brackets = (\<lambda>u. takeWhile (\<lambda>c. c \<noteq> CHR ''/'') (url_rest u)),
      host_is_ip = (\<lambda>u. False),
      path = (\<lambda>u. takeWhile (\<lambda>c. c \<noteq> CHR ''?'' \<and> c \<noteq> CHR ''#'')
                   (dropWhile (\<lambda>c. c \<noteq> CHR ''/'') (url_rest u))),
      clear_query_ref = (\<lambda>u. takeWhile (\<lambda>c. c \<noteq> CHR ''?'' \<and> c \<noteq> CHR ''#'') u),
      origin_serialize = (\<lambda>u. ''https://'' @ takeWhile (\<lambda>c. c \<noteq> CHR ''/'') (url_rest u)),
      same_origin = (\<lambda>u v. takeWhile (\<lambda>c. c \<noteq> CHR ''/'') (url_rest u) =
                            takeWhile (\<lambda>c. c \<noteq> CHR ''/'') (url_rest v)),
      ip_parse = (\<lambda>s. None), ip_is_mapped = (\<lambda>a. False), ip_unmap = (\<lambda>a. a),
      ip_is_public = (\<lambda>a. True),
      host_registry = (\<lambda>h. if CHR ''.'' \<in> set h then Some ''test'' else Some []),
      sha256 = (\<lambda>s. map of_char s), hex_encode = (\<lambda>bs. map (\<lambda>b. char_of (unat b)) bs),
      ed25519_verify = (\<lambda>m s k. True), base64_decode = (\<lambda>s. Some s),
      read_json = json, write_header = header,
      is_utf8 = (\<lambda>s. True), to_lower_ascii = (\<lambda>s. s), is_alnum = (\<lambda>c. c \<noteq> CHR ''-''),
      trim_ws = (\<lambda>s. s),
      number_to_string = to_decimal, string_to_size = (\<lambda>s. Some (of_decimal s)),
      time_of_ms = (\<lambda>w. 1000 * uint w), ms_of_time = (\<lambda>t. word_of_int (t div 1000))\<rparr>"

text \<open>The platform without any JSON.\<close>

definition plain_lib :: "string lib" where
  "plain_lib = sample_lib (\<lambda>_. None) (\<lambda>_. None)"

lemmas sample_defs = plain_lib_def sample_lib_def url_rest_def

lemma sample_ops:
  "trim_ws (sample_lib j h) s = s" "sha256 (sample_lib j h) s = map of_char s"
  "is_utf8 (sample_lib j h) s = True" "gurl (sample_lib j h) s = s" "spec (sample_lib j h) s = s"
  "to_lower_ascii (sample_lib j h) s = s" "read_json (sample_lib j h) = j"
  "hex_encode (sample_lib j h) d = map (\<lambda>b. char_of (unat b)) d"
  by (simp_all add: sample_lib_def)

lemma char_word_unat: "unat (of_char c :: u8) = of_char c"
  by (cases c) simp

lemma sample_decimal_laws: "decimal_laws (sample_lib json header)"
  using to_decimal_length [of _ 5]
  by (simp add: decimal_laws_def sample_lib_def to_decimal_read to_decimal_no_newline)

end
