(* ===== verification/Rule_Sources.thy ===== *)
theory Rule_Sources
  imports Subscription_Rules Site_Verdict
begin

text \<open>
  \<open>rule_sources.cc\<close>: the subscriptions of a profile. One download is active at a time; each
  answer of the loader or of the worker carries the source id and the generation it was
  started with and is dropped when either has changed. \<open>so_tasks\<close> holds the answers that
  have been posted and not yet delivered, with the arguments bound to them; \<open>so_timer\<close> is
  the delay the one-shot timer was started with. \<open>so_crashed\<close> records an \<open>entries_.at()\<close> on
  a missing key.
\<close>

section \<open>Configurations\<close>

record recommendation =
  rc_id :: string
  rc_name :: string
  rc_url :: string
  rc_license :: string
  rc_attribution :: string
  rc_license_url :: string

definition kRecommendations :: "recommendation list" where
  "kRecommendations =
    [\<lparr>rc_id = ''hagezi-tif-mini'', rc_name = ''HaGeZi Threat Intelligence Feeds Mini'',
      rc_url = ''https://raw.githubusercontent.com/hagezi/dns-blocklists/main/wildcard/'' @
               ''tif.mini-onlydomains.txt'',
      rc_license = ''GPL-3.0'', rc_attribution = ''HaGeZi DNS Blocklists'',
      rc_license_url = ''https://github.com/hagezi/dns-blocklists/blob/main/LICENSE''\<rparr>,
     \<lparr>rc_id = ''phishdestroy-content'', rc_name = ''PhishDestroy Active Content'',
      rc_url = ''https://raw.githubusercontent.com/phishdestroy/destroylist/main/dns/'' @
               ''content_active.txt'',
      rc_license = ''MIT'', rc_attribution = ''PhishDestroy contributors'',
      rc_license_url = ''https://github.com/phishdestroy/destroylist/blob/main/LICENSE''\<rparr>]"

definition FindRecommendation :: "string \<Rightarrow> recommendation option" where
  "FindRecommendation i = List.find (\<lambda>r. rc_id r = i) kRecommendations"

definition String_field :: "dict \<Rightarrow> string \<Rightarrow> string" where
  "String_field v key = (case find_string v key of Some s \<Rightarrow> s | None \<Rightarrow> [])"

record config =
  cf_id :: string
  cf_name :: string
  cf_url :: string
  cf_format :: string
  cf_rule_type :: string
  cf_recommendation :: string
  cf_enabled :: bool

definition Validate :: "'u lib \<Rightarrow> config \<Rightarrow> bool" where
  "Validate L c =
     (if cf_id c = [] \<or> length (cf_id c) > 64 \<or>
         \<not> list_all (\<lambda>x. is_alnum L x \<or> x = CHR ''-'') (cf_id c) \<or>
         cf_name c = [] \<or> length (cf_name c) > 120 \<or> \<not> is_utf8 L (cf_name c) \<or>
         (\<exists>x \<in> set (cf_name c). (of_char x :: nat) < 32) \<or>
         \<not> ValidSubscriptionEndpoint L (gurl L (cf_url c)) \<or>
         \<not> ValidSubscriptionFormat (cf_format c) (cf_rule_type c)
      then False
      else if cf_recommendation c = [] then True
      else case FindRecommendation (cf_recommendation c) of None \<Rightarrow> False
        | Some item \<Rightarrow> cf_url c = rc_url item \<and> cf_format c = ''domains'' \<and>
            cf_rule_type c = ''host_suffix'')"

definition FromValue :: "dict \<Rightarrow> config" where
  "FromValue v = \<lparr>cf_id = String_field v ''sourceId'', cf_name = String_field v ''name'',
     cf_url = String_field v ''url'', cf_format = String_field v ''format'',
     cf_rule_type = String_field v ''ruleType'', cf_recommendation = String_field v ''recommendationId'',
     cf_enabled = (case find_bool v ''enabled'' of Some b \<Rightarrow> b | None \<Rightarrow> False)\<rparr>"

section \<open>Worker functions\<close>

text \<open>
  \<open>Restore\<close>: for each configured source, \<open>files\<close> says whether its cache file exists and what
  can be read of it within the size limit. The sum of the capacities is bounded.
\<close>

fun RestoreLoop ::
  "'u lib \<Rightarrow> (string \<Rightarrow> string option option) \<Rightarrow> int \<Rightarrow> config list \<Rightarrow> nat \<Rightarrow>
   (string \<times> sub_rules) list \<Rightarrow> (string \<times> sub_rules) list" where
  "RestoreLoop L files t [] acc restored = restored"
| "RestoreLoop L files t (c # cs) acc restored =
     (case files (cf_id c) of None \<Rightarrow> RestoreLoop L files t cs acc restored
      | Some contents \<Rightarrow>
        let rules = (case contents of
                       None \<Rightarrow> empty_sub_rules\<lparr>sr_error := ''cache_invalid''\<rparr>
                     | Some cache \<Rightarrow> DecodeSubscriptionCache L cache (gurl L (cf_url c))
                         (cf_format c) (cf_rule_type c) t);
            rules = (if acc + sr_capacity rules > kSubscriptionTotalRecords
                     then empty_sub_rules\<lparr>sr_error := ''total_record_limit''\<rparr> else rules)
        in RestoreLoop L files t cs (acc + sr_capacity rules)
             (if cf_id c \<in> fst ` set restored then restored
              else om_put (cf_id c) rules restored))"

definition Restore ::
  "'u lib \<Rightarrow> (string \<Rightarrow> string option option) \<Rightarrow> int \<Rightarrow> config list \<Rightarrow> (string \<times> sub_rules) list" where
  "Restore L files t configs = RestoreLoop L files t configs 0 []"

record parsed_download =
  pd_rules :: "sub_rules option"
  pd_raw :: string
  pd_error :: string

definition ParseDownload :: "'u lib \<Rightarrow> string option \<Rightarrow> config \<Rightarrow> int \<Rightarrow> parsed_download" where
  "ParseDownload L contents c t =
     (case contents of None \<Rightarrow> \<lparr>pd_rules = None, pd_raw = [], pd_error = ''read_failed''\<rparr>
      | Some raw \<Rightarrow>
        let rules = ParseSubscriptionRules L raw (cf_format c) (cf_rule_type c) t
        in \<lparr>pd_rules = (if sr_error rules = [] then Some rules else None), pd_raw = raw,
            pd_error = sr_error rules\<rparr>)"

text \<open>\<open>Install\<close>: what is written, if anything; \<open>written\<close> is the outcome of the file writes.\<close>

definition Install :: "'u lib \<Rightarrow> config \<Rightarrow> sub_rules \<Rightarrow> string \<Rightarrow> bool \<Rightarrow> bool" where
  "Install L c rules raw written \<longleftrightarrow>
     EncodeSubscriptionCache L (gurl L (cf_url c)) (cf_format c) rules raw \<noteq> [] \<and> written"

section \<open>State\<close>

record entry =
  en_config :: config
  en_rules :: "sub_rules option"
  en_error :: string
  en_revision :: int
  en_generation :: int
  en_failures :: int
  en_last_check :: int
  en_due :: int
  en_not_before :: int

datatype src_task =
    TaskRestore "config list"
  | TaskDownloaded string int
  | TaskParsed string int config
  | TaskInstalled string int config sub_rules string

datatype src_effect =
    SrcNotify bool
  | SrcPersist "config list"
  | SrcDownload string
  | SrcDeleteCache string
  | SrcDeleteTemporary

record sources =
  so_entries :: "(string \<times> entry) list"
  so_clients :: int
  so_revision :: int
  so_ready :: bool
  so_active :: string
  so_loading :: bool
  so_timer :: "int option"
  so_tasks :: "src_task list"
  so_log :: "src_effect list"
  so_crashed :: bool

definition src_emit :: "src_effect \<Rightarrow> sources \<Rightarrow> sources" where
  "src_emit e s = s\<lparr>so_log := so_log s @ [e]\<rparr>"

definition src_post :: "src_task \<Rightarrow> sources \<Rightarrow> sources" where
  "src_post k s = s\<lparr>so_tasks := so_tasks s @ [k]\<rparr>"

text \<open>\<open>loader_.reset()\<close> destroys the loader and with it the download callback.\<close>

fun is_download :: "src_task \<Rightarrow> bool" where
  "is_download (TaskDownloaded i g) = True"
| "is_download _ = False"

definition reset_loader :: "sources \<Rightarrow> sources" where
  "reset_loader s = s\<lparr>so_loading := False,
     so_tasks := filter (\<lambda>k. \<not> is_download k) (so_tasks s)\<rparr>"

definition put_entry :: "string \<Rightarrow> entry \<Rightarrow> sources \<Rightarrow> sources" where
  "put_entry i e s = s\<lparr>so_entries := om_put i e (so_entries s)\<rparr>"

definition new_entry :: "env \<Rightarrow> config \<Rightarrow> entry" where
  "new_entry E c = \<lparr>en_config = c, en_rules = None, en_error = [], en_revision = 1,
     en_generation = 0, en_failures = 0, en_last_check = 0, en_due = now E + seconds 15,
     en_not_before = 0\<rparr>"

section \<open>Operations\<close>

fun load_entries :: "'u lib \<Rightarrow> env \<Rightarrow> dict option list \<Rightarrow> config list \<Rightarrow> (string \<times> entry) list \<Rightarrow>
    config list \<times> (string \<times> entry) list" where
  "load_entries L E [] configs entries = (configs, entries)"
| "load_entries L E (v # vs) configs entries =
     (case v of None \<Rightarrow> load_entries L E vs configs entries
      | Some d \<Rightarrow>
        if length entries \<ge> kSubscriptionMaxSources then load_entries L E vs configs entries
        else let c = FromValue d in
          if \<not> Validate L c \<or> cf_id c \<in> fst ` set entries
          then load_entries L E vs configs entries
          else load_entries L E vs (configs @ [c]) (om_put (cf_id c) (new_entry E c) entries))"

definition RuleSources_Impl :: "'u lib \<Rightarrow> env \<Rightarrow> dict option list \<Rightarrow> sources" where
  "RuleSources_Impl L E pref =
     (case load_entries L E pref [] [] of (configs, entries) \<Rightarrow>
        \<lparr>so_entries = entries, so_clients = 0, so_revision = 1, so_ready = False,
         so_active = [], so_loading = False, so_timer = None, so_tasks = [TaskRestore configs],
         so_log = [], so_crashed = False\<rparr>)"

definition next_due :: "(string \<times> entry) list \<Rightarrow> int" where
  "next_due es = foldl (\<lambda>next p. if cf_enabled (en_config (snd p)) \<and>
      (next = 0 \<or> en_due (snd p) < next) then en_due (snd p) else next) 0 es"

definition RuleSources_Schedule :: "env \<Rightarrow> sources \<Rightarrow> sources" where
  "RuleSources_Schedule E s =
     (let s = s\<lparr>so_timer := None\<rparr>
      in if \<not> so_ready s \<or> so_clients s = 0 \<or> so_active s \<noteq> [] then s
         else let next = next_due (so_entries s)
              in if next \<noteq> 0 then s\<lparr>so_timer := Some (max (seconds 1) (next - now E))\<rparr> else s)"

fun restore_entries :: "env \<Rightarrow> (string \<times> sub_rules) list \<Rightarrow> sources \<Rightarrow> sources" where
  "restore_entries E [] s = s"
| "restore_entries E ((i, rules) # rs) s =
     (case map_of (so_entries s) i of None \<Rightarrow> s\<lparr>so_crashed := True\<rparr>
      | Some e \<Rightarrow>
        restore_entries E rs (put_entry i
          (if sr_error rules \<noteq> [] then e\<lparr>en_error := sr_error rules\<rparr>
           else e\<lparr>en_rules := Some rules,
                  en_due := max (now E + seconds 15) (sr_fetched rules + hours 8)\<rparr>) s))"

definition RuleSources_OnRestored :: "env \<Rightarrow> (string \<times> sub_rules) list \<Rightarrow> sources \<Rightarrow> sources" where
  "RuleSources_OnRestored E restored s =
     (let s = restore_entries E restored s
      in if so_crashed s then s
         else src_emit (SrcNotify True) (RuleSources_Schedule E (s\<lparr>so_ready := True\<rparr>)))"

definition RuleSources_Persist :: "sources \<Rightarrow> sources" where
  "RuleSources_Persist s = src_emit (SrcPersist (map (\<lambda>p. en_config (snd p)) (so_entries s))) s"

definition RuleSources_Acquire :: "env \<Rightarrow> sources \<Rightarrow> sources" where
  "RuleSources_Acquire E s = RuleSources_Schedule E (s\<lparr>so_clients := so_clients s + 1\<rparr>)"

definition RuleSources_Release :: "sources \<Rightarrow> sources" where
  "RuleSources_Release s =
     (if so_clients s \<le> 0 then s
      else let s = s\<lparr>so_clients := so_clients s - 1\<rparr>
      in if so_clients s \<noteq> 0 then s
      else let s = s\<lparr>so_timer := None\<rparr>
      in if so_active s \<noteq> []
         then (case map_of (so_entries s) (so_active s) of
                 None \<Rightarrow> s\<lparr>so_crashed := True\<rparr>
               | Some e \<Rightarrow>
                   src_emit (SrcNotify False) (reset_loader
                     ((put_entry (so_active s)
                        (e\<lparr>en_generation := en_generation e + 1, en_error := ''cancelled''\<rparr>) s)
                        \<lparr>so_active := []\<rparr>)))
         else src_emit (SrcNotify False) s)"

definition RuleSources_Current :: "string \<Rightarrow> int \<Rightarrow> sources \<Rightarrow> entry option" where
  "RuleSources_Current i g s =
     (case map_of (so_entries s) i of None \<Rightarrow> None
      | Some e \<Rightarrow> if en_generation e = g \<and> so_active s = i \<and> so_clients s \<noteq> 0 \<and>
                     cf_enabled (en_config e) then Some e else None)"

definition RuleSources_Refresh :: "env \<Rightarrow> string \<Rightarrow> sources \<Rightarrow> string \<times> sources" where
  "RuleSources_Refresh E i s =
     (case map_of (so_entries s) i of None \<Rightarrow> ([], s\<lparr>so_crashed := True\<rparr>)
      | Some e \<Rightarrow>
        if so_clients s = 0 \<or> \<not> cf_enabled (en_config e) then (''disabled'', s)
        else if so_active s = i then (''already_updating'', s)
        else if so_active s \<noteq> [] then (''busy'', s)
        else if en_not_before e > now E then (''rate_limited'', s)
        else let e = e\<lparr>en_generation := en_generation e + 1, en_last_check := now E,
                       en_not_before := now E + minutes 1, en_due := now E + minutes 1,
                       en_error := []\<rparr>;
                 s = (reset_loader (put_entry i e s))\<lparr>so_timer := None, so_active := i,
                       so_loading := True\<rparr>
             in ([], src_emit (SrcNotify False)
                  (src_emit (SrcDownload (cf_url (en_config e)))
                    (src_post (TaskDownloaded i (en_generation e)) s))))"

fun first_due :: "env \<Rightarrow> (string \<times> entry) list \<Rightarrow> string option" where
  "first_due E [] = None"
| "first_due E ((i, e) # es) =
     (if cf_enabled (en_config e) \<and> en_due e \<le> now E then Some i else first_due E es)"

text \<open>\<open>Tick\<close> runs when the one-shot timer fires, which disarms it.\<close>

definition RuleSources_Tick :: "env \<Rightarrow> sources \<Rightarrow> sources" where
  "RuleSources_Tick E s =
     (let s = s\<lparr>so_timer := None\<rparr>
      in case first_due E (so_entries s) of
           Some i \<Rightarrow> snd (RuleSources_Refresh E i s)
         | None \<Rightarrow> RuleSources_Schedule E s)"

definition backoff :: "int \<Rightarrow> int" where
  "backoff failures = min (minutes (5 * 2 ^ nat (failures - 1))) (hours 6)"

definition RuleSources_Fail :: "env \<Rightarrow> string \<Rightarrow> string \<Rightarrow> sources \<Rightarrow> sources" where
  "RuleSources_Fail E i error s =
     (case map_of (so_entries s) i of None \<Rightarrow> s\<lparr>so_crashed := True\<rparr>
      | Some e \<Rightarrow>
        let failures = min (en_failures e + 1) 7;
            not_before = now E + backoff failures;
            e = e\<lparr>en_error := error, en_failures := failures, en_not_before := not_before,
                  en_due := not_before + seconds (rand_int E 0 60)\<rparr>
        in src_emit (SrcNotify False)
             (RuleSources_Schedule E ((put_entry i e s)\<lparr>so_active := []\<rparr>)))"

text \<open>\<open>file\<close> is the temporary file's contents, if the download produced one.\<close>

definition RuleSources_OnDownloaded :: "env \<Rightarrow> string \<Rightarrow> int \<Rightarrow> bool \<Rightarrow> sources \<Rightarrow> sources" where
  "RuleSources_OnDownloaded E i g has_path s =
     (case RuleSources_Current i g s of
        None \<Rightarrow> if has_path then src_emit SrcDeleteTemporary s else s
      | Some e \<Rightarrow>
        let s = s\<lparr>so_loading := False\<rparr>
        in if \<not> has_path then RuleSources_Fail E i ''download_failed'' s
           else src_post (TaskParsed i g (en_config e)) s)"

definition total_capacity :: "string \<Rightarrow> (string \<times> entry) list \<Rightarrow> nat" where
  "total_capacity i es = sum_list (map (\<lambda>p. case en_rules (snd p) of None \<Rightarrow> 0
     | Some r \<Rightarrow> if fst p \<noteq> i then sr_capacity r else 0) es)"

definition RuleSources_OnParsed :: "env \<Rightarrow> string \<Rightarrow> int \<Rightarrow> parsed_download \<Rightarrow> sources \<Rightarrow> sources" where
  "RuleSources_OnParsed E i g parsed s =
     (case RuleSources_Current i g s of None \<Rightarrow> s
      | Some e \<Rightarrow>
        (case pd_rules parsed of None \<Rightarrow> RuleSources_Fail E i (pd_error parsed) s
         | Some rules \<Rightarrow>
           if sr_capacity rules + total_capacity i (so_entries s) > kSubscriptionTotalRecords
           then RuleSources_Fail E i ''total_record_limit'' s
           else src_post (TaskInstalled i g (en_config e) rules (pd_raw parsed)) s))"

definition RuleSources_OnInstalled :: "env \<Rightarrow> string \<Rightarrow> int \<Rightarrow> sub_rules \<Rightarrow> bool \<Rightarrow> sources \<Rightarrow> sources" where
  "RuleSources_OnInstalled E i g rules success s =
     (case RuleSources_Current i g s of None \<Rightarrow> s
      | Some e \<Rightarrow>
        if \<not> success then RuleSources_Fail E i ''write_failed'' s
        else let e = e\<lparr>en_rules := Some rules, en_error := [], en_failures := 0,
                       en_revision := en_revision e + 1,
                       en_due := now E + hours 8 + minutes (rand_int E 0 30)\<rparr>;
                 s = (put_entry i e s)\<lparr>so_revision := so_revision s + 1, so_active := []\<rparr>
             in src_emit (SrcNotify True) (RuleSources_Schedule E s))"

definition RuleSources_DeleteCache :: "config \<Rightarrow> sources \<Rightarrow> sources" where
  "RuleSources_DeleteCache c s = src_emit (SrcDeleteCache (cf_id c)) s"

section \<open>Commands of the shell\<close>

text \<open>The last lines of \<open>Mutate\<close>, which every accepted change runs.\<close>

definition mutated :: "env \<Rightarrow> sources \<Rightarrow> string \<times> sources" where
  "mutated E s = ([], src_emit (SrcNotify True)
     (RuleSources_Schedule E (RuleSources_Persist (s\<lparr>so_revision := so_revision s + 1\<rparr>))))"

definition same_list :: "config \<Rightarrow> config \<Rightarrow> bool" where
  "same_list c d \<longleftrightarrow> cf_url c = cf_url d \<and> cf_rule_type c = cf_rule_type d"

definition AddConfig :: "'u lib \<Rightarrow> env \<Rightarrow> dict \<Rightarrow> string + config" where
  "AddConfig L E command =
     (let c = \<lparr>cf_id = token E, cf_name = [], cf_url = [], cf_format = [], cf_rule_type = [],
               cf_recommendation = String_field command ''recommendationId'', cf_enabled = False\<rparr>;
          filled = (if cf_recommendation c \<noteq> []
            then (case FindRecommendation (cf_recommendation c) of
                    None \<Rightarrow> Inl ''invalid_recommendation''
                  | Some item \<Rightarrow> Inr (c\<lparr>cf_name := rc_name item, cf_url := rc_url item,
                      cf_format := ''domains'', cf_rule_type := ''host_suffix''\<rparr>))
            else Inr (c\<lparr>cf_name := String_field command ''name'',
                        cf_url := spec L (gurl L (String_field command ''url'')),
                        cf_format := String_field command ''format'',
                        cf_rule_type := String_field command ''ruleType''\<rparr>))
      in case filled of Inl err \<Rightarrow> Inl err
         | Inr c \<Rightarrow>
           (case find_bool command ''enabled'' of None \<Rightarrow> Inl ''invalid_request''
            | Some b \<Rightarrow> let c = c\<lparr>cf_enabled := b\<rparr>
                in if Validate L c then Inr c else Inl ''invalid_request''))"

definition MutateAdd :: "'u lib \<Rightarrow> env \<Rightarrow> dict \<Rightarrow> sources \<Rightarrow> string \<times> sources" where
  "MutateAdd L E command s =
     (if length (so_entries s) \<ge> kSubscriptionMaxSources then (''source_limit'', s)
      else case AddConfig L E command of Inl err \<Rightarrow> (err, s)
      | Inr c \<Rightarrow>
        if \<exists>p \<in> set (so_entries s). same_list (en_config (snd p)) c
        then (''duplicate_source'', s)
        else mutated E (if cf_id c \<in> fst ` set (so_entries s) then s
                        else put_entry (cf_id c) (new_entry E c) s))"

definition UpdatedConfig :: "'u lib \<Rightarrow> dict \<Rightarrow> config \<Rightarrow> config" where
  "UpdatedConfig L command c =
     (let c = (case find_string command ''name'' of Some v \<Rightarrow> c\<lparr>cf_name := v\<rparr> | None \<Rightarrow> c);
          c = (case find_string command ''url'' of
                 Some v \<Rightarrow> c\<lparr>cf_url := spec L (gurl L v)\<rparr> | None \<Rightarrow> c);
          c = (case find_string command ''format'' of Some v \<Rightarrow> c\<lparr>cf_format := v\<rparr> | None \<Rightarrow> c);
          c = (case find_string command ''ruleType'' of
                 Some v \<Rightarrow> c\<lparr>cf_rule_type := v\<rparr> | None \<Rightarrow> c)
      in (case find_bool command ''enabled'' of Some b \<Rightarrow> c\<lparr>cf_enabled := b\<rparr> | None \<Rightarrow> c))"

definition CheckUpdate :: "'u lib \<Rightarrow> dict \<Rightarrow> string \<Rightarrow> config \<Rightarrow> sources \<Rightarrow> string option" where
  "CheckUpdate L command i updated s =
     (if \<exists>key \<in> {''name'', ''url'', ''format'', ''ruleType''}.
           has_key command key \<and> find_string command key = None
      then Some ''invalid_request''
      else if (has_key command ''enabled'' \<and> find_bool command ''enabled'' = None) \<or>
              \<not> Validate L updated
      then Some ''invalid_request''
      else if \<exists>p \<in> set (so_entries s). fst p \<noteq> i \<and> same_list (en_config (snd p)) updated
      then Some ''duplicate_source''
      else None)"

text \<open>What both an update and a removal do first: end the life of pending answers.\<close>

definition Supersede :: "string \<Rightarrow> entry \<Rightarrow> sources \<Rightarrow> sources" where
  "Supersede i e s =
     (let s = put_entry i (e\<lparr>en_generation := en_generation e + 1\<rparr>) s
      in if so_active s = i
         then RuleSources_DeleteCache (en_config e) (reset_loader (s\<lparr>so_active := []\<rparr>)) else s)"

definition ApplyUpdate :: "env \<Rightarrow> string \<Rightarrow> entry \<Rightarrow> config \<Rightarrow> sources \<Rightarrow> sources" where
  "ApplyUpdate E i e updated s =
     (let changed = cf_url updated \<noteq> cf_url (en_config e) \<or>
            cf_format updated \<noteq> cf_format (en_config e) \<or>
            cf_rule_type updated \<noteq> cf_rule_type (en_config e);
          s = (if changed then RuleSources_DeleteCache (en_config e) s else s);
          e = (if changed then e\<lparr>en_rules := None\<rparr> else e);
          e = e\<lparr>en_config := updated, en_revision := en_revision e + 1, en_error := [],
                en_generation := en_generation e + 1,
                en_due := max (en_not_before e) (now E + seconds 15)\<rparr>
      in put_entry i e s)"

definition RuleSources_Mutate ::
  "'u lib \<Rightarrow> env \<Rightarrow> bool \<Rightarrow> string \<Rightarrow> dict \<Rightarrow> sources \<Rightarrow> string \<times> sources" where
  "RuleSources_Mutate L E modifiable action command s =
     (if \<not> so_ready s then (''initializing'', s)
      else if find_int command ''expectedRevision'' \<noteq> Some (so_revision s) then (''stale_sources'', s)
      else if \<not> modifiable then (''managed'', s)
      else let i = String_field command ''sourceId''
      in if action = ''addProtectionRuleSource'' then MutateAdd L E command s
      else case map_of (so_entries s) i of None \<Rightarrow> (''unknown_source'', s)
      | Some e \<Rightarrow>
        if action = ''refreshProtectionRuleSource'' then RuleSources_Refresh E i s
        else if action = ''updateProtectionRuleSource'' then
          (let updated = UpdatedConfig L command (en_config e)
           in case CheckUpdate L command i updated s of Some err \<Rightarrow> (err, s)
              | None \<Rightarrow> mutated E (ApplyUpdate E i e updated (Supersede i e s)))
        else if action = ''removeProtectionRuleSource'' then
          (let s = RuleSources_DeleteCache (en_config e) (Supersede i e s)
           in mutated E (s\<lparr>so_entries := om_del i (so_entries s)\<rparr>))
        else (''invalid_request'', s))"

section \<open>Queries\<close>

definition entry_usable :: "int \<Rightarrow> entry \<Rightarrow> bool" where
  "entry_usable t e \<longleftrightarrow> cf_enabled (en_config e) \<and>
     (case en_rules e of None \<Rightarrow> False | Some r \<Rightarrow> SubscriptionRules_usable r t)"

definition sources_usable :: "int \<Rightarrow> sources \<Rightarrow> bool" where
  "sources_usable t s \<longleftrightarrow> (\<exists>p \<in> set (so_entries s). entry_usable t (snd p))"

definition entry_matches :: "'u lib \<Rightarrow> 'u \<Rightarrow> int \<Rightarrow> entry \<Rightarrow> bool" where
  "entry_matches L url t e \<longleftrightarrow> cf_enabled (en_config e) \<and>
     (case en_rules e of None \<Rightarrow> False | Some r \<Rightarrow> SubscriptionRules_Matches L r url t)"

fun MatchLoop :: "'u lib \<Rightarrow> 'u \<Rightarrow> int \<Rightarrow> (string \<times> entry) list \<Rightarrow> 'u result \<Rightarrow> 'u result" where
  "MatchLoop L url t [] r = r"
| "MatchLoop L url t ((i, e) # es) r =
     (if entry_matches L url t e
      then MatchLoop L url t es (r\<lparr>r_verdict := kOther, r_reason := ''matched'',
             r_matched_source_ids := r_matched_source_ids r @ [i],
             r_rule_type := (if r_rule_type r = [] then cf_rule_type (en_config e)
                             else if r_rule_type r \<noteq> cf_rule_type (en_config e) then ''multiple''
                             else r_rule_type r)\<rparr>)
      else MatchLoop L url t es r)"

definition RuleSources_Match :: "'u lib \<Rightarrow> 'u \<Rightarrow> int \<Rightarrow> sources \<Rightarrow> 'u result" where
  "RuleSources_Match L url t s = MatchLoop L url t (so_entries s) (mk_result kUnknown ''local'' ''unavailable'' url)"

definition source_status :: "int \<Rightarrow> sources \<Rightarrow> string \<Rightarrow> entry \<Rightarrow> string" where
  "source_status t s i e =
     (if \<not> so_ready s then ''loading''
      else if \<not> cf_enabled (en_config e) then ''disabled''
      else if so_active s = i then ''updating''
      else case en_rules e of
          Some r \<Rightarrow> if SubscriptionRules_usable r t then ''ready'' else ''expired''
        | None \<Rightarrow> if en_error e \<noteq> [] then ''error'' else ''missing'')"

section \<open>What the shell is told\<close>

text \<open>
  \<open>ToValue\<close> and \<open>State\<close> as records of the dictionary's entries; a shell time is \<open>None\<close>
  where the code sends \<open>-1.0\<close>.
\<close>

record config_value =
  cv_config :: config
  cv_kind :: string
  cv_trust :: string
  cv_signed :: bool
  cv_license :: string
  cv_attribution :: string
  cv_license_url :: string

definition ToValue :: "config \<Rightarrow> config_value" where
  "ToValue c =
     (let item = FindRecommendation (cf_recommendation c)
      in \<lparr>cv_config = c, cv_kind = (if item \<noteq> None then ''recommended'' else ''custom''),
          cv_trust = ''user_https'', cv_signed = False,
          cv_license = (case item of Some r \<Rightarrow> rc_license r | None \<Rightarrow> ''unknown''),
          cv_attribution = (case item of Some r \<Rightarrow> rc_attribution r | None \<Rightarrow> []),
          cv_license_url = (case item of Some r \<Rightarrow> rc_license_url r | None \<Rightarrow> [])\<rparr>)"

definition ToShellTime :: "int \<Rightarrow> int option" where
  "ToShellTime t = (if t = 0 then None else Some t)"

record source_row =
  sw_value :: config_value
  sw_revision :: int
  sw_status :: string
  sw_available :: bool
  sw_rule_count :: nat
  sw_input_count :: nat
  sw_rejected_count :: nat
  sw_warning :: string
  sw_index_bytes :: nat
  sw_error :: string
  sw_source_updated_at :: "int option"
  sw_fetched_at :: "int option"
  sw_expires_at :: "int option"
  sw_last_check :: "int option"
  sw_next_update :: "int option"

definition source_row :: "int \<Rightarrow> sources \<Rightarrow> string \<Rightarrow> entry \<Rightarrow> source_row" where
  "source_row t s i e =
     (let of_rules = (\<lambda>f. case en_rules e of Some r \<Rightarrow> f r | None \<Rightarrow> (0 :: nat))
      in \<lparr>sw_value = ToValue (en_config e), sw_revision = en_revision e,
          sw_status = source_status t s i e, sw_available = entry_usable t e,
          sw_rule_count = of_rules (\<lambda>r. length (sr_hashes r)), sw_input_count = of_rules sr_input_count,
          sw_rejected_count = of_rules sr_rejected_broad_count,
          sw_warning = (if of_rules sr_rejected_broad_count \<noteq> 0 then ''broad_rules_rejected'' else []),
          sw_index_bytes = of_rules (\<lambda>r. sr_capacity r * 32), sw_error = en_error e,
          sw_source_updated_at = None,
          sw_fetched_at = (case en_rules e of Some r \<Rightarrow> ToShellTime (sr_fetched r) | None \<Rightarrow> None),
          sw_expires_at = (case en_rules e of Some r \<Rightarrow> ToShellTime (sr_fetched r + days 7)
                           | None \<Rightarrow> None),
          sw_last_check = ToShellTime (en_last_check e),
          sw_next_update = (if so_clients s \<noteq> 0 \<and> cf_enabled (en_config e) \<and> so_active s \<noteq> i
                            then ToShellTime (en_due e) else None)\<rparr>)"

record sources_report =
  sp_revision :: int
  sp_ready :: bool
  sp_local_available :: bool
  sp_rows :: "source_row list"
  sp_recommendations :: "config_value list"
  sp_max_sources :: nat
  sp_max_records :: nat
  sp_max_total :: nat

definition recommended_config :: "recommendation \<Rightarrow> config" where
  "recommended_config r = \<lparr>cf_id = rc_id r, cf_name = rc_name r, cf_url = rc_url r,
     cf_format = ''domains'', cf_rule_type = ''host_suffix'', cf_recommendation = rc_id r,
     cf_enabled = False\<rparr>"

definition RuleSources_State :: "int \<Rightarrow> sources \<Rightarrow> sources_report" where
  "RuleSources_State t s = \<lparr>sp_revision = so_revision s, sp_ready = so_ready s,
     sp_local_available = sources_usable t s,
     sp_rows = map (\<lambda>(i, e). source_row t s i e) (so_entries s),
     sp_recommendations = map (\<lambda>r. ToValue (recommended_config r)) kRecommendations,
     sp_max_sources = kSubscriptionMaxSources, sp_max_records = kSubscriptionMaxRecords,
     sp_max_total = kSubscriptionTotalRecords\<rparr>"

text \<open>
  \<open>HandleRuleSourcesCommand\<close>: \<open>context_id\<close>, \<open>off_record\<close> and \<open>uses_local\<close> are what it asks
  the service and the profile; the answer is the reply's \<open>ok\<close>, its reason and its report.
\<close>

definition HandleRuleSourcesCommand ::
  "'u lib \<Rightarrow> env \<Rightarrow> string \<Rightarrow> bool \<Rightarrow> bool \<Rightarrow> bool \<Rightarrow> string \<Rightarrow> dict \<Rightarrow> sources \<Rightarrow>
   (bool \<times> string \<times> sources_report) \<times> sources" where
  "HandleRuleSourcesCommand L E context_id off_record uses_local modifiable name command s =
     (case (if name = ''getProtectionRuleSources'' then ([], s)
            else if String_field command ''contextId'' \<noteq> context_id then (''invalid_context'', s)
            else if off_record then (''read_only'', s)
            else if name = ''refreshProtectionRuleSource'' \<and> \<not> uses_local then (''disabled'', s)
            else RuleSources_Mutate L E modifiable name command s) of
        (error, s) \<Rightarrow> ((error = [] \<or> error = ''already_updating'', error,
                        RuleSources_State (now E) s), s))"

text \<open>The local rules are reported as available exactly when some row is.\<close>

lemma State_available:
  "sp_local_available (RuleSources_State t s) \<longleftrightarrow>
   (\<exists>row \<in> set (sp_rows (RuleSources_State t s)). sw_available row)"
  by (force simp: RuleSources_State_def sources_usable_def source_row_def Let_def)

section \<open>What a query answers\<close>

lemma MatchLoop_ids:
  "r_matched_source_ids (MatchLoop L url t es r) =
   r_matched_source_ids r @ map fst (filter (\<lambda>p. entry_matches L url t (snd p)) es)"
  by (induction L url t es r rule: MatchLoop.induct) auto

lemma MatchLoop_verdict:
  "r_verdict (MatchLoop L url t es r) =
   (if \<exists>p \<in> set es. entry_matches L url t (snd p) then kOther else r_verdict r)"
  by (induction L url t es r rule: MatchLoop.induct) auto

lemma MatchLoop_type_step:
  assumes "r_rule_type r \<noteq> []" and "\<forall>u \<in> set ts. u \<noteq> ''multiple''"
    and "ts = map (\<lambda>p. cf_rule_type (en_config (snd p))) (filter (\<lambda>p. entry_matches L url t (snd p)) es)"
  shows "r_rule_type (MatchLoop L url t es r) =
    (if \<forall>u \<in> set ts. u = r_rule_type r then r_rule_type r else ''multiple'')"
  using assms
proof (induction L url t es r arbitrary: ts rule: MatchLoop.induct)
  case (2 L url t i e es r)
  show ?case
  proof (cases "entry_matches L url t e")
    case False
    then show ?thesis using "2.IH"(2) [OF False "2.prems"(1,2)] "2.prems"(3) by simp
  next
    case True
    let ?ts = "map (\<lambda>p. cf_rule_type (en_config (snd p))) (filter (\<lambda>p. entry_matches L url t (snd p)) es)"
    let ?ty = "if cf_rule_type (en_config e) = r_rule_type r then r_rule_type r else ''multiple''"
    let ?r = "r\<lparr>r_verdict := kOther, r_reason := ''matched'',
             r_matched_source_ids := r_matched_source_ids r @ [i],
             r_rule_type := (if r_rule_type r = [] then cf_rule_type (en_config e)
                             else if r_rule_type r \<noteq> cf_rule_type (en_config e) then ''multiple''
                             else r_rule_type r)\<rparr>"
    have ts: "ts = cf_rule_type (en_config e) # ?ts" using "2.prems"(3) True by simp
    have ty: "r_rule_type ?r = ?ty" using "2.prems"(1) by simp
    have "r_rule_type (MatchLoop L url t es ?r) =
        (if \<forall>u \<in> set ?ts. u = r_rule_type ?r then r_rule_type ?r else ''multiple'')"
      by (rule "2.IH"(1) [OF True _ _ refl]) (use "2.prems"(1,2) ts in auto)
    with True ts ty show ?thesis by auto
  qed
qed simp

definition matched_types :: "'u lib \<Rightarrow> 'u \<Rightarrow> int \<Rightarrow> sources \<Rightarrow> string list" where
  "matched_types L url t s = map (\<lambda>p. cf_rule_type (en_config (snd p)))
     (filter (\<lambda>p. entry_matches L url t (snd p)) (so_entries s))"

lemma MatchLoop_type:
  assumes "r_rule_type r = []" and "\<forall>u \<in> set ts. u \<noteq> ''multiple'' \<and> u \<noteq> []"
    and "ts = map (\<lambda>p. cf_rule_type (en_config (snd p))) (filter (\<lambda>p. entry_matches L url t (snd p)) es)"
  shows "r_rule_type (MatchLoop L url t es r) =
    (case ts of [] \<Rightarrow> [] | u # us \<Rightarrow> if \<forall>v \<in> set us. v = u then u else ''multiple'')"
  using assms
proof (induction L url t es r arbitrary: ts rule: MatchLoop.induct)
  case (2 L url t i e es r)
  show ?case
  proof (cases "entry_matches L url t e")
    case False
    then show ?thesis using "2.IH"(2) [OF False "2.prems"(1,2)] "2.prems"(3) by simp
  next
    case True
    let ?ts = "map (\<lambda>p. cf_rule_type (en_config (snd p))) (filter (\<lambda>p. entry_matches L url t (snd p)) es)"
    have ts: "ts = cf_rule_type (en_config e) # ?ts" using "2.prems"(3) True by simp
    let ?r = "r\<lparr>r_verdict := kOther, r_reason := ''matched'',
        r_matched_source_ids := r_matched_source_ids r @ [i],
        r_rule_type := cf_rule_type (en_config e)\<rparr>"
    have "r_rule_type (MatchLoop L url t es ?r) =
        (if \<forall>u \<in> set ?ts. u = r_rule_type ?r then r_rule_type ?r else ''multiple'')"
      by (rule MatchLoop_type_step [OF _ _ refl]) (use "2.prems"(2) ts in auto)
    with True ts "2.prems"(1) show ?thesis by auto
  qed
qed simp

lemma Validate_type: "Validate L c \<Longrightarrow> cf_rule_type c \<noteq> [] \<and> cf_rule_type c \<noteq> ''multiple''"
  by (auto simp: Validate_def ValidSubscriptionFormat_def split: if_splits)

end
