(* ===== verification/Source_Machine.thy ===== *)
theory Source_Machine
  imports Rule_Sources
begin

text \<open>
  The rule sources as a machine: their operations and the delivery of the answers of the
  loader and the worker, in any order the task queues allow. The invariant says that no
  answer is applied to a configuration it was not fetched for, that the memory of all
  indexes together stays within its limit, that \<open>entries_.at()\<close> never throws, and that the
  timer is armed exactly when there is something to update.
\<close>

section \<open>The machine\<close>

datatype src_outcome =
    OutFiles "string \<Rightarrow> string option option"
  | OutPath bool
  | OutContents "string option"
  | OutWritten bool

datatype src_event =
    SeAcquire env
  | SeRelease
  | SeTick env
  | SeMutate env bool string dict
  | SeDeliver env nat src_outcome

fun src_deliver :: "'u lib \<Rightarrow> env \<Rightarrow> src_task \<Rightarrow> src_outcome \<Rightarrow> sources \<Rightarrow> sources" where
  "src_deliver L E (TaskRestore cs) (OutFiles files) s =
     RuleSources_OnRestored E (Restore L files (now E) cs) s"
| "src_deliver L E (TaskDownloaded i g) (OutPath b) s = RuleSources_OnDownloaded E i g b s"
| "src_deliver L E (TaskParsed i g c) (OutContents contents) s =
     RuleSources_OnParsed E i g (ParseDownload L contents c (now E)) s"
| "src_deliver L E (TaskInstalled i g c rules raw) (OutWritten w) s =
     RuleSources_OnInstalled E i g rules (Install L c rules raw w) s"
| "src_deliver L E _ _ s = s"

definition remove_nth :: "nat \<Rightarrow> 'a list \<Rightarrow> 'a list" where
  "remove_nth n xs = take n xs @ drop (Suc n) xs"

fun src_step :: "'u lib \<Rightarrow> sources \<Rightarrow> src_event \<Rightarrow> sources" where
  "src_step L s (SeAcquire E) = RuleSources_Acquire E s"
| "src_step L s SeRelease = RuleSources_Release s"
| "src_step L s (SeTick E) = RuleSources_Tick E s"
| "src_step L s (SeMutate E modifiable action command) =
     snd (RuleSources_Mutate L E modifiable action command s)"
| "src_step L s (SeDeliver E n out) =
     src_deliver L E (so_tasks s ! n) out (s\<lparr>so_tasks := remove_nth n (so_tasks s)\<rparr>)"

text \<open>The source and the generation an answer is for.\<close>

fun task_key :: "src_task \<Rightarrow> (string \<times> int) option" where
  "task_key (TaskRestore cs) = None"
| "task_key (TaskDownloaded i g) = Some (i, g)"
| "task_key (TaskParsed i g c) = Some (i, g)"
| "task_key (TaskInstalled i g c rules raw) = Some (i, g)"

fun outcome_fits :: "src_task \<Rightarrow> src_outcome \<Rightarrow> bool" where
  "outcome_fits (TaskRestore cs) (OutFiles f) = True"
| "outcome_fits (TaskDownloaded i g) (OutPath b) = True"
| "outcome_fits (TaskParsed i g c) (OutContents r) = True"
| "outcome_fits (TaskInstalled i g c rules raw) (OutWritten w) = True"
| "outcome_fits _ _ = False"

text \<open>
  The environment: the clock is past the epoch and not behind the start of a recorded
  download, random numbers are in their range, a fresh token is not the id of an answer in
  flight, the timer fires only when armed, and a worker answers the question it was asked.
\<close>

definition env_ok :: "sources \<Rightarrow> env \<Rightarrow> bool" where
  "env_ok s E \<longleftrightarrow> 0 < now E \<and> (\<forall>p \<in> set (so_entries s). en_last_check (snd p) \<le> now E) \<and>
     (0 \<le> rand_int E 0 60 \<and> rand_int E 0 60 \<le> 60 \<and>
        0 \<le> rand_int E 0 30 \<and> rand_int E 0 30 \<le> 30) \<and>
     list_all (\<lambda>k. map_option fst (task_key k) \<noteq> Some (token E)) (so_tasks s)"

fun src_ok :: "sources \<Rightarrow> src_event \<Rightarrow> bool" where
  "src_ok s (SeAcquire E) = env_ok s E"
| "src_ok s SeRelease = True"
| "src_ok s (SeTick E) = (env_ok s E \<and> so_timer s \<noteq> None)"
| "src_ok s (SeMutate E modifiable action command) = env_ok s E"
| "src_ok s (SeDeliver E n out) =
     (env_ok s E \<and> n < length (so_tasks s) \<and> outcome_fits (so_tasks s ! n) out)"

section \<open>The invariant\<close>

definition cap_of :: "entry \<Rightarrow> nat" where
  "cap_of e = (case en_rules e of None \<Rightarrow> 0 | Some r \<Rightarrow> sr_capacity r)"

lemma total_capacity_del: "total_capacity i es = om_sum cap_of (om_del i es)"
  by (induction es) (auto simp: total_capacity_def om_sum_def om_del_def cap_of_def split: option.splits)

definition entry_ok :: "'u lib \<Rightarrow> bool \<Rightarrow> string \<Rightarrow> entry \<Rightarrow> bool" where
  "entry_ok L ready i e \<longleftrightarrow>
     cf_id (en_config e) = i \<and> Validate L (en_config e) \<and>
     0 < en_due e \<and> en_not_before e \<le> en_due e \<and> 0 \<le> en_failures e \<and> en_failures e \<le> 7 \<and>
     (\<not> ready \<longrightarrow> en_rules e = None \<and> en_not_before e = 0)"

definition entries_ok :: "'u lib \<Rightarrow> bool \<Rightarrow> (string \<times> entry) list \<Rightarrow> bool" where
  "entries_ok L ready es \<longleftrightarrow> om_ok es \<and> length es \<le> kSubscriptionMaxSources \<and>
     (\<forall>i e. map_of es i = Some e \<longrightarrow> entry_ok L ready i e) \<and>
     om_sum cap_of es \<le> kSubscriptionTotalRecords"

text \<open>An answer is live when its source still has the generation it was started with.\<close>

definition live :: "(string \<times> entry) list \<Rightarrow> src_task \<Rightarrow> bool" where
  "live es k \<longleftrightarrow> (case task_key k of None \<Rightarrow> False
     | Some (i, g) \<Rightarrow> (case map_of es i of None \<Rightarrow> False | Some e \<Rightarrow> en_generation e = g))"

text \<open>What a live answer carries: the present configuration, and an index that still fits.\<close>

fun payload_ok :: "(string \<times> entry) list \<Rightarrow> src_task \<Rightarrow> bool" where
  "payload_ok es (TaskParsed i g c) = (map_option en_config (map_of es i) = Some c)"
| "payload_ok es (TaskInstalled i g c rules raw) =
     (map_option en_config (map_of es i) = Some c \<and>
      sr_capacity rules + om_sum cap_of (om_del i es) \<le> kSubscriptionTotalRecords)"
| "payload_ok es _ = True"

definition task_old :: "(string \<times> entry) list \<Rightarrow> src_task \<Rightarrow> bool" where
  "task_old es k \<longleftrightarrow> (case task_key k of None \<Rightarrow> True
     | Some (i, g) \<Rightarrow> (case map_of es i of None \<Rightarrow> True | Some e \<Rightarrow> g \<le> en_generation e))"

definition tasks_ok :: "(string \<times> entry) list \<Rightarrow> string \<Rightarrow> src_task list \<Rightarrow> bool" where
  "tasks_ok es a ts \<longleftrightarrow> list_all (task_old es) ts \<and>
     length (filter (live es) ts) = (if a = [] then 0 else 1) \<and>
     (\<forall>k \<in> set ts. live es k \<longrightarrow> map_option fst (task_key k) = Some a \<and> payload_ok es k)"

fun is_restore :: "src_task \<Rightarrow> bool" where
  "is_restore (TaskRestore cs) = True"
| "is_restore _ = False"

text \<open>The restore comes first: until it is answered nothing else is in flight.\<close>

definition restore_ok :: "bool \<Rightarrow> (string \<times> entry) list \<Rightarrow> string \<Rightarrow> src_task list \<Rightarrow> bool" where
  "restore_ok ready es a ts \<longleftrightarrow>
     (if ready then list_all (\<lambda>k. \<not> is_restore k) ts
      else a = [] \<and> (\<exists>cs. ts = [TaskRestore cs] \<and> cf_id ` set cs \<subseteq> fst ` set es))"

definition active_ok :: "sources \<Rightarrow> bool" where
  "active_ok s \<longleftrightarrow> (so_active s \<noteq> [] \<longrightarrow> so_clients s \<noteq> 0 \<and>
     (\<exists>e. map_of (so_entries s) (so_active s) = Some e \<and> cf_enabled (en_config e) \<and>
          en_not_before e = en_last_check e + minutes 1))"

definition timer_ok :: "sources \<Rightarrow> bool" where
  "timer_ok s \<longleftrightarrow> (so_timer s \<noteq> None \<longleftrightarrow> so_ready s \<and> so_clients s \<noteq> 0 \<and> so_active s = [] \<and>
     (\<exists>p \<in> set (so_entries s). cf_enabled (en_config (snd p))))"

definition src_core :: "'u lib \<Rightarrow> sources \<Rightarrow> bool" where
  "src_core L s \<longleftrightarrow> \<not> so_crashed s \<and> 0 \<le> so_clients s \<and>
     entries_ok L (so_ready s) (so_entries s) \<and>
     tasks_ok (so_entries s) (so_active s) (so_tasks s) \<and>
     restore_ok (so_ready s) (so_entries s) (so_active s) (so_tasks s) \<and> active_ok s"

definition src_inv :: "'u lib \<Rightarrow> sources \<Rightarrow> bool" where
  "src_inv L s \<longleftrightarrow> src_core L s \<and> timer_ok s"

section \<open>Entries\<close>

lemma entries_ok_put_old:
  assumes "entries_ok L ready es" and "map_of es i = Some e" and "entry_ok L ready i e'"
    and "cap_of e' \<le> cap_of e"
  shows "entries_ok L ready (om_put i e' es)"
proof -
  have "i \<in> fst ` set es" using assms(2) by (force dest: map_of_SomeD)
  then have "length (om_put i e' es) = length es"
    using assms(1) by (intro om_length_put_old) (auto simp: entries_ok_def)
  moreover have "om_sum cap_of (om_put i e' es) \<le> om_sum cap_of es"
    using assms om_sum_put [of es cap_of i e'] om_sum_old [of es i e cap_of]
    by (auto simp: entries_ok_def)
  ultimately show ?thesis using assms(1,3) by (auto simp: entries_ok_def)
qed

lemma entries_ok_del: "entries_ok L ready es \<Longrightarrow> entries_ok L ready (om_del i es)"
  using om_length_del_le [of i es] om_sum_del_le [of cap_of i es]
  by (auto simp: entries_ok_def)

lemma entries_ok_install:
  assumes "entries_ok L ready es" and "map_of es i = Some e" and "entry_ok L ready i e'"
    and "cap_of e' + om_sum cap_of (om_del i es) \<le> kSubscriptionTotalRecords"
  shows "entries_ok L ready (om_put i e' es)"
proof -
  have "i \<in> fst ` set es" using assms(2) by (force dest: map_of_SomeD)
  then have "length (om_put i e' es) = length es"
    using assms(1) by (intro om_length_put_old) (auto simp: entries_ok_def)
  then show ?thesis
    using assms(1,3,4) om_sum_put [of es cap_of i e'] by (auto simp: entries_ok_def)
qed

lemma entries_ok_new:
  assumes "entries_ok L ready es" and "length es < kSubscriptionMaxSources" and "entry_ok L ready i e"
    and "cap_of e = 0" and "i \<notin> fst ` set es"
  shows "entries_ok L ready (om_put i e es)"
  using assms om_sum_put [of es cap_of i e] om_del_absent [of i es] om_length_put_new [of i es e]
  by (auto simp: entries_ok_def)

lemma new_entry_ok:
  "Validate L c \<Longrightarrow> 0 < now E \<Longrightarrow> entry_ok L ready (cf_id c) (new_entry E c)"
  by (simp add: entry_ok_def new_entry_def span_defs)

lemma new_entry_cap [simp]: "cap_of (new_entry E c) = 0"
  by (simp add: cap_of_def new_entry_def)

lemma Validate_id: "Validate L c \<Longrightarrow> cf_id c \<noteq> []"
  by (auto simp: Validate_def split: if_splits)

section \<open>Answers\<close>

text \<open>Counting up the generation of a source makes every answer for it stale.\<close>

lemma payload_replace:
  assumes "om_ok es" and "map_of es i = Some e" and "cap_of e' \<le> cap_of e"
    and "payload_ok es k" and "map_option fst (task_key k) \<noteq> Some i \<or> en_config e' = en_config e"
  shows "payload_ok (om_put i e' es) k"
proof (cases k)
  case (TaskInstalled j g c rules raw)
  have "om_sum cap_of (om_del j (om_put i e' es)) \<le> om_sum cap_of (om_del j es)"
    using assms(1-3) by (rule om_sum_replace_le)
  with TaskInstalled assms(2,4,5) show ?thesis by auto
qed (use assms in auto)

lemma task_cases:
  obtains (restore) "task_key k = None" "\<And>es. \<not> live es k" "\<And>es. task_old es k"
  | (answer) i g where "task_key k = Some (i, g)"
      "\<And>es. live es k = (case map_of es i of None \<Rightarrow> False | Some e \<Rightarrow> en_generation e = g)"
      "\<And>es. task_old es k = (case map_of es i of None \<Rightarrow> True | Some e \<Rightarrow> g \<le> en_generation e)"
  by (cases "task_key k") (auto simp: live_def task_old_def)

lemma live_bump:
  assumes "map_of es i = Some e" and "en_generation e < en_generation e'" and "task_old es k"
  shows "live (om_put i e' es) k \<longleftrightarrow> live es k \<and> map_option fst (task_key k) \<noteq> Some i"
    and "task_old (om_put i e' es) k"
  by (cases rule: task_cases [of k]; use assms in \<open>auto split: option.splits if_splits\<close>)+

lemma live_same:
  assumes "map_of es i = Some e" and "en_generation e' = en_generation e"
  shows "live (om_put i e' es) k \<longleftrightarrow> live es k" and "task_old (om_put i e' es) k \<longleftrightarrow> task_old es k"
  by (cases rule: task_cases [of k]; use assms in \<open>auto split: option.splits if_splits\<close>)+

lemma filter_live_cong:
  "(\<And>k. k \<in> set ts \<Longrightarrow> live es' k = live es k) \<Longrightarrow> filter (live es') ts = filter (live es) ts"
  by (rule filter_cong) auto

lemma tasks_ok_bump:
  assumes ts: "tasks_ok es a ts" and es: "om_ok es" "map_of es i = Some e"
    and e': "en_generation e < en_generation e'" "cap_of e' \<le> cap_of e"
  shows "tasks_ok (om_put i e' es) (if a = i then [] else a) ts"
proof -
  have old: "task_old es k" if "k \<in> set ts" for k
    using ts that by (auto simp: tasks_ok_def list_all_iff)
  have live: "live (om_put i e' es) k \<longleftrightarrow> live es k \<and> map_option fst (task_key k) \<noteq> Some i"
    if "k \<in> set ts" for k
    using live_bump(1) [OF es(2) e'(1) old [OF that]] .
  have fst: "map_option fst (task_key k) = Some a" if "k \<in> set ts" "live es k" for k
    using ts that by (auto simp: tasks_ok_def)
  have count: "length (filter (live (om_put i e' es)) ts) = (if a = i \<or> a = [] then 0 else 1)"
  proof (cases "a = i")
    case True
    with live fst have "filter (live (om_put i e' es)) ts = []" by (auto simp: filter_empty_conv)
    with True show ?thesis by simp
  next
    case False
    have "filter (live (om_put i e' es)) ts = filter (live es) ts"
      by (rule filter_live_cong) (use live fst False in fastforce)
    with False ts show ?thesis by (simp add: tasks_ok_def)
  qed
  have "payload_ok (om_put i e' es) k" if "k \<in> set ts" "live (om_put i e' es) k" for k
    using that live ts by (intro payload_replace [OF es e'(2)]) (auto simp: tasks_ok_def)
  moreover have "map_option fst (task_key k) = Some (if a = i then [] else a)"
    if "k \<in> set ts" "live (om_put i e' es) k" for k
  proof -
    have "map_option fst (task_key k) = Some a" "map_option fst (task_key k) \<noteq> Some i"
      using that live [OF that(1)] fst [OF that(1)] by blast+
    then show ?thesis by (cases "a = i") simp_all
  qed
  moreover have "list_all (task_old (om_put i e' es)) ts"
    using old live_bump(2) [OF es(2) e'(1)] by (simp add: list_all_iff)
  ultimately show ?thesis
    using count by (simp add: tasks_ok_def)
qed

lemma tasks_ok_same:
  assumes ts: "tasks_ok es a ts" and es: "om_ok es" "map_of es i = Some e"
    and e': "en_generation e' = en_generation e" "en_config e' = en_config e" "cap_of e' \<le> cap_of e"
  shows "tasks_ok (om_put i e' es) a ts"
proof -
  have "live (om_put i e' es) = live es" using live_same(1) [OF es(2) e'(1)] by blast
  then show ?thesis
    using ts live_same(2) [OF es(2) e'(1)] payload_replace [OF es e'(3)] e'(2)
    by (simp add: tasks_ok_def list_all_iff)
qed

text \<open>With nothing live, an index may also grow.\<close>

lemma tasks_ok_idle:
  assumes "tasks_ok es [] ts" and "map_of es i = Some e" and "en_generation e' = en_generation e"
  shows "tasks_ok (om_put i e' es) [] ts"
  using assms live_same [OF assms(2,3)] by (auto simp: tasks_ok_def list_all_iff filter_empty_conv)

lemma tasks_ok_filter: "tasks_ok es [] ts \<Longrightarrow> tasks_ok es [] (filter P ts)"
  by (auto simp: tasks_ok_def list_all_iff filter_empty_conv)

lemma tasks_ok_post:
  assumes "tasks_ok es [] ts" and "i \<noteq> []" and "map_of es i = Some e"
    and "task_key k = Some (i, en_generation e)" and "payload_ok es k"
  shows "tasks_ok es i (ts @ [k])"
  using assms by (auto simp: tasks_ok_def list_all_iff filter_empty_conv live_def task_old_def)

lemma tasks_ok_del:
  assumes ts: "tasks_ok es a ts" and a: "a \<noteq> i" and e: "om_ok es"
  shows "tasks_ok (om_del i es) a ts"
proof -
  have live: "live (om_del i es) k \<longleftrightarrow> live es k" "task_old es k \<Longrightarrow> task_old (om_del i es) k"
    if "k \<in> set ts" for k
    using ts that a by (cases rule: task_cases [of k];
        force simp: tasks_ok_def split: option.splits if_splits)+
  have "payload_ok (om_del i es) k" if "k \<in> set ts" "live es k" for k
  proof -
    have ok: "payload_ok es k" "map_option fst (task_key k) = Some a"
      using ts that by (auto simp: tasks_ok_def)
    then show ?thesis
    proof (cases k)
      case (TaskInstalled j g c rules raw)
      have "om_sum cap_of (om_del j (om_del i es)) \<le> om_sum cap_of (om_del j es)"
        using om_sum_del_le [of cap_of i "om_del j es"] by (simp add: om_del_swap)
      with TaskInstalled ok a show ?thesis by auto
    qed (use a in auto)
  qed
  moreover have "filter (live (om_del i es)) ts = filter (live es) ts"
    using live(1) by (rule filter_live_cong)
  ultimately show ?thesis
    using ts live by (auto simp: tasks_ok_def list_all_iff)
qed

lemma tasks_ok_new:
  assumes ts: "tasks_ok es a ts" and es: "om_ok es" and e: "cap_of e = 0" "i \<notin> fst ` set es"
    and fresh: "\<forall>k \<in> set ts. map_option fst (task_key k) \<noteq> Some i"
  shows "tasks_ok (om_put i e es) a ts"
proof -
  have live: "live (om_put i e es) k = live es k" "task_old (om_put i e es) k = task_old es k"
    if "k \<in> set ts" for k
    using fresh that by (cases rule: task_cases [of k]; auto split: option.splits if_splits)+
  have "payload_ok (om_put i e es) k" if "k \<in> set ts" "payload_ok es k" for k
  proof (cases k)
    case (TaskInstalled j g c rules raw)
    with fresh that have j: "j \<noteq> i" by auto
    then have "om_sum cap_of (om_del j (om_put i e es)) = om_sum cap_of (om_del j es)"
      using om_sum_del_put [OF es j, of cap_of e] e om_del_absent [of i es] by simp
    with TaskInstalled that j show ?thesis by auto
  qed (use fresh that in auto)
  moreover have "filter (live (om_put i e es)) ts = filter (live es) ts"
    using live(1) by (rule filter_live_cong)
  ultimately show ?thesis using ts live by (auto simp: tasks_ok_def list_all_iff)
qed

lemma remove_nth_split:
  "n < length xs \<Longrightarrow> xs = take n xs @ xs ! n # drop (Suc n) xs"
  by (rule id_take_nth_drop)

lemma tasks_ok_remove:
  assumes ts: "tasks_ok es a ts" and n: "n < length ts"
  shows "tasks_ok es (if live es (ts ! n) then [] else a) (remove_nth n ts)"
proof -
  obtain xs k ys where k: "ts ! n = k" "remove_nth n ts = xs @ ys" and ts': "ts = xs @ k # ys"
    using remove_nth_split [OF n] by (metis remove_nth_def)
  have "tasks_ok es (if live es k then [] else a) (xs @ ys)"
    using ts unfolding ts' tasks_ok_def by (auto simp: filter_empty_conv split: if_splits)
  then show ?thesis by (simp add: k)
qed

section \<open>Operations keep the invariant\<close>

lemma src_core_frame [simp]:
  "src_core L (s\<lparr>so_timer := t\<rparr>) = src_core L s"
  "src_core L (s\<lparr>so_log := l\<rparr>) = src_core L s"
  "src_core L (s\<lparr>so_revision := r\<rparr>) = src_core L s"
  "src_core L (s\<lparr>so_loading := b\<rparr>) = src_core L s"
  by (simp_all add: src_core_def active_ok_def)

lemma src_inv_emit [simp]: "src_inv L (src_emit x s) = src_inv L s"
  by (simp add: src_emit_def src_inv_def timer_ok_def)

lemma src_core_emit [simp]: "src_core L (src_emit x s) = src_core L s"
  by (simp add: src_emit_def)

lemma next_due_enabled:
  "\<forall>p \<in> set es. 0 < en_due (snd p) \<Longrightarrow> 0 \<le> d \<Longrightarrow>
   foldl (\<lambda>next p. if cf_enabled (en_config (snd p)) \<and>
      (next = 0 \<or> en_due (snd p) < next) then en_due (snd p) else next) d es \<noteq> 0 \<longleftrightarrow>
   d \<noteq> 0 \<or> (\<exists>p \<in> set es. cf_enabled (en_config (snd p)))"
proof (induction es arbitrary: d)
  case (Cons p es)
  from Cons.prems have "0 < en_due (snd p)" by simp
  with Cons show ?case by auto
qed simp

lemma entries_due: "entries_ok L ready es \<Longrightarrow> \<forall>p \<in> set es. 0 < en_due (snd p)"
  by (auto simp: entries_ok_def entry_ok_def om_lookup_in)

lemma next_due_iff:
  "entries_ok L ready es \<Longrightarrow> next_due es \<noteq> 0 \<longleftrightarrow> (\<exists>p \<in> set es. cf_enabled (en_config (snd p)))"
  unfolding next_due_def using next_due_enabled [OF entries_due, of L ready es 0] by simp

lemma Schedule_inv: "src_core L s \<Longrightarrow> src_inv L (RuleSources_Schedule E s)"
  using next_due_iff [of L "so_ready s" "so_entries s"]
  by (auto simp: src_inv_def timer_ok_def RuleSources_Schedule_def Let_def src_core_def active_ok_def)

lemma Acquire_inv: "src_inv L s \<Longrightarrow> src_inv L (RuleSources_Acquire E s)"
  unfolding RuleSources_Acquire_def
  by (rule Schedule_inv) (auto simp: src_inv_def src_core_def active_ok_def)

lemma entry_of:
  assumes "src_core L s" and "map_of (so_entries s) i = Some e"
  shows "entry_ok L (so_ready s) i e" "om_ok (so_entries s)" "i \<noteq> []"
  using assms Validate_id [of L "en_config e"]
  by (auto simp: src_core_def entries_ok_def entry_ok_def)

lemma restore_ok_put: "restore_ok ready es a ts \<Longrightarrow> restore_ok ready (om_put i e es) a ts"
  by (cases ready) (auto simp: restore_ok_def subset_iff)

lemma restore_ok_ready: "restore_ok True es a ts \<Longrightarrow> restore_ok True es' a' (filter P ts)"
  by (auto simp: restore_ok_def list_all_iff)

lemma active_ready: "src_core L s \<Longrightarrow> so_active s \<noteq> [] \<Longrightarrow> so_ready s"
  by (auto simp: src_core_def restore_ok_def split: if_splits)

lemma Release_inv:
  assumes inv: "src_inv L s"
  shows "src_inv L (RuleSources_Release s)"
proof (cases "so_clients s \<le> 0 \<or> so_clients s \<noteq> 1 \<or> so_active s = []")
  case True
  then show ?thesis
    using inv by (auto simp: RuleSources_Release_def Let_def src_inv_def src_core_def timer_ok_def active_ok_def
        src_emit_def)
next
  case False
  let ?a = "so_active s"
  from inv have core: "src_core L s" by (simp add: src_inv_def)
  with False obtain e where e: "map_of (so_entries s) ?a = Some e"
    by (auto simp: src_core_def active_ok_def)
  let ?e = "e\<lparr>en_generation := en_generation e + 1, en_error := ''cancelled''\<rparr>"
  have cap: "cap_of ?e = cap_of e" by (simp add: cap_of_def)
  note entry = entry_of [OF core e]
  have "tasks_ok (om_put ?a ?e (so_entries s)) (if ?a = ?a then [] else ?a) (so_tasks s)"
    using core entry(2) e cap by (intro tasks_ok_bump) (auto simp: src_core_def)
  then have ts: "tasks_ok (om_put ?a ?e (so_entries s)) []
      (filter (\<lambda>k. \<not> is_download k) (so_tasks s))"
    by (intro tasks_ok_filter) simp
  have "entries_ok L (so_ready s) (om_put ?a ?e (so_entries s))"
    using core e entry cap by (intro entries_ok_put_old) (auto simp: src_core_def entry_ok_def)
  moreover have "so_ready s" using core False by (intro active_ready) auto
  ultimately show ?thesis
    using core False e ts
    by (auto simp: RuleSources_Release_def src_inv_def timer_ok_def src_core_def active_ok_def
        reset_loader_def put_entry_def src_emit_def intro: restore_ok_ready)
qed

definition refreshed :: "env \<Rightarrow> entry \<Rightarrow> entry" where
  "refreshed E e = e\<lparr>en_generation := en_generation e + 1, en_last_check := now E,
     en_not_before := now E + minutes 1, en_due := now E + minutes 1, en_error := []\<rparr>"

lemma Refresh_starts:
  assumes core: "src_core L s" and e: "map_of (so_entries s) i = Some e" and ready: "so_ready s"
    and go: "so_clients s \<noteq> 0" "cf_enabled (en_config e)" "so_active s = []"
      "en_not_before e \<le> now E" and clock: "0 < now E"
  shows "src_inv L (snd (RuleSources_Refresh E i s))"
    and "so_active (snd (RuleSources_Refresh E i s)) = i"
proof -
  note entry = entry_of [OF core e]
  let ?es = "om_put i (refreshed E e) (so_entries s)"
  let ?ts = "filter (\<lambda>k. \<not> is_download k) (so_tasks s)"
  have cap: "cap_of (refreshed E e) = cap_of e" by (simp add: cap_of_def refreshed_def)
  have "tasks_ok ?es (if [] = i then [] else []) (so_tasks s)"
    using core entry e cap go by (intro tasks_ok_bump) (auto simp: src_core_def refreshed_def)
  then have "tasks_ok ?es [] ?ts" by (intro tasks_ok_filter) simp
  then have ts: "tasks_ok ?es i (?ts @ [TaskDownloaded i (en_generation (refreshed E e))])"
    using entry by (intro tasks_ok_post) auto
  have es: "entries_ok L True ?es"
    using core e entry cap ready clock
    by (intro entries_ok_put_old) (auto simp: src_core_def entry_ok_def refreshed_def span_defs)
  have res: "snd (RuleSources_Refresh E i s) = src_emit (SrcNotify False) (src_emit
      (SrcDownload (cf_url (en_config e))) (s\<lparr>so_entries := ?es, so_timer := None, so_active := i,
        so_loading := True, so_tasks := ?ts @ [TaskDownloaded i (en_generation (refreshed E e))]\<rparr>))"
    using go e entry(3)
    by (simp add: RuleSources_Refresh_def Let_def refreshed_def put_entry_def reset_loader_def
        src_post_def)
  have "restore_ok True (so_entries s) (so_active s) (so_tasks s)"
    using core ready by (simp add: src_core_def)
  then have "restore_ok True ?es i (?ts @ [TaskDownloaded i (en_generation (refreshed E e))])"
    by (auto simp: restore_ok_def list_all_iff)
  then show "src_inv L (snd (RuleSources_Refresh E i s))"
    unfolding res src_inv_emit using core ts es ready go entry(3)
    by (auto simp: src_inv_def timer_ok_def src_core_def active_ok_def refreshed_def)
  show "so_active (snd (RuleSources_Refresh E i s)) = i"
    unfolding res by (simp add: src_emit_def)
qed

lemma Refresh_inv:
  assumes inv: "src_inv L s" and e: "map_of (so_entries s) i = Some e" and ready: "so_ready s"
    and env: "env_ok s E"
  shows "src_inv L (snd (RuleSources_Refresh E i s))"
proof (cases "so_clients s \<noteq> 0 \<and> cf_enabled (en_config e) \<and> so_active s = [] \<and> en_not_before e \<le> now E")
  case True
  with assms show ?thesis
    by (intro Refresh_starts(1) [OF _ e]) (auto simp: src_inv_def env_ok_def)
next
  case False
  then have "snd (RuleSources_Refresh E i s) = s"
    using e by (auto simp: RuleSources_Refresh_def)
  with inv show ?thesis by simp
qed

lemma first_due_Some:
  "first_due E es = Some i \<Longrightarrow> \<exists>e. (i, e) \<in> set es \<and> cf_enabled (en_config e) \<and> en_due e \<le> now E"
  by (induction E es rule: first_due.induct) (auto split: if_splits)

lemma Tick_inv:
  assumes inv: "src_inv L s" and env: "env_ok s E" and timer: "so_timer s \<noteq> None"
  shows "src_inv L (RuleSources_Tick E s)"
proof (cases "first_due E (so_entries s)")
  case None
  have "src_inv L (RuleSources_Schedule E (s\<lparr>so_timer := None\<rparr>))"
    using inv by (intro Schedule_inv) (simp add: src_inv_def)
  with None show ?thesis by (simp add: RuleSources_Tick_def)
next
  case (Some i)
  from inv timer have run: "so_ready s" "so_clients s \<noteq> 0" "so_active s = []"
    and core: "src_core L s"
    by (auto simp: src_inv_def timer_ok_def)
  obtain e where e: "(i, e) \<in> set (so_entries s)" "cf_enabled (en_config e)" "en_due e \<le> now E"
    using first_due_Some [OF Some] by blast
  have look: "map_of (so_entries s) i = Some e"
    using core e(1) by (simp add: src_core_def entries_ok_def om_lookup_in)
  have "en_not_before e \<le> now E" using entry_of(1) [OF core look] e(3) by (simp add: entry_ok_def)
  then have "src_inv L (snd (RuleSources_Refresh E i (s\<lparr>so_timer := None\<rparr>)))"
    using core look run e(2) env by (intro Refresh_starts(1)) (auto simp: env_ok_def)
  with Some show ?thesis by (simp add: RuleSources_Tick_def)
qed

section \<open>Deliveries keep the invariant\<close>

text \<open>A change of an entry while no answer is in flight for any source.\<close>

lemma put_idle:
  assumes core: "src_core L s" and idle: "so_active s = []" "so_ready s"
    and e: "map_of (so_entries s) i = Some e" "entry_ok L True i e'"
      "en_generation e' = en_generation e"
      "cap_of e' + om_sum cap_of (om_del i (so_entries s)) \<le> kSubscriptionTotalRecords"
  shows "src_core L (put_entry i e' s)"
  using core idle e entries_ok_install [of L True "so_entries s" i e e']
    tasks_ok_idle [OF _ e(1,3), of "so_tasks s"] restore_ok_put [of True "so_entries s" "[]" "so_tasks s"]
  by (simp add: src_core_def put_entry_def active_ok_def)

lemma cap_old_fits:
  assumes "src_core L s" and "map_of (so_entries s) i = Some e" and "cap_of e' \<le> cap_of e"
  shows "cap_of e' + om_sum cap_of (om_del i (so_entries s)) \<le> kSubscriptionTotalRecords"
  using assms om_sum_old [of "so_entries s" i e cap_of] by (auto simp: src_core_def entries_ok_def)

lemma backoff_positive: "1 \<le> n \<Longrightarrow> minutes 5 \<le> backoff n \<and> backoff n \<le> hours 6"
proof -
  have "(1::int) \<le> 2 ^ nat (n - 1)" by simp
  then show ?thesis by (auto simp: backoff_def span_defs)
qed

lemma put_entry_active: "(put_entry i e s)\<lparr>so_active := a\<rparr> = put_entry i e (s\<lparr>so_active := a\<rparr>)"
  by (simp add: put_entry_def)

lemma Fail_inv:
  assumes core: "src_core L (s\<lparr>so_active := []\<rparr>)" and ready: "so_ready s"
    and e: "map_of (so_entries s) i = Some e" and env: "0 < now E" "0 \<le> rand_int E 0 60"
  shows "src_inv L (RuleSources_Fail E i error s)"
proof -
  let ?n = "min (en_failures e + 1) 7"
  let ?e = "e\<lparr>en_error := error, en_failures := ?n, en_not_before := now E + backoff ?n,
      en_due := now E + backoff ?n + seconds (rand_int E 0 60)\<rparr>"
  have entry: "entry_ok L True i e" using entry_of(1) [OF core, of i e] e ready by simp
  then have "1 \<le> ?n" by (simp add: entry_ok_def)
  then have b: "minutes 5 \<le> backoff ?n" by (rule backoff_positive [THEN conjunct1])
  have ok: "entry_ok L True i ?e"
    using entry b env by (simp add: entry_ok_def span_defs)
  have fits: "cap_of ?e + om_sum cap_of (om_del i (so_entries s)) \<le> kSubscriptionTotalRecords"
    using cap_old_fits [OF core, of i e ?e] e by (simp add: cap_of_def)
  have "src_core L (put_entry i ?e (s\<lparr>so_active := []\<rparr>))"
    by (rule put_idle [OF core _ _ _ ok, of e]) (use ready e fits in auto)
  then have "src_inv L (RuleSources_Schedule E ((put_entry i ?e s)\<lparr>so_active := []\<rparr>))"
    unfolding put_entry_active by (rule Schedule_inv)
  then show ?thesis by (simp add: RuleSources_Fail_def e Let_def)
qed

text \<open>The state in which a live answer is handled: its source is active, the answer is gone.\<close>

definition handling :: "'u lib \<Rightarrow> string \<Rightarrow> entry \<Rightarrow> sources \<Rightarrow> bool" where
  "handling L i e s \<longleftrightarrow> src_core L (s\<lparr>so_active := []\<rparr>) \<and> so_active s = i \<and> so_ready s \<and>
     so_timer s = None \<and> so_clients s \<noteq> 0 \<and> map_of (so_entries s) i = Some e \<and>
     cf_enabled (en_config e) \<and> en_not_before e = en_last_check e + minutes 1"

lemma handling_Current: "handling L i e s \<Longrightarrow> g = en_generation e \<Longrightarrow> RuleSources_Current i g s = Some e"
  by (simp add: handling_def RuleSources_Current_def)

lemma handling_Fail:
  "handling L i e s \<Longrightarrow> env_ok s E \<Longrightarrow> src_inv L (RuleSources_Fail E i error s)"
  by (rule Fail_inv) (auto simp: handling_def env_ok_def)

lemma handling_loading [simp]: "handling L i e (s\<lparr>so_loading := b\<rparr>) = handling L i e s"
proof -
  have "src_core L (s\<lparr>so_loading := b, so_active := []\<rparr>) = src_core L (s\<lparr>so_active := []\<rparr>)"
    by (simp add: src_core_def active_ok_def)
  then show ?thesis by (simp add: handling_def)
qed

lemma handling_post:
  assumes h: "handling L i e s" and k: "task_key k = Some (i, en_generation e)"
    and pay: "payload_ok (so_entries s) k"
  shows "src_inv L (src_post k s)"
proof -
  from h have core: "src_core L (s\<lparr>so_active := []\<rparr>)" and e: "map_of (so_entries s) i = Some e"
    by (auto simp: handling_def)
  have i: "i \<noteq> []" using entry_of(3) [OF core, of i e] e by simp
  have "tasks_ok (so_entries s) i (so_tasks s @ [k])"
    using core i e k pay by (intro tasks_ok_post) (auto simp: src_core_def)
  moreover have "\<not> is_restore k" using k by (cases k) auto
  ultimately show ?thesis
    using h i by (auto simp: handling_def src_inv_def timer_ok_def src_core_def src_post_def
        active_ok_def restore_ok_def)
qed

lemma env_ok_frame [simp]:
  "env_ok (s\<lparr>so_loading := b\<rparr>) E = env_ok s E"
  by (simp add: env_ok_def)

lemma handling_OnDownloaded:
  assumes h: "handling L i e s" and env: "env_ok s E"
  shows "src_inv L (RuleSources_OnDownloaded E i (en_generation e) b s)"
proof -
  let ?s = "s\<lparr>so_loading := False\<rparr>"
  from h have h': "handling L i e ?s" by simp
  then have "payload_ok (so_entries ?s) (TaskParsed i (en_generation e) (en_config e))"
    by (simp add: handling_def)
  from handling_post [OF h' _ this] handling_Fail [OF h', of E] env handling_Current [OF h refl]
  show ?thesis by (simp add: RuleSources_OnDownloaded_def Let_def)
qed

lemma handling_OnParsed:
  assumes h: "handling L i e s" and env: "env_ok s E"
  shows "src_inv L (RuleSources_OnParsed E i (en_generation e) parsed s)"
proof -
  have "src_inv L (src_post (TaskInstalled i (en_generation e) (en_config e) rules (pd_raw parsed)) s)"
    if "sr_capacity rules + total_capacity i (so_entries s) \<le> kSubscriptionTotalRecords" for rules
    using h that by (intro handling_post [OF h]) (auto simp: handling_def total_capacity_del)
  then show ?thesis
    using handling_Current [OF h refl] handling_Fail [OF h env]
    by (auto simp: RuleSources_OnParsed_def not_less split: option.splits)
qed

definition installed_entry :: "env \<Rightarrow> sub_rules \<Rightarrow> entry \<Rightarrow> entry" where
  "installed_entry E rules e = e\<lparr>en_rules := Some rules, en_error := [], en_failures := 0,
     en_revision := en_revision e + 1, en_due := now E + hours 8 + minutes (rand_int E 0 30)\<rparr>"

lemma handling_OnInstalled:
  assumes h: "handling L i e s" and env: "env_ok s E"
    and cap: "sr_capacity rules + om_sum cap_of (om_del i (so_entries s)) \<le> kSubscriptionTotalRecords"
  shows "src_inv L (RuleSources_OnInstalled E i (en_generation e) rules ok s)"
proof (cases ok)
  case False
  then show ?thesis
    using handling_Current [OF h refl] handling_Fail [OF h env]
    by (simp add: RuleSources_OnInstalled_def)
next
  case True
  let ?s = "s\<lparr>so_active := []\<rparr>"
  let ?e = "installed_entry E rules e"
  from h have core: "src_core L ?s" and e: "map_of (so_entries s) i = Some e" and ready: "so_ready s"
    by (auto simp: handling_def)
  have "(i, e) \<in> set (so_entries s)" using e by (rule map_of_SomeD)
  then have "en_last_check e \<le> now E" using env by (auto simp: env_ok_def)
  then have ok: "entry_ok L True i ?e"
    using entry_of(1) [OF core, of i e] e ready h env
    by (auto simp: entry_ok_def handling_def installed_entry_def env_ok_def span_defs)
  have "src_core L (put_entry i ?e ?s)"
    by (rule put_idle [OF core _ _ _ ok, of e])
      (use ready e cap in \<open>auto simp: cap_of_def installed_entry_def\<close>)
  then have "src_core L ((put_entry i ?e s)\<lparr>so_revision := so_revision s + 1, so_active := []\<rparr>)"
    by (simp add: put_entry_def src_core_def active_ok_def)
  then have "src_inv L (RuleSources_Schedule E
      ((put_entry i ?e s)\<lparr>so_revision := so_revision s + 1, so_active := []\<rparr>))"
    by (rule Schedule_inv)
  with True handling_Current [OF h refl] show ?thesis
    by (simp add: RuleSources_OnInstalled_def Let_def installed_entry_def)
qed

section \<open>The restore\<close>

lemma RestoreLoop_step:
  assumes "files (cf_id c) = Some contents"
  obtains rules where
    "acc \<le> kSubscriptionTotalRecords \<Longrightarrow> acc + sr_capacity rules \<le> kSubscriptionTotalRecords"
    "RestoreLoop L files t (c # cs) acc r = RestoreLoop L files t cs (acc + sr_capacity rules)
      (if cf_id c \<in> fst ` set r then r else om_put (cf_id c) rules r)"
proof -
  define r0 where "r0 = (case contents of
      None \<Rightarrow> empty_sub_rules\<lparr>sr_error := ''cache_invalid''\<rparr>
    | Some cache \<Rightarrow> DecodeSubscriptionCache L cache (gurl L (cf_url c))
        (cf_format c) (cf_rule_type c) t)"
  define rules where "rules = (if acc + sr_capacity r0 > kSubscriptionTotalRecords
      then empty_sub_rules\<lparr>sr_error := ''total_record_limit''\<rparr> else r0)"
  have "RestoreLoop L files t (c # cs) acc r = RestoreLoop L files t cs (acc + sr_capacity rules)
      (if cf_id c \<in> fst ` set r then r else om_put (cf_id c) rules r)"
    by (simp only: RestoreLoop.simps(2) assms option.case Let_def r0_def rules_def)
  moreover have "acc \<le> kSubscriptionTotalRecords \<Longrightarrow>
      acc + sr_capacity rules \<le> kSubscriptionTotalRecords"
    by (simp add: rules_def empty_sub_rules_def)
  ultimately show thesis by (rule that [rotated])
qed

lemma RestoreLoop_keys:
  "fst ` set (RestoreLoop L files t cs acc r) \<subseteq> fst ` set r \<union> cf_id ` set cs"
proof (induction cs arbitrary: acc r)
  case (Cons c cs)
  show ?case
  proof (cases "files (cf_id c)")
    case None
    then show ?thesis using Cons.IH [of acc r] by auto
  next
    case (Some contents)
    then obtain rules where "RestoreLoop L files t (c # cs) acc r =
        RestoreLoop L files t cs (acc + sr_capacity rules)
          (if cf_id c \<in> fst ` set r then r else om_put (cf_id c) rules r)"
      by (rule RestoreLoop_step)
    then show ?thesis
      using Cons.IH [of "acc + sr_capacity rules"
          "if cf_id c \<in> fst ` set r then r else om_put (cf_id c) rules r"]
      by (auto split: if_splits)
  qed
qed simp

definition restored_sum :: "(string \<times> sub_rules) list \<Rightarrow> nat" where
  "restored_sum rs = om_sum sr_capacity rs"

lemma RestoreLoop_bound:
  "om_ok r \<Longrightarrow> restored_sum r \<le> acc \<Longrightarrow> acc \<le> kSubscriptionTotalRecords \<Longrightarrow>
   om_ok (RestoreLoop L files t cs acc r) \<and>
   restored_sum (RestoreLoop L files t cs acc r) \<le> kSubscriptionTotalRecords"
proof (induction cs arbitrary: acc r)
  case (Cons c cs)
  show ?case
  proof (cases "files (cf_id c)")
    case None
    with Cons show ?thesis by simp
  next
    case (Some contents)
    obtain rules where rules: "acc + sr_capacity rules \<le> kSubscriptionTotalRecords"
      and step: "RestoreLoop L files t (c # cs) acc r = RestoreLoop L files t cs
        (acc + sr_capacity rules)
        (if cf_id c \<in> fst ` set r then r else om_put (cf_id c) rules r)"
      using Cons.prems(3) RestoreLoop_step [of files c contents acc L t cs r, OF Some] by metis
    show ?thesis
      unfolding step
    proof (rule Cons.IH)
      show "om_ok (if cf_id c \<in> fst ` set r then r else om_put (cf_id c) rules r)"
        using Cons.prems(1) by auto
      show "restored_sum (if cf_id c \<in> fst ` set r then r else om_put (cf_id c) rules r)
          \<le> acc + sr_capacity rules"
        using Cons.prems om_sum_put [of r sr_capacity "cf_id c" rules] om_del_absent [of "cf_id c" r]
        by (auto simp: restored_sum_def)
    qed (use rules in simp)
  qed
qed auto

definition restored_entry :: "env \<Rightarrow> sub_rules \<Rightarrow> entry \<Rightarrow> entry" where
  "restored_entry E rules e =
     (if sr_error rules \<noteq> [] then e\<lparr>en_error := sr_error rules\<rparr>
      else e\<lparr>en_rules := Some rules,
             en_due := max (now E + seconds 15) (sr_fetched rules + hours 8)\<rparr>)"

text \<open>
  What the loop over the restored indexes keeps: the sum of the indexes already in place and
  of those still to come is within the limit.
\<close>

definition restore_inv :: "'u lib \<Rightarrow> (string \<times> sub_rules) list \<Rightarrow> sources \<Rightarrow> bool" where
  "restore_inv L rs s \<longleftrightarrow> \<not> so_crashed s \<and> om_ok (so_entries s) \<and>
     length (so_entries s) \<le> kSubscriptionMaxSources \<and>
     (\<forall>i e. map_of (so_entries s) i = Some e \<longrightarrow> entry_ok L True i e \<and>
        (i \<in> fst ` set rs \<longrightarrow> en_rules e = None \<and> en_not_before e = 0)) \<and>
     om_sum cap_of (so_entries s) + restored_sum rs \<le> kSubscriptionTotalRecords \<and>
     fst ` set rs \<subseteq> fst ` set (so_entries s)"

lemma restore_entries_inv:
  "om_ok rs \<Longrightarrow> restore_inv L rs s \<Longrightarrow> 0 < now E \<Longrightarrow>
   restore_inv L [] (restore_entries E rs s) \<and>
   so_active (restore_entries E rs s) = so_active s \<and> so_tasks (restore_entries E rs s) = so_tasks s \<and>
   so_clients (restore_entries E rs s) = so_clients s \<and>
   so_ready (restore_entries E rs s) = so_ready s"
proof (induction rs arbitrary: s)
  case Nil
  then show ?case by (auto simp: restore_inv_def)
next
  case (Cons p rs)
  obtain i rules where p: "p = (i, rules)" by (cases p)
  from Cons.prems(2) obtain e where e: "map_of (so_entries s) i = Some e"
    by (auto simp: restore_inv_def p dest!: weak_map_of_SomeI)
  from Cons.prems(1) have rs: "om_ok rs" "i \<notin> fst ` set rs" by (auto simp: p om_ok_Cons)
  let ?e = "restored_entry E rules e"
  from Cons.prems(2) e have old: "entry_ok L True i e" "en_rules e = None" "en_not_before e = 0"
    "om_ok (so_entries s)"
    by (auto simp: restore_inv_def p)
  have ok: "entry_ok L True i ?e"
    using old Cons.prems(3) by (auto simp: entry_ok_def restored_entry_def span_defs)
  have sum: "om_sum cap_of (om_put i ?e (so_entries s)) \<le>
      om_sum cap_of (so_entries s) + sr_capacity rules"
    using om_sum_put [OF old(4), of cap_of i ?e] om_sum_old [OF old(4) e, of cap_of] old(2)
    by (simp add: cap_of_def restored_entry_def)
  have len: "length (om_put i ?e (so_entries s)) = length (so_entries s)"
    using e old(4) by (intro om_length_put_old) (force dest: map_of_SomeD)+
  have "restore_inv L rs (put_entry i ?e s)"
    using Cons.prems(2) ok sum len rs(2) old(4)
    by (auto simp: restore_inv_def p put_entry_def restored_sum_def om_sum_def)
  from Cons.IH [OF rs(1) this Cons.prems(3)] e show ?case
    by (simp add: p restored_entry_def put_entry_def)
qed

lemma OnRestored_inv:
  assumes core: "src_core L s" and ready: "\<not> so_ready s" and clock: "0 < now E"
    and cs: "cf_id ` set cs \<subseteq> fst ` set (so_entries s)"
  shows "src_inv L (RuleSources_OnRestored E (Restore L files t cs) (s\<lparr>so_tasks := []\<rparr>))"
proof -
  let ?s = "s\<lparr>so_tasks := []\<rparr>"
  let ?rs = "Restore L files t cs"
  have rs: "om_ok ?rs" "restored_sum ?rs \<le> kSubscriptionTotalRecords"
    using RestoreLoop_bound [of "[]" 0 L files t cs]
    by (auto simp: Restore_def restored_sum_def om_sum_def)
  have keys: "fst ` set ?rs \<subseteq> fst ` set (so_entries s)"
    using RestoreLoop_keys [of L files t cs 0 "[]"] cs by (auto simp: Restore_def)
  have es: "entries_ok L False (so_entries s)" using core ready by (simp add: src_core_def)
  then have none: "en_rules (snd p) = None" if "p \<in> set (so_entries s)" for p
    using that by (cases p) (auto simp: entries_ok_def entry_ok_def om_lookup_in)
  then have "om_sum cap_of (so_entries s) = 0"
    by (auto simp: om_sum_def cap_of_def)
  then have "restore_inv L ?rs ?s"
    using core es rs keys by (auto simp: restore_inv_def src_core_def entries_ok_def entry_ok_def)
  from restore_entries_inv [OF rs(1) this clock]
  have "src_core L ((restore_entries E ?rs ?s)\<lparr>so_ready := True\<rparr>)"
      and "\<not> so_crashed (restore_entries E ?rs ?s)"
    using core ready
    by (auto simp: src_core_def restore_inv_def entries_ok_def tasks_ok_def restore_ok_def
        active_ok_def restored_sum_def om_sum_def)
  then show ?thesis
    using Schedule_inv by (simp add: RuleSources_OnRestored_def Let_def)
qed

section \<open>Commands keep the invariant\<close>

lemma mutated_inv: "src_core L s \<Longrightarrow> src_inv L (snd (mutated E s))"
  unfolding mutated_def RuleSources_Persist_def
  by (simp add: Schedule_inv)

lemma AddConfig_ok: "AddConfig L E command = Inr c \<Longrightarrow> Validate L c \<and> cf_id c = token E"
  by (auto simp: AddConfig_def Let_def split: if_splits option.splits)

lemma MutateAdd_inv:
  assumes inv: "src_inv L s" and env: "env_ok s E" and ready: "so_ready s"
  shows "src_inv L (snd (MutateAdd L E command s))"
proof (cases "AddConfig L E command")
  case (Inl err)
  with inv show ?thesis by (simp add: MutateAdd_def)
next
  case (Inr c)
  let ?es = "om_put (cf_id c) (new_entry E c) (so_entries s)"
  from inv have core: "src_core L s" by (simp add: src_inv_def)
  note c = AddConfig_ok [OF Inr]
  have new: "src_core L (put_entry (cf_id c) (new_entry E c) s)"
    if "cf_id c \<notin> fst ` set (so_entries s)" "length (so_entries s) < kSubscriptionMaxSources"
  proof -
    have ok: "entry_ok L True (cf_id c) (new_entry E c)"
      using c env by (intro new_entry_ok) (auto simp: env_ok_def)
    have "entries_ok L True ?es"
      using core ready that ok by (intro entries_ok_new) (auto simp: src_core_def)
    moreover have "tasks_ok ?es (so_active s) (so_tasks s)"
      using core that env c
      by (intro tasks_ok_new) (auto simp: src_core_def entries_ok_def env_ok_def list_all_iff)
    moreover have "map_of (so_entries s) (cf_id c) = None"
      using that(1) by (simp add: map_of_eq_None_iff)
    then have "so_active s \<noteq> cf_id c"
      using core c Validate_id [of L c] by (auto simp: src_core_def active_ok_def)
    ultimately show ?thesis
      using core ready
      by (auto simp: src_core_def put_entry_def active_ok_def intro: restore_ok_put)
  qed
  have inv': "src_inv L (snd (mutated E s))" using core by (rule mutated_inv)
  have new': "src_inv L (snd (mutated E (put_entry (cf_id c) (new_entry E c) s)))"
    if "cf_id c \<notin> fst ` set (so_entries s)" "length (so_entries s) < kSubscriptionMaxSources"
    using new [OF that] by (rule mutated_inv)
  show ?thesis
    using inv inv' new' Inr by (auto simp: MutateAdd_def)
qed

text \<open>A change of a source that is not active and for which no answer is live.\<close>

lemma tasks_ok_quiet:
  assumes ts: "tasks_ok es a ts" and es: "om_ok es" "map_of es i = Some e" and a: "a \<noteq> i"
    and e': "en_generation e' = en_generation e" "cap_of e' \<le> cap_of e"
  shows "tasks_ok (om_put i e' es) a ts"
proof -
  have "live (om_put i e' es) = live es" using live_same(1) [OF es(2) e'(1)] by blast
  moreover have "payload_ok (om_put i e' es) k" if "k \<in> set ts" "live es k" for k
    using ts that a by (intro payload_replace [OF es e'(2)]) (auto simp: tasks_ok_def)
  ultimately show ?thesis
    using ts live_same(2) [OF es(2) e'(1)] by (simp add: tasks_ok_def list_all_iff)
qed

lemma DeleteCache_core [simp]: "src_core L (RuleSources_DeleteCache c s) = src_core L s"
  by (simp add: RuleSources_DeleteCache_def)

lemma DeleteCache_frame [simp]:
  "so_entries (RuleSources_DeleteCache c s) = so_entries s"
  "so_active (RuleSources_DeleteCache c s) = so_active s"
  "so_ready (RuleSources_DeleteCache c s) = so_ready s"
  by (simp_all add: RuleSources_DeleteCache_def src_emit_def)

lemma Supersede_core:
  assumes core: "src_core L s" and e: "map_of (so_entries s) i = Some e" and ready: "so_ready s"
  shows "src_core L (Supersede i e s) \<and> so_ready (Supersede i e s) \<and> so_active (Supersede i e s) \<noteq> i \<and>
    so_entries (Supersede i e s) = om_put i (e\<lparr>en_generation := en_generation e + 1\<rparr>) (so_entries s)"
proof -
  note entry = entry_of [OF core e]
  let ?e = "e\<lparr>en_generation := en_generation e + 1\<rparr>"
  let ?es = "om_put i ?e (so_entries s)"
  have cap: "cap_of ?e = cap_of e" by (simp add: cap_of_def)
  have es: "entries_ok L True ?es"
    using core e entry cap ready by (intro entries_ok_put_old) (auto simp: src_core_def entry_ok_def)
  have ts: "tasks_ok ?es (if so_active s = i then [] else so_active s) (so_tasks s)"
    using core entry e cap by (intro tasks_ok_bump) (auto simp: src_core_def)
  have rs: "restore_ok True (so_entries s) (so_active s) (so_tasks s)"
    using core ready by (simp add: src_core_def)
  show ?thesis
  proof (cases "so_active s = i")
    case True
    have "tasks_ok ?es [] (filter (\<lambda>k. \<not> is_download k) (so_tasks s))"
      using ts True by (intro tasks_ok_filter) simp
    then have "src_core L (reset_loader ((put_entry i ?e s)\<lparr>so_active := []\<rparr>))"
      using core es ready rs
      by (auto simp: src_core_def active_ok_def reset_loader_def put_entry_def intro: restore_ok_ready)
    with True ready entry(3) show ?thesis
      by (simp add: Supersede_def put_entry_def reset_loader_def)
  next
    case False
    then have "src_core L (put_entry i ?e s)"
      using core es ts ready restore_ok_put [OF rs, of i ?e]
      by (auto simp: src_core_def active_ok_def put_entry_def)
    with False ready show ?thesis by (simp add: Supersede_def put_entry_def)
  qed
qed

lemma UpdatedConfig_id [simp]: "cf_id (UpdatedConfig L command c) = cf_id c"
  by (auto simp: UpdatedConfig_def Let_def split: option.splits)

lemma ApplyUpdate_core:
  assumes core: "src_core L s" and ready: "so_ready s" and i: "so_active s \<noteq> i"
    and e: "map_of (so_entries s) i = Some (e\<lparr>en_generation := en_generation e + 1\<rparr>)"
    and upd: "Validate L updated" "cf_id updated = i" and env: "0 < now E"
  shows "src_core L (ApplyUpdate E i e updated s)"
proof -
  note entry = entry_of [OF core e]
  define changed where "changed \<longleftrightarrow> cf_url updated \<noteq> cf_url (en_config e) \<or>
            cf_format updated \<noteq> cf_format (en_config e) \<or>
            cf_rule_type updated \<noteq> cf_rule_type (en_config e)"
  define e1 where "e1 = (if changed then e\<lparr>en_rules := None\<rparr> else e)"
  define e2 where "e2 = e1\<lparr>en_config := updated, en_revision := en_revision e1 + 1, en_error := [],
     en_generation := en_generation e1 + 1, en_due := max (en_not_before e1) (now E + seconds 15)\<rparr>"
  define s1 where "s1 = (if changed then RuleSources_DeleteCache (en_config e) s else s)"
  have upd': "ApplyUpdate E i e updated s = put_entry i e2 s1"
    by (simp add: ApplyUpdate_def Let_def changed_def e1_def e2_def s1_def)
  have s1: "src_core L s1" "so_entries s1 = so_entries s" "so_active s1 = so_active s" "so_ready s1"
    using core ready by (simp_all add: s1_def)
  have cap: "cap_of e2 \<le> cap_of (e\<lparr>en_generation := en_generation e + 1\<rparr>)"
    by (simp add: e2_def e1_def cap_of_def)
  have gen: "en_generation e2 = en_generation (e\<lparr>en_generation := en_generation e + 1\<rparr>)"
    by (simp add: e2_def e1_def)
  have ok: "entry_ok L True i e2"
    using entry upd env by (auto simp: entry_ok_def e2_def e1_def span_defs)
  have "entries_ok L True (om_put i e2 (so_entries s1))"
    using s1 e ok cap by (intro entries_ok_put_old [of L True _ i]) (auto simp: src_core_def)
  moreover have "tasks_ok (om_put i e2 (so_entries s1)) (so_active s1) (so_tasks s1)"
    using s1 e i gen cap entry(2)
    by (intro tasks_ok_quiet [of _ _ _ i]) (auto simp: src_core_def)
  moreover have "restore_ok True (om_put i e2 (so_entries s1)) (so_active s1) (so_tasks s1)"
    using s1 by (intro restore_ok_put) (auto simp: src_core_def)
  ultimately show ?thesis
    using s1 i unfolding upd' by (auto simp: src_core_def put_entry_def active_ok_def)
qed

lemma remove_core:
  assumes core: "src_core L s" and ready: "so_ready s" and i: "so_active s \<noteq> i"
  shows "src_core L (s\<lparr>so_entries := om_del i (so_entries s)\<rparr>)"
proof -
  have "tasks_ok (om_del i (so_entries s)) (so_active s) (so_tasks s)"
    using core i by (intro tasks_ok_del) (auto simp: src_core_def entries_ok_def)
  then show ?thesis
    using core ready i entries_ok_del [of L True "so_entries s" i]
    by (auto simp: src_core_def active_ok_def restore_ok_def)
qed

lemma CheckUpdate_None:
  "CheckUpdate L command i updated s = None \<Longrightarrow> Validate L updated"
  by (auto simp: CheckUpdate_def split: if_splits)

lemma four_cases:
  obtains (a) "x = a" | (r) "x = b" | (u) "x = c" | (d) "x = d" | (x) "x \<notin> {a, b, c, d}"
  by blast

lemma Mutate_inv:
  assumes inv: "src_inv L s" and env: "env_ok s E"
  shows "src_inv L (snd (RuleSources_Mutate L E modifiable action command s))"
proof -
  let ?i = "String_field command ''sourceId''"
  consider (refused) "snd (RuleSources_Mutate L E modifiable action command s) = s"
    | (add) "so_ready s" "RuleSources_Mutate L E modifiable action command s = MutateAdd L E command s"
    | (refresh) e where "so_ready s" "map_of (so_entries s) ?i = Some e"
        "RuleSources_Mutate L E modifiable action command s = RuleSources_Refresh E ?i s"
    | (update) e where "so_ready s" "map_of (so_entries s) ?i = Some e"
        "Validate L (UpdatedConfig L command (en_config e))"
        "RuleSources_Mutate L E modifiable action command s = mutated E (ApplyUpdate E ?i e
           (UpdatedConfig L command (en_config e)) (Supersede ?i e s))"
    | (remove) e where "so_ready s" "map_of (so_entries s) ?i = Some e"
        "RuleSources_Mutate L E modifiable action command s = mutated E
           ((RuleSources_DeleteCache (en_config e) (Supersede ?i e s))\<lparr>so_entries :=
             om_del ?i (so_entries (RuleSources_DeleteCache (en_config e) (Supersede ?i e s)))\<rparr>)"
  proof -
    let ?open = "so_ready s \<and> find_int command ''expectedRevision'' = Some (so_revision s) \<and> modifiable"
    show thesis
    proof (cases "?open")
      case False
      then show thesis by (intro refused) (auto simp: RuleSources_Mutate_def)
    next
      case opened: True
      show thesis
      proof (cases "map_of (so_entries s) ?i")
        case None
        with opened show thesis
          by (cases "action = ''addProtectionRuleSource''")
            (auto simp: RuleSources_Mutate_def Let_def intro: refused add)
      next
        case (Some e)
        note body = RuleSources_Mutate_def Let_def opened Some
        show thesis
        proof (cases rule: four_cases [where x = action and a = "''addProtectionRuleSource''"
              and b = "''refreshProtectionRuleSource''" and c = "''updateProtectionRuleSource''"
              and d = "''removeProtectionRuleSource''"])
          case a
          then show thesis by (intro add) (simp_all add: body)
        next
          case r
          then show thesis by (intro refresh [OF _ Some]) (simp_all add: body)
        next
          case u
          show thesis
          proof (cases "CheckUpdate L command ?i (UpdatedConfig L command (en_config e)) s")
            case None
            with u show thesis
              by (intro update [OF _ Some CheckUpdate_None [OF None]]) (simp_all add: body)
          next
            case (Some err)
            with u show thesis by (intro refused) (simp add: body)
          qed
        next
          case d
          then show thesis by (intro remove [OF _ Some]) (simp_all add: body)
        next
          case x
          then show thesis by (intro refused) (simp add: body)
        qed
      qed
    qed
  qed
  then show ?thesis
  proof cases
    case refused
    with inv show ?thesis by simp
  next
    case add
    with MutateAdd_inv [OF inv env] show ?thesis by simp
  next
    case refresh
    with Refresh_inv [OF inv _ _ env] show ?thesis by simp
  next
    case update
    from inv have core: "src_core L s" by (simp add: src_inv_def)
    have "cf_id (en_config e) = ?i" using entry_of(1) [OF core update(2)] by (simp add: entry_ok_def)
    then have "src_core L (ApplyUpdate E ?i e (UpdatedConfig L command (en_config e)) (Supersede ?i e s))"
      using Supersede_core [OF core update(2,1)] update(3) env
      by (intro ApplyUpdate_core) (auto simp: env_ok_def)
    with update(4) show ?thesis by (simp add: mutated_inv)
  next
    case remove
    from inv have core: "src_core L s" by (simp add: src_inv_def)
    let ?s = "RuleSources_DeleteCache (en_config e) (Supersede ?i e s)"
    have "src_core L (?s\<lparr>so_entries := om_del ?i (so_entries ?s)\<rparr>)"
      using Supersede_core [OF core remove(2,1)] by (intro remove_core) auto
    then show ?thesis unfolding remove(3) by (rule mutated_inv)
  qed
qed

section \<open>Every step keeps the invariant\<close>

lemma Current_live:
  assumes core: "src_core L s" and k: "k \<in> set (so_tasks s)" "task_key k = Some (i, g)"
  shows "RuleSources_Current i g s = (if live (so_entries s) k then map_of (so_entries s) i else None)"
proof (cases "live (so_entries s) k")
  case True
  then obtain e where e: "map_of (so_entries s) i = Some e" "en_generation e = g"
    using k(2) by (auto simp: live_def split: option.splits)
  have "so_active s = i" using core k True by (force simp: src_core_def tasks_ok_def)
  moreover from this have "so_clients s \<noteq> 0" "cf_enabled (en_config e)"
    using core e entry_of(3) [OF core e(1)] by (auto simp: src_core_def active_ok_def)
  ultimately show ?thesis using True e by (simp add: RuleSources_Current_def)
next
  case False
  then show ?thesis using k(2)
    by (auto simp: live_def RuleSources_Current_def split: option.splits)
qed

lemma Current_frame [simp]: "RuleSources_Current i g (s\<lparr>so_tasks := ts\<rparr>) = RuleSources_Current i g s"
  by (auto simp: RuleSources_Current_def split: option.splits)

lemma set_remove_nth: "set (remove_nth n xs) \<subseteq> set xs"
  by (auto simp: remove_nth_def dest: in_set_takeD in_set_dropD)

lemma drop_stale:
  assumes inv: "src_inv L s" and n: "n < length (so_tasks s)"
    and k: "\<not> live (so_entries s) (so_tasks s ! n)" "task_key (so_tasks s ! n) \<noteq> None"
  shows "src_inv L (s\<lparr>so_tasks := remove_nth n (so_tasks s)\<rparr>)"
proof -
  have "tasks_ok (so_entries s) (so_active s) (remove_nth n (so_tasks s))"
    using tasks_ok_remove [OF _ n, of "so_entries s" "so_active s"] inv k
    by (simp add: src_inv_def src_core_def)
  moreover have "restore_ok (so_ready s) (so_entries s) (so_active s) (remove_nth n (so_tasks s))"
    using inv k n set_remove_nth [of n "so_tasks s"]
    by (auto simp: src_inv_def src_core_def restore_ok_def list_all_iff split: if_splits)
  ultimately show ?thesis
    using inv by (simp add: src_inv_def src_core_def timer_ok_def active_ok_def)
qed

lemma take_live:
  assumes inv: "src_inv L s" and n: "n < length (so_tasks s)"
    and k: "live (so_entries s) (so_tasks s ! n)" "task_key (so_tasks s ! n) = Some (i, g)"
  obtains e where "handling L i e (s\<lparr>so_tasks := remove_nth n (so_tasks s)\<rparr>)"
    "g = en_generation e" "payload_ok (so_entries s) (so_tasks s ! n)"
proof -
  from inv have core: "src_core L s" by (simp add: src_inv_def)
  from k obtain e where e: "map_of (so_entries s) i = Some e" "en_generation e = g"
    by (auto simp: live_def split: option.splits)
  have mem: "so_tasks s ! n \<in> set (so_tasks s)" using n by simp
  then have act: "so_active s = i" and pay: "payload_ok (so_entries s) (so_tasks s ! n)"
    using core k by (force simp: src_core_def tasks_ok_def)+
  have i: "i \<noteq> []" using entry_of(3) [OF core e(1)] .
  have ready: "so_ready s" using active_ready [OF core] act i by simp
  have "tasks_ok (so_entries s) [] (remove_nth n (so_tasks s))"
    using tasks_ok_remove [OF _ n, of "so_entries s" "so_active s"] core k
    by (simp add: src_core_def)
  moreover have "restore_ok True (so_entries s) [] (remove_nth n (so_tasks s))"
    using core ready set_remove_nth [of n "so_tasks s"]
    by (auto simp: src_core_def restore_ok_def list_all_iff)
  ultimately have "src_core L (s\<lparr>so_tasks := remove_nth n (so_tasks s), so_active := []\<rparr>)"
    using core ready by (simp add: src_core_def active_ok_def)
  then have "handling L i e (s\<lparr>so_tasks := remove_nth n (so_tasks s)\<rparr>)"
    using inv e act i ready
    by (auto simp: handling_def src_inv_def timer_ok_def src_core_def active_ok_def)
  with e(2) pay show thesis by (intro that) auto
qed

lemma env_ok_tasks: "env_ok s E \<Longrightarrow> env_ok (s\<lparr>so_tasks := remove_nth n (so_tasks s)\<rparr>) E"
  using set_remove_nth [of n "so_tasks s"] by (auto simp: env_ok_def list_all_iff)

lemma Deliver_inv:
  assumes inv: "src_inv L s" and ok: "src_ok s (SeDeliver E n out)"
  shows "src_inv L (src_step L s (SeDeliver E n out))"
proof -
  let ?k = "so_tasks s ! n"
  let ?s = "s\<lparr>so_tasks := remove_nth n (so_tasks s)\<rparr>"
  from ok have n: "n < length (so_tasks s)" and fits: "outcome_fits ?k out"
    and env: "env_ok s E" by auto
  from inv have core: "src_core L s" by (simp add: src_inv_def)
  have mem: "?k \<in> set (so_tasks s)" using n by simp
  note env' = env_ok_tasks [OF env, of n]
  show ?thesis
  proof (cases "task_key ?k")
    case None
    then obtain cs where cs: "?k = TaskRestore cs" by (cases ?k) auto
    then have "so_tasks s = [TaskRestore cs]" and ready: "\<not> so_ready s"
      and keys: "cf_id ` set cs \<subseteq> fst ` set (so_entries s)"
      using core mem n by (auto simp: src_core_def restore_ok_def list_all_iff split: if_splits)
    then have "remove_nth n (so_tasks s) = []" using n by (simp add: remove_nth_def)
    moreover obtain files where "out = OutFiles files" using fits cs by (cases out) auto
    ultimately show ?thesis
      using OnRestored_inv [OF core ready _ keys, of E files "now E"] env cs
      by (simp add: env_ok_def)
  next
    case (Some ig)
    then obtain i g where key: "task_key ?k = Some (i, g)" by (cases ig) auto
    note cur = Current_live [OF core mem key]
    show ?thesis
    proof (cases "live (so_entries s) ?k")
      case False
      then have "src_inv L ?s" and "RuleSources_Current i g s = None"
        using drop_stale [OF inv n False] key cur by auto
      with key fits show ?thesis
        by (cases ?k; cases out) (auto simp: RuleSources_OnDownloaded_def RuleSources_OnParsed_def
            RuleSources_OnInstalled_def)
    next
      case True
      obtain e where h: "handling L i e ?s" and g: "g = en_generation e"
        and pay: "payload_ok (so_entries s) ?k"
        using take_live [OF inv n True key] by metis
      show ?thesis
      proof (cases ?k)
        case (TaskDownloaded j g')
        then show ?thesis using handling_OnDownloaded [OF h env'] key g fits by (cases out) auto
      next
        case (TaskParsed j g' c)
        then show ?thesis using handling_OnParsed [OF h env'] key g fits by (cases out) auto
      next
        case (TaskInstalled j g' c rules raw)
        then show ?thesis using handling_OnInstalled [OF h env'] key g fits pay by (cases out) auto
      qed (use key in simp)
    qed
  qed
qed

lemma src_inv_step: "src_inv L s \<Longrightarrow> src_ok s e \<Longrightarrow> src_inv L (src_step L s e)"
proof (cases e)
  case (SeDeliver E n out)
  then show "src_inv L s \<Longrightarrow> src_ok s e \<Longrightarrow> ?thesis" using Deliver_inv by blast
qed (auto intro: Acquire_inv Release_inv Tick_inv Mutate_inv)

interpretation src_guarded: machine "src_step L" src_ok "src_inv L" for L :: "'u lib"
  by unfold_locales (rule src_inv_step)

lemma load_entries_inv:
  "load_entries L E vs cs es = (cs', es') \<Longrightarrow> 0 < now E \<Longrightarrow> entries_ok L False es \<Longrightarrow>
   om_sum cap_of es = 0 \<Longrightarrow> cf_id ` set cs \<subseteq> fst ` set es \<Longrightarrow>
   entries_ok L False es' \<and> cf_id ` set cs' \<subseteq> fst ` set es'"
proof (induction vs arbitrary: cs es)
  case (Cons v vs)
  show ?case
  proof (cases "v = None \<or> length es \<ge> kSubscriptionMaxSources \<or>
      (\<exists>d. v = Some d \<and> (\<not> Validate L (FromValue d) \<or> cf_id (FromValue d) \<in> fst ` set es))")
    case True
    then have "load_entries L E (v # vs) cs es = load_entries L E vs cs es"
      by (auto simp: Let_def split: option.split)
    with Cons.prems show ?thesis by (intro Cons.IH) auto
  next
    case False
    then obtain d where d: "v = Some d" "\<not> length es \<ge> kSubscriptionMaxSources"
      "\<not> (\<not> Validate L (FromValue d) \<or> cf_id (FromValue d) \<in> fst ` set es)"
      by (cases v) auto
    let ?c = "FromValue d"
    have ok: "entries_ok L False (om_put (cf_id ?c) (new_entry E ?c) es)"
      using d Cons.prems by (intro entries_ok_new new_entry_ok) auto
    have sum: "om_sum cap_of (om_put (cf_id ?c) (new_entry E ?c) es) = 0"
      using Cons.prems d om_sum_put [of es cap_of "cf_id ?c" "new_entry E ?c"]
        om_del_absent [of "cf_id ?c" es] by (simp add: entries_ok_def)
    have rec: "load_entries L E vs (cs @ [?c]) (om_put (cf_id ?c) (new_entry E ?c) es) = (cs', es')"
      using Cons.prems(1) d by (simp add: Let_def)
    show ?thesis
      by (rule Cons.IH [OF rec Cons.prems(2) ok sum])
        (use Cons.prems(5) in auto)
  qed
qed simp

lemma src_inv_init: "0 < now E \<Longrightarrow> src_inv L (RuleSources_Impl L E pref)"
  using load_entries_inv [of L E pref "[]" "[]"]
  by (auto simp: RuleSources_Impl_def src_inv_def src_core_def timer_ok_def tasks_ok_def restore_ok_def
      active_ok_def entries_ok_def om_sum_def live_def task_old_def split: prod.splits)

end
