(* ===== verification/Rule_Properties.thy ===== *)
theory Rule_Properties
  imports Sample_Platform Source_Machine
begin

text \<open>
  The properties of the protection rules: what may leave the device, the packaged rules, the
  signed updates and their cache, and the subscriptions. Each theorem is followed by the
  witness that applies it on the sample platform.
\<close>

section \<open>What may leave the device\<close>

text \<open>C19: A URL that \<open>CloudCheckUrl\<close> releases for a cloud check is the given URL without query
  and fragment, the given URL is a public web URL without credentials, and its lower-cased
  path has at most 256 characters, no percent or at sign, no "token" or "oauth", and no
  segment longer than 48 characters. In every other case the empty URL is returned.\<close>

theorem CloudCheckUrl_releases_only_clean_urls:
  assumes "CloudCheckUrl L url \<noteq> empty_url L"
  shows "CloudCheckUrl L url = clear_query_ref L url \<and> IsPublicHttpUrl L url \<and>
    url_is_valid L url \<and> \<not> has_username L url \<and> \<not> has_password L url \<and>
    length (spec L url) \<le> 4096 \<and> length (to_lower_ascii L (path L url)) \<le> 256 \<and>
    (\<forall>c \<in> {CHR ''%'', CHR ''@''}. c \<notin> set (to_lower_ascii L (path L url))) \<and>
    \<not> has_substring (to_lower_ascii L (path L url)) ''token'' \<and>
    \<not> has_substring (to_lower_ascii L (path L url)) ''oauth'' \<and>
    (\<forall>a s b. to_lower_ascii L (path L url) = a @ s @ b \<and> CHR ''/'' \<notin> set s \<longrightarrow> length s \<le> 48)"
proof -
  have "IsPublicHttpUrl L url" "segments_short 0 (to_lower_ascii L (path L url))"
    using assms by (auto simp: CloudCheckUrl_def Let_def split: if_splits)
  moreover from this(1) have "url_is_valid L url \<and> \<not> has_username L url \<and>
      \<not> has_password L url \<and> length (spec L url) \<le> 4096"
    by (auto simp: IsPublicHttpUrl_def split: if_splits)
  ultimately show ?thesis
    using assms by (auto simp: CloudCheckUrl_def Let_def segments_short_iff split: if_splits)
qed

lemma CloudCheckUrl_releases_only_clean_urls_witness:
  "CloudCheckUrl plain_lib ''https://a.test/p?secret'' = ''https://a.test/p''"
proof -
  have "CloudCheckUrl plain_lib ''https://a.test/p?secret'' \<noteq> empty_url plain_lib"
    by (simp add: CloudCheckUrl_def IsPublicHttpUrl_def strip_trailing_dots_def sample_defs
        starts_with_def ends_with_def Let_def)
  from CloudCheckUrl_releases_only_clean_urls [OF this] show ?thesis
    by (simp add: sample_defs)
qed

section \<open>Packaged rules\<close>

text \<open>C28: Rules that parse as ready match, at any time, exactly the public URLs whose digest is
  that of one of the URLs the file lists, and only inside the validity window, which is at
  most seven days long. The binary search over the sorted digests is membership.\<close>

theorem parsed_rules_match_listed_urls:
  assumes "lr_status (ParseLocalRules L json t) = ''ready''"
  shows "\<exists>root urls. read_json L json = Some root \<and> find_list root ''urls'' = Some urls \<and>
    lr_expires (ParseLocalRules L json t) - lr_generated (ParseLocalRules L json t) \<le> days 7 \<and>
    (\<forall>url t'. LocalRules_Matches L (ParseLocalRules L json t) url t' \<longleftrightarrow>
       lr_generated (ParseLocalRules L json t) \<le> t' \<and> t' < lr_expires (ParseLocalRules L json t) \<and>
       IsPublicHttpUrl L url \<and>
       (\<exists>s. Some s \<in> set urls \<and> sha256 L (spec L (gurl L s)) = sha256 L (spec L url)))"
proof -
  let ?r = "ParseLocalRules L json t"
  obtain root urls hs where r: "read_json L json = Some root" "find_list root ''urls'' = Some urls"
      "hash_urls L urls = Some hs" "lr_hashes ?r = sort_unique hs"
      "lr_expires ?r - lr_generated ?r \<le> days 7"
    using ParseLocalRules_ready [OF assms] by metis
  have "binary_search (lr_hashes ?r) d \<longleftrightarrow>
      (\<exists>s. Some s \<in> set urls \<and> sha256 L (spec L (gurl L s)) = d)" for d
    using hash_urls_set [OF r(3)] by (auto simp: r(4) binary_search_iff)
  then show ?thesis
    using r(1,2,5) assms by (auto simp: LocalRules_Matches_def LocalRules_IsUsable_def)
qed

definition sample_rules_root :: dict where
  "sample_rules_root = empty_dict\<lparr>
     find_int := (\<lambda>k. if k = ''format'' then Some 1 else None),
     find_string := (\<lambda>k. if k = ''version'' then Some ''v'' else
                         if k = ''source'' then Some ''Phishing.Database'' else None),
     find_list := (\<lambda>k. if k = ''urls'' then Some [Some ''https://a.test/p''] else None),
     find_double := (\<lambda>k. if k = ''generatedAt'' then Some 1 else
                         if k = ''expiresAt'' then Some 9 else None)\<rparr>"

definition rules_lib :: "string lib" where
  "rules_lib = sample_lib (\<lambda>s. if s = ''R'' then Some sample_rules_root else None) (\<lambda>_. None)"

lemma sample_rules_ready: "lr_status (ParseLocalRules rules_lib ''R'' 2000) = ''ready''"
  by (simp add: ParseLocalRules_def rules_lib_def sample_lib_def sample_rules_root_def kMaxBytes_def
      kMaxRules_def is_finite_double_def Let_def span_defs IsPublicHttpUrl_def strip_trailing_dots_def
      starts_with_def ends_with_def url_rest_def)

lemma parsed_rules_match_listed_urls_witness:
  "LocalRules_Matches rules_lib (ParseLocalRules rules_lib ''R'' 2000) ''https://a.test/p'' 3000 =
     (lr_generated (ParseLocalRules rules_lib ''R'' 2000) \<le> 3000 \<and>
      3000 < lr_expires (ParseLocalRules rules_lib ''R'' 2000))"
  using parsed_rules_match_listed_urls [OF sample_rules_ready]
  by (auto simp: rules_lib_def sample_lib_def sample_rules_root_def IsPublicHttpUrl_def
      strip_trailing_dots_def starts_with_def ends_with_def url_rest_def)

section \<open>Signed updates\<close>


definition hex32 :: string where "hex32 = replicate 32 (CHR ''0'')"

definition sample_config_root :: dict where
  "sample_config_root = empty_dict\<lparr>
     find_int := (\<lambda>k. if k = ''format'' then Some 1 else
                      if k = ''minimumSequence'' then Some 7 else None),
     find_string := (\<lambda>k. if k = ''manifestUrl'' then Some ''https://a.test/m'' else None),
     find_dict := (\<lambda>k. if k = ''keys'' then Some [(''k'', Some hex32)] else None)\<rparr>"

definition sample_config :: "string update_config" where
  "sample_config = \<lparr>uc_manifest_url = ''https://a.test/m'', uc_minimum_sequence = 7,
     uc_keys = [(''k'', hex32)], uc_status = ''ready''\<rparr>"

definition hex40 :: string where "hex40 = replicate 40 (CHR ''0'')"
definition hex64 :: string where "hex64 = replicate 64 (CHR ''0'')"

definition sample_envelope :: dict where
  "sample_envelope = empty_dict\<lparr>
     find_int := (\<lambda>k. if k = ''format'' then Some 1 else None),
     find_string := (\<lambda>k. if k = ''keyId'' then Some ''k'' else
                         if k = ''signed'' then Some ''M'' else
                         if k = ''signature'' then Some hex64 else None)\<rparr>"

definition sample_message :: dict where
  "sample_message = empty_dict\<lparr>
     find_int := (\<lambda>k. if k = ''format'' then Some 1 else if k = ''sequence'' then Some 9 else
                      if k = ''size'' then Some 64 else if k = ''count'' then Some 1 else None),
     find_double := (\<lambda>k. if k = ''generatedAt'' then Some 1 else
                         if k = ''expiresAt'' then Some 9 else None),
     find_string := (\<lambda>k. if k = ''rulesUrl'' then Some ''https://a.test/r'' else
                         if k = ''sha256'' then Some hex64 else
                         if k = ''version'' then Some hex40 else None)\<rparr>"

definition sample_payload :: dict where
  "sample_payload = sample_rules_root\<lparr>
     find_string := (\<lambda>k. if k = ''version'' then Some hex40 else
                         if k = ''source'' then Some ''Phishing.Database'' else None)\<rparr>"

definition update_lib :: "string lib" where
  "update_lib = sample_lib (\<lambda>s. if s = ''E'' then Some sample_envelope else
     if s = ''M'' then Some sample_message else
     if s = ''C'' then Some sample_config_root else
     if s = hex64 then Some sample_payload else None) (\<lambda>_. None)"

lemma hex_facts [simp]:
  "length hex64 = 64" "length hex40 = 40" "hex64 \<noteq> ''E''" "hex64 \<noteq> ''M''" "hex64 \<noteq> ''C''"
  "length hex32 = 32" "list_all is_hex_char hex64" "list_all is_hex_char hex40" "hex40 \<noteq> []"
proof -
  show len: "length hex64 = 64" "length hex40 = 40" "length hex32 = 32"
    by (simp_all add: hex64_def hex40_def hex32_def)
  from len have "length hex64 \<noteq> length ''E''" "length hex64 \<noteq> length ''M''" "length hex64 \<noteq> length ''C''"
    by simp_all
  then show "hex64 \<noteq> ''E''" "hex64 \<noteq> ''M''" "hex64 \<noteq> ''C''" by metis+
  show "hex40 \<noteq> []" using len(2) by auto
  show "list_all is_hex_char hex64" "list_all is_hex_char hex40"
    by (simp_all add: hex64_def hex40_def list_all_iff is_hex_char_def)
qed

lemma update_json [simp]:
  "read_json update_lib ''E'' = Some sample_envelope"
  "read_json update_lib ''M'' = Some sample_message"
  "read_json update_lib hex64 = Some sample_payload"
  "read_json update_lib ''C'' = Some sample_config_root"
  by (simp_all add: update_lib_def sample_lib_def)

lemma update_urls [simp]:
  "IsPublicHttpUrl update_lib ''https://a.test/r''" "IsPublicHttpUrl update_lib ''https://a.test/m''"
  "IsPublicHttpUrl update_lib ''https://a.test/p''"
  by (simp_all add: IsPublicHttpUrl_def update_lib_def sample_lib_def url_rest_def starts_with_def
      ends_with_def strip_trailing_dots_def)

lemma update_ops [simp]:
  "gurl update_lib s = s" "spec update_lib s = s" "base64_decode update_lib s = Some s"
  "ed25519_verify update_lib m g k = True" "time_of_ms update_lib w = 1000 * uint w"
  "to_lower_ascii update_lib s = s" "is_alnum update_lib c = (c \<noteq> CHR ''-'')"
  "scheme_is_https update_lib ''https://a.test/r''"
  "\<not> has_query update_lib ''https://a.test/r''" "\<not> has_ref update_lib ''https://a.test/r''"
  "same_origin update_lib ''https://a.test/r'' ''https://a.test/m''"
  by (simp_all add: update_lib_def sample_lib_def url_rest_def starts_with_def)

lemma update_config_urls:
  "scheme_is_https update_lib ''https://a.test/m''" "\<not> has_query update_lib ''https://a.test/m''"
  "\<not> has_ref update_lib ''https://a.test/m''"
  by (simp_all add: update_lib_def sample_lib_def starts_with_def)

lemmas update_sample_defs = sample_config_def sample_envelope_def
  sample_message_def sample_payload_def sample_rules_root_def empty_dict_def

definition sample_manifest :: "string rule_manifest" where
  "sample_manifest = \<lparr>rm_sequence = 9, rm_size = 64, rm_count = 1,
     rm_rules_url = ''https://a.test/r'', rm_sha256 = hex64, rm_version = hex40,
     rm_generated = 1000, rm_expires = 9000\<rparr>"

lemma sample_manifest_read:
  assumes "minimum \<le> 9"
  shows "VerifyRuleManifest update_lib ''E'' sample_config minimum 2000 = Some sample_manifest"
proof -
  have "OpenEnvelope update_lib ''E'' sample_config = Some ''M''"
    by (simp add: OpenEnvelope_def UpdateConfig_valid_def kMaxManifestBytes_def kSignatureLen_def
        update_sample_defs)
  moreover have "ReadManifest update_lib ''M'' sample_config minimum 2000 = Some sample_manifest"
    using assms by (simp add: ReadManifest_def sample_manifest_def Endpoint_def Hex_def is_hex_char_def
        kMaxRuleBytes_def is_finite_double_def span_defs update_sample_defs Let_def)
  ultimately show ?thesis by (simp add: VerifyRuleManifest_def)
qed

lemma hex_digits_back: "map (\<lambda>b. char_of (unat b)) (map (of_char :: char \<Rightarrow> u8) s) = s"
proof (induction s)
  case (Cons c s)
  then show ?case by (simp add: char_word_unat)
qed simp

definition sample_installed :: local_rules where
  "sample_installed = \<lparr>lr_status = ''ready'', lr_version = hex40, lr_generated = 1000,
     lr_expires = 9000, lr_hashes = sort_unique [map of_char ''https://a.test/p'']\<rparr>"

lemma sample_rules_read:
  "VerifyRulePayload update_lib hex64 sample_manifest 2000 = Some sample_installed"
proof -
  have "ParseLocalRules update_lib hex64 2000 = sample_installed"
    by (simp add: ParseLocalRules_def update_sample_defs kMaxBytes_def kMaxRules_def
        is_finite_double_def span_defs Let_def missing_rules_def)
       (simp add: update_lib_def sample_lib_def sample_installed_def)
  moreover have "hex_encode update_lib (sha256 update_lib hex64) = hex64"
    by (simp add: update_lib_def sample_lib_def hex_digits_back del: map_map)
  moreover have "find_list sample_payload ''urls'' = Some [Some ''https://a.test/p'']"
    by (simp add: update_sample_defs)
  ultimately show ?thesis
    by (simp add: VerifyRulePayload_def sample_manifest_def sample_installed_def LocalRules_IsUsable_def)
qed


text \<open>C31: An update configuration that parses as valid has a public HTTPS manifest URL without
  query or fragment, a minimum sequence that is not negative, and at most four keys, each of
  32 bytes.\<close>

theorem valid_config_is_well_formed:
  assumes "UpdateConfig_valid (ParseUpdateConfig L json)"
  shows "Endpoint L (uc_manifest_url (ParseUpdateConfig L json)) \<and>
    0 \<le> uc_minimum_sequence (ParseUpdateConfig L json) \<and>
    length (uc_keys (ParseUpdateConfig L json)) \<le> 4 \<and>
    (\<forall>k \<in> snd ` set (uc_keys (ParseUpdateConfig L json)). length k = kPublicKeyLen)"
  using assms by (rule ParseUpdateConfig_ready)

lemma sample_config_parsed: "ParseUpdateConfig update_lib ''C'' = sample_config"
  by (simp add: ParseUpdateConfig_def initial_config_def sample_config_root_def sample_config_def
      empty_dict_def kMaxManifestBytes_def Endpoint_def kPublicKeyLen_def Let_def update_config_urls)

lemma sample_config_ready [simp]: "UpdateConfig_valid sample_config"
  by (simp add: UpdateConfig_valid_def sample_config_def)

lemma valid_config_is_well_formed_witness:
  "uc_minimum_sequence (ParseUpdateConfig update_lib ''C'') = 7 \<and>
   Endpoint update_lib (uc_manifest_url (ParseUpdateConfig update_lib ''C''))"
  using valid_config_is_well_formed [of update_lib "''C''"]
  by (simp add: sample_config_parsed) (simp add: sample_config_def)

text \<open>Reading the cache file back gives the manifest and the payload that were written,
  whenever both are not empty and within the limits, and every file that is read at all
  splits into a manifest and a payload within the limits.\<close>

lemma rule_cache_round_trip:
  assumes "decimal_laws L" and "manifest \<noteq> []" and "length manifest \<le> kMaxManifestBytes"
    and "payload \<noteq> []" and "length payload \<le> kMaxRuleBytes"
  shows "DecodeRuleCache L (EncodeRuleCache L manifest payload) = Some (manifest, payload) \<and>
    (\<forall>cache m p. DecodeRuleCache L cache = Some (m, p) \<longrightarrow>
       0 < length m \<and> length m \<le> kMaxManifestBytes \<and> 0 < length p \<and> length p \<le> kMaxRuleBytes \<and>
       (\<exists>prefix. length prefix \<le> 6 \<and> cache = prefix @ CHR 0x0A # m @ p))"
  using cache_roundtrip [OF assms] cache_decoded_bounds by blast

lemma rule_cache_round_trip_witness:
  "DecodeRuleCache plain_lib (EncodeRuleCache plain_lib ''manifest'' ''payload'') =
     Some (''manifest'', ''payload'')"
  using rule_cache_round_trip [of plain_lib "''manifest''" "''payload''"]
    sample_decimal_laws [of "\<lambda>_. None" "\<lambda>_. None"]
  by (simp add: plain_lib_def kMaxManifestBytes_def kMaxRuleBytes_def)

section \<open>Subscriptions\<close>

lemma sample_list_parsed:
  fixes j :: "string \<Rightarrow> dict option" and h :: "sub_header \<Rightarrow> string option"
    and fetched :: int
  defines "r \<equiv> ParseSubscriptionRules (sample_lib j h) ''a.test'' ''domains'' ''host_suffix'' fetched"
  shows "sr_error r = []" and "sr_hashes r = [map of_char ''a.test'']" and "sr_digest r = ''a.test''"
    and "sr_capacity r = 1"
proof -
  let ?L = "sample_lib j h"
  let ?s0 = "\<lparr>ps_count = 0, ps_broad = 0, ps_rev_hashes = [], ps_capacity = 0\<rparr>"
  let ?s1 = "\<lparr>ps_count = 1, ps_broad = 0, ps_rev_hashes = [map of_char ''a.test''], ps_capacity = 1024\<rparr>"
  have canonical: "CanonicalDomain ?L ''a.test'' = (''a.test'', False)"
    by (simp add: CanonicalDomain_def forbidden_domain_chars_def sample_defs IsPublicHttpUrl_def
        strip_trailing_dots_def starts_with_def ends_with_def drop_last_dot_def Let_def
        labels_ok.simps bad_label_def)
  have "ParseLine ?L ''domains'' ''a.test'' ?s0 = Inr ?s1"
    using canonical by (simp add: ParseLine_def CanonicalRule_def kSubscriptionMaxRecords_def
        starts_with_def sample_ops)
  then have "ParseLines ?L ''domains'' ''a.test'' ?s0 = Inr ?s1"
    by (simp add: ParseLines.simps)
  then have "r = \<lparr>sr_error = [], sr_rule_type = ''host_suffix'', sr_digest = ''a.test'',
      sr_input_count = 1, sr_rejected_broad_count = 0, sr_fetched = fetched,
      sr_hashes = [map of_char ''a.test''], sr_capacity = 1\<rparr>"
    by (simp add: r_def ParseSubscriptionRules_def ValidSubscriptionFormat_def
        kSubscriptionMaxBytes_def empty_sub_rules_def utf8_bom_def starts_with_def Let_def
        sample_ops sort_unique_def char_word_unat char_of_def bit_Suc_0_iff)
  then show "sr_error r = []" "sr_hashes r = [map of_char ''a.test'']" "sr_digest r = ''a.test''"
      "sr_capacity r = 1"
    by simp_all
qed

lemmas plain_list_parsed = sample_list_parsed [of "\<lambda>_. None" "\<lambda>_. None", folded plain_lib_def]

text \<open>Whatever a subscription contains, the parser returns strictly increasing digests and
  never holds more than 500,000 of them in memory; when it reports no error, the index is not
  empty, its memory is exactly its length and the type and the time are those asked for.\<close>

lemma subscription_parse_is_bounded:
  "sorted_wrt (<) (sr_hashes (ParseSubscriptionRules L content format rule_type fetched)) \<and>
   length (sr_hashes (ParseSubscriptionRules L content format rule_type fetched)) \<le>
     sr_capacity (ParseSubscriptionRules L content format rule_type fetched) \<and>
   sr_capacity (ParseSubscriptionRules L content format rule_type fetched) \<le> 500000 \<and>
   (sr_error (ParseSubscriptionRules L content format rule_type fetched) = [] \<longrightarrow>
      sr_hashes (ParseSubscriptionRules L content format rule_type fetched) \<noteq> [] \<and>
      sr_capacity (ParseSubscriptionRules L content format rule_type fetched) =
        length (sr_hashes (ParseSubscriptionRules L content format rule_type fetched)) \<and>
      sr_rule_type (ParseSubscriptionRules L content format rule_type fetched) = rule_type \<and>
      sr_fetched (ParseSubscriptionRules L content format rule_type fetched) = fetched)"
  using ParseSubscriptionRules_wf [of L content format rule_type fetched]
  by (simp add: kSubscriptionMaxRecords_def)

lemma subscription_parse_is_bounded_witness:
  "sr_capacity (ParseSubscriptionRules plain_lib ''a.test'' ''domains'' ''host_suffix'' 0) = 1"
  using subscription_parse_is_bounded [of plain_lib "''a.test''" "''domains''" "''host_suffix''" 0]
    plain_list_parsed by simp

text \<open>A parsed list of type \<open>host_suffix\<close> matches exactly the public URLs whose host (a
  final dot dropped), or one of its parent domains, has a digest in the list; a list of type
  \<open>host_exact\<close> looks at the host alone. The loop over the labels is this search.\<close>

lemma subscription_suffix_matching:
  assumes "sr_error r = []" and "r = ParseSubscriptionRules L content ''domains'' rule_type fetched"
  shows "SubscriptionRules_Matches L r url t \<longleftrightarrow>
    fetched \<le> t \<and> t < fetched + days 7 \<and> IsPublicHttpUrl L url \<and>
    (if rule_type = ''host_suffix''
     then \<exists>p. is_parent_domain p (drop_last_dot (host L url)) \<and> sha256 L p \<in> set (sr_hashes r)
     else sha256 L (drop_last_dot (host L url)) \<in> set (sr_hashes r))"
proof -
  have wf: "sorted (sr_hashes r)" "sr_hashes r \<noteq> []" "sr_rule_type r = rule_type" "sr_fetched r = fetched"
    using ParseSubscriptionRules_wf [of L content "''domains''" rule_type fetched] assms
    by (auto simp: strict_sorted_iff)
  have "ValidSubscriptionFormat ''domains'' rule_type"
    using assms by (auto simp: ParseSubscriptionRules_def Let_def split: if_splits)
  then have "rule_type \<noteq> ''url_exact''" by (auto simp: ValidSubscriptionFormat_def)
  then show ?thesis
    using wf assms(1)
    by (auto simp: SubscriptionRules_Matches_def SubscriptionRules_usable_def Let_def
        match_host_suffix match_host_exact binary_search_iff)
qed

lemma subscription_suffix_matching_witness:
  "SubscriptionRules_Matches plain_lib
     (ParseSubscriptionRules plain_lib ''a.test'' ''domains'' ''host_suffix'' 0)
     ''https://x.a.test/'' 5"
proof -
  have "is_parent_domain ''a.test'' ''x.a.test''" by (simp add: is_parent_domain_def)
  then show ?thesis
    using subscription_suffix_matching [OF plain_list_parsed(1) [of 0] refl,
        of "''https://x.a.test/''" 5] plain_list_parsed
    by (auto simp: sample_defs IsPublicHttpUrl_def strip_trailing_dots_def starts_with_def
        ends_with_def drop_last_dot_def span_defs)
qed

text \<open>A subscription that parsed without error and was written to its cache file is read
  back, within its seven days, as the same index.\<close>

lemma subscription_cache_round_trip:
  assumes "header_laws L"
    and "sr_error (ParseSubscriptionRules L raw format rule_type fetched) = []"
    and "write_header L \<lparr>sh_format = 1, sh_url = spec L endpoint, sh_input_format = format,
        sh_rule_type = rule_type,
        sh_sha256 = sr_digest (ParseSubscriptionRules L raw format rule_type fetched),
        sh_fetched = ms_of_time L fetched\<rparr> = Some head"
    and "length head \<le> kMaxManifestBytes" and "raw \<noteq> []"
    and "time_of_ms L (ms_of_time L fetched) = fetched" and "is_finite_double (ms_of_time L fetched)"
    and "fetched \<le> t" and "t < fetched + days 7"
  shows "DecodeSubscriptionCache L (EncodeSubscriptionCache L endpoint format
           (ParseSubscriptionRules L raw format rule_type fetched) raw) endpoint format rule_type t =
         ParseSubscriptionRules L raw format rule_type fetched"
  using subscription_cache_roundtrip [OF assms(1) refl assms(2-9)] .

definition sample_header :: sub_header where
  "sample_header = \<lparr>sh_format = 1, sh_url = ''https://l.test/'', sh_input_format = ''domains'',
     sh_rule_type = ''host_suffix'', sh_sha256 = ''a.test'', sh_fetched = 0\<rparr>"

definition sample_header_dict :: dict where
  "sample_header_dict = empty_dict\<lparr>
     find_int := (\<lambda>k. if k = ''format'' then Some 1 else None),
     find_double := (\<lambda>k. if k = ''fetchedAt'' then Some 0 else None),
     find_string := (\<lambda>k. if k = ''url'' then Some ''https://l.test/'' else
                         if k = ''inputFormat'' then Some ''domains'' else
                         if k = ''ruleType'' then Some ''host_suffix'' else
                         if k = ''sha256'' then Some ''a.test'' else None)\<rparr>"

definition cache_lib :: "string lib" where
  "cache_lib = sample_lib (\<lambda>s. if s = ''H'' then Some sample_header_dict else None)
     (\<lambda>h. if h = sample_header then Some ''H'' else None)"

lemma cache_header_laws: "header_laws cache_lib"
  unfolding header_laws_def cache_lib_def
  using sample_decimal_laws by (auto simp: sample_lib_def sample_header_def sample_header_dict_def)

lemma subscription_cache_round_trip_witness:
  "DecodeSubscriptionCache cache_lib (EncodeSubscriptionCache cache_lib ''https://l.test/'' ''domains''
       (ParseSubscriptionRules cache_lib ''a.test'' ''domains'' ''host_suffix'' 0) ''a.test'')
       ''https://l.test/'' ''domains'' ''host_suffix'' 5 =
     ParseSubscriptionRules cache_lib ''a.test'' ''domains'' ''host_suffix'' 0"
  by (rule subscription_cache_round_trip [OF cache_header_laws, where head = "''H''"])
    (simp_all add: cache_lib_def sample_list_parsed,
     simp_all add: sample_lib_def sample_header_def kMaxManifestBytes_def is_finite_double_def span_defs)

section \<open>The index of a subscription, and the two cache files\<close>



text \<open>C40: Both cache files read back what was written. A rule update whose manifest and payload are
  not empty and within the limits is read back, and whatever file is read splits into such a
  manifest and payload; a subscription that parsed without error is read back, within its
  seven days, as the same index.\<close>

theorem caches_round_trip:
  assumes laws: "header_laws L"
    and r: "r = ParseSubscriptionRules L raw format rule_type fetched"
  shows "(manifest \<noteq> [] \<and> length manifest \<le> kMaxManifestBytes \<and> payload \<noteq> [] \<and> length payload \<le> kMaxRuleBytes \<longrightarrow>
      DecodeRuleCache L (EncodeRuleCache L manifest payload) = Some (manifest, payload)) \<and>
    (DecodeRuleCache L cache = Some (m, p) \<longrightarrow>
       0 < length m \<and> length m \<le> kMaxManifestBytes \<and> 0 < length p \<and> length p \<le> kMaxRuleBytes \<and>
       (\<exists>prefix. length prefix \<le> 6 \<and> cache = prefix @ CHR 0x0A # m @ p)) \<and>
    (sr_error r = [] \<and> raw \<noteq> [] \<and> fetched \<le> t \<and> t < fetched + days 7 \<and>
       write_header L \<lparr>sh_format = 1, sh_url = spec L endpoint, sh_input_format = format, sh_rule_type = rule_type,
         sh_sha256 = sr_digest r, sh_fetched = ms_of_time L fetched\<rparr> = Some head \<and> length head \<le> kMaxManifestBytes \<and>
       time_of_ms L (ms_of_time L fetched) = fetched \<and> is_finite_double (ms_of_time L fetched) \<longrightarrow>
       DecodeSubscriptionCache L (EncodeSubscriptionCache L endpoint format r raw) endpoint format rule_type t = r)"
proof -
  have "decimal_laws L" using laws by (simp add: header_laws_def)
  note rule = rule_cache_round_trip [OF this]
  have bounds: "DecodeRuleCache L cache = Some (m, p) \<Longrightarrow>
      0 < length m \<and> length m \<le> kMaxManifestBytes \<and> 0 < length p \<and> length p \<le> kMaxRuleBytes \<and>
      (\<exists>prefix. length prefix \<le> 6 \<and> cache = prefix @ CHR 0x0A # m @ p)"
    using cache_decoded_bounds by blast
  from rule [of manifest payload] bounds subscription_cache_round_trip [OF laws, of raw format rule_type fetched endpoint head t, folded r]
  show ?thesis by blast
qed

lemma caches_round_trip_witness:
  "DecodeRuleCache cache_lib (EncodeRuleCache cache_lib ''manifest'' ''payload'') = Some (''manifest'', ''payload'') \<and>
   DecodeSubscriptionCache cache_lib (EncodeSubscriptionCache cache_lib ''https://l.test/'' ''domains''
       (ParseSubscriptionRules cache_lib ''a.test'' ''domains'' ''host_suffix'' 0) ''a.test'')
       ''https://l.test/'' ''domains'' ''host_suffix'' 5 =
     ParseSubscriptionRules cache_lib ''a.test'' ''domains'' ''host_suffix'' 0"
  using caches_round_trip [OF cache_header_laws refl, of "''manifest''" "''payload''" "[]" "[]" "[]"
      "''a.test''" "''domains''" "''host_suffix''" 0 5 "''https://l.test/''" "''H''"]
  by (simp add: cache_lib_def sample_list_parsed)
    (simp add: sample_lib_def sample_header_def kMaxManifestBytes_def kMaxRuleBytes_def is_finite_double_def span_defs)

end
