(* ===== verification/Source_Properties.thy ===== *)
theory Source_Properties
  imports Rule_Properties
begin

text \<open>
  The properties of the subscriptions' life cycle, for every state that a run of the
  machine of \<open>Source_Machine\<close> reaches.
\<close>

definition at_time :: "int \<Rightarrow> env" where
  "at_time t = \<lparr>now = t, now_ticks = t, rand_int = (\<lambda>a b. a), token = ''token''\<rparr>"

definition source_pref :: dict where
  "source_pref = empty_dict\<lparr>
     find_bool := (\<lambda>k. if k = ''enabled'' then Some True else None),
     find_string := (\<lambda>k. if k = ''sourceId'' then Some ''s'' else
                         if k = ''name'' then Some ''n'' else
                         if k = ''url'' then Some ''https://l.test/'' else
                         if k = ''format'' then Some ''domains'' else
                         if k = ''ruleType'' then Some ''host_suffix'' else None)\<rparr>"

text \<open>A run on the sample platform: one source is restored, downloaded, parsed, installed.\<close>

definition source_config :: config where
  "source_config = \<lparr>cf_id = ''s'', cf_name = ''n'', cf_url = ''https://l.test/'',
     cf_format = ''domains'', cf_rule_type = ''host_suffix'', cf_recommendation = [],
     cf_enabled = True\<rparr>"

definition sample_start :: sources where
  "sample_start = RuleSources_Impl plain_lib (at_time 1000000) [Some source_pref]"

lemma source_config_read: "FromValue source_pref = source_config"
  by (simp add: FromValue_def source_pref_def source_config_def String_field_def empty_dict_def)

lemma source_config_valid: "Validate plain_lib source_config"
  by (simp add: Validate_def source_config_def ValidSubscriptionEndpoint_def IsPublicHttpUrl_def
      sample_defs starts_with_def ends_with_def strip_trailing_dots_def ValidSubscriptionFormat_def)

definition sample_rules :: sub_rules where
  "sample_rules = ParseSubscriptionRules plain_lib ''a.test'' ''domains'' ''host_suffix'' 62000000"

definition sample_state :: "entry \<Rightarrow> string \<Rightarrow> int option \<Rightarrow> src_task list \<Rightarrow> src_effect list \<Rightarrow> sources" where
  "sample_state e a timer ts l = \<lparr>so_entries = [(''s'', e)], so_clients = 1, so_revision = 1,
     so_ready = True, so_active = a, so_loading = False, so_timer = timer, so_tasks = ts,
     so_log = l, so_crashed = False\<rparr>"

lemma sample_start_eq:
  "sample_start = \<lparr>so_entries = [(''s'', new_entry (at_time 1000000) source_config)],
     so_clients = 0, so_revision = 1, so_ready = False, so_active = [], so_loading = False,
     so_timer = None, so_tasks = [TaskRestore [source_config]], so_log = [], so_crashed = False\<rparr>"
proof -
  have "cf_id source_config = ''s''" by (simp add: source_config_def)
  then show ?thesis
    by (simp add: sample_start_def RuleSources_Impl_def source_config_read source_config_valid
        kSubscriptionMaxSources_def Let_def)
qed

definition sample_events :: "src_event list" where
  "sample_events = [SeAcquire (at_time 2000000), SeDeliver (at_time 2000000) 0 (OutFiles (\<lambda>_. None)),
     SeTick (at_time 60000000), SeDeliver (at_time 61000000) 0 (OutPath True),
     SeDeliver (at_time 62000000) 0 (OutContents (Some ''a.test''))]"

definition sample_end :: sources where
  "sample_end = foldl (src_step plain_lib) sample_start sample_events"

definition sample_entry :: entry where
  "sample_entry = \<lparr>en_config = source_config, en_rules = None, en_error = [], en_revision = 1,
     en_generation = 1, en_failures = 0, en_last_check = 60000000, en_due = 120000000,
     en_not_before = 120000000\<rparr>"

lemmas run_simps = RuleSources_Acquire_def RuleSources_Schedule_def RuleSources_OnRestored_def
  RuleSources_Tick_def RuleSources_Refresh_def RuleSources_OnDownloaded_def RuleSources_Current_def
  RuleSources_OnParsed_def Restore_def src_emit_def src_post_def put_entry_def reset_loader_def
  next_due_def new_entry_def at_time_def span_defs Let_def remove_nth_def env_ok_def
  source_config_def sample_entry_def

lemma sample_parse:
  "ParseDownload plain_lib (Some ''a.test'') source_config 62000000 =
     \<lparr>pd_rules = Some sample_rules, pd_raw = ''a.test'', pd_error = []\<rparr>"
  by (simp add: ParseDownload_def source_config_def plain_list_parsed sample_rules_def)

lemma sample_rules_capacity: "sr_capacity sample_rules = 1"
  by (simp add: sample_rules_def plain_list_parsed)

lemma sample_run:
  "guarded_run (src_step plain_lib) src_ok sample_start sample_events"
  by (simp add: sample_events_def sample_start_eq run_simps)

lemma sample_end_fields:
  "so_tasks sample_end = [TaskInstalled ''s'' 1 source_config sample_rules ''a.test'']"
  "so_active sample_end = ''s''" "so_entries sample_end = [(''s'', sample_entry)]"
  by (simp_all add: sample_end_def sample_events_def sample_start_eq)
    (simp_all add: run_simps sample_parse [unfolded source_config_def] sample_rules_capacity
      total_capacity_def kSubscriptionTotalRecords_def)

text \<open>In every state that a run reaches, no look-up has failed, there are at most eight
  sources, each stored under its own id with a valid configuration, and the indexes that are
  held in memory together have at most one million records.\<close>

lemma sources_stay_within_limits:
  assumes "0 < now E" and "guarded_run (src_step L) src_ok (RuleSources_Impl L E pref) es"
    and "s = foldl (src_step L) (RuleSources_Impl L E pref) es"
  shows "\<not> so_crashed s \<and> length (so_entries s) \<le> 8 \<and>
    (\<Sum>p \<leftarrow> so_entries s. case en_rules (snd p) of None \<Rightarrow> 0 | Some r \<Rightarrow> sr_capacity r) \<le> 1000000 \<and>
    (\<forall>p \<in> set (so_entries s). cf_id (en_config (snd p)) = fst p \<and> Validate L (en_config (snd p))) \<and>
    0 \<le> so_clients s"
proof -
  have "src_inv L s"
    unfolding assms(3) by (rule src_guarded.inv_run [OF src_inv_init [OF assms(1)] assms(2)])
  then show ?thesis
    by (auto simp: src_inv_def src_core_def entries_ok_def entry_ok_def om_lookup_in om_sum_def
        cap_of_def [abs_def] kSubscriptionMaxSources_def kSubscriptionTotalRecords_def)
qed

text \<open>In every reachable state a download or its processing is in flight exactly when a
  source is active: one answer, of the generation that source has now, and the source is
  enabled. The update timer is armed exactly when a client is there, no update is in flight
  and some source is enabled, so updates neither stop nor overlap.
  And the answer for a URL names exactly the enabled sources whose index matches it, in the order of
  their ids; it is dangerous exactly when there is one, and its rule type is theirs when they agree
  and "multiple" when they do not.\<close>

lemma sources_update_one_at_a_time:
  assumes "0 < now E" and "guarded_run (src_step L) src_ok (RuleSources_Impl L E pref) es"
    and "s = foldl (src_step L) (RuleSources_Impl L E pref) es"
  shows "length (filter (live (so_entries s)) (so_tasks s)) = (if so_active s = [] then 0 else 1) \<and>
    (so_active s \<noteq> [] \<longrightarrow> so_ready s \<and> so_clients s \<noteq> 0 \<and>
       (\<exists>e. map_of (so_entries s) (so_active s) = Some e \<and> cf_enabled (en_config e))) \<and>
    (so_timer s \<noteq> None \<longleftrightarrow> so_ready s \<and> so_clients s \<noteq> 0 \<and> so_active s = [] \<and>
       (\<exists>p \<in> set (so_entries s). cf_enabled (en_config (snd p))))"
proof -
  have inv: "src_inv L s"
    unfolding assms(3) by (rule src_guarded.inv_run [OF src_inv_init [OF assms(1)] assms(2)])
  then have "so_active s \<noteq> [] \<Longrightarrow> so_ready s"
    by (auto simp: src_inv_def intro: active_ready)
  with inv show ?thesis
    by (auto simp: src_inv_def src_core_def tasks_ok_def active_ok_def timer_ok_def)
qed

text \<open>In every reachable state the answer of the subscriptions names exactly the enabled
  sources whose index matches, in the order of their ids; it is dangerous exactly when there
  is one, and its rule type is theirs when they agree and "multiple" when they do not.\<close>

lemma sources_match_reports_all:
  assumes "0 < now E" and "guarded_run (src_step L) src_ok (RuleSources_Impl L E pref) es"
    and "s = foldl (src_step L) (RuleSources_Impl L E pref) es"
  shows "r_matched_source_ids (RuleSources_Match L url t s) =
      map fst (filter (\<lambda>p. entry_matches L url t (snd p)) (so_entries s)) \<and>
    (dangerous (RuleSources_Match L url t s) \<longleftrightarrow>
      (\<exists>p \<in> set (so_entries s). entry_matches L url t (snd p))) \<and>
    r_rule_type (RuleSources_Match L url t s) =
      (case matched_types L url t s of [] \<Rightarrow> []
       | u # us \<Rightarrow> if list_all (\<lambda>v. v = u) us then u else ''multiple'')"
proof -
  let ?m = "RuleSources_Match L url t s"
  have inv: "src_core L s"
    using src_guarded.inv_run [OF src_inv_init [OF assms(1)] assms(2)]
    by (simp add: src_inv_def assms(3))
  have ids: "r_matched_source_ids ?m =
      map fst (filter (\<lambda>p. entry_matches L url t (snd p)) (so_entries s))"
    by (simp add: RuleSources_Match_def MatchLoop_ids mk_result_def)
  moreover have verdict: "r_verdict ?m =
      (if \<exists>p \<in> set (so_entries s). entry_matches L url t (snd p) then kOther else kUnknown)"
    by (simp add: RuleSources_Match_def MatchLoop_verdict mk_result_def)
  then have "dangerous ?m \<longleftrightarrow> (\<exists>p \<in> set (so_entries s). entry_matches L url t (snd p))"
    by (auto simp: dangerous_def ids verdict filter_empty_conv)
  moreover have "\<forall>u \<in> set (matched_types L url t s). u \<noteq> ''multiple'' \<and> u \<noteq> []"
    using inv Validate_type
    by (force simp: matched_types_def src_core_def entries_ok_def entry_ok_def om_lookup_in)
  from MatchLoop_type [OF _ this matched_types_def] have
    "r_rule_type ?m = (case matched_types L url t s of [] \<Rightarrow> []
       | u # us \<Rightarrow> if list_all (\<lambda>v. v = u) us then u else ''multiple'')"
    by (simp add: RuleSources_Match_def mk_result_def list_all_iff split: list.split)
  ultimately show ?thesis by blast
qed

text \<open>C26: In every state that a run reaches no look-up has failed, there are at most eight sources,
  each stored under its own id with a valid configuration, and the indexes together have at most
  one million records. A download or its processing is in flight exactly when a source is active:
  one answer, of the generation that source has now. The timer is armed exactly when a client is
  there, no update is in flight and some source is enabled: updates neither stop nor overlap.
  And the answer for a URL names exactly the enabled sources whose index matches it, in the order of
  their ids; it is dangerous exactly when there is one, and its rule type is theirs when they agree
  and "multiple" when they do not.\<close>

theorem sources_stay_in_bounds_and_in_turn:
  assumes "0 < now E" and "guarded_run (src_step L) src_ok (RuleSources_Impl L E pref) es"
    and "s = foldl (src_step L) (RuleSources_Impl L E pref) es"
  shows "\<not> so_crashed s \<and> length (so_entries s) \<le> 8 \<and>
    (\<Sum>p \<leftarrow> so_entries s. case en_rules (snd p) of None \<Rightarrow> 0 | Some r \<Rightarrow> sr_capacity r) \<le> 1000000 \<and>
    (\<forall>p \<in> set (so_entries s). cf_id (en_config (snd p)) = fst p \<and> Validate L (en_config (snd p))) \<and>
    length (filter (live (so_entries s)) (so_tasks s)) = (if so_active s = [] then 0 else 1) \<and>
    (so_active s \<noteq> [] \<longrightarrow> so_ready s \<and> so_clients s \<noteq> 0 \<and>
       (\<exists>e. map_of (so_entries s) (so_active s) = Some e \<and> cf_enabled (en_config e))) \<and>
    (so_timer s \<noteq> None \<longleftrightarrow> so_ready s \<and> so_clients s \<noteq> 0 \<and> so_active s = [] \<and>
       (\<exists>p \<in> set (so_entries s). cf_enabled (en_config (snd p)))) \<and>
    r_matched_source_ids (RuleSources_Match L url t s) =
      map fst (filter (\<lambda>p. entry_matches L url t (snd p)) (so_entries s)) \<and>
    (dangerous (RuleSources_Match L url t s) \<longleftrightarrow>
      (\<exists>p \<in> set (so_entries s). entry_matches L url t (snd p))) \<and>
    r_rule_type (RuleSources_Match L url t s) =
      (case matched_types L url t s of [] \<Rightarrow> []
       | u # us \<Rightarrow> if list_all (\<lambda>v. v = u) us then u else ''multiple'')"
  using sources_stay_within_limits [OF assms] sources_update_one_at_a_time [OF assms]
    sources_match_reports_all [OF assms, of url t] by blast

lemma sources_stay_in_bounds_and_in_turn_witness:
  "length (so_entries sample_end) = 1 \<and> length (so_entries sample_end) \<le> 8 \<and>
   length (filter (live (so_entries sample_end)) (so_tasks sample_end)) = 1 \<and> so_timer sample_end = None"
  using sources_stay_in_bounds_and_in_turn [OF _ sample_run [unfolded sample_start_def]
      sample_end_def [unfolded sample_start_def]]
  by (simp add: sample_end_fields at_time_def)


lemma sample_install:
  "so_entries (src_step plain_lib sample_end (SeDeliver (at_time 63000000) 0 (OutWritten False))) \<noteq>
     so_entries sample_end"
proof -
  have "so_clients sample_end = 1"
    by (simp add: sample_end_def sample_events_def sample_start_eq)
      (simp add: run_simps sample_parse [unfolded source_config_def] sample_rules_capacity
        total_capacity_def kSubscriptionTotalRecords_def)
  then have "RuleSources_Current ''s'' 1 sample_end = Some sample_entry"
    using sample_end_fields
    by (simp add: RuleSources_Current_def sample_entry_def source_config_def)
  then show ?thesis
    by (simp add: sample_end_fields Install_def RuleSources_OnInstalled_def RuleSources_Fail_def
        RuleSources_Schedule_def Let_def put_entry_def src_emit_def sample_entry_def)
qed


text \<open>A failed update is tried again no sooner than after five minutes and, with the random
  delay, no later than after six hours and a minute; the wait doubles with every failure in a
  row.\<close>

lemma failed_update_backs_off:
  assumes "map_of (so_entries s) i = Some e" and "0 \<le> en_failures e" and "en_failures e \<le> 7"
    and "0 \<le> rand_int E 0 60" and "rand_int E 0 60 \<le> 60"
  shows "\<exists>e'. map_of (so_entries (RuleSources_Fail E i error s)) i = Some e' \<and>
    en_not_before e' =
      now E + min (minutes (5 * 2 ^ nat (min (en_failures e) 6))) (hours 6) \<and>
    now E + minutes 5 \<le> en_not_before e' \<and> en_not_before e' \<le> en_due e' \<and>
    en_due e' \<le> now E + hours 6 + minutes 1 \<and>
    en_rules e' = en_rules e \<and> so_active (RuleSources_Fail E i error s) = []"
proof -
  let ?n = "min (en_failures e + 1) 7"
  have n: "1 \<le> ?n" "nat (?n - 1) = nat (min (en_failures e) 6)" using assms(2) by auto
  have b: "minutes 5 \<le> backoff ?n" "backoff ?n \<le> hours 6" using backoff_positive [OF n(1)] by auto
  have wait: "backoff ?n = min (minutes (5 * 2 ^ nat (min (en_failures e) 6))) (hours 6)"
    unfolding backoff_def n(2) ..
  let ?e = "e\<lparr>en_error := error, en_failures := ?n, en_not_before := now E + backoff ?n,
      en_due := now E + backoff ?n + seconds (rand_int E 0 60)\<rparr>"
  have "map_of (so_entries (RuleSources_Fail E i error s)) i = Some ?e"
    "so_active (RuleSources_Fail E i error s) = []"
    using assms(1) by (simp_all add: RuleSources_Fail_def Let_def src_emit_def
        RuleSources_Schedule_def put_entry_def)
  moreover have "seconds (rand_int E 0 60) \<le> minutes 1" "0 \<le> seconds (rand_int E 0 60)"
    using assms(4,5) by (simp_all add: span_defs)
  ultimately show ?thesis using b wait by (intro exI [of _ ?e]) simp
qed

lemma failed_update_example:
  "\<exists>e'. map_of (so_entries (RuleSources_Fail (at_time 63000000) ''s'' ''x'' sample_end)) ''s'' = Some e' \<and>
     en_not_before e' = 363000000"
  using failed_update_backs_off [of sample_end "''s''" sample_entry "at_time 63000000" "''x''"]
  by (auto simp: sample_end_fields at_time_def sample_entry_def span_defs)

lemma sources_match_example:
  "\<not> dangerous (RuleSources_Match plain_lib ''https://a.test/'' 63000000 sample_end)"
  using sources_match_reports_all [OF _ sample_run [unfolded sample_start_def]
      sample_end_def [unfolded sample_start_def], of "''https://a.test/''" 63000000]
  by (simp add: sample_end_fields at_time_def entry_matches_def sample_entry_def)

end
