(* ===== verification/Site_Properties.thy ===== *)
theory Site_Properties
  imports Sample_Platform
begin

text \<open>
  The properties of \<open>SiteVerdictState\<close>: answers of superseded checks are ignored, the two
  snapshots agree outside a navigation, a blocked target is what the committed error page
  shows, and an aborted navigation leaves the committed verdict as it was.
\<close>

text \<open>A committed-page check whose token was taken before a step that ends the life of
  tokens (a navigation starting, redirecting or finishing, a same-document commit, a policy
  change, a newer check) is ignored whatever follows, for fewer than \<open>2 ^ 64\<close> steps.\<close>

lemma superseded_check_is_ignored:
  assumes "sv_ticks s e" and "Suc (length es) < 2 ^ 64"
  shows "CompleteCommittedCheck (generation s) revision r t (foldl (sv_step nu) s (e # es)) =
           (False, foldl (sv_step nu) s (e # es))"
  using assms by (rule stale_check_ignored)

lemma superseded_check_example:
  "fst (CompleteCommittedCheck 0 1 (mk_result kPhishing ''local'' ''x'' ''u'') 5
     (foldl (sv_step []) (fresh_site_state []) [EvBegin ''n'' ''u'' 1 True, EvFinish True ''u''])) = False"
  using superseded_check_is_ignored [of "fresh_site_state ([]::string)" "EvBegin ''n'' ''u'' 1 True"
      "[EvFinish True ''u'']"]
  by (simp add: IsCurrent_def fresh_site_state_def empty_snapshot_def)

text \<open>In every state that a run of the callers' protocol reaches, the current and the
  committed snapshot are the same whenever no navigation is in flight.\<close>

lemma snapshots_agree_when_idle:
  assumes "guarded_run (sv_step nu) (sv_protocol en) (Initialize u r e (fresh_site_state nu)) es"
    and "s = foldl (sv_step nu) (Initialize u r e (fresh_site_state nu)) es"
    and "\<not> pending_navigation s"
  shows "current s = committed s"
  using sv_guarded.inv_run [OF sv_agree_init assms(1)] assms(2,3) by (simp add: sv_agree_def)

definition sample_site_run :: "string sv_event list" where
  "sample_site_run = [EvStart, EvComplete 1 1 (mk_result kNoMatch ''local'' ''ok'' ''u'') 7]"

lemma sample_site_run_ok:
  "guarded_run (sv_step []) (sv_protocol (\<lambda>_. True)) (Initialize ''u'' 1 True (fresh_site_state []))
     sample_site_run"
  by (simp add: sample_site_run_def sv_op_defs NeedsCommittedCheck_def fresh_site_state_def
      empty_snapshot_def)

text \<open>When a dangerous result is reported for a navigation and the navigation then commits
  (the error page commits under another URL), the committed snapshot still shows the blocked
  target and its danger.\<close>

lemma blocked_target_is_shown:
  assumes "dangerous r" and "r_reason r \<noteq> ''one_navigation_bypass''"
  shows "sn_url (committed (Finish True url (Report r in_progress True t s))) = r_url r \<and>
         IsDangerous (committed (Finish True url (Report r in_progress True t s)))"
  using assms by (rule blocked_target_survives_commit)

text \<open>A navigation that is redirected, checked and reported on any number of times, also
  with a dangerous result, and is then aborted leaves the current snapshot exactly as the
  committed one was when it started.\<close>

lemma aborted_navigation_restores_verdict:
  assumes "pending_navigation s" and "list_all sv_foreign es"
  shows "current (Finish False url (foldl (sv_step nu) s es)) = committed s"
  using assms by (rule abort_restores_committed)



end
