(* ===== verification/Rule_Updater.thy ===== *)
theory Rule_Updater
  imports Rule_Format
begin

text \<open>
  \<open>rule_updater.cc\<close>: the signed updates of the packaged rules. \<open>up_tasks\<close> holds the answers
  of the loader and of the worker that are still to come; \<open>up_timer\<close> is the tick at which the
  one-shot timer fires. A manifest request is logged with the tick it was made at.
\<close>

section \<open>Worker functions\<close>

record 'u initial_state =
  is_config :: "'u update_config"
  is_rules :: local_rules
  is_sequence :: int
  is_digest :: string
  is_source :: string

text \<open>What the worker finds on disk: a file is absent, unreadable within its limit, or read.\<close>

record disk =
  dk_config :: "string option option"
  dk_rules :: "string option option"
  dk_cache :: "string option"

definition LoadRulesFile :: "'u lib \<Rightarrow> disk \<Rightarrow> int \<Rightarrow> local_rules" where
  "LoadRulesFile L d t =
     (case dk_rules d of None \<Rightarrow> LoadLocalRules L False None t
      | Some contents \<Rightarrow> LoadLocalRules L True contents t)"

definition RestoreCache ::
  "'u lib \<Rightarrow> disk \<Rightarrow> int \<Rightarrow> string \<Rightarrow> int \<Rightarrow> 'u initial_state \<Rightarrow> 'u initial_state" where
  "RestoreCache L d minimum digest t st =
     (if \<not> UpdateConfig_valid (is_config st) then st
      else case dk_cache d of None \<Rightarrow> st
      | Some raw \<Rightarrow>
        (case DecodeRuleCache L raw of None \<Rightarrow> st
         | Some (manifest_json, payload) \<Rightarrow>
           (case VerifyRuleManifest L manifest_json (is_config st) minimum t of None \<Rightarrow> st
            | Some manifest \<Rightarrow>
              if \<not> AcceptRuleSequence manifest minimum digest then st
              else case VerifyRulePayload L payload manifest t of None \<Rightarrow> st
              | Some rules \<Rightarrow>
                let st = st\<lparr>is_sequence := rm_sequence manifest, is_digest := rm_sha256 manifest\<rparr>
                in if \<not> LocalRules_IsUsable (is_rules st) t \<or>
                      lr_generated rules \<ge> lr_generated (is_rules st)
                   then st\<lparr>is_rules := rules, is_source := ''download''\<rparr> else st)))"

definition InitialStateOf :: "'u lib \<Rightarrow> disk \<Rightarrow> int \<Rightarrow> string \<Rightarrow> bool \<Rightarrow> int \<Rightarrow> 'u initial_state" where
  "InitialStateOf L d minimum digest load_rules t =
     (let config_json = (case dk_config d of None \<Rightarrow> [] | Some None \<Rightarrow> ''invalid'' | Some (Some c) \<Rightarrow> c);
          st = \<lparr>is_config = ParseUpdateConfig L config_json, is_rules = missing_rules,
                is_sequence = 0, is_digest = [], is_source = ''package''\<rparr>
      in if \<not> load_rules then st
         else RestoreCache L d minimum digest t (st\<lparr>is_rules := LoadRulesFile L d t\<rparr>))"

text \<open>\<open>VerifyAndInstall\<close>: \<open>file\<close> is the payload as read, \<open>written\<close> the outcome of the writes.\<close>

definition VerifyAndInstall ::
  "'u lib \<Rightarrow> string option \<Rightarrow> 'u rule_manifest \<Rightarrow> bool \<Rightarrow> int \<Rightarrow> string + local_rules" where
  "VerifyAndInstall L contents manifest written t =
     (case contents of None \<Rightarrow> Inl ''read_failed''
      | Some payload \<Rightarrow>
        (case VerifyRulePayload L payload manifest t of None \<Rightarrow> Inl ''invalid_payload''
         | Some rules \<Rightarrow> if \<not> written then Inl ''write_failed'' else Inr rules))"

section \<open>State\<close>

datatype 'u up_task =
    UtInitialize bool int string
  | UtManifest
  | UtPayload
  | UtInstall string "'u rule_manifest" int

datatype 'u up_effect =
    UpNotify
  | UpPersist int string
  | UpRequest 'u int
  | UpDownload 'u int

record 'u updater =
  up_sequence :: int
  up_digest :: string
  up_clients :: int
  up_failures :: int
  up_ready :: bool
  up_rules_loaded :: bool
  up_initializing :: bool
  up_updating :: bool
  up_config :: "'u update_config"
  up_manifest :: "'u rule_manifest"
  up_manifest_json :: string
  up_rules :: local_rules
  up_source :: string
  up_reason :: string
  up_last_check :: int
  up_last_success :: int
  up_next_check :: int
  up_not_before :: int
  up_automatic_due :: int
  up_timer :: "int option"
  up_loading :: bool
  up_tasks :: "'u up_task list"
  up_log :: "'u up_effect list"

definition up_emit :: "'u up_effect \<Rightarrow> 'u updater \<Rightarrow> 'u updater" where
  "up_emit e s = s\<lparr>up_log := up_log s @ [e]\<rparr>"

definition up_post :: "'u up_task \<Rightarrow> 'u updater \<Rightarrow> 'u updater" where
  "up_post k s = s\<lparr>up_tasks := up_tasks s @ [k]\<rparr>"

text \<open>\<open>loader_.reset()\<close> destroys the loader and with it the answer that is still to come.\<close>

fun is_loader_task :: "'u up_task \<Rightarrow> bool" where
  "is_loader_task UtManifest = True"
| "is_loader_task UtPayload = True"
| "is_loader_task _ = False"

definition up_reset_loader :: "'u updater \<Rightarrow> 'u updater" where
  "up_reset_loader s = s\<lparr>up_loading := False,
     up_tasks := filter (\<lambda>k. \<not> is_loader_task k) (up_tasks s)\<rparr>"

section \<open>Operations\<close>

definition InitializeState :: "bool \<Rightarrow> 'u updater \<Rightarrow> 'u updater" where
  "InitializeState load_rules s =
     up_post (UtInitialize load_rules (up_sequence s) (up_digest s)) (s\<lparr>up_initializing := load_rules\<rparr>)"

text \<open>The constructor: the watermark comes from the preferences.\<close>

definition RuleUpdater_Impl ::
  "'u lib \<Rightarrow> int option \<Rightarrow> string option \<Rightarrow> bool \<Rightarrow> 'u updater" where
  "RuleUpdater_Impl L pref_sequence pref_digest have_assets =
     (let s = \<lparr>up_sequence = max 0 (case pref_sequence of Some n \<Rightarrow> n | None \<Rightarrow> 0),
               up_digest = (case pref_digest of Some d \<Rightarrow> d | None \<Rightarrow> []),
               up_clients = 0, up_failures = 0, up_ready = False, up_rules_loaded = False,
               up_initializing = False, up_updating = False, up_config = initial_config L,
               up_manifest = \<lparr>rm_sequence = 0, rm_size = 0, rm_count = 0,
                 rm_rules_url = empty_url L, rm_sha256 = [], rm_version = [],
                 rm_generated = 0, rm_expires = 0\<rparr>,
               up_manifest_json = [], up_rules = missing_rules, up_source = ''none'',
               up_reason = [], up_last_check = 0, up_last_success = 0, up_next_check = 0,
               up_not_before = 0, up_automatic_due = 0, up_timer = None, up_loading = False,
               up_tasks = [], up_log = []\<rparr>
      in if \<not> have_assets
         then s\<lparr>up_ready := True, up_rules_loaded := True, up_reason := ''assets_unavailable''\<rparr>
         else InitializeState False s)"

definition PersistWatermark :: "'u updater \<Rightarrow> 'u updater" where
  "PersistWatermark s = up_emit (UpPersist (up_sequence s) (up_digest s)) s"

definition RuleUpdater_Schedule :: "env \<Rightarrow> int \<Rightarrow> 'u updater \<Rightarrow> 'u updater" where
  "RuleUpdater_Schedule E delay s =
     (if \<not> up_ready s \<or> \<not> up_rules_loaded s \<or> \<not> UpdateConfig_valid (up_config s) \<or>
         up_clients s = 0 \<or> up_updating s
      then s
      else let delay = max (max delay (up_not_before s - now_ticks E)) (seconds 1)
           in s\<lparr>up_next_check := now E + delay, up_automatic_due := now_ticks E + delay,
                up_timer := Some (now_ticks E + delay)\<rparr>)"

definition OnInitialized :: "env \<Rightarrow> bool \<Rightarrow> 'u initial_state \<Rightarrow> 'u updater \<Rightarrow> 'u updater" where
  "OnInitialized E loaded_rules st s =
     (let s = s\<lparr>up_ready := True, up_config := is_config st\<rparr>;
          s = (if \<not> loaded_rules then s
               else let s = s\<lparr>up_rules_loaded := True, up_initializing := False,
                              up_rules := is_rules st,
                              up_source := (if lr_status (is_rules st) = ''missing'' then ''none''
                                            else is_source st)\<rparr>
                    in if is_sequence st \<ge> up_sequence s \<and> is_digest st \<noteq> []
                       then PersistWatermark (s\<lparr>up_sequence := is_sequence st,
                                                up_digest := is_digest st\<rparr>)
                       else s);
          s = up_emit UpNotify s
      in if up_clients s \<noteq> 0 \<and> \<not> up_rules_loaded s \<and> \<not> up_initializing s
         then InitializeState True s
         else RuleUpdater_Schedule E (seconds (rand_int E 10 30)) s)"

definition RuleUpdater_Acquire :: "env \<Rightarrow> 'u updater \<Rightarrow> 'u updater" where
  "RuleUpdater_Acquire E s =
     (let s = s\<lparr>up_clients := up_clients s + 1\<rparr>;
          s = (if \<not> up_rules_loaded s \<and> \<not> up_initializing s
               then let s = up_emit UpNotify (s\<lparr>up_rules := missing_rules\<lparr>lr_status := ''loading''\<rparr>\<rparr>)
                    in if up_ready s then InitializeState True s else s
               else s)
      in if up_clients s = 1
         then RuleUpdater_Schedule E
                (max (seconds (rand_int E 10 30)) (up_automatic_due s - now_ticks E)) s
         else s)"

definition RuleUpdater_Release :: "'u updater \<Rightarrow> 'u updater" where
  "RuleUpdater_Release s =
     (if up_clients s \<le> 0 then s
      else let s = s\<lparr>up_clients := up_clients s - 1\<rparr>
      in if up_clients s \<noteq> 0 then s
      else let s = s\<lparr>up_timer := None, up_next_check := 0\<rparr>;
               s = (if up_loading s
                    then (up_reset_loader s)\<lparr>up_updating := False, up_reason := ''cancelled''\<rparr>
                    else s)
           in up_emit UpNotify s)"

definition RequestUpdate :: "env \<Rightarrow> 'u updater \<Rightarrow> string \<times> 'u updater" where
  "RequestUpdate E s =
     (if \<not> up_ready s \<or> \<not> up_rules_loaded s then (''initializing'', s)
      else if up_clients s = 0 then (''disabled'', s)
      else if \<not> UpdateConfig_valid (up_config s) then (uc_status (up_config s), s)
      else if up_updating s then (''already_updating'', s)
      else if now_ticks E < up_not_before s then (''rate_limited'', s)
      else ([], up_emit UpNotify (up_emit (UpRequest (uc_manifest_url (up_config s)) (now_ticks E))
             (up_post UtManifest ((up_reset_loader s)\<lparr>up_timer := None, up_next_check := 0,
                up_updating := True, up_reason := [], up_last_check := now E,
                up_not_before := now_ticks E + minutes 1, up_loading := True\<rparr>)))))"

definition ScheduledUpdate :: "env \<Rightarrow> 'u updater \<Rightarrow> 'u updater" where
  "ScheduledUpdate E s = snd (RequestUpdate E (s\<lparr>up_timer := None\<rparr>))"

definition RuleUpdater_Finish :: "env \<Rightarrow> 'u updater \<Rightarrow> 'u updater" where
  "RuleUpdater_Finish E s =
     up_emit UpNotify (RuleUpdater_Schedule E (hours 6 + minutes (rand_int E 0 30))
       (s\<lparr>up_updating := False, up_failures := 0, up_reason := [], up_last_success := now E\<rparr>))"

definition up_backoff :: "env \<Rightarrow> int \<Rightarrow> int" where
  "up_backoff E failures =
     min (minutes (5 * 2 ^ nat (failures - 1))) (hours 6) + seconds (rand_int E 0 60)"

definition RuleUpdater_Fail :: "env \<Rightarrow> string \<Rightarrow> 'u updater \<Rightarrow> 'u updater" where
  "RuleUpdater_Fail E reason s =
     (let failures = min (up_failures s + 1) 7; delay = up_backoff E failures
      in up_emit UpNotify (RuleUpdater_Schedule E delay
           (s\<lparr>up_updating := False, up_reason := reason, up_failures := failures,
              up_not_before := now_ticks E + delay\<rparr>)))"

definition OnManifest :: "'u lib \<Rightarrow> env \<Rightarrow> string option \<Rightarrow> 'u updater \<Rightarrow> 'u updater" where
  "OnManifest L E body s =
     (let s = up_reset_loader s
      in case body of None \<Rightarrow> RuleUpdater_Fail E ''manifest_download_failed'' s
      | Some json \<Rightarrow>
        (case VerifyRuleManifest L json (up_config s) (up_sequence s) (now E) of
           None \<Rightarrow> RuleUpdater_Fail E ''invalid_manifest'' s
         | Some m \<Rightarrow>
           if rm_generated m < lr_generated (up_rules s) then RuleUpdater_Fail E ''stale_source'' s
           else if \<not> AcceptRuleSequence m (up_sequence s) (up_digest s)
           then RuleUpdater_Fail E ''rollback'' s
           else if rm_sequence m = up_sequence s \<and> up_source s = ''download'' \<and>
                   rm_version m = lr_version (up_rules s) \<and> LocalRules_IsUsable (up_rules s) (now E)
           then RuleUpdater_Finish E s
           else up_emit (UpDownload (rm_rules_url m) (rm_size m))
                  (up_post UtPayload (s\<lparr>up_manifest_json := json, up_manifest := m,
                                         up_loading := True\<rparr>))))"

definition OnPayload :: "env \<Rightarrow> bool \<Rightarrow> 'u updater \<Rightarrow> 'u updater" where
  "OnPayload E has_path s =
     (let s = up_reset_loader s
      in if \<not> has_path then RuleUpdater_Fail E ''rules_download_failed'' s
         else (up_post (UtInstall (up_manifest_json s) (up_manifest s) (rm_sequence (up_manifest s))) s)
                \<lparr>up_manifest_json := []\<rparr>)"

definition RuleUpdater_OnInstalled :: "env \<Rightarrow> int \<Rightarrow> string + local_rules \<Rightarrow> 'u updater \<Rightarrow> 'u updater" where
  "RuleUpdater_OnInstalled E sequence installed s =
     (case installed of Inl err \<Rightarrow> RuleUpdater_Fail E err s
      | Inr rules \<Rightarrow>
        RuleUpdater_Finish E ((PersistWatermark (s\<lparr>up_sequence := sequence,
          up_digest := rm_sha256 (up_manifest s)\<rparr>))\<lparr>up_rules := rules, up_source := ''download''\<rparr>))"

section \<open>What the shell is told\<close>

record updater_report =
  ur_supported :: bool
  ur_status :: string
  ur_reason :: string
  ur_last_check :: "int option"
  ur_last_success :: "int option"
  ur_next_check :: "int option"
  ur_sequence :: int
  ur_source :: string

definition time_or_none :: "int \<Rightarrow> int option" where
  "time_or_none t = (if t = 0 then None else Some t)"

definition RuleUpdater_State :: "'u updater \<Rightarrow> updater_report" where
  "RuleUpdater_State s = \<lparr>ur_supported = UpdateConfig_valid (up_config s),
     ur_status = (if \<not> up_ready s then ''initializing''
                  else if \<not> UpdateConfig_valid (up_config s) then uc_status (up_config s)
                  else if up_clients s = 0 then ''disabled''
                  else if up_updating s then ''updating''
                  else if up_failures s \<noteq> 0 then ''backoff'' else ''idle''),
     ur_reason = up_reason s, ur_last_check = time_or_none (up_last_check s),
     ur_last_success = time_or_none (up_last_success s),
     ur_next_check = time_or_none (up_next_check s),
     ur_sequence = up_sequence s, ur_source = up_source s\<rparr>"

end
