(* ===== verification/Updater_Machine.thy ===== *)
theory Updater_Machine
  imports Rule_Updater
begin

text \<open>
  The rule updater as a machine, with the answers of the loader and of the worker delivered
  in any order. The invariant: the watermark never goes back, what is installed was signed
  and accepted against the watermark in force, two manifest requests are a minute apart, and
  the timer is armed exactly when an update is wanted and none is in flight.
\<close>

section \<open>The machine\<close>

datatype up_outcome =
    UoDisk disk
  | UoBody "string option"
  | UoPath bool
  | UoPayload "string option" bool

datatype up_event =
    UeAcquire env
  | UeRelease
  | UeTimer env
  | UeRequest env
  | UeDeliver env nat up_outcome

fun up_deliver :: "'u lib \<Rightarrow> env \<Rightarrow> 'u up_task \<Rightarrow> up_outcome \<Rightarrow> 'u updater \<Rightarrow> 'u updater" where
  "up_deliver L E (UtInitialize load minimum digest) (UoDisk d) s =
     OnInitialized E load (InitialStateOf L d minimum digest load (now E)) s"
| "up_deliver L E UtManifest (UoBody body) s = OnManifest L E body s"
| "up_deliver L E UtPayload (UoPath b) s = OnPayload E b s"
| "up_deliver L E (UtInstall json m sequence) (UoPayload contents written) s =
     RuleUpdater_OnInstalled E sequence (VerifyAndInstall L contents m written (now E)) s"
| "up_deliver L E _ _ s = s"

definition drop_nth :: "nat \<Rightarrow> 'a list \<Rightarrow> 'a list" where
  "drop_nth n xs = take n xs @ drop (Suc n) xs"

fun up_step :: "'u lib \<Rightarrow> 'u updater \<Rightarrow> up_event \<Rightarrow> 'u updater" where
  "up_step L s (UeAcquire E) = RuleUpdater_Acquire E s"
| "up_step L s UeRelease = RuleUpdater_Release s"
| "up_step L s (UeTimer E) = ScheduledUpdate E s"
| "up_step L s (UeRequest E) = snd (RequestUpdate E s)"
| "up_step L s (UeDeliver E n out) =
     up_deliver L E (up_tasks s ! n) out (s\<lparr>up_tasks := drop_nth n (up_tasks s)\<rparr>)"

fun up_fits :: "'u up_task \<Rightarrow> up_outcome \<Rightarrow> bool" where
  "up_fits (UtInitialize load minimum digest) (UoDisk d) = True"
| "up_fits UtManifest (UoBody body) = True"
| "up_fits UtPayload (UoPath b) = True"
| "up_fits (UtInstall json m sequence) (UoPayload contents written) = True"
| "up_fits _ _ = False"

text \<open>The ticks of the manifest requests, and the watermarks that were stored, in order.\<close>

definition request_ticks :: "'u up_effect list \<Rightarrow> int list" where
  "request_ticks l = concat (map (\<lambda>e. case e of UpRequest u t \<Rightarrow> [t] | _ \<Rightarrow> []) l)"

definition watermarks :: "'u up_effect list \<Rightarrow> (int \<times> string) list" where
  "watermarks l = concat (map (\<lambda>e. case e of UpPersist n d \<Rightarrow> [(n, d)] | _ \<Rightarrow> []) l)"

lemma log_simps [simp]:
  "request_ticks [] = []" "request_ticks (l @ m) = request_ticks l @ request_ticks m"
  "request_ticks (UpRequest u t # l) = t # request_ticks l"
  "request_ticks (UpNotify # l) = request_ticks l"
  "request_ticks (UpPersist n d # l) = request_ticks l"
  "request_ticks (UpDownload u n # l) = request_ticks l"
  "watermarks [] = []" "watermarks (l @ m) = watermarks l @ watermarks m"
  "watermarks (UpRequest u t # l) = watermarks l"
  "watermarks (UpNotify # l) = watermarks l"
  "watermarks (UpPersist n d # l) = (n, d) # watermarks l"
  "watermarks (UpDownload u n # l) = watermarks l"
  by (simp_all add: request_ticks_def watermarks_def)

text \<open>
  The environment: ticks do not go back behind a request, random numbers are in range, the
  timer fires when armed and not early, and a worker answers the question it was asked.
\<close>

definition up_env_ok :: "'u updater \<Rightarrow> env \<Rightarrow> bool" where
  "up_env_ok s E \<longleftrightarrow> (\<forall>t \<in> set (request_ticks (up_log s)). t \<le> now_ticks E) \<and>
     0 \<le> rand_int E 10 30 \<and> 0 \<le> rand_int E 0 30 \<and> 0 \<le> rand_int E 0 60 \<and> rand_int E 0 60 \<le> 60"

fun up_ok :: "'u updater \<Rightarrow> up_event \<Rightarrow> bool" where
  "up_ok s (UeAcquire E) = up_env_ok s E"
| "up_ok s UeRelease = True"
| "up_ok s (UeTimer E) = (up_env_ok s E \<and>
     (case up_timer s of None \<Rightarrow> False | Some due \<Rightarrow> due \<le> now_ticks E))"
| "up_ok s (UeRequest E) = up_env_ok s E"
| "up_ok s (UeDeliver E n out) =
     (up_env_ok s E \<and> n < length (up_tasks s) \<and> up_fits (up_tasks s ! n) out)"

section \<open>The invariant\<close>

text \<open>The order of watermarks: a later one has a greater sequence, or is the same.\<close>

definition wm_le :: "int \<times> string \<Rightarrow> int \<times> string \<Rightarrow> bool" where
  "wm_le a b \<longleftrightarrow> fst a < fst b \<or> a = b"

lemma wm_le_refl [simp]: "wm_le a a"
  by (simp add: wm_le_def)

lemma wm_le_trans: "wm_le a b \<Longrightarrow> wm_le b c \<Longrightarrow> wm_le a c"
  by (auto simp: wm_le_def)

lemma Accept_wm: "AcceptRuleSequence m s d \<Longrightarrow> wm_le (s, d) (rm_sequence m, rm_sha256 m)"
  by (auto simp: AcceptRuleSequence_def wm_le_def)

definition signed_manifest :: "'u lib \<Rightarrow> 'u update_config \<Rightarrow> 'u rule_manifest \<Rightarrow> bool" where
  "signed_manifest L c m \<longleftrightarrow> (\<exists>json minimum t. VerifyRuleManifest L json c minimum t = Some m)"

definition signed_rules :: "'u lib \<Rightarrow> 'u update_config \<Rightarrow> local_rules \<Rightarrow> bool" where
  "signed_rules L c r \<longleftrightarrow>
     (\<exists>m payload t. signed_manifest L c m \<and> VerifyRulePayload L payload m t = Some r)"

definition good_manifest :: "'u lib \<Rightarrow> 'u updater \<Rightarrow> 'u rule_manifest \<Rightarrow> bool" where
  "good_manifest L s m \<longleftrightarrow> signed_manifest L (up_config s) m \<and>
     AcceptRuleSequence m (up_sequence s) (up_digest s) \<and> lr_generated (up_rules s) \<le> rm_generated m"

fun is_init :: "'u up_task \<Rightarrow> bool" where
  "is_init (UtInitialize load minimum digest) = True"
| "is_init _ = False"

fun up_task_ok :: "'u lib \<Rightarrow> 'u updater \<Rightarrow> 'u up_task \<Rightarrow> bool" where
  "up_task_ok L s (UtInitialize load minimum digest) =
     (load = up_initializing s \<and> minimum = up_sequence s \<and> digest = up_digest s)"
| "up_task_ok L s UtManifest = True"
| "up_task_ok L s UtPayload = good_manifest L s (up_manifest s)"
| "up_task_ok L s (UtInstall json m sequence) =
     (m = up_manifest s \<and> sequence = rm_sequence m \<and> good_manifest L s m)"

definition up_tasks_ok :: "'u lib \<Rightarrow> 'u updater \<Rightarrow> bool" where
  "up_tasks_ok L s \<longleftrightarrow> list_all (up_task_ok L s) (up_tasks s) \<and>
     length (filter is_init (up_tasks s)) = (if \<not> up_ready s \<or> up_initializing s then 1 else 0) \<and>
     length (filter (\<lambda>k. \<not> is_init k) (up_tasks s)) = (if up_updating s then 1 else 0) \<and>
     (up_loading s \<longleftrightarrow> list_ex is_loader_task (up_tasks s))"

definition up_phase_ok :: "'u updater \<Rightarrow> bool" where
  "up_phase_ok s \<longleftrightarrow> 0 \<le> up_clients s \<and> 0 \<le> up_failures s \<and> up_failures s \<le> 7 \<and>
     (up_rules_loaded s \<longrightarrow> up_ready s \<and> \<not> up_initializing s) \<and>
     (up_initializing s \<longrightarrow> up_ready s) \<and>
     (up_updating s \<longrightarrow> up_rules_loaded s \<and> UpdateConfig_valid (up_config s)) \<and>
     (up_clients s \<noteq> 0 \<and> up_ready s \<and> \<not> up_rules_loaded s \<longrightarrow> up_initializing s)"

definition up_log_ok :: "'u updater \<Rightarrow> bool" where
  "up_log_ok s \<longleftrightarrow>
     sorted_wrt (\<lambda>a b. a + minutes 1 \<le> b) (request_ticks (up_log s)) \<and>
     (\<forall>t \<in> set (request_ticks (up_log s)). t + minutes 1 \<le> up_not_before s) \<and>
     sorted_wrt wm_le (watermarks (up_log s)) \<and>
     (\<forall>w \<in> set (watermarks (up_log s)). wm_le w (up_sequence s, up_digest s))"

definition up_core :: "'u lib \<Rightarrow> 'u updater \<Rightarrow> bool" where
  "up_core L s \<longleftrightarrow> up_tasks_ok L s \<and> up_phase_ok s \<and> up_log_ok s \<and>
     (up_source s = ''download'' \<longrightarrow> signed_rules L (up_config s) (up_rules s)) \<and>
     (up_source s \<noteq> ''none'' \<longrightarrow> up_rules_loaded s)"

definition up_wants :: "'u updater \<Rightarrow> bool" where
  "up_wants s \<longleftrightarrow> up_ready s \<and> up_rules_loaded s \<and> UpdateConfig_valid (up_config s) \<and>
     up_clients s \<noteq> 0 \<and> \<not> up_updating s"

definition up_timer_ok :: "'u updater \<Rightarrow> bool" where
  "up_timer_ok s \<longleftrightarrow> (up_timer s \<noteq> None \<longleftrightarrow> up_wants s) \<and>
     (\<forall>due. up_timer s = Some due \<longrightarrow> up_not_before s \<le> due)"

definition up_inv :: "'u lib \<Rightarrow> 'u updater \<Rightarrow> bool" where
  "up_inv L s \<longleftrightarrow> up_core L s \<and> up_timer_ok s"

section \<open>Frames\<close>

lemma up_task_ok_cong:
  assumes "up_initializing s' = up_initializing s" "up_sequence s' = up_sequence s"
    "up_digest s' = up_digest s" "up_manifest s' = up_manifest s" "up_config s' = up_config s"
    "lr_generated (up_rules s') = lr_generated (up_rules s)"
  shows "up_task_ok L s' k = up_task_ok L s k"
  using assms by (cases k) (auto simp: good_manifest_def)

lemma up_frame [simp]:
  "up_task_ok L (s\<lparr>up_tasks := ts\<rparr>) = up_task_ok L s"
  "up_task_ok L (s\<lparr>up_loading := b\<rparr>) = up_task_ok L s"
  "up_task_ok L (s\<lparr>up_updating := b\<rparr>) = up_task_ok L s"
  "up_task_ok L (s\<lparr>up_timer := t\<rparr>) = up_task_ok L s"
  "up_task_ok L (s\<lparr>up_log := l\<rparr>) = up_task_ok L s"
  "up_task_ok L (s\<lparr>up_clients := n\<rparr>) = up_task_ok L s"
  "up_task_ok L (s\<lparr>up_reason := r\<rparr>) = up_task_ok L s"
  "up_task_ok L (s\<lparr>up_failures := n\<rparr>) = up_task_ok L s"
  "up_task_ok L (s\<lparr>up_ready := b\<rparr>) = up_task_ok L s"
  "up_task_ok L (s\<lparr>up_rules_loaded := b\<rparr>) = up_task_ok L s"
  "up_task_ok L (s\<lparr>up_not_before := n\<rparr>) = up_task_ok L s"
  "up_task_ok L (s\<lparr>up_automatic_due := n\<rparr>) = up_task_ok L s"
  "up_task_ok L (s\<lparr>up_next_check := n\<rparr>) = up_task_ok L s"
  "up_task_ok L (s\<lparr>up_last_check := n\<rparr>) = up_task_ok L s"
  "up_task_ok L (s\<lparr>up_last_success := n\<rparr>) = up_task_ok L s"
  "up_task_ok L (s\<lparr>up_manifest_json := j\<rparr>) = up_task_ok L s"
  "up_task_ok L (s\<lparr>up_source := src\<rparr>) = up_task_ok L s"
  by (rule ext, rule up_task_ok_cong; simp)+

lemmas up_inv_defs = up_inv_def up_core_def up_tasks_ok_def up_phase_ok_def up_log_ok_def
  up_timer_ok_def up_wants_def

lemma up_emit_notify [simp]: "up_inv L (up_emit UpNotify s) = up_inv L s"
  by (simp add: up_emit_def up_inv_defs)

lemma up_core_notify [simp]: "up_core L (up_emit UpNotify s) = up_core L s"
  by (simp add: up_emit_def up_inv_defs)

text \<open>Arming the timer.\<close>

lemma up_Schedule_inv:
  assumes "up_core L s" and "up_timer_ok s \<or> up_timer s = None"
  shows "up_inv L (RuleUpdater_Schedule E delay s)"
proof (cases "up_wants s")
  case True
  then show ?thesis
    using assms(1) by (auto simp: RuleUpdater_Schedule_def up_inv_defs Let_def)
next
  case False
  then have "RuleUpdater_Schedule E delay s = s"
    by (auto simp: RuleUpdater_Schedule_def up_wants_def)
  moreover have "up_timer_ok s" using assms(2) False by (auto simp: up_timer_ok_def)
  ultimately show ?thesis using assms(1) by (simp add: up_inv_def)
qed

section \<open>Operations keep the invariant\<close>

lemma filter_one: "length (filter P xs) = 1 \<Longrightarrow> filter (\<lambda>x. \<not> P x) xs = [] \<Longrightarrow> \<exists>x. xs = [x] \<and> P x"
proof -
  assume one: "length (filter P xs) = 1" and none: "filter (\<lambda>x. \<not> P x) xs = []"
  then have "filter P xs = xs" by (auto simp: filter_id_conv filter_empty_conv)
  with one obtain x where x: "xs = [x]" by (cases xs) auto
  with one show ?thesis by (cases "P x") auto
qed

text \<open>At most one answer is in flight: the initial state's or the update's.\<close>

lemma up_tasks_single:
  assumes "up_core L s"
  shows "(up_tasks s = [] \<and> up_ready s \<and> \<not> up_initializing s \<and> \<not> up_updating s) \<or>
    (\<exists>k. up_tasks s = [k] \<and> up_task_ok L s k \<and>
       (if is_init k then (\<not> up_ready s \<or> up_initializing s) \<and> \<not> up_updating s \<and> \<not> up_rules_loaded s
        else up_updating s \<and> up_rules_loaded s))"
proof (cases "\<not> up_ready s \<or> up_initializing s")
  case True
  with assms have "\<not> up_rules_loaded s" "\<not> up_updating s"
    by (auto simp: up_core_def up_phase_ok_def)
  with True assms have "length (filter is_init (up_tasks s)) = 1"
      "filter (\<lambda>k. \<not> is_init k) (up_tasks s) = []"
    by (auto simp: up_core_def up_tasks_ok_def)
  from filter_one [OF this] \<open>\<not> up_rules_loaded s\<close> \<open>\<not> up_updating s\<close> True assms show ?thesis
    by (auto simp: up_core_def up_tasks_ok_def)
next
  case False
  show ?thesis
  proof (cases "up_updating s")
    case True
    with False assms have "length (filter (\<lambda>k. \<not> is_init k) (up_tasks s)) = 1"
        "filter (\<lambda>k. \<not> \<not> is_init k) (up_tasks s) = []" "up_rules_loaded s"
      by (auto simp: up_core_def up_tasks_ok_def up_phase_ok_def)
    with filter_one [of "\<lambda>k. \<not> is_init k" "up_tasks s"] True assms show ?thesis
      by (auto simp: up_core_def up_tasks_ok_def)
  next
    case idle: False
    with False assms have "filter is_init (up_tasks s) = []"
        "filter (\<lambda>k. \<not> is_init k) (up_tasks s) = []"
      by (auto simp: up_core_def up_tasks_ok_def)
    then have "up_tasks s = []" by (cases "up_tasks s") (auto split: if_splits)
    with False idle show ?thesis by simp
  qed
qed

lemma InitializeState_core:
  assumes core: "up_core L s" and idle: "up_ready s" "\<not> up_rules_loaded s" "\<not> up_initializing s"
  shows "up_core L (InitializeState True s)"
proof -
  have "\<not> up_updating s" using core idle by (auto simp: up_core_def up_phase_ok_def)
  with up_tasks_single [OF core] idle have "up_tasks s = []" by (auto split: if_splits)
  with core idle show ?thesis
    by (auto simp: InitializeState_def up_post_def up_inv_defs good_manifest_def)
qed

lemma up_core_clients:
  assumes "up_core L s" and "0 \<le> n" and "n = 0 \<or> \<not> up_ready s \<or> up_rules_loaded s \<or> up_initializing s"
  shows "up_core L (s\<lparr>up_clients := n\<rparr>)"
proof -
  have "up_phase_ok (s\<lparr>up_clients := n\<rparr>)"
    using assms by (auto simp: up_core_def up_phase_ok_def)
  then show ?thesis using assms(1) by (simp add: up_core_def up_tasks_ok_def up_log_ok_def)
qed

lemma up_timer_clients: "up_clients s \<noteq> 0 \<Longrightarrow> n \<noteq> 0 \<Longrightarrow>
    up_timer_ok (s\<lparr>up_clients := n\<rparr>) = up_timer_ok s"
  by (simp add: up_timer_ok_def up_wants_def)

lemma up_core_phase: "up_core L s \<Longrightarrow> up_phase_ok s"
  by (simp add: up_core_def)

lemma up_unloaded_tasks:
  assumes core: "up_core L s" and idle: "\<not> up_rules_loaded s"
  obtains "up_tasks s = []" "up_ready s" "\<not> up_initializing s" "\<not> up_updating s"
  | load minimum digest where "up_tasks s = [UtInitialize load minimum digest]"
      "\<not> up_ready s \<or> up_initializing s" "\<not> up_updating s"
  using up_tasks_single [OF core] idle
  by (auto split: if_splits elim: is_init.elims)

lemma up_Acquire_inv:
  assumes inv: "up_inv L s"
  shows "up_inv L (RuleUpdater_Acquire E s)"
proof -
  from inv have core: "up_core L s" and timer: "up_timer_ok s" by (auto simp: up_inv_def)
  let ?loading = "missing_rules\<lparr>lr_status := ''loading''\<rparr>"
  define s2 where "s2 = (if \<not> up_rules_loaded s \<and> \<not> up_initializing s
      then (if up_ready s
            then InitializeState True (up_emit UpNotify (s\<lparr>up_clients := up_clients s + 1, up_rules := ?loading\<rparr>))
            else up_emit UpNotify (s\<lparr>up_clients := up_clients s + 1, up_rules := ?loading\<rparr>))
      else s\<lparr>up_clients := up_clients s + 1\<rparr>)"
  have acq: "RuleUpdater_Acquire E s = (if up_clients s2 = 1
      then RuleUpdater_Schedule E (max (seconds (rand_int E 10 30)) (up_automatic_due s2 - now_ticks E)) s2
      else s2)"
    by (simp add: RuleUpdater_Acquire_def s2_def Let_def up_emit_def InitializeState_def up_post_def)
  have clients: "0 \<le> up_clients s" using core by (simp add: up_core_def up_phase_ok_def)
  have "up_core L s2 \<and> (up_timer_ok s2 \<or> up_clients s2 = 1 \<and> up_timer s2 = None)"
  proof (cases "\<not> up_rules_loaded s \<and> \<not> up_initializing s")
    case False
    have "up_core L (s\<lparr>up_clients := up_clients s + 1\<rparr>)"
      using core clients False by (intro up_core_clients) auto
    moreover have "up_timer_ok (s\<lparr>up_clients := up_clients s + 1\<rparr>)" if "up_clients s \<noteq> 0"
      using timer that clients by (simp add: up_timer_clients)
    moreover have "up_timer s = None" if "up_clients s = 0"
      using timer that by (simp add: up_timer_ok_def up_wants_def)
    ultimately show ?thesis using False by (auto simp: s2_def)
  next
    case True
    then have unloaded: "\<not> up_rules_loaded s" by simp
    show ?thesis
    proof (rule up_unloaded_tasks [OF core unloaded])
      assume "up_tasks s = []" "up_ready s" "\<not> up_updating s"
      with True core timer clients show ?thesis
        by (auto simp: s2_def InitializeState_def up_post_def up_emit_def up_inv_defs)
    next
      fix load minimum digest
      assume tasks: "up_tasks s = [UtInitialize load minimum digest]"
        and "\<not> up_ready s \<or> up_initializing s" "\<not> up_updating s"
      with True have "\<not> up_ready s" by simp
      with True tasks core timer clients show ?thesis
        by (auto simp: s2_def up_emit_def up_inv_defs)
    qed
  qed
  then show ?thesis
    unfolding acq using up_Schedule_inv [of L s2] by (auto simp: up_inv_def)
qed

lemma up_Release_inv:
  assumes inv: "up_inv L s"
  shows "up_inv L (RuleUpdater_Release s)"
proof (cases "up_clients s = 1")
  case False
  have "up_inv L (s\<lparr>up_clients := up_clients s - 1\<rparr>)" if "0 < up_clients s"
  proof -
    have "up_phase_ok s" using inv by (simp add: up_inv_def up_core_def)
    then have "up_core L (s\<lparr>up_clients := up_clients s - 1\<rparr>)"
      using inv that by (intro up_core_clients) (auto simp: up_inv_def up_phase_ok_def)
    with inv that False up_timer_clients [of s "up_clients s - 1"] show ?thesis
      by (simp add: up_inv_def)
  qed
  with inv False show ?thesis by (simp add: RuleUpdater_Release_def)
next
  case True
  from inv have core: "up_core L s" by (simp add: up_inv_def)
  show ?thesis
  proof (cases "up_loading s")
    case False
    have "up_core L (s\<lparr>up_clients := 0\<rparr>)" using core by (intro up_core_clients) auto
    then have "up_core L (s\<lparr>up_clients := 0, up_timer := None, up_next_check := 0\<rparr>)"
      by (simp add: up_core_def up_tasks_ok_def up_phase_ok_def up_log_ok_def)
    with True False show ?thesis
      by (simp add: RuleUpdater_Release_def up_inv_def up_timer_ok_def up_wants_def up_emit_def
          up_core_def up_tasks_ok_def up_phase_ok_def up_log_ok_def)
  next
    case loading: True
    then have "list_ex is_loader_task (up_tasks s)" using core by (simp add: up_core_def up_tasks_ok_def)
    then obtain k where k: "up_tasks s = [k]" "is_loader_task k"
      using up_tasks_single [OF core] by auto
    then have "\<not> is_init k" by (cases k) auto
    with k up_tasks_single [OF core] have "up_updating s" "up_rules_loaded s" by auto
    then have "up_core L (s\<lparr>up_clients := 0, up_timer := None, up_next_check := 0,
        up_loading := False, up_tasks := [], up_updating := False, up_reason := ''cancelled''\<rparr>)"
      using core k by (auto simp: up_inv_defs)
    moreover have "RuleUpdater_Release s = up_emit UpNotify (s\<lparr>up_clients := 0, up_timer := None,
        up_next_check := 0, up_loading := False, up_tasks := [], up_updating := False,
        up_reason := ''cancelled''\<rparr>)"
      using True loading k by (simp add: RuleUpdater_Release_def up_reset_loader_def)
    ultimately show ?thesis
      by (simp only: up_emit_notify) (simp add: up_inv_def up_timer_ok_def up_wants_def)
  qed
qed

lemma RequestUpdate_starts:
  assumes core: "up_core L s" and env: "up_env_ok s E"
    and go: "up_wants s" "up_not_before s \<le> now_ticks E"
  shows "up_inv L (snd (RequestUpdate E s))"
proof -
  from up_tasks_single [OF core] go have tasks: "up_tasks s = []"
    by (auto simp: up_wants_def split: if_splits)
  then have "\<not> up_loading s" using core by (simp add: up_core_def up_tasks_ok_def)
  moreover have "t + minutes 1 \<le> now_ticks E" if "t \<in> set (request_ticks (up_log s))" for t
    using core that go(2) by (force simp: up_core_def up_log_ok_def)
  moreover have "t \<le> now_ticks E" if "t \<in> set (request_ticks (up_log s))" for t
    using env that by (simp add: up_env_ok_def)
  ultimately show ?thesis
    using core go tasks
    by (auto simp: RequestUpdate_def up_inv_defs up_reset_loader_def up_post_def up_emit_def
        sorted_wrt_append)
qed

lemma RequestUpdate_inv:
  assumes inv: "up_inv L s" and env: "up_env_ok s E"
  shows "up_inv L (snd (RequestUpdate E s))"
proof (cases "up_wants s \<and> up_not_before s \<le> now_ticks E")
  case True
  with inv env show ?thesis by (intro RequestUpdate_starts) (auto simp: up_inv_def)
next
  case False
  then have "snd (RequestUpdate E s) = s" by (auto simp: RequestUpdate_def up_wants_def)
  with inv show ?thesis by simp
qed

lemma ScheduledUpdate_inv:
  assumes inv: "up_inv L s" and env: "up_env_ok s E"
    and due: "up_timer s = Some due" "due \<le> now_ticks E"
  shows "up_inv L (ScheduledUpdate E s)"
  unfolding ScheduledUpdate_def
proof (rule RequestUpdate_starts)
  from inv due show "up_wants (s\<lparr>up_timer := None\<rparr>)"
    "up_not_before (s\<lparr>up_timer := None\<rparr>) \<le> now_ticks E"
    by (auto simp: up_inv_def up_timer_ok_def up_wants_def)
qed (use inv env in \<open>auto simp: up_inv_defs up_env_ok_def\<close>)

section \<open>Deliveries keep the invariant\<close>

text \<open>The state in which the answer of an update is handled: nothing else is in flight.\<close>

definition up_busy :: "'u lib \<Rightarrow> 'u updater \<Rightarrow> bool" where
  "up_busy L s \<longleftrightarrow> up_core L (s\<lparr>up_updating := False\<rparr>) \<and> up_updating s \<and> up_rules_loaded s \<and>
     up_ready s \<and> \<not> up_initializing s \<and> UpdateConfig_valid (up_config s) \<and> up_timer s = None \<and>
     up_tasks s = [] \<and> \<not> up_loading s"

lemma up_backoff_min: "1 \<le> n \<Longrightarrow> 0 \<le> rand_int E 0 60 \<Longrightarrow> minutes 5 \<le> up_backoff E n"
proof -
  assume "1 \<le> n" and r: "0 \<le> rand_int E 0 60"
  define p :: int where "p = 2 ^ nat (n - 1)"
  have "1 \<le> p" by (simp add: p_def)
  with r show ?thesis by (auto simp: up_backoff_def span_defs min_def simp flip: p_def)
qed

lemma up_Fail_inv:
  assumes busy: "up_busy L s" and env: "up_env_ok s E"
  shows "up_inv L (RuleUpdater_Fail E reason s)"
proof -
  define n where "n = min (up_failures s + 1) 7"
  have phase: "up_phase_ok (s\<lparr>up_updating := False\<rparr>)" using busy by (simp add: up_busy_def up_core_def)
  then have n: "1 \<le> n" "n \<le> 7" by (auto simp: n_def up_phase_ok_def)
  have b: "minutes 5 \<le> up_backoff E n" using n(1) env by (intro up_backoff_min) (auto simp: up_env_ok_def)
  let ?s = "s\<lparr>up_updating := False, up_reason := reason, up_failures := n,
      up_not_before := now_ticks E + up_backoff E n\<rparr>"
  have "\<forall>t \<in> set (request_ticks (up_log s)). t + minutes 1 \<le> now_ticks E + up_backoff E n"
    using env b by (force simp: up_env_ok_def span_defs)
  then have "up_core L ?s"
    using busy phase n by (simp add: up_busy_def up_core_def up_tasks_ok_def up_phase_ok_def up_log_ok_def)
  moreover have "up_timer ?s = None" using busy by (simp add: up_busy_def)
  ultimately have "up_inv L (RuleUpdater_Schedule E (up_backoff E n) ?s)"
    by (intro up_Schedule_inv disjI2)
  then show ?thesis by (simp add: RuleUpdater_Fail_def Let_def n_def)
qed

lemma up_Finish_inv:
  assumes busy: "up_busy L s"
  shows "up_inv L (RuleUpdater_Finish E s)"
proof -
  let ?s = "s\<lparr>up_updating := False, up_failures := 0, up_reason := [], up_last_success := now E\<rparr>"
  have "up_core L ?s"
    using busy by (simp add: up_busy_def up_core_def up_tasks_ok_def up_phase_ok_def up_log_ok_def)
  moreover have "up_timer ?s = None" using busy by (simp add: up_busy_def)
  ultimately have "up_inv L (RuleUpdater_Schedule E (hours 6 + minutes (rand_int E 0 30)) ?s)"
    by (intro up_Schedule_inv disjI2)
  then show ?thesis by (simp add: RuleUpdater_Finish_def)
qed

lemma up_busy_timer: "up_busy L s \<Longrightarrow> up_timer_ok s"
  by (simp add: up_busy_def up_timer_ok_def up_wants_def)

lemma OnManifest_inv:
  assumes busy: "up_busy L s" and env: "up_env_ok s E"
  shows "up_inv L (OnManifest L E body s)"
proof -
  have reset: "up_reset_loader s = s" using busy by (simp add: up_reset_loader_def up_busy_def)
  note fail = up_Fail_inv [OF busy env]
  have download: "up_inv L (up_emit (UpDownload u n) (up_post UtPayload
      (s\<lparr>up_manifest_json := json, up_manifest := m, up_loading := True\<rparr>)))"
    if "VerifyRuleManifest L json (up_config s) (up_sequence s) (now E) = Some m"
      "\<not> rm_generated m < lr_generated (up_rules s)"
      "AcceptRuleSequence m (up_sequence s) (up_digest s)" for json m u n
  proof -
    have "good_manifest L s m"
      using that by (auto simp: good_manifest_def signed_manifest_def)
    then show ?thesis
      using busy up_busy_timer [OF busy]
      by (simp add: up_busy_def up_post_def up_emit_def up_inv_def up_core_def up_tasks_ok_def
          up_phase_ok_def up_log_ok_def up_timer_ok_def up_wants_def good_manifest_def)
  qed
  show ?thesis
    using fail up_Finish_inv [OF busy] download
    by (simp add: OnManifest_def reset Let_def split: option.split)
qed

lemma OnPayload_inv:
  assumes busy: "up_busy L s" and env: "up_env_ok s E" and good: "good_manifest L s (up_manifest s)"
  shows "up_inv L (OnPayload E b s)"
proof -
  have reset: "up_reset_loader s = s" using busy by (simp add: up_reset_loader_def up_busy_def)
  show ?thesis
  proof (cases b)
    case False
    with up_Fail_inv [OF busy env] show ?thesis by (simp add: OnPayload_def reset)
  next
    case True
    have "good_manifest L (s\<lparr>up_manifest_json := j, up_tasks := ts\<rparr>) m = good_manifest L s m" for j ts m
      by (simp add: good_manifest_def)
    with True show ?thesis
      using busy up_busy_timer [OF busy] good
      by (simp add: OnPayload_def reset up_busy_def up_post_def up_inv_def up_core_def
          up_tasks_ok_def up_phase_ok_def up_log_ok_def up_timer_ok_def up_wants_def good_manifest_def)
  qed
qed

lemma up_OnInstalled_inv:
  assumes busy: "up_busy L s" and env: "up_env_ok s E" and good: "good_manifest L s (up_manifest s)"
  shows "up_inv L (RuleUpdater_OnInstalled E (rm_sequence (up_manifest s))
           (VerifyAndInstall L contents (up_manifest s) written t) s)"
proof (cases "VerifyAndInstall L contents (up_manifest s) written t")
  case (Inl err)
  with up_Fail_inv [OF busy env] show ?thesis by (simp add: RuleUpdater_OnInstalled_def)
next
  case (Inr rules)
  let ?m = "up_manifest s"
  obtain payload where "VerifyRulePayload L payload ?m t = Some rules"
    using Inr by (auto simp: VerifyAndInstall_def split: option.splits if_splits)
  with good have signed: "signed_rules L (up_config s) rules"
    by (auto simp: signed_rules_def good_manifest_def)
  have wm: "wm_le (up_sequence s, up_digest s) (rm_sequence ?m, rm_sha256 ?m)"
    using good by (intro Accept_wm) (simp add: good_manifest_def)
  then have "\<forall>w \<in> set (watermarks (up_log s)). wm_le w (rm_sequence ?m, rm_sha256 ?m)"
    using busy wm_le_trans by (auto simp: up_busy_def up_core_def up_log_ok_def)
  then have "up_busy L ((PersistWatermark (s\<lparr>up_sequence := rm_sequence ?m,
      up_digest := rm_sha256 ?m\<rparr>))\<lparr>up_rules := rules, up_source := ''download''\<rparr>)"
    using busy signed
    by (simp add: up_busy_def PersistWatermark_def up_emit_def up_core_def up_tasks_ok_def
        up_phase_ok_def up_log_ok_def sorted_wrt_append)
  from up_Finish_inv [OF this] Inr show ?thesis by (simp add: RuleUpdater_OnInstalled_def)
qed

section \<open>The initial state\<close>

lemma RestoreCache_result:
  fixes L :: "'u lib" and d :: disk and minimum t :: int and digest :: string
    and st :: "'u initial_state"
  defines "r \<equiv> RestoreCache L d minimum digest t st"
  assumes "is_sequence st = 0" and "is_digest st = []" and "is_source st = ''package''"
  shows "is_config r = is_config st \<and>
    (is_digest r = [] \<or> wm_le (minimum, digest) (is_sequence r, is_digest r)) \<and>
    (is_source r = ''package'' \<or>
       is_source r = ''download'' \<and> signed_rules L (is_config st) (is_rules r))"
proof (cases "r = st")
  case True
  with assms show ?thesis by simp
next
  case False
  then obtain raw manifest_json payload m rules where
    "dk_cache d = Some raw" "DecodeRuleCache L raw = Some (manifest_json, payload)"
    "VerifyRuleManifest L manifest_json (is_config st) minimum t = Some m"
    "AcceptRuleSequence m minimum digest" "VerifyRulePayload L payload m t = Some rules"
    "UpdateConfig_valid (is_config st)"
    unfolding r_def RestoreCache_def
    by (simp split: option.splits prod.splits if_splits)
  moreover from this have "signed_rules L (is_config st) rules"
    unfolding signed_rules_def signed_manifest_def by blast
  ultimately show ?thesis
    using Accept_wm [of m minimum digest] assms(2-4)
    by (simp add: r_def RestoreCache_def Let_def)
qed

lemma InitialStateOf_result:
  fixes L :: "'u lib" and d :: disk and minimum t :: int and digest :: string and load :: bool
  defines "r \<equiv> InitialStateOf L d minimum digest load t"
  shows "(is_digest r = [] \<or> wm_le (minimum, digest) (is_sequence r, is_digest r)) \<and>
    (is_source r = ''package'' \<or>
       is_source r = ''download'' \<and> signed_rules L (is_config r) (is_rules r))"
proof -
  let ?json = "case dk_config d of None \<Rightarrow> [] | Some None \<Rightarrow> ''invalid'' | Some (Some c) \<Rightarrow> c"
  let ?st = "\<lparr>is_config = ParseUpdateConfig L ?json, is_rules = missing_rules,
                is_sequence = 0, is_digest = [], is_source = ''package''\<rparr>"
  have "r = (if load then RestoreCache L d minimum digest t (?st\<lparr>is_rules := LoadRulesFile L d t\<rparr>) else ?st)"
    by (simp add: r_def InitialStateOf_def)
  then show ?thesis
    using RestoreCache_result [of "?st\<lparr>is_rules := LoadRulesFile L d t\<rparr>" L d minimum digest t]
    by (cases load) simp_all
qed

lemma OnInitialized_inv:
  assumes inv: "up_inv L s" and tasks: "up_tasks s = [UtInitialize load minimum digest]"
  shows "up_inv L (OnInitialized E load (InitialStateOf L d minimum digest load t) (s\<lparr>up_tasks := []\<rparr>))"
proof -
  define st where "st = InitialStateOf L d minimum digest load t"
  from inv have core: "up_core L s" by (simp add: up_inv_def)
  have bound: "load = up_initializing s" "minimum = up_sequence s" "digest = up_digest s"
    using core tasks by (simp_all add: up_core_def up_tasks_ok_def)
  have st: "is_digest st = [] \<or> wm_le (up_sequence s, up_digest s) (is_sequence st, is_digest st)"
    "is_source st = ''package'' \<or>
       is_source st = ''download'' \<and> signed_rules L (is_config st) (is_rules st)"
    using InitialStateOf_result [where L = L and d = d and minimum = minimum and digest = digest
        and load = load and t = t] bound by (simp_all add: st_def)
  have idle: "\<not> up_rules_loaded s" "\<not> up_updating s" "\<not> up_loading s"
    using core up_tasks_single [OF core] tasks by (auto simp: up_core_def up_tasks_ok_def split: if_splits)
  then have src: "up_source s = ''none''" "up_timer s = None"
    using inv by (auto simp: up_inv_def up_core_def up_timer_ok_def up_wants_def)
  show ?thesis
  proof (cases load)
    case False
    let ?s = "s\<lparr>up_tasks := [], up_ready := True, up_config := is_config st\<rparr>"
    have init: "\<not> up_initializing s" using False bound by simp
    have core': "up_core L (?s\<lparr>up_clients := 0\<rparr>)"
      using core idle init src
      by (simp add: up_core_def up_tasks_ok_def up_phase_ok_def up_log_ok_def)
    show ?thesis
    proof (cases "up_clients s = 0")
      case True
      then have "?s\<lparr>up_clients := 0\<rparr> = ?s" by simp
      with core' have "up_inv L (RuleUpdater_Schedule E (seconds (rand_int E 10 30)) (up_emit UpNotify ?s))"
        using src by (intro up_Schedule_inv disjI2) (simp, simp add: up_emit_def)
      with True False show ?thesis
        unfolding OnInitialized_def st_def [symmetric] Let_def by (simp add: up_emit_def)
    next
      case clients: False
      have phase: "0 \<le> up_clients s" using core by (simp add: up_core_def up_phase_ok_def)
      have "up_core L (InitializeState True (up_emit UpNotify (?s\<lparr>up_clients := 0\<rparr>)))"
        using core' idle init
        by (intro InitializeState_core) (simp only: up_core_notify, simp_all add: up_emit_def)
      then have "up_core L ((InitializeState True (up_emit UpNotify (?s\<lparr>up_clients := 0\<rparr>)))
          \<lparr>up_clients := up_clients s\<rparr>)"
        using phase by (intro up_core_clients) (simp_all add: InitializeState_def up_post_def)
      moreover have "(InitializeState True (up_emit UpNotify (?s\<lparr>up_clients := 0\<rparr>)))
          \<lparr>up_clients := up_clients s\<rparr> = InitializeState True (up_emit UpNotify ?s)"
        by (simp add: InitializeState_def up_post_def up_emit_def)
      ultimately have "up_inv L (InitializeState True (up_emit UpNotify ?s))"
        using src idle
        by (simp add: up_inv_def up_timer_ok_def up_wants_def InitializeState_def up_post_def up_emit_def)
      with False clients idle init show ?thesis
        unfolding OnInitialized_def st_def [symmetric] Let_def by (simp add: up_emit_def)
    qed
  next
    case True
    let ?s = "s\<lparr>up_tasks := [], up_ready := True, up_config := is_config st, up_rules_loaded := True,
      up_initializing := False, up_rules := is_rules st,
      up_source := (if lr_status (is_rules st) = ''missing'' then ''none'' else is_source st)\<rparr>"
    let ?s2 = "if is_sequence st \<ge> up_sequence s \<and> is_digest st \<noteq> []
      then PersistWatermark (?s\<lparr>up_sequence := is_sequence st, up_digest := is_digest st\<rparr>) else ?s"
    have plain: "up_core L ?s"
      using core idle st
      by (auto simp: up_core_def up_tasks_ok_def up_phase_ok_def up_log_ok_def)
    have "up_core L (PersistWatermark (?s\<lparr>up_sequence := is_sequence st, up_digest := is_digest st\<rparr>))"
      if "is_digest st \<noteq> []"
    proof -
      have wm: "wm_le (up_sequence s, up_digest s) (is_sequence st, is_digest st)"
        using st(1) that by simp
      then have "\<forall>w \<in> set (watermarks (up_log s)). wm_le w (is_sequence st, is_digest st)"
        using core wm_le_trans by (auto simp: up_core_def up_log_ok_def)
      with plain show ?thesis
        by (simp add: PersistWatermark_def up_emit_def up_core_def up_tasks_ok_def up_phase_ok_def
            up_log_ok_def sorted_wrt_append)
    qed
    with plain have core2: "up_core L ?s2" by simp
    have "up_timer ?s2 = None" using src by (simp add: PersistWatermark_def up_emit_def)
    with core2 have "up_inv L (RuleUpdater_Schedule E (seconds (rand_int E 10 30)) (up_emit UpNotify ?s2))"
      by (intro up_Schedule_inv disjI2) (simp only: up_core_notify, simp add: up_emit_def)
    moreover have "up_rules_loaded (up_emit UpNotify ?s2)"
      by (simp add: PersistWatermark_def up_emit_def)
    ultimately show ?thesis
      unfolding OnInitialized_def st_def [symmetric] Let_def using True by simp
  qed
qed

section \<open>Every step keeps the invariant\<close>

lemma drop_nth_single [simp]: "drop_nth 0 [k] = []"
  by (simp add: drop_nth_def)

lemma up_env_frame [simp]:
  "up_env_ok (s\<lparr>up_tasks := ts\<rparr>) E = up_env_ok s E" "up_env_ok (s\<lparr>up_loading := b\<rparr>) E = up_env_ok s E"
  by (simp_all add: up_env_ok_def)

lemma take_update:
  assumes inv: "up_inv L s" and k: "up_tasks s = [k]" "\<not> is_init k"
  shows "up_busy L (s\<lparr>up_tasks := [], up_loading := False\<rparr>)" "up_task_ok L s k"
proof -
  from inv have core: "up_core L s" by (simp add: up_inv_def)
  from up_tasks_single [OF core] k have u: "up_updating s" "up_rules_loaded s" "up_task_ok L s k"
    by simp_all
  then have ph: "up_ready s" "\<not> up_initializing s" "UpdateConfig_valid (up_config s)"
    using core by (simp_all add: up_core_def up_phase_ok_def)
  have "up_timer s = None" using inv u by (simp add: up_inv_def up_timer_ok_def up_wants_def)
  with core u ph show "up_busy L (s\<lparr>up_tasks := [], up_loading := False\<rparr>)"
    by (simp add: up_busy_def up_core_def up_tasks_ok_def up_phase_ok_def up_log_ok_def)
  show "up_task_ok L s k" by (rule u)
qed

lemma up_reset_frame:
  "OnManifest L E body (s\<lparr>up_tasks := []\<rparr>) = OnManifest L E body (s\<lparr>up_tasks := [], up_loading := False\<rparr>)"
  "OnPayload E b (s\<lparr>up_tasks := []\<rparr>) = OnPayload E b (s\<lparr>up_tasks := [], up_loading := False\<rparr>)"
  by (simp_all add: OnManifest_def OnPayload_def up_reset_loader_def)

lemma up_Deliver_inv:
  assumes inv: "up_inv L s" and ok: "up_ok s (UeDeliver E n out)"
  shows "up_inv L (up_step L s (UeDeliver E n out))"
proof -
  from ok have n: "n < length (up_tasks s)" and fits: "up_fits (up_tasks s ! n) out"
    and env: "up_env_ok s E" by auto
  from inv have core: "up_core L s" by (simp add: up_inv_def)
  from up_tasks_single [OF core] n obtain k where k: "up_tasks s = [k]" "n = 0" by auto
  show ?thesis
  proof (cases k)
    case (UtInitialize load minimum digest)
    with fits k obtain d where "out = UoDisk d" by (cases out) auto
    with k UtInitialize OnInitialized_inv [OF inv] show ?thesis by simp
  next
    case UtManifest
    with fits k obtain body where "out = UoBody body" by (cases out) auto
    with k UtManifest OnManifest_inv [OF take_update(1) [OF inv k(1)]] env show ?thesis
      by (simp add: up_reset_frame)
  next
    case UtPayload
    with fits k obtain b where out: "out = UoPath b" by (cases out) auto
    have "good_manifest L s (up_manifest s)"
      using take_update(2) [OF inv k(1)] UtPayload by simp
    then have "good_manifest L (s\<lparr>up_tasks := [], up_loading := False\<rparr>) (up_manifest s)"
      by (simp add: good_manifest_def)
    with k UtPayload out OnPayload_inv [OF take_update(1) [OF inv k(1)]] env show ?thesis
      by (simp add: up_reset_frame)
  next
    case (UtInstall json m sequence)
    with fits k obtain contents written where out: "out = UoPayload contents written"
      by (cases out) auto
    have task: "m = up_manifest s" "sequence = rm_sequence m" "good_manifest L s m"
      using take_update(2) [OF inv k(1)] UtInstall by auto
    have "\<not> up_loading s" using core k UtInstall by (simp add: up_core_def up_tasks_ok_def)
    then have same: "s\<lparr>up_tasks := [], up_loading := False\<rparr> = s\<lparr>up_tasks := []\<rparr>" by simp
    have busy: "up_busy L (s\<lparr>up_tasks := []\<rparr>)"
      using take_update(1) [OF inv k(1)] UtInstall same by simp
    have "good_manifest L (s\<lparr>up_tasks := []\<rparr>) m" using task by (simp add: good_manifest_def)
    with k UtInstall out task env up_OnInstalled_inv [OF busy, of E contents written "now E"]
    show ?thesis by simp
  qed
qed

lemma up_inv_step: "up_inv L s \<Longrightarrow> up_ok s e \<Longrightarrow> up_inv L (up_step L s e)"
proof (cases e)
  case (UeDeliver E n out)
  then show "up_inv L s \<Longrightarrow> up_ok s e \<Longrightarrow> ?thesis" using up_Deliver_inv by blast
next
  case (UeTimer E)
  then show "up_inv L s \<Longrightarrow> up_ok s e \<Longrightarrow> ?thesis"
    using ScheduledUpdate_inv by (auto split: option.splits)
qed (auto intro: up_Acquire_inv up_Release_inv RequestUpdate_inv)

interpretation up_guarded: machine "up_step L" up_ok "up_inv L" for L :: "'u lib"
  by unfold_locales (rule up_inv_step)

section \<open>The watermark\<close>

text \<open>The watermark only moves forward.\<close>

definition up_mark :: "'u updater \<Rightarrow> int \<times> string" where
  "up_mark s = (up_sequence s, up_digest s)"

lemma up_mark_frame [simp]:
  "up_mark (s\<lparr>up_clients := x0\<rparr>) = up_mark s" "up_mark (s\<lparr>up_failures := x1\<rparr>) = up_mark s"
  "up_mark (s\<lparr>up_ready := x2\<rparr>) = up_mark s" "up_mark (s\<lparr>up_rules_loaded := x3\<rparr>) = up_mark s"
  "up_mark (s\<lparr>up_initializing := x4\<rparr>) = up_mark s" "up_mark (s\<lparr>up_updating := x5\<rparr>) = up_mark s"
  "up_mark (s\<lparr>up_config := x6\<rparr>) = up_mark s" "up_mark (s\<lparr>up_manifest := x7\<rparr>) = up_mark s"
  "up_mark (s\<lparr>up_manifest_json := x8\<rparr>) = up_mark s" "up_mark (s\<lparr>up_rules := x9\<rparr>) = up_mark s"
  "up_mark (s\<lparr>up_source := x10\<rparr>) = up_mark s" "up_mark (s\<lparr>up_reason := x11\<rparr>) = up_mark s"
  "up_mark (s\<lparr>up_last_check := x12\<rparr>) = up_mark s" "up_mark (s\<lparr>up_last_success := x13\<rparr>) = up_mark s"
  "up_mark (s\<lparr>up_next_check := x14\<rparr>) = up_mark s" "up_mark (s\<lparr>up_not_before := x15\<rparr>) = up_mark s"
  "up_mark (s\<lparr>up_automatic_due := x16\<rparr>) = up_mark s" "up_mark (s\<lparr>up_timer := x17\<rparr>) = up_mark s"
  "up_mark (s\<lparr>up_loading := x18\<rparr>) = up_mark s" "up_mark (s\<lparr>up_tasks := x19\<rparr>) = up_mark s"
  "up_mark (s\<lparr>up_log := x20\<rparr>) = up_mark s"
  by (simp_all add: up_mark_def)

lemma up_mark_set [simp]: "up_mark (s\<lparr>up_sequence := n, up_digest := d\<rparr>) = (n, d)"
  by (simp add: up_mark_def)

lemma up_mark_ops [simp]:
  "up_mark (up_emit x s) = up_mark s" "up_mark (up_post k s) = up_mark s"
  "up_mark (up_reset_loader s) = up_mark s" "up_mark (InitializeState b s) = up_mark s"
  "up_mark (PersistWatermark s) = up_mark s" "up_mark (RuleUpdater_Schedule E d s) = up_mark s"
  by (simp_all add: up_emit_def up_post_def up_reset_loader_def InitializeState_def
      PersistWatermark_def RuleUpdater_Schedule_def Let_def)

lemma up_mark_Finish [simp]:
  "up_mark (RuleUpdater_Finish E s) = up_mark s" "up_mark (RuleUpdater_Fail E r s) = up_mark s"
  by (simp_all add: RuleUpdater_Finish_def RuleUpdater_Fail_def Let_def)

lemma up_mark_steps [simp]:
  "up_mark (RuleUpdater_Acquire E s) = up_mark s" "up_mark (RuleUpdater_Release s) = up_mark s"
  "up_mark (snd (RequestUpdate E s)) = up_mark s" "up_mark (ScheduledUpdate E s) = up_mark s"
  "up_mark (OnManifest L E body s) = up_mark s" "up_mark (OnPayload E b s) = up_mark s"
  by (simp_all add: RuleUpdater_Acquire_def RuleUpdater_Release_def RequestUpdate_def
      ScheduledUpdate_def OnManifest_def OnPayload_def Let_def split: option.split)

lemma OnInitialized_mark:
  "up_mark (OnInitialized E load st s) =
     (if load \<and> is_sequence st \<ge> up_sequence s \<and> is_digest st \<noteq> []
      then (is_sequence st, is_digest st) else up_mark s)"
proof -
  let ?s1 = "s\<lparr>up_ready := True, up_config := is_config st\<rparr>"
  let ?s2 = "?s1\<lparr>up_rules_loaded := True, up_initializing := False, up_rules := is_rules st,
      up_source := (if lr_status (is_rules st) = ''missing'' then ''none'' else is_source st)\<rparr>"
  define s3 where "s3 = (if \<not> load then ?s1
      else if is_sequence st \<ge> up_sequence ?s2 \<and> is_digest st \<noteq> []
      then PersistWatermark (?s2\<lparr>up_sequence := is_sequence st, up_digest := is_digest st\<rparr>) else ?s2)"
  have "OnInitialized E load st s = (let s = up_emit UpNotify s3
      in if up_clients s \<noteq> 0 \<and> \<not> up_rules_loaded s \<and> \<not> up_initializing s
         then InitializeState True s else RuleUpdater_Schedule E (seconds (rand_int E 10 30)) s)"
    unfolding OnInitialized_def s3_def Let_def ..
  then have "up_mark (OnInitialized E load st s) = up_mark s3" by (simp add: Let_def)
  then show ?thesis by (cases load) (auto simp: s3_def)
qed

lemma up_mark_step:
  assumes inv: "up_inv L s" and ok: "up_ok s e"
  shows "wm_le (up_mark s) (up_mark (up_step L s e))"
proof (cases e)
  case (UeDeliver E n out)
  let ?k = "up_tasks s ! n"
  let ?s = "s\<lparr>up_tasks := drop_nth n (up_tasks s)\<rparr>"
  have fits: "up_fits ?k out" and n: "n < length (up_tasks s)" using ok UeDeliver by auto
  have task: "up_task_ok L s ?k"
    using inv n by (simp add: up_inv_def up_core_def up_tasks_ok_def list_all_length)
  show ?thesis
  proof (cases ?k)
    case (UtInitialize load minimum digest)
    with fits obtain d where "out = UoDisk d" by (cases out) auto
    then have step: "up_step L s e =
        OnInitialized E load (InitialStateOf L d minimum digest load (now E)) ?s"
      using UtInitialize UeDeliver by simp
    have mark: "up_mark s = (minimum, digest)" using task UtInitialize by (simp add: up_mark_def)
    show ?thesis
      unfolding step OnInitialized_mark up_mark_frame mark
      using InitialStateOf_result [where L = L and d = d and minimum = minimum and digest = digest
        and load = load and t = "now E"] by (simp only: if_split wm_le_refl) blast
  next
    case (UtInstall json m sequence)
    with fits obtain contents written where out: "out = UoPayload contents written" by (cases out) auto
    have "wm_le (up_mark s) (rm_sequence m, rm_sha256 m)" "sequence = rm_sequence m" "m = up_manifest s"
      using task UtInstall Accept_wm by (auto simp: good_manifest_def up_mark_def)
    moreover have "up_mark (RuleUpdater_OnInstalled E sequence (Inr r) ?s) = (sequence, rm_sha256 (up_manifest s))" for r
      by (simp add: RuleUpdater_OnInstalled_def)
    ultimately show ?thesis
      using UeDeliver UtInstall out
      by (cases "VerifyAndInstall L contents m written (now E)") (simp_all add: RuleUpdater_OnInstalled_def)
  qed (use UeDeliver fits in \<open>cases out; simp\<close>)+
qed simp_all

interpretation up_ratchet: ratchet "up_step L" up_ok "up_inv L" up_mark wm_le for L :: "'u lib"
  by unfold_locales (use up_mark_step wm_le_trans in \<open>blast | simp\<close>)+

lemma up_inv_init: "up_inv L (RuleUpdater_Impl L pref_sequence pref_digest have_assets)"
  by (cases have_assets) (simp_all add: RuleUpdater_Impl_def Let_def InitializeState_def up_post_def
      up_inv_def up_core_def up_tasks_ok_def up_phase_ok_def up_log_ok_def up_timer_ok_def up_wants_def initial_config_def
      UpdateConfig_valid_def)

end
