(* ===== verification/Updater_Properties.thy ===== *)
theory Updater_Properties
  imports Source_Properties Updater_Machine
begin

text \<open>
  The properties of the signed updates of the packaged rules, for every state that a run of
  the machine of \<open>Updater_Machine\<close> reaches, and a sample run that installs an update.
\<close>

section \<open>A sample run\<close>

definition at_ticks :: "int \<Rightarrow> env" where
  "at_ticks t = \<lparr>now = 2000, now_ticks = t, rand_int = (\<lambda>a b. a), token = ''token''\<rparr>"

definition sample_disk :: disk where
  "sample_disk = \<lparr>dk_config = Some (Some ''C''), dk_rules = None, dk_cache = None\<rparr>"

definition updater_start :: "string updater" where
  "updater_start = RuleUpdater_Impl update_lib (Some 3) (Some ''old'') True"

definition updater_events :: "up_event list" where
  "updater_events = [UeAcquire (at_ticks 0), UeDeliver (at_ticks 0) 0 (UoDisk sample_disk),
     UeDeliver (at_ticks 0) 0 (UoDisk sample_disk), UeTimer (at_ticks 10000000),
     UeDeliver (at_ticks 11000000) 0 (UoBody (Some ''E'')), UeDeliver (at_ticks 12000000) 0 (UoPath True)]"

definition updater_mid :: "string updater" where
  "updater_mid = foldl (up_step update_lib) updater_start updater_events"

definition install_event :: up_event where
  "install_event = UeDeliver (at_ticks 13000000) 0 (UoPayload (Some hex64) True)"

definition idle_state :: "int \<Rightarrow> bool \<Rightarrow> string updater" where
  "idle_state clients loaded = \<lparr>up_sequence = 3, up_digest = ''old'', up_clients = clients, up_failures = 0,
     up_ready = False, up_rules_loaded = loaded, up_initializing = False, up_updating = False,
     up_config = initial_config update_lib,
     up_manifest = \<lparr>rm_sequence = 0, rm_size = 0, rm_count = 0, rm_rules_url = [], rm_sha256 = [],
       rm_version = [], rm_generated = 0, rm_expires = 0\<rparr>,
     up_manifest_json = [], up_rules = missing_rules, up_source = ''none'', up_reason = [],
     up_last_check = 0, up_last_success = 0, up_next_check = 0, up_not_before = 0,
     up_automatic_due = 0, up_timer = None, up_loading = False,
     up_tasks = [UtInitialize False 3 ''old''], up_log = []\<rparr>"

lemma updater_start_eq: "updater_start = idle_state 0 False"
  by (simp add: updater_start_def idle_state_def RuleUpdater_Impl_def InitializeState_def up_post_def
      update_lib_def sample_lib_def Let_def)

lemma sample_initial:
  "InitialStateOf update_lib sample_disk n d load 2000 =
     \<lparr>is_config = sample_config, is_rules = missing_rules, is_sequence = 0, is_digest = [],
      is_source = ''package''\<rparr>"
  by (simp add: InitialStateOf_def sample_disk_def sample_config_parsed RestoreCache_def
      LoadRulesFile_def LoadLocalRules_def Let_def)

lemmas updater_run_simps = RuleUpdater_Acquire_def RuleUpdater_Schedule_def OnInitialized_def
  InitializeState_def ScheduledUpdate_def RequestUpdate_def OnManifest_def OnPayload_def
  up_emit_def up_post_def up_reset_loader_def drop_nth_def up_env_ok_def at_ticks_def span_defs Let_def
  sample_initial

text \<open>The run step by step.\<close>

abbreviation (input) after_config :: "string updater" where
  "after_config \<equiv> (idle_state 1 False)\<lparr>up_rules := missing_rules\<lparr>lr_status := ''loading''\<rparr>,
     up_ready := True, up_initializing := True, up_config := sample_config,
     up_tasks := [UtInitialize True 3 ''old''], up_log := [UpNotify, UpNotify]\<rparr>"

abbreviation (input) after_rules :: "string updater" where
  "after_rules \<equiv> (idle_state 1 True)\<lparr>up_ready := True, up_config := sample_config,
     up_next_check := 10002000, up_automatic_due := 10000000, up_timer := Some 10000000,
     up_tasks := [], up_log := [UpNotify, UpNotify, UpNotify]\<rparr>"

abbreviation (input) after_timer :: "string updater" where
  "after_timer \<equiv> (idle_state 1 True)\<lparr>up_ready := True, up_updating := True, up_config := sample_config,
     up_last_check := 2000, up_not_before := 70000000, up_automatic_due := 10000000,
     up_loading := True, up_tasks := [UtManifest],
     up_log := [UpNotify, UpNotify, UpNotify, UpRequest ''https://a.test/m'' 10000000, UpNotify]\<rparr>"

abbreviation (input) after_payload :: "string updater" where
  "after_payload \<equiv> (idle_state 1 True)\<lparr>up_ready := True, up_updating := True, up_config := sample_config,
     up_manifest := sample_manifest, up_last_check := 2000, up_not_before := 70000000,
     up_automatic_due := 10000000, up_tasks := [UtInstall ''E'' sample_manifest 9],
     up_log := [UpNotify, UpNotify, UpNotify, UpRequest ''https://a.test/m'' 10000000, UpNotify,
       UpDownload ''https://a.test/r'' 64]\<rparr>"

lemma run_config: "foldl (up_step update_lib) updater_start (take 2 updater_events) = after_config"
  by (simp add: updater_events_def updater_start_eq) (simp add: updater_run_simps idle_state_def)

lemma run_rules: "up_step update_lib after_config (UeDeliver (at_ticks 0) 0 (UoDisk sample_disk)) = after_rules"
  by (simp add: updater_run_simps idle_state_def) (simp add: missing_rules_def)

lemma run_timer: "up_step update_lib after_rules (UeTimer (at_ticks 10000000)) = after_timer"
  by (simp add: updater_run_simps idle_state_def) (simp add: sample_config_def)

lemma run_payload: "up_step update_lib (up_step update_lib after_timer
    (UeDeliver (at_ticks 11000000) 0 (UoBody (Some ''E'')))) (UeDeliver (at_ticks 12000000) 0 (UoPath True)) =
    after_payload"
  by (simp add: updater_run_simps sample_manifest_read idle_state_def)
    (simp add: sample_manifest_def missing_rules_def AcceptRuleSequence_def)

lemma updater_mid_eq: "updater_mid = after_payload"
proof -
  have "updater_mid = up_step update_lib (up_step update_lib (up_step update_lib (up_step update_lib
      (foldl (up_step update_lib) updater_start (take 2 updater_events))
      (UeDeliver (at_ticks 0) 0 (UoDisk sample_disk))) (UeTimer (at_ticks 10000000)))
      (UeDeliver (at_ticks 11000000) 0 (UoBody (Some ''E'')))) (UeDeliver (at_ticks 12000000) 0 (UoPath True))"
    by (simp add: updater_mid_def updater_events_def del: up_step.simps)
  then show ?thesis unfolding run_config run_rules run_timer run_payload .
qed

lemma updater_run:
  "guarded_run (up_step update_lib) up_ok updater_start updater_events"
proof -
  have split: "updater_events = take 2 updater_events @ [UeDeliver (at_ticks 0) 0 (UoDisk sample_disk),
      UeTimer (at_ticks 10000000), UeDeliver (at_ticks 11000000) 0 (UoBody (Some ''E'')),
      UeDeliver (at_ticks 12000000) 0 (UoPath True)]"
    by (simp add: updater_events_def)
  have "guarded_run (up_step update_lib) up_ok updater_start (take 2 updater_events)"
    by (simp add: updater_events_def updater_start_eq) (simp add: updater_run_simps idle_state_def)
  moreover have "guarded_run (up_step update_lib) up_ok after_config
      [UeDeliver (at_ticks 0) 0 (UoDisk sample_disk), UeTimer (at_ticks 10000000),
       UeDeliver (at_ticks 11000000) 0 (UoBody (Some ''E'')), UeDeliver (at_ticks 12000000) 0 (UoPath True)]"
    unfolding guarded_run.simps run_rules run_timer
    by (simp add: updater_run_simps idle_state_def sample_manifest_read)
      (simp add: sample_manifest_def missing_rules_def AcceptRuleSequence_def)
  ultimately show ?thesis
    by (subst split) (simp only: guarded_run_append run_config simp_thms)
qed

section \<open>Properties\<close>

text \<open>From the watermark that the preferences hold at the start, the sequence of the rules
  only grows, and the digest changes only with it: whatever the network and the disk deliver,
  in any order, an older set of rules is never accepted as newer, and the watermarks that are
  stored are in this order too.\<close>

lemma rules_never_roll_back:
  assumes "s0 = RuleUpdater_Impl L pref_sequence pref_digest have_assets"
    and "guarded_run (up_step L) up_ok s0 es" and "s = foldl (up_step L) s0 es"
  shows "(up_sequence s0 < up_sequence s \<or> up_sequence s0 = up_sequence s \<and> up_digest s0 = up_digest s) \<and>
    sorted_wrt (\<lambda>a b. fst a < fst b \<or> a = b) (watermarks (up_log s)) \<and>
    (\<forall>w \<in> set (watermarks (up_log s)). fst w < up_sequence s \<or> w = (up_sequence s, up_digest s))"
proof -
  have init: "up_inv L s0" unfolding assms(1) by (rule up_inv_init)
  have "wm_le (up_mark s0) (up_mark s)"
    unfolding assms(3) by (rule up_ratchet.mark_run [OF init assms(2)])
  moreover have "up_inv L s" unfolding assms(3) by (rule up_guarded.inv_run [OF init assms(2)])
  then have "sorted_wrt wm_le (watermarks (up_log s))"
      "\<forall>w \<in> set (watermarks (up_log s)). wm_le w (up_sequence s, up_digest s)"
    by (simp_all add: up_inv_def up_core_def up_log_ok_def)
  ultimately show ?thesis by (auto simp: wm_le_def [abs_def] up_mark_def)
qed

lemma updater_end_eq:
  "up_step update_lib updater_mid install_event = updater_mid\<lparr>up_sequence := 9, up_digest := hex64,
     up_updating := False, up_rules := sample_installed, up_source := ''download'',
     up_last_success := 2000, up_next_check := 21600002000, up_automatic_due := 21613000000,
     up_timer := Some 21613000000, up_tasks := [],
     up_log := up_log updater_mid @ [UpPersist 9 hex64, UpNotify]\<rparr>"
  unfolding updater_mid_eq install_event_def
  by (simp add: updater_run_simps idle_state_def RuleUpdater_OnInstalled_def VerifyAndInstall_def
      sample_rules_read RuleUpdater_Finish_def PersistWatermark_def)
    (simp add: sample_manifest_def)

lemma updater_full_run:
  "guarded_run (up_step update_lib) up_ok (RuleUpdater_Impl update_lib (Some 3) (Some ''old'') True)
     (updater_events @ [install_event])"
  "foldl (up_step update_lib) (RuleUpdater_Impl update_lib (Some 3) (Some ''old'') True)
     (updater_events @ [install_event]) = up_step update_lib updater_mid install_event"
proof -
  have "up_ok updater_mid install_event"
    unfolding updater_mid_eq install_event_def by (simp add: idle_state_def up_env_ok_def at_ticks_def)
  then show "guarded_run (up_step update_lib) up_ok (RuleUpdater_Impl update_lib (Some 3) (Some ''old'') True)
     (updater_events @ [install_event])"
    using updater_run by (simp add: guarded_run_append updater_start_def updater_mid_def del: up_step.simps)
  show "foldl (up_step update_lib) (RuleUpdater_Impl update_lib (Some 3) (Some ''old'') True)
     (updater_events @ [install_event]) = up_step update_lib updater_mid install_event"
    by (simp add: updater_mid_def updater_start_def del: up_step.simps)
qed

text \<open>Whenever the updater says that its rules were downloaded, these rules are the payload
  of a manifest that verified under the configured keys, in this or in an earlier session.\<close>

lemma downloaded_rules_are_signed:
  assumes "guarded_run (up_step L) up_ok (RuleUpdater_Impl L pref_sequence pref_digest have_assets) es"
    and "s = foldl (up_step L) (RuleUpdater_Impl L pref_sequence pref_digest have_assets) es"
    and "ur_source (RuleUpdater_State s) = ''download''"
  shows "\<exists>json minimum t m payload t'. VerifyRuleManifest L json (up_config s) minimum t = Some m \<and>
    VerifyRulePayload L payload m t' = Some (up_rules s)"
proof -
  have "up_inv L s" unfolding assms(2) by (rule up_guarded.inv_run [OF up_inv_init assms(1)])
  then have "signed_rules L (up_config s) (up_rules s)"
    using assms(3) by (simp add: up_inv_def up_core_def RuleUpdater_State_def)
  then show ?thesis unfolding signed_rules_def signed_manifest_def by blast
qed

text \<open>C10: From the watermark that the preferences hold at the start, the sequence of the rules
  only grows, and the digest changes only with it: whatever the network and the disk deliver,
  in any order, an older set of rules is never accepted as newer, and the watermarks that are
  stored are in this order too. And whenever the updater says that its rules were downloaded,
  they are the payload of a manifest that verified under the configured keys.\<close>

theorem rules_are_signed_and_never_roll_back:
  assumes "s0 = RuleUpdater_Impl L pref_sequence pref_digest have_assets"
    and "guarded_run (up_step L) up_ok s0 es" and "s = foldl (up_step L) s0 es"
  shows "(up_sequence s0 < up_sequence s \<or> up_sequence s0 = up_sequence s \<and> up_digest s0 = up_digest s) \<and>
    sorted_wrt (\<lambda>a b. fst a < fst b \<or> a = b) (watermarks (up_log s)) \<and>
    (\<forall>w \<in> set (watermarks (up_log s)). fst w < up_sequence s \<or> w = (up_sequence s, up_digest s)) \<and>
    (ur_source (RuleUpdater_State s) = ''download'' \<longrightarrow>
      (\<exists>json minimum t m payload t'. VerifyRuleManifest L json (up_config s) minimum t = Some m \<and>
        VerifyRulePayload L payload m t' = Some (up_rules s)))"
  using rules_never_roll_back [OF assms] downloaded_rules_are_signed [OF assms(2,3) [unfolded assms(1)]] by blast

lemma rules_are_signed_and_never_roll_back_witness:
  "watermarks (up_log (up_step update_lib updater_mid install_event)) = [(9, hex64)] \<and>
   3 < up_sequence (up_step update_lib updater_mid install_event) \<and>
   (\<exists>json minimum t m payload t'. VerifyRuleManifest update_lib json sample_config minimum t = Some m \<and>
     VerifyRulePayload update_lib payload m t' = Some sample_installed)"
  using rules_are_signed_and_never_roll_back [OF refl updater_full_run(1) updater_full_run(2) [symmetric]]
  unfolding updater_end_eq unfolding updater_mid_eq
  by (simp add: RuleUpdater_Impl_def InitializeState_def up_post_def RuleUpdater_State_def)

text \<open>C30: Two manifest requests are at least a minute apart, however often clients come and go or
  ask for an update. The timer is armed exactly when an update is wanted: the rules are loaded,
  the configuration is valid, a client is there and no update is in flight. When it fires, a
  request is made: the rate limit never swallows it.\<close>

theorem updates_are_spaced_and_never_stop:
  assumes "guarded_run (up_step L) up_ok (RuleUpdater_Impl L pref_sequence pref_digest have_assets) es"
    and "s = foldl (up_step L) (RuleUpdater_Impl L pref_sequence pref_digest have_assets) es"
  shows "sorted_wrt (\<lambda>a b. a + minutes 1 \<le> b) (request_ticks (up_log s)) \<and>
    (up_timer s \<noteq> None \<longleftrightarrow> up_rules_loaded s \<and> UpdateConfig_valid (up_config s) \<and>
       up_clients s \<noteq> 0 \<and> \<not> up_updating s) \<and>
    (up_ok s (UeTimer E) \<longrightarrow> up_updating (up_step L s (UeTimer E)) \<and>
       request_ticks (up_log (up_step L s (UeTimer E))) = request_ticks (up_log s) @ [now_ticks E])"
proof -
  have inv: "up_inv L s" unfolding assms(2) by (rule up_guarded.inv_run [OF up_inv_init assms(1)])
  then have spaced: "sorted_wrt (\<lambda>a b. a + minutes 1 \<le> b) (request_ticks (up_log s))"
    and timer: "up_timer s \<noteq> None \<longleftrightarrow> up_rules_loaded s \<and> UpdateConfig_valid (up_config s) \<and>
       up_clients s \<noteq> 0 \<and> \<not> up_updating s"
    by (auto simp: up_inv_def up_core_def up_log_ok_def up_timer_ok_def up_wants_def up_phase_ok_def)
  have "up_updating (up_step L s (UeTimer E)) \<and>
      request_ticks (up_log (up_step L s (UeTimer E))) = request_ticks (up_log s) @ [now_ticks E]"
    if "up_ok s (UeTimer E)"
  proof -
    obtain due where "up_timer s = Some due" "due \<le> now_ticks E"
      using \<open>up_ok s (UeTimer E)\<close> by (auto split: option.splits)
    then have "up_not_before s \<le> now_ticks E" "up_wants s"
      using inv by (auto simp: up_inv_def up_timer_ok_def)
    then show ?thesis
      by (simp add: ScheduledUpdate_def RequestUpdate_def up_wants_def up_emit_def up_post_def up_reset_loader_def)
  qed
  with spaced timer show ?thesis by blast
qed

lemma updates_are_spaced_and_never_stop_witness:
  "request_ticks (up_log (up_step update_lib (up_step update_lib updater_mid install_event)
     (UeTimer (at_ticks 21613000000)))) = [10000000, 21613000000]"
  using updates_are_spaced_and_never_stop [OF updater_full_run(1) updater_full_run(2) [symmetric],
      of "at_ticks 21613000000"]
  unfolding updater_end_eq unfolding updater_mid_eq
  by (simp add: up_env_ok_def at_ticks_def idle_state_def del: up_step.simps)

text \<open>How the answer to a download is handled: it fails, it finishes, or the update goes on.\<close>

lemma answer_cases:
  assumes "up_busy L s"
  shows "(\<exists>r. OnManifest L E body s = RuleUpdater_Fail E r s) \<or>
      (\<exists>u. OnManifest L E body s = RuleUpdater_Finish E u) \<or> up_updating (OnManifest L E body s)"
    and "(\<exists>r. OnPayload E b s = RuleUpdater_Fail E r s) \<or> up_updating (OnPayload E b s)"
    and "(\<exists>r. RuleUpdater_OnInstalled E n i s = RuleUpdater_Fail E r s) \<or>
      (\<exists>u. RuleUpdater_OnInstalled E n i s = RuleUpdater_Finish E u)"
proof -
  have s: "up_reset_loader s = s" "up_updating s"
    using assms by (simp_all add: up_reset_loader_def up_busy_def)
  then have "up_updating (up_emit x (up_post k (s\<lparr>up_manifest_json := j, up_manifest := m, up_loading := True\<rparr>)))"
    for x k j m by (simp add: up_emit_def up_post_def)
  then show "(\<exists>r. OnManifest L E body s = RuleUpdater_Fail E r s) \<or>
      (\<exists>u. OnManifest L E body s = RuleUpdater_Finish E u) \<or> up_updating (OnManifest L E body s)"
    unfolding OnManifest_def s Let_def by (simp split: option.split) blast
  show "(\<exists>r. OnPayload E b s = RuleUpdater_Fail E r s) \<or> up_updating (OnPayload E b s)"
    using s by (cases b) (auto simp: OnPayload_def up_post_def)
  show "(\<exists>r. RuleUpdater_OnInstalled E n i s = RuleUpdater_Fail E r s) \<or>
      (\<exists>u. RuleUpdater_OnInstalled E n i s = RuleUpdater_Finish E u)"
    by (cases i) (auto simp: RuleUpdater_OnInstalled_def)
qed

lemma Finish_reason: "up_reason (RuleUpdater_Finish E u) = []"
  by (simp add: RuleUpdater_Finish_def RuleUpdater_Schedule_def up_emit_def Let_def)

lemma Fail_result:
  assumes "up_busy L s" and "0 \<le> rand_int E 0 60"
  shows "up_rules (RuleUpdater_Fail E r s) = up_rules s" "up_source (RuleUpdater_Fail E r s) = up_source s"
    "watermarks (up_log (RuleUpdater_Fail E r s)) = watermarks (up_log s)"
    "up_failures (RuleUpdater_Fail E r s) = min (up_failures s + 1) 7"
    "up_clients s \<noteq> 0 \<Longrightarrow> \<exists>due. up_timer (RuleUpdater_Fail E r s) = Some due \<and> now_ticks E + minutes 5 \<le> due"
proof -
  let ?n = "min (up_failures s + 1) 7"
  have "1 \<le> ?n" using assms(1) by (simp add: up_busy_def up_core_def up_phase_ok_def)
  then have "minutes 5 \<le> up_backoff E ?n" using assms(2) by (rule up_backoff_min)
  with assms(1) show "up_clients s \<noteq> 0 \<Longrightarrow>
      \<exists>due. up_timer (RuleUpdater_Fail E r s) = Some due \<and> now_ticks E + minutes 5 \<le> due"
    by (simp add: RuleUpdater_Fail_def RuleUpdater_Schedule_def up_emit_def up_busy_def Let_def)
qed (simp_all add: RuleUpdater_Fail_def RuleUpdater_Schedule_def up_emit_def Let_def)

text \<open>C32: An update that fails, at whichever stage and for whatever reason, leaves the rules, their
  source and the watermark as they were, reports the reason, and with clients left is tried
  again no sooner than five minutes later.\<close>

theorem failed_stage_keeps_rules:
  assumes "guarded_run (up_step L) up_ok (RuleUpdater_Impl L pref_sequence pref_digest have_assets) es"
    and "s = foldl (up_step L) (RuleUpdater_Impl L pref_sequence pref_digest have_assets) es"
    and "up_ok s (UeDeliver E n out)" and "\<not> is_init (up_tasks s ! n)"
    and "t = up_step L s (UeDeliver E n out)" and "\<not> up_updating t" and "up_reason t \<noteq> []"
  shows "up_rules t = up_rules s \<and> up_source t = up_source s \<and> up_sequence t = up_sequence s \<and>
    up_digest t = up_digest s \<and> watermarks (up_log t) = watermarks (up_log s) \<and>
    up_failures t = min (up_failures s + 1) 7 \<and>
    (up_clients s \<noteq> 0 \<longrightarrow> (\<exists>due. up_timer t = Some due \<and> now_ticks E + minutes 5 \<le> due))"
proof -
  have inv: "up_inv L s" unfolding assms(2) by (rule up_guarded.inv_run [OF up_inv_init assms(1)])
  then have core: "up_core L s" by (simp add: up_inv_def)
  from up_tasks_single [OF core] assms(3) obtain k where k: "up_tasks s = [k]" "n = 0" by auto
  define b where "b = s\<lparr>up_tasks := [], up_loading := False\<rparr>"
  have init: "\<not> is_init k" and fits: "up_fits k out" and env: "0 \<le> rand_int E 0 60"
    using assms(3,4) k by (simp_all add: up_env_ok_def)
  have busy: "up_busy L b" unfolding b_def by (rule take_update(1) [OF inv k(1) init])
  have "(\<exists>r. t = RuleUpdater_Fail E r b) \<or> (\<exists>u. t = RuleUpdater_Finish E u) \<or> up_updating t"
  proof (cases k)
    case UtManifest
    with fits obtain body where "out = UoBody body" by (cases out) auto
    with UtManifest k answer_cases(1) [OF busy, of E body] show ?thesis
      unfolding assms(5) by (simp add: up_reset_frame b_def)
  next
    case UtPayload
    with fits obtain p where "out = UoPath p" by (cases out) auto
    with UtPayload k answer_cases(2) [OF busy, of E p] show ?thesis
      unfolding assms(5) by (auto simp: up_reset_frame b_def)
  next
    case (UtInstall json m sequence)
    with fits obtain contents written where "out = UoPayload contents written" by (cases out) auto
    moreover have "s\<lparr>up_tasks := []\<rparr> = b"
      using core k UtInstall by (simp add: up_core_def up_tasks_ok_def b_def)
    ultimately show ?thesis
      using UtInstall k answer_cases(3) [OF busy, of E] unfolding assms(5) by (simp, blast)
  qed (use init in simp)
  then obtain r where t: "t = RuleUpdater_Fail E r b" using assms(6,7) by (auto simp: Finish_reason)
  have "up_mark t = up_mark s" unfolding t by (simp add: b_def)
  then show ?thesis
    using Fail_result [OF busy env] unfolding t by (simp add: b_def up_mark_def)
qed

lemma failed_stage_keeps_rules_witness:
  "up_source (up_step update_lib updater_mid (UeDeliver (at_ticks 13000000) 0 (UoPayload None True))) = ''none'' \<and>
   up_failures (up_step update_lib updater_mid (UeDeliver (at_ticks 13000000) 0 (UoPayload None True))) = 1"
proof -
  let ?e = "UeDeliver (at_ticks 13000000) 0 (UoPayload None True)"
  have "up_ok updater_mid ?e" "\<not> is_init (up_tasks updater_mid ! 0)"
    "\<not> up_updating (up_step update_lib updater_mid ?e)" "up_reason (up_step update_lib updater_mid ?e) \<noteq> []"
    unfolding updater_mid_eq
    by (simp_all add: idle_state_def updater_run_simps VerifyAndInstall_def RuleUpdater_OnInstalled_def
        RuleUpdater_Fail_def)
  from failed_stage_keeps_rules [OF updater_run [unfolded updater_start_def]
      updater_mid_def [unfolded updater_start_def] this(1,2) refl this(3,4)]
  show ?thesis unfolding updater_mid_eq by (simp add: idle_state_def del: up_step.simps)
qed

end
