(* ===== verification/Protection_Service.thy ===== *)
theory Protection_Service
  imports Source_Machine Updater_Machine
begin

text \<open>
  \<open>url_protection.cc\<close>: the service of a profile, which answers checks from the local rules,
  the subscriptions and, with consent, the cloud provider. The rule updater and the rule
  sources it observes are part of its state (\<open>None\<close> when the weak pointer is dead); their
  synchronous notifications run its observers. A callback is a number; what the service
  posts, sends and stores is a list of effects.
\<close>

section \<open>State\<close>

record 'u pending =
  pn_url :: 'u
  pn_checked_url :: 'u
  pn_callback :: nat
  pn_result :: "'u result"
  pn_waiting_local :: bool
  pn_waiting_cloud :: bool
  pn_bridge_id :: int
  pn_deadline :: int

record 'u cached =
  ch_result :: "'u result"
  ch_expires :: int

record identity =
  id_protocol :: int
  id_context :: string
  id_revision :: int

record service_report =
  sr_identity :: identity
  sr_enabled :: bool
  sr_provider :: string
  sr_cloud_consent :: bool
  sr_huawei_reason :: string
  sr_incognito :: bool
  sr_huawei_status :: string
  sr_local_status :: string
  sr_rules_version :: string
  sr_rules_updated_at :: "int option"
  sr_rules_expires_at :: "int option"
  sr_updater :: "updater_report option"

datatype 'u ps_effect =
    PsPost nat "'u result"
  | PsCloud string string int
  | PsTimer string int
  | PsCancelCall int
  | PsControlCancel string identity
  | PsControlConfigure service_report
  | PsControlClose identity
  | PsPersist bool string "string list"
  | PsChanged
  | PsSourcesChanged "int option"
  | PsBroadcast service_report

record 'u service =
  ps_off_record :: bool
  ps_enabled :: bool
  ps_consent :: bool
  ps_provider :: string
  ps_exceptions :: "string set"
  ps_context_id :: string
  ps_revision :: int
  ps_cloud_status :: string
  ps_cloud_reason :: string
  ps_rules :: local_rules
  ps_updater :: "'u updater option"
  ps_sources :: "sources option"
  ps_loading :: bool
  ps_rules_acquired :: bool
  ps_pending :: "(string \<times> 'u pending) list"
  ps_cache :: "(string \<times> 'u cached) list"
  ps_log :: "'u ps_effect list"

definition kBudget :: int where "kBudget = millis 1500"
definition kMaxPending :: nat where "kMaxPending = 128"
definition kMaxCached :: nat where "kMaxCached = 256"
definition kMaxExceptions :: nat where "kMaxExceptions = 1000"

definition ps_emit :: "'u ps_effect \<Rightarrow> 'u service \<Rightarrow> 'u service" where
  "ps_emit e s = s\<lparr>ps_log := ps_log s @ [e]\<rparr>"

section \<open>Queries\<close>

definition Unknown :: "'u \<Rightarrow> string \<Rightarrow> 'u result" where
  "Unknown url reason = mk_result kUnknown [] reason url"

definition ValidProvider :: "string \<Rightarrow> bool" where
  "ValidProvider v \<longleftrightarrow> v = ''local'' \<or> v = ''huawei'' \<or> v = ''both''"

definition UsesLocal :: "'u service \<Rightarrow> bool" where
  "UsesLocal s \<longleftrightarrow> ps_enabled s \<and> ps_provider s \<noteq> ''huawei''"

definition UsesCloud :: "'u service \<Rightarrow> bool" where
  "UsesCloud s \<longleftrightarrow> ps_enabled s \<and> ps_provider s \<noteq> ''local'' \<and> ps_consent s"

definition IsSiteEnabled :: "'u lib \<Rightarrow> 'u \<Rightarrow> 'u service \<Rightarrow> bool" where
  "IsSiteEnabled L url s \<longleftrightarrow> origin_serialize L url \<notin> ps_exceptions s"

definition CanSetSiteEnabled :: "bool \<Rightarrow> 'u service \<Rightarrow> bool" where
  "CanSetSiteEnabled modifiable s \<longleftrightarrow> ps_enabled s \<and> (ps_off_record s \<or> modifiable)"

definition sources_ready :: "'u service \<Rightarrow> bool" where
  "sources_ready s \<longleftrightarrow> (case ps_sources s of Some r \<Rightarrow> so_ready r | None \<Rightarrow> True)"

definition sources_usable_now :: "env \<Rightarrow> 'u service \<Rightarrow> bool" where
  "sources_usable_now E s \<longleftrightarrow>
     (case ps_sources s of Some r \<Rightarrow> sources_usable (now E) r | None \<Rightarrow> False)"

definition Identity :: "'u service \<Rightarrow> identity" where
  "Identity s = \<lparr>id_protocol = 1, id_context = ps_context_id s, id_revision = ps_revision s\<rparr>"

definition Service_State :: "env \<Rightarrow> 'u service \<Rightarrow> service_report" where
  "Service_State E s = \<lparr>sr_identity = Identity s, sr_enabled = ps_enabled s,
     sr_provider = ps_provider s, sr_cloud_consent = ps_consent s,
     sr_huawei_reason = ps_cloud_reason s, sr_incognito = ps_off_record s,
     sr_huawei_status = (if \<not> ps_enabled s \<or> ps_provider s = ''local'' then ''disabled''
                         else if \<not> ps_consent s then ''consent_required'' else ps_cloud_status s),
     sr_local_status = (if \<not> UsesLocal s then ''disabled''
                        else if sources_usable_now E s then ''ready''
                        else if ps_sources s \<noteq> None \<and> \<not> sources_ready s then ''loading''
                        else if lr_status (ps_rules s) = ''ready'' \<and>
                                \<not> LocalRules_IsUsable (ps_rules s) (now E) then ''expired''
                        else lr_status (ps_rules s)),
     sr_rules_version = lr_version (ps_rules s),
     sr_rules_updated_at = time_or_none (lr_generated (ps_rules s)),
     sr_rules_expires_at = time_or_none (lr_expires (ps_rules s)),
     sr_updater = map_option RuleUpdater_State (ps_updater s)\<rparr>"

definition sources_match :: "'u lib \<Rightarrow> env \<Rightarrow> 'u \<Rightarrow> 'u service \<Rightarrow> 'u result" where
  "sources_match L E url s = (case ps_sources s of Some r \<Rightarrow> RuleSources_Match L url (now E) r
     | None \<Rightarrow> mk_result kUnknown [] [] (empty_url L))"

definition KnownRisk :: "'u lib \<Rightarrow> env \<Rightarrow> 'u \<Rightarrow> 'u service \<Rightarrow> 'u result" where
  "KnownRisk L E url s =
     (if \<not> IsSiteEnabled L url s then Unknown url ''site_disabled''
      else if UsesLocal s \<and> ps_sources s \<noteq> None \<and> dangerous (sources_match L E url s)
      then sources_match L E url s
      else if UsesLocal s \<and> LocalRules_Matches L (ps_rules s) url (now E)
      then mk_result kPhishing ''local'' ''matched'' url
      else if UsesCloud s
      then (case map_of (ps_cache s) (spec L (CloudCheckUrl L url)) of
              Some c \<Rightarrow> if ch_expires c > now_ticks E \<and> dangerous (ch_result c)
                        then (ch_result c)\<lparr>r_url := url\<rparr> else Unknown url ''not_checked''
            | None \<Rightarrow> Unknown url ''not_checked'')
      else Unknown url ''not_checked'')"

section \<open>Effects on the shell and the preferences\<close>

definition Persist :: "'u service \<Rightarrow> 'u service" where
  "Persist s = (if ps_off_record s then s
     else ps_emit (PsPersist (ps_enabled s) (ps_provider s)
            (sorted_list_of_set (ps_exceptions s))) s)"

definition Broadcast :: "env \<Rightarrow> 'u service \<Rightarrow> 'u service" where
  "Broadcast E s = ps_emit (PsBroadcast (Service_State E s)) s"

definition SendConfigure :: "env \<Rightarrow> 'u service \<Rightarrow> 'u service" where
  "SendConfigure E s = ps_emit (PsControlConfigure (Service_State E s)) s"

section \<open>Completing checks\<close>

definition CancelBridge :: "string \<Rightarrow> 'u pending \<Rightarrow> 'u service \<Rightarrow> 'u service" where
  "CancelBridge i call s =
     (if pn_bridge_id call \<noteq> 0
      then ps_emit (PsControlCancel i (Identity s)) (ps_emit (PsCancelCall (pn_bridge_id call)) s)
      else s)"

fun CancelEach :: "string \<Rightarrow> (string \<times> 'u pending) list \<Rightarrow> 'u service \<Rightarrow> 'u service" where
  "CancelEach reason [] s = s"
| "CancelEach reason ((i, call) # cs) s =
     CancelEach reason cs
       (ps_emit (PsPost (pn_callback call) (Unknown (pn_url call) reason)) (CancelBridge i call s))"

definition CancelAll :: "string \<Rightarrow> 'u service \<Rightarrow> 'u service" where
  "CancelAll reason s = CancelEach reason (ps_pending s) (s\<lparr>ps_pending := []\<rparr>)"

definition MaybeComplete :: "string \<Rightarrow> 'u service \<Rightarrow> 'u service" where
  "MaybeComplete i s =
     (case map_of (ps_pending s) i of None \<Rightarrow> s
      | Some call \<Rightarrow>
        if \<not> dangerous (pn_result call) \<and> (pn_waiting_local call \<or> pn_waiting_cloud call) then s
        else ps_emit (PsPost (pn_callback call) (pn_result call))
               (CancelBridge i call (s\<lparr>ps_pending := om_del i (ps_pending s)\<rparr>)))"

definition put_pending :: "string \<Rightarrow> 'u pending \<Rightarrow> 'u service \<Rightarrow> 'u service" where
  "put_pending i call s = s\<lparr>ps_pending := om_put i call (ps_pending s)\<rparr>"

definition Timeout :: "string \<Rightarrow> 'u service \<Rightarrow> 'u service" where
  "Timeout i s =
     (case map_of (ps_pending s) i of None \<Rightarrow> s
      | Some call \<Rightarrow> MaybeComplete i
          (put_pending i (call\<lparr>pn_waiting_local := False, pn_waiting_cloud := False\<rparr>) s))"

definition Service_Cancel :: "string \<Rightarrow> 'u service \<Rightarrow> 'u service" where
  "Service_Cancel i s =
     (case map_of (ps_pending s) i of None \<Rightarrow> s
      | Some call \<Rightarrow> MaybeComplete i
          (put_pending i (call\<lparr>pn_result := Unknown (pn_url call) ''cancelled'',
             pn_waiting_local := False, pn_waiting_cloud := False\<rparr>) s))"

definition CheckLocal :: "'u lib \<Rightarrow> env \<Rightarrow> 'u service \<Rightarrow> 'u pending \<Rightarrow> 'u pending" where
  "CheckLocal L E s call =
     (if \<not> UsesLocal s then call
      else let subscription = sources_match L E (pn_url call) s
      in if dangerous subscription then call\<lparr>pn_result := subscription\<rparr>
      else if LocalRules_Matches L (ps_rules s) (pn_url call) (now E)
      then call\<lparr>pn_result := mk_result kPhishing ''local'' ''matched'' (pn_url call)\<rparr>
      else if \<not> dangerous (pn_result call) \<and>
              (LocalRules_IsUsable (ps_rules s) (now E) \<or> sources_usable_now E s)
      then call\<lparr>pn_result := mk_result kNoMatch ''local'' ''no_match'' (pn_url call)\<rparr>
      else call)"

section \<open>Observers\<close>

text \<open>
  \<open>OnRules\<close>: first every pending call is checked against the new rules, then each of them
  may complete.
\<close>

definition Recheck :: "'u lib \<Rightarrow> env \<Rightarrow> 'u service \<Rightarrow> (string \<times> 'u pending) list \<Rightarrow> (string \<times> 'u pending) list" where
  "Recheck L E s calls = map (\<lambda>(i, call).
     (i, CheckLocal L E s (call\<lparr>pn_waiting_local := (ps_sources s \<noteq> None \<and> \<not> sources_ready s)\<rparr>))) calls"

definition OnRules :: "'u lib \<Rightarrow> env \<Rightarrow> 'u service \<Rightarrow> 'u service" where
  "OnRules L E s =
     (case ps_updater s of None \<Rightarrow> s
      | Some u \<Rightarrow>
        let s = s\<lparr>ps_rules := up_rules u, ps_loading := (lr_status (up_rules u) = ''loading'')\<rparr>
        in if UsesLocal s \<and> \<not> ps_loading s
           then let s' = s\<lparr>ps_pending := Recheck L E s (ps_pending s)\<rparr>
                in Broadcast E (foldl (\<lambda>s i. MaybeComplete i s) s' (map fst (ps_pending s')))
           else Broadcast E s)"

definition OnSources :: "env \<Rightarrow> bool \<Rightarrow> 'u service \<Rightarrow> 'u service" where
  "OnSources E policy_changed s =
     (let s = (if policy_changed \<and> UsesLocal s
               then let s = CancelAll ''stale_policy'' s;
                        s = s\<lparr>ps_cache := [], ps_revision := ps_revision s + 1\<rparr>
                    in ps_emit PsChanged (SendConfigure E s)
               else s)
      in Broadcast E (ps_emit (PsSourcesChanged (map_option so_revision (ps_sources s))) s))"

text \<open>
  An operation of the updater or of the sources, and the observers its notifications run.
  Every operation notifies after its last change of what the observers decide by; only
  \<open>OnInitialized\<close> schedules the next check after it notifies, so the time of the next check in
  the report that is broadcast then may be here already the one that is scheduled after it.
\<close>

definition up_notifies :: "'u updater \<Rightarrow> 'u updater \<Rightarrow> nat" where
  "up_notifies u u' = length (filter (\<lambda>e. e = UpNotify) (drop (length (up_log u)) (up_log u')))"

definition src_notifies :: "sources \<Rightarrow> sources \<Rightarrow> bool list" where
  "src_notifies r r' = concat (map (\<lambda>e. case e of SrcNotify b \<Rightarrow> [b] | _ \<Rightarrow> [])
     (drop (length (so_log r)) (so_log r')))"

definition with_updater :: "'u lib \<Rightarrow> env \<Rightarrow> ('u updater \<Rightarrow> 'u updater) \<Rightarrow> 'u service \<Rightarrow> 'u service" where
  "with_updater L E f s =
     (case ps_updater s of None \<Rightarrow> s
      | Some u \<Rightarrow> ((OnRules L E) ^^ up_notifies u (f u)) (s\<lparr>ps_updater := Some (f u)\<rparr>))"

definition with_sources :: "env \<Rightarrow> (sources \<Rightarrow> sources) \<Rightarrow> 'u service \<Rightarrow> 'u service" where
  "with_sources E f s =
     (case ps_sources s of None \<Rightarrow> s
      | Some r \<Rightarrow> foldl (\<lambda>s b. OnSources E b s) (s\<lparr>ps_sources := Some (f r)\<rparr>) (src_notifies r (f r)))"

definition EnsureRules :: "'u lib \<Rightarrow> env \<Rightarrow> 'u service \<Rightarrow> 'u service" where
  "EnsureRules L E s =
     (if ps_updater s = None \<or> ps_rules_acquired s then s
      else with_sources E (RuleSources_Acquire E)
             (with_updater L E (RuleUpdater_Acquire E) (s\<lparr>ps_rules_acquired := True\<rparr>)))"

section \<open>Construction and configuration\<close>

fun add_exceptions :: "'u lib \<Rightarrow> string option list \<Rightarrow> string set \<Rightarrow> string set" where
  "add_exceptions L [] xs = xs"
| "add_exceptions L (None # items) xs = add_exceptions L items xs"
| "add_exceptions L (Some item # items) xs =
     (if card xs \<ge> kMaxExceptions then add_exceptions L items xs
      else let url = gurl L item
           in add_exceptions L items
                (if IsPublicHttpUrl L url \<and> origin_serialize L url = item then insert item xs else xs))"

definition Service_Impl ::
  "'u lib \<Rightarrow> env \<Rightarrow> bool \<Rightarrow> dict \<Rightarrow> 'u updater \<Rightarrow> sources \<Rightarrow> 'u service" where
  "Service_Impl L E off_record config u r =
     (let provider = (case find_string config ''provider'' of
            Some p \<Rightarrow> if ValidProvider p then p else ''local'' | None \<Rightarrow> ''local'');
          s = \<lparr>ps_off_record = off_record,
               ps_enabled = (case find_bool config ''enabled'' of Some b \<Rightarrow> b | None \<Rightarrow> False),
               ps_consent = False, ps_provider = provider,
               ps_exceptions = (if off_record then {}
                 else case find_list config ''siteExceptions'' of None \<Rightarrow> {}
                      | Some items \<Rightarrow> add_exceptions L items {}),
               ps_context_id = token E, ps_revision = 1, ps_cloud_status = ''unverified'',
               ps_cloud_reason = [], ps_rules = up_rules u, ps_updater = Some u,
               ps_sources = Some r, ps_loading = (lr_status (up_rules u) = ''loading''),
               ps_rules_acquired = False, ps_pending = [], ps_cache = [], ps_log = []\<rparr>
      in if UsesLocal s then EnsureRules L E s else s)"

text \<open>The destructor drops its subscriptions first, so releasing notifies nobody.\<close>

definition Service_Destroy :: "'u service \<Rightarrow> 'u service" where
  "Service_Destroy s =
     (let s = (if ps_rules_acquired s
               then s\<lparr>ps_updater := map_option RuleUpdater_Release (ps_updater s),
                      ps_sources := map_option RuleSources_Release (ps_sources s)\<rparr>
               else s);
          s = CancelAll ''context_closed'' s
      in ps_emit (PsControlClose (Identity s)) s)"

definition SetSiteEnabled ::
  "'u lib \<Rightarrow> env \<Rightarrow> bool \<Rightarrow> 'u \<Rightarrow> bool \<Rightarrow> 'u service \<Rightarrow> string \<times> 'u service" where
  "SetSiteEnabled L E modifiable url enabled s =
     (if \<not> IsPublicHttpUrl L url then (''invalid_origin'', s)
      else if \<not> CanSetSiteEnabled modifiable s then (''disabled_or_managed'', s)
      else let origin = origin_serialize L url
      in if \<not> enabled \<and> origin \<notin> ps_exceptions s \<and> card (ps_exceptions s) \<ge> kMaxExceptions
         then (''exception_limit'', s)
         else let s = CancelAll ''stale_policy'' s;
                  s = s\<lparr>ps_revision := ps_revision s + 1,
                        ps_exceptions := (if enabled then ps_exceptions s - {origin}
                                          else insert origin (ps_exceptions s)),
                        ps_cache := []\<rparr>
              in ([], Broadcast E (ps_emit PsChanged (SendConfigure E (Persist s)))))"

definition ReleaseRules :: "'u lib \<Rightarrow> env \<Rightarrow> 'u service \<Rightarrow> 'u service" where
  "ReleaseRules L E s =
     (if ps_updater s \<noteq> None \<and> ps_rules_acquired s
      then with_sources E RuleSources_Release
             (with_updater L E RuleUpdater_Release (s\<lparr>ps_rules_acquired := False\<rparr>))
      else s)"

definition Configure ::
  "'u lib \<Rightarrow> env \<Rightarrow> bool \<Rightarrow> dict \<Rightarrow> 'u service \<Rightarrow> string \<times> 'u service" where
  "Configure L E modifiable command s =
     (if find_string command ''contextId'' \<noteq> Some (ps_context_id s) then (''invalid_context'', s)
      else if find_int command ''expectedRevision'' \<noteq> Some (ps_revision s) then (''stale_policy'', s)
      else case (find_bool command ''enabled'', find_bool command ''cloudConsent'',
                 find_string command ''provider'') of
        (Some enabled, Some consent, Some provider) \<Rightarrow>
          if \<not> ValidProvider provider then (''invalid_request'', s)
          else if \<not> ps_off_record s \<and> \<not> modifiable then (''managed'', s)
          else let s = CancelAll ''stale_policy'' s;
                   s = s\<lparr>ps_revision := ps_revision s + 1, ps_enabled := enabled,
                         ps_provider := provider,
                         ps_consent := (enabled \<and> provider \<noteq> ''local'' \<and> consent),
                         ps_cache := [], ps_cloud_status := ''unverified'', ps_cloud_reason := []\<rparr>;
                   s = Persist s;
                   s = (if UsesLocal s then EnsureRules L E s else ReleaseRules L E s)
               in ([], Broadcast E (ps_emit PsChanged (SendConfigure E s)))
      | _ \<Rightarrow> (''invalid_request'', s))"

section \<open>Checks\<close>

definition new_call :: "'u lib \<Rightarrow> env \<Rightarrow> 'u \<Rightarrow> int \<Rightarrow> nat \<Rightarrow> 'u service \<Rightarrow> 'u pending" where
  "new_call L E url timeout cb s =
     (let call = \<lparr>pn_url = url, pn_checked_url = empty_url L, pn_callback = cb,
                  pn_result = Unknown url ''unavailable'', pn_waiting_local = False,
                  pn_waiting_cloud = False, pn_bridge_id = 0,
                  pn_deadline = now_ticks E + timeout\<rparr>;
          call = (if UsesLocal s
                  then CheckLocal L E s (call\<lparr>pn_waiting_local :=
                    (ps_loading s \<or> (ps_sources s \<noteq> None \<and> \<not> sources_ready s))\<rparr>)
                  else call);
          call = call\<lparr>pn_checked_url := CloudCheckUrl L url\<rparr>
      in if \<not> dangerous (pn_result call) \<and> UsesCloud s \<and> url_is_valid L (pn_checked_url call)
         then (case map_of (ps_cache s) (spec L (pn_checked_url call)) of
                 Some c \<Rightarrow> if ch_expires c > now_ticks E
                           then call\<lparr>pn_result := (ch_result c)\<lparr>r_url := url\<rparr>\<rparr>
                           else call\<lparr>pn_waiting_cloud := True\<rparr>
               | None \<Rightarrow> call\<lparr>pn_waiting_cloud := True\<rparr>)
         else call)"

text \<open>
  \<open>AskCloud\<close>: the call of the system service; \<open>bridge\<close> is the id it returns.
  \<open>PsTimer\<close> is the delayed task that runs \<open>Timeout\<close>.
\<close>

definition AskCloud :: "'u lib \<Rightarrow> string \<Rightarrow> int \<Rightarrow> int \<Rightarrow> 'u service \<Rightarrow> 'u service" where
  "AskCloud L i timeout bridge s =
     (case map_of (ps_pending s) i of None \<Rightarrow> s
      | Some call \<Rightarrow>
        if pn_waiting_cloud call
        then ps_emit (PsCloud i (spec L (pn_checked_url call)) (timeout div 1000))
               (put_pending i (call\<lparr>pn_bridge_id := bridge\<rparr>) s)
        else s)"

definition Check ::
  "'u lib \<Rightarrow> env \<Rightarrow> 'u \<Rightarrow> int \<Rightarrow> nat \<Rightarrow> int \<Rightarrow> 'u service \<Rightarrow> string \<times> 'u service" where
  "Check L E url timeout cb bridge s =
     (if \<not> IsSiteEnabled L url s then ([], ps_emit (PsPost cb (Unknown url ''site_disabled'')) s)
      else let known = KnownRisk L E url s
      in if dangerous known then ([], ps_emit (PsPost cb known) s)
      else if \<not> ps_enabled s \<or> \<not> IsPublicHttpUrl L url \<or> timeout \<le> 0 \<or>
              length (ps_pending s) \<ge> kMaxPending
      then ([], ps_emit (PsPost cb (Unknown url ''not_checked'')) s)
      else let timeout = min timeout kBudget; i = token E;
               s = (if UsesLocal s then EnsureRules L E s else s);
               call = new_call L E url timeout cb s;
               s = (if i \<in> fst ` set (ps_pending s) then s else put_pending i call s)
           in (i, MaybeComplete i (ps_emit (PsTimer i timeout) (AskCloud L i timeout bridge s))))"

record cloud_reply =
  cr_ok :: bool
  cr_data :: dict

definition kReasons :: "string list" where
  "kReasons = [''consent_required'', ''disabled'', ''stale_policy'', ''unsupported'',
     ''permission_denied'', ''invalid_request'', ''network_unavailable'', ''cloud_unavailable'',
     ''concurrency_limited'', ''rate_limited'', ''timeout'', ''cloud_quota_exceeded'',
     ''internal_error'', ''cancelled'', ''context_closed'', ''unsupported_protocol'',
     ''unsupported_query_mode'', ''invalid_response'']"

definition ValidIdentity :: "string \<Rightarrow> int \<Rightarrow> cloud_reply \<Rightarrow> 'u service \<Rightarrow> bool" where
  "ValidIdentity i revision reply s \<longleftrightarrow> cr_ok reply \<and>
     find_int (cr_data reply) ''protocolVersion'' = Some 1 \<and>
     find_int (cr_data reply) ''policyRevision'' = Some revision \<and>
     find_string (cr_data reply) ''requestId'' = Some i \<and>
     find_string (cr_data reply) ''contextId'' = Some (ps_context_id s)"

definition CloudVerdict :: "string option \<Rightarrow> verdict" where
  "CloudVerdict v = (if v = Some ''phishing'' then kPhishing else if v = Some ''malware'' then kMalware
     else if v = Some ''no_match'' then kNoMatch else if v = Some ''other'' then kOther else kUnknown)"

definition CloudResult :: "'u lib \<Rightarrow> string \<Rightarrow> int \<Rightarrow> cloud_reply \<Rightarrow> 'u pending \<Rightarrow> 'u service \<Rightarrow> 'u result" where
  "CloudResult L i revision reply call s =
     (let cloud = (Unknown (pn_url call) ''unavailable'')\<lparr>r_source := ''huawei''\<rparr>
      in if ValidIdentity i revision reply s \<and>
            find_string (cr_data reply) ''checkedUrl'' = Some (spec L (pn_checked_url call))
         then let cloud = cloud\<lparr>r_verdict := CloudVerdict (find_string (cr_data reply) ''verdict'')\<rparr>
              in if r_verdict cloud \<noteq> kUnknown
                 then cloud\<lparr>r_reason := (if dangerous cloud then ''matched''
                        else if r_verdict cloud = kOther then ''other_category'' else ''no_match'')\<rparr>
                 else cloud
         else cloud)"

definition cache_put :: "string \<Rightarrow> 'u cached \<Rightarrow> (string \<times> 'u cached) list \<Rightarrow> (string \<times> 'u cached) list" where
  "cache_put k c xs = om_put k c (if length xs \<ge> kMaxCached then tl xs else xs)"

definition OnCloud ::
  "'u lib \<Rightarrow> env \<Rightarrow> string \<Rightarrow> int \<Rightarrow> cloud_reply \<Rightarrow> 'u service \<Rightarrow> 'u service" where
  "OnCloud L E i revision reply s =
     (case map_of (ps_pending s) i of None \<Rightarrow> s
      | Some call \<Rightarrow>
        if revision \<noteq> ps_revision s then s
        else let call = call\<lparr>pn_waiting_cloud := False, pn_bridge_id := 0\<rparr>;
                 cloud = CloudResult L i revision reply call s;
                 reason = (case find_string (cr_data reply) ''reason'' of
                     Some r \<Rightarrow> if ValidIdentity i revision reply s \<and> r \<in> set kReasons then r
                               else ''unavailable''
                   | None \<Rightarrow> ''unavailable'');
                 s = s\<lparr>ps_cloud_reason := reason\<rparr>;
                 s = (if r_verdict cloud \<noteq> kUnknown
                      then (put_pending i
                             (if \<not> dangerous (pn_result call) \<and>
                                 (dangerous cloud \<or> r_verdict (pn_result call) = kUnknown)
                              then call\<lparr>pn_result := cloud\<rparr> else call) s)
                             \<lparr>ps_cloud_status := ''available'', ps_cloud_reason := [],
                              ps_cache := cache_put (spec L (pn_checked_url call))
                                \<lparr>ch_result = cloud, ch_expires = now_ticks E +
                                   minutes (if dangerous cloud then 30 else 5)\<rparr> (ps_cache s)\<rparr>
                      else (put_pending i call s)\<lparr>ps_cloud_status := ''unavailable''\<rparr>)
             in Broadcast E (MaybeComplete i s))"

section \<open>Commands of the shell\<close>

definition UpdateRules :: "'u lib \<Rightarrow> env \<Rightarrow> dict \<Rightarrow> 'u service \<Rightarrow> string \<times> 'u service" where
  "UpdateRules L E command s =
     (if find_string command ''contextId'' \<noteq> Some (ps_context_id s) then (''invalid_context'', s)
      else if find_int command ''expectedRevision'' \<noteq> Some (ps_revision s) then (''stale_policy'', s)
      else if \<not> UsesLocal s then (''disabled'', s)
      else case ps_updater s of None \<Rightarrow> (''unavailable'', s)
      | Some u \<Rightarrow> (fst (RequestUpdate E u), with_updater L E (\<lambda>u. snd (RequestUpdate E u)) s))"

text \<open>The command that \<open>SetLegacyEnabled\<close> makes of the state.\<close>

definition legacy_command :: "bool \<Rightarrow> 'u service \<Rightarrow> dict" where
  "legacy_command enabled s = empty_dict\<lparr>
     find_string := (\<lambda>k. if k = ''contextId'' then Some (ps_context_id s) else
                         if k = ''provider'' then Some (ps_provider s) else None),
     find_int := (\<lambda>k. if k = ''expectedRevision'' then Some (ps_revision s) else None),
     find_bool := (\<lambda>k. if k = ''enabled'' then Some enabled else
                       if k = ''cloudConsent'' then Some False else None)\<rparr>"

definition SetLegacyEnabled :: "'u lib \<Rightarrow> env \<Rightarrow> bool \<Rightarrow> bool \<Rightarrow> 'u service \<Rightarrow> 'u service" where
  "SetLegacyEnabled L E modifiable enabled s =
     snd (Configure L E modifiable (legacy_command enabled s) s)"

record command_reply =
  cm_event :: string
  cm_ok :: "bool option"
  cm_reason :: "string option"
  cm_state :: service_report

definition HandleCommand ::
  "'u lib \<Rightarrow> env \<Rightarrow> bool \<Rightarrow> string \<Rightarrow> dict \<Rightarrow> 'u service \<Rightarrow> command_reply option \<times> 'u service" where
  "HandleCommand L E modifiable name command s =
     (if name = ''setUrlProtectionConfig'' then
        (case Configure L E modifiable command s of (reason, s') \<Rightarrow>
           (Some \<lparr>cm_event = ''urlProtectionConfigResult'', cm_ok = Some (reason = []),
                  cm_reason = Some reason, cm_state = Service_State E s'\<rparr>, s'))
      else if name = ''getUrlProtectionState'' then
        (Some \<lparr>cm_event = ''urlProtectionState'', cm_ok = None, cm_reason = None,
               cm_state = Service_State E s\<rparr>, s)
      else if name = ''updateUrlProtectionRules'' then
        (case UpdateRules L E command s of (reason, s') \<Rightarrow>
           (Some \<lparr>cm_event = ''urlProtectionRulesUpdateResult'',
                  cm_ok = Some (reason = [] \<or> reason = ''already_updating''),
                  cm_reason = Some reason, cm_state = Service_State E s'\<rparr>, s'))
      else (None, s))"

end
