(* ===== verification/Service_Machine.thy ===== *)
theory Service_Machine
  imports Protection_Service
begin

text \<open>
  The service as a machine, and its invariant: what is pending is waiting for something and
  was asked for under the present policy, the tables are bounded, consent implies a cloud
  provider, the cloud only ever saw cleaned URLs, and the rule updater and the sources it
  holds keep their own invariants. \<open>tickets\<close> counts, for a callback, how often it was
  posted or is pending.
\<close>

section \<open>The machine\<close>

datatype 'u ps_event =
    PvCheck env 'u int nat int
  | PvCloud env string int cloud_reply
  | PvTimeout string
  | PvCancel string
  | PvConfigure env bool dict
  | PvLegacy env bool bool
  | PvSite env bool 'u bool
  | PvUpdateRules env dict
  | PvUpdater env up_event
  | PvSources env src_event
  | PvUpdaterGone
  | PvSourcesGone

fun ps_step :: "'u lib \<Rightarrow> 'u service \<Rightarrow> 'u ps_event \<Rightarrow> 'u service" where
  "ps_step L s (PvCheck E url timeout cb bridge) = snd (Check L E url timeout cb bridge s)"
| "ps_step L s (PvCloud E i revision reply) = OnCloud L E i revision reply s"
| "ps_step L s (PvTimeout i) = Timeout i s"
| "ps_step L s (PvCancel i) = Service_Cancel i s"
| "ps_step L s (PvConfigure E modifiable command) = snd (Configure L E modifiable command s)"
| "ps_step L s (PvLegacy E modifiable enabled) = SetLegacyEnabled L E modifiable enabled s"
| "ps_step L s (PvSite E modifiable url enabled) = snd (SetSiteEnabled L E modifiable url enabled s)"
| "ps_step L s (PvUpdateRules E command) = snd (UpdateRules L E command s)"
| "ps_step L s (PvUpdater E e) = with_updater L E (\<lambda>u. up_step L u e) s"
| "ps_step L s (PvSources E e) = with_sources E (\<lambda>r. src_step L r e) s"
| "ps_step L s PvUpdaterGone = s\<lparr>ps_updater := None\<rparr>"
| "ps_step L s PvSourcesGone = s\<lparr>ps_sources := None\<rparr>"

text \<open>
  A fresh request id is not one that is pending, and the components' own environments
  behave.
\<close>

fun ps_ok :: "'u service \<Rightarrow> 'u ps_event \<Rightarrow> bool" where
  "ps_ok s (PvCheck E url timeout cb bridge) = (token E \<notin> fst ` set (ps_pending s))"
| "ps_ok s (PvUpdateRules E command) =
     (case ps_updater s of None \<Rightarrow> True | Some u \<Rightarrow> up_env_ok u E)"
| "ps_ok s (PvUpdater E e) = (case ps_updater s of None \<Rightarrow> True | Some u \<Rightarrow> up_ok u e)"
| "ps_ok s (PvSources E e) = (case ps_sources s of None \<Rightarrow> True | Some r \<Rightarrow> src_ok r e)"
| "ps_ok s _ = True"

section \<open>The invariant\<close>

text \<open>What holds of a pending call at all times, and of an open one between the steps.\<close>

definition call_ok :: "'u lib \<Rightarrow> 'u service \<Rightarrow> 'u pending \<Rightarrow> bool" where
  "call_ok L s c \<longleftrightarrow> r_url (pn_result c) = pn_url c \<and> pn_checked_url c = CloudCheckUrl L (pn_url c) \<and>
     (pn_waiting_cloud c \<longrightarrow> UsesCloud s) \<and> (pn_bridge_id c \<noteq> 0 \<longrightarrow> UsesCloud s)"

definition call_open :: "'u pending \<Rightarrow> bool" where
  "call_open c \<longleftrightarrow> \<not> dangerous (pn_result c) \<and> (pn_waiting_local c \<or> pn_waiting_cloud c)"

definition all_open :: "'u service \<Rightarrow> bool" where
  "all_open s \<longleftrightarrow> (\<forall>p \<in> set (ps_pending s). call_open (snd p))"

fun effect_ok :: "'u lib \<Rightarrow> 'u ps_effect \<Rightarrow> bool" where
  "effect_ok L (PsCloud i u t) =
     (\<exists>url. u = spec L (CloudCheckUrl L url) \<and> url_is_valid L (CloudCheckUrl L url))"
| "effect_ok L _ = True"

definition cloud_ok :: "'u lib \<Rightarrow> 'u ps_effect list \<Rightarrow> bool" where
  "cloud_ok L l \<longleftrightarrow> list_all (effect_ok L) l"

definition parts_ok :: "'u lib \<Rightarrow> 'u service \<Rightarrow> bool" where
  "parts_ok L s \<longleftrightarrow> (\<forall>u. ps_updater s = Some u \<longrightarrow> up_inv L u) \<and>
     (\<forall>r. ps_sources s = Some r \<longrightarrow> src_inv L r)"

definition policy_ok :: "'u service \<Rightarrow> bool" where
  "policy_ok s \<longleftrightarrow> finite (ps_exceptions s) \<and> card (ps_exceptions s) \<le> kMaxExceptions \<and>
     (ps_consent s \<longrightarrow> ps_enabled s \<and> ps_provider s \<noteq> ''local'')"

definition tables_ok :: "'u lib \<Rightarrow> 'u service \<Rightarrow> bool" where
  "tables_ok L s \<longleftrightarrow> om_ok (ps_pending s) \<and> length (ps_pending s) \<le> kMaxPending \<and>
     (\<forall>p \<in> set (ps_pending s). call_ok L s (snd p)) \<and>
     om_ok (ps_cache s) \<and> length (ps_cache s) \<le> kMaxCached"

definition ps_pre :: "'u lib \<Rightarrow> 'u service \<Rightarrow> bool" where
  "ps_pre L s \<longleftrightarrow> tables_ok L s \<and> policy_ok s \<and> cloud_ok L (ps_log s) \<and> parts_ok L s"

definition ps_inv :: "'u lib \<Rightarrow> 'u service \<Rightarrow> bool" where
  "ps_inv L s \<longleftrightarrow> ps_pre L s \<and> all_open s"

definition posted :: "'u ps_effect list \<Rightarrow> nat list" where
  "posted l = concat (map (\<lambda>e. case e of PsPost cb r \<Rightarrow> [cb] | _ \<Rightarrow> []) l)"

definition waits_for :: "nat \<Rightarrow> 'u pending \<Rightarrow> nat" where
  "waits_for cb c = (if pn_callback c = cb then 1 else 0)"

definition tickets :: "'u service \<Rightarrow> nat \<Rightarrow> nat" where
  "tickets s cb = count_list (posted (ps_log s)) cb + om_sum (waits_for cb) (ps_pending s)"

text \<open>The parts of the state that only a change of policy touches.\<close>

definition ps_conf :: "'u service \<Rightarrow> bool \<times> bool \<times> bool \<times> string \<times> string set \<times> string" where
  "ps_conf s = (ps_off_record s, ps_enabled s, ps_consent s, ps_provider s, ps_exceptions s,
     ps_context_id s)"

section \<open>Effects\<close>

fun quiet :: "'u ps_effect \<Rightarrow> bool" where
  "quiet (PsPost cb r) = False"
| "quiet (PsCloud i u t) = False"
| "quiet _ = True"

lemma call_ok_cong:
  "ps_enabled s' = ps_enabled s \<Longrightarrow> ps_consent s' = ps_consent s \<Longrightarrow> ps_provider s' = ps_provider s \<Longrightarrow>
   call_ok L s' c = call_ok L s c"
  by (simp add: call_ok_def UsesCloud_def)

lemma emit_frame [simp]:
  "ps_conf (ps_emit e s) = ps_conf s" "ps_pending (ps_emit e s) = ps_pending s"
  "ps_cache (ps_emit e s) = ps_cache s" "ps_updater (ps_emit e s) = ps_updater s"
  "ps_sources (ps_emit e s) = ps_sources s" "ps_revision (ps_emit e s) = ps_revision s"
  "ps_enabled (ps_emit e s) = ps_enabled s" "ps_consent (ps_emit e s) = ps_consent s"
  "ps_provider (ps_emit e s) = ps_provider s" "ps_exceptions (ps_emit e s) = ps_exceptions s"
  "ps_rules (ps_emit e s) = ps_rules s" "ps_log (ps_emit e s) = ps_log s @ [e]"
  "all_open (ps_emit e s) = all_open s"
  by (simp_all add: ps_emit_def ps_conf_def all_open_def)

lemma call_ok_emit [simp]: "call_ok L (ps_emit e s) c = call_ok L s c"
  by (rule call_ok_cong) simp_all

lemma ps_pre_emit: "effect_ok L e \<Longrightarrow> ps_pre L (ps_emit e s) = ps_pre L s"
  by (simp add: ps_pre_def tables_ok_def policy_ok_def parts_ok_def cloud_ok_def)

lemma quiet_effect: "quiet e \<Longrightarrow> effect_ok L e"
  by (cases e) simp_all

lemma conf_frame [simp]:
  "ps_conf (s\<lparr>ps_pending := x\<rparr>) = ps_conf s" "ps_conf (s\<lparr>ps_cache := c\<rparr>) = ps_conf s"
  "ps_conf (s\<lparr>ps_revision := n\<rparr>) = ps_conf s" "ps_conf (s\<lparr>ps_updater := u\<rparr>) = ps_conf s"
  "ps_conf (s\<lparr>ps_sources := r\<rparr>) = ps_conf s" "ps_conf (s\<lparr>ps_rules := ru\<rparr>) = ps_conf s"
  "ps_conf (s\<lparr>ps_loading := b\<rparr>) = ps_conf s" "ps_conf (s\<lparr>ps_rules_acquired := b\<rparr>) = ps_conf s"
  "ps_conf (s\<lparr>ps_cloud_reason := r'\<rparr>) = ps_conf s" "ps_conf (s\<lparr>ps_cloud_status := r'\<rparr>) = ps_conf s"
  by (simp_all add: ps_conf_def)

lemma tickets_emit [simp]: "quiet e \<Longrightarrow> tickets (ps_emit e s) cb = tickets s cb"
  by (cases e) (simp_all add: tickets_def posted_def)

lemma tickets_post [simp]:
  "tickets (ps_emit (PsPost cb' r) s) cb = tickets s cb + (if cb' = cb then 1 else 0)"
  by (simp add: tickets_def posted_def)

lemma quiet_pre [simp]: "quiet e \<Longrightarrow> ps_pre L (ps_emit e s) = ps_pre L s"
  by (rule ps_pre_emit) (rule quiet_effect)

lemma post_pre [simp]: "ps_pre L (ps_emit (PsPost cb r) s) = ps_pre L s"
  by (rule ps_pre_emit) simp

text \<open>Operations that only add quiet effects.\<close>

lemma quiet_ops [simp]:
  "ps_pre L (Broadcast E s) = ps_pre L s" "tickets (Broadcast E s) cb = tickets s cb"
  "all_open (Broadcast E s) = all_open s" "ps_conf (Broadcast E s) = ps_conf s"
  "ps_pre L (SendConfigure E s) = ps_pre L s" "tickets (SendConfigure E s) cb = tickets s cb"
  "all_open (SendConfigure E s) = all_open s" "ps_conf (SendConfigure E s) = ps_conf s"
  "ps_pre L (Persist s) = ps_pre L s" "tickets (Persist s) cb = tickets s cb"
  "all_open (Persist s) = all_open s" "ps_conf (Persist s) = ps_conf s"
  "ps_pre L (CancelBridge i c s) = ps_pre L s" "tickets (CancelBridge i c s) cb = tickets s cb"
  "all_open (CancelBridge i c s) = all_open s" "ps_conf (CancelBridge i c s) = ps_conf s"
  by (simp_all add: Broadcast_def SendConfigure_def Persist_def CancelBridge_def)

lemma quiet_frame [simp]:
  "ps_pending (Broadcast E s) = ps_pending s" "ps_pending (SendConfigure E s) = ps_pending s"
  "ps_pending (Persist s) = ps_pending s" "ps_pending (CancelBridge i c s) = ps_pending s"
  "ps_updater (Broadcast E s) = ps_updater s" "ps_sources (Broadcast E s) = ps_sources s"
  "ps_updater (SendConfigure E s) = ps_updater s" "ps_sources (SendConfigure E s) = ps_sources s"
  "ps_updater (CancelBridge i c s) = ps_updater s" "ps_sources (CancelBridge i c s) = ps_sources s"
  "ps_updater (Persist s) = ps_updater s" "ps_sources (Persist s) = ps_sources s"
  "ps_revision (Broadcast E s) = ps_revision s" "ps_revision (Persist s) = ps_revision s"
  "ps_revision (CancelBridge i c s) = ps_revision s" "ps_revision (SendConfigure E s) = ps_revision s"
  by (simp_all add: Broadcast_def SendConfigure_def Persist_def CancelBridge_def)

lemma tables_cong:
  assumes "ps_pending s' = ps_pending s" "ps_cache s' = ps_cache s" "ps_conf s' = ps_conf s"
  shows "tables_ok L s' = tables_ok L s"
  using assms call_ok_cong [of s' s L] by (simp add: tables_ok_def ps_conf_def)

lemma policy_cong: "ps_conf s' = ps_conf s \<Longrightarrow> policy_ok s' = policy_ok s"
  by (simp add: policy_ok_def ps_conf_def)

section \<open>Completing and cancelling\<close>

lemma tables_del:
  assumes "tables_ok L s"
  shows "tables_ok L (s\<lparr>ps_pending := om_del i (ps_pending s)\<rparr>)"
proof -
  have "call_ok L (s\<lparr>ps_pending := om_del i (ps_pending s)\<rparr>) c = call_ok L s c" for c
    by (rule call_ok_cong) simp_all
  then show ?thesis
    using assms om_set_del [of i "ps_pending s"] om_length_del_le [of i "ps_pending s"]
    by (auto simp: tables_ok_def)
qed

lemma ps_pre_del: "ps_pre L s \<Longrightarrow> ps_pre L (s\<lparr>ps_pending := om_del i (ps_pending s)\<rparr>)"
  using tables_del [of L s i] by (auto simp: ps_pre_def policy_ok_def parts_ok_def)

lemma MaybeComplete_frame [simp]:
  "ps_conf (MaybeComplete i s) = ps_conf s" "ps_revision (MaybeComplete i s) = ps_revision s"
  "ps_updater (MaybeComplete i s) = ps_updater s" "ps_sources (MaybeComplete i s) = ps_sources s"
  by (simp_all add: MaybeComplete_def CancelBridge_def split: option.split)

lemma MaybeComplete_pre: "ps_pre L s \<Longrightarrow> ps_pre L (MaybeComplete i s)"
  by (auto simp: MaybeComplete_def ps_pre_del split: option.split)

lemma MaybeComplete_pending:
  "ps_pending (MaybeComplete i s) =
     (case map_of (ps_pending s) i of None \<Rightarrow> ps_pending s
      | Some c \<Rightarrow> if call_open c then ps_pending s else om_del i (ps_pending s))"
  by (auto simp: MaybeComplete_def call_open_def split: option.split)

lemma MaybeComplete_tickets:
  assumes "ps_pre L s"
  shows "tickets (MaybeComplete i s) cb = tickets s cb"
proof (cases "map_of (ps_pending s) i")
  case None
  then show ?thesis by (simp add: MaybeComplete_def)
next
  case (Some c)
  have "om_sum (waits_for cb) (ps_pending s) =
      waits_for cb c + om_sum (waits_for cb) (om_del i (ps_pending s))"
    using assms Some by (intro om_sum_old) (auto simp: ps_pre_def tables_ok_def)
  with Some show ?thesis
    by (simp add: MaybeComplete_def tickets_def waits_for_def CancelBridge_def posted_def)
qed

text \<open>Completing every call that can leaves only open ones.\<close>

lemma MaybeComplete_all:
  assumes "ps_pre L s" and "\<forall>p \<in> set (ps_pending s). call_open (snd p) \<or> fst p \<in> set ids"
  shows "ps_inv L (foldl (\<lambda>s i. MaybeComplete i s) s ids) \<and>
    ps_conf (foldl (\<lambda>s i. MaybeComplete i s) s ids) = ps_conf s \<and>
    (\<forall>cb. tickets (foldl (\<lambda>s i. MaybeComplete i s) s ids) cb = tickets s cb)"
  using assms
proof (induction ids arbitrary: s)
  case Nil
  then show ?case by (auto simp: ps_inv_def all_open_def)
next
  case (Cons i ids)
  have "call_open (snd p) \<or> fst p \<in> set ids" if "p \<in> set (ps_pending (MaybeComplete i s))" for p
  proof -
    have "om_ok (ps_pending s)" using Cons.prems(1) by (simp add: ps_pre_def tables_ok_def)
    then have look: "map_of (ps_pending s) (fst q) = Some (snd q)" if "q \<in> set (ps_pending s)" for q
      using that by (simp add: om_lookup_in)
    have p: "p \<in> set (ps_pending s)"
      using that om_set_del [of i "ps_pending s"]
      by (auto simp: MaybeComplete_pending split: option.splits if_splits)
    show ?thesis
    proof (cases "fst p = i")
      case False
      with p Cons.prems(2) show ?thesis by auto
    next
      case True
      with that look [OF p] show ?thesis
        by (auto simp: MaybeComplete_pending om_del_def split: if_splits)
    qed
  qed
  then show ?case
    using Cons.IH [OF MaybeComplete_pre [OF Cons.prems(1)]] MaybeComplete_tickets [OF Cons.prems(1)]
    by simp
qed

lemma MaybeComplete_inv:
  assumes "ps_pre L s" and "\<forall>p \<in> set (ps_pending s). call_open (snd p) \<or> fst p = i"
  shows "ps_inv L (MaybeComplete i s)"
  using MaybeComplete_all [OF assms(1), of "[i]"] assms(2) by simp

lemma CancelEach_frame [simp]:
  "ps_conf (CancelEach reason cs s) = ps_conf s" "ps_pending (CancelEach reason cs s) = ps_pending s"
  "ps_revision (CancelEach reason cs s) = ps_revision s" "ps_pre L (CancelEach reason cs s) = ps_pre L s"
  "ps_updater (CancelEach reason cs s) = ps_updater s" "ps_sources (CancelEach reason cs s) = ps_sources s"
  by (induction reason cs s rule: CancelEach.induct) simp_all

lemma CancelEach_tickets:
  "tickets (CancelEach reason cs s) cb = tickets s cb + om_sum (waits_for cb) cs"
  by (induction reason cs s rule: CancelEach.induct) (simp_all add: om_sum_def waits_for_def)

lemma CancelAll_frame [simp]:
  "ps_conf (CancelAll reason s) = ps_conf s" "ps_pending (CancelAll reason s) = []"
  "ps_revision (CancelAll reason s) = ps_revision s"
  "ps_updater (CancelAll reason s) = ps_updater s" "ps_sources (CancelAll reason s) = ps_sources s"
  by (simp_all add: CancelAll_def)

lemma CancelAll_inv: "ps_pre L s \<Longrightarrow> ps_inv L (CancelAll reason s)"
proof -
  assume "ps_pre L s"
  then have "ps_pre L (s\<lparr>ps_pending := []\<rparr>)"
    by (simp add: ps_pre_def tables_ok_def policy_ok_def parts_ok_def)
  then show ?thesis by (simp add: CancelAll_def ps_inv_def all_open_def)
qed

lemma CancelAll_tickets [simp]: "tickets (CancelAll reason s) cb = tickets s cb"
  by (simp add: CancelAll_def CancelEach_tickets) (simp add: tickets_def om_sum_def)

section \<open>Observers\<close>

lemma Match_url [simp]: "r_url (RuleSources_Match L url t r) = url"
proof -
  have "r_url (MatchLoop L url t es q) = r_url q" for es q
    by (induction L url t es q rule: MatchLoop.induct) auto
  then show ?thesis by (simp add: RuleSources_Match_def mk_result_def)
qed

lemma CheckLocal_frame [simp]:
  "pn_url (CheckLocal L E s c) = pn_url c" "pn_checked_url (CheckLocal L E s c) = pn_checked_url c"
  "pn_waiting_cloud (CheckLocal L E s c) = pn_waiting_cloud c"
  "pn_waiting_local (CheckLocal L E s c) = pn_waiting_local c"
  "pn_bridge_id (CheckLocal L E s c) = pn_bridge_id c" "pn_callback (CheckLocal L E s c) = pn_callback c"
  by (simp_all add: CheckLocal_def Let_def)

lemma sources_match_url: "dangerous (sources_match L E url s) \<Longrightarrow> r_url (sources_match L E url s) = url"
  by (auto simp: sources_match_def dangerous_def mk_result_def split: option.splits)

lemma CheckLocal_url: "r_url (pn_result c) = pn_url c \<Longrightarrow> r_url (pn_result (CheckLocal L E s c)) = pn_url c"
  by (simp add: CheckLocal_def Let_def sources_match_url mk_result_def)

lemma CheckLocal_ok: "call_ok L s c \<Longrightarrow> call_ok L s (CheckLocal L E s' c)"
  by (simp add: call_ok_def CheckLocal_url)

lemma Recheck_keys [simp]: "map fst (Recheck L E s calls) = map fst calls"
  by (induction calls) (auto simp: Recheck_def)

lemma Recheck_length [simp]: "length (Recheck L E s calls) = length calls"
  by (simp add: Recheck_def)

lemma Recheck_sum: "om_sum (waits_for cb) (Recheck L E s calls) = om_sum (waits_for cb) calls"
  by (induction calls) (auto simp: Recheck_def om_sum_def waits_for_def)

lemma Recheck_ok: "\<forall>p \<in> set calls. call_ok L s (snd p) \<Longrightarrow>
    p \<in> set (Recheck L E s calls) \<Longrightarrow> call_ok L s (snd p)"
proof -
  assume all: "\<forall>p \<in> set calls. call_ok L s (snd p)" and "p \<in> set (Recheck L E s calls)"
  then obtain i c where c: "(i, c) \<in> set calls" and p: "p = (i, CheckLocal L E s
      (c\<lparr>pn_waiting_local := (ps_sources s \<noteq> None \<and> \<not> sources_ready s)\<rparr>))"
    by (auto simp: Recheck_def)
  from all c have "call_ok L s (c\<lparr>pn_waiting_local := b\<rparr>)" for b by (auto simp: call_ok_def)
  then show ?thesis unfolding p by (simp add: CheckLocal_ok)
qed

lemma ps_pre_rules [simp]:
  "ps_pre L (s\<lparr>ps_rules := r\<rparr>) = ps_pre L s" "ps_pre L (s\<lparr>ps_loading := b\<rparr>) = ps_pre L s"
  "ps_pre L (s\<lparr>ps_rules_acquired := b\<rparr>) = ps_pre L s"
  "ps_pre L (s\<lparr>ps_revision := n\<rparr>) = ps_pre L s"
  "ps_pre L (s\<lparr>ps_cloud_reason := r'\<rparr>) = ps_pre L s"
  "ps_pre L (s\<lparr>ps_cloud_status := r'\<rparr>) = ps_pre L s"
  by (simp_all add: ps_pre_def tables_ok_def policy_ok_def parts_ok_def call_ok_def UsesCloud_def)

lemma ps_inv_rules [simp]:
  "ps_inv L (s\<lparr>ps_rules := r\<rparr>) = ps_inv L s" "ps_inv L (s\<lparr>ps_loading := b\<rparr>) = ps_inv L s"
  "ps_inv L (s\<lparr>ps_rules_acquired := b\<rparr>) = ps_inv L s" "ps_inv L (s\<lparr>ps_revision := n\<rparr>) = ps_inv L s"
  by (simp_all add: ps_inv_def all_open_def)

lemma tickets_frame [simp]:
  "tickets (s\<lparr>ps_rules := r\<rparr>) cb = tickets s cb" "tickets (s\<lparr>ps_loading := b\<rparr>) cb = tickets s cb"
  "tickets (s\<lparr>ps_rules_acquired := b\<rparr>) cb = tickets s cb" "tickets (s\<lparr>ps_revision := n\<rparr>) cb = tickets s cb"
  "tickets (s\<lparr>ps_cache := c\<rparr>) cb = tickets s cb" "tickets (s\<lparr>ps_updater := u\<rparr>) cb = tickets s cb"
  "tickets (s\<lparr>ps_sources := so\<rparr>) cb = tickets s cb"
  "tickets (s\<lparr>ps_cloud_reason := r'\<rparr>) cb = tickets s cb"
  "tickets (s\<lparr>ps_cloud_status := r'\<rparr>) cb = tickets s cb"
  by (simp_all add: tickets_def)

lemma ps_inv_quiet [simp]:
  "ps_inv L (Broadcast E s) = ps_inv L s" "ps_inv L (SendConfigure E s) = ps_inv L s"
  "ps_inv L (Persist s) = ps_inv L s" "quiet e \<Longrightarrow> ps_inv L (ps_emit e s) = ps_inv L s"
  "ps_inv L (ps_emit (PsPost cb r) s) = ps_inv L s"
  by (simp_all add: ps_inv_def)

text \<open>What the observers keep: the invariant, the policy and every ticket.\<close>

definition keeps :: "'u lib \<Rightarrow> 'u service \<Rightarrow> 'u service \<Rightarrow> bool" where
  "keeps L s s' \<longleftrightarrow> ps_inv L s' \<and> ps_conf s' = ps_conf s \<and> (\<forall>cb. tickets s' cb = tickets s cb)"

lemma keeps_trans: "keeps L s t \<Longrightarrow> keeps L t u \<Longrightarrow> keeps L s u"
  by (simp add: keeps_def)

lemma OnRules_frame [simp]:
  "ps_updater (OnRules L E s) = ps_updater s" "ps_sources (OnRules L E s) = ps_sources s"
  "ps_revision (OnRules L E s) = ps_revision s"
proof -
  have f: "ps_updater (foldl (\<lambda>s i. MaybeComplete i s) s ids) = ps_updater s \<and>
      ps_sources (foldl (\<lambda>s i. MaybeComplete i s) s ids) = ps_sources s \<and>
      ps_revision (foldl (\<lambda>s i. MaybeComplete i s) s ids) = ps_revision s" for ids and s :: "'a service"
    by (induction ids arbitrary: s) simp_all
  show "ps_updater (OnRules L E s) = ps_updater s" "ps_sources (OnRules L E s) = ps_sources s"
      "ps_revision (OnRules L E s) = ps_revision s"
    by (simp_all add: OnRules_def f Let_def split: option.split)
qed

lemma OnRules_keeps:
  assumes inv: "ps_inv L s"
  shows "keeps L s (OnRules L E s)"
proof (cases "ps_updater s")
  case None
  with inv show ?thesis by (simp add: OnRules_def keeps_def)
next
  case (Some u)
  define s1 where "s1 = s\<lparr>ps_rules := up_rules u, ps_loading := (lr_status (up_rules u) = ''loading'')\<rparr>"
  have inv1: "ps_inv L s1" using inv by (simp add: s1_def)
  have same: "ps_conf s1 = ps_conf s" "\<And>cb. tickets s1 cb = tickets s cb" by (simp_all add: s1_def)
  show ?thesis
  proof (cases "UsesLocal s1 \<and> \<not> ps_loading s1")
    case False
    then have "OnRules L E s = Broadcast E s1" by (auto simp: OnRules_def Some s1_def Let_def)
    with inv1 same show ?thesis by (simp add: keeps_def)
  next
    case True
    define s2 where "s2 = s1\<lparr>ps_pending := Recheck L E s1 (ps_pending s1)\<rparr>"
    have on: "OnRules L E s = Broadcast E (foldl (\<lambda>s i. MaybeComplete i s) s2 (map fst (ps_pending s2)))"
      using True by (simp add: OnRules_def Some s1_def [symmetric] s2_def [symmetric] Let_def)
    have "call_ok L s2 = call_ok L s1" by (rule ext, rule call_ok_cong) (simp_all add: s2_def)
    then have "tables_ok L s2"
      using inv1 Recheck_ok [of "ps_pending s1" L s1 _ E]
      by (auto simp: ps_inv_def ps_pre_def tables_ok_def s2_def om_ok_def)
    then have pre2: "ps_pre L s2"
      using inv1 by (simp add: ps_inv_def ps_pre_def policy_ok_def parts_ok_def s2_def)
    have "\<And>cb. tickets s2 cb = tickets s1 cb" by (simp add: s2_def tickets_def Recheck_sum)
    moreover have "ps_conf s2 = ps_conf s1" by (simp add: s2_def)
    ultimately show ?thesis
      using MaybeComplete_all [OF pre2, of "map fst (ps_pending s2)"] same
      unfolding on by (auto simp: keeps_def)
  qed
qed

lemma OnSources_keeps:
  assumes inv: "ps_inv L s"
  shows "keeps L s (OnSources E b s)"
proof -
  have "ps_inv L (CancelAll ''stale_policy'' s)" using inv by (intro CancelAll_inv) (simp add: ps_inv_def)
  then have "ps_inv L ((CancelAll ''stale_policy'' s)\<lparr>ps_cache := [], ps_revision := n\<rparr>)" for n
    by (simp add: ps_inv_def ps_pre_def tables_ok_def policy_ok_def parts_ok_def all_open_def)
  with inv show ?thesis by (auto simp: OnSources_def Let_def keeps_def)
qed

lemma OnSources_frame [simp]:
  "ps_updater (OnSources E b s) = ps_updater s" "ps_sources (OnSources E b s) = ps_sources s"
  by (simp_all add: OnSources_def Let_def)

lemma ps_inv_updater:
  "ps_inv L s \<Longrightarrow> (\<And>v. u = Some v \<Longrightarrow> up_inv L v) \<Longrightarrow> ps_inv L (s\<lparr>ps_updater := u\<rparr>)"
  by (simp add: ps_inv_def ps_pre_def tables_ok_def policy_ok_def parts_ok_def all_open_def call_ok_def
      UsesCloud_def)

lemma ps_inv_sources:
  "ps_inv L s \<Longrightarrow> (\<And>v. r = Some v \<Longrightarrow> src_inv L v) \<Longrightarrow> ps_inv L (s\<lparr>ps_sources := r\<rparr>)"
  by (simp add: ps_inv_def ps_pre_def tables_ok_def policy_ok_def parts_ok_def all_open_def call_ok_def
      UsesCloud_def)

lemma keeps_refl: "ps_inv L s \<Longrightarrow> keeps L s s"
  by (simp add: keeps_def)

lemma with_updater_keeps:
  assumes inv: "ps_inv L s" and f: "\<And>u. ps_updater s = Some u \<Longrightarrow> up_inv L u \<Longrightarrow> up_inv L (f u)"
  shows "keeps L s (with_updater L E f s)"
proof (cases "ps_updater s")
  case None
  with inv show ?thesis by (simp add: with_updater_def keeps_def)
next
  case (Some u)
  have "up_inv L u" using inv Some by (simp add: ps_inv_def ps_pre_def parts_ok_def)
  with f Some have "ps_inv L (s\<lparr>ps_updater := Some (f u)\<rparr>)" using inv by (intro ps_inv_updater) auto
  then have "keeps L s (s\<lparr>ps_updater := Some (f u)\<rparr>)" by (simp add: keeps_def)
  then have "keeps L s ((OnRules L E ^^ n) (s\<lparr>ps_updater := Some (f u)\<rparr>))" for n
  proof (induction n)
    case (Suc n)
    then have k: "keeps L s ((OnRules L E ^^ n) (s\<lparr>ps_updater := Some (f u)\<rparr>))" by blast
    then have "keeps L ((OnRules L E ^^ n) (s\<lparr>ps_updater := Some (f u)\<rparr>))
        (OnRules L E ((OnRules L E ^^ n) (s\<lparr>ps_updater := Some (f u)\<rparr>)))"
      by (intro OnRules_keeps) (simp add: keeps_def)
    with k show ?case by (simp add: keeps_trans)
  qed simp
  with Some show ?thesis by (simp add: with_updater_def)
qed

lemma with_sources_keeps:
  assumes inv: "ps_inv L s" and f: "\<And>r. ps_sources s = Some r \<Longrightarrow> src_inv L r \<Longrightarrow> src_inv L (f r)"
  shows "keeps L s (with_sources E f s)"
proof (cases "ps_sources s")
  case None
  with inv show ?thesis by (simp add: with_sources_def keeps_def)
next
  case (Some r)
  have fold: "keeps L s (foldl (\<lambda>s b. OnSources E b s) t bs)" if "keeps L s t" for t bs
    using that
  proof (induction bs arbitrary: t)
    case (Cons b bs)
    have "keeps L t (OnSources E b t)" using Cons.prems by (intro OnSources_keeps) (simp add: keeps_def)
    with Cons show ?case by (simp add: keeps_trans)
  qed simp
  have "src_inv L r" using inv Some by (simp add: ps_inv_def ps_pre_def parts_ok_def)
  with f Some have "ps_inv L (s\<lparr>ps_sources := Some (f r)\<rparr>)" using inv by (intro ps_inv_sources) auto
  then have "keeps L s (s\<lparr>ps_sources := Some (f r)\<rparr>)" by (simp add: keeps_def)
  from fold [OF this] Some show ?thesis by (simp add: with_sources_def)
qed

lemma with_updater_sources [simp]: "ps_sources (with_updater L E f s) = ps_sources s"
proof -
  have "ps_sources ((OnRules L E ^^ n) t) = ps_sources t" for n t by (induction n) simp_all
  then show ?thesis by (simp add: with_updater_def split: option.split)
qed

lemma EnsureRules_keeps: "ps_inv L s \<Longrightarrow> keeps L s (EnsureRules L E s)"
proof -
  assume inv: "ps_inv L s"
  let ?t = "s\<lparr>ps_rules_acquired := True\<rparr>"
  let ?u = "with_updater L E (RuleUpdater_Acquire E) ?t"
  have t: "ps_inv L ?t" using inv by simp
  have u: "keeps L ?t ?u" using t by (intro with_updater_keeps) (auto intro: up_Acquire_inv)
  then have "keeps L ?u (with_sources E (RuleSources_Acquire E) ?u)"
    by (intro with_sources_keeps) (auto simp: keeps_def intro: Acquire_inv)
  with u have "keeps L ?t (with_sources E (RuleSources_Acquire E) ?u)" by (rule keeps_trans)
  then have "keeps L s (with_sources E (RuleSources_Acquire E) ?u)" by (simp add: keeps_def)
  with inv show ?thesis by (simp add: EnsureRules_def keeps_refl)
qed

text \<open>The observers only ever remove pending calls.\<close>

definition shrinks :: "'u service \<Rightarrow> 'u service \<Rightarrow> bool" where
  "shrinks s s' \<longleftrightarrow> fst ` set (ps_pending s') \<subseteq> fst ` set (ps_pending s) \<and>
     length (ps_pending s') \<le> length (ps_pending s)"

lemma shrinks_trans: "shrinks s t \<Longrightarrow> shrinks t u \<Longrightarrow> shrinks s u"
  unfolding shrinks_def by (meson order_trans)

lemma shrinks_refl [simp]: "shrinks s s"
  by (simp add: shrinks_def)

lemma MaybeComplete_shrinks: "shrinks s (MaybeComplete i s)"
  using om_length_del_le [of i "ps_pending s"]
  by (auto simp: shrinks_def MaybeComplete_pending split: option.split)

lemma OnRules_shrinks: "shrinks s (OnRules L E s)"
proof (cases "ps_updater s")
  case None
  then show ?thesis by (simp add: OnRules_def)
next
  case (Some u)
  define s1 where "s1 = s\<lparr>ps_rules := up_rules u, ps_loading := (lr_status (up_rules u) = ''loading'')\<rparr>"
  define s2 where "s2 = s1\<lparr>ps_pending := Recheck L E s1 (ps_pending s1)\<rparr>"
  have fold: "shrinks t (foldl (\<lambda>s i. MaybeComplete i s) t ids)" for t :: "'a service" and ids
  proof (induction ids arbitrary: t)
    case (Cons i ids)
    have "shrinks t (MaybeComplete i t)" by (rule MaybeComplete_shrinks)
    moreover have "shrinks (MaybeComplete i t) (foldl (\<lambda>s i. MaybeComplete i s) (MaybeComplete i t) ids)"
      by (rule Cons.IH)
    ultimately show ?case unfolding foldl.simps by (rule shrinks_trans)
  qed simp
  have "set (map fst (ps_pending s2)) = set (map fst (ps_pending s))"
    by (simp only: s2_def service.simps Recheck_keys) (simp add: s1_def)
  then have s2: "shrinks s s2"
    by (simp add: shrinks_def) (simp add: s2_def s1_def)
  have on: "OnRules L E s = (if UsesLocal s1 \<and> \<not> ps_loading s1
      then Broadcast E (foldl (\<lambda>s i. MaybeComplete i s) s2 (map fst (ps_pending s2)))
      else Broadcast E s1)"
    by (simp add: OnRules_def Some s1_def [symmetric] s2_def [symmetric] Let_def)
  have "shrinks s (foldl (\<lambda>s i. MaybeComplete i s) s2 (map fst (ps_pending s2)))"
    by (rule shrinks_trans [OF s2 fold])
  then show ?thesis unfolding on by (simp add: shrinks_def) (simp add: s1_def)
qed

lemma EnsureRules_pending:
  assumes "ps_inv L s"
  shows "fst ` set (ps_pending (EnsureRules L E s)) \<subseteq> fst ` set (ps_pending s) \<and>
    length (ps_pending (EnsureRules L E s)) \<le> length (ps_pending s)"
proof -
  have up: "shrinks t (with_updater L E f t)" for t :: "'a service" and f
  proof (cases "ps_updater t")
    case (Some u)
    have "shrinks (t\<lparr>ps_updater := Some (f u)\<rparr>) ((OnRules L E ^^ n) (t\<lparr>ps_updater := Some (f u)\<rparr>))" for n
      by (induction n) (auto intro: shrinks_trans OnRules_shrinks)
    with Some show ?thesis by (simp add: with_updater_def shrinks_def)
  qed (simp add: with_updater_def)
  have on: "shrinks t (OnSources E b t)" for t :: "'a service" and b
    by (simp add: OnSources_def shrinks_def Let_def)
  have src: "shrinks t (with_sources E f t)" for t :: "'a service" and f
  proof (cases "ps_sources t")
    case (Some r)
    have "shrinks u (foldl (\<lambda>s b. OnSources E b s) u bs)" for u :: "'a service" and bs
      by (induction bs arbitrary: u) (auto intro: shrinks_trans on)
    then have "shrinks (t\<lparr>ps_sources := Some (f r)\<rparr>) (with_sources E f t)"
      using Some by (simp add: with_sources_def)
    then show ?thesis by (simp add: shrinks_def)
  qed (simp add: with_sources_def)
  have "shrinks (s\<lparr>ps_rules_acquired := True\<rparr>) (with_sources E (RuleSources_Acquire E)
      (with_updater L E (RuleUpdater_Acquire E) (s\<lparr>ps_rules_acquired := True\<rparr>)))"
    by (rule shrinks_trans [OF up src])
  then show ?thesis by (simp add: EnsureRules_def shrinks_def)
qed

lemma ReleaseRules_keeps: "ps_inv L s \<Longrightarrow> keeps L s (ReleaseRules L E s)"
proof -
  assume inv: "ps_inv L s"
  let ?t = "s\<lparr>ps_rules_acquired := False\<rparr>"
  let ?u = "with_updater L E RuleUpdater_Release ?t"
  have t: "ps_inv L ?t" using inv by simp
  have u: "keeps L ?t ?u" using t by (intro with_updater_keeps) (auto intro: up_Release_inv)
  then have "keeps L ?u (with_sources E RuleSources_Release ?u)"
    by (intro with_sources_keeps) (auto simp: keeps_def intro: Release_inv)
  with u have "keeps L ?t (with_sources E RuleSources_Release ?u)" by (rule keeps_trans)
  then have "keeps L s (with_sources E RuleSources_Release ?u)" by (simp add: keeps_def)
  with inv show ?thesis by (simp add: ReleaseRules_def keeps_refl)
qed

section \<open>Policy\<close>

text \<open>An operation that issues no callback: the invariant and the tickets stay.\<close>

definition serves :: "'u lib \<Rightarrow> 'u service \<Rightarrow> 'u service \<Rightarrow> bool" where
  "serves L s s' \<longleftrightarrow> ps_inv L s' \<and> (\<forall>cb. tickets s' cb = tickets s cb)"

lemma keeps_serves: "keeps L s s' \<Longrightarrow> serves L s s'"
  by (simp add: keeps_def serves_def)

lemma serves_trans: "serves L s t \<Longrightarrow> serves L t u \<Longrightarrow> serves L s u"
  by (simp add: serves_def)

lemma serves_quiet:
  "serves L s t \<Longrightarrow> serves L s (Broadcast E (ps_emit PsChanged (SendConfigure E t)))"
  by (simp add: serves_def)

lemma card_insert_limit:
  "finite X \<Longrightarrow> card X \<le> n \<Longrightarrow> (x \<in> X \<or> card X < n) \<Longrightarrow> card (insert x X) \<le> n"
  by (auto simp: card_insert_if)

lemma SetSiteEnabled_serves:
  assumes inv: "ps_inv L s"
  shows "serves L s (snd (SetSiteEnabled L E modifiable url enabled s))"
proof (cases "snd (SetSiteEnabled L E modifiable url enabled s) = s")
  case True
  with inv show ?thesis by (simp add: serves_def)
next
  case False
  let ?o = "origin_serialize L url"
  let ?t = "CancelAll ''stale_policy'' s"
  let ?x = "if enabled then ps_exceptions ?t - {?o} else insert ?o (ps_exceptions ?t)"
  let ?u = "?t\<lparr>ps_revision := ps_revision ?t + 1, ps_exceptions := ?x, ps_cache := []\<rparr>"
  have room: "enabled \<or> ?o \<in> ps_exceptions s \<or> card (ps_exceptions s) < kMaxExceptions"
    using False by (auto simp: SetSiteEnabled_def Let_def split: if_splits)
  have res: "snd (SetSiteEnabled L E modifiable url enabled s) =
      Broadcast E (ps_emit PsChanged (SendConfigure E (Persist ?u)))"
    using False by (auto simp: SetSiteEnabled_def Let_def split: if_splits)
  have "ps_exceptions ?t = ps_exceptions s"
    using CancelAll_frame(1) [of "''stale_policy''" s] by (simp add: ps_conf_def)
  then have x: "finite ?x \<and> card ?x \<le> kMaxExceptions"
    using inv room card_insert_limit [of "ps_exceptions s" kMaxExceptions ?o]
      card_Diff1_le [of "ps_exceptions s" ?o]
    by (auto simp: ps_inv_def ps_pre_def policy_ok_def)
  have t: "ps_inv L ?t" using inv by (intro CancelAll_inv) (simp add: ps_inv_def)
  then have "ps_inv L ?u"
    using x by (simp add: ps_inv_def ps_pre_def tables_ok_def policy_ok_def parts_ok_def all_open_def)
  moreover have "tickets ?u cb = tickets ?t cb" for cb by (simp add: tickets_def)
  ultimately have "serves L s (Persist ?u)" by (simp add: serves_def)
  then show ?thesis unfolding res by (rule serves_quiet)
qed

lemma Configure_serves:
  assumes inv: "ps_inv L s"
  shows "serves L s (snd (Configure L E modifiable command s))"
proof (cases "snd (Configure L E modifiable command s) = s")
  case True
  with inv show ?thesis by (simp add: serves_def)
next
  case False
  then obtain enabled consent provider where
    opts: "find_bool command ''enabled'' = Some enabled" "find_bool command ''cloudConsent'' = Some consent"
      "find_string command ''provider'' = Some provider"
    and guards: "find_string command ''contextId'' = Some (ps_context_id s)"
      "find_int command ''expectedRevision'' = Some (ps_revision s)" "ValidProvider provider"
      "ps_off_record s \<or> modifiable"
    by (auto simp: Configure_def split: option.splits if_splits)
  let ?t = "CancelAll ''stale_policy'' s"
  let ?u = "?t\<lparr>ps_revision := ps_revision ?t + 1, ps_enabled := enabled, ps_provider := provider,
      ps_consent := (enabled \<and> provider \<noteq> ''local'' \<and> consent), ps_cache := [],
      ps_cloud_status := ''unverified'', ps_cloud_reason := []\<rparr>"
  let ?v = "Persist ?u"
  let ?w = "if UsesLocal ?v then EnsureRules L E ?v else ReleaseRules L E ?v"
  have res: "snd (Configure L E modifiable command s) =
      Broadcast E (ps_emit PsChanged (SendConfigure E ?w))"
    using opts guards(1-3) guards(4) by (cases modifiable) (simp_all add: Configure_def Let_def)
  have "ps_exceptions ?t = ps_exceptions s"
    using CancelAll_frame(1) [of "''stale_policy''" s] by (simp add: ps_conf_def)
  moreover have t: "ps_inv L ?t" using inv by (intro CancelAll_inv) (simp add: ps_inv_def)
  ultimately have "ps_inv L ?u"
    by (simp add: ps_inv_def ps_pre_def tables_ok_def policy_ok_def parts_ok_def all_open_def)
  moreover have "tickets ?u cb = tickets ?t cb" for cb by (simp add: tickets_def)
  ultimately have v: "ps_inv L ?v" "serves L s ?v" by (simp_all add: serves_def)
  have "keeps L ?v ?w" using EnsureRules_keeps [OF v(1)] ReleaseRules_keeps [OF v(1)] by simp
  with v(2) have "serves L s ?w" by (blast intro: serves_trans keeps_serves)
  then show ?thesis unfolding res by (rule serves_quiet)
qed

lemma UpdateRules_serves:
  assumes inv: "ps_inv L s" and ok: "ps_ok s (PvUpdateRules E command)"
  shows "serves L s (snd (UpdateRules L E command s))"
proof -
  have "keeps L s (with_updater L E (\<lambda>u. snd (RequestUpdate E u)) s)"
    using inv ok by (intro with_updater_keeps) (auto intro: RequestUpdate_inv)
  then have "serves L s (with_updater L E (\<lambda>u. snd (RequestUpdate E u)) s)" by (rule keeps_serves)
  with inv show ?thesis by (simp add: UpdateRules_def serves_def split: option.split)
qed

section \<open>Checks\<close>

lemma put_pending_pre:
  assumes pre: "ps_pre L s" and c: "call_ok L s c"
    and room: "i \<in> fst ` set (ps_pending s) \<or> length (ps_pending s) < kMaxPending"
  shows "ps_pre L (put_pending i c s)"
proof -
  have ok: "om_ok (ps_pending s)" using pre by (simp add: ps_pre_def tables_ok_def)
  have "length (om_put i c (ps_pending s)) \<le> kMaxPending"
    using room pre om_length_put_old [OF ok] om_length_put_le [of i c "ps_pending s"]
    by (force simp: ps_pre_def tables_ok_def)
  moreover have "call_ok L (put_pending i c s) = call_ok L s"
    by (rule ext, rule call_ok_cong) (simp_all add: put_pending_def)
  ultimately have "tables_ok L (put_pending i c s)"
    using pre c om_set_put [of i c "ps_pending s"]
    by (auto simp: ps_pre_def tables_ok_def put_pending_def)
  then show ?thesis using pre by (simp add: ps_pre_def policy_ok_def parts_ok_def put_pending_def)
qed

lemma put_pending_others:
  assumes "\<forall>p \<in> set (ps_pending s). call_open (snd p) \<or> fst p = i"
  shows "\<forall>p \<in> set (ps_pending (put_pending i c s)). call_open (snd p) \<or> fst p = i"
  using assms om_set_put [of i c "ps_pending s"] by (auto simp: put_pending_def)

lemma put_pending_tickets_old:
  assumes "ps_pre L s" and "map_of (ps_pending s) i = Some c" and "pn_callback c' = pn_callback c"
  shows "tickets (put_pending i c' s) cb = tickets s cb"
  using assms om_sum_put [of "ps_pending s" "waits_for cb" i c'] om_sum_old [of "ps_pending s" i c "waits_for cb"]
  by (simp add: tickets_def put_pending_def ps_pre_def tables_ok_def waits_for_def)

lemma put_pending_tickets_new:
  assumes "ps_pre L s" and "i \<notin> fst ` set (ps_pending s)"
  shows "tickets (put_pending i c s) cb = tickets s cb + waits_for cb c"
  using assms om_sum_put [of "ps_pending s" "waits_for cb" i c] om_del_absent [of i "ps_pending s"]
  by (simp add: tickets_def put_pending_def ps_pre_def tables_ok_def)

lemma pending_call:
  assumes "ps_inv L s" and "map_of (ps_pending s) i = Some c"
  shows "ps_pre L s" "call_ok L s c" "call_open c" "i \<in> fst ` set (ps_pending s)"
    "\<forall>p \<in> set (ps_pending s). call_open (snd p) \<or> fst p = i"
proof -
  have "(i, c) \<in> set (ps_pending s)" using assms(2) by (rule map_of_SomeD)
  then show "call_ok L s c" "call_open c" "i \<in> fst ` set (ps_pending s)"
    using assms(1) by (force simp: ps_inv_def ps_pre_def tables_ok_def all_open_def)+
  show "ps_pre L s" "\<forall>p \<in> set (ps_pending s). call_open (snd p) \<or> fst p = i"
    using assms(1) by (auto simp: ps_inv_def all_open_def)
qed

text \<open>Changing a pending call and completing it if it can be.\<close>

lemma resolve_serves:
  assumes inv: "ps_inv L s" and c: "map_of (ps_pending s) i = Some c"
    and c': "call_ok L s c'" "pn_callback c' = pn_callback c"
  shows "serves L s (MaybeComplete i (put_pending i c' s))"
proof -
  note call = pending_call [OF inv c]
  have pre: "ps_pre L (put_pending i c' s)" using call c' by (intro put_pending_pre) auto
  have "ps_inv L (MaybeComplete i (put_pending i c' s))"
    by (rule MaybeComplete_inv [OF pre put_pending_others [OF call(5)]])
  then show ?thesis
    using MaybeComplete_tickets [OF pre] put_pending_tickets_old [OF call(1) c c'(2)]
    by (simp add: serves_def)
qed

lemma Timeout_serves: "ps_inv L s \<Longrightarrow> serves L s (Timeout i s)"
proof (cases "map_of (ps_pending s) i")
  case None
  then show "ps_inv L s \<Longrightarrow> ?thesis" by (simp add: Timeout_def serves_def)
next
  case (Some c)
  assume inv: "ps_inv L s"
  from pending_call [OF inv Some] Some resolve_serves [OF inv Some] show ?thesis
    by (simp add: Timeout_def call_ok_def)
qed

lemma Service_Cancel_serves: "ps_inv L s \<Longrightarrow> serves L s (Service_Cancel i s)"
proof (cases "map_of (ps_pending s) i")
  case None
  then show "ps_inv L s \<Longrightarrow> ?thesis" by (simp add: Service_Cancel_def serves_def)
next
  case (Some c)
  assume inv: "ps_inv L s"
  from pending_call [OF inv Some] Some resolve_serves [OF inv Some] show ?thesis
    by (simp add: Service_Cancel_def call_ok_def Unknown_def mk_result_def)
qed

lemma CloudResult_url: "r_url (CloudResult L i revision reply c s) = pn_url c"
  by (simp add: CloudResult_def Unknown_def mk_result_def Let_def)

lemma cache_put_ok:
  assumes "om_ok xs" and "length xs \<le> kMaxCached"
  shows "om_ok (cache_put k c xs) \<and> length (cache_put k c xs) \<le> kMaxCached"
proof -
  let ?xs = "if length xs \<ge> kMaxCached then tl xs else xs"
  have "om_ok ?xs" using assms(1) by auto
  moreover have "length ?xs < kMaxCached" using assms(2) by (auto simp: kMaxCached_def)
  ultimately show ?thesis using om_length_put_le [of k c ?xs] by (auto simp: cache_put_def)
qed

lemma OnCloud_serves:
  assumes inv: "ps_inv L s"
  shows "serves L s (OnCloud L E i revision reply s)"
proof (cases "map_of (ps_pending s) i")
  case None
  with inv show ?thesis by (simp add: OnCloud_def serves_def)
next
  case (Some c)
  show ?thesis
  proof (cases "revision = ps_revision s")
    case False
    with inv Some show ?thesis by (simp add: OnCloud_def serves_def)
  next
    case True
    note call = pending_call [OF inv Some]
    let ?c = "c\<lparr>pn_waiting_cloud := False, pn_bridge_id := 0\<rparr>"
    let ?cloud = "CloudResult L i revision reply ?c s"
    let ?reason = "case find_string (cr_data reply) ''reason'' of
        Some r \<Rightarrow> if ValidIdentity i revision reply s \<and> r \<in> set kReasons then r else ''unavailable''
      | None \<Rightarrow> ''unavailable''"
    let ?c' = "if \<not> dangerous (pn_result ?c) \<and>
        (dangerous ?cloud \<or> r_verdict (pn_result ?c) = kUnknown)
      then ?c\<lparr>pn_result := ?cloud\<rparr> else ?c"
    define s1 where "s1 = s\<lparr>ps_cloud_reason := ?reason\<rparr>"
    define s2 where "s2 = (if r_verdict ?cloud \<noteq> kUnknown
      then (put_pending i ?c' s1)\<lparr>ps_cloud_status := ''available'', ps_cloud_reason := [],
             ps_cache := cache_put (spec L (pn_checked_url ?c)) \<lparr>ch_result = ?cloud,
               ch_expires = now_ticks E + minutes (if dangerous ?cloud then 30 else 5)\<rparr> (ps_cache s1)\<rparr>
      else (put_pending i ?c s1)\<lparr>ps_cloud_status := ''unavailable''\<rparr>)"
    have on: "OnCloud L E i revision reply s = Broadcast E (MaybeComplete i s2)"
      using Some by (simp add: OnCloud_def Let_def s1_def s2_def True [symmetric])
    have s1: "ps_pre L s1" "ps_pending s1 = ps_pending s" "\<And>cb. tickets s1 cb = tickets s cb"
      using call(1) by (simp_all add: s1_def) 
    have "call_ok L s1 = call_ok L s" by (rule ext, rule call_ok_cong) (simp_all add: s1_def)
    then have ok: "call_ok L s1 ?c" "call_ok L s1 ?c'"
      using call(2) by (auto simp: call_ok_def CloudResult_url)
    have pre: "ps_pre L (put_pending i ?c s1)" "ps_pre L (put_pending i ?c' s1)"
      using put_pending_pre [OF s1(1)] ok call(4) s1(2) by simp_all
    have cached: "ps_pre L (t\<lparr>ps_cloud_status := a, ps_cloud_reason := r,
        ps_cache := cache_put k v (ps_cache t)\<rparr>)" if "ps_pre L t" for t k v a r
      using that cache_put_ok [of "ps_cache t" k v]
      by (simp add: ps_pre_def tables_ok_def policy_ok_def parts_ok_def call_ok_def UsesCloud_def)
    have cache: "ps_cache (put_pending i ?c' s1) = ps_cache s1" by (simp add: put_pending_def)
    note hit = cached [OF pre(2), unfolded cache]
    have miss: "ps_pre L ((put_pending i ?c s1)\<lparr>ps_cloud_status := a\<rparr>)" for a
      using pre(1) by simp
    have pre2: "ps_pre L s2"
      using hit miss unfolding s2_def by (simp only: if_split) blast
    have others: "\<forall>p \<in> set (ps_pending s2). call_open (snd p) \<or> fst p = i"
      using put_pending_others [of s1 i ?c] put_pending_others [of s1 i ?c'] call(5) s1(2)
      by (simp add: s2_def)
    have tick: "tickets (put_pending i ?c' s1) cb = tickets s cb"
      "tickets (put_pending i ?c s1) cb = tickets s cb" for cb
      using put_pending_tickets_old [OF s1(1), of i c] Some s1 by simp_all
    then have "tickets s2 cb = tickets s cb" for cb by (simp add: s2_def)
    then show ?thesis
      unfolding on using MaybeComplete_inv [OF pre2 others] MaybeComplete_tickets [OF pre2]
      by (simp add: serves_def)
  qed
qed

lemma new_call_ok:
  "call_ok L s (new_call L E url timeout cb s) \<and> pn_callback (new_call L E url timeout cb s) = cb \<and>
   (pn_waiting_cloud (new_call L E url timeout cb s) \<longrightarrow> url_is_valid L (CloudCheckUrl L url))"
proof -
  let ?c0 = "\<lparr>pn_url = url, pn_checked_url = empty_url L, pn_callback = cb,
     pn_result = Unknown url ''unavailable'', pn_waiting_local = False,
     pn_waiting_cloud = False, pn_bridge_id = 0, pn_deadline = now_ticks E + timeout\<rparr>"
  define c where "c = (if UsesLocal s then CheckLocal L E s (?c0\<lparr>pn_waiting_local :=
      (ps_loading s \<or> (ps_sources s \<noteq> None \<and> \<not> sources_ready s))\<rparr>) else ?c0)"
  have c: "pn_url c = url" "r_url (pn_result c) = url" "\<not> pn_waiting_cloud c" "pn_bridge_id c = 0"
    "pn_callback c = cb"
    by (simp_all add: c_def CheckLocal_url Unknown_def mk_result_def)
  then show ?thesis
    unfolding new_call_def c_def [symmetric] Let_def
    by (auto simp: call_ok_def split: option.split)
qed

lemma new_call_url: "pn_url (new_call L E url timeout cb s) = url"
  by (simp add: new_call_def Let_def split: option.split)

lemma AskCloud_ok:
  assumes pre: "ps_pre L s" and c: "map_of (ps_pending s) i = Some c"
    and valid: "pn_waiting_cloud c \<Longrightarrow> url_is_valid L (pn_checked_url c)"
    and others: "\<forall>p \<in> set (ps_pending s). call_open (snd p) \<or> fst p = i"
  shows "ps_pre L (AskCloud L i timeout bridge s) \<and>
    (\<forall>p \<in> set (ps_pending (AskCloud L i timeout bridge s)). call_open (snd p) \<or> fst p = i) \<and>
    (\<forall>cb. tickets (AskCloud L i timeout bridge s) cb = tickets s cb)"
proof (cases "pn_waiting_cloud c")
  case False
  with pre c others show ?thesis by (simp add: AskCloud_def)
next
  case True
  let ?c = "c\<lparr>pn_bridge_id := bridge\<rparr>"
  have "(i, c) \<in> set (ps_pending s)" using c by (rule map_of_SomeD)
  then have key: "i \<in> fst ` set (ps_pending s)" and ok: "call_ok L s c"
    using pre by (force simp: ps_pre_def tables_ok_def)+
  have ok': "call_ok L s ?c" using ok True by (simp add: call_ok_def)
  have p: "ps_pre L (put_pending i ?c s)" using pre ok' key by (intro put_pending_pre) auto
  have "effect_ok L (PsCloud i (spec L (pn_checked_url c)) t)" for t
    using ok valid [OF True] by (auto simp: call_ok_def)
  then have "ps_pre L (AskCloud L i timeout bridge s)"
    using p c True by (simp add: AskCloud_def ps_pre_emit)
  moreover have "tickets (AskCloud L i timeout bridge s) cb = tickets (put_pending i ?c s) cb" for cb
    using c True by (simp add: AskCloud_def tickets_def posted_def)
  ultimately show ?thesis
    using put_pending_others [OF others, of ?c] put_pending_tickets_old [OF pre c, of ?c] c True
    by (simp add: AskCloud_def)
qed

text \<open>Whether a check is answered without a pending call, and what it does otherwise.\<close>

definition answered :: "'u lib \<Rightarrow> env \<Rightarrow> 'u \<Rightarrow> int \<Rightarrow> 'u service \<Rightarrow> bool" where
  "answered L E url timeout s \<longleftrightarrow> \<not> IsSiteEnabled L url s \<or> dangerous (KnownRisk L E url s) \<or>
     \<not> ps_enabled s \<or> \<not> IsPublicHttpUrl L url \<or> timeout \<le> 0 \<or> kMaxPending \<le> length (ps_pending s)"

definition asked :: "'u lib \<Rightarrow> env \<Rightarrow> 'u \<Rightarrow> int \<Rightarrow> nat \<Rightarrow> int \<Rightarrow> 'u service \<Rightarrow> 'u service" where
  "asked L E url timeout cb bridge s =
     (let s1 = (if UsesLocal s then EnsureRules L E s else s);
          c = new_call L E url (min timeout kBudget) cb s1
      in MaybeComplete (token E) (ps_emit (PsTimer (token E) (min timeout kBudget))
           (AskCloud L (token E) (min timeout kBudget) bridge
             (if token E \<in> fst ` set (ps_pending s1) then s1 else put_pending (token E) c s1))))"

lemma KnownRisk_url: "dangerous (KnownRisk L E url s) \<Longrightarrow> r_url (KnownRisk L E url s) = url"
  by (auto simp: KnownRisk_def Unknown_def mk_result_def sources_match_url dangerous_def split: option.split)

lemma Check_answered: "answered L E url timeout s \<Longrightarrow>
    \<exists>r. r_url r = url \<and> Check L E url timeout cb bridge s = ([], ps_emit (PsPost cb r) s)"
proof -
  assume "answered L E url timeout s"
  then consider "\<not> IsSiteEnabled L url s" | "IsSiteEnabled L url s" "dangerous (KnownRisk L E url s)"
    | "IsSiteEnabled L url s" "\<not> dangerous (KnownRisk L E url s)"
      "\<not> ps_enabled s \<or> \<not> IsPublicHttpUrl L url \<or> timeout \<le> 0 \<or> length (ps_pending s) \<ge> kMaxPending"
    unfolding answered_def by blast
  note cases = this
  have unknown: "r_url (Unknown url x) = url" for x by (simp add: Unknown_def mk_result_def)
  from cases show ?thesis
  proof cases
    case 1
    then show ?thesis
      by (intro exI [of _ "Unknown url ''site_disabled''"]) (simp add: Check_def unknown)
  next
    case 2
    from KnownRisk_url [OF this(2)] 2 show ?thesis
      by (intro exI [of _ "KnownRisk L E url s"]) (simp add: Check_def Let_def)
  next
    case 3
    then show ?thesis
      by (intro exI [of _ "Unknown url ''not_checked''"]) (simp add: Check_def Let_def unknown)
  qed
qed

lemma Check_asked: "\<not> answered L E url timeout s \<Longrightarrow>
    Check L E url timeout cb bridge s = (token E, asked L E url timeout cb bridge s)"
  unfolding answered_def Check_def asked_def Let_def by (simp only: de_Morgan_disj not_not simp_thms if_False)

lemma Check_serves:
  assumes inv: "ps_inv L s" and fresh: "token E \<notin> fst ` set (ps_pending s)"
  shows "ps_inv L (snd (Check L E url timeout cb bridge s)) \<and>
    (\<forall>cb'. tickets (snd (Check L E url timeout cb bridge s)) cb' = tickets s cb' + (if cb = cb' then 1 else 0))"
proof -
  consider (posted) r where "snd (Check L E url timeout cb bridge s) = ps_emit (PsPost cb r) s"
    | (asked) "length (ps_pending s) < kMaxPending"
        "snd (Check L E url timeout cb bridge s) = asked L E url timeout cb bridge s"
    using Check_answered [of L E url timeout s cb bridge] Check_asked [of L E url timeout s cb bridge]
    by (cases "answered L E url timeout s") (auto simp: answered_def)
  then show ?thesis
  proof cases
    case posted
    with inv show ?thesis by simp
  next
    case asked
    let ?i = "token E"
    define s1 where "s1 = (if UsesLocal s then EnsureRules L E s else s)"
    define c where "c = new_call L E url (min timeout kBudget) cb s1"
    have k: "keeps L s s1" using inv EnsureRules_keeps [OF inv, of E] by (simp add: s1_def keeps_refl)
    have sub: "fst ` set (ps_pending s1) \<subseteq> fst ` set (ps_pending s)"
      and len: "length (ps_pending s1) \<le> length (ps_pending s)"
      using EnsureRules_pending [OF inv, of E] by (auto simp: s1_def)
    have inv1: "ps_inv L s1" using k by (simp add: keeps_def)
    have new: "?i \<notin> fst ` set (ps_pending s1)" using sub fresh by blast
    have pre: "ps_pre L (put_pending ?i c s1)"
      using inv1 len asked(1) new_call_ok [of L s1 E url "min timeout kBudget" cb]
      by (intro put_pending_pre) (auto simp: ps_inv_def c_def)
    have c: "pn_checked_url c = CloudCheckUrl L url" "pn_callback c = cb"
      "pn_waiting_cloud c \<Longrightarrow> url_is_valid L (CloudCheckUrl L url)"
      using new_call_ok [of L s1 E url "min timeout kBudget" cb] new_call_url [of L E url _ cb s1]
      by (auto simp: c_def call_ok_def)
    have others: "\<forall>p \<in> set (ps_pending (put_pending ?i c s1)). call_open (snd p) \<or> fst p = ?i"
      using inv1 by (intro put_pending_others) (auto simp: ps_inv_def all_open_def)
    have look: "map_of (ps_pending (put_pending ?i c s1)) ?i = Some c" by (simp add: put_pending_def)
    note ask = AskCloud_ok [OF pre look _ others, of "min timeout kBudget" bridge]
    have res: "snd (Check L E url timeout cb bridge s) =
        MaybeComplete ?i (ps_emit (PsTimer ?i (min timeout kBudget))
          (AskCloud L ?i (min timeout kBudget) bridge (put_pending ?i c s1)))"
      unfolding asked(2) asked_def s1_def [symmetric] Let_def c_def [symmetric] using new by simp
    have "tickets (put_pending ?i c s1) cb' = tickets s cb' + (if cb = cb' then 1 else 0)" for cb'
      using put_pending_tickets_new [of L s1 ?i c cb'] inv1 new k c(2)
      by (simp add: ps_inv_def keeps_def waits_for_def)
    moreover have "pn_waiting_cloud c \<Longrightarrow> url_is_valid L (pn_checked_url c)" using c(1,3) by simp
    note asked' = ask [OF this]
    let ?t = "ps_emit (PsTimer ?i (min timeout kBudget))
      (AskCloud L ?i (min timeout kBudget) bridge (put_pending ?i c s1))"
    have pre': "ps_pre L ?t" using asked' by simp
    have others': "\<forall>p \<in> set (ps_pending ?t). call_open (snd p) \<or> fst p = ?i"
      using asked' unfolding emit_frame by blast
    have tick': "tickets ?t cb' = tickets (put_pending ?i c s1) cb'" for cb'
      using asked' by simp
    ultimately show ?thesis
      unfolding res using MaybeComplete_inv [OF pre' others'] MaybeComplete_tickets [OF pre'] by simp
  qed
qed

section \<open>The machine keeps its invariant\<close>

fun ps_issues :: "'u ps_event \<Rightarrow> nat option" where
  "ps_issues (PvCheck E url timeout cb bridge) = Some cb"
| "ps_issues _ = None"

lemma ps_step_ok:
  assumes inv: "ps_inv L s" and ok: "ps_ok s e"
  shows "ps_inv L (ps_step L s e) \<and>
    (\<forall>cb. tickets (ps_step L s e) cb = tickets s cb + (if ps_issues e = Some cb then 1 else 0))"
proof (cases "\<exists>E url timeout cb bridge. e = PvCheck E url timeout cb bridge")
  case True
  then show ?thesis using Check_serves [OF inv] ok by auto
next
  case False
  have "serves L s (ps_step L s e)"
  proof (cases e)
    case (PvUpdater E ue)
    with inv ok show ?thesis
      by (auto intro!: keeps_serves with_updater_keeps up_inv_step)
  next
    case (PvSources E se)
    with inv ok show ?thesis
      by (auto intro!: keeps_serves with_sources_keeps src_inv_step)
  next
    case PvUpdaterGone
    with inv show ?thesis using ps_inv_updater [of L s None] by (simp add: serves_def)
  next
    case PvSourcesGone
    with inv show ?thesis using ps_inv_sources [of L s None] by (simp add: serves_def)
  qed (use False inv ok in \<open>simp_all add: OnCloud_serves Timeout_serves Service_Cancel_serves
      Configure_serves SetLegacyEnabled_def SetSiteEnabled_serves UpdateRules_serves\<close>)
  moreover have "ps_issues e \<noteq> Some cb" for cb using False by (cases e) auto
  ultimately show ?thesis by (simp add: serves_def)
qed

interpretation ps_guarded: ticket_machine "ps_step L" ps_ok "ps_inv L" tickets ps_issues
  for L :: "'u lib"
  by unfold_locales (use ps_step_ok in blast)+

lemma add_exceptions_ok:
  "finite X \<and> card X \<le> kMaxExceptions \<Longrightarrow>
   finite (add_exceptions L items X) \<and> card (add_exceptions L items X) \<le> kMaxExceptions"
  by (induction L items X rule: add_exceptions.induct) (auto simp: Let_def card_insert_if)

lemma ps_inv_init:
  assumes "up_inv L u" and "src_inv L r"
  shows "ps_inv L (Service_Impl L E off_record config u r) \<and>
    tickets (Service_Impl L E off_record config u r) cb = 0"
proof -
  define s where "s = \<lparr>ps_off_record = off_record,
     ps_enabled = (case find_bool config ''enabled'' of Some b \<Rightarrow> b | None \<Rightarrow> False),
     ps_consent = False,
     ps_provider = (case find_string config ''provider'' of
            Some p \<Rightarrow> if ValidProvider p then p else ''local'' | None \<Rightarrow> ''local''),
     ps_exceptions = (if off_record then {} else case find_list config ''siteExceptions'' of None \<Rightarrow> {}
         | Some items \<Rightarrow> add_exceptions L items {}),
     ps_context_id = token E, ps_revision = 1, ps_cloud_status = ''unverified'',
     ps_cloud_reason = [], ps_rules = up_rules u, ps_updater = Some u,
     ps_sources = Some r, ps_loading = (lr_status (up_rules u) = ''loading''),
     ps_rules_acquired = False, ps_pending = [], ps_cache = [], ps_log = []\<rparr>"
  have res: "Service_Impl L E off_record config u r = (if UsesLocal s then EnsureRules L E s else s)"
    by (simp add: Service_Impl_def s_def Let_def)
  have "finite (ps_exceptions s) \<and> card (ps_exceptions s) \<le> kMaxExceptions"
    using add_exceptions_ok [of "{}" L] by (simp add: s_def split: option.split)
  then have "policy_ok s" by (simp add: policy_ok_def s_def)
  moreover have "parts_ok L s" using assms by (simp add: parts_ok_def s_def)
  moreover have "tables_ok L s" by (simp add: tables_ok_def s_def)
  moreover have "cloud_ok L (ps_log s)" by (simp add: cloud_ok_def s_def)
  ultimately have inv: "ps_inv L s" by (simp add: ps_inv_def ps_pre_def all_open_def) (simp add: s_def)
  moreover have "tickets s cb = 0" by (simp add: tickets_def posted_def om_sum_def s_def)
  ultimately show ?thesis unfolding res using EnsureRules_keeps [OF inv] by (simp add: keeps_def)
qed

end
