(* ===== verification/Service_Privacy.thy ===== *)
theory Service_Privacy
  imports Service_Machine
begin

text \<open>
  What the service tells the cloud, and when its policy revision changes: the frame lemmas
  of the requests in the log and of the revision, for every operation.
\<close>

section \<open>Requests to the cloud\<close>

fun is_cloud :: "'u ps_effect \<Rightarrow> bool" where
  "is_cloud (PsCloud i u t) = True"
| "is_cloud _ = False"

definition cloud_asks :: "'u service \<Rightarrow> 'u ps_effect list" where
  "cloud_asks s = filter is_cloud (ps_log s)"

lemma asks_frame [simp]:
  "cloud_asks (s\<lparr>ps_pending := x1\<rparr>) = cloud_asks s" "cloud_asks (s\<lparr>ps_cache := x2\<rparr>) = cloud_asks s"
  "cloud_asks (s\<lparr>ps_revision := x3\<rparr>) = cloud_asks s" "cloud_asks (s\<lparr>ps_updater := x4\<rparr>) = cloud_asks s"
  "cloud_asks (s\<lparr>ps_sources := x5\<rparr>) = cloud_asks s" "cloud_asks (s\<lparr>ps_rules := x6\<rparr>) = cloud_asks s"
  "cloud_asks (s\<lparr>ps_loading := x7\<rparr>) = cloud_asks s" "cloud_asks (s\<lparr>ps_rules_acquired := x7\<rparr>) = cloud_asks s"
  "cloud_asks (s\<lparr>ps_cloud_reason := x8\<rparr>) = cloud_asks s" "cloud_asks (s\<lparr>ps_cloud_status := x8\<rparr>) = cloud_asks s"
  "cloud_asks (s\<lparr>ps_exceptions := x9\<rparr>) = cloud_asks s" "cloud_asks (s\<lparr>ps_enabled := x7\<rparr>) = cloud_asks s"
  "cloud_asks (s\<lparr>ps_provider := x8\<rparr>) = cloud_asks s" "cloud_asks (s\<lparr>ps_consent := x7\<rparr>) = cloud_asks s"
  "\<not> is_cloud e \<Longrightarrow> cloud_asks (ps_emit e s) = cloud_asks s"
  by (simp_all add: cloud_asks_def ps_emit_def)

lemma asks_effects [simp]:
  "cloud_asks (Broadcast E s) = cloud_asks s" "cloud_asks (SendConfigure E s) = cloud_asks s"
  "cloud_asks (Persist s) = cloud_asks s" "cloud_asks (CancelBridge i c s) = cloud_asks s"
  "cloud_asks (put_pending i c s) = cloud_asks s"
  by (simp_all add: Broadcast_def SendConfigure_def Persist_def CancelBridge_def put_pending_def)

lemma asks_cancel [simp]:
  "cloud_asks (CancelEach reason cs s) = cloud_asks s" "cloud_asks (CancelAll reason s) = cloud_asks s"
proof -
  show *: "cloud_asks (CancelEach reason cs s) = cloud_asks s" for cs and s :: "'a service"
    by (induction reason cs s rule: CancelEach.induct) simp_all
  show "cloud_asks (CancelAll reason s) = cloud_asks s" by (simp add: CancelAll_def *)
qed

lemma asks_complete [simp]:
  "cloud_asks (MaybeComplete i s) = cloud_asks s" "cloud_asks (Timeout i s) = cloud_asks s"
  "cloud_asks (Service_Cancel i s) = cloud_asks s" "cloud_asks (OnCloud L E i n reply s) = cloud_asks s"
proof -
  show *: "cloud_asks (MaybeComplete i s) = cloud_asks s" for s :: "'a service"
    by (simp add: MaybeComplete_def split: option.split)
  show "cloud_asks (Timeout i s) = cloud_asks s" "cloud_asks (Service_Cancel i s) = cloud_asks s"
      "cloud_asks (OnCloud L E i n reply s) = cloud_asks s"
    by (simp_all add: * Timeout_def Service_Cancel_def OnCloud_def Let_def split: option.split)
qed

lemma asks_observers [simp]:
  "cloud_asks (OnRules L E s) = cloud_asks s" "cloud_asks (OnSources E b s) = cloud_asks s"
proof -
  have "cloud_asks (foldl (\<lambda>s i. MaybeComplete i s) s ids) = cloud_asks s" for ids and s :: "'a service"
    by (induction ids arbitrary: s) simp_all
  then show "cloud_asks (OnRules L E s) = cloud_asks s"
    by (simp add: OnRules_def Let_def split: option.split)
qed (simp add: OnSources_def Let_def)

lemma asks_with [simp]:
  "cloud_asks (with_updater L E f s) = cloud_asks s" "cloud_asks (with_sources E g s) = cloud_asks s"
proof -
  have "cloud_asks ((OnRules L E ^^ n) s) = cloud_asks s" for n and s :: "'a service"
    by (induction n) simp_all
  then show "cloud_asks (with_updater L E f s) = cloud_asks s"
    by (simp add: with_updater_def split: option.split)
  have "cloud_asks (foldl (\<lambda>s b. OnSources E b s) s bs) = cloud_asks s" for bs and s :: "'a service"
    by (induction bs arbitrary: s) simp_all
  then show "cloud_asks (with_sources E g s) = cloud_asks s"
    by (simp add: with_sources_def split: option.split)
qed

lemma asks_policy [simp]:
  "cloud_asks (EnsureRules L E s) = cloud_asks s" "cloud_asks (ReleaseRules L E s) = cloud_asks s"
  "cloud_asks (snd (SetSiteEnabled L E m url b s)) = cloud_asks s"
  "cloud_asks (snd (Configure L E m c s)) = cloud_asks s"
  "cloud_asks (snd (UpdateRules L E c s)) = cloud_asks s"
  by (simp_all add: EnsureRules_def ReleaseRules_def SetSiteEnabled_def Configure_def UpdateRules_def
      Let_def split: option.split)

lemma conf_observers [simp]:
  "ps_conf (OnRules L E s) = ps_conf s" "ps_conf (OnSources E b s) = ps_conf s"
proof -
  have "ps_conf (foldl (\<lambda>s i. MaybeComplete i s) s ids) = ps_conf s" for ids and s :: "'a service"
    by (induction ids arbitrary: s) simp_all
  then show "ps_conf (OnRules L E s) = ps_conf s"
    by (simp add: OnRules_def Let_def split: option.split)
qed (simp add: OnSources_def Let_def)

lemma conf_with [simp]:
  "ps_conf (with_updater L E f s) = ps_conf s" "ps_conf (with_sources E g s) = ps_conf s"
proof -
  have "ps_conf ((OnRules L E ^^ n) s) = ps_conf s" for n and s :: "'a service"
    by (induction n) simp_all
  then show "ps_conf (with_updater L E f s) = ps_conf s"
    by (simp add: with_updater_def split: option.split)
  have "ps_conf (foldl (\<lambda>s b. OnSources E b s) s bs) = ps_conf s" for bs and s :: "'a service"
    by (induction bs arbitrary: s) simp_all
  then show "ps_conf (with_sources E g s) = ps_conf s"
    by (simp add: with_sources_def split: option.split)
qed

lemma conf_rules [simp]:
  "ps_conf (EnsureRules L E s) = ps_conf s" "ps_conf (ReleaseRules L E s) = ps_conf s"
  "ps_conf (Timeout i s) = ps_conf s" "ps_conf (Service_Cancel i s) = ps_conf s"
  "ps_conf (OnCloud L E i n reply s) = ps_conf s" "ps_conf (put_pending i c s) = ps_conf s"
  "ps_conf (snd (UpdateRules L E c' s)) = ps_conf s" "ps_conf (AskCloud L i t b s) = ps_conf s"
  by (simp_all add: EnsureRules_def ReleaseRules_def Timeout_def Service_Cancel_def OnCloud_def
      put_pending_def UpdateRules_def AskCloud_def Let_def split: option.split)

lemma conf_uses: "ps_conf s = ps_conf t \<Longrightarrow> UsesCloud s = UsesCloud t \<and> UsesLocal s = UsesLocal t"
  by (simp add: ps_conf_def UsesCloud_def UsesLocal_def)

lemma asks_Check:
  assumes inv: "ps_inv L s" and fresh: "token E \<notin> fst ` set (ps_pending s)" and "\<not> UsesCloud s"
  shows "cloud_asks (snd (Check L E url timeout cb bridge s)) = cloud_asks s"
proof (cases "answered L E url timeout s")
  case True
  from Check_answered [OF True] obtain r where
    "Check L E url timeout cb bridge s = ([], ps_emit (PsPost cb r) s)" by blast
  then show ?thesis by simp
next
  case False
  define s1 where "s1 = (if UsesLocal s then EnsureRules L E s else s)"
  define c where "c = new_call L E url (min timeout kBudget) cb s1"
  have "\<not> UsesCloud s1" using assms(3) conf_uses [of s1 s] by (simp add: s1_def)
  then have c: "\<not> pn_waiting_cloud c" using new_call_ok [of L s1 E url "min timeout kBudget" cb]
    by (auto simp: c_def call_ok_def)
  have new: "token E \<notin> fst ` set (ps_pending s1)"
    using fresh EnsureRules_pending [OF inv, of E] by (auto simp: s1_def)
  have "map_of (ps_pending (put_pending (token E) c s1)) (token E) = Some c" by (simp add: put_pending_def)
  then have "AskCloud L (token E) t bridge (put_pending (token E) c s1) = put_pending (token E) c s1" for t
    using c by (simp add: AskCloud_def)
  then show ?thesis
    using new unfolding Check_asked [OF False] asked_def s1_def [symmetric] Let_def c_def [symmetric]
    by simp (simp add: s1_def)
qed

text \<open>The one event after which the cloud may be asked.\<close>

fun consents :: "'u ps_event \<Rightarrow> bool" where
  "consents (PvConfigure E m c) = (find_bool c ''cloudConsent'' = Some True)"
| "consents _ = False"

lemma Configure_consent:
  assumes "find_bool c ''cloudConsent'' \<noteq> Some True" and "\<not> ps_consent s"
  shows "\<not> ps_consent (snd (Configure L E m c s))"
proof (cases "snd (Configure L E m c s) = s")
  case False
  then obtain enabled consent provider where
    opts: "find_bool c ''enabled'' = Some enabled" "find_bool c ''cloudConsent'' = Some consent"
      "find_string c ''provider'' = Some provider"
    by (auto simp: Configure_def split: option.splits if_splits)
  have "ps_conf t = ps_conf u \<Longrightarrow> ps_consent t = ps_consent u" for t u :: "'a service"
    by (simp add: ps_conf_def)
  note rules = this [OF conf_rules(1)] this [OF conf_rules(2)] this [OF quiet_ops(4)]
    this [OF quiet_ops(8)] this [OF quiet_ops(12)]
  show ?thesis
    using False opts assms(1) by (auto simp: Configure_def Let_def rules split: if_splits)
qed (use assms in simp)

lemma step_asks:
  assumes inv: "ps_inv L s" and ok: "ps_ok s e"
    and quiet: "\<not> UsesCloud s \<or> (\<forall>E url t cb b. e \<noteq> PvCheck E url t cb b)"
  shows "cloud_asks (ps_step L s e) = cloud_asks s"
  using assms by (cases e) (simp_all add: asks_Check SetLegacyEnabled_def)

lemma private_step:
  assumes inv: "ps_inv L s" and ok: "ps_ok s e" and none: "\<not> ps_consent s" and e: "\<not> consents e"
  shows "\<not> ps_consent (ps_step L s e) \<and> cloud_asks (ps_step L s e) = cloud_asks s"
proof -
  have "\<not> UsesCloud s" using none by (simp add: UsesCloud_def)
  then have asks: "cloud_asks (ps_step L s e) = cloud_asks s" by (intro step_asks inv ok) simp
  have same: "ps_conf t = ps_conf s \<Longrightarrow> \<not> ps_consent t" for t :: "'a service" using none by (simp add: ps_conf_def)
  have site: "ps_consent (snd (SetSiteEnabled L E m url b s)) = ps_consent s" for E m url b
    using CancelAll_frame(1) [of "''stale_policy''" s]
    by (simp add: SetSiteEnabled_def Let_def ps_conf_def Broadcast_def SendConfigure_def Persist_def)
  have "\<not> ps_consent (ps_step L s e)"
  proof (cases e)
    case (PvCheck E url t cb b)
    have "ps_conf (snd (Check L E url t cb b s)) = ps_conf s"
    proof (cases "answered L E url t s")
      case True
      from Check_answered [OF True, of cb b] show ?thesis by auto
    qed (simp add: Check_asked asked_def Let_def)
    with PvCheck same show ?thesis by simp
  next
    case (PvLegacy E m b)
    then show ?thesis
      using Configure_consent [of "legacy_command b s" s] none
      by (simp add: SetLegacyEnabled_def legacy_command_def)
  next
    case (PvConfigure E m c)
    with Configure_consent [of c s L E m] none e show ?thesis by simp
  qed (use none same site in \<open>simp_all\<close>)
  with asks show ?thesis by simp
qed

interpretation ps_private: machine "ps_step L" "\<lambda>s e. ps_ok s e \<and> \<not> consents e"
  "\<lambda>s. ps_inv L s \<and> \<not> ps_consent s \<and> cloud_asks s = []" for L :: "'u lib"
  by unfold_locales (use private_step ps_guarded.inv_step in metis)

section \<open>The revision\<close>

lemma revision_observers:
  "ps_revision (with_updater L E f s) = ps_revision s" "ps_revision s \<le> ps_revision (with_sources E g s)"
proof -
  have "ps_revision ((OnRules L E ^^ n) s) = ps_revision s" for n and s :: "'a service"
    by (induction n) simp_all
  then show "ps_revision (with_updater L E f s) = ps_revision s"
    by (simp add: with_updater_def split: option.split)
  have on: "ps_revision s \<le> ps_revision (OnSources E b s)" for b and s :: "'a service"
    by (simp add: OnSources_def Let_def)
  have "ps_revision s \<le> ps_revision (foldl (\<lambda>s b. OnSources E b s) s bs)" for bs and s :: "'a service"
  proof (induction bs arbitrary: s)
    case (Cons b bs)
    have "ps_revision (OnSources E b s) \<le> ps_revision (foldl (\<lambda>s b. OnSources E b s) (OnSources E b s) bs)"
      by (rule Cons.IH)
    with on [of s b] show ?case by simp
  qed simp
  from this [of "s\<lparr>ps_sources := so\<rparr>" for so] show "ps_revision s \<le> ps_revision (with_sources E g s)"
    by (simp add: with_sources_def split: option.split)
qed

lemma revision_rules:
  "ps_revision s \<le> ps_revision (EnsureRules L E s)" "ps_revision s \<le> ps_revision (ReleaseRules L E s)"
  using revision_observers(2) [of "with_updater L E (RuleUpdater_Acquire E) (s\<lparr>ps_rules_acquired := True\<rparr>)" E]
    revision_observers(2) [of "with_updater L E RuleUpdater_Release (s\<lparr>ps_rules_acquired := False\<rparr>)" E]
  by (simp_all add: EnsureRules_def ReleaseRules_def revision_observers(1))

lemma revision_policy:
  "snd (SetSiteEnabled L E m url b s) \<noteq> s \<Longrightarrow> ps_revision s < ps_revision (snd (SetSiteEnabled L E m url b s))"
  "snd (Configure L E m c s) \<noteq> s \<Longrightarrow> ps_revision s < ps_revision (snd (Configure L E m c s))"
proof -
  show "snd (SetSiteEnabled L E m url b s) \<noteq> s \<Longrightarrow> ps_revision s < ps_revision (snd (SetSiteEnabled L E m url b s))"
    by (auto simp: SetSiteEnabled_def Let_def split: if_splits)
  have "ps_revision s + 1 = ps_revision t \<Longrightarrow> ps_revision s < ps_revision (EnsureRules L E t)"
    "ps_revision s + 1 = ps_revision t \<Longrightarrow> ps_revision s < ps_revision (ReleaseRules L E t)"
    for t :: "'a service"
    using revision_rules(1) [of t L E] revision_rules(2) [of t L E] by simp_all
  then show "snd (Configure L E m c s) \<noteq> s \<Longrightarrow> ps_revision s < ps_revision (snd (Configure L E m c s))"
    by (auto simp: Configure_def Let_def split: option.splits if_splits)
qed

text \<open>A change of policy leaves nothing pending and nothing cached.\<close>

definition cleared :: "'u service \<Rightarrow> bool" where
  "cleared s \<longleftrightarrow> ps_pending s = [] \<and> ps_cache s = []"

lemma cleared_frame [simp]:
  "cleared (ps_emit e s) = cleared s" "cleared (s\<lparr>ps_rules_acquired := b\<rparr>) = cleared s"
  "cleared (s\<lparr>ps_updater := u\<rparr>) = cleared s" "cleared (s\<lparr>ps_sources := r\<rparr>) = cleared s"
  "cleared (Broadcast E s) = cleared s" "cleared (SendConfigure E s) = cleared s"
  "cleared (Persist s) = cleared s"
  by (simp_all add: cleared_def Broadcast_def SendConfigure_def Persist_def ps_emit_def)

lemma cleared_with:
  assumes "cleared s"
  shows "cleared (with_updater L E f s)" "cleared (with_sources E g s)"
proof -
  have rules: "cleared (OnRules L E t)" if "cleared t" for t :: "'a service"
    using that by (simp add: OnRules_def Recheck_def Let_def split: option.split) (simp add: cleared_def)
  have "cleared ((OnRules L E ^^ n) t)" if "cleared t" for n and t :: "'a service"
    using that by (induction n) (simp_all add: rules)
  then show "cleared (with_updater L E f s)"
    using assms by (simp add: with_updater_def split: option.split)
  have sources: "cleared (OnSources E b t)" if "cleared t" for b and t :: "'a service"
    using that by (simp add: OnSources_def Let_def) (simp add: cleared_def)
  have "cleared (foldl (\<lambda>s b. OnSources E b s) t bs)" if "cleared t" for bs and t :: "'a service"
    using that by (induction bs arbitrary: t) (simp_all add: sources)
  then show "cleared (with_sources E g s)"
    using assms by (simp add: with_sources_def split: option.split)
qed

lemma policy_clears:
  "snd (SetSiteEnabled L E m url b s) \<noteq> s \<Longrightarrow> cleared (snd (SetSiteEnabled L E m url b s))"
  "snd (Configure L E m c s) \<noteq> s \<Longrightarrow> cleared (snd (Configure L E m c s))"
proof -
  show "snd (SetSiteEnabled L E m url b s) \<noteq> s \<Longrightarrow> cleared (snd (SetSiteEnabled L E m url b s))"
    by (auto simp: SetSiteEnabled_def Let_def split: if_splits) (simp_all add: cleared_def)
  have rules: "cleared t \<Longrightarrow> cleared (EnsureRules L E t)" "cleared t \<Longrightarrow> cleared (ReleaseRules L E t)"
    for t :: "'a service"
    by (simp_all add: EnsureRules_def ReleaseRules_def cleared_with)
  have start: "cleared ((CancelAll r s)\<lparr>ps_revision := n, ps_enabled := e, ps_provider := p,
      ps_consent := k, ps_cache := [], ps_cloud_status := cs, ps_cloud_reason := cr\<rparr>)" for r n e p k cs cr
    by (simp add: cleared_def)
  show "snd (Configure L E m c s) \<noteq> s \<Longrightarrow> cleared (snd (Configure L E m c s))"
    by (auto simp: Configure_def Let_def rules start split: option.splits if_splits)
qed

lemma revision_step: "ps_revision s \<le> ps_revision (ps_step L s e)"
proof (cases e)
  case (PvCheck E url t cb b)
  show ?thesis
  proof (cases "answered L E url t s")
    case True
    from Check_answered [OF True, of cb b] PvCheck show ?thesis by auto
  next
    case False
    then show ?thesis
      using revision_rules(1) [of s L E] PvCheck
      by (simp add: Check_asked asked_def Let_def AskCloud_def put_pending_def split: option.split)
  qed
next
  case (PvConfigure E m c)
  then show ?thesis using revision_policy(2) [of L E m c s]
    by (cases "snd (Configure L E m c s) = s") simp_all
next
  case (PvLegacy E m b)
  then show ?thesis using revision_policy(2) [of L E m "legacy_command b s" s]
    by (cases "snd (Configure L E m (legacy_command b s) s) = s") (simp_all add: SetLegacyEnabled_def)
next
  case (PvSite E m url b)
  then show ?thesis using revision_policy(1) [of L E m url b s]
    by (cases "snd (SetSiteEnabled L E m url b s) = s") simp_all
qed (simp_all add: revision_observers OnCloud_def Timeout_def Service_Cancel_def put_pending_def
      UpdateRules_def Let_def split: option.split)

interpretation ps_revisions: ratchet "ps_step L" ps_ok "ps_inv L" ps_revision "(\<le>)" for L :: "'u lib"
  by unfold_locales (simp_all add: revision_step)

end
