(* ===== verification/Service_Properties.thy ===== *)
theory Service_Properties
  imports Service_Privacy Updater_Properties
begin

text \<open>
  The properties of the protection service, for every state that a run of the machine of
  \<open>Service_Machine\<close> reaches from a service that was just created with an updater and the
  subscriptions of its profile.
\<close>

section \<open>A sample run\<close>

text \<open>A profile opts in to the cloud provider and checks a URL.\<close>

definition svc_command :: dict where
  "svc_command = empty_dict\<lparr>
     find_int := (\<lambda>k. if k = ''expectedRevision'' then Some 1 else None),
     find_bool := (\<lambda>k. if k = ''enabled'' \<or> k = ''cloudConsent'' then Some True else None),
     find_string := (\<lambda>k. if k = ''contextId'' then Some ''token'' else
                         if k = ''provider'' then Some ''huawei'' else None)\<rparr>"

abbreviation svc_updater :: "string updater" where
  "svc_updater \<equiv> RuleUpdater_Impl update_lib (Some 3) (Some ''old'') True"

abbreviation svc_sources :: sources where
  "svc_sources \<equiv> RuleSources_Impl update_lib (at_time 1000000) []"

definition svc_start :: "string service" where
  "svc_start = Service_Impl update_lib (at_ticks 0) False empty_dict svc_updater svc_sources"

definition svc_env :: env where
  "svc_env = (at_ticks 5)\<lparr>token := ''id''\<rparr>"

definition svc_events :: "string ps_event list" where
  "svc_events = [PvConfigure (at_ticks 0) True svc_command,
     PvCheck svc_env ''https://a.test/p'' 1000000 7 5]"

definition svc_mid :: "string service" where
  "svc_mid = foldl (ps_step update_lib) svc_start svc_events"

definition svc_call :: "string pending" where
  "svc_call = \<lparr>pn_url = ''https://a.test/p'', pn_checked_url = ''https://a.test/p'', pn_callback = 7,
     pn_result = Unknown ''https://a.test/p'' ''unavailable'', pn_waiting_local = False,
     pn_waiting_cloud = True, pn_bridge_id = 5, pn_deadline = 1000005\<rparr>"

lemma svc_url: "CloudCheckUrl update_lib ''https://a.test/p'' = ''https://a.test/p''"
  "IsPublicHttpUrl update_lib ''https://a.test/p''" "url_is_valid update_lib ''https://a.test/p''"
  "origin_serialize update_lib ''https://a.test/p'' = ''https://a.test''"
  by (simp_all add: CloudCheckUrl_def update_lib_def sample_lib_def url_rest_def IsPublicHttpUrl_def
      starts_with_def ends_with_def strip_trailing_dots_def segments_short.simps)

lemma svc_start_eq:
  "svc_start = \<lparr>ps_off_record = False, ps_enabled = False, ps_consent = False, ps_provider = ''local'',
     ps_exceptions = {}, ps_context_id = ''token'', ps_revision = 1, ps_cloud_status = ''unverified'',
     ps_cloud_reason = [], ps_rules = missing_rules, ps_updater = Some svc_updater,
     ps_sources = Some svc_sources, ps_loading = False, ps_rules_acquired = False, ps_pending = [],
     ps_cache = [], ps_log = []\<rparr>"
proof -
  have "up_rules svc_updater = missing_rules"
    by (simp add: RuleUpdater_Impl_def InitializeState_def up_post_def Let_def)
  then show ?thesis
    by (simp add: svc_start_def Service_Impl_def UsesLocal_def empty_dict_def at_ticks_def
        missing_rules_def Let_def)
qed

definition svc_log :: "string ps_effect list" where
  "svc_log = ps_log (snd (Configure update_lib (at_ticks 0) True svc_command svc_start))"

definition svc_ready :: "string service" where
  "svc_ready = svc_start\<lparr>ps_enabled := True, ps_consent := True, ps_provider := ''huawei'',
     ps_revision := 2, ps_log := svc_log\<rparr>"

lemma svc_configured: "Configure update_lib (at_ticks 0) True svc_command svc_start = ([], svc_ready)"
proof -
  have "snd (Configure update_lib (at_ticks 0) True svc_command svc_start) =
      svc_ready\<lparr>ps_log := ps_log (snd (Configure update_lib (at_ticks 0) True svc_command svc_start))\<rparr>"
    and "fst (Configure update_lib (at_ticks 0) True svc_command svc_start) = []"
    by (simp_all add: Configure_def svc_command_def empty_dict_def svc_start_eq svc_ready_def
        ValidProvider_def CancelAll_def Persist_def UsesLocal_def ReleaseRules_def
        Broadcast_def SendConfigure_def ps_emit_def Let_def)
  moreover have "svc_ready\<lparr>ps_log := svc_log\<rparr> = svc_ready" by (simp add: svc_ready_def)
  ultimately show ?thesis by (simp add: svc_log_def [symmetric] prod_eq_iff)
qed

lemma svc_checked:
  "Check update_lib svc_env ''https://a.test/p'' 1000000 7 5 svc_ready =
     (''id'', svc_ready\<lparr>ps_pending := [(''id'', svc_call)],
        ps_log := svc_log @ [PsCloud ''id'' ''https://a.test/p'' 1000, PsTimer ''id'' 1000000]\<rparr>)"
  by (simp add: Check_def svc_ready_def svc_start_eq IsSiteEnabled_def KnownRisk_def UsesLocal_def
      UsesCloud_def svc_url Unknown_def mk_result_def dangerous_def kMaxPending_def kBudget_def
      span_defs svc_env_def at_ticks_def new_call_def put_pending_def AskCloud_def ps_emit_def
      MaybeComplete_def svc_call_def Let_def)

lemma svc_mid_eq: "svc_mid = svc_ready\<lparr>ps_pending := [(''id'', svc_call)],
    ps_log := svc_log @ [PsCloud ''id'' ''https://a.test/p'' 1000, PsTimer ''id'' 1000000]\<rparr>"
  by (simp add: svc_mid_def svc_events_def svc_configured svc_checked)

lemma svc_run: "guarded_run (ps_step update_lib) ps_ok svc_start svc_events"
  by (simp add: svc_events_def svc_configured) (simp add: svc_ready_def svc_start_eq)

lemma svc_time: "0 < now (at_time 1000000)"
  by (simp add: at_time_def)

lemmas svc_reached = svc_run [unfolded svc_start_def] svc_mid_def [unfolded svc_start_def]

section \<open>Properties\<close>

lemma service_run_inv:
  assumes "0 < now E'"
    and "s0 = Service_Impl L E off_record config (RuleUpdater_Impl L pref_sequence pref_digest assets)
           (RuleSources_Impl L E' pref)"
    and "guarded_run (ps_step L) ps_ok s0 es" and "s = foldl (ps_step L) s0 es"
  shows "ps_inv L s0" "tickets s0 cb = 0" "ps_inv L s"
    "tickets s cb = length (filter (\<lambda>e. ps_issues e = Some cb) es)"
proof -
  show init: "ps_inv L s0" "tickets s0 cb = 0"
    unfolding assms(2) using ps_inv_init [OF up_inv_init src_inv_init [OF assms(1)]] by blast+
  show "ps_inv L s" unfolding assms(4) by (rule ps_guarded.inv_run [OF init(1) assms(3)])
  show "tickets s cb = length (filter (\<lambda>e. ps_issues e = Some cb) es)"
    unfolding assms(4) using ps_guarded.held_run [OF init(1) assms(3)] init(2) by simp
qed

text \<open>C1: Every check is answered exactly once. In a run, however checks, replies of the cloud,
  timeouts, cancellations, changes of policy and notifications interleave, a callback was
  posted as often as it was given to \<open>Check\<close>, less the calls that are still pending with it.\<close>

theorem every_check_is_answered_once:
  assumes "0 < now E'"
    and "s0 = Service_Impl L E off_record config (RuleUpdater_Impl L pref_sequence pref_digest assets)
           (RuleSources_Impl L E' pref)"
    and "guarded_run (ps_step L) ps_ok s0 es" and "s = foldl (ps_step L) s0 es"
  shows "count_list (posted (ps_log s)) cb +
      length (filter (\<lambda>p. pn_callback (snd p) = cb) (ps_pending s)) =
    length (filter (\<lambda>e. ps_issues e = Some cb) es)"
proof -
  have "om_sum (waits_for cb) l = length (filter (\<lambda>p. pn_callback (snd p) = cb) l)"
    for l :: "(string \<times> 'a pending) list"
    by (induction l) (auto simp: om_sum_def waits_for_def)
  then show ?thesis using service_run_inv(4) [OF assms, of cb] by (simp add: tickets_def)
qed

lemma every_check_is_answered_once_witness:
  "count_list (posted (ps_log svc_mid)) 7 = 0"
  using every_check_is_answered_once [OF svc_time refl svc_reached, of 7]
  by (simp add: svc_events_def) (simp add: svc_mid_eq svc_call_def)

text \<open>A check that is not answered at once has a timer of at most 1.5 seconds, and whatever
  happened in between, the timer ends the check: it is not pending afterwards, and its
  callback, if it was still pending, is posted with a result for the URL that was asked.\<close>

lemma timer_ends_every_check:
  assumes "0 < now E'"
    and "s0 = Service_Impl L E off_record config (RuleUpdater_Impl L pref_sequence pref_digest assets)
           (RuleSources_Impl L E' pref)"
    and "guarded_run (ps_step L) ps_ok s0 es" and "s = foldl (ps_step L) s0 es"
  shows "(fst (Check L E1 url timeout cb bridge s) = [] \<or>
      (\<exists>t. 0 < t \<and> t \<le> millis 1500 \<and>
        PsTimer (token E1) t \<in> set (ps_log (snd (Check L E1 url timeout cb bridge s))))) \<and>
    map_of (ps_pending (Timeout i s)) i = None \<and>
    (map_of (ps_pending s) i = None \<or>
      (\<exists>r. PsPost (pn_callback (the (map_of (ps_pending s) i))) r \<in>
            set (drop (length (ps_log s)) (ps_log (Timeout i s))) \<and>
          r_url r = pn_url (the (map_of (ps_pending s) i))))"
proof -
  have inv: "ps_inv L s" by (rule service_run_inv(3) [OF assms])
  have timer: "fst (Check L E1 url timeout cb bridge s) = [] \<or>
      (\<exists>t. 0 < t \<and> t \<le> millis 1500 \<and>
        PsTimer (token E1) t \<in> set (ps_log (snd (Check L E1 url timeout cb bridge s))))"
  proof (cases "answered L E1 url timeout s")
    case True
    from Check_answered [OF True, of cb bridge] show ?thesis by auto
  next
    case False
    have "PsTimer i t \<in> set (ps_log (MaybeComplete k (ps_emit (PsTimer i t) s')))"
      for i t k and s' :: "'a service"
      by (simp add: MaybeComplete_def CancelBridge_def split: option.split)
    then have "PsTimer (token E1) (min timeout kBudget) \<in>
        set (ps_log (snd (Check L E1 url timeout cb bridge s)))"
      using False by (simp add: Check_asked asked_def Let_def)
    moreover have "0 < min timeout kBudget" "min timeout kBudget \<le> millis 1500"
      using False by (auto simp: answered_def kBudget_def span_defs)
    ultimately show ?thesis by blast
  qed
  show ?thesis
  proof (cases "map_of (ps_pending s) i")
    case None
    with timer show ?thesis by (simp add: Timeout_def)
  next
    case (Some c)
    let ?c = "c\<lparr>pn_waiting_local := False, pn_waiting_cloud := False\<rparr>"
    have "om_ok (ps_pending s)" using inv by (simp add: ps_inv_def ps_pre_def tables_ok_def)
    then have "map_of (om_del i (om_put i ?c (ps_pending s))) i = None"
      by (auto simp: om_del_def map_of_eq_None_iff)
    moreover have "r_url (pn_result c) = pn_url c"
      using pending_call(2) [OF inv Some] by (simp add: call_ok_def)
    ultimately show ?thesis
      using timer Some
      by (auto simp: Timeout_def MaybeComplete_def put_pending_def CancelBridge_def)
  qed
qed

text \<open>In every reachable state at most 128 checks are pending, 256 verdicts are cached and
  1,000 origins are exempt; consent is held only while the service is enabled with a cloud
  provider; and every pending check is still open: not known to be dangerous, and waiting for
  the local rules or the cloud.\<close>

lemma service_tables_are_bounded:
  assumes "0 < now E'"
    and "s0 = Service_Impl L E off_record config (RuleUpdater_Impl L pref_sequence pref_digest assets)
           (RuleSources_Impl L E' pref)"
    and "guarded_run (ps_step L) ps_ok s0 es" and "s = foldl (ps_step L) s0 es"
  shows "length (ps_pending s) \<le> 128 \<and> length (ps_cache s) \<le> 256 \<and>
    finite (ps_exceptions s) \<and> card (ps_exceptions s) \<le> 1000 \<and>
    (ps_consent s \<longrightarrow> ps_enabled s \<and> ps_provider s \<noteq> ''local'') \<and>
    (\<forall>p \<in> set (ps_pending s). \<not> dangerous (pn_result (snd p)) \<and>
       (pn_waiting_local (snd p) \<or> pn_waiting_cloud (snd p) \<and> UsesCloud s))"
proof -
  have inv: "ps_inv L s" by (rule service_run_inv(3) [OF assms])
  then have tables: "length (ps_pending s) \<le> 128" "length (ps_cache s) \<le> 256"
      "finite (ps_exceptions s)" "card (ps_exceptions s) \<le> 1000"
      "ps_consent s \<longrightarrow> ps_enabled s \<and> ps_provider s \<noteq> ''local''"
    by (simp_all add: ps_inv_def ps_pre_def tables_ok_def policy_ok_def kMaxPending_def kMaxCached_def
        kMaxExceptions_def)
  have "\<not> dangerous (pn_result (snd p)) \<and>
       (pn_waiting_local (snd p) \<or> pn_waiting_cloud (snd p) \<and> UsesCloud s)"
    if "p \<in> set (ps_pending s)" for p
  proof -
    have "call_ok L s (snd p)" "call_open (snd p)"
      using inv that by (simp_all add: ps_inv_def ps_pre_def tables_ok_def all_open_def)
    then show ?thesis by (auto simp: call_ok_def call_open_def)
  qed
  with tables show ?thesis by blast
qed

text \<open>C22: In every reachable state at most 128 checks are pending, 256 verdicts are cached and
  1,000 origins are exempt; consent is held only while the service is enabled with a cloud
  provider; and every pending check is still open: not known to be dangerous, and waiting for
  the local rules or the cloud. A check that is not answered at once has a timer of at most 1.5
  seconds, and whatever happened in between, the timer ends the check: it is not pending afterwards,
  and its callback, if it was still pending, is posted with a result for the URL that was asked.\<close>

theorem pending_checks_are_bounded_and_end:
  assumes "0 < now E'"
    and "s0 = Service_Impl L E off_record config (RuleUpdater_Impl L pref_sequence pref_digest assets)
           (RuleSources_Impl L E' pref)"
    and "guarded_run (ps_step L) ps_ok s0 es" and "s = foldl (ps_step L) s0 es"
  shows "length (ps_pending s) \<le> 128 \<and> length (ps_cache s) \<le> 256 \<and>
    finite (ps_exceptions s) \<and> card (ps_exceptions s) \<le> 1000 \<and>
    (ps_consent s \<longrightarrow> ps_enabled s \<and> ps_provider s \<noteq> ''local'') \<and>
    (\<forall>p \<in> set (ps_pending s). \<not> dangerous (pn_result (snd p)) \<and>
       (pn_waiting_local (snd p) \<or> pn_waiting_cloud (snd p) \<and> UsesCloud s)) \<and>
    (fst (Check L E1 url timeout cb bridge s) = [] \<or>
      (\<exists>t. 0 < t \<and> t \<le> millis 1500 \<and>
        PsTimer (token E1) t \<in> set (ps_log (snd (Check L E1 url timeout cb bridge s))))) \<and>
    map_of (ps_pending (Timeout i s)) i = None \<and>
    (map_of (ps_pending s) i = None \<or>
      (\<exists>r. PsPost (pn_callback (the (map_of (ps_pending s) i))) r \<in>
            set (drop (length (ps_log s)) (ps_log (Timeout i s))) \<and>
          r_url r = pn_url (the (map_of (ps_pending s) i))))"
  using service_tables_are_bounded [OF assms] timer_ends_every_check [OF assms] by blast

lemma pending_checks_are_bounded_and_end_witness:
  "length (ps_pending svc_mid) = 1 \<and> ps_provider svc_mid \<noteq> ''local'' \<and> UsesCloud svc_mid \<and>
   (\<exists>r. PsPost 7 r \<in> set (ps_log (Timeout ''id'' svc_mid)) \<and> r_url r = ''https://a.test/p'')"
proof -
  have pending: "map_of (ps_pending svc_mid) ''id'' = Some svc_call" "length (ps_pending svc_mid) = 1"
    "\<not> pn_waiting_local svc_call" "svc_call \<in> snd ` set (ps_pending svc_mid)" "ps_consent svc_mid"
    by (simp_all add: svc_mid_eq svc_call_def svc_ready_def)
  note all = pending_checks_are_bounded_and_end [OF svc_time refl svc_reached, where i = "''id''" and
      ?E1.0 = svc_env and url = "[]" and timeout = 0 and cb = 0 and bridge = 0]
  from all pending(5) have "ps_provider svc_mid \<noteq> ''local''" by blast
  moreover from all pending(3,4) have "UsesCloud svc_mid" by fastforce
  moreover from all pending(1) have "\<exists>r. PsPost 7 r \<in> set (ps_log (Timeout ''id'' svc_mid)) \<and> r_url r = ''https://a.test/p''"
    by (auto simp: svc_call_def dest: in_set_dropD)
  ultimately show ?thesis using pending(2) by blast
qed

text \<open>Without a configuration command that carries the consent, the cloud is never asked:
  no preference, no legacy switch, no notification and no reply can turn it on.\<close>

lemma cloud_needs_consent:
  assumes "0 < now E'"
    and "s0 = Service_Impl L E off_record config (RuleUpdater_Impl L pref_sequence pref_digest assets)
           (RuleSources_Impl L E' pref)"
    and "guarded_run (ps_step L) ps_ok s0 es" and "s = foldl (ps_step L) s0 es"
    and "\<forall>e \<in> set es. \<not> consents e"
  shows "\<not> ps_consent s \<and> (\<forall>i u t. PsCloud i u t \<notin> set (ps_log s))"
proof -
  have init: "ps_inv L s0" by (rule service_run_inv(1) [OF assms(1-4)])
  have "ps_conf t = ps_conf u \<Longrightarrow> ps_consent t = ps_consent u" for t u :: "'a service"
    by (simp add: ps_conf_def)
  note same = this [OF conf_rules(1)]
  have start: "\<not> ps_consent s0 \<and> cloud_asks s0 = []"
    unfolding assms(2) by (simp add: Service_Impl_def Let_def same) (simp add: cloud_asks_def)
  have "guarded_run (ps_step L) (\<lambda>s e. ps_ok s e \<and> \<not> consents e) s0 es"
    using assms(3,5) by (induction es arbitrary: s0) auto
  then have "\<not> ps_consent s \<and> cloud_asks s = []"
    unfolding assms(4) using ps_private.inv_run init start by blast
  then show ?thesis by (fastforce simp: cloud_asks_def filter_empty_conv)
qed

text \<open>What the cloud is asked is always a URL that \<open>CloudCheckUrl\<close> released, and a step sends
  a request only when it is a check and the policy in force uses the cloud: the service is
  enabled, a cloud provider is chosen, and the consent was given.\<close>

lemma cloud_sees_released_urls_only:
  assumes "0 < now E'"
    and "s0 = Service_Impl L E off_record config (RuleUpdater_Impl L pref_sequence pref_digest assets)
           (RuleSources_Impl L E' pref)"
    and "guarded_run (ps_step L) ps_ok s0 es" and "s = foldl (ps_step L) s0 es"
  shows "(\<forall>i u t. PsCloud i u t \<in> set (ps_log s) \<longrightarrow>
      (\<exists>url. u = spec L (CloudCheckUrl L url) \<and> url_is_valid L (CloudCheckUrl L url))) \<and>
    (\<forall>e. ps_ok s e \<longrightarrow> cloud_asks (ps_step L s e) \<noteq> cloud_asks s \<longrightarrow>
      UsesCloud s \<and> (\<exists>E url t cb b. e = PvCheck E url t cb b))"
proof -
  have inv: "ps_inv L s" by (rule service_run_inv(3) [OF assms])
  then have "list_all (effect_ok L) (ps_log s)" by (simp add: ps_inv_def ps_pre_def cloud_ok_def)
  then have log: "effect_ok L x" if "x \<in> set (ps_log s)" for x using that by (simp add: list_all_iff)
  have "\<exists>url. u = spec L (CloudCheckUrl L url) \<and> url_is_valid L (CloudCheckUrl L url)"
    if "PsCloud i u t \<in> set (ps_log s)" for i u t
    using log [OF that] by simp
  then show ?thesis using step_asks [OF inv] by blast
qed

text \<open>C17: What the cloud is asked is always a URL that \<open>CloudCheckUrl\<close> released, and a step sends
  a request only when it is a check and the policy in force uses the cloud: the service is
  enabled, a cloud provider is chosen, and the consent was given. Without a configuration command
  that carries the consent the cloud is never asked: no preference, no legacy switch, no
  notification and no reply can turn it on.\<close>

theorem cloud_sees_released_urls_with_consent:
  assumes "0 < now E'"
    and "s0 = Service_Impl L E off_record config (RuleUpdater_Impl L pref_sequence pref_digest assets)
           (RuleSources_Impl L E' pref)"
    and "guarded_run (ps_step L) ps_ok s0 es" and "s = foldl (ps_step L) s0 es"
  shows "(\<forall>i u t. PsCloud i u t \<in> set (ps_log s) \<longrightarrow>
      (\<exists>url. u = spec L (CloudCheckUrl L url) \<and> url_is_valid L (CloudCheckUrl L url))) \<and>
    (\<forall>e. ps_ok s e \<longrightarrow> cloud_asks (ps_step L s e) \<noteq> cloud_asks s \<longrightarrow>
      UsesCloud s \<and> (\<exists>E url t cb b. e = PvCheck E url t cb b)) \<and>
    ((\<forall>e \<in> set es. \<not> consents e) \<longrightarrow> \<not> ps_consent s \<and> (\<forall>i u t. PsCloud i u t \<notin> set (ps_log s)))"
  using cloud_sees_released_urls_only [OF assms] cloud_needs_consent [OF assms] by blast

lemma cloud_sees_released_urls_with_consent_witness:
  "(\<exists>url. ''https://a.test/p'' = spec update_lib (CloudCheckUrl update_lib url) \<and>
     url_is_valid update_lib (CloudCheckUrl update_lib url)) \<and>
   \<not> ps_consent (foldl (ps_step update_lib) svc_start [PvLegacy (at_ticks 0) True True])"
proof -
  have "PsCloud ''id'' ''https://a.test/p'' 1000 \<in> set (ps_log svc_mid)" by (simp add: svc_mid_eq)
  then have "\<exists>url. ''https://a.test/p'' = spec update_lib (CloudCheckUrl update_lib url) \<and>
      url_is_valid update_lib (CloudCheckUrl update_lib url)"
    using cloud_sees_released_urls_with_consent [OF svc_time refl svc_reached] by blast
  moreover have "\<not> ps_consent (foldl (ps_step update_lib) svc_start [PvLegacy (at_ticks 0) True True])"
  proof -
    let ?es = "[PvLegacy (at_ticks 0) True True]"
    have "guarded_run (ps_step update_lib) ps_ok svc_start ?es" "\<forall>e \<in> set ?es. \<not> consents e" by simp_all
    with cloud_sees_released_urls_with_consent [OF svc_time svc_start_def _ refl, of ?es] show ?thesis by blast
  qed
  ultimately show ?thesis by blast
qed

text \<open>C9: A change of policy, by a command or by an exception for a site, ends every pending check
  and empties the cache, and the reply to any request that was sent before it is ignored for
  ever after: it neither answers a check nor fills the cache.\<close>

theorem policy_change_voids_replies:
  assumes "0 < now E'"
    and "s0 = Service_Impl L E off_record config (RuleUpdater_Impl L pref_sequence pref_digest assets)
           (RuleSources_Impl L E' pref)"
    and "guarded_run (ps_step L) ps_ok s0 es" and "s = foldl (ps_step L) s0 es"
    and "s' = snd (Configure L E1 modifiable command s) \<or> s' = snd (SetSiteEnabled L E1 modifiable url b s)"
    and "s' \<noteq> s" and "guarded_run (ps_step L) ps_ok s' later"
  shows "ps_pending s' = [] \<and> ps_cache s' = [] \<and>
    OnCloud L E2 i (ps_revision s) reply (foldl (ps_step L) s' later) = foldl (ps_step L) s' later"
proof -
  have inv: "ps_inv L s" by (rule service_run_inv(3) [OF assms(1-4)])
  have cleared: "cleared s'" 
    using assms(5,6) policy_clears(1) [of L E1 modifiable url b s] policy_clears(2) [of L E1 modifiable command s]
    by (elim disjE) simp_all
  have newer: "ps_revision s < ps_revision s'" 
    using assms(5,6) revision_policy(1) [of L E1 modifiable url b s] revision_policy(2) [of L E1 modifiable command s]
    by (elim disjE) simp_all
  have "serves L s s'" 
    using assms(5) Configure_serves [OF inv, of E1 modifiable command]
      SetSiteEnabled_serves [OF inv, of E1 modifiable url b] by (elim disjE) simp_all
  then have "ps_revision s' \<le> ps_revision (foldl (ps_step L) s' later)"
    by (intro ps_revisions.mark_run assms(7)) (simp add: serves_def)
  with newer have "ps_revision s \<noteq> ps_revision (foldl (ps_step L) s' later)" by simp
  with cleared show ?thesis by (simp add: OnCloud_def cleared_def split: option.split)
qed

definition svc_reply :: cloud_reply where
  "svc_reply = \<lparr>cr_ok = True, cr_data = svc_command\<rparr>"

lemma policy_change_voids_replies_witness:
  "OnCloud update_lib svc_env ''id'' 2 svc_reply (snd (SetSiteEnabled update_lib svc_env True ''https://a.test/p'' False svc_mid)) =
   snd (SetSiteEnabled update_lib svc_env True ''https://a.test/p'' False svc_mid)"
proof -
  let ?s = "snd (SetSiteEnabled update_lib svc_env True ''https://a.test/p'' False svc_mid)"
  have mid: "ps_exceptions svc_mid = {}" "ps_revision svc_mid = 2" "ps_enabled svc_mid"
    "ps_pending svc_mid = [(''id'', svc_call)]"
    by (simp_all add: svc_mid_eq) (simp_all add: svc_ready_def svc_start_eq)
  then have "ps_pending ?s = []"
    by (simp add: SetSiteEnabled_def svc_url CanSetSiteEnabled_def kMaxExceptions_def Let_def)
  with mid have "?s \<noteq> svc_mid" by auto
  from policy_change_voids_replies [OF svc_time refl svc_reached disjI2 [OF refl] this, where later = "[]"] mid
  show ?thesis by simp
qed

text \<open>C33: A configuration command is refused, with the first reason that applies and without any
  effect, when it is for another context, was made for another revision, is incomplete or
  names an unknown provider, or when the preference is managed; otherwise it is accepted, the
  policy is the one it asks for, with consent only for an enabled cloud provider.\<close>

theorem configure_outcome:
  "fst (Configure L E modifiable command s) =
     (if find_string command ''contextId'' \<noteq> Some (ps_context_id s) then ''invalid_context''
      else if find_int command ''expectedRevision'' \<noteq> Some (ps_revision s) then ''stale_policy''
      else if find_bool command ''enabled'' = None \<or> find_bool command ''cloudConsent'' = None \<or>
          find_string command ''provider'' \<notin> {Some ''local'', Some ''huawei'', Some ''both''}
      then ''invalid_request''
      else if \<not> ps_off_record s \<and> \<not> modifiable then ''managed'' else []) \<and>
   (fst (Configure L E modifiable command s) \<noteq> [] \<longrightarrow> snd (Configure L E modifiable command s) = s) \<and>
   (fst (Configure L E modifiable command s) = [] \<longrightarrow>
      ps_revision s < ps_revision (snd (Configure L E modifiable command s)) \<and>
      Some (ps_enabled (snd (Configure L E modifiable command s))) = find_bool command ''enabled'' \<and>
      Some (ps_provider (snd (Configure L E modifiable command s))) = find_string command ''provider'' \<and>
      ps_consent (snd (Configure L E modifiable command s)) =
        (find_bool command ''enabled'' = Some True \<and> find_string command ''provider'' \<noteq> Some ''local'' \<and>
         find_bool command ''cloudConsent'' = Some True))"
proof -
  let ?r = "Configure L E modifiable command s"
  have reason: "fst ?r =
     (if find_string command ''contextId'' \<noteq> Some (ps_context_id s) then ''invalid_context''
      else if find_int command ''expectedRevision'' \<noteq> Some (ps_revision s) then ''stale_policy''
      else if find_bool command ''enabled'' = None \<or> find_bool command ''cloudConsent'' = None \<or>
          find_string command ''provider'' \<notin> {Some ''local'', Some ''huawei'', Some ''both''}
      then ''invalid_request''
      else if \<not> ps_off_record s \<and> \<not> modifiable then ''managed'' else [])"
    by (simp add: Configure_def ValidProvider_def Let_def split: option.split)
  have "fst ?r \<noteq> [] \<longrightarrow> snd ?r = s"
    by (simp add: Configure_def Let_def split: option.split)
  moreover have "ps_revision s < ps_revision (snd ?r) \<and>
      Some (ps_enabled (snd ?r)) = find_bool command ''enabled'' \<and>
      Some (ps_provider (snd ?r)) = find_string command ''provider'' \<and>
      ps_consent (snd ?r) = (find_bool command ''enabled'' = Some True \<and>
        find_string command ''provider'' \<noteq> Some ''local'' \<and>
        find_bool command ''cloudConsent'' = Some True)" if accepted: "fst ?r = []"
  proof -
    obtain enabled consent provider where
      opts: "find_bool command ''enabled'' = Some enabled" "find_bool command ''cloudConsent'' = Some consent"
        "find_string command ''provider'' = Some provider"
      and guards: "find_string command ''contextId'' = Some (ps_context_id s)"
        "find_int command ''expectedRevision'' = Some (ps_revision s)" "ValidProvider provider"
        "ps_off_record s \<or> modifiable"
      using accepted unfolding reason by (auto simp: ValidProvider_def split: if_splits)
    let ?t = "CancelAll ''stale_policy'' s"
    let ?u = "?t\<lparr>ps_revision := ps_revision ?t + 1, ps_enabled := enabled, ps_provider := provider,
        ps_consent := (enabled \<and> provider \<noteq> ''local'' \<and> consent), ps_cache := [],
        ps_cloud_status := ''unverified'', ps_cloud_reason := []\<rparr>"
    let ?w = "if UsesLocal (Persist ?u) then EnsureRules L E (Persist ?u) else ReleaseRules L E (Persist ?u)"
    have res: "snd ?r = Broadcast E (ps_emit PsChanged (SendConfigure E ?w))"
      using opts guards(1-3) guards(4) by (cases modifiable) (simp_all add: Configure_def Let_def)
    have "ps_revision (Persist ?u) \<le> ps_revision ?w"
      using revision_rules(1) [of "Persist ?u"] revision_rules(2) [of "Persist ?u"] by simp
    then have "ps_revision s < ps_revision (snd ?r)" unfolding res by simp
    moreover have "ps_conf (snd ?r) = ps_conf ?u" unfolding res by simp
    then have "ps_enabled (snd ?r) = enabled" "ps_provider (snd ?r) = provider"
        "ps_consent (snd ?r) = (enabled \<and> provider \<noteq> ''local'' \<and> consent)"
      by (simp_all add: ps_conf_def)
    ultimately show ?thesis using opts by auto
  qed
  ultimately show ?thesis using reason by blast
qed

lemma configure_outcome_witness:
  "fst (Configure update_lib (at_ticks 0) False svc_command svc_start) = ''managed'' \<and>
   snd (Configure update_lib (at_ticks 0) False svc_command svc_start) = svc_start"
proof -
  have "fst (Configure update_lib (at_ticks 0) False svc_command svc_start) = ''managed''"
    using configure_outcome [of update_lib "at_ticks 0" False svc_command svc_start]
    by (simp add: svc_command_def svc_start_eq empty_dict_def)
  then show ?thesis
    using configure_outcome [of update_lib "at_ticks 0" False svc_command svc_start] by simp
qed

text \<open>What is known locally is answered at once: for an exempt site, a known danger, or when
  nothing can be checked, one callback is posted, nothing is sent and nothing becomes pending.
  An exempt site is never reported as dangerous, and the answer is for the URL that was asked.\<close>

lemma known_results_need_no_request:
  assumes "\<not> IsSiteEnabled L url s \<or> dangerous (KnownRisk L E url s) \<or> \<not> ps_enabled s \<or>
    \<not> IsPublicHttpUrl L url \<or> timeout \<le> 0 \<or> 128 \<le> length (ps_pending s)"
  shows "\<exists>r. Check L E url timeout cb bridge s = ([], s\<lparr>ps_log := ps_log s @ [PsPost cb r]\<rparr>) \<and>
    r_url r = url \<and> (dangerous r \<longleftrightarrow> IsSiteEnabled L url s \<and> dangerous (KnownRisk L E url s))"
proof -
  have safe: "\<not> dangerous (Unknown url x)" for x by (simp add: dangerous_def Unknown_def mk_result_def)
  have url: "r_url (Unknown url x) = url" for x by (simp add: Unknown_def mk_result_def)
  consider (exempt) "\<not> IsSiteEnabled L url s"
    | (danger) "IsSiteEnabled L url s" "dangerous (KnownRisk L E url s)"
    | (other) "IsSiteEnabled L url s" "\<not> dangerous (KnownRisk L E url s)" by blast
  then show ?thesis
  proof cases
    case exempt
    with safe url show ?thesis
      by (intro exI [of _ "Unknown url ''site_disabled''"]) (simp add: Check_def ps_emit_def)
  next
    case danger
    with KnownRisk_url [OF danger(2)] show ?thesis
      by (intro exI [of _ "KnownRisk L E url s"]) (simp add: Check_def ps_emit_def Let_def)
  next
    case other
    with assms safe url show ?thesis
      by (intro exI [of _ "Unknown url ''not_checked''"]) (auto simp: Check_def ps_emit_def kMaxPending_def Let_def)
  qed
qed

lemma known_results_example:
  "\<exists>r. Check update_lib svc_env ''https://a.test/p'' 1000000 7 5 svc_start =
     ([], svc_start\<lparr>ps_log := ps_log svc_start @ [PsPost 7 r]\<rparr>) \<and> r_url r = ''https://a.test/p''"
  using known_results_need_no_request [of update_lib "''https://a.test/p''" svc_start svc_env 1000000 7 5]
  by (auto simp: svc_start_eq)

end
