(* ===== verification/Navigation_Throttle.thy ===== *)
theory Navigation_Throttle
  imports Service_Machine
begin

text \<open>
  \<open>navigation_throttle.cc\<close>: what protects one tab. \<open>TabProtection\<close> owns the verdict of the
  shown site and checks committed documents; \<open>NavigationThrottle\<close> checks every hop of the
  navigation in flight and defers or blocks it; the warning page grants one bypass. Both
  call the service of the profile, which is part of the state here (\<open>None\<close> when the weak
  pointer is dead). A check is made with a fresh callback number; \<open>pg_checks\<close> and
  \<open>nt_calls\<close> are the callbacks that were bound and whose weak pointers are still valid.
\<close>

section \<open>State\<close>

record 'u nav_handle =
  nh_id :: string
  nh_url :: 'u
  nh_primary :: bool
  nh_same_document :: bool
  nh_committed :: bool
  nh_error_page :: bool
  nh_post :: bool
  nh_prerendered :: bool

record 'u bypass =
  by_url :: 'u
  by_revision :: int
  by_expires :: int

datatype 'u throttle_result =
    PROCEED
  | DEFER
  | CANCEL_AND_IGNORE
  | CANCEL_BLOCKED "'u result" bool int

datatype 'u page_effect =
    PgNotify string
  | PgDisableBackForward
  | PgFlush
  | PgCancelPrerendering
  | PgRiskPage "'u result" int
  | PgResume
  | PgCancelDeferred "'u throttle_result"
  | PgOpen 'u
  | PgGoBack

record 'u page =
  pg_service :: "'u service option"
  pg_next :: nat
  pg_tab_id :: string
  pg_last_url :: 'u
  pg_has_frame :: bool
  pg_interstitial :: bool
  pg_site :: "'u site_state"
  pg_request :: string
  pg_error_page :: bool
  pg_checks :: "(nat \<times> u64 \<times> int) list"
  pg_bypass :: "'u bypass option"
  nt_active :: bool
  nt_handle :: "'u nav_handle"
  nt_urls :: "'u list"
  nt_requests :: "string list"
  nt_risk :: "'u result"
  nt_latest :: "'u result"
  nt_pending :: int
  nt_deferred :: bool
  nt_deadline :: int
  nt_calls :: "(nat \<times> int) list"
  pg_log :: "'u page_effect list"

definition pg_emit :: "'u page_effect \<Rightarrow> 'u page \<Rightarrow> 'u page" where
  "pg_emit e P = P\<lparr>pg_log := pg_log P @ [e]\<rparr>"

definition empty_result :: "'u lib \<Rightarrow> 'u result" where
  "empty_result L = mk_result kUnknown [] [] (empty_url L)"

section \<open>Calls of the service\<close>

text \<open>\<open>ids\<close> gives the request token and the id of the system call for a callback number.\<close>

definition service_check ::
  "'u lib \<Rightarrow> env \<Rightarrow> (nat \<Rightarrow> string \<times> int) \<Rightarrow> 'u \<Rightarrow> int \<Rightarrow> nat \<Rightarrow> 'u service \<Rightarrow> string \<times> 'u service" where
  "service_check L E ids url timeout cb s =
     Check L (E\<lparr>token := fst (ids cb)\<rparr>) url timeout cb (snd (ids cb)) s"

definition service_cancel :: "string \<Rightarrow> 'u page \<Rightarrow> 'u page" where
  "service_cancel i P = P\<lparr>pg_service := map_option (Service_Cancel i) (pg_service P)\<rparr>"

definition Tab_Revision :: "'u page \<Rightarrow> int" where
  "Tab_Revision P = (case pg_service P of Some s \<Rightarrow> ps_revision s | None \<Rightarrow> 0)"

definition Tab_IsEnabled :: "'u lib \<Rightarrow> 'u \<Rightarrow> 'u page \<Rightarrow> bool" where
  "Tab_IsEnabled L url P =
     (case pg_service P of Some s \<Rightarrow> ps_enabled s \<and> IsSiteEnabled L url s | None \<Rightarrow> False)"

definition service_enabled :: "'u page \<Rightarrow> bool" where
  "service_enabled P = (case pg_service P of Some s \<Rightarrow> ps_enabled s | None \<Rightarrow> False)"

section \<open>The protection of a tab\<close>

definition Tab_Notify :: "string \<Rightarrow> 'u page \<Rightarrow> 'u page" where
  "Tab_Notify reason P = (if pg_service P = None then P else pg_emit (PgNotify reason) P)"

definition Tab_IsCurrent :: "'u nav_handle \<Rightarrow> 'u page \<Rightarrow> bool" where
  "Tab_IsCurrent h P \<longleftrightarrow> nh_primary h \<and> IsCurrent (nh_id h) (pg_site P)"

definition CancelCommittedCheck :: "'u page \<Rightarrow> 'u page" where
  "CancelCommittedCheck P =
     (let P = P\<lparr>pg_checks := []\<rparr>;
          P = (if pg_request P \<noteq> [] then service_cancel (pg_request P) P else P)
      in P\<lparr>pg_request := []\<rparr>)"

definition ProtectCurrentDocument :: "'u page \<Rightarrow> 'u page" where
  "ProtectCurrentDocument P =
     (if \<not> service_enabled P \<or> \<not> pg_has_frame P then P else pg_emit PgDisableBackForward P)"

definition Tab_Begin :: "'u lib \<Rightarrow> 'u nav_handle \<Rightarrow> 'u page \<Rightarrow> 'u page" where
  "Tab_Begin L h P =
     (if \<not> nh_primary h \<or> nh_same_document h then P
      else case Begin (empty_url L) (nh_id h) (nh_url h) (Tab_Revision P)
                  (Tab_IsEnabled L (nh_url h) P) (pg_site P) of
        (False, site) \<Rightarrow> P
      | (True, site) \<Rightarrow> Tab_Notify ''navigation_start'' (CancelCommittedCheck (P\<lparr>pg_site := site\<rparr>)))"

definition Tab_DidRedirect :: "'u lib \<Rightarrow> 'u nav_handle \<Rightarrow> 'u page \<Rightarrow> 'u page" where
  "Tab_DidRedirect L h P =
     (if \<not> Tab_IsCurrent h P then P
      else Tab_Notify ''redirect'' (P\<lparr>pg_site := Redirect (nh_url h) (Tab_Revision P)
             (Tab_IsEnabled L (nh_url h) P) (pg_site P)\<rparr>))"

definition CheckCommittedDocument ::
  "'u lib \<Rightarrow> env \<Rightarrow> (nat \<Rightarrow> string \<times> int) \<Rightarrow> 'u page \<Rightarrow> 'u page" where
  "CheckCommittedDocument L E ids P =
     (let url = sn_url (current (pg_site P))
      in if \<not> NeedsCommittedCheck (pg_site P) \<or> pg_request P \<noteq> [] \<or> \<not> Tab_IsEnabled L url P \<or>
            \<not> IsPublicHttpUrl L url \<or> pg_error_page P \<or> url \<noteq> pg_last_url P \<or> pg_interstitial P
         then P
         else case (StartCommittedCheck (pg_site P), pg_service P) of
           ((g, site), Some s) \<Rightarrow>
             (let P = Tab_Notify ''committed_check_start'' (P\<lparr>pg_site := site\<rparr>);
                  (i, s') = service_check L E ids url (millis 1500) (pg_next P) s
              in P\<lparr>pg_service := Some s', pg_next := pg_next P + 1, pg_request := i,
                   pg_checks := pg_checks P @ [(pg_next P, g, Tab_Revision P)]\<rparr>)
         | _ \<Rightarrow> P)"

definition Tab_DidFinish ::
  "'u lib \<Rightarrow> env \<Rightarrow> (nat \<Rightarrow> string \<times> int) \<Rightarrow> 'u nav_handle \<Rightarrow> 'u page \<Rightarrow> 'u page" where
  "Tab_DidFinish L E ids h P =
     (if \<not> nh_primary h then P
      else if nh_same_document h
      then (if \<not> nh_committed h then P
            else let P = CancelCommittedCheck P;
                     P = P\<lparr>pg_site := SameDocumentCommit (nh_id h) (nh_url h) (Tab_Revision P)
                              (Tab_IsEnabled L (nh_url h) P) (pg_site P)\<rparr>
                 in CheckCommittedDocument L E ids (Tab_Notify ''same_document_commit'' P))
      else if \<not> Tab_IsCurrent h P then P
      else let P = P\<lparr>pg_site := Finish (nh_committed h) (nh_url h) (pg_site P)\<rparr>;
               P = (if nh_committed h
                    then ProtectCurrentDocument (P\<lparr>pg_error_page := nh_error_page h\<rparr>) else P)
           in CheckCommittedDocument L E ids
                (Tab_Notify (if nh_committed h then ''navigation_commit'' else ''navigation_abort'') P))"

definition Tab_Report ::
  "'u lib \<Rightarrow> env \<Rightarrow> 'u nav_handle \<Rightarrow> 'u result \<Rightarrow> bool \<Rightarrow> 'u page \<Rightarrow> 'u page" where
  "Tab_Report L E h r checking P =
     (if \<not> Tab_IsCurrent h P then P
      else Tab_Notify ''navigation_result'' (P\<lparr>pg_site := Report r checking
             (Tab_IsEnabled L (if dangerous r then r_url r else sn_url (current (pg_site P))) P)
             (ms_of_time L (now E)) (pg_site P)\<rparr>))"

text \<open>\<open>err\<close> is the handle of the post-commit error page, if one could be loaded.\<close>

definition ShowCommittedRisk ::
  "'u lib \<Rightarrow> env \<Rightarrow> 'u nav_handle option \<Rightarrow> 'u result \<Rightarrow> 'u page \<Rightarrow> 'u page" where
  "ShowCommittedRisk L E err risk P =
     (case err of None \<Rightarrow> P
      | Some h \<Rightarrow> Tab_Report L E h risk False
                   (Tab_Begin L h (pg_emit (PgRiskPage risk (Tab_Revision P)) P)))"

definition OnCommittedResult ::
  "'u lib \<Rightarrow> env \<Rightarrow> 'u nav_handle option \<Rightarrow> u64 \<Rightarrow> int \<Rightarrow> 'u result \<Rightarrow> 'u page \<Rightarrow> 'u page" where
  "OnCommittedResult L E err g revision r P =
     (if pg_service P = None \<or> revision \<noteq> Tab_Revision P \<or> r_url r \<noteq> pg_last_url P then P
      else case CompleteCommittedCheck g revision r (ms_of_time L (now E)) (pg_site P) of
        (False, _) \<Rightarrow> P
      | (True, site) \<Rightarrow>
          let P = Tab_Notify ''committed_check_result'' (P\<lparr>pg_site := site, pg_request := []\<rparr>)
          in if dangerous r then ShowCommittedRisk L E err r (P\<lparr>pg_bypass := None\<rparr>) else P)"

definition Tab_Create :: "'u lib \<Rightarrow> 'u page \<Rightarrow> 'u page" where
  "Tab_Create L P =
     ProtectCurrentDocument (P\<lparr>pg_site := Initialize (pg_last_url P) (Tab_Revision P)
       (Tab_IsEnabled L (pg_last_url P) P) (fresh_site_state (empty_url L)),
       pg_request := [], pg_error_page := False, pg_checks := []\<rparr>)"

definition OnPolicy :: "'u lib \<Rightarrow> env \<Rightarrow> (nat \<Rightarrow> string \<times> int) \<Rightarrow> 'u page \<Rightarrow> 'u page" where
  "OnPolicy L E ids P =
     (let P = CancelCommittedCheck (P\<lparr>pg_bypass := None\<rparr>);
          P = P\<lparr>pg_site := PolicyChanged (Tab_Revision P)
                 (Tab_IsEnabled L (sn_url (current (pg_site P))) P)
                 (Tab_IsEnabled L (sn_url (committed (pg_site P))) P) (pg_site P)\<rparr>;
          P = Tab_Notify ''policy_change'' P;
          P = (if service_enabled P
               then ProtectCurrentDocument (pg_emit PgCancelPrerendering (pg_emit PgFlush P)) else P)
      in CheckCommittedDocument L E ids P)"

section \<open>The warning page\<close>

definition TakeBypass :: "env \<Rightarrow> 'u \<Rightarrow> int \<Rightarrow> 'u page \<Rightarrow> bool \<times> 'u page" where
  "TakeBypass E url revision P =
     (case pg_bypass P of
        None \<Rightarrow> (False, P\<lparr>pg_bypass := None\<rparr>)
      | Some b \<Rightarrow> (by_url b = url \<and> by_revision b = revision \<and> by_expires b > now_ticks E,
                   P\<lparr>pg_bypass := None\<rparr>))"

record 'u controller =
  ct_url :: 'u
  ct_can_proceed :: bool
  ct_used :: bool
  ct_revision :: int

definition Proceed :: "env \<Rightarrow> 'u controller \<Rightarrow> 'u page \<Rightarrow> 'u controller \<times> 'u page" where
  "Proceed E c P =
     (if \<not> ct_can_proceed c \<or> ct_used c \<or> pg_service P = None then (c, P)
      else let P = (if Tab_Revision P = ct_revision c
                    then P\<lparr>pg_bypass := Some \<lparr>by_url = ct_url c, by_revision = ct_revision c,
                             by_expires = now_ticks E + seconds 10\<rparr>\<rparr>
                    else P)
           in (c\<lparr>ct_used := True\<rparr>, pg_emit (PgOpen (ct_url c)) P))"

text \<open>The numbers of the two commands of the page come from the interstitial library.\<close>

definition CommandReceived ::
  "int \<Rightarrow> int \<Rightarrow> env \<Rightarrow> int option \<Rightarrow> 'u controller \<Rightarrow> 'u page \<Rightarrow> 'u controller \<times> 'u page" where
  "CommandReceived dont_proceed do_proceed E command c P =
     (case command of None \<Rightarrow> (c, P)
      | Some v \<Rightarrow> if v = dont_proceed then (c, pg_emit PgGoBack P)
                  else if v = do_proceed \<and> ct_can_proceed c then Proceed E c P else (c, P))"

section \<open>The throttle of a navigation\<close>

definition ReportState :: "'u lib \<Rightarrow> env \<Rightarrow> 'u page \<Rightarrow> 'u page" where
  "ReportState L E P = Tab_Report L E (nt_handle P)
     (if dangerous (nt_risk P) then nt_risk P else nt_latest P) (nt_pending P > 0) P"

definition Block :: "'u lib \<Rightarrow> env \<Rightarrow> 'u page \<Rightarrow> 'u throttle_result \<times> 'u page" where
  "Block L E P =
     (let P = ReportState L E P
      in (CANCEL_BLOCKED (nt_risk P) (\<not> nh_post (nt_handle P)) (Tab_Revision P), P))"

definition BlockOrProceed :: "'u lib \<Rightarrow> env \<Rightarrow> 'u page \<Rightarrow> 'u throttle_result \<times> 'u page" where
  "BlockOrProceed L E P = (if dangerous (nt_risk P) then Block L E P else (PROCEED, P))"

definition AskService ::
  "'u lib \<Rightarrow> env \<Rightarrow> (nat \<Rightarrow> string \<times> int) \<Rightarrow> 'u \<Rightarrow> 'u page \<Rightarrow> 'u page" where
  "AskService L E ids url P =
     (case pg_service P of None \<Rightarrow> P
      | Some s \<Rightarrow>
        (case service_check L E ids url (nt_deadline P - now_ticks E) (pg_next P) s of
           (i, s') \<Rightarrow> P\<lparr>pg_service := Some s', pg_next := pg_next P + 1,
             nt_requests := nt_requests P @ [i], nt_pending := nt_pending P + 1,
             nt_calls := nt_calls P @ [(pg_next P, ps_revision s)]\<rparr>))"

definition CheckCurrentUrl ::
  "'u lib \<Rightarrow> env \<Rightarrow> (nat \<Rightarrow> string \<times> int) \<Rightarrow> 'u page \<Rightarrow> 'u page" where
  "CheckCurrentUrl L E ids P =
     (let url = nh_url (nt_handle P);
          P = P\<lparr>nt_urls := nt_urls P @ [url], nt_latest := mk_result kUnknown [] ''not_checked'' url\<rparr>
      in if \<not> service_enabled P then P
         else case TakeBypass E url (Tab_Revision P) P of
           (True, P) \<Rightarrow> P\<lparr>nt_latest := (nt_latest P)\<lparr>r_reason := ''one_navigation_bypass''\<rparr>\<rparr>
         | (False, P) \<Rightarrow>
           (case pg_service P of None \<Rightarrow> P
            | Some s \<Rightarrow> if dangerous (KnownRisk L E url s) then P\<lparr>nt_risk := KnownRisk L E url s\<rparr>
                        else AskService L E ids url P))"

definition Nav_Create :: "'u lib \<Rightarrow> 'u nav_handle \<Rightarrow> 'u page \<Rightarrow> 'u page" where
  "Nav_Create L h P = P\<lparr>nt_active := True, nt_handle := h, nt_urls := [], nt_requests := [],
     nt_risk := empty_result L, nt_latest := empty_result L, nt_pending := 0, nt_deferred := False,
     nt_deadline := 0, nt_calls := []\<rparr>"

definition Nav_Destroy :: "'u page \<Rightarrow> 'u page" where
  "Nav_Destroy P = (foldl (\<lambda>P i. service_cancel i P) P (nt_requests P))
     \<lparr>nt_active := False, nt_pending := 0, nt_deferred := False, nt_calls := []\<rparr>"

definition WillStartRequest ::
  "'u lib \<Rightarrow> env \<Rightarrow> (nat \<Rightarrow> string \<times> int) \<Rightarrow> 'u page \<Rightarrow> 'u throttle_result \<times> 'u page" where
  "WillStartRequest L E ids P =
     (let P = Tab_Begin L (nt_handle P) P
      in if service_enabled P \<and> nh_prerendered (nt_handle P) then (CANCEL_AND_IGNORE, P)
         else let P = P\<lparr>nt_deadline := now_ticks E + millis 1500\<rparr>
              in BlockOrProceed L E (ReportState L E (CheckCurrentUrl L E ids P)))"

text \<open>A redirect: the handle now has the URL of the next hop.\<close>

definition WillRedirectRequest ::
  "'u lib \<Rightarrow> env \<Rightarrow> (nat \<Rightarrow> string \<times> int) \<Rightarrow> 'u page \<Rightarrow> 'u throttle_result \<times> 'u page" where
  "WillRedirectRequest L E ids P =
     (if dangerous (nt_risk P) then Block L E P
      else BlockOrProceed L E (ReportState L E (CheckCurrentUrl L E ids P)))"

definition WillProcessResponse ::
  "'u lib \<Rightarrow> env \<Rightarrow> 'u page \<Rightarrow> 'u throttle_result \<times> 'u page" where
  "WillProcessResponse L E P =
     (if dangerous (nt_risk P) then Block L E P
      else if nt_pending P > 0 then (DEFER, P\<lparr>nt_deferred := True\<rparr>) else (PROCEED, P))"

definition OnResult :: "'u lib \<Rightarrow> env \<Rightarrow> int \<Rightarrow> 'u result \<Rightarrow> 'u page \<Rightarrow> 'u page" where
  "OnResult L E revision r P =
     (if pg_service P = None \<or> revision \<noteq> Tab_Revision P then P
      else let P = P\<lparr>nt_pending := nt_pending P - 1\<rparr>;
               P = (if nt_urls P \<noteq> [] \<and> r_url r = last (nt_urls P) then P\<lparr>nt_latest := r\<rparr> else P);
               P = (if dangerous r \<and> \<not> dangerous (nt_risk P) then P\<lparr>nt_risk := r\<rparr> else P);
               P = ReportState L E P
           in if nt_deferred P \<and> (dangerous (nt_risk P) \<or> nt_pending P = 0)
              then let P = P\<lparr>nt_deferred := False\<rparr>
                   in if dangerous (nt_risk P)
                      then (case Block L E P of (b, P) \<Rightarrow> pg_emit (PgCancelDeferred b) P)
                      else pg_emit PgResume P
              else P)"

definition OnPolicyChanged ::
  "'u lib \<Rightarrow> env \<Rightarrow> (nat \<Rightarrow> string \<times> int) \<Rightarrow> 'u page \<Rightarrow> 'u page" where
  "OnPolicyChanged L E ids P =
     (let P = P\<lparr>nt_calls := [], nt_pending := 0, nt_risk := empty_result L,
                nt_latest := empty_result L, pg_bypass := None\<rparr>;
          P = (if service_enabled P then foldl (\<lambda>P url. AskService L E ids url P) P (nt_urls P) else P);
          P = ReportState L E P
      in if nt_deferred P \<and> nt_pending P = 0
         then pg_emit PgResume (P\<lparr>nt_deferred := False\<rparr>) else P)"

text \<open>The service has changed; when its policy has, it has told its observers.\<close>

definition ServiceChanged ::
  "'u lib \<Rightarrow> env \<Rightarrow> (nat \<Rightarrow> string \<times> int) \<Rightarrow> 'u service \<Rightarrow> 'u page \<Rightarrow> 'u page" where
  "ServiceChanged L E ids s' P =
     (let changed = (ps_revision s' \<noteq> Tab_Revision P); P = P\<lparr>pg_service := Some s'\<rparr>
      in if \<not> changed then P
         else let P = OnPolicy L E ids P in if nt_active P then OnPolicyChanged L E ids P else P)"

section \<open>Commands of the shell\<close>

record 'u site_report =
  st_service :: "service_report option"
  st_tab_id :: string
  st_navigation_id :: string
  st_origin :: string
  st_revision :: int
  st_site_enabled :: bool
  st_can_override :: bool
  st_verdict :: string
  st_checked_at :: u64
  st_sources :: "string list"
  st_rule_type :: string

definition Tab_State :: "'u lib \<Rightarrow> env \<Rightarrow> bool \<Rightarrow> 'u page \<Rightarrow> 'u site_report" where
  "Tab_State L E modifiable P =
     (let c = current (pg_site P)
      in \<lparr>st_service = map_option (Service_State E) (pg_service P), st_tab_id = pg_tab_id P,
          st_navigation_id = navigation_id c,
          st_origin = (if scheme_is_http_or_https L (sn_url c) then origin_serialize L (sn_url c) else []),
          st_revision = Tab_Revision P,
          st_site_enabled = (case pg_service P of Some s \<Rightarrow> IsSiteEnabled L (sn_url c) s | None \<Rightarrow> False),
          st_can_override = ((case pg_service P of Some s \<Rightarrow> CanSetSiteEnabled modifiable s | None \<Rightarrow> False) \<and>
            navigation_id c \<noteq> [] \<and> IsPublicHttpUrl L (sn_url c)),
          st_verdict = sn_verdict c, st_checked_at = checked_at c,
          st_sources = sn_matched_source_ids c, st_rule_type = sn_rule_type c\<rparr>)"

definition field_matches :: "dict \<Rightarrow> string \<Rightarrow> string \<Rightarrow> bool" where
  "field_matches command key actual \<longleftrightarrow> find_string command key = Some actual \<and> actual \<noteq> []"

text \<open>What is refused before the service is asked; \<open>has_tab\<close>: an active tab of this profile.\<close>

definition SiteCommandReason ::
  "'u lib \<Rightarrow> env \<Rightarrow> bool \<Rightarrow> bool \<Rightarrow> string \<Rightarrow> dict \<Rightarrow> 'u service \<Rightarrow> 'u page \<Rightarrow> string" where
  "SiteCommandReason L E modifiable has_tab name command s P =
     (if \<not> has_tab \<or> \<not> field_matches command ''tabId'' (pg_tab_id P) then ''invalid_tab''
      else if name = ''getSiteProtectionState'' then []
      else let event = Tab_State L E modifiable P
      in if \<not> (case st_service event of None \<Rightarrow> False
               | Some sr \<Rightarrow> field_matches command ''contextId'' (id_context (sr_identity sr)))
         then ''invalid_context''
         else if \<not> field_matches command ''navigationId'' (st_navigation_id event) \<or>
                 \<not> field_matches command ''origin'' (st_origin event) then ''stale_navigation''
         else if find_int command ''expectedRevision'' \<noteq> Some (ps_revision s) then ''stale_policy''
         else if find_bool command ''siteEnabled'' = None then ''invalid_request'' else [])"

record 'u site_reply =
  sp_event :: string
  sp_ok :: bool
  sp_reason :: string
  sp_state :: "service_report + 'u site_report"

definition HandleSiteCommand ::
  "'u lib \<Rightarrow> env \<Rightarrow> (nat \<Rightarrow> string \<times> int) \<Rightarrow> bool \<Rightarrow> bool \<Rightarrow> string \<Rightarrow> dict \<Rightarrow> 'u service \<Rightarrow> 'u page \<Rightarrow>
   'u site_reply option \<times> 'u page" where
  "HandleSiteCommand L E ids modifiable has_tab name command s P =
     (if name \<noteq> ''getSiteProtectionState'' \<and> name \<noteq> ''setSiteProtectionEnabled'' then (None, P)
      else let refused = SiteCommandReason L E modifiable has_tab name command s P;
               (reason, P) =
                 (case find_bool command ''siteEnabled'' of
                    Some enabled \<Rightarrow>
                      if refused = [] \<and> name = ''setSiteProtectionEnabled''
                      then (case SetSiteEnabled L E modifiable (sn_url (current (pg_site P))) enabled s of
                              (r, s') \<Rightarrow> (r, ServiceChanged L E ids s' P))
                      else (refused, P)
                  | None \<Rightarrow> (refused, P))
           in (Some \<lparr>sp_event = (if name = ''getSiteProtectionState'' then ''siteProtectionState''
                                 else ''siteProtectionConfigResult''),
                     sp_ok = (reason = []), sp_reason = reason,
                     sp_state = (if has_tab then Inr (Tab_State L E modifiable P)
                                 else Inl (Service_State E s))\<rparr>, P))"

end
