(* ===== verification/Navigation_Machine.thy ===== *)
theory Navigation_Machine
  imports Navigation_Throttle Service_Privacy
begin

text \<open>
  The protection of a tab as a machine, while the service lives. Its invariant counts the
  checks of the navigation in flight: every one of them was made under the present policy,
  and a navigation that is deferred waits for at least one and has no known danger.
\<close>

section \<open>What the operations of the tab leave alone\<close>

text \<open>The throttle's part of the state, and the policy in force.\<close>

definition nt_view where
  "nt_view P = (nt_active P, nt_handle P, nt_urls P, nt_requests P, nt_risk P, nt_latest P,
     nt_pending P, nt_deferred P, nt_deadline P, nt_calls P)"

definition pg_policy :: "'u page \<Rightarrow> (bool \<times> int) option" where
  "pg_policy P = map_option (\<lambda>s. (ps_enabled s, ps_revision s)) (pg_service P)"

lemma view_frame [simp]:
  "nt_view (P\<lparr>pg_service := x1\<rparr>) = nt_view P" "nt_view (P\<lparr>pg_next := x2\<rparr>) = nt_view P"
  "nt_view (P\<lparr>pg_site := x3\<rparr>) = nt_view P" "nt_view (P\<lparr>pg_request := x4\<rparr>) = nt_view P"
  "nt_view (P\<lparr>pg_error_page := x5\<rparr>) = nt_view P" "nt_view (P\<lparr>pg_checks := x6\<rparr>) = nt_view P"
  "nt_view (P\<lparr>pg_bypass := x7\<rparr>) = nt_view P" "nt_view (pg_emit e P) = nt_view P"
  by (simp_all add: nt_view_def pg_emit_def)

lemma policy_frame [simp]:
  "pg_policy (P\<lparr>pg_next := x2\<rparr>) = pg_policy P" "pg_policy (P\<lparr>pg_site := x3\<rparr>) = pg_policy P"
  "pg_policy (P\<lparr>pg_request := x4\<rparr>) = pg_policy P" "pg_policy (P\<lparr>pg_error_page := x5\<rparr>) = pg_policy P"
  "pg_policy (P\<lparr>pg_checks := x6\<rparr>) = pg_policy P" "pg_policy (P\<lparr>pg_bypass := x7\<rparr>) = pg_policy P"
  "pg_policy (pg_emit e P) = pg_policy P" "pg_policy (P\<lparr>nt_urls := y1\<rparr>) = pg_policy P"
  "pg_policy (P\<lparr>nt_requests := y2\<rparr>) = pg_policy P" "pg_policy (P\<lparr>nt_risk := y3\<rparr>) = pg_policy P"
  "pg_policy (P\<lparr>nt_latest := y3\<rparr>) = pg_policy P" "pg_policy (P\<lparr>nt_pending := y4\<rparr>) = pg_policy P"
  "pg_policy (P\<lparr>nt_deferred := x5\<rparr>) = pg_policy P" "pg_policy (P\<lparr>nt_deadline := y4\<rparr>) = pg_policy P"
  "pg_policy (P\<lparr>nt_calls := y5\<rparr>) = pg_policy P" "pg_policy (P\<lparr>nt_handle := y6\<rparr>) = pg_policy P"
  "pg_policy (P\<lparr>nt_active := x5\<rparr>) = pg_policy P"
  by (simp_all add: pg_policy_def pg_emit_def)

lemma policy_reads: "pg_policy P = pg_policy Q \<Longrightarrow>
    Tab_Revision P = Tab_Revision Q \<and> service_enabled P = service_enabled Q \<and>
    (pg_service P = None \<longleftrightarrow> pg_service Q = None)"
  by (cases "pg_service P"; cases "pg_service Q")
    (auto simp: pg_policy_def Tab_Revision_def service_enabled_def)

lemma Check_revision: "ps_revision (snd (Check L E url t cb b s)) = ps_revision s"
proof (cases "answered L E url t s")
  case True
  from Check_answered [OF True, of cb b] show ?thesis by auto
next
  case False
  have "src_notifies r (RuleSources_Acquire E r) = []" for r
    by (simp add: src_notifies_def RuleSources_Acquire_def RuleSources_Schedule_def Let_def)
  then have "ps_revision (EnsureRules L E s) = ps_revision s"
    by (simp add: EnsureRules_def with_sources_def revision_observers(1) split: option.split)
  then show ?thesis
    using False by (simp add: Check_asked asked_def Let_def AskCloud_def put_pending_def split: option.split)
qed

lemma Check_enabled: "ps_enabled (snd (Check L E url t cb b s)) = ps_enabled s"
proof (cases "answered L E url t s")
  case True
  from Check_answered [OF True, of cb b] show ?thesis by auto
next
  case False
  have "ps_conf (snd (Check L E url t cb b s)) = ps_conf s"
    using False by (simp add: Check_asked asked_def Let_def)
  then show ?thesis by (simp add: ps_conf_def)
qed

lemma Cancel_policy: "ps_revision (Service_Cancel i s) = ps_revision s" "ps_enabled (Service_Cancel i s) = ps_enabled s"
proof -
  have "ps_conf (Service_Cancel i s) = ps_conf s" by simp
  then show "ps_enabled (Service_Cancel i s) = ps_enabled s" by (simp add: ps_conf_def)
qed (simp add: Service_Cancel_def put_pending_def split: option.split)

lemma service_calls [simp]:
  "pg_policy (service_cancel i P) = pg_policy P" "nt_view (service_cancel i P) = nt_view P"
  by (simp_all add: service_cancel_def) (simp add: pg_policy_def option.map_comp comp_def Cancel_policy)

lemma checked: "service_check L E ids url t cb s = (i, s') \<Longrightarrow>
    ps_revision s' = ps_revision s \<and> ps_enabled s' = ps_enabled s"
  using Check_revision [of L "E\<lparr>token := fst (ids cb)\<rparr>" url t cb "snd (ids cb)" s]
    Check_enabled [of L "E\<lparr>token := fst (ids cb)\<rparr>" url t cb "snd (ids cb)" s]
  by (simp add: service_check_def)

lemma tab_frame [simp]:
  "nt_view (Tab_Notify r P) = nt_view P" "pg_policy (Tab_Notify r P) = pg_policy P"
  "nt_view (CancelCommittedCheck P) = nt_view P" "pg_policy (CancelCommittedCheck P) = pg_policy P"
  "nt_view (ProtectCurrentDocument P) = nt_view P" "pg_policy (ProtectCurrentDocument P) = pg_policy P"
  by (simp_all add: Tab_Notify_def CancelCommittedCheck_def ProtectCurrentDocument_def Let_def)

lemma begin_frame [simp]:
  "nt_view (Tab_Begin L h P) = nt_view P" "pg_policy (Tab_Begin L h P) = pg_policy P"
  "nt_view (Tab_DidRedirect L h P) = nt_view P" "pg_policy (Tab_DidRedirect L h P) = pg_policy P"
  "nt_view (Tab_Report L E h r b P) = nt_view P" "pg_policy (Tab_Report L E h r b P) = pg_policy P"
  by (simp_all add: Tab_Begin_def Tab_DidRedirect_def Tab_Report_def split: prod.split bool.split)

lemma check_frame [simp]:
  "nt_view (CheckCommittedDocument L E ids P) = nt_view P"
  "pg_policy (CheckCommittedDocument L E ids P) = pg_policy P"
proof -
  show "nt_view (CheckCommittedDocument L E ids P) = nt_view P"
    by (simp add: CheckCommittedDocument_def Let_def split: option.split prod.split)
  show "pg_policy (CheckCommittedDocument L E ids P) = pg_policy P"
    by (simp add: CheckCommittedDocument_def Let_def split: option.split prod.split)
      (auto simp: pg_policy_def Tab_Notify_def pg_emit_def split: if_splits dest!: checked)
qed

section \<open>The machine\<close>

type_synonym call_ids = "nat \<Rightarrow> string \<times> int"

datatype 'u nav_event =
    NeCreate "'u nav_handle"
  | NeStart env call_ids
  | NeRedirect env call_ids 'u
  | NeResponse env
  | NeResult env nat "'u result"
  | NeService env call_ids "'u service"
  | NeDestroy
  | NeTabBegin "'u nav_handle"
  | NeTabRedirect "'u nav_handle"
  | NeTabFinish env call_ids "'u nav_handle"
  | NeCommitted env "'u nav_handle option" nat "'u result"
  | NeProceed env "'u controller"

definition without :: "nat \<Rightarrow> 'a list \<Rightarrow> 'a list" where
  "without n xs = take n xs @ drop (Suc n) xs"

fun nav_step :: "'u lib \<Rightarrow> 'u page \<Rightarrow> 'u nav_event \<Rightarrow> 'u page" where
  "nav_step L P (NeCreate h) = Nav_Create L h P"
| "nav_step L P (NeStart E ids) = snd (WillStartRequest L E ids P)"
| "nav_step L P (NeRedirect E ids url) =
     snd (WillRedirectRequest L E ids (P\<lparr>nt_handle := (nt_handle P)\<lparr>nh_url := url\<rparr>\<rparr>))"
| "nav_step L P (NeResponse E) = snd (WillProcessResponse L E P)"
| "nav_step L P (NeResult E n r) =
     OnResult L E (snd (nt_calls P ! n)) r (P\<lparr>nt_calls := without n (nt_calls P)\<rparr>)"
| "nav_step L P (NeService E ids s) = ServiceChanged L E ids s P"
| "nav_step L P NeDestroy = Nav_Destroy P"
| "nav_step L P (NeTabBegin h) = Tab_Begin L h P"
| "nav_step L P (NeTabRedirect h) = Tab_DidRedirect L h P"
| "nav_step L P (NeTabFinish E ids h) = Tab_DidFinish L E ids h P"
| "nav_step L P (NeCommitted E err n r) =
     OnCommittedResult L E err (fst (snd (pg_checks P ! n))) (snd (snd (pg_checks P ! n))) r
       (P\<lparr>pg_checks := without n (pg_checks P)\<rparr>)"
| "nav_step L P (NeProceed E c) = snd (Proceed E c P)"

text \<open>
  A throttle is created when there is none, a deferred navigation does not go on by itself,
  and an answer is one of those that are due.
\<close>

fun nav_ok :: "'u page \<Rightarrow> 'u nav_event \<Rightarrow> bool" where
  "nav_ok P (NeCreate h) = (\<not> nt_active P)"
| "nav_ok P (NeStart E ids) = (nt_active P \<and> \<not> nt_deferred P)"
| "nav_ok P (NeRedirect E ids url) = (nt_active P \<and> \<not> nt_deferred P)"
| "nav_ok P (NeResponse E) = (nt_active P \<and> \<not> nt_deferred P)"
| "nav_ok P (NeResult E n r) = (n < length (nt_calls P))"
| "nav_ok P (NeCommitted E err n r) = (n < length (pg_checks P))"
| "nav_ok P _ = True"

section \<open>The invariant\<close>

definition calls_ok :: "'u page \<Rightarrow> bool" where
  "calls_ok P \<longleftrightarrow> pg_service P \<noteq> None \<and> nt_pending P = int (length (nt_calls P)) \<and>
     (\<forall>c \<in> set (nt_calls P). snd c = Tab_Revision P)"

definition nt_inv :: "'u page \<Rightarrow> bool" where
  "nt_inv P \<longleftrightarrow> calls_ok P \<and> (nt_deferred P \<longrightarrow> nt_calls P \<noteq> [] \<and> \<not> dangerous (nt_risk P)) \<and>
     (nt_active P \<or> nt_calls P = [])"

lemma view_reads:
  "nt_view P = nt_view Q \<Longrightarrow> nt_calls P = nt_calls Q \<and> nt_pending P = nt_pending Q \<and>
     nt_deferred P = nt_deferred Q \<and> nt_risk P = nt_risk Q \<and> nt_active P = nt_active Q \<and>
     nt_urls P = nt_urls Q \<and> nt_handle P = nt_handle Q \<and> nt_latest P = nt_latest Q"
  by (simp add: nt_view_def)

lemma nt_inv_cong: "nt_view P = nt_view Q \<Longrightarrow> pg_policy P = pg_policy Q \<Longrightarrow> nt_inv P = nt_inv Q"
  using view_reads [of P Q] policy_reads [of P Q] by (simp add: nt_inv_def calls_ok_def)

lemma calls_ok_cong:
  "nt_calls P = nt_calls Q \<Longrightarrow> nt_pending P = nt_pending Q \<Longrightarrow> pg_policy P = pg_policy Q \<Longrightarrow> calls_ok P = calls_ok Q"
  using policy_reads [of P Q] by (simp add: calls_ok_def)

lemma report_frame [simp]:
  "nt_view (ReportState L E P) = nt_view P" "pg_policy (ReportState L E P) = pg_policy P"
  by (simp_all add: ReportState_def)

lemma block_frame [simp]:
  "nt_view (snd (Block L E P)) = nt_view P" "pg_policy (snd (Block L E P)) = pg_policy P"
  "nt_view (snd (BlockOrProceed L E P)) = nt_view P" "pg_policy (snd (BlockOrProceed L E P)) = pg_policy P"
  by (simp_all add: Block_def BlockOrProceed_def Let_def)

lemma finish_frame [simp]:
  "nt_view (Tab_DidFinish L E ids h P) = nt_view P" "pg_policy (Tab_DidFinish L E ids h P) = pg_policy P"
  "nt_view (OnPolicy L E ids P) = nt_view P" "pg_policy (OnPolicy L E ids P) = pg_policy P"
  "nt_view (snd (Proceed E c P)) = nt_view P" "pg_policy (snd (Proceed E c P)) = pg_policy P"
  by (simp_all add: Tab_DidFinish_def OnPolicy_def Proceed_def Let_def)

lemma committed_frame [simp]:
  "nt_view (OnCommittedResult L E err g n r P) = nt_view P"
  "pg_policy (OnCommittedResult L E err g n r P) = pg_policy P"
  by (simp_all add: OnCommittedResult_def ShowCommittedRisk_def Let_def split: prod.split bool.split option.split)

text \<open>One more check of the navigation.\<close>

lemma AskService_ok:
  assumes "calls_ok P"
  shows "calls_ok (AskService L E ids url P) \<and> nt_calls (AskService L E ids url P) \<noteq> [] \<and>
    nt_risk (AskService L E ids url P) = nt_risk P \<and> nt_deferred (AskService L E ids url P) = nt_deferred P \<and>
    nt_active (AskService L E ids url P) = nt_active P \<and> pg_policy (AskService L E ids url P) = pg_policy P"
proof -
  obtain s where s: "pg_service P = Some s" using assms by (auto simp: calls_ok_def)
  obtain i s' where c: "service_check L E ids url (nt_deadline P - now_ticks E) (pg_next P) s = (i, s')"
    by fastforce
  have r: "Tab_Revision P = ps_revision s" using s by (simp add: Tab_Revision_def)
  show ?thesis
    using assms checked [OF c] s r by (auto simp: AskService_def c calls_ok_def Tab_Revision_def pg_policy_def)
qed

lemma CheckCurrentUrl_ok:
  assumes "calls_ok P"
  shows "calls_ok (CheckCurrentUrl L E ids P) \<and> nt_active (CheckCurrentUrl L E ids P) = nt_active P \<and>
    nt_deferred (CheckCurrentUrl L E ids P) = nt_deferred P \<and>
    pg_policy (CheckCurrentUrl L E ids P) = pg_policy P"
proof -
  let ?url = "nh_url (nt_handle P)"
  let ?P = "P\<lparr>nt_urls := nt_urls P @ [?url], nt_latest := mk_result kUnknown [] ''not_checked'' ?url\<rparr>"
  let ?Q = "?P\<lparr>pg_bypass := None\<rparr>"
  have keep: "calls_ok ?P = calls_ok P" "calls_ok ?Q = calls_ok P"
    "calls_ok (?Q\<lparr>nt_latest := r\<rparr>) = calls_ok P" "calls_ok (?Q\<lparr>nt_risk := r\<rparr>) = calls_ok P" for r
    by (rule calls_ok_cong; simp)+
  have bypass: "snd (TakeBypass E ?url n ?P) = ?Q" for n
    by (simp add: TakeBypass_def split: option.split)
  show ?thesis
  proof (cases "service_enabled ?P")
    case False
    then show ?thesis using keep assms by (simp add: CheckCurrentUrl_def Let_def)
  next
    case True
    obtain s where s: "pg_service ?Q = Some s" using assms by (auto simp: calls_ok_def)
    obtain b where b: "TakeBypass E ?url (Tab_Revision ?P) ?P = (b, ?Q)"
      using bypass [of "Tab_Revision ?P"] by (cases "TakeBypass E ?url (Tab_Revision ?P) ?P") auto
    have ask: "calls_ok (AskService L E ids ?url ?Q)"
      "nt_active (AskService L E ids ?url ?Q) = nt_active P"
      "nt_deferred (AskService L E ids ?url ?Q) = nt_deferred P"
      "pg_policy (AskService L E ids ?url ?Q) = pg_policy P"
      using AskService_ok [of ?Q L E ids ?url] keep assms by simp_all
    have "CheckCurrentUrl L E ids P = (if b then ?Q\<lparr>nt_latest := (nt_latest ?Q)\<lparr>r_reason := ''one_navigation_bypass''\<rparr>\<rparr>
        else if dangerous (KnownRisk L E ?url s) then ?Q\<lparr>nt_risk := KnownRisk L E ?url s\<rparr>
        else AskService L E ids ?url ?Q)"
      using True b s unfolding CheckCurrentUrl_def Let_def by (cases b) simp_all
    then show ?thesis using keep assms ask by simp
  qed
qed

lemma nt_inv_calls: "calls_ok P \<Longrightarrow> \<not> nt_deferred P \<Longrightarrow> nt_active P \<Longrightarrow> nt_inv P"
  by (simp add: nt_inv_def)

lemma WillStartRequest_inv:
  assumes "nt_inv P" and "nt_active P" and "\<not> nt_deferred P"
  shows "nt_inv (snd (WillStartRequest L E ids P))"
proof -
  let ?P = "(Tab_Begin L (nt_handle P) P)\<lparr>nt_deadline := now_ticks E + millis 1500\<rparr>"
  have b: "nt_inv (Tab_Begin L (nt_handle P) P)"
    using assms(1) nt_inv_cong [of "Tab_Begin L (nt_handle P) P" P] by simp
  have v: "nt_active (Tab_Begin L (nt_handle P) P)" "\<not> nt_deferred (Tab_Begin L (nt_handle P) P)"
    using assms view_reads [of "Tab_Begin L (nt_handle P) P" P] by simp_all
  have "calls_ok ?P" using b calls_ok_cong [of ?P "Tab_Begin L (nt_handle P) P"] by (simp add: nt_inv_def)
  from CheckCurrentUrl_ok [OF this, of L E ids] v have "nt_inv (CheckCurrentUrl L E ids ?P)"
    by (intro nt_inv_calls) simp_all
  moreover have "nt_inv (snd (BlockOrProceed L E (ReportState L E Q))) = nt_inv Q" for Q
    by (rule nt_inv_cong) simp_all
  ultimately show ?thesis using b by (simp add: WillStartRequest_def Let_def)
qed

lemma WillRedirectRequest_inv:
  assumes "nt_inv P" and "nt_active P" and "\<not> nt_deferred P"
  shows "nt_inv (snd (WillRedirectRequest L E ids P))"
proof -
  have "calls_ok P" using assms(1) by (simp add: nt_inv_def)
  from CheckCurrentUrl_ok [OF this, of L E ids] assms have "nt_inv (CheckCurrentUrl L E ids P)"
    by (intro nt_inv_calls) simp_all
  moreover have "nt_inv (snd (BlockOrProceed L E (ReportState L E Q))) = nt_inv Q"
    "nt_inv (snd (Block L E Q)) = nt_inv Q" for Q
    by (rule nt_inv_cong; simp)+
  ultimately show ?thesis using assms(1) by (simp add: WillRedirectRequest_def)
qed

lemma WillProcessResponse_inv:
  assumes "nt_inv P" and "nt_active P"
  shows "nt_inv (snd (WillProcessResponse L E P))"
proof -
  have "nt_inv (snd (Block L E P)) = nt_inv P" by (rule nt_inv_cong) simp_all
  moreover have "nt_inv (P\<lparr>nt_deferred := True\<rparr>)" if "nt_pending P > 0" "\<not> dangerous (nt_risk P)"
    using assms that calls_ok_cong [of "P\<lparr>nt_deferred := True\<rparr>" P] by (auto simp: nt_inv_def calls_ok_def)
  ultimately show ?thesis using assms by (simp add: WillProcessResponse_def)
qed

lemma without_length: "n < length xs \<Longrightarrow> length (without n xs) = length xs - 1"
  by (simp add: without_def min_def)

lemma without_set: "set (without n xs) \<subseteq> set xs"
  using set_take_subset set_drop_subset by (fastforce simp: without_def)

text \<open>An answer: it is counted, its danger is kept, and the navigation goes on or is cancelled.\<close>

definition answer_state :: "'u result \<Rightarrow> 'u page \<Rightarrow> 'u page" where
  "answer_state r P =
     (let P = P\<lparr>nt_pending := nt_pending P - 1\<rparr>;
          P = (if nt_urls P \<noteq> [] \<and> r_url r = last (nt_urls P) then P\<lparr>nt_latest := r\<rparr> else P)
      in if dangerous r \<and> \<not> dangerous (nt_risk P) then P\<lparr>nt_risk := r\<rparr> else P)"

lemma answer_state_reads [simp]:
  "nt_pending (answer_state r P) = nt_pending P - 1" "nt_calls (answer_state r P) = nt_calls P"
  "nt_deferred (answer_state r P) = nt_deferred P" "nt_active (answer_state r P) = nt_active P"
  "pg_policy (answer_state r P) = pg_policy P" "nt_handle (answer_state r P) = nt_handle P"
  "dangerous (nt_risk (answer_state r P)) \<longleftrightarrow> dangerous r \<or> dangerous (nt_risk P)"
  by (auto simp: answer_state_def Let_def)

lemma OnResult_eq: "OnResult L E revision r P =
    (if pg_service P = None \<or> revision \<noteq> Tab_Revision P then P
     else let P = ReportState L E (answer_state r P)
          in if nt_deferred P \<and> (dangerous (nt_risk P) \<or> nt_pending P = 0)
             then let P = P\<lparr>nt_deferred := False\<rparr>
                  in if dangerous (nt_risk P)
                     then (case Block L E P of (b, P) \<Rightarrow> pg_emit (PgCancelDeferred b) P)
                     else pg_emit PgResume P
             else P)"
  unfolding OnResult_def answer_state_def Let_def by (rule refl)

lemma OnResult_inv:
  assumes inv: "nt_inv P" and n: "n < length (nt_calls P)"
  shows "nt_inv (OnResult L E (snd (nt_calls P ! n)) r (P\<lparr>nt_calls := without n (nt_calls P)\<rparr>))"
proof -
  let ?P = "P\<lparr>nt_calls := without n (nt_calls P)\<rparr>"
  let ?A = "answer_state r ?P"
  let ?R = "ReportState L E ?A"
  have svc: "pg_service P \<noteq> None" and pend: "nt_pending P = int (length (nt_calls P))"
    and rev: "\<forall>c \<in> set (nt_calls P). snd c = Tab_Revision P" and act: "nt_active P"
    using inv n by (auto simp: nt_inv_def calls_ok_def)
  have pol: "pg_policy ?A = pg_policy P" by simp
  have A: "calls_ok ?A"
    using policy_reads [OF pol] svc pend rev n without_set [of n "nt_calls P"]
    by (auto simp: calls_ok_def without_length)
  have R: "nt_view ?R = nt_view ?A" "pg_policy ?R = pg_policy ?A" by simp_all
  note Rv = view_reads [OF R(1)]
  have go: "nt_inv Q" if "nt_view Q = nt_view (?R\<lparr>nt_deferred := False\<rparr>)" "pg_policy Q = pg_policy ?R" for Q
  proof -
    have "calls_ok Q = calls_ok ?A"
      using view_reads [OF that(1)] that(2) Rv by (intro calls_ok_cong) simp_all
    then show ?thesis using view_reads [OF that(1)] A Rv act by (intro nt_inv_calls) simp_all
  qed
  have stay: "nt_inv ?R" if "\<not> (nt_deferred ?R \<and> (dangerous (nt_risk ?R) \<or> nt_pending ?R = 0))"
  proof -
    have "nt_inv ?A"
    proof (cases "nt_deferred P")
      case False
      with A act show ?thesis by (intro nt_inv_calls) simp_all
    next
      case True
      with that Rv have "\<not> dangerous (nt_risk ?A)" "nt_pending ?A \<noteq> 0" by auto
      with A act show ?thesis by (auto simp: nt_inv_def calls_ok_def)
    qed
    then show ?thesis using nt_inv_cong [OF R] by simp
  qed
  have enter: "pg_service ?P \<noteq> None" "snd (nt_calls P ! n) = Tab_Revision ?P"
    using svc rev n policy_reads [of ?P P] by simp_all
  have block: "nt_view (pg_emit (PgCancelDeferred b) Q) = nt_view (?R\<lparr>nt_deferred := False\<rparr>)"
    "pg_policy (pg_emit (PgCancelDeferred b) Q) = pg_policy ?R"
    if "Block L E (?R\<lparr>nt_deferred := False\<rparr>) = (b, Q)" for b Q
    using block_frame(1,2) [of L E "?R\<lparr>nt_deferred := False\<rparr>"] that by simp_all
  obtain s where s: "pg_service P = Some s" using svc by auto
  show ?thesis
    unfolding OnResult_eq using enter stay go block
    by (simp add: s Let_def split: prod.split)
qed

lemma asks_all:
  assumes "calls_ok P"
  shows "calls_ok (foldl (\<lambda>P url. AskService L E ids url P) P urls) \<and>
    nt_risk (foldl (\<lambda>P url. AskService L E ids url P) P urls) = nt_risk P \<and>
    nt_deferred (foldl (\<lambda>P url. AskService L E ids url P) P urls) = nt_deferred P \<and>
    nt_active (foldl (\<lambda>P url. AskService L E ids url P) P urls) = nt_active P \<and>
    pg_policy (foldl (\<lambda>P url. AskService L E ids url P) P urls) = pg_policy P"
  using assms
proof (induction urls arbitrary: P)
  case (Cons url urls)
  note one = AskService_ok [OF Cons.prems, of L E ids url]
  from Cons.IH [of "AskService L E ids url P"] one show ?case by simp
qed simp

lemma OnPolicyChanged_inv:
  assumes "pg_service P \<noteq> None" and "nt_active P"
  shows "nt_inv (OnPolicyChanged L E ids P) \<and> nt_active (OnPolicyChanged L E ids P)"
proof -
  let ?P = "P\<lparr>nt_calls := [], nt_pending := 0, nt_risk := empty_result L,
      nt_latest := empty_result L, pg_bypass := None\<rparr>"
  define Q where "Q = (if service_enabled ?P then foldl (\<lambda>P url. AskService L E ids url P) ?P (nt_urls ?P) else ?P)"
  let ?R = "ReportState L E Q"
  have safe: "\<not> dangerous (empty_result L)" by (simp add: empty_result_def mk_result_def dangerous_def)
  have "calls_ok ?P" using assms(1) by (simp add: calls_ok_def)
  then have Q: "calls_ok Q" "\<not> dangerous (nt_risk Q)" "nt_active Q"
    using asks_all [of ?P L E ids "nt_urls ?P"] safe assms(2) by (simp_all add: Q_def)
  have Rv: "nt_view ?R = nt_view Q" "pg_policy ?R = pg_policy Q" by simp_all
  note reads = view_reads [OF Rv(1)]
  have R: "calls_ok ?R" using Q(1) calls_ok_cong [of ?R Q] reads by simp
  have "nt_inv (pg_emit PgResume (?R\<lparr>nt_deferred := False\<rparr>)) = nt_inv (?R\<lparr>nt_deferred := False\<rparr>)"
    by (rule nt_inv_cong) simp_all
  moreover have "nt_inv (?R\<lparr>nt_deferred := False\<rparr>)"
    using R Q(3) reads calls_ok_cong [of "?R\<lparr>nt_deferred := False\<rparr>" ?R] by (intro nt_inv_calls) simp_all
  ultimately have go: "nt_inv (pg_emit PgResume (?R\<lparr>nt_deferred := False\<rparr>))" by simp
  have stay: "nt_inv ?R" if "\<not> (nt_deferred ?R \<and> nt_pending ?R = 0)"
    using that R Q(2,3) reads by (auto simp: nt_inv_def calls_ok_def)
  have "OnPolicyChanged L E ids P = (if nt_deferred ?R \<and> nt_pending ?R = 0
      then pg_emit PgResume (?R\<lparr>nt_deferred := False\<rparr>) else ?R)"
    by (simp only: OnPolicyChanged_def Let_def Q_def)
  with go stay show ?thesis using Q(3) reads by (simp add: pg_emit_def)
qed

lemma ServiceChanged_inv:
  assumes inv: "nt_inv P"
  shows "nt_inv (ServiceChanged L E ids s P)"
proof (cases "ps_revision s = Tab_Revision P")
  case True
  have "calls_ok (P\<lparr>pg_service := Some s\<rparr>)"
    using inv True by (auto simp: nt_inv_def calls_ok_def Tab_Revision_def)
  with inv True show ?thesis by (simp add: ServiceChanged_def nt_inv_def)
next
  case False
  let ?Q = "OnPolicy L E ids (P\<lparr>pg_service := Some s\<rparr>)"
  have v: "nt_view ?Q = nt_view P" "pg_policy ?Q = pg_policy (P\<lparr>pg_service := Some s\<rparr>)" by simp_all
  have svc: "pg_service ?Q \<noteq> None" using policy_reads [OF v(2)] by simp
  show ?thesis
  proof (cases "nt_active ?Q")
    case True
    with False OnPolicyChanged_inv [OF svc True] show ?thesis by (simp add: ServiceChanged_def Let_def)
  next
    case idle: False
    with inv view_reads [OF v(1)] svc have "nt_inv ?Q"
      by (auto simp: nt_inv_def calls_ok_def)
    with False idle show ?thesis by (simp add: ServiceChanged_def Let_def)
  qed
qed

lemma Nav_Destroy_inv: "nt_inv P \<Longrightarrow> nt_inv (Nav_Destroy P)"
proof -
  assume inv: "nt_inv P"
  have fold: "pg_policy (foldl (\<lambda>P i. service_cancel i P) Q is) = pg_policy Q" for Q :: "'a page" and "is"
    by (induction "is" arbitrary: Q) simp_all
  have "pg_policy (Nav_Destroy P) = pg_policy P" by (simp add: Nav_Destroy_def fold)
  from policy_reads [OF this] inv show ?thesis by (simp add: nt_inv_def calls_ok_def Nav_Destroy_def)
qed

lemma nav_inv_step:
  assumes inv: "nt_inv P" and ok: "nav_ok P e"
  shows "nt_inv (nav_step L P e)"
proof (cases e)
  case (NeCreate h)
  have "Tab_Revision (Nav_Create L h P) = Tab_Revision P" by (simp add: Nav_Create_def Tab_Revision_def)
  with inv NeCreate show ?thesis by (simp add: nt_inv_def calls_ok_def Nav_Create_def)
next
  case (NeRedirect E ids url)
  let ?P = "P\<lparr>nt_handle := (nt_handle P)\<lparr>nh_url := url\<rparr>\<rparr>"
  have "nt_inv ?P" using inv calls_ok_cong [of ?P P] by (simp add: nt_inv_def)
  with NeRedirect ok WillRedirectRequest_inv [of ?P] show ?thesis by simp
next
  case (NeCommitted E err n r)
  let ?P = "P\<lparr>pg_checks := without n (pg_checks P)\<rparr>"
  have "nt_inv (nav_step L P e) = nt_inv P" using NeCommitted by (intro nt_inv_cong) simp_all
  with inv show ?thesis by simp
next
  case (NeTabBegin h)
  then have "nt_inv (nav_step L P e) = nt_inv P" by (intro nt_inv_cong) simp_all
  with inv show ?thesis by simp
next
  case (NeTabRedirect h)
  then have "nt_inv (nav_step L P e) = nt_inv P" by (intro nt_inv_cong) simp_all
  with inv show ?thesis by simp
next
  case (NeTabFinish E ids h)
  then have "nt_inv (nav_step L P e) = nt_inv P" by (intro nt_inv_cong) simp_all
  with inv show ?thesis by simp
next
  case (NeProceed E c)
  then have "nt_inv (nav_step L P e) = nt_inv P" by (intro nt_inv_cong) simp_all
  with inv show ?thesis by simp
qed (use inv ok in \<open>simp_all add: WillStartRequest_inv WillProcessResponse_inv OnResult_inv
      ServiceChanged_inv Nav_Destroy_inv\<close>)

interpretation nav_guarded: machine "nav_step L" nav_ok nt_inv for L :: "'u lib"
  by unfold_locales (rule nav_inv_step)

section \<open>When a navigation is let through\<close>

definition resumes :: "'u page \<Rightarrow> 'u page_effect list" where
  "resumes P = filter (\<lambda>e. e = PgResume) (pg_log P)"

lemma resumes_frame [simp]:
  "resumes (P\<lparr>pg_service := x1\<rparr>) = resumes P" "resumes (P\<lparr>pg_next := x2\<rparr>) = resumes P"
  "resumes (P\<lparr>pg_site := x3\<rparr>) = resumes P" "resumes (P\<lparr>pg_request := x4\<rparr>) = resumes P"
  "resumes (P\<lparr>pg_error_page := x5\<rparr>) = resumes P" "resumes (P\<lparr>pg_checks := x6\<rparr>) = resumes P"
  "resumes (P\<lparr>pg_bypass := x7\<rparr>) = resumes P" "resumes (P\<lparr>nt_urls := y1\<rparr>) = resumes P"
  "resumes (P\<lparr>nt_requests := y2\<rparr>) = resumes P" "resumes (P\<lparr>nt_risk := y3\<rparr>) = resumes P"
  "resumes (P\<lparr>nt_latest := y3\<rparr>) = resumes P" "resumes (P\<lparr>nt_pending := y4\<rparr>) = resumes P"
  "resumes (P\<lparr>nt_deferred := x5\<rparr>) = resumes P" "resumes (P\<lparr>nt_deadline := y4\<rparr>) = resumes P"
  "resumes (P\<lparr>nt_calls := y5\<rparr>) = resumes P" "resumes (P\<lparr>nt_handle := y6\<rparr>) = resumes P"
  "resumes (P\<lparr>nt_active := x5\<rparr>) = resumes P" "e \<noteq> PgResume \<Longrightarrow> resumes (pg_emit e P) = resumes P"
  by (simp_all add: resumes_def pg_emit_def)

lemma resumes_tab [simp]:
  "resumes (service_cancel i P) = resumes P" "resumes (Tab_Notify r P) = resumes P"
  "resumes (CancelCommittedCheck P) = resumes P" "resumes (ProtectCurrentDocument P) = resumes P"
  "resumes (Tab_Report L E h x b P) = resumes P"
  by (simp_all add: service_cancel_def Tab_Notify_def CancelCommittedCheck_def ProtectCurrentDocument_def
      Tab_Report_def Let_def)

lemma resumes_tab2 [simp]:
  "resumes (Tab_Begin L h P) = resumes P" "resumes (Tab_DidRedirect L h P) = resumes P"
  "resumes (CheckCommittedDocument L E ids P) = resumes P" "resumes (ReportState L E P) = resumes P"
  "resumes (snd (Block L E P)) = resumes P" "resumes (snd (BlockOrProceed L E P)) = resumes P"
  by (simp_all add: Tab_Begin_def Tab_DidRedirect_def CheckCommittedDocument_def ReportState_def Block_def
      BlockOrProceed_def Let_def split: prod.split bool.split option.split)

lemma resumes_tab3 [simp]:
  "resumes (Tab_DidFinish L E ids h P) = resumes P" "resumes (OnPolicy L E ids P) = resumes P"
  "resumes (snd (Proceed E c P)) = resumes P" "resumes (OnCommittedResult L E err g n r P) = resumes P"
  by (simp_all add: Tab_DidFinish_def OnPolicy_def Proceed_def OnCommittedResult_def ShowCommittedRisk_def
      Let_def split: prod.split bool.split option.split)

lemma resumes_nav [simp]:
  "resumes (AskService L E ids url P) = resumes P" "resumes (snd (TakeBypass E url n P)) = resumes P"
  "resumes (Nav_Create L h P) = resumes P" "resumes (Nav_Destroy P) = resumes P"
  "resumes (snd (WillProcessResponse L E P)) = resumes P" "resumes (answer_state r P) = resumes P"
proof -
  have "resumes (foldl (\<lambda>P i. service_cancel i P) Q is) = resumes Q" for Q :: "'a page" and "is"
    by (induction "is" arbitrary: Q) simp_all
  then show "resumes (Nav_Destroy P) = resumes P" by (simp add: Nav_Destroy_def)
qed (simp_all add: AskService_def TakeBypass_def Nav_Create_def WillProcessResponse_def answer_state_def
      Let_def split: option.split prod.split)

lemma resumes_check [simp]: "resumes (CheckCurrentUrl L E ids P) = resumes P"
proof -
  have "TakeBypass E url n Q = (b, Q') \<Longrightarrow> resumes Q' = resumes Q" for url n b and Q Q' :: "'a page"
    using resumes_nav(2) [of E url n Q] by simp
  then show ?thesis
    by (simp add: CheckCurrentUrl_def Let_def split: prod.split bool.split option.split)
qed

lemma resumes_will [simp]:
  "resumes (snd (WillStartRequest L E ids P)) = resumes P"
  "resumes (snd (WillRedirectRequest L E ids P)) = resumes P"
  by (simp_all add: WillStartRequest_def WillRedirectRequest_def Let_def)

text \<open>A navigation resumes only with every check answered and no danger known.\<close>

lemma OnResult_resumes:
  assumes "resumes (OnResult L E n r P) \<noteq> resumes P"
  shows "nt_pending (OnResult L E n r P) = 0 \<and> \<not> dangerous (nt_risk (OnResult L E n r P)) \<and>
    \<not> nt_deferred (OnResult L E n r P)"
proof -
  let ?R = "ReportState L E (answer_state r P)"
  have "resumes (pg_emit (PgCancelDeferred b) Q) = resumes P" if "Block L E (?R\<lparr>nt_deferred := False\<rparr>) = (b, Q)" for b Q
    using resumes_tab2(5) [of L E "?R\<lparr>nt_deferred := False\<rparr>"] that by simp
  then have "OnResult L E n r P = pg_emit PgResume (?R\<lparr>nt_deferred := False\<rparr>) \<and>
      \<not> dangerous (nt_risk ?R) \<and> nt_pending ?R = 0"
    using assms unfolding OnResult_eq by (simp add: Let_def split: if_splits prod.splits)
  then show ?thesis by (simp add: pg_emit_def)
qed

lemma OnPolicyChanged_resumes:
  assumes svc: "pg_service P \<noteq> None" and res: "resumes (OnPolicyChanged L E ids P) \<noteq> resumes P"
  shows "nt_pending (OnPolicyChanged L E ids P) = 0 \<and> \<not> dangerous (nt_risk (OnPolicyChanged L E ids P)) \<and>
    \<not> nt_deferred (OnPolicyChanged L E ids P)"
proof -
  let ?P = "P\<lparr>nt_calls := [], nt_pending := 0, nt_risk := empty_result L,
      nt_latest := empty_result L, pg_bypass := None\<rparr>"
  define Q where "Q = (if service_enabled ?P then foldl (\<lambda>P url. AskService L E ids url P) ?P (nt_urls ?P) else ?P)"
  let ?R = "ReportState L E Q"
  have "resumes (foldl (\<lambda>P url. AskService L E ids url P) S urls) = resumes S" for S :: "'a page" and urls
    by (induction urls arbitrary: S) simp_all
  then have log: "resumes ?R = resumes P" by (simp add: Q_def)
  have safe: "\<not> dangerous (empty_result L)" by (simp add: empty_result_def mk_result_def dangerous_def)
  have "calls_ok ?P" using svc by (simp add: calls_ok_def)
  then have "\<not> dangerous (nt_risk Q)" using asks_all [of ?P L E ids "nt_urls ?P"] safe by (simp add: Q_def)
  moreover have on: "OnPolicyChanged L E ids P = (if nt_deferred ?R \<and> nt_pending ?R = 0
      then pg_emit PgResume (?R\<lparr>nt_deferred := False\<rparr>) else ?R)"
    by (simp only: OnPolicyChanged_def Let_def Q_def)
  moreover have "nt_deferred ?R \<and> nt_pending ?R = 0" using res log on by (auto split: if_splits)
  ultimately show ?thesis using view_reads [of ?R Q] by (simp add: pg_emit_def)
qed

lemma nav_resumes:
  assumes inv: "nt_inv P" and res: "resumes (nav_step L P e) \<noteq> resumes P"
  shows "nt_pending (nav_step L P e) = 0 \<and> \<not> dangerous (nt_risk (nav_step L P e)) \<and>
    \<not> nt_deferred (nav_step L P e)"
proof (cases e)
  case (NeResult E n r)
  then show ?thesis using OnResult_resumes [of L E "snd (nt_calls P ! n)" r "P\<lparr>nt_calls := without n (nt_calls P)\<rparr>"] res
    by simp
next
  case (NeService E ids s)
  let ?Q = "OnPolicy L E ids (P\<lparr>pg_service := Some s\<rparr>)"
  have "pg_service ?Q \<noteq> None" using policy_reads [of ?Q "P\<lparr>pg_service := Some s\<rparr>"] by simp
  then show ?thesis
    using OnPolicyChanged_resumes [of ?Q L E ids] res NeService
    by (simp add: ServiceChanged_def Let_def split: if_splits)
qed (use res in simp_all)

end
