(* ===== verification/Navigation_Properties.thy ===== *)
theory Navigation_Properties
  imports Navigation_Machine Service_Properties
begin

text \<open>
  The properties of the navigation throttle and of the warning page, for every state that a
  run of the machine of \<open>Navigation_Machine\<close> reaches from a tab without a navigation in
  flight, while the service lives.
\<close>

definition idle_page :: "'u page \<Rightarrow> bool" where
  "idle_page P \<longleftrightarrow> pg_service P \<noteq> None \<and> nt_calls P = [] \<and> nt_pending P = 0 \<and>
     \<not> nt_deferred P \<and> \<not> nt_active P \<and> pg_bypass P = None"

section \<open>A sample run\<close>

definition nav_handle :: "string nav_handle" where
  "nav_handle = \<lparr>nh_id = ''1'', nh_url = ''https://a.test/p'', nh_primary = True, nh_same_document = False,
     nh_committed = False, nh_error_page = False, nh_post = False, nh_prerendered = False\<rparr>"

definition nav_page :: "string page" where
  "nav_page = \<lparr>pg_service = Some svc_ready, pg_next = 7, pg_tab_id = ''t'', pg_last_url = [],
     pg_has_frame = True, pg_interstitial = False, pg_site = fresh_site_state [], pg_request = [],
     pg_error_page = False, pg_checks = [], pg_bypass = None, nt_active = False, nt_handle = nav_handle,
     nt_urls = [], nt_requests = [], nt_risk = empty_result update_lib, nt_latest = empty_result update_lib,
     nt_pending = 0, nt_deferred = False, nt_deadline = 0, nt_calls = [], pg_log = []\<rparr>"

definition nav_ids :: "nat \<Rightarrow> string \<times> int" where
  "nav_ids n = (''id'', 5)"

definition nav_events :: "string nav_event list" where
  "nav_events = [NeCreate nav_handle, NeStart (at_ticks 5) nav_ids, NeResponse (at_ticks 6)]"

definition nav_mid :: "string page" where
  "nav_mid = foldl (nav_step update_lib) nav_page nav_events"

lemma nav_idle: "idle_page nav_page"
  by (simp add: idle_page_def nav_page_def)

lemma svc_ready_reads:
  "ps_enabled svc_ready" "ps_revision svc_ready = 2" "ps_exceptions svc_ready = {}"
  "KnownRisk update_lib E ''https://a.test/p'' svc_ready = Unknown ''https://a.test/p'' ''not_checked''"
  by (simp_all add: svc_ready_def svc_start_eq KnownRisk_def IsSiteEnabled_def UsesLocal_def UsesCloud_def)

lemma nav_created: "Nav_Create update_lib nav_handle nav_page =
    nav_page\<lparr>nt_active := True\<rparr>"
  by (simp add: Nav_Create_def nav_page_def)

definition nav_begun :: "string page" where
  "nav_begun = (Tab_Begin update_lib nav_handle (nav_page\<lparr>nt_active := True\<rparr>))\<lparr>nt_deadline := 5 + millis 1500\<rparr>"

lemma nav_begun_reads:
  "pg_service nav_begun = Some svc_ready" "pg_next nav_begun = 7" "nt_calls nav_begun = []"
  "nt_handle nav_begun = nav_handle" "nt_pending nav_begun = 0" "nt_deadline nav_begun = 5 + millis 1500"
  "nt_deferred nav_begun = False" "nt_risk nav_begun = empty_result update_lib" "pg_bypass nav_begun = None"
  "nt_urls nav_begun = []" "nt_requests nav_begun = []" "nt_active nav_begun"
  by (simp_all add: nav_begun_def Tab_Begin_def nav_handle_def nav_page_def CancelCommittedCheck_def Tab_Notify_def
      pg_emit_def Let_def split: prod.split bool.split)

lemma nav_checked:
  "nt_calls (CheckCurrentUrl update_lib (at_ticks 5) nav_ids nav_begun) = [(7, 2)] \<and>
   nt_pending (CheckCurrentUrl update_lib (at_ticks 5) nav_ids nav_begun) = 1 \<and>
   nt_active (CheckCurrentUrl update_lib (at_ticks 5) nav_ids nav_begun) \<and>
   \<not> nt_deferred (CheckCurrentUrl update_lib (at_ticks 5) nav_ids nav_begun) \<and>
   nt_risk (CheckCurrentUrl update_lib (at_ticks 5) nav_ids nav_begun) = empty_result update_lib"
  by (simp add: CheckCurrentUrl_def TakeBypass_def AskService_def nav_begun_reads service_enabled_def
      svc_ready_reads nav_handle_def Unknown_def mk_result_def dangerous_def Let_def split: prod.split)

lemma empty_result_safe: "\<not> dangerous (empty_result L)"
  by (simp add: empty_result_def mk_result_def dangerous_def)

lemma nav_started:
  "nt_view (snd (WillStartRequest update_lib (at_ticks 5) nav_ids (nav_page\<lparr>nt_active := True\<rparr>))) =
   nt_view (CheckCurrentUrl update_lib (at_ticks 5) nav_ids nav_begun)"
proof -
  let ?S = "nav_page\<lparr>nt_active := True\<rparr>"
  let ?B = "Tab_Begin update_lib nav_handle ?S"
  have "service_enabled ?B"
    using policy_reads [of ?B ?S] by (simp add: service_enabled_def nav_page_def svc_ready_reads)
  moreover have "nt_handle ?S = nav_handle" "\<not> nh_prerendered nav_handle" "now_ticks (at_ticks 5) = 5"
    "nt_handle ?B = nav_handle"
    using view_reads [of ?B ?S] by (simp_all add: nav_page_def nav_handle_def at_ticks_def)
  ultimately show ?thesis by (simp add: WillStartRequest_def nav_begun_def Let_def)
qed

lemma nav_mid_reads:
  "nt_calls nav_mid = [(7, 2)]" "nt_pending nav_mid = 1" "nt_deferred nav_mid" "nt_active nav_mid"
  "\<not> dangerous (nt_risk nav_mid)"
  using view_reads [OF nav_started] nav_checked
  by (simp_all add: nav_mid_def nav_events_def nav_created WillProcessResponse_def empty_result_safe)

lemma nav_run: "guarded_run (nav_step update_lib) nav_ok nav_page nav_events"
proof -
  let ?S = "nav_page\<lparr>nt_active := True\<rparr>"
  let ?C = "snd (WillStartRequest update_lib (at_ticks 5) nav_ids ?S)"
  have "nt_active ?C \<and> \<not> nt_deferred ?C"
  proof -
    have v: "nt_view ?C = nt_view (CheckCurrentUrl update_lib (at_ticks 5) nav_ids nav_begun)"
      by (rule nav_started)
    from view_reads [OF v] nav_checked show ?thesis by simp
  qed
  then show ?thesis by (simp add: nav_events_def nav_created) (simp add: nav_page_def)
qed

section \<open>Answers\<close>

lemma result_calls:
  "nt_calls (nav_step L P (NeResult E n r)) = without n (nt_calls P)"
proof -
  let ?P = "P\<lparr>nt_calls := without n (nt_calls P)\<rparr>"
  have r: "nt_calls (ReportState L E Q) = nt_calls Q" for Q using view_reads [of "ReportState L E Q" Q] by simp
  have b: "Block L E Q = (x, Q') \<Longrightarrow> nt_calls Q' = nt_calls Q" for Q x Q'
    using view_reads [of "snd (Block L E Q)" Q] block_frame(1) [of L E Q] by simp
  have "nt_calls (OnResult L E v r ?P) = nt_calls ?P" for v
    unfolding OnResult_eq by (auto simp: Let_def r pg_emit_def dest: b split: prod.split)
  then show ?thesis by simp
qed

lemma answers_calls:
  assumes "list_all (\<lambda>e. \<exists>E n r. e = NeResult E n r) es" and "guarded_run (nav_step L) nav_ok P es"
  shows "length (nt_calls (foldl (nav_step L) P es)) = length (nt_calls P) - length es"
  using assms
proof (induction es arbitrary: P)
  case (Cons e es)
  then obtain E n r where e: "e = NeResult E n r" and n: "n < length (nt_calls P)" by auto
  have "length (nt_calls (nav_step L P e)) = length (nt_calls P) - 1"
    unfolding e result_calls using n by (rule without_length)
  with Cons show ?case by simp
qed simp


lemma answer_ends:
  assumes "nt_deferred P" and "\<not> nt_deferred (nav_step L P (NeResult E n r))"
  shows "last (pg_log (nav_step L P (NeResult E n r))) = PgResume \<or>
    (\<exists>x. last (pg_log (nav_step L P (NeResult E n r))) = PgCancelDeferred x)"
proof -
  let ?P = "P\<lparr>nt_calls := without n (nt_calls P)\<rparr>"
  have d: "nt_deferred (ReportState L E Q) = nt_deferred Q" for Q
    using view_reads [of "ReportState L E Q" Q] by simp
  show ?thesis
    using assms by (auto simp: OnResult_eq Let_def d pg_emit_def split: prod.splits if_splits)
qed

section \<open>The bypass\<close>

lemma bypass_tab [simp]:
  "pg_bypass (service_cancel i P) = pg_bypass P" "pg_bypass (Tab_Notify r P) = pg_bypass P"
  "pg_bypass (CancelCommittedCheck P) = pg_bypass P" "pg_bypass (ProtectCurrentDocument P) = pg_bypass P"
  "pg_bypass (Tab_Report L E h x b P) = pg_bypass P" "pg_bypass (pg_emit e P) = pg_bypass P"
  by (simp_all add: service_cancel_def Tab_Notify_def CancelCommittedCheck_def ProtectCurrentDocument_def
      Tab_Report_def pg_emit_def Let_def)

lemma bypass_tab2 [simp]:
  "pg_bypass (Tab_Begin L h P) = pg_bypass P" "pg_bypass (Tab_DidRedirect L h P) = pg_bypass P"
  "pg_bypass (CheckCommittedDocument L E ids P) = pg_bypass P" "pg_bypass (ReportState L E P) = pg_bypass P"
  "pg_bypass (snd (Block L E P)) = pg_bypass P" "pg_bypass (snd (BlockOrProceed L E P)) = pg_bypass P"
  by (simp_all add: Tab_Begin_def Tab_DidRedirect_def CheckCommittedDocument_def ReportState_def Block_def
      BlockOrProceed_def Let_def split: prod.split bool.split option.split)

lemma bypass_tab3 [simp]:
  "pg_bypass (Tab_DidFinish L E ids h P) = pg_bypass P" "pg_bypass (OnPolicy L E ids P) = None"
  "pg_bypass (OnCommittedResult L E err g n r P) \<in> {None, pg_bypass P}"
  by (auto simp: Tab_DidFinish_def OnPolicy_def OnCommittedResult_def ShowCommittedRisk_def
      Let_def split: prod.split bool.split option.split)

lemma bypass_nav [simp]:
  "pg_bypass (AskService L E ids url P) = pg_bypass P" "pg_bypass (snd (TakeBypass E url n P)) = None"
  "pg_bypass (Nav_Create L h P) = pg_bypass P" "pg_bypass (Nav_Destroy P) = pg_bypass P"
  "pg_bypass (snd (WillProcessResponse L E P)) = pg_bypass P" "pg_bypass (answer_state r P) = pg_bypass P"
proof -
  have "pg_bypass (foldl (\<lambda>P i. service_cancel i P) Q is) = pg_bypass Q" for Q :: "'a page" and "is"
    by (induction "is" arbitrary: Q) simp_all
  then show "pg_bypass (Nav_Destroy P) = pg_bypass P" by (simp add: Nav_Destroy_def)
qed (simp_all add: AskService_def TakeBypass_def Nav_Create_def WillProcessResponse_def answer_state_def
      Let_def split: option.split prod.split)

lemma bypass_check: "pg_bypass (CheckCurrentUrl L E ids P) = (if service_enabled P then None else pg_bypass P)"
proof -
  have "TakeBypass E url n Q = (b, Q') \<Longrightarrow> pg_bypass Q' = None" for url n b and Q Q' :: "'a page"
    using bypass_nav(2) [of E url n Q] by simp
  then show ?thesis
    by (simp add: CheckCurrentUrl_def service_enabled_def Let_def split: prod.split bool.split option.split)
qed

lemma bypass_result: "pg_bypass (OnResult L E n r P) = pg_bypass P"
proof -
  have "Block L E Q = (x, Q') \<Longrightarrow> pg_bypass Q' = pg_bypass Q" for Q x Q'
    using bypass_tab2(5) [of L E Q] by simp
  then show ?thesis unfolding OnResult_eq by (simp add: Let_def split: prod.split)
qed

lemma bypass_policy: "pg_bypass (OnPolicyChanged L E ids P) = None"
proof -
  have "pg_bypass (foldl (\<lambda>P url. AskService L E ids url P) S urls) = pg_bypass S" for S :: "'a page" and urls
    by (induction urls arbitrary: S) simp_all
  then show ?thesis by (simp add: OnPolicyChanged_def Let_def)
qed

definition bypass_ok :: "'u page \<Rightarrow> bool" where
  "bypass_ok P \<longleftrightarrow> (\<forall>b. pg_bypass P = Some b \<longrightarrow> by_revision b = Tab_Revision P)"

lemma nav_policy:
  assumes inv: "nt_inv P" and e: "\<And>E ids s. e \<noteq> NeService E ids s"
  shows "pg_policy (nav_step L P e) = pg_policy P"
proof (cases e)
  case (NeStart E ids)
  let ?P = "(Tab_Begin L (nt_handle P) P)\<lparr>nt_deadline := now_ticks E + millis 1500\<rparr>"
  have "calls_ok ?P"
    using inv calls_ok_cong [of ?P P] view_reads [of "Tab_Begin L (nt_handle P) P" P] by (simp add: nt_inv_def)
  from CheckCurrentUrl_ok [OF this, of L E ids] NeStart show ?thesis by (simp add: WillStartRequest_def Let_def)
next
  case (NeRedirect E ids url)
  let ?P = "P\<lparr>nt_handle := (nt_handle P)\<lparr>nh_url := url\<rparr>\<rparr>"
  have "calls_ok ?P" using inv calls_ok_cong [of ?P P] by (simp add: nt_inv_def)
  from CheckCurrentUrl_ok [OF this, of L E ids] NeRedirect show ?thesis by (simp add: WillRedirectRequest_def)
next
  case (NeResult E n r)
  have "Block L E Q = (x, Q') \<Longrightarrow> pg_policy Q' = pg_policy Q" for Q x Q'
    using block_frame(2) [of L E Q] by simp
  then show ?thesis unfolding NeResult nav_step.simps OnResult_eq
    by (simp add: Let_def split: prod.split)
next
  case NeDestroy
  have "pg_policy (foldl (\<lambda>P i. service_cancel i P) Q is) = pg_policy Q" for Q :: "'a page" and "is"
    by (induction "is" arbitrary: Q) simp_all
  with NeDestroy show ?thesis by (simp add: Nav_Destroy_def)
qed (use e in \<open>simp_all add: Nav_Create_def WillProcessResponse_def\<close>)

lemma bypass_ok_cong:
  "pg_policy Q = pg_policy P \<Longrightarrow> pg_bypass Q \<in> {None, pg_bypass P} \<Longrightarrow> bypass_ok P \<Longrightarrow> bypass_ok Q"
  using policy_reads [of Q P] by (auto simp: bypass_ok_def)

lemma bypass_ok_step:
  assumes inv: "nt_inv P" and b: "bypass_ok P"
  shows "bypass_ok (nav_step L P e)"
proof (cases "\<exists>E ids s. e = NeService E ids s")
  case True
  then obtain E ids s where e: "e = NeService E ids s" by blast
  show ?thesis
  proof (cases "ps_revision s = Tab_Revision P")
    case True
    with b e show ?thesis by (simp add: ServiceChanged_def bypass_ok_def) (simp add: Tab_Revision_def)
  next
    case False
    with e show ?thesis by (simp add: ServiceChanged_def bypass_ok_def bypass_policy Let_def)
  qed
next
  case False
  then have policy: "pg_policy (nav_step L P e) = pg_policy P" using inv nav_policy by blast
  show ?thesis
  proof (cases "\<exists>E c. e = NeProceed E c")
    case True
    then obtain E c where e: "e = NeProceed E c" by blast
    show ?thesis using b policy_reads [OF policy] unfolding e
      by (auto simp: bypass_ok_def Proceed_def Let_def pg_emit_def split: if_splits)
  next
    case other: False
    have "pg_bypass (nav_step L P e) \<in> {None, pg_bypass P}"
    proof (cases e)
      case (NeCommitted E err n r)
      let ?P = "P\<lparr>pg_checks := without n (pg_checks P)\<rparr>"
      have "pg_bypass ?P = pg_bypass P" by simp
      then show ?thesis unfolding NeCommitted nav_step.simps using bypass_tab3(3) [where P = ?P] by metis
    qed (use False other in \<open>simp_all add: bypass_check bypass_result WillStartRequest_def WillRedirectRequest_def Let_def\<close>)
    from bypass_ok_cong [OF policy this b] show ?thesis .
  qed
qed

definition tab_inv :: "'u page \<Rightarrow> bool" where
  "tab_inv P \<longleftrightarrow> nt_inv P \<and> bypass_ok P"

interpretation tab_guarded: machine "nav_step L" nav_ok tab_inv for L :: "'u lib"
  by unfold_locales (simp add: tab_inv_def nav_inv_step bypass_ok_step)

lemma idle_inv: "idle_page P \<Longrightarrow> tab_inv P"
  by (simp add: idle_page_def tab_inv_def bypass_ok_def nt_inv_def calls_ok_def)

section \<open>Properties\<close>

text \<open>C18: A deferred navigation always ends. In a run the throttle counts exactly the checks
  that are due, all made under the present policy; a deferred navigation waits for at least one
  of them and knows of no danger, and when the checks due are answered, in any order and with
  any results, it is not deferred any more: the answer that ended the deferral resumed or
  cancelled the navigation.\<close>

theorem deferred_navigation_ends:
  assumes "idle_page P0" and "guarded_run (nav_step L) nav_ok P0 es" and "P = foldl (nav_step L) P0 es"
    and "list_all (\<lambda>e. \<exists>E n r. e = NeResult E n r) answers" and "guarded_run (nav_step L) nav_ok P answers"
    and "length answers = length (nt_calls P)"
  shows "nt_pending P = int (length (nt_calls P)) \<and> (\<forall>c \<in> set (nt_calls P). snd c = Tab_Revision P) \<and>
    (nt_deferred P \<longrightarrow> nt_calls P \<noteq> [] \<and> \<not> dangerous (nt_risk P)) \<and>
    \<not> nt_deferred (foldl (nav_step L) P answers) \<and>
    (nt_deferred P \<and> \<not> nt_deferred (nav_step L P (NeResult E n r)) \<longrightarrow>
      last (pg_log (nav_step L P (NeResult E n r))) = PgResume \<or>
      (\<exists>x. last (pg_log (nav_step L P (NeResult E n r))) = PgCancelDeferred x))"
proof -
  have inv: "tab_inv P"
    unfolding assms(3) using tab_guarded.inv_run [OF idle_inv [OF assms(1)] assms(2)] .
  then have "tab_inv (foldl (nav_step L) P answers)" using tab_guarded.inv_run [OF inv assms(5)] by simp
  moreover have "nt_calls (foldl (nav_step L) P answers) = []"
    using answers_calls [OF assms(4,5)] assms(6) by simp
  ultimately have "\<not> nt_deferred (foldl (nav_step L) P answers)" by (auto simp: tab_inv_def nt_inv_def)
  with inv answer_ends [of P L E n r] show ?thesis by (auto simp: tab_inv_def nt_inv_def calls_ok_def)
qed

lemma deferred_navigation_ends_witness:
  "nt_deferred nav_mid \<and>
   \<not> nt_deferred (nav_step update_lib nav_mid (NeResult (at_ticks 9) 0 (empty_result update_lib)))"
  using deferred_navigation_ends [OF nav_idle nav_run nav_mid_def,
      of "[NeResult (at_ticks 9) 0 (empty_result update_lib)]"]
  by (simp add: nav_mid_reads)

text \<open>C4: Nothing passes unchecked. In a run, the response of a navigation is let through at
  once only when no check is due and no danger is known, and a deferred navigation is
  resumed, by an answer or by a change of policy, only in such a state.\<close>

theorem navigation_passes_checked:
  assumes "idle_page P0" and "guarded_run (nav_step L) nav_ok P0 es" and "P = foldl (nav_step L) P0 es"
  shows "(fst (WillProcessResponse L E P) = PROCEED \<longleftrightarrow> nt_calls P = [] \<and> \<not> dangerous (nt_risk P)) \<and>
    (resumes (nav_step L P e) \<noteq> resumes P \<longrightarrow>
      nt_pending (nav_step L P e) = 0 \<and> \<not> dangerous (nt_risk (nav_step L P e)) \<and>
      \<not> nt_deferred (nav_step L P e))"
proof -
  have inv: "nt_inv P"
    unfolding assms(3) using tab_guarded.inv_run [OF idle_inv [OF assms(1)] assms(2)] by (simp add: tab_inv_def)
  moreover have "fst (WillProcessResponse L E P) = PROCEED \<longleftrightarrow> \<not> dangerous (nt_risk P) \<and> \<not> nt_pending P > 0"
    by (simp add: WillProcessResponse_def Block_def Let_def)
  ultimately show ?thesis using nav_resumes [OF inv, of L e] by (auto simp: nt_inv_def calls_ok_def)
qed

lemma navigation_passes_checked_witness:
  "fst (WillProcessResponse update_lib (at_ticks 9) nav_mid) \<noteq> PROCEED"
  using navigation_passes_checked [OF nav_idle nav_run nav_mid_def, of "at_ticks 9"]
  by (simp add: nav_mid_reads)

text \<open>C24: The bypass of the warning page. In a run a bypass was granted under the present policy,
  and while the service is on, checking a hop uses up the bypass of the tab and leaves the hop
  without a check and without a known danger only when it was granted for this very URL no
  more than its time ago; otherwise the service was asked or the danger is known.\<close>

theorem bypass_is_for_one_navigation:
  assumes "idle_page P0" and "guarded_run (nav_step L) nav_ok P0 es" and "P = foldl (nav_step L) P0 es"
    and "service_enabled P" and "url = nh_url (nt_handle P)" and "Q = CheckCurrentUrl L E ids P"
  shows "(\<forall>b. pg_bypass P = Some b \<longrightarrow> by_revision b = Tab_Revision P) \<and> pg_bypass Q = None \<and>
    ((\<exists>b. pg_bypass P = Some b \<and> by_url b = url \<and> now_ticks E < by_expires b) \<or>
     dangerous (nt_risk Q) \<or> nt_calls Q = nt_calls P @ [(pg_next P, Tab_Revision P)])"
proof -
  have inv: "tab_inv P"
    unfolding assms(3) using tab_guarded.inv_run [OF idle_inv [OF assms(1)] assms(2)] .
  then have b: "\<forall>b. pg_bypass P = Some b \<longrightarrow> by_revision b = Tab_Revision P"
    by (simp add: tab_inv_def bypass_ok_def)
  obtain s where s: "pg_service P = Some s" using inv by (auto simp: tab_inv_def nt_inv_def calls_ok_def)
  have "pg_bypass Q = None" unfolding assms(6) using assms(4) by (simp add: bypass_check)
  moreover have "dangerous (nt_risk Q) \<or> nt_calls Q = nt_calls P @ [(pg_next P, Tab_Revision P)]"
    if "\<not> (\<exists>b. pg_bypass P = Some b \<and> by_url b = url \<and> now_ticks E < by_expires b)"
    using that assms(4) s unfolding assms(6)
    by (cases "pg_bypass P") (auto simp: CheckCurrentUrl_def TakeBypass_def AskService_def assms(5)
        service_enabled_def Tab_Revision_def Let_def case_prod_beta)
  ultimately show ?thesis using b by blast
qed

lemma bypass_is_for_one_navigation_witness:
  "pg_bypass (CheckCurrentUrl update_lib (at_ticks 9) nav_ids nav_page) = None"
  using bypass_is_for_one_navigation [OF nav_idle _ _ _ refl refl, where es = "[]" and E = "at_ticks 9" and L = update_lib and ids = nav_ids and P = nav_page]
  by (simp add: service_enabled_def nav_page_def svc_ready_reads)

end
