(* ===== verification/Message_Codec.thy ===== *)
theory Message_Codec
  imports Prelude
begin

text \<open>
  The writing half of \<open>string_message_codec_ext.cc\<close>, which turns a \<open>WebMessagePort::Message\<close>
  into the bytes that the value deserializer of V8 reads. A \<open>char16_t\<close> is a 16-bit word, a
  \<open>double\<close> its 64-bit pattern, an \<open>int64_t\<close> a 64-bit word read as signed; the bytes of a value
  are in the order of the little-endian machines the program runs on. Every \<open>Write\<close>
  appends to the buffer, its last argument.
\<close>

unbundle bit_operations_syntax

section \<open>Tags and messages\<close>

type_synonym bytes = "u8 list"
type_synonym u16string = "u16 list"

definition kVersionTag :: u8 where "kVersionTag = 0xFF"
definition kPaddingTag :: u8 where "kPaddingTag = 0"
definition kOneByteStringTag :: u8 where "kOneByteStringTag = 0x22"
definition kTwoByteStringTag :: u8 where "kTwoByteStringTag = 0x63"
definition kArrayBuffer :: u8 where "kArrayBuffer = 0x42"
definition kArrayBufferTransferTag :: u8 where "kArrayBufferTransferTag = 0x74"
definition kTrue :: u8 where "kTrue = 0x54"
definition kFalse :: u8 where "kFalse = 0x46"
definition kDouble :: u8 where "kDouble = 0x4E"
definition kInt32 :: u8 where "kInt32 = 0x49"
definition kUint32 :: u8 where "kUint32 = 0x55"
definition kError :: u8 where "kError = 0x72"
definition kBeginDenseJSArray :: u8 where "kBeginDenseJSArray = 0x41"
definition kEndDenseJSArray :: u8 where "kEndDenseJSArray = 0x24"

lemmas tag_defs = kVersionTag_def kPaddingTag_def kOneByteStringTag_def kTwoByteStringTag_def
  kArrayBuffer_def kArrayBufferTransferTag_def kTrue_def kFalse_def kDouble_def kInt32_def
  kUint32_def kError_def kBeginDenseJSArray_def kEndDenseJSArray_def

datatype error_tag =
    kEvalErrorPrototype
  | kRangeErrorPrototype
  | kReferenceErrorPrototype
  | kSyntaxErrorPrototype
  | kTypeErrorPrototype
  | kUriErrorPrototype
  | kMessage
  | kCause
  | kStack
  | kEnd

fun error_tag_code :: "error_tag \<Rightarrow> u8" where
  "error_tag_code kEvalErrorPrototype = 0x45"
| "error_tag_code kRangeErrorPrototype = 0x52"
| "error_tag_code kReferenceErrorPrototype = 0x46"
| "error_tag_code kSyntaxErrorPrototype = 0x53"
| "error_tag_code kTypeErrorPrototype = 0x54"
| "error_tag_code kUriErrorPrototype = 0x55"
| "error_tag_code kMessage = 0x6D"
| "error_tag_code kCause = 0x63"
| "error_tag_code kStack = 0x73"
| "error_tag_code kEnd = 0x2E"

definition kErrorVersion :: u32 where "kErrorVersion = 20"
definition kLatestVersion :: u32 where "kLatestVersion = 14"

datatype message_type =
    NONE
  | BOOLEAN
  | INTEGER
  | DOUBLE
  | STRING
  | BINARY
  | DICTIONARY
  | LIST
  | ERROR
  | STRINGARRAY
  | BOOLEANARRAY
  | DOUBLEARRAY
  | INT64ARRAY

record message =
  msg_data :: u16string
  msg_array_buffer :: bytes
  msg_type :: message_type
  msg_bool_value :: bool
  msg_double_value :: u64
  msg_int64_value :: u64
  msg_string_arr :: "u16string list"
  msg_bool_arr :: "bool list"
  msg_double_arr :: "u64 list"
  msg_int64_arr :: "u64 list"
  msg_err_name :: u16string
  msg_err_msg :: u16string

text \<open>What is sent: the bytes, and the array buffers with their flag and their maximal length.\<close>

record transferable =
  encoded_message :: bytes
  array_buffer_contents_array :: "(bytes \<times> bool \<times> nat) list"

text \<open>A literal of the source, \<open>u"..."\<close>.\<close>

definition u16s :: "string \<Rightarrow> u16string" where
  "u16s s = map of_char s"

section \<open>Integers\<close>

text \<open>Seven bits at a time, the least significant first; all but the last byte have bit 7 set.\<close>

lemma drop7_less: "drop_bit 7 v \<noteq> 0 \<Longrightarrow> unat (drop_bit 7 v) < unat v" for v :: "'a::len word"
proof -
  assume "drop_bit 7 v \<noteq> 0"
  then have "unat v \<noteq> 0" by (auto simp: unat_eq_0)
  then show ?thesis by (simp only: unat_drop_bit_eq) (simp add: drop_bit_eq_div)
qed

function BytesNeededForUint32 :: "u32 \<Rightarrow> nat" where
  "BytesNeededForUint32 value =
     (if drop_bit 7 value = 0 then 1 else Suc (BytesNeededForUint32 (drop_bit 7 value)))"
  by pat_completeness auto
termination by (relation "measure unat") (use drop7_less in auto)

function varint_bytes :: "u32 \<Rightarrow> bytes" where
  "varint_bytes value =
     (if drop_bit 7 value = 0 then [ucast (value AND 0x7F)]
      else (ucast (value AND 0x7F) OR 0x80) # varint_bytes (drop_bit 7 value))"
  by pat_completeness auto
termination by (relation "measure unat") (use drop7_less in auto)

declare BytesNeededForUint32.simps [simp del] varint_bytes.simps [simp del]

definition WriteUint8 :: "u8 \<Rightarrow> bytes \<Rightarrow> bytes" where
  "WriteUint8 value buffer = buffer @ [value]"

definition WriteBytes :: "bytes \<Rightarrow> bytes \<Rightarrow> bytes" where
  "WriteBytes bs buffer = buffer @ bs"

function WriteUint32 :: "u32 \<Rightarrow> bytes \<Rightarrow> bytes" where
  "WriteUint32 value buffer =
     (let b = ucast (value AND 0x7F); value' = drop_bit 7 value
      in if value' = 0 then WriteUint8 b buffer
         else WriteUint32 value' (WriteUint8 (b OR 0x80) buffer))"
  by pat_completeness auto
termination by (relation "measure (unat \<circ> fst)") (use drop7_less in auto)

declare WriteUint32.simps [simp del]

text \<open>\<open>WriteVarint\<close> fills a buffer of its own with bit 7 set, and clears it in the last byte.\<close>

function stack_buffer :: "u32 \<Rightarrow> bytes" where
  "stack_buffer value =
     (let b = ucast (value AND 0x7F) OR 0x80; value' = drop_bit 7 value
      in if value' = 0 then [b] else b # stack_buffer value')"
  by pat_completeness auto
termination by (relation "measure unat") (use drop7_less in auto)

declare stack_buffer.simps [simp del]

definition WriteVarint :: "u32 \<Rightarrow> bytes \<Rightarrow> bytes" where
  "WriteVarint value buffer =
     (let s = stack_buffer value in buffer @ butlast s @ [last s AND 0x7F])"

text \<open>The conversion of an \<open>int64_t\<close> to the nearest \<open>double\<close>, ties to even.\<close>

definition significand_of :: "nat \<Rightarrow> nat \<Rightarrow> nat" where
  "significand_of e m =
     (if e \<le> 52 then m * 2 ^ (52 - e)
      else let k = e - 52; q = m div 2 ^ k; r = m mod 2 ^ k
           in if 2 * r > 2 ^ k \<or> 2 * r = 2 ^ k \<and> odd q then q + 1 else q)"

fun floor_log2 :: "nat \<Rightarrow> nat" where
  "floor_log2 n = (if n < 2 then 0 else Suc (floor_log2 (n div 2)))"

declare floor_log2.simps [simp del]

definition int64_to_double :: "u64 \<Rightarrow> u64" where
  "int64_to_double value =
     (let v = sint value; m = nat \<bar>v\<bar>; e = floor_log2 m
      in if v = 0 then 0
         else (if v < 0 then 0x8000000000000000 else 0) +
              word_of_nat ((e + 1022) * 2 ^ 52 + significand_of e m))"

section \<open>Strings and numbers\<close>

definition ContainsOnlyLatin1 :: "u16string \<Rightarrow> bool" where
  "ContainsOnlyLatin1 s \<longleftrightarrow> fold (\<lambda>c x. x OR c) s 0 AND 0xFF00 = 0"

definition u16_bytes :: "u16string \<Rightarrow> bytes" where
  "u16_bytes s = concat (map (\<lambda>c. [ucast c, ucast (drop_bit 8 c)]) s)"

definition u64_bytes :: "u64 \<Rightarrow> bytes" where
  "u64_bytes w = map (\<lambda>i. ucast (drop_bit (8 * i) w)) [0..<8]"

definition WriteString :: "bytes \<Rightarrow> bytes \<Rightarrow> bytes" where
  "WriteString str buffer =
     WriteBytes str (WriteUint32 (word_of_nat (length str)) (WriteUint8 kOneByteStringTag buffer))"

definition WriteHeader :: "bytes \<Rightarrow> bytes" where
  "WriteHeader buffer = WriteUint32 kLatestVersion (WriteUint8 kVersionTag
     (WriteUint32 kErrorVersion (WriteUint8 kVersionTag buffer)))"

definition WriteU16string :: "u16string \<Rightarrow> bytes \<Rightarrow> bytes" where
  "WriteU16string str buffer =
     (if ContainsOnlyLatin1 str
      then WriteBytes (map ucast str)
             (WriteUint32 (word_of_nat (length str)) (WriteUint8 kOneByteStringTag buffer))
      else let num_bytes = length str * 2;
               buffer = (if odd (length buffer + 1 + BytesNeededForUint32 (word_of_nat num_bytes))
                         then WriteUint8 kPaddingTag buffer else buffer)
           in WriteBytes (u16_bytes str)
                (WriteUint32 (word_of_nat num_bytes) (WriteUint8 kTwoByteStringTag buffer)))"

definition WriteBool :: "bool \<Rightarrow> bytes \<Rightarrow> bytes" where
  "WriteBool value buffer = WriteUint8 (if value then kTrue else kFalse) buffer"

definition WriteDouble :: "u64 \<Rightarrow> bytes \<Rightarrow> bytes" where
  "WriteDouble value buffer = WriteBytes (u64_bytes value) (WriteUint8 kDouble buffer)"

definition zigzag :: "u32 \<Rightarrow> u32" where
  "zigzag val = push_bit 1 val XOR signed_drop_bit 31 val"

definition WriteInt64 :: "u64 \<Rightarrow> bytes \<Rightarrow> bytes" where
  "WriteInt64 value buffer =
     (if - 0x80000000 \<le> sint value \<and> sint value \<le> 0x7FFFFFFF
      then WriteVarint (zigzag (ucast value)) (WriteUint8 kInt32 buffer)
      else if 0x7FFFFFFF < sint value \<and> sint value \<le> 0xFFFFFFFF
      then WriteUint32 (ucast value) (WriteUint8 kUint32 buffer)
      else WriteDouble (int64_to_double value) buffer)"

section \<open>Errors, array buffers and arrays\<close>

definition error_types :: "(u16string \<times> error_tag) list" where
  "error_types = [(u16s ''EvalError'', kEvalErrorPrototype), (u16s ''RangeError'', kRangeErrorPrototype),
     (u16s ''ReferenceError'', kReferenceErrorPrototype), (u16s ''SyntaxError'', kSyntaxErrorPrototype),
     (u16s ''TypeError'', kTypeErrorPrototype), (u16s ''URIError'', kUriErrorPrototype)]"

definition ConvertToErrType :: "u16string \<Rightarrow> error_tag" where
  "ConvertToErrType name =
     (case map_of error_types name of Some t \<Rightarrow> t | None \<Rightarrow> kSyntaxErrorPrototype)"

definition WriteError :: "u16string \<Rightarrow> u16string \<Rightarrow> bytes \<Rightarrow> bytes" where
  "WriteError name message buffer =
     (let buffer = WriteUint8 kError buffer;
          buffer = WriteUint8 (error_tag_code (ConvertToErrType name)) buffer;
          buffer = WriteU16string message (WriteUint8 (error_tag_code kMessage) buffer);
          buffer = WriteU16string (name @ u16s '': '' @ message)
                     (WriteUint8 (error_tag_code kStack) buffer)
      in WriteUint8 (error_tag_code kEnd) buffer)"

text \<open>
  The size of the big buffer is an argument of the call that moves the buffer away, and the
  language does not say which comes first: \<open>moved_size\<close> is what \<open>size()\<close> gives there.
\<close>

definition WriteArrayBuffer ::
  "(bytes \<Rightarrow> nat) \<Rightarrow> bytes \<Rightarrow> transferable \<Rightarrow> bytes \<Rightarrow> transferable \<times> bytes" where
  "WriteArrayBuffer moved_size arrbuf message buffer =
     (message\<lparr>array_buffer_contents_array :=
        array_buffer_contents_array message @ [(arrbuf, False, moved_size arrbuf)]\<rparr>,
      WriteUint32 0 (WriteUint8 kArrayBufferTransferTag buffer))"

definition WriteArray :: "('a \<Rightarrow> bytes \<Rightarrow> bytes) \<Rightarrow> 'a list \<Rightarrow> bytes \<Rightarrow> bytes" where
  "WriteArray write arr buffer =
     (let buffer = WriteUint32 (word_of_nat (length arr)) (WriteUint8 kBeginDenseJSArray buffer);
          buffer = fold write (take (unat (word_of_nat (length arr) :: u32)) arr) buffer
      in WriteUint32 (word_of_nat (length arr))
           (WriteUint32 0 (WriteUint8 kEndDenseJSArray buffer)))"

definition WriteStringArray :: "u16string list \<Rightarrow> bytes \<Rightarrow> bytes" where
  "WriteStringArray = WriteArray WriteU16string"

definition WriteBoolArray :: "bool list \<Rightarrow> bytes \<Rightarrow> bytes" where
  "WriteBoolArray = WriteArray WriteBool"

definition WriteDoubleArray :: "u64 list \<Rightarrow> bytes \<Rightarrow> bytes" where
  "WriteDoubleArray = WriteArray WriteDouble"

definition WriteInt64Array :: "u64 list \<Rightarrow> bytes \<Rightarrow> bytes" where
  "WriteInt64Array = WriteArray WriteInt64"

definition EncodeWebMessagePayload :: "(bytes \<Rightarrow> nat) \<Rightarrow> message \<Rightarrow> transferable" where
  "EncodeWebMessagePayload moved_size original =
     (let message = \<lparr>encoded_message = [], array_buffer_contents_array = []\<rparr>;
          buffer = WriteHeader [];
          (message, buffer) =
            (case msg_type original of
               STRING \<Rightarrow> (message, WriteU16string (msg_data original) buffer)
             | INTEGER \<Rightarrow> (message, WriteInt64 (msg_int64_value original) buffer)
             | BOOLEAN \<Rightarrow> (message, WriteBool (msg_bool_value original) buffer)
             | DOUBLE \<Rightarrow> (message, WriteDouble (msg_double_value original) buffer)
             | BINARY \<Rightarrow> WriteArrayBuffer moved_size (msg_array_buffer original) message buffer
             | ERROR \<Rightarrow> (message, WriteError (msg_err_name original) (msg_err_msg original) buffer)
             | STRINGARRAY \<Rightarrow> (message, WriteStringArray (msg_string_arr original) buffer)
             | BOOLEANARRAY \<Rightarrow> (message, WriteBoolArray (msg_bool_arr original) buffer)
             | DOUBLEARRAY \<Rightarrow> (message, WriteDoubleArray (msg_double_arr original) buffer)
             | INT64ARRAY \<Rightarrow> (message, WriteInt64Array (msg_int64_arr original) buffer)
             | _ \<Rightarrow> (message, buffer))
      in message\<lparr>encoded_message := buffer\<rparr>)"

section \<open>What is appended\<close>

lemma WriteUint32_eq [simp]: "WriteUint32 v buffer = buffer @ varint_bytes v"
proof (induction v buffer rule: WriteUint32.induct)
  case (1 v buffer)
  then show ?case
    by (subst WriteUint32.simps, subst varint_bytes.simps) (simp add: Let_def WriteUint8_def)
qed

lemma bit_low7: "bit (0x7F :: int) n \<longleftrightarrow> n < 7"
proof -
  have "(0x7F :: int) = mask 7" by (simp add: mask_eq_exp_minus_1)
  then show ?thesis by (simp only: bit_mask_iff) auto
qed

lemma bit_high: "bit (0x80 :: int) n \<longleftrightarrow> n = 7"
proof -
  have "(0x80 :: int) = 2 ^ 7" by simp
  then show ?thesis by (simp only: bit_exp_iff) auto
qed

lemma low7: "(ucast (v AND 0x7F) OR 0x80) AND 0x7F = (ucast (v AND 0x7F) :: u8)" for v :: u32
  by (rule bit_word_eqI) (auto simp: bit_simps bit_low7 bit_high)

lemma stack_buffer_eq: "butlast (stack_buffer v) @ [last (stack_buffer v) AND 0x7F] = varint_bytes v"
proof (induction v rule: varint_bytes.induct)
  case (1 v)
  have "stack_buffer w \<noteq> []" for w by (subst stack_buffer.simps) (simp add: Let_def)
  with 1 show ?case
    by (subst (1 2) stack_buffer.simps, subst varint_bytes.simps) (simp add: Let_def low7)
qed

lemma WriteVarint_eq [simp]: "WriteVarint v buffer = buffer @ varint_bytes v"
  using stack_buffer_eq [of v] by (simp add: WriteVarint_def Let_def)

lemma varint_length: "length (varint_bytes v) = BytesNeededForUint32 v"
proof (induction v rule: varint_bytes.induct)
  case (1 v)
  then show ?case by (subst varint_bytes.simps, subst BytesNeededForUint32.simps) simp
qed

lemma header_bytes: "WriteHeader buffer = buffer @ [0xFF, 20, 0xFF, 14]"
  by (simp add: WriteHeader_def WriteUint8_def kVersionTag_def kErrorVersion_def kLatestVersion_def
      varint_bytes.simps)

end
