(* ===== verification/Message_Decode.thy ===== *)
theory Message_Decode
  imports Message_Codec
begin

text \<open>
  The reading half of \<open>string_message_codec_ext.cc\<close>. \<open>base::BufferIterator\<close> is not in the
  repository: its operations are the record \<open>B\<close>, an argument of every reader. A reader
  returns its outcome and the iterator after it, whatever the outcome; a \<open>return false\<close> is
  \<open>Refused\<close>. Every loop of the code takes something from the iterator in each turn; the
  loops here have one more turn of fuel than the buffer has bytes, and \<open>Unfinished\<close> is what
  a loop would give that needs more.
\<close>

section \<open>The iterator\<close>

datatype 'a outcome = Read 'a | Refused | Unfinished

text \<open>
  \<open>bi_object\<close> is \<open>Object<uint8_t>()\<close>, \<open>bi_span8\<close> and \<open>bi_span16\<close> are \<open>Span<uint8_t>(n)\<close> and
  \<open>Span<char16_t>(n)\<close>. The language does not define the shift of a 32-bit number by 32 or
  more: \<open>undefined_shift\<close> is what the program then computes.
\<close>

record 'i buffer_iterator =
  bi_make :: "bytes \<Rightarrow> 'i"
  bi_object :: "'i \<Rightarrow> u8 option \<times> 'i"
  bi_span8 :: "nat \<Rightarrow> 'i \<Rightarrow> bytes \<times> 'i"
  bi_span16 :: "nat \<Rightarrow> 'i \<Rightarrow> u16string \<times> 'i"
  bi_seek :: "nat \<Rightarrow> 'i \<Rightarrow> 'i"
  bi_position :: "'i \<Rightarrow> nat"
  bi_total_size :: "'i \<Rightarrow> nat"
  undefined_shift :: "u32 \<Rightarrow> nat \<Rightarrow> u32"

definition andthen ::
  "'a outcome \<times> 'i \<Rightarrow> ('a \<Rightarrow> 'i \<Rightarrow> 'b outcome \<times> 'i) \<Rightarrow> 'b outcome \<times> 'i" where
  "andthen x k = (case x of (Read a, it) \<Rightarrow> k a it
     | (Refused, it) \<Rightarrow> (Refused, it) | (Unfinished, it) \<Rightarrow> (Unfinished, it))"

definition loop_fuel :: "'i buffer_iterator \<Rightarrow> 'i \<Rightarrow> nat" where
  "loop_fuel B it = Suc (bi_total_size B it)"

definition more_left :: "'i buffer_iterator \<Rightarrow> 'i \<Rightarrow> bool" where
  "more_left B it \<longleftrightarrow> bi_total_size B it - bi_position B it \<ge> 1"

section \<open>Numbers\<close>

definition ReadUint8 :: "'i buffer_iterator \<Rightarrow> 'i \<Rightarrow> u8 outcome \<times> 'i" where
  "ReadUint8 B it =
     (case bi_object B it of (Some v, it) \<Rightarrow> (Read v, it) | (None, it) \<Rightarrow> (Refused, it))"

definition shift_left :: "'i buffer_iterator \<Rightarrow> u32 \<Rightarrow> nat \<Rightarrow> u32" where
  "shift_left B v n = (if n < 32 then push_bit n v else undefined_shift B v n)"

fun ReadUint32_loop :: "'i buffer_iterator \<Rightarrow> nat \<Rightarrow> u32 \<Rightarrow> nat \<Rightarrow> 'i \<Rightarrow> u32 outcome \<times> 'i" where
  "ReadUint32_loop B 0 v shift it = (Unfinished, it)"
| "ReadUint32_loop B (Suc f) v shift it =
     andthen (ReadUint8 B it) (\<lambda>current_byte it.
       let v = v OR shift_left B (ucast (current_byte AND 0x7F)) shift
       in if current_byte AND 0x80 \<noteq> 0 then ReadUint32_loop B f v (shift + 7) it else (Read v, it))"

definition ReadUint32 :: "'i buffer_iterator \<Rightarrow> 'i \<Rightarrow> u32 outcome \<times> 'i" where
  "ReadUint32 B it = ReadUint32_loop B (loop_fuel B it) 0 0 it"

text \<open>The bytes are those from \<open>position\<close> to \<open>end\<close>; bits beyond the 32nd are discarded.\<close>

fun ReadVarint_loop :: "u32 \<Rightarrow> nat \<Rightarrow> bytes \<Rightarrow> u32" where
  "ReadVarint_loop v shift [] = v"
| "ReadVarint_loop v shift (byte # rest) =
     (let v = (if shift < 32 then v OR push_bit shift (ucast (byte AND 0x7F)) else v);
          shift = (if shift < 32 then shift + 7 else shift)
      in if byte AND 0x80 \<noteq> 0 then ReadVarint_loop v shift rest else v)"

definition ReadVarint :: "bytes \<Rightarrow> u32" where
  "ReadVarint bs = ReadVarint_loop 0 0 bs"

definition ReadInt32 :: "'i buffer_iterator \<Rightarrow> 'i \<Rightarrow> u32 outcome \<times> 'i" where
  "ReadInt32 B it =
     (case bi_span8 B (bi_total_size B it - bi_position B it) it of
        (span, it) \<Rightarrow>
          if span = [] then (Refused, it)
          else let v = ReadVarint span in (Read (drop_bit 1 v XOR - (v AND 1)), it))"

text \<open>
  In an array the number is read up to the tag of the next element or the end tag; the loop
  keeps the bytes before the present one. Here the value is an \<open>int32_t\<close>, so the shift is a
  signed one.
\<close>

fun ReadInt32InArray_loop :: "'i buffer_iterator \<Rightarrow> nat \<Rightarrow> bytes \<Rightarrow> 'i \<Rightarrow> u32 outcome \<times> 'i" where
  "ReadInt32InArray_loop B 0 before it = (Unfinished, it)"
| "ReadInt32InArray_loop B (Suc f) before it =
     (if \<not> more_left B it then (Refused, it)
      else andthen (ReadUint8 B it) (\<lambda>current it.
        if current = kEndDenseJSArray \<or> current = kInt32
        then let v = ReadVarint before
             in (Read (signed_drop_bit 1 v XOR - (v AND 1)), bi_seek B (bi_position B it - 1) it)
        else ReadInt32InArray_loop B f (before @ [current]) it))"

definition ReadInt32InArray :: "'i buffer_iterator \<Rightarrow> 'i \<Rightarrow> u32 outcome \<times> 'i" where
  "ReadInt32InArray B it =
     andthen (ReadUint8 B it) (\<lambda>begin it.
       if \<not> more_left B it then (Refused, it)
       else ReadInt32InArray_loop B (loop_fuel B it) [begin] it)"

fun ReadDouble_loop :: "'i buffer_iterator \<Rightarrow> nat \<Rightarrow> bytes \<Rightarrow> 'i \<Rightarrow> bytes outcome \<times> 'i" where
  "ReadDouble_loop B 0 p it = (Read p, it)"
| "ReadDouble_loop B (Suc n) p it =
     andthen (ReadUint8 B it) (\<lambda>b it. ReadDouble_loop B n (p @ [b]) it)"

definition bytes_u64 :: "bytes \<Rightarrow> u64" where
  "bytes_u64 bs = foldr (\<lambda>b w. ucast b OR push_bit 8 w) bs 0"

definition ReadDouble :: "'i buffer_iterator \<Rightarrow> 'i \<Rightarrow> u64 outcome \<times> 'i" where
  "ReadDouble B it = andthen (ReadDouble_loop B 8 [] it) (\<lambda>p it. (Read (bytes_u64 p), it))"

section \<open>Strings\<close>

definition ReadOneByteString :: "'i buffer_iterator \<Rightarrow> 'i \<Rightarrow> u16string outcome \<times> 'i" where
  "ReadOneByteString B it =
     andthen (ReadUint32 B it) (\<lambda>num_bytes it.
       case bi_span8 B (unat num_bytes) it of (span, it) \<Rightarrow> (Read (map ucast span), it))"

definition ReadTwoByteString :: "'i buffer_iterator \<Rightarrow> 'i \<Rightarrow> u16string outcome \<times> 'i" where
  "ReadTwoByteString B it =
     andthen (ReadUint32 B it) (\<lambda>num_bytes it.
       case bi_span16 B (unat num_bytes div 2) it of (span, it) \<Rightarrow> (Read span, it))"

text \<open>
  \<open>str\<close> is the string that is passed in: a failure in the inner reader leaves it as it was,
  and is not reported.
\<close>

definition ReadU16string ::
  "'i buffer_iterator \<Rightarrow> u16string \<Rightarrow> 'i \<Rightarrow> u16string outcome \<times> 'i" where
  "ReadU16string B str it =
     andthen (ReadUint8 B it) (\<lambda>tag it.
       let inner = (if tag = kOneByteStringTag then Some (ReadOneByteString B it)
                    else if tag = kTwoByteStringTag then Some (ReadTwoByteString B it) else None)
       in case inner of None \<Rightarrow> (Refused, it)
          | Some (Refused, it) \<Rightarrow> (Read str, it)
          | Some x \<Rightarrow> x)"

section \<open>Arrays\<close>

definition IsBoolElement :: "u8 \<Rightarrow> bool" where
  "IsBoolElement element_tag \<longleftrightarrow> element_tag = kTrue \<or> element_tag = kFalse"

definition IsStringElement :: "u8 \<Rightarrow> bool" where
  "IsStringElement element_tag \<longleftrightarrow> element_tag = kOneByteStringTag \<or> element_tag = kTwoByteStringTag"

definition IsNumberElement :: "u8 \<Rightarrow> bool" where
  "IsNumberElement element_tag \<longleftrightarrow> element_tag = kDouble \<or> element_tag = kInt32 \<or> element_tag = kUint32"

text \<open>The four vectors that the loop fills, and the tag of the first element.\<close>

record elements =
  string_array :: "u16string list"
  boolean_array :: "bool list"
  double_array :: "u64 list"
  int64_array :: "u64 list"
  element_tag_first :: u8

definition mixed_text :: u16string where
  "mixed_text = u16s ''This type not support, The elements in the array must be the same''"

definition element_text :: u16string where
  "element_text = u16s ''This type not support, only string/number/boolean is supported for array elements''"

text \<open>One element after its tag; \<open>None\<close>: an element of no supported type.\<close>

definition ReadElement ::
  "'i buffer_iterator \<Rightarrow> u8 \<Rightarrow> elements \<Rightarrow> 'i \<Rightarrow> elements option outcome \<times> 'i" where
  "ReadElement B element_tag a it =
     (if element_tag = kOneByteStringTag then
        andthen (ReadOneByteString B it) (\<lambda>v it. (Read (Some (a\<lparr>string_array := string_array a @ [v]\<rparr>)), it))
      else if element_tag = kTwoByteStringTag then
        andthen (ReadTwoByteString B it) (\<lambda>v it. (Read (Some (a\<lparr>string_array := string_array a @ [v]\<rparr>)), it))
      else if element_tag = kTrue then (Read (Some (a\<lparr>boolean_array := boolean_array a @ [True]\<rparr>)), it)
      else if element_tag = kFalse then (Read (Some (a\<lparr>boolean_array := boolean_array a @ [False]\<rparr>)), it)
      else if element_tag = kDouble then
        andthen (ReadDouble B it) (\<lambda>v it. (Read (Some (a\<lparr>double_array := double_array a @ [v]\<rparr>)), it))
      else if element_tag = kInt32 then
        andthen (ReadInt32InArray B it)
          (\<lambda>v it. (Read (Some (a\<lparr>int64_array := int64_array a @ [scast v]\<rparr>)), it))
      else if element_tag = kUint32 then
        andthen (ReadUint32 B it)
          (\<lambda>v it. (Read (Some (a\<lparr>int64_array := int64_array a @ [ucast v]\<rparr>)), it))
      else (Read None, it))"

text \<open>The elements, or the text of the message that stands for an array that is not supported.\<close>

fun ReadElements ::
  "'i buffer_iterator \<Rightarrow> bool \<Rightarrow> nat \<Rightarrow> elements \<Rightarrow> 'i \<Rightarrow> (u16string + elements) outcome \<times> 'i" where
  "ReadElements B is_first 0 a it = (Read (Inr a), it)"
| "ReadElements B is_first (Suc n) a it =
     andthen (ReadUint8 B it) (\<lambda>element_tag it.
       let a = (if is_first then a\<lparr>element_tag_first := element_tag\<rparr> else a);
           is_ignore = (IsBoolElement (element_tag_first a) \<and> IsBoolElement element_tag)
       in if element_tag_first a \<noteq> element_tag \<and> \<not> is_ignore then (Read (Inl mixed_text), it)
          else andthen (ReadElement B element_tag a it) (\<lambda>r it.
            case r of None \<Rightarrow> (Read (Inl element_text), it) | Some a \<Rightarrow> ReadElements B False n a it))"

fun SkipToEnd :: "'i buffer_iterator \<Rightarrow> nat \<Rightarrow> 'i \<Rightarrow> unit outcome \<times> 'i" where
  "SkipToEnd B 0 it = (Unfinished, it)"
| "SkipToEnd B (Suc f) it =
     (if \<not> more_left B it then (Read (), it)
      else andthen (ReadUint8 B it) (\<lambda>element_tag it.
        if element_tag = kEndDenseJSArray then (Read (), it) else SkipToEnd B f it))"

definition StoreArray :: "elements \<Rightarrow> message \<Rightarrow> message" where
  "StoreArray a m =
     (if IsStringElement (element_tag_first a)
      then m\<lparr>msg_string_arr := string_array a, msg_type := STRINGARRAY\<rparr>
      else if IsBoolElement (element_tag_first a)
      then m\<lparr>msg_bool_arr := boolean_array a, msg_type := BOOLEANARRAY\<rparr>
      else if element_tag_first a = kDouble
      then m\<lparr>msg_double_arr := double_array a, msg_type := DOUBLEARRAY\<rparr>
      else if element_tag_first a = kInt32 \<or> element_tag_first a = kUint32
      then m\<lparr>msg_int64_arr := int64_array a, msg_type := INT64ARRAY\<rparr> else m)"

definition no_elements :: elements where
  "no_elements = \<lparr>string_array = [], boolean_array = [], double_array = [], int64_array = [],
     element_tag_first = 0\<rparr>"

definition ReadArray :: "'i buffer_iterator \<Rightarrow> message \<Rightarrow> 'i \<Rightarrow> message outcome \<times> 'i" where
  "ReadArray B m it =
     andthen (ReadUint32 B it) (\<lambda>len it.
       andthen (ReadElements B True (unat len) no_elements it) (\<lambda>r it.
         case r of Inl said \<Rightarrow> (Read (m\<lparr>msg_data := said, msg_type := STRING\<rparr>), it)
         | Inr a \<Rightarrow> andthen (SkipToEnd B (loop_fuel B it) it) (\<lambda>_ it. (Read (StoreArray a m), it))))"


section \<open>Errors\<close>

definition error_tag_of :: "u8 \<Rightarrow> error_tag option" where
  "error_tag_of b = find (\<lambda>t. error_tag_code t = b) [kEvalErrorPrototype, kRangeErrorPrototype,
     kReferenceErrorPrototype, kSyntaxErrorPrototype, kTypeErrorPrototype, kUriErrorPrototype,
     kMessage, kCause, kStack, kEnd]"

fun GetProtoTypeName :: "error_tag \<Rightarrow> u16string" where
  "GetProtoTypeName kEvalErrorPrototype = u16s ''EvalError''"
| "GetProtoTypeName kRangeErrorPrototype = u16s ''RangeError''"
| "GetProtoTypeName kReferenceErrorPrototype = u16s ''ReferenceError''"
| "GetProtoTypeName kSyntaxErrorPrototype = u16s ''SyntaxError''"
| "GetProtoTypeName kTypeErrorPrototype = u16s ''TypeError''"
| "GetProtoTypeName kUriErrorPrototype = u16s ''URIError''"
| "GetProtoTypeName _ = u16s ''Error''"

text \<open>The result of \<open>ReadU16string\<close> is ignored: after a failure the string is empty.\<close>

definition ReadErrorString :: "'i buffer_iterator \<Rightarrow> 'i \<Rightarrow> u16string outcome \<times> 'i" where
  "ReadErrorString B it =
     (case ReadU16string B [] it of (Refused, it) \<Rightarrow> (Read [], it) | x \<Rightarrow> x)"

fun ReadError :: "'i buffer_iterator \<Rightarrow> nat \<Rightarrow> message \<Rightarrow> 'i \<Rightarrow> message outcome \<times> 'i" where
  "ReadError B 0 m it = (Unfinished, it)"
| "ReadError B (Suc f) m it =
     andthen (ReadUint8 B it) (\<lambda>tag it.
       case error_tag_of tag of
         Some kStack \<Rightarrow> andthen (ReadErrorString B it) (\<lambda>_ it. ReadError B f m it)
       | Some kMessage \<Rightarrow> andthen (ReadErrorString B it)
           (\<lambda>msg_err it. ReadError B f (m\<lparr>msg_err_msg := msg_err, msg_type := ERROR\<rparr>) it)
       | Some kCause \<Rightarrow> (Read m, it)
       | Some kEnd \<Rightarrow> (Read m, it)
       | Some t \<Rightarrow> ReadError B f (m\<lparr>msg_err_name := GetProtoTypeName t, msg_type := ERROR\<rparr>) it
       | None \<Rightarrow> (Read m, it))"

section \<open>The header and the message\<close>

definition kMinWireFormatVersionWithTrailer :: u32 where
  "kMinWireFormatVersionWithTrailer = 21"

definition ReadEnvelope :: "'i buffer_iterator \<Rightarrow> u8 \<Rightarrow> 'i \<Rightarrow> u8 outcome \<times> 'i" where
  "ReadEnvelope B tag it =
     (if tag \<noteq> kVersionTag then (Read tag, it)
      else andthen (ReadUint32 B it) (\<lambda>version it.
        if version \<ge> kMinWireFormatVersionWithTrailer
        then (case bi_span8 B (1 + 8 + 4) it of (span, it) \<Rightarrow>
                if span = [] \<or> span ! 0 \<noteq> 0xFE then (Refused, it) else ReadUint8 B it)
        else ReadUint8 B it))"

fun SkipVersions :: "'i buffer_iterator \<Rightarrow> nat \<Rightarrow> u8 \<Rightarrow> 'i \<Rightarrow> u8 outcome \<times> 'i" where
  "SkipVersions B 0 tag it = (Unfinished, it)"
| "SkipVersions B (Suc f) tag it =
     (if tag = kVersionTag
      then andthen (ReadUint32 B it) (\<lambda>_ it. andthen (ReadUint8 B it) (\<lambda>tag it. SkipVersions B f tag it))
      else if tag = kPaddingTag
      then andthen (ReadUint8 B it) (\<lambda>tag it. SkipVersions B f tag it)
      else (Read tag, it))"

definition ReadHeaderTag :: "'i buffer_iterator \<Rightarrow> 'i \<Rightarrow> u8 outcome \<times> 'i" where
  "ReadHeaderTag B it =
     andthen (ReadUint8 B it) (\<lambda>tag it.
       andthen (ReadEnvelope B tag it) (\<lambda>tag it. SkipVersions B (loop_fuel B it) tag it))"

definition type_text :: u16string where
  "type_text = u16s ''This type not support, only string/number/boolean/arraybuffer/array/error is supported''"

definition ReadPayload :: "'i buffer_iterator \<Rightarrow> message \<Rightarrow> u8 \<Rightarrow> 'i \<Rightarrow> message outcome \<times> 'i" where
  "ReadPayload B m tag it =
     (if tag = kOneByteStringTag then
        andthen (ReadOneByteString B it) (\<lambda>s it. (Read (m\<lparr>msg_data := s, msg_type := STRING\<rparr>), it))
      else if tag = kTwoByteStringTag then
        andthen (ReadTwoByteString B it) (\<lambda>s it. (Read (m\<lparr>msg_data := s, msg_type := STRING\<rparr>), it))
      else if tag = kArrayBuffer then
        andthen (ReadUint32 B it) (\<lambda>num_bytes it.
          case bi_span8 B (unat num_bytes) it of
            (span, it) \<Rightarrow> (Read (m\<lparr>msg_array_buffer := span, msg_type := BINARY\<rparr>), it))
      else if tag = kTrue then (Read (m\<lparr>msg_bool_value := True, msg_type := BOOLEAN\<rparr>), it)
      else if tag = kFalse then (Read (m\<lparr>msg_bool_value := False, msg_type := BOOLEAN\<rparr>), it)
      else if tag = kDouble then
        andthen (ReadDouble B it) (\<lambda>v it. (Read (m\<lparr>msg_double_value := v, msg_type := DOUBLE\<rparr>), it))
      else if tag = kInt32 then
        andthen (ReadInt32 B it)
          (\<lambda>v it. (Read (m\<lparr>msg_int64_value := scast v, msg_type := INTEGER\<rparr>), it))
      else if tag = kUint32 then
        andthen (ReadUint32 B it)
          (\<lambda>v it. (Read (m\<lparr>msg_int64_value := ucast v, msg_type := INTEGER\<rparr>), it))
      else if tag = kError then ReadError B (loop_fuel B it) m it
      else if tag = kBeginDenseJSArray then ReadArray B m it
      else (Read (m\<lparr>msg_data := type_text, msg_type := STRING\<rparr>), it))"

definition DecodeToWebMessagePayload ::
  "'i buffer_iterator \<Rightarrow> bytes \<Rightarrow> message \<Rightarrow> message outcome" where
  "DecodeToWebMessagePayload B encoded m =
     fst (andthen (ReadHeaderTag B (bi_make B encoded)) (\<lambda>tag it. ReadPayload B m tag it))"

end
