(* ===== verification/Message_Readers.thy ===== *)
theory Message_Readers
  imports Message_Decode
begin

text \<open>
  What is relied on of \<open>base::BufferIterator\<close>, and what each reader makes of the bytes that
  the writer of the same value appended.
\<close>

section \<open>The laws of the iterator\<close>

text \<open>\<open>at bs p\<close> is the iterator over the buffer \<open>bs\<close> at position \<open>p\<close>.\<close>

definition buffer_ok :: "'i buffer_iterator \<Rightarrow> (bytes \<Rightarrow> nat \<Rightarrow> 'i) \<Rightarrow> bool" where
  "buffer_ok B at \<longleftrightarrow> (\<forall>bs. bi_make B bs = at bs 0) \<and> (\<forall>bs p. p \<le> length bs \<longrightarrow>
     bi_position B (at bs p) = p \<and> bi_total_size B (at bs p) = length bs \<and>
     bi_object B (at bs p) = (if p < length bs then (Some (bs ! p), at bs (Suc p)) else (None, at bs p)) \<and>
     (\<forall>n. bi_span8 B n (at bs p) =
        (if p + n \<le> length bs then (take n (drop p bs), at bs (p + n)) else ([], at bs p))) \<and>
     (\<forall>n. bi_span16 B n (at bs p) =
        (if p + 2 * n \<le> length bs
         then (map (\<lambda>k. ucast (bs ! (p + 2 * k)) OR push_bit 8 (ucast (bs ! (p + 2 * k + 1)))) [0..<n],
               at bs (p + 2 * n))
         else ([], at bs p))) \<and>
     (\<forall>q \<le> length bs. bi_seek B q (at bs p) = at bs q))"

lemma laws:
  assumes "buffer_ok B at" and "p \<le> length bs"
  shows "bi_make B bs = at bs 0" "bi_position B (at bs p) = p" "bi_total_size B (at bs p) = length bs"
    "bi_object B (at bs p) = (if p < length bs then (Some (bs ! p), at bs (Suc p)) else (None, at bs p))"
    "bi_span8 B n (at bs p) =
       (if p + n \<le> length bs then (take n (drop p bs), at bs (p + n)) else ([], at bs p))"
    "bi_span16 B n (at bs p) =
       (if p + 2 * n \<le> length bs
        then (map (\<lambda>k. ucast (bs ! (p + 2 * k)) OR push_bit 8 (ucast (bs ! (p + 2 * k + 1)))) [0..<n],
              at bs (p + 2 * n))
        else ([], at bs p))"
    "q \<le> length bs \<Longrightarrow> bi_seek B q (at bs p) = at bs q"
    "more_left B (at bs p) \<longleftrightarrow> p < length bs" "loop_fuel B (at bs p) = Suc (length bs)"
  using assms by (auto simp: buffer_ok_def more_left_def loop_fuel_def)

text \<open>\<open>ahead bs p xs r\<close>: from position \<open>p\<close> the buffer holds \<open>xs\<close> and then \<open>r\<close>.\<close>

definition ahead :: "bytes \<Rightarrow> nat \<Rightarrow> bytes \<Rightarrow> bytes \<Rightarrow> bool" where
  "ahead bs p xs r \<longleftrightarrow> p \<le> length bs \<and> drop p bs = xs @ r"

lemma ahead_length: "ahead bs p xs r \<Longrightarrow> p + length xs + length r = length bs"
  by (auto simp: ahead_def dest: arg_cong [of _ _ length])

lemma ahead_next: "ahead bs p (xs @ ys) r \<Longrightarrow> ahead bs (p + length xs) ys r"
proof -
  assume a: "ahead bs p (xs @ ys) r"
  have "drop (p + length xs) bs = drop (length xs) (drop p bs)" by (simp add: add.commute)
  with a ahead_length [OF a] show ?thesis by (simp add: ahead_def)
qed

lemma ahead_Cons: "ahead bs p (x # xs) r \<Longrightarrow> ahead bs (Suc p) xs r \<and> p < length bs \<and> bs ! p = x"
proof -
  assume a: "ahead bs p (x # xs) r"
  then have "ahead bs p ([x] @ xs) r" by simp
  from ahead_next [OF this] ahead_length [OF a] a show ?thesis
    by (simp add: ahead_def nth_via_drop)
qed

lemma ahead_rest: "ahead bs p (xs @ ys) r \<longleftrightarrow> ahead bs p xs (ys @ r)"
  by (simp add: ahead_def)

lemma andthen_simps [simp]:
  "andthen (Read a, it) k = k a it" "andthen (Refused, it) k = (Refused, it)"
  "andthen (Unfinished, it) k = (Unfinished, it)"
  by (simp_all add: andthen_def)

lemma ReadUint8_at:
  assumes "buffer_ok B at" and "p \<le> length bs"
  shows "ReadUint8 B (at bs p) = (if p < length bs then (Read (bs ! p), at bs (Suc p)) else (Refused, at bs p))"
  using laws(4) [OF assms] by (simp add: ReadUint8_def)

lemma ReadUint8_ahead:
  "buffer_ok B at \<Longrightarrow> ahead bs p (x # xs) r \<Longrightarrow> ReadUint8 B (at bs p) = (Read x, at bs (Suc p))"
  using ahead_Cons [of bs p x xs r] by (auto simp: ReadUint8_at)

section \<open>Integers\<close>

lemma low7_word: "ucast ((ucast (v AND 0x7F) OR 0x80) AND 0x7F :: u8) = v AND 0x7F" for v :: u32
  by (rule bit_word_eqI) (auto simp: bit_simps bit_low7 bit_high)

lemma low7_byte: "ucast (ucast (v AND 0x7F) AND 0x7F :: u8) = v AND 0x7F" for v :: u32
  by (rule bit_word_eqI) (auto simp: bit_simps bit_low7 bit_high)

lemma high_set: "(x OR 0x80) AND 0x80 \<noteq> 0" for x :: u8
proof -
  have "bit ((x OR 0x80) AND 0x80) 7" by (simp add: bit_simps bit_high)
  then show ?thesis by auto
qed

lemma high_clear: "ucast (v AND 0x7F) AND 0x80 = (0 :: u8)" for v :: u32
  by (rule bit_word_eqI) (auto simp: bit_simps bit_low7 bit_high)

lemma seven_more: "(a OR push_bit s (v AND 0x7F)) OR push_bit (s + 7) (drop_bit 7 v) = a OR push_bit s v"
  for v :: u32
proof (rule bit_word_eqI)
  fix n
  show "bit ((a OR push_bit s (v AND 0x7F)) OR push_bit (s + 7) (drop_bit 7 v)) n = bit (a OR push_bit s v) n"
    if "n < LENGTH(32)"
    using that by (cases "n < s"; cases "n < s + 7") (auto simp: bit_simps bit_low7)
qed

lemma seven_all: "drop_bit 7 v = 0 \<Longrightarrow> v AND 0x7F = v" for v :: u32
proof (rule bit_word_eqI)
  fix n
  assume "drop_bit 7 v = 0"
  then have "\<not> bit (drop_bit 7 v) (n - 7)" by simp
  then show "bit (v AND 0x7F) n = bit v n" by (cases "n < 7") (auto simp: bit_simps bit_low7)
qed

lemma low:
  fixes v :: u32
  assumes "drop_bit 7 v = 0"
  shows "ucast (ucast v AND 0x7F :: u8) = v" "ucast v AND 0x80 = (0 :: u8)" "v AND 0x7F = v"
  using low7_byte [of v] high_clear [of v] seven_all [OF assms] by simp_all

lemma drop7_bound:
  fixes v :: u32
  assumes "unat v < 2 ^ (32 - s)" and "drop_bit 7 v \<noteq> 0"
  shows "s + 7 < 32 \<and> unat (drop_bit 7 v) < 2 ^ (32 - (s + 7))"
proof -
  have d: "unat (drop_bit 7 v) = unat v div 128" by (simp only: unat_drop_bit_eq) (simp add: drop_bit_eq_div)
  with assms(2) have big: "128 \<le> unat v" by (metis div_less linorder_not_le unat_eq_0)
  with assms(1) have "2 ^ 7 < (2 :: nat) ^ (32 - s)" by simp
  then have s: "s + 7 < 32" by (simp only: power_strict_increasing_iff)
  then have "32 - s = (32 - (s + 7)) + 7" by simp
  then have "(2 :: nat) ^ (32 - s) = 2 ^ (32 - (s + 7)) * 2 ^ 7" by (metis power_add)
  with assms(1) s d show ?thesis by (simp add: less_mult_imp_div_less)
qed

lemma ReadUint32_loop_varint:
  assumes "buffer_ok B at" and "s < 32" and "unat v < 2 ^ (32 - s)"
    and "ahead bs p (varint_bytes v) r" and "length (varint_bytes v) \<le> f"
  shows "ReadUint32_loop B f a s (at bs p) = (Read (a OR push_bit s v), at bs (p + length (varint_bytes v)))"
  using assms(2-)
proof (induction v arbitrary: a s p f rule: varint_bytes.induct)
  case (1 v)
  obtain f' where f: "f = Suc f'"
    using "1.prems"(4) by (cases f) (auto simp: varint_bytes.simps [of v] split: if_splits)
  show ?case
  proof (cases "drop_bit 7 v = 0")
    case True
    then have b: "varint_bytes v = [ucast (v AND 0x7F)]" by (simp add: varint_bytes.simps)
    have "ReadUint8 B (at bs p) = (Read (ucast (v AND 0x7F)), at bs (Suc p))"
      using ReadUint8_ahead [OF assms(1)] "1.prems"(3) unfolding b by blast
    then show ?thesis
      using "1.prems"(1) by (simp add: f b shift_left_def Let_def low [OF True])
  next
    case False
    let ?b = "ucast (v AND 0x7F) OR 0x80 :: u8" and ?v = "drop_bit 7 v"
    have b: "varint_bytes v = ?b # varint_bytes ?v" using False by (simp add: varint_bytes.simps [of v])
    have a': "ahead bs p (?b # varint_bytes ?v) r" using "1.prems"(3) unfolding b .
    have "ReadUint32_loop B f' (a OR push_bit s (v AND 0x7F)) (s + 7) (at bs (Suc p)) =
        (Read ((a OR push_bit s (v AND 0x7F)) OR push_bit (s + 7) ?v), at bs (Suc p + length (varint_bytes ?v)))"
      using "1.IH" [OF False _ _ _ _] drop7_bound [OF "1.prems"(2) False] ahead_Cons [OF a'] "1.prems"(4)
      by (simp add: b f del: push_bit_and)
    then show ?thesis
      using ReadUint8_ahead [OF assms(1) a'] "1.prems"(1)
      by (simp add: f b shift_left_def Let_def low7_word high_set seven_more del: push_bit_and)
  qed
qed

lemma ReadUint32_varint:
  assumes "buffer_ok B at" and "ahead bs p (varint_bytes v) r"
  shows "ReadUint32 B (at bs p) = (Read v, at bs (p + length (varint_bytes v)))"
proof -
  have "p \<le> length bs" "length (varint_bytes v) \<le> length bs"
    using assms(2) ahead_length [OF assms(2)] by (auto simp: ahead_def)
  then show ?thesis
    using ReadUint32_loop_varint [OF assms(1) _ _ assms(2), of 0 "Suc (length bs)" 0] unsigned_less [of v]
      laws(9) [OF assms(1)]
    by (simp add: ReadUint32_def)
qed

lemma ReadVarint_loop_varint:
  assumes "s < 32" and "unat v < 2 ^ (32 - s)"
  shows "ReadVarint_loop a s (varint_bytes v @ r) = a OR push_bit s v"
  using assms
proof (induction v arbitrary: a s rule: varint_bytes.induct)
  case (1 v)
  show ?case
  proof (cases "drop_bit 7 v = 0")
    case True
    with "1.prems" show ?thesis by (simp add: varint_bytes.simps [of v] Let_def low [OF True])
  next
    case False
    with "1.IH" [OF False] "1.prems" drop7_bound [OF "1.prems"(2) False] show ?thesis
      by (simp add: varint_bytes.simps [of v] Let_def low7_word high_set seven_more del: push_bit_and)
  qed
qed

lemma ReadVarint_varint [simp]: "ReadVarint (varint_bytes v @ r) = v"
  using ReadVarint_loop_varint [of 0 v 0 r] unsigned_less [of v] by (simp add: ReadVarint_def)


section \<open>Signed integers\<close>

lemma minus_low: "- (z AND 1) = (if odd z then - 1 else 0)" for z :: u32
  by (auto simp: and_one_eq odd_iff_mod_2_eq_one)

lemma zigzag_bit: "n < 31 \<Longrightarrow> bit (zigzag v) (Suc n) = (bit v n \<noteq> bit v 31)" "odd (zigzag v) = bit v 31"
proof -
  have push: "bit (push_bit 1 v) k = (k \<ge> 1 \<and> k < 32 \<and> bit v (k - 1))" for k
    by (simp only: bit_push_bit_iff) (auto dest: bit_imp_le_length)
  have sgn: "bit (signed_drop_bit 31 v) k = (k < 32 \<and> bit v 31)" for k
    by (cases "k = 0") (auto simp: bit_simps dest: bit_imp_le_length)
  have b: "bit (zigzag v) k = ((k \<ge> 1 \<and> k < 32 \<and> bit v (k - 1)) \<noteq> (k < 32 \<and> bit v 31))" for k
    unfolding zigzag_def bit_xor_iff push sgn by auto
  show "n < 31 \<Longrightarrow> bit (zigzag v) (Suc n) = (bit v n \<noteq> bit v 31)" by (simp add: b)
  show "odd (zigzag v) = bit v 31" using b [of 0] by (simp add: bit_0)
qed

lemma zigzag_inverse: "drop_bit 1 (zigzag v) XOR - (zigzag v AND 1) = v"
proof (rule bit_word_eqI)
  fix n
  assume "n < LENGTH(32)"
  then show "bit (drop_bit 1 (zigzag v) XOR - (zigzag v AND 1)) n = bit v n"
    using bit_imp_le_length [of "zigzag v" 32]
    by (cases "n = 31") (auto simp: minus_low zigzag_bit bit_simps)
qed

lemma signed_shift: "\<not> bit z 31 \<Longrightarrow> signed_drop_bit 1 z = drop_bit 1 z" for z :: u32
  by (rule bit_word_eqI) (auto simp: bit_simps bit_imp_le_length less_Suc_eq_le dest: bit_imp_le_length)

text \<open>A number that is at most 30 bits and a sign is safe from the signed shift.\<close>

lemma narrow_zigzag:
  assumes "- (2 ^ 30) \<le> sint v" and "sint v < 2 ^ 30"
  shows "\<not> bit (zigzag v) 31"
proof -
  have t: "signed_take_bit 30 (sint v) = sint v"
    using assms by (simp add: signed_take_bit_int_eq_self)
  have "bit v 30 = bit (sint v) 30" "bit v 31 = bit (sint v) 31" by (simp_all add: bit_sint_iff)
  moreover have "bit (signed_take_bit 30 (sint v)) 31 = bit (sint v) 30" by (simp add: bit_signed_take_bit_iff)
  ultimately show ?thesis using zigzag_bit(1) [of 30 v] t by simp
qed

lemma int32_back: "- (2 ^ 31) \<le> sint w \<Longrightarrow> sint w < 2 ^ 31 \<Longrightarrow> scast (ucast w :: u32) = w" for w :: u64
proof -
  assume r: "- (2 ^ 31) \<le> sint w" "sint w < 2 ^ 31"
  have "sint (ucast w :: u32) = signed_take_bit 31 (sint w)"
    by (simp add: sint_uint unsigned_ucast_eq signed_take_bit_take_bit)
  also have "\<dots> = sint w" using r by (simp add: signed_take_bit_int_eq_self)
  finally have "sint (ucast w :: u32) = sint w" .
  then show ?thesis by (simp add: scast_eq)
qed

lemma uint32_back: "0 \<le> sint w \<Longrightarrow> sint w < 2 ^ 32 \<Longrightarrow> ucast (ucast w :: u32) = w" for w :: u64
proof -
  assume r: "0 \<le> sint w" "sint w < 2 ^ 32"
  have "uint w = take_bit 64 (sint w)" by (simp add: uint_sint)
  then have u: "uint w = sint w" using r by (simp add: take_bit_int_eq_self)
  have "uint (ucast (ucast w :: u32) :: u64) = take_bit 32 (uint w)"
    by (simp add: unsigned_ucast_eq unsigned_take_bit_eq)
  also have "\<dots> = uint w" using r u by (simp add: take_bit_int_eq_self)
  finally show ?thesis by (simp add: word_uint_eq_iff)
qed

lemma ReadInt32_varint:
  assumes "buffer_ok B at" and "ahead bs p (varint_bytes (zigzag v)) r"
  shows "fst (ReadInt32 B (at bs p)) = Read v"
proof -
  have p: "p \<le> length bs" "drop p bs = varint_bytes (zigzag v) @ r" using assms(2) by (auto simp: ahead_def)
  moreover have "varint_bytes (zigzag v) \<noteq> []" by (subst varint_bytes.simps) simp
  moreover have "bi_span8 B (length bs - p) (at bs p) = (drop p bs, at bs (length bs))"
    using laws(5) [OF assms(1) p(1)] p(1) by simp
  ultimately show ?thesis
    using laws(2,3) [OF assms(1) p(1)] zigzag_inverse [of v] by (simp add: ReadInt32_def Let_def)
qed

text \<open>What makes a number safe in an array: its width, and no byte that looks like a tag.\<close>

definition is_element_end :: "u8 \<Rightarrow> bool" where
  "is_element_end b \<longleftrightarrow> b = kEndDenseJSArray \<or> b = kInt32"

definition array_int_ok :: "u32 \<Rightarrow> bool" where
  "array_int_ok v \<longleftrightarrow> - (2 ^ 30) \<le> sint v \<and> sint v < 2 ^ 30 \<and>
     \<not> list_ex is_element_end (tl (varint_bytes (zigzag v)))"

lemma ReadInt32InArray_loop_ahead:
  assumes "buffer_ok B at" and "is_element_end t"
    and "ahead bs p ys (t # r)" and "\<not> list_ex is_element_end ys" and "length ys < f"
  shows "ReadInt32InArray_loop B f before (at bs p) =
    (let v = ReadVarint (before @ ys) in Read (signed_drop_bit 1 v XOR - (v AND 1)), at bs (p + length ys))"
  using assms(3-)
proof (induction ys arbitrary: before p f)
  case Nil
  then have a: "ahead bs p (t # r) []" using ahead_rest [of bs p "[]" "t # r" "[]"] by simp
  then have n: "p < length bs" "p \<le> length bs" "Suc p \<le> length bs" using ahead_Cons [of bs p t r "[]"] by auto
  obtain f' where "f = Suc f'" using Nil by (cases f) auto
  then show ?case
    using ReadUint8_ahead [OF assms(1) a] assms(2) laws(7,2) [OF assms(1) n(3)] laws(8) [OF assms(1) n(2)] n
    by (simp add: is_element_end_def Let_def)
next
  case (Cons y ys)
  have n: "p < length bs" "p \<le> length bs" using ahead_Cons [OF Cons.prems(1)] by auto
  obtain f' where "f = Suc f'" using Cons by (cases f) auto
  then show ?case
    using ReadUint8_ahead [OF assms(1) Cons.prems(1)] ahead_Cons [OF Cons.prems(1)] Cons.prems
      Cons.IH [of "Suc p" f' "before @ [y]"] n laws(8) [OF assms(1) n(2)]
    by (auto simp: is_element_end_def Let_def)
qed

lemma ReadInt32InArray_varint:
  assumes "buffer_ok B at" and "is_element_end t" and "array_int_ok v"
    and "ahead bs p (varint_bytes (zigzag v)) (t # r)"
  shows "ReadInt32InArray B (at bs p) = (Read v, at bs (p + length (varint_bytes (zigzag v))))"
proof -
  obtain b ys where b: "varint_bytes (zigzag v) = b # ys"
    by (cases "varint_bytes (zigzag v)") (auto simp: varint_bytes.simps [of "zigzag v"] split: if_splits)
  note a = assms(4) [unfolded b]
  have l: "Suc p + length ys + length (t # r) = length bs" using ahead_length [OF a] by simp
  have nb: "\<not> bit (zigzag v) 31" using assms(3) narrow_zigzag by (simp add: array_int_ok_def)
  have "ReadVarint ([b] @ ys) = zigzag v" using ReadVarint_varint [of "zigzag v" "[]"] b by simp
  then have "ReadInt32InArray_loop B (Suc (length bs)) [b] (at bs (Suc p)) = (Read v, at bs (Suc p + length ys))"
    using ReadInt32InArray_loop_ahead [OF assms(1,2), of bs "Suc p" ys r "Suc (length bs)" "[b]"]
      ahead_Cons [OF a] assms(3) b l zigzag_inverse [of v]
    by (simp add: array_int_ok_def signed_shift [OF nb, simplified] Let_def del: ReadInt32InArray_loop.simps)
  moreover have "Suc p \<le> length bs" using l by simp
  ultimately show ?thesis
    using ReadUint8_ahead [OF assms(1) a] laws(8,9) [OF assms(1), of "Suc p" bs] l
    by (simp add: ReadInt32InArray_def b)
qed

section \<open>Doubles\<close>

lemma ReadDouble_loop_ahead:
  assumes "buffer_ok B at" and "ahead bs p xs r"
  shows "ReadDouble_loop B (length xs) acc (at bs p) = (Read (acc @ xs), at bs (p + length xs))"
  using assms(2)
proof (induction xs arbitrary: acc p)
  case (Cons x xs)
  then show ?case using ReadUint8_ahead [OF assms(1) Cons.prems] ahead_Cons [OF Cons.prems] by simp
qed simp

lemma u64_bytes_from:
  assumes "k \<le> 8"
  shows "bytes_u64 (map (\<lambda>i. ucast (drop_bit (8 * i) w)) [k..<8]) = drop_bit (8 * k) w"
  using assms
proof (induction k rule: inc_induct)
  case base
  show ?case by (rule bit_word_eqI) (auto simp: bytes_u64_def bit_simps dest: bit_imp_le_length)
next
  case (step k)
  have "ucast (ucast (drop_bit (8 * k) w) :: u8) OR push_bit 8 (drop_bit (8 * Suc k) w) = drop_bit (8 * k) w"
  proof (rule bit_word_eqI)
    fix n
    show "bit (ucast (ucast (drop_bit (8 * k) w) :: u8) OR push_bit 8 (drop_bit (8 * Suc k) w)) n =
        bit (drop_bit (8 * k) w) n" if "n < LENGTH(64)"
      using that by (cases "n < 8") (auto simp: bit_simps dest: bit_imp_le_length)
  qed
  with step show ?case by (simp add: upt_conv_Cons [of k 8] bytes_u64_def)
qed

lemma u64_bytes_back: "bytes_u64 (u64_bytes w) = w"
  using u64_bytes_from [of 0 w] by (simp add: u64_bytes_def)

lemma ReadDouble_ahead:
  assumes "buffer_ok B at" and "ahead bs p (u64_bytes w) r"
  shows "ReadDouble B (at bs p) = (Read w, at bs (p + 8))"
proof -
  have "length (u64_bytes w) = 8" by (simp add: u64_bytes_def)
  with ReadDouble_loop_ahead [OF assms, of "[]"] show ?thesis by (simp add: ReadDouble_def u64_bytes_back)
qed


section \<open>Strings\<close>

lemma latin1_fold: "fold (\<lambda>c x. x OR c) s a AND m = 0 \<longleftrightarrow> a AND m = 0 \<and> (\<forall>c \<in> set s. c AND m = 0)"
  for m :: u16
proof (induction s arbitrary: a)
  case (Cons c s)
  have "(a OR c) AND m = 0 \<longleftrightarrow> a AND m = 0 \<and> c AND m = 0"
    by (auto simp: bit_eq_iff bit_simps)
  with Cons.IH [of "a OR c"] show ?case by auto
qed simp

lemma bit_upper: "bit (0xFF00 :: int) n \<longleftrightarrow> 8 \<le> n \<and> n < 16"
proof -
  have "(0xFF00 :: int) = push_bit 8 (mask 8)" by (simp add: mask_eq_exp_minus_1)
  then show ?thesis by (simp only: bit_push_bit_iff bit_mask_iff) auto
qed

lemma latin1_back: "ContainsOnlyLatin1 s \<Longrightarrow> map ((ucast :: u8 \<Rightarrow> u16) \<circ> (ucast :: u16 \<Rightarrow> u8)) s = s"
proof (rule map_idI)
  fix c
  assume s: "ContainsOnlyLatin1 s" "c \<in> set s"
  then have "c AND 0xFF00 = 0" by (simp add: ContainsOnlyLatin1_def latin1_fold)
  then have n: "\<not> bit (c AND 0xFF00) n" for n by simp
  show "((ucast :: u8 \<Rightarrow> u16) \<circ> (ucast :: u16 \<Rightarrow> u8)) c = c"
  proof (rule bit_word_eqI)
    fix n
    assume "n < LENGTH(16)"
    then show "bit (((ucast :: u8 \<Rightarrow> u16) \<circ> (ucast :: u16 \<Rightarrow> u8)) c) n = bit c n"
      using n [of n] by (cases "n < 8") (auto simp: bit_simps bit_upper)
  qed
qed

definition one_byte_string :: "u16string \<Rightarrow> bytes" where
  "one_byte_string s = varint_bytes (word_of_nat (length s)) @ map ucast s"

definition two_byte_string :: "u16string \<Rightarrow> bytes" where
  "two_byte_string s = varint_bytes (word_of_nat (length s * 2)) @ u16_bytes s"

lemma small_size: "n < 2 ^ 32 \<Longrightarrow> unat (word_of_nat n :: u32) = n"
  by (simp add: unat_of_nat take_bit_nat_eq_self)

lemma ReadOneByteString_ahead:
  assumes "buffer_ok B at" and "ahead bs p (one_byte_string s) r" and "length s < 2 ^ 32"
    and "ContainsOnlyLatin1 s"
  shows "ReadOneByteString B (at bs p) = (Read s, at bs (p + length (one_byte_string s)))"
proof -
  let ?v = "varint_bytes (word_of_nat (length s))"
  have a: "ahead bs p ?v (map ucast s @ r)" "ahead bs (p + length ?v) (map ucast s) r"
    using assms(2) ahead_next [of bs p ?v "map ucast s" r] by (simp_all add: one_byte_string_def ahead_rest)
  have q: "p + length ?v \<le> length bs" "drop (p + length ?v) bs = map ucast s @ r"
    using a(2) by (auto simp: ahead_def)
  have "bi_span8 B (length s) (at bs (p + length ?v)) = (map ucast s, at bs (p + length ?v + length s))"
    using laws(5) [OF assms(1) q(1)] q ahead_length [OF a(2)] by simp
  then show ?thesis
    using ReadUint32_varint [OF assms(1) a(1)] latin1_back [OF assms(4)] small_size [OF assms(3)]
    by (simp add: ReadOneByteString_def one_byte_string_def add.assoc comp_def)
qed

lemma u16_bytes_nth: "k < length s \<Longrightarrow> u16_bytes s ! (2 * k) = ucast (s ! k) \<and>
    u16_bytes s ! (2 * k + 1) = ucast (drop_bit 8 (s ! k))"
  by (induction s arbitrary: k) (auto simp: u16_bytes_def nth_Cons split: nat.split)

lemma u16_bytes_length: "length (u16_bytes s) = 2 * length s"
  by (induction s) (simp_all add: u16_bytes_def)

lemma u16_back: "ucast (ucast c :: u8) OR push_bit 8 (ucast (ucast (drop_bit 8 c) :: u8)) = c" for c :: u16
proof (rule bit_word_eqI)
  fix n
  show "bit (ucast (ucast c :: u8) OR push_bit 8 (ucast (ucast (drop_bit 8 c) :: u8)) :: u16) n = bit c n"
    if "n < LENGTH(16)" using that by (cases "n < 8") (auto simp: bit_simps)
qed

lemma ReadTwoByteString_ahead:
  assumes "buffer_ok B at" and "ahead bs p (two_byte_string s) r" and "length s * 2 < 2 ^ 32"
  shows "ReadTwoByteString B (at bs p) = (Read s, at bs (p + length (two_byte_string s)))"
proof -
  let ?v = "varint_bytes (word_of_nat (length s * 2))"
  let ?q = "p + length ?v"
  have a: "ahead bs p ?v (u16_bytes s @ r)" "ahead bs ?q (u16_bytes s) r"
    using assms(2) ahead_next [of bs p ?v "u16_bytes s" r] by (simp_all add: two_byte_string_def ahead_rest)
  have q: "?q \<le> length bs" "drop ?q bs = u16_bytes s @ r"
    using a(2) by (auto simp: ahead_def)
  have b: "bs ! (?q + i) = u16_bytes s ! i" if "i < 2 * length s" for i
  proof -
    have "bs ! (?q + i) = drop ?q bs ! i" using q(1) that ahead_length [OF a(2)] u16_bytes_length [of s] by simp
    also have "\<dots> = u16_bytes s ! i" unfolding q(2) using that by (simp add: nth_append u16_bytes_length)
    finally show ?thesis .
  qed
  have "map (\<lambda>k. ucast (bs ! (?q + 2 * k)) OR push_bit 8 (ucast (bs ! (?q + 2 * k + 1)))) [0..<length s] = s"
  proof (rule nth_equalityI)
    fix k
    assume "k < length (map (\<lambda>k. ucast (bs ! (?q + 2 * k)) OR push_bit 8 (ucast (bs ! (?q + 2 * k + 1)))) [0..<length s])"
    then have k: "k < length s" by simp
    have "bs ! (?q + 2 * k) = ucast (s ! k)" "bs ! (?q + 2 * k + 1) = ucast (drop_bit 8 (s ! k))"
      using b [of "2 * k"] b [of "2 * k + 1"] u16_bytes_nth [OF k] k by (simp_all add: add.assoc)
    then show "map (\<lambda>k. ucast (bs ! (?q + 2 * k)) OR push_bit 8 (ucast (bs ! (?q + 2 * k + 1)))) [0..<length s] ! k = s ! k"
      using k u16_back [of "s ! k"] by simp
  qed simp
  then have "bi_span16 B (length s) (at bs ?q) = (s, at bs (?q + 2 * length s))"
    using laws(6) [OF assms(1) q(1), of "length s"] ahead_length [OF a(2)] by (simp add: u16_bytes_length)
  then show ?thesis
    using ReadUint32_varint [OF assms(1) a(1)] small_size [OF assms(3)]
    by (simp add: ReadTwoByteString_def two_byte_string_def u16_bytes_length add.assoc mult.commute)
qed

end
