(* ===== verification/Message_Arrays.thy ===== *)
theory Message_Arrays
  imports Message_Readers
begin

text \<open>
  Every loop of the decoder ends within its fuel, for any bytes; and what the readers of
  headers, arrays and errors make of what their writers appended.
\<close>

section \<open>Every reader ends\<close>

text \<open>The reader did not run out of fuel and left the iterator in the buffer, not before \<open>p\<close>.\<close>

definition ends :: "(bytes \<Rightarrow> nat \<Rightarrow> 'i) \<Rightarrow> bytes \<Rightarrow> nat \<Rightarrow> 'a outcome \<times> 'i \<Rightarrow> bool" where
  "ends at bs p x \<longleftrightarrow> fst x \<noteq> Unfinished \<and> (\<exists>q. snd x = at bs q \<and> p \<le> q \<and> q \<le> length bs)"

lemma ends_bind:
  assumes "ends at bs p x"
    and "\<And>a q. x = (Read a, at bs q) \<Longrightarrow> p \<le> q \<Longrightarrow> q \<le> length bs \<Longrightarrow> ends at bs q (k a (at bs q))"
  shows "ends at bs p (andthen x k)"
proof -
  obtain q where q: "snd x = at bs q" "p \<le> q" "q \<le> length bs" using assms(1) by (auto simp: ends_def)
  obtain o' where x: "x = (o', at bs q)" using q by (cases x) auto
  show ?thesis
  proof (cases o')
    case (Read a)
    with assms(2) [of a q] q show ?thesis by (auto simp: ends_def x)
  qed (use assms(1) q in \<open>auto simp: ends_def x\<close>)
qed

lemma ends_Read [simp]: "p \<le> q \<Longrightarrow> q \<le> length bs \<Longrightarrow> ends at bs p (Read a, at bs q)"
  and ends_Refused [simp]: "p \<le> q \<Longrightarrow> q \<le> length bs \<Longrightarrow> ends at bs p (Refused, at bs q)"
  by (auto simp: ends_def)

lemma ends_mono: "ends at bs q x \<Longrightarrow> p \<le> q \<Longrightarrow> ends at bs p x"
  by (auto simp: ends_def)

lemma ends_bindI:
  "ends at bs p x \<Longrightarrow> (\<And>a q. p \<le> q \<Longrightarrow> q \<le> length bs \<Longrightarrow> ends at bs q (k a (at bs q))) \<Longrightarrow>
    ends at bs p (andthen x k)"
  by (rule ends_bind)

named_theorems reader_ends \<open>the readers that end\<close>

lemma ReadUint8_ends [reader_ends]: "buffer_ok B at \<Longrightarrow> p \<le> length bs \<Longrightarrow> ends at bs p (ReadUint8 B (at bs p))"
  by (simp add: ReadUint8_at)

text \<open>A byte and then the rest: the rest begins one position later.\<close>

lemma ends_byte:
  assumes "buffer_ok B at" and "p \<le> length bs"
    and "\<And>b. p < length bs \<Longrightarrow> ends at bs (Suc p) (k b (at bs (Suc p)))"
  shows "ends at bs p (andthen (ReadUint8 B (at bs p)) k)"
  using assms by (cases "p < length bs") (auto simp: ReadUint8_at intro: ends_mono [where q = "Suc p"])

lemma ReadUint32_loop_ends:
  "buffer_ok B at \<Longrightarrow> p \<le> length bs \<Longrightarrow> length bs - p < f \<Longrightarrow> ends at bs p (ReadUint32_loop B f v s (at bs p))"
proof (induction f arbitrary: v s p)
  case (Suc f)
  show ?case unfolding ReadUint32_loop.simps
    by (rule ends_byte) (use Suc in \<open>auto simp: Let_def\<close>)
qed simp

lemma ReadUint32_ends [reader_ends]:
  "buffer_ok B at \<Longrightarrow> p \<le> length bs \<Longrightarrow> ends at bs p (ReadUint32 B (at bs p))"
  unfolding ReadUint32_def by (rule ReadUint32_loop_ends) (auto simp: laws(9))

lemma ReadInt32_ends [reader_ends]:
  "buffer_ok B at \<Longrightarrow> p \<le> length bs \<Longrightarrow> ends at bs p (ReadInt32 B (at bs p))"
  using laws(2,3,5) [of B at p bs] by (simp add: ReadInt32_def Let_def)

lemma ReadInt32InArray_loop_ends:
  "buffer_ok B at \<Longrightarrow> p \<le> length bs \<Longrightarrow> length bs - p < f \<Longrightarrow>
    ends at bs p (ReadInt32InArray_loop B f before (at bs p))"
proof (induction f arbitrary: before p)
  case (Suc f)
  have l: "more_left B (at bs p) \<longleftrightarrow> p < length bs" using laws(8) Suc.prems by blast
  have s: "bi_seek B (bi_position B (at bs (Suc p)) - 1) (at bs (Suc p)) = at bs p" if "p < length bs"
    using laws(2,7) [of B at "Suc p" bs] Suc.prems that by simp
  have "ends at bs p (ReadInt32InArray_loop B f (before @ [bs ! p]) (at bs (Suc p)))" if "p < length bs"
    by (rule ends_mono [OF Suc.IH]) (use Suc.prems that in auto)
  then show ?case using Suc.prems l s by (simp add: ReadUint8_at Let_def)
qed simp

lemma ReadInt32InArray_ends [reader_ends]:
  "buffer_ok B at \<Longrightarrow> p \<le> length bs \<Longrightarrow> ends at bs p (ReadInt32InArray B (at bs p))"
  unfolding ReadInt32InArray_def
  by (rule ends_byte)
    (auto simp: laws(8,9) intro!: ReadInt32InArray_loop_ends simp del: ReadInt32InArray_loop.simps)

lemma ReadDouble_loop_ends:
  "buffer_ok B at \<Longrightarrow> p \<le> length bs \<Longrightarrow> ends at bs p (ReadDouble_loop B n acc (at bs p))"
proof (induction n arbitrary: acc p)
  case (Suc n)
  show ?case unfolding ReadDouble_loop.simps by (rule ends_byte) (use Suc in auto)
qed simp

lemma ReadDouble_ends [reader_ends]:
  "buffer_ok B at \<Longrightarrow> p \<le> length bs \<Longrightarrow> ends at bs p (ReadDouble B (at bs p))"
  unfolding ReadDouble_def by (rule ends_bindI) (auto intro: ReadDouble_loop_ends)

lemma ReadOneByteString_ends [reader_ends]:
  "buffer_ok B at \<Longrightarrow> p \<le> length bs \<Longrightarrow> ends at bs p (ReadOneByteString B (at bs p))"
  unfolding ReadOneByteString_def by (rule ends_bindI) (auto intro: reader_ends simp: laws(5))

lemma ReadTwoByteString_ends [reader_ends]:
  "buffer_ok B at \<Longrightarrow> p \<le> length bs \<Longrightarrow> ends at bs p (ReadTwoByteString B (at bs p))"
  unfolding ReadTwoByteString_def by (rule ends_bindI) (auto intro: reader_ends simp: laws(6))

lemma ReadU16string_ends [reader_ends]:
  assumes "buffer_ok B at" and "p \<le> length bs"
  shows "ends at bs p (ReadU16string B str (at bs p))"
  unfolding ReadU16string_def
proof (rule ends_byte [OF assms])
  fix b
  assume "p < length bs"
  then have q: "Suc p \<le> length bs" by simp
  have keep: "ends at bs (Suc p) x \<Longrightarrow>
      ends at bs (Suc p) (case x of (Refused, it) \<Rightarrow> (Read str, it) | _ \<Rightarrow> x)" for x
    by (auto simp: ends_def split: prod.split outcome.split)
  show "ends at bs (Suc p)
     (let inner = if b = kOneByteStringTag then Some (ReadOneByteString B (at bs (Suc p)))
                  else if b = kTwoByteStringTag then Some (ReadTwoByteString B (at bs (Suc p))) else None
      in case inner of None \<Rightarrow> (Refused, at bs (Suc p)) | Some (Refused, it) \<Rightarrow> (Read str, it) | Some x \<Rightarrow> x)"
    using keep [OF ReadOneByteString_ends [OF assms(1) q]] keep [OF ReadTwoByteString_ends [OF assms(1) q]] q
    by (auto simp: Let_def split: prod.splits outcome.splits)
qed

lemma ReadErrorString_ends [reader_ends]:
  assumes "buffer_ok B at" and "p \<le> length bs"
  shows "ends at bs p (ReadErrorString B (at bs p))"
  using ReadU16string_ends [OF assms, of "[]"]
  by (auto simp: ReadErrorString_def ends_def split: prod.split outcome.split)

lemma ReadElement_ends [reader_ends]:
  assumes "buffer_ok B at" and "p \<le> length bs"
  shows "ends at bs p (ReadElement B t a (at bs p))"
  using assms unfolding ReadElement_def by (auto intro!: ends_bindI reader_ends)

lemma ReadElements_ends:
  "buffer_ok B at \<Longrightarrow> p \<le> length bs \<Longrightarrow> ends at bs p (ReadElements B h n a (at bs p))"
proof (induction n arbitrary: h a p)
  case (Suc n)
  show ?case unfolding ReadElements.simps Let_def
    by (rule ends_byte)
      (use Suc in \<open>auto intro!: ends_bindI ReadElement_ends split: option.split\<close>)
qed simp

lemma SkipToEnd_ends:
  "buffer_ok B at \<Longrightarrow> p \<le> length bs \<Longrightarrow> length bs - p < f \<Longrightarrow> ends at bs p (SkipToEnd B f (at bs p))"
proof (induction f arbitrary: p)
  case (Suc f)
  show ?case unfolding SkipToEnd.simps
    using Suc by (auto simp: laws(8) intro!: ends_byte)
qed simp

lemma ReadArray_ends:
  assumes "buffer_ok B at" and "p \<le> length bs"
  shows "ends at bs p (ReadArray B m (at bs p))"
  unfolding ReadArray_def
  by (rule ends_bindI)
    (use assms in \<open>auto intro!: ends_bindI reader_ends ReadElements_ends SkipToEnd_ends simp: laws(9)
      simp del: SkipToEnd.simps split: sum.split\<close>)

lemma ReadError_ends:
  "buffer_ok B at \<Longrightarrow> p \<le> length bs \<Longrightarrow> length bs - p < f \<Longrightarrow> ends at bs p (ReadError B f m (at bs p))"
proof (induction f arbitrary: m p)
  case (Suc f)
  have go: "ends at bs q (ReadError B f m' (at bs q))" if "Suc p \<le> q" "q \<le> length bs" for m' q
    using Suc that by auto
  have str: "ends at bs (Suc p) (andthen (ReadErrorString B (at bs (Suc p))) (\<lambda>s it. ReadError B f (g s) it))"
    if "p < length bs" for g
    using that Suc.prems go by (intro ends_bindI) (auto intro: reader_ends)
  show ?case unfolding ReadError.simps
    by (rule ends_byte) (use Suc.prems go str in \<open>auto split: option.split error_tag.split\<close>)
qed simp

lemma ReadEnvelope_ends [reader_ends]:
  assumes "buffer_ok B at" and "p \<le> length bs"
  shows "ends at bs p (ReadEnvelope B t (at bs p))"
proof -
  have "ends at bs q (ReadUint8 B (at bs (q + 13)))" if "q + 13 \<le> length bs" for q
    by (rule ends_mono [OF ReadUint8_ends]) (use assms that in auto)
  then show ?thesis
    using assms unfolding ReadEnvelope_def
    by (auto intro!: ends_bindI reader_ends simp: laws(5))
qed

lemma SkipVersions_ends:
  "buffer_ok B at \<Longrightarrow> p \<le> length bs \<Longrightarrow> length bs - p < f \<Longrightarrow> ends at bs p (SkipVersions B f t (at bs p))"
proof (induction f arbitrary: t p)
  case (Suc f)
  have pad: "ends at bs q (andthen (ReadUint8 B (at bs q)) (\<lambda>t it. SkipVersions B f t it))"
    if "p \<le> q" "q \<le> length bs" for q
    by (rule ends_byte) (use Suc that in auto)
  have "ends at bs p (andthen (ReadUint32 B (at bs p))
      (\<lambda>_ it. andthen (ReadUint8 B it) (\<lambda>t it. SkipVersions B f t it)))"
    by (rule ends_bindI [OF ReadUint32_ends]) (use Suc.prems pad in auto)
  with pad [of p] Suc.prems show ?case by simp
qed simp

lemma ReadHeaderTag_ends [reader_ends]:
  assumes "buffer_ok B at" and "p \<le> length bs"
  shows "ends at bs p (ReadHeaderTag B (at bs p))"
  using assms unfolding ReadHeaderTag_def
  by (auto intro!: ends_bindI reader_ends SkipVersions_ends simp: laws(9) simp del: SkipVersions.simps)

lemma if_ends:
  "(c \<Longrightarrow> ends at bs p x) \<Longrightarrow> (\<not> c \<Longrightarrow> ends at bs p y) \<Longrightarrow> ends at bs p (if c then x else y)"
  by simp

lemma ReadPayload_ends:
  assumes "buffer_ok B at" and "p \<le> length bs"
  shows "ends at bs p (ReadPayload B m t (at bs p))"
  unfolding ReadPayload_def
  by (intro if_ends) (use assms in \<open>auto intro!: ends_bindI reader_ends ReadError_ends ReadArray_ends
    simp: laws(5,9) simp del: ReadError.simps\<close>)

lemma decode_ends:
  assumes "buffer_ok B at"
  shows "DecodeToWebMessagePayload B encoded m \<noteq> Unfinished"
proof -
  have "ends at encoded 0 (andthen (ReadHeaderTag B (at encoded 0)) (\<lambda>t it. ReadPayload B m t it))"
    using assms by (intro ends_bindI) (auto intro: reader_ends ReadPayload_ends)
  then show ?thesis
    using laws(1) [OF assms, of 0 encoded] by (simp add: DecodeToWebMessagePayload_def ends_def)
qed


section \<open>Headers\<close>

lemma small_varint: "varint_bytes 20 = [20]" "varint_bytes 14 = [14]" "varint_bytes 0 = [0]"
  by (simp_all add: varint_bytes.simps)

lemma ReadHeaderTag_ahead:
  assumes ok: "buffer_ok B at" and a: "ahead bs 0 ([0xFF, 20, 0xFF, 14] @ pad @ t # r) []"
    and pad: "pad = [] \<or> pad = [0]" and t: "t \<noteq> kVersionTag" "t \<noteq> kPaddingTag"
  shows "ReadHeaderTag B (at bs 0) = (Read t, at bs (5 + length pad))"
    "ahead bs (5 + length pad) r []"
proof -
  have v: "kVersionTag = 0xFF" "kPaddingTag = 0" by (simp_all add: tag_defs)
  have a0: "ahead bs 0 (0xFF # [20, 0xFF, 14] @ pad @ t # r) []" using a by simp
  have a1: "ahead bs 1 (varint_bytes 20) ([0xFF, 14] @ pad @ t # r)"
    using ahead_Cons [OF a0] ahead_rest [of bs 1 "[20]" "[0xFF, 14] @ pad @ t # r" "[]"] by (simp add: small_varint)
  have a2: "ahead bs 2 (0xFF # [14] @ pad @ t # r) []"
    using a1 ahead_next [of bs 1 "[20]" "[0xFF, 14] @ pad @ t # r" "[]"] ahead_rest [of bs 1 "[20]" "[0xFF, 14] @ pad @ t # r" "[]"]
    by (simp add: small_varint numeral_2_eq_2)
  have a3: "ahead bs 3 (varint_bytes 14) (pad @ t # r)"
    using ahead_Cons [OF a2] ahead_rest [of bs 3 "[14]" "pad @ t # r" "[]"] by (simp add: small_varint numeral_3_eq_3)
  have a4: "ahead bs 4 (pad @ t # r) []"
    using a3 ahead_next [of bs 3 "[14]" "pad @ t # r" "[]"] ahead_rest [of bs 3 "[14]" "pad @ t # r" "[]"]
    by (simp add: small_varint eval_nat_numeral)
  have a5: "ahead bs (4 + length pad) (t # r) []" using ahead_next [OF a4] .
  show "ahead bs (5 + length pad) r []" using ahead_Cons [OF a5] by simp
  have env: "ReadEnvelope B 0xFF (at bs 1) = (Read 0xFF, at bs 3)"
  proof -
    have "ReadUint32 B (at bs 1) = (Read 20, at bs 2)"
      using ReadUint32_varint [OF ok a1] by (simp add: small_varint numeral_2_eq_2)
    moreover have "ReadUint8 B (at bs 2) = (Read 0xFF, at bs 3)"
      using ReadUint8_ahead [OF ok a2] by (simp add: numeral_3_eq_3)
    moreover have "\<not> kMinWireFormatVersionWithTrailer \<le> 20"
      by (simp add: kMinWireFormatVersionWithTrailer_def)
    ultimately show ?thesis by (simp add: ReadEnvelope_def v)
  qed
  have len: "length bs = 5 + length pad + length r" using ahead_length [OF a] by simp
  have fuel: "loop_fuel B (at bs 3) = Suc (Suc (Suc (Suc (Suc (1 + length pad + length r)))))"
    using laws(9) [OF ok, of 3 bs] len by simp
  have v14: "ReadUint32 B (at bs 3) = (Read 14, at bs 4)"
    using ReadUint32_varint [OF ok a3] by (simp add: small_varint)
  have skip: "SkipVersions B (loop_fuel B (at bs 3)) 0xFF (at bs 3) = (Read t, at bs (5 + length pad))"
  proof (cases "pad = []")
    case True
    have "ReadUint8 B (at bs 4) = (Read t, at bs 5)" using ReadUint8_ahead [OF ok, of bs 4 t r] a4 True by simp
    then show ?thesis using v14 t v True unfolding fuel by simp
  next
    case False
    with pad have p: "pad = [0]" by simp
    have "ReadUint8 B (at bs 4) = (Read 0, at bs 5)" using ReadUint8_ahead [OF ok, of bs 4 0 "t # r"] a4 p by simp
    moreover have "ReadUint8 B (at bs 5) = (Read t, at bs 6)" using ReadUint8_ahead [OF ok, of bs 5 t r] a5 p by simp
    ultimately show ?thesis using v14 t p unfolding fuel by (simp add: v)
  qed
  show "ReadHeaderTag B (at bs 0) = (Read t, at bs (5 + length pad))"
    using ReadUint8_ahead [OF ok a0] env skip by (simp add: ReadHeaderTag_def)
qed

lemma decode_payload:
  assumes "buffer_ok B at" and "bs = [0xFF, 20, 0xFF, 14] @ pad @ t # r"
    and "pad = [] \<or> pad = [0]" and "t \<noteq> kVersionTag" "t \<noteq> kPaddingTag"
  shows "DecodeToWebMessagePayload B bs m = fst (ReadPayload B m t (at bs (5 + length pad)))"
    "ahead bs (5 + length pad) r []"
proof -
  have a: "ahead bs 0 ([0xFF, 20, 0xFF, 14] @ pad @ t # r) []" by (simp add: ahead_def assms(2))
  note h = ReadHeaderTag_ahead [OF assms(1) a assms(3-5)]
  show "ahead bs (5 + length pad) r []" by (rule h)
  show "DecodeToWebMessagePayload B bs m = fst (ReadPayload B m t (at bs (5 + length pad)))"
    using h(1) laws(1) [OF assms(1), of 0 bs] by (simp add: DecodeToWebMessagePayload_def)
qed

section \<open>Arrays\<close>

text \<open>An element of an array: a tag and a body that its reader takes when \<open>follow\<close> comes next.\<close>

definition element_ok ::
  "'i buffer_iterator \<Rightarrow> (bytes \<Rightarrow> nat \<Rightarrow> 'i) \<Rightarrow> (bytes \<Rightarrow> bool) \<Rightarrow> u8 \<Rightarrow> bytes \<Rightarrow>
   (elements \<Rightarrow> elements) \<Rightarrow> bool" where
  "element_ok B at follow t body put \<longleftrightarrow>
     (\<forall>bs p r a. ahead bs p body r \<longrightarrow> follow r \<longrightarrow>
        ReadElement B t a (at bs p) = (Read (Some (put a)), at bs (p + length body))) \<and>
     (\<forall>a. element_tag_first (put a) = element_tag_first a)"

definition same_kind :: "u8 \<Rightarrow> u8 \<Rightarrow> bool" where
  "same_kind t u \<longleftrightarrow> t = u \<or> IsBoolElement t \<and> IsBoolElement u"

lemma ReadElements_ahead:
  assumes ok: "buffer_ok B at"
    and el: "\<And>x. x \<in> set xs \<Longrightarrow> element_ok B at follow (tag x) (body x) (put x)"
    and kind: "\<And>x. x \<in> set xs \<Longrightarrow> same_kind t0 (tag x)"
    and fo: "\<And>x s. x \<in> set xs \<Longrightarrow> follow (tag x # s)" "follow r"
    and a: "ahead bs p (concat (map (\<lambda>x. tag x # body x) xs)) r" and first: "element_tag_first a = t0"
  shows "ReadElements B False (length xs) a (at bs p) =
    (Read (Inr (fold put xs a)), at bs (p + length (concat (map (\<lambda>x. tag x # body x) xs))))"
  using el kind fo(1) a first
proof (induction xs arbitrary: a p)
  case (Cons x xs)
  let ?rest = "concat (map (\<lambda>x. tag x # body x) xs)"
  have "ahead bs p (tag x # body x @ ?rest) r" using Cons.prems(4) by simp
  note b = ReadUint8_ahead [OF ok this] ahead_Cons [OF this]
  have body: "ahead bs (Suc p) (body x) (?rest @ r)" using b(2) by (simp add: ahead_rest)
  have "follow (?rest @ r)"
    using Cons.prems(3) fo(2) by (cases xs) auto
  then have "ReadElement B (tag x) a (at bs (Suc p)) = (Read (Some (put x a)), at bs (Suc p + length (body x)))"
    and keep: "element_tag_first (put x a) = element_tag_first a"
    using Cons.prems(1) [of x] body by (auto simp: element_ok_def)
  moreover have "ReadElements B False (length xs) (put x a) (at bs (Suc p + length (body x))) =
      (Read (Inr (fold put xs (put x a))), at bs (Suc p + length (body x) + length ?rest))"
    using Cons.prems ahead_next [of bs "Suc p" "body x" ?rest r] b(2) keep by (intro Cons.IH) auto
  ultimately show ?case
    using b(1) Cons.prems(2) [of x] Cons.prems(5) by (auto simp: same_kind_def add.assoc)
qed simp

lemma ReadElements_first:
  "ReadElements B True (length (x # xs)) a (at bs p) =
     ReadElements B False (length (x # xs)) (a\<lparr>element_tag_first := t\<rparr>) (at bs p)"
  if "buffer_ok B at" "ahead bs p (t # s) r"
  using ReadUint8_ahead [OF that] by (simp add: Let_def)

text \<open>An array that was written element by element is read back.\<close>

definition array_bytes :: "('a \<Rightarrow> u8) \<Rightarrow> ('a \<Rightarrow> bytes) \<Rightarrow> 'a list \<Rightarrow> bytes" where
  "array_bytes tag body xs = varint_bytes (word_of_nat (length xs)) @
     concat (map (\<lambda>x. tag x # body x) xs) @
     kEndDenseJSArray # varint_bytes 0 @ varint_bytes (word_of_nat (length xs))"

lemma ReadArray_ahead:
  assumes ok: "buffer_ok B at"
    and el: "\<And>x. x \<in> set xs \<Longrightarrow> element_ok B at follow (tag x) (body x) (put x)"
    and kind: "\<And>x. x \<in> set xs \<Longrightarrow> same_kind (tag (hd xs)) (tag x)"
    and fo: "\<And>x s. x \<in> set xs \<Longrightarrow> follow (tag x # s)" "\<And>s. follow (kEndDenseJSArray # s)"
    and a: "ahead bs p (array_bytes tag body xs) r" and size: "length xs < 2 ^ 32" "xs \<noteq> []"
  shows "fst (ReadArray B m (at bs p)) =
    Read (StoreArray (fold put xs (no_elements\<lparr>element_tag_first := tag (hd xs)\<rparr>)) m)"
proof -
  let ?n = "varint_bytes (word_of_nat (length xs))"
  let ?es = "concat (map (\<lambda>x. tag x # body x) xs)"
  let ?fin = "kEndDenseJSArray # varint_bytes 0 @ ?n @ r"
  obtain y ys where xs: "xs = y # ys" using size(2) by (cases xs) auto
  have n: "ahead bs p ?n (?es @ ?fin)" using a by (simp add: array_bytes_def ahead_def)
  have es: "ahead bs (p + length ?n) ?es ?fin"
    using a ahead_next [of bs p ?n ?es ?fin] by (simp add: array_bytes_def ahead_def)
  define q where "q = p + length ?n + length ?es"
  have e: "ahead bs q (kEndDenseJSArray # varint_bytes 0) (?n @ r)"
    using ahead_next [of bs "p + length ?n" ?es "kEndDenseJSArray # varint_bytes 0" "?n @ r"] es
    by (simp add: q_def ahead_def)
  have first: "ahead bs (p + length ?n) (tag y # body y @ concat (map (\<lambda>x. tag x # body x) ys)) ?fin"
    using es by (simp add: xs)
  have els: "ReadElements B True (length xs) no_elements (at bs (p + length ?n)) =
      (Read (Inr (fold put xs (no_elements\<lparr>element_tag_first := tag (hd xs)\<rparr>))), at bs q)"
    using ReadElements_first [OF ok first, of y ys no_elements]
      ReadElements_ahead [where xs = xs and tag = tag and body = body and put = put and follow = follow,
        OF ok el kind fo(1) fo(2) es, of "no_elements\<lparr>element_tag_first := tag (hd xs)\<rparr>"]
    by (simp add: xs q_def)
  have "q < length bs" "q \<le> length bs" using ahead_Cons [OF e] by auto
  then have skip: "SkipToEnd B (loop_fuel B (at bs q)) (at bs q) = (Read (), at bs (Suc q))"
    using ReadUint8_ahead [OF ok e] laws(8,9) [OF ok, of q bs] by simp
  show ?thesis
    using ReadUint32_varint [OF ok n] els skip small_size [OF size(1)] by (simp add: ReadArray_def)
qed

end
