(* ===== verification/Message_Properties.thy ===== *)
theory Message_Properties
  imports Message_Arrays
begin

text \<open>
  The properties of the message codec: what arrives of a message that was sent, that decoding
  always ends, and the messages that do not arrive.
\<close>

section \<open>What the receiver is to get\<close>

definition fits_int32 :: "u64 \<Rightarrow> bool" where
  "fits_int32 v \<longleftrightarrow> - 0x80000000 \<le> sint v \<and> sint v \<le> 0x7FFFFFFF"

definition fits_uint32 :: "u64 \<Rightarrow> bool" where
  "fits_uint32 v \<longleftrightarrow> 0x7FFFFFFF < sint v \<and> sint v \<le> 0xFFFFFFFF"

text \<open>The message \<open>m\<close> of the receiver after \<open>original\<close> was sent.\<close>

definition received :: "message \<Rightarrow> message \<Rightarrow> message" where
  "received original m =
     (case msg_type original of
        STRING \<Rightarrow> m\<lparr>msg_data := msg_data original, msg_type := STRING\<rparr>
      | INTEGER \<Rightarrow>
          if fits_int32 (msg_int64_value original) \<or> fits_uint32 (msg_int64_value original)
          then m\<lparr>msg_int64_value := msg_int64_value original, msg_type := INTEGER\<rparr>
          else m\<lparr>msg_double_value := int64_to_double (msg_int64_value original), msg_type := DOUBLE\<rparr>
      | BOOLEAN \<Rightarrow> m\<lparr>msg_bool_value := msg_bool_value original, msg_type := BOOLEAN\<rparr>
      | DOUBLE \<Rightarrow> m\<lparr>msg_double_value := msg_double_value original, msg_type := DOUBLE\<rparr>
      | ERROR \<Rightarrow> m\<lparr>msg_err_name := GetProtoTypeName (ConvertToErrType (msg_err_name original)),
                   msg_err_msg := msg_err_msg original, msg_type := ERROR\<rparr>
      | STRINGARRAY \<Rightarrow> m\<lparr>msg_string_arr := msg_string_arr original, msg_type := STRINGARRAY\<rparr>
      | BOOLEANARRAY \<Rightarrow> m\<lparr>msg_bool_arr := msg_bool_arr original, msg_type := BOOLEANARRAY\<rparr>
      | DOUBLEARRAY \<Rightarrow> m\<lparr>msg_double_arr := msg_double_arr original, msg_type := DOUBLEARRAY\<rparr>
      | INT64ARRAY \<Rightarrow> m\<lparr>msg_int64_arr := msg_int64_arr original, msg_type := INT64ARRAY\<rparr>
      | _ \<Rightarrow> m)"

definition short_latin1 :: "u16string \<Rightarrow> bool" where
  "short_latin1 s \<longleftrightarrow> ContainsOnlyLatin1 s \<and> length s < 2 ^ 32"

definition scalar_message :: "message \<Rightarrow> bool" where
  "scalar_message m =
     (case msg_type m of
        STRING \<Rightarrow> length (msg_data m) * 2 < 2 ^ 32
      | INTEGER \<Rightarrow> True | BOOLEAN \<Rightarrow> True | DOUBLE \<Rightarrow> True
      | ERROR \<Rightarrow> short_latin1 (msg_err_msg m) \<and> short_latin1 (msg_err_name m @ u16s '': '' @ msg_err_msg m)
      | _ \<Rightarrow> False)"

definition short_array :: "'a list \<Rightarrow> bool" where
  "short_array xs \<longleftrightarrow> xs \<noteq> [] \<and> length xs < 2 ^ 32"

definition array_message :: "message \<Rightarrow> bool" where
  "array_message m =
     (case msg_type m of
        STRINGARRAY \<Rightarrow> short_array (msg_string_arr m) \<and> list_all short_latin1 (msg_string_arr m)
      | BOOLEANARRAY \<Rightarrow> short_array (msg_bool_arr m)
      | DOUBLEARRAY \<Rightarrow> short_array (msg_double_arr m)
      | INT64ARRAY \<Rightarrow> short_array (msg_int64_arr m) \<and>
          (list_all fits_uint32 (msg_int64_arr m) \<or>
           list_all (\<lambda>v. fits_int32 v \<and> array_int_ok (ucast v)) (msg_int64_arr m))
      | _ \<Rightarrow> False)"

section \<open>Scalars\<close>

lemma string_bytes: "ContainsOnlyLatin1 s \<Longrightarrow>
    WriteU16string s buffer = buffer @ kOneByteStringTag # one_byte_string s"
  by (simp add: WriteU16string_def WriteBytes_def WriteUint8_def one_byte_string_def)

lemma wide_string_bytes: "\<not> ContainsOnlyLatin1 s \<Longrightarrow> WriteU16string s buffer =
    buffer @ (if odd (length buffer + 1 + BytesNeededForUint32 (word_of_nat (length s * 2))) then [0] else []) @
      kTwoByteStringTag # two_byte_string s"
  by (simp add: WriteU16string_def WriteBytes_def WriteUint8_def two_byte_string_def kPaddingTag_def Let_def)

lemma int64_bytes:
  "fits_int32 v \<Longrightarrow> WriteInt64 v buffer = buffer @ kInt32 # varint_bytes (zigzag (ucast v))"
  "fits_uint32 v \<Longrightarrow> WriteInt64 v buffer = buffer @ kUint32 # varint_bytes (ucast v)"
  "\<not> fits_int32 v \<Longrightarrow> \<not> fits_uint32 v \<Longrightarrow> WriteInt64 v buffer = WriteDouble (int64_to_double v) buffer"
  by (auto simp: WriteInt64_def fits_int32_def fits_uint32_def WriteUint8_def)

lemma double_bytes: "WriteDouble v buffer = buffer @ kDouble # u64_bytes v"
  by (simp add: WriteDouble_def WriteBytes_def WriteUint8_def)

lemma bool_bytes: "WriteBool v buffer = buffer @ [if v then kTrue else kFalse]"
  by (simp add: WriteBool_def WriteUint8_def)

lemmas payloads = ReadPayload_def tag_defs

lemma decode_string:
  assumes "buffer_ok B at" and "length s * 2 < 2 ^ 32"
  shows "DecodeToWebMessagePayload B (WriteU16string s (WriteHeader [])) m =
    Read (m\<lparr>msg_data := s, msg_type := STRING\<rparr>)"
proof (cases "ContainsOnlyLatin1 s")
  case True
  let ?bs = "[0xFF, 20, 0xFF, 14] @ [] @ kOneByteStringTag # one_byte_string s"
  have "WriteU16string s (WriteHeader []) = ?bs" using string_bytes [OF True] by (simp add: header_bytes)
  moreover have "DecodeToWebMessagePayload B ?bs m = fst (ReadPayload B m kOneByteStringTag (at ?bs 5))"
    "ahead ?bs 5 (one_byte_string s) []"
    using decode_payload [OF assms(1) refl, of "[]" kOneByteStringTag "one_byte_string s"] by (simp_all add: tag_defs)
  ultimately show ?thesis
    using ReadOneByteString_ahead [OF assms(1) _ _ True, of ?bs 5 "[]"] assms(2) by (simp add: ReadPayload_def)
next
  case False
  define pad :: bytes where
    "pad = (if odd (5 + BytesNeededForUint32 (word_of_nat (length s * 2))) then [0] else [])"
  let ?bs = "[0xFF, 20, 0xFF, 14] @ pad @ kTwoByteStringTag # two_byte_string s"
  have pad: "pad = [] \<or> pad = [0]" by (simp add: pad_def)
  have bs: "WriteU16string s (WriteHeader []) = ?bs"
    using wide_string_bytes [OF False, of "WriteHeader []"] by (simp add: header_bytes pad_def)
  have t: "kTwoByteStringTag \<noteq> kVersionTag" "kTwoByteStringTag \<noteq> kPaddingTag" by (simp_all add: tag_defs)
  have a: "ahead ?bs (5 + length pad) (two_byte_string s) []"
    by (rule decode_payload(2) [OF assms(1) refl pad t])
  have "DecodeToWebMessagePayload B ?bs m = fst (ReadPayload B m kTwoByteStringTag (at ?bs (5 + length pad)))"
    by (rule decode_payload(1) [OF assms(1) refl pad t])
  then show ?thesis
    unfolding bs using ReadTwoByteString_ahead [OF assms(1) a assms(2)] by (simp add: payloads)
qed

lemma decode_double:
  assumes "buffer_ok B at"
  shows "DecodeToWebMessagePayload B (WriteDouble v (WriteHeader [])) m =
    Read (m\<lparr>msg_double_value := v, msg_type := DOUBLE\<rparr>)"
proof -
  let ?bs = "[0xFF, 20, 0xFF, 14] @ [] @ kDouble # u64_bytes v"
  have "DecodeToWebMessagePayload B ?bs m = fst (ReadPayload B m kDouble (at ?bs 5))"
    "ahead ?bs 5 (u64_bytes v) []"
    using decode_payload [OF assms refl, of "[]" kDouble "u64_bytes v"] by (simp_all add: tag_defs)
  then show ?thesis
    using ReadDouble_ahead [OF assms, of ?bs 5 v "[]"] by (simp add: double_bytes header_bytes payloads)
qed

lemma decode_integer:
  assumes "buffer_ok B at"
  shows "DecodeToWebMessagePayload B (WriteInt64 v (WriteHeader [])) m =
    Read (if fits_int32 v \<or> fits_uint32 v then m\<lparr>msg_int64_value := v, msg_type := INTEGER\<rparr>
          else m\<lparr>msg_double_value := int64_to_double v, msg_type := DOUBLE\<rparr>)"
proof -
  let ?bs = "[0xFF, 20, 0xFF, 14] @ [] @ kInt32 # varint_bytes (zigzag (ucast v))"
  let ?us = "[0xFF, 20, 0xFF, 14] @ [] @ kUint32 # varint_bytes (ucast v)"
  have i: "DecodeToWebMessagePayload B ?bs m = fst (ReadPayload B m kInt32 (at ?bs 5))"
    "ahead ?bs 5 (varint_bytes (zigzag (ucast v))) []"
    using decode_payload [OF assms refl, of "[]" kInt32 "varint_bytes (zigzag (ucast v))"]
    by (simp_all add: tag_defs)
  have u: "DecodeToWebMessagePayload B ?us m = fst (ReadPayload B m kUint32 (at ?us 5))"
    "ahead ?us 5 (varint_bytes (ucast v)) []"
    using decode_payload [OF assms refl, of "[]" kUint32 "varint_bytes (ucast v)"] by (simp_all add: tag_defs)
  consider "fits_int32 v" | "\<not> fits_int32 v" "fits_uint32 v" | "\<not> fits_int32 v" "\<not> fits_uint32 v" by blast
  then show ?thesis
  proof cases
    case 1
    obtain it where "ReadInt32 B (at ?bs 5) = (Read (ucast v), it)"
      using ReadInt32_varint [OF assms i(2)] by (cases "ReadInt32 B (at ?bs 5)") auto
    moreover have "scast (ucast v :: u32) = v" using 1 by (intro int32_back) (auto simp: fits_int32_def)
    ultimately show ?thesis using 1 i(1) by (simp add: int64_bytes(1) header_bytes payloads)
  next
    case 2
    have "ucast (ucast v :: u32) = v" using 2 by (intro uint32_back) (auto simp: fits_uint32_def)
    then show ?thesis
      using 2 u(1) ReadUint32_varint [OF assms u(2)] by (simp add: int64_bytes(2) header_bytes payloads)
  qed (simp add: int64_bytes(3) decode_double [OF assms])
qed

lemma decode_bool:
  assumes "buffer_ok B at"
  shows "DecodeToWebMessagePayload B (WriteBool v (WriteHeader [])) m =
    Read (m\<lparr>msg_bool_value := v, msg_type := BOOLEAN\<rparr>)"
  using decode_payload(1) [OF assms refl, of "[]" "if v then kTrue else kFalse" "[]"]
  by (simp add: bool_bytes header_bytes payloads)


section \<open>Errors\<close>

lemma error_string_ahead:
  assumes "buffer_ok B at" and "short_latin1 s" and "ahead bs p (kOneByteStringTag # one_byte_string s) r"
  shows "ReadErrorString B (at bs p) = (Read s, at bs (Suc p + length (one_byte_string s)))"
    "ahead bs (Suc p + length (one_byte_string s)) [] r"
proof -
  note n = ahead_Cons [OF assms(3)]
  then show "ahead bs (Suc p + length (one_byte_string s)) [] r"
    using ahead_next [of bs "Suc p" "one_byte_string s" "[]" r] by simp
  show "ReadErrorString B (at bs p) = (Read s, at bs (Suc p + length (one_byte_string s)))"
    using ReadUint8_ahead [OF assms(1,3)] ReadOneByteString_ahead [OF assms(1), of bs "Suc p" s r] assms(2) n
    by (simp add: ReadErrorString_def ReadU16string_def short_latin1_def)
qed

lemma error_tags [simp]: "error_tag_of (error_tag_code t) = Some t"
  by (cases t) (simp_all add: error_tag_of_def)

definition prototypes :: "error_tag list" where
  "prototypes = [kEvalErrorPrototype, kRangeErrorPrototype, kReferenceErrorPrototype,
     kSyntaxErrorPrototype, kTypeErrorPrototype, kUriErrorPrototype]"

lemma prototype: "ConvertToErrType name \<in> set prototypes"
proof (cases "map_of error_types name")
  case (Some t)
  then have "t \<in> snd ` set error_types" using map_of_SomeD by force
  with Some show ?thesis by (simp add: ConvertToErrType_def error_types_def prototypes_def)
qed (simp add: ConvertToErrType_def prototypes_def)

lemma error_step:
  assumes "buffer_ok B at" and "ahead bs p (error_tag_code t # xs) r"
  shows "ReadError B (Suc f) m (at bs p) =
     (case t of kStack \<Rightarrow> andthen (ReadErrorString B (at bs (Suc p))) (\<lambda>_ it. ReadError B f m it)
       | kMessage \<Rightarrow> andthen (ReadErrorString B (at bs (Suc p)))
           (\<lambda>msg_err it. ReadError B f (m\<lparr>msg_err_msg := msg_err, msg_type := ERROR\<rparr>) it)
       | kCause \<Rightarrow> (Read m, at bs (Suc p)) | kEnd \<Rightarrow> (Read m, at bs (Suc p))
       | _ \<Rightarrow> ReadError B f (m\<lparr>msg_err_name := GetProtoTypeName t, msg_type := ERROR\<rparr>) (at bs (Suc p)))"
  using ReadUint8_ahead [OF assms] by (simp split: error_tag.split)

lemma ReadError_ahead:
  assumes "buffer_ok B at" and "short_latin1 msg" and "short_latin1 stack" and "t \<in> set prototypes"
    and "ahead bs p (error_tag_code t # error_tag_code kMessage # kOneByteStringTag # one_byte_string msg @
      error_tag_code kStack # kOneByteStringTag # one_byte_string stack @ [error_tag_code kEnd]) []"
  shows "fst (ReadError B (Suc (Suc (Suc (Suc f)))) m (at bs p)) =
    Read (m\<lparr>msg_err_name := GetProtoTypeName t, msg_err_msg := msg, msg_type := ERROR\<rparr>)"
proof -
  let ?r3 = "error_tag_code kStack # kOneByteStringTag # one_byte_string stack @ [error_tag_code kEnd]"
  define k where "k = Suc (Suc (Suc p)) + length (one_byte_string msg)"
  define q where "q = Suc (Suc k) + length (one_byte_string stack)"
  note a1 = ahead_Cons [OF assms(5), THEN conjunct1]
  have "ahead bs (Suc (Suc p)) (kOneByteStringTag # one_byte_string msg) ?r3"
    using ahead_Cons [OF a1] by (simp add: ahead_def)
  note msg = error_string_ahead [OF assms(1,2) this, folded k_def]
  have a2: "ahead bs k ?r3 []" using msg(2) by (simp add: ahead_def)
  have "ahead bs (Suc k) (kOneByteStringTag # one_byte_string stack) [error_tag_code kEnd]"
    using ahead_Cons [OF a2] by (simp add: ahead_def)
  note stack = error_string_ahead [OF assms(1,3) this, folded q_def]
  have a3: "ahead bs q [error_tag_code kEnd] []" using stack(2) by (simp add: ahead_def)
  have "ReadError B (Suc (Suc (Suc (Suc f)))) m (at bs p) =
      ReadError B (Suc (Suc (Suc f))) (m\<lparr>msg_err_name := GetProtoTypeName t, msg_type := ERROR\<rparr>) (at bs (Suc p))"
    using assms(4) unfolding error_step [OF assms(1,5)] by (auto simp: prototypes_def simp del: ReadError.simps)
  also have "\<dots> = ReadError B (Suc (Suc f))
      (m\<lparr>msg_err_name := GetProtoTypeName t, msg_type := ERROR, msg_err_msg := msg, msg_type := ERROR\<rparr>) (at bs k)"
    unfolding error_step [OF assms(1) a1] using msg(1) by (simp del: ReadError.simps)
  also have "\<dots> = (Read (m\<lparr>msg_err_name := GetProtoTypeName t, msg_type := ERROR, msg_err_msg := msg,
      msg_type := ERROR\<rparr>), at bs (Suc q))"
    unfolding error_step [OF assms(1) a2] using stack(1) error_step [OF assms(1) a3] by (simp del: ReadError.simps)
  finally show ?thesis by simp
qed

lemma decode_error:
  assumes "buffer_ok B at" and "short_latin1 msg" and "short_latin1 (name @ u16s '': '' @ msg)"
  shows "DecodeToWebMessagePayload B (WriteError name msg (WriteHeader [])) m =
    Read (m\<lparr>msg_err_name := GetProtoTypeName (ConvertToErrType name), msg_err_msg := msg, msg_type := ERROR\<rparr>)"
proof -
  let ?t = "ConvertToErrType name" and ?stack = "name @ u16s '': '' @ msg"
  let ?r4 = "[error_tag_code kEnd]"
  let ?r3 = "error_tag_code kStack # kOneByteStringTag # one_byte_string ?stack @ ?r4"
  let ?r2 = "error_tag_code kMessage # kOneByteStringTag # one_byte_string msg @ ?r3"
  let ?bs = "[0xFF, 20, 0xFF, 14] @ [] @ kError # error_tag_code ?t # ?r2"
  have bs: "WriteError name msg (WriteHeader []) = ?bs"
    using assms(2,3) by (simp add: WriteError_def WriteUint8_def header_bytes string_bytes short_latin1_def)
  have d: "DecodeToWebMessagePayload B ?bs m = fst (ReadPayload B m kError (at ?bs 5))"
    "ahead ?bs 5 (error_tag_code ?t # ?r2) []"
    using decode_payload [OF assms(1) refl, of "[]" kError "error_tag_code ?t # ?r2"] by (simp_all add: tag_defs)
  obtain f where fuel: "loop_fuel B (at ?bs 5) = Suc (Suc (Suc (Suc f)))"
    using laws(9) [OF assms(1), of 5 ?bs] by simp
  show ?thesis
    unfolding bs d(1) using ReadError_ahead [OF assms prototype [of name] d(2), of f m]
    by (simp only: fuel [symmetric]) (simp add: payloads del: ReadError.simps)
qed


section \<open>Arrays\<close>

lemma WriteArray_bytes:
  assumes "\<And>x buf. x \<in> set xs \<Longrightarrow> write x buf = buf @ tag x # body x" and "length xs < 2 ^ 32"
  shows "WriteArray write xs buffer = buffer @ kBeginDenseJSArray # array_bytes tag body xs"
proof -
  have "fold write xs buf = buf @ concat (map (\<lambda>x. tag x # body x) xs)" for buf
    using assms(1) by (induction xs arbitrary: buf) auto
  then show ?thesis
    using small_size [OF assms(2)] by (simp add: WriteArray_def WriteUint8_def array_bytes_def Let_def)
qed

lemma decode_array:
  assumes "buffer_ok B at" and "\<And>x buf. x \<in> set xs \<Longrightarrow> write x buf = buf @ tag x # body x"
    and "\<And>x. x \<in> set xs \<Longrightarrow> element_ok B at follow (tag x) (body x) (put x)"
    and "\<And>x. x \<in> set xs \<Longrightarrow> same_kind (tag (hd xs)) (tag x)"
    and "\<And>x s. x \<in> set xs \<Longrightarrow> follow (tag x # s)" and "\<And>s. follow (kEndDenseJSArray # s)"
    and "short_array xs"
  shows "DecodeToWebMessagePayload B (WriteArray write xs (WriteHeader [])) m =
    Read (StoreArray (fold put xs (no_elements\<lparr>element_tag_first := tag (hd xs)\<rparr>)) m)"
proof -
  let ?bs = "[0xFF, 20, 0xFF, 14] @ [] @ kBeginDenseJSArray # array_bytes tag body xs"
  have size: "length xs < 2 ^ 32" "xs \<noteq> []" using assms(7) by (simp_all add: short_array_def)
  have bs: "WriteArray write xs (WriteHeader []) = ?bs"
    using WriteArray_bytes [OF assms(2) size(1)] by (simp add: header_bytes)
  have d: "DecodeToWebMessagePayload B ?bs m = fst (ReadPayload B m kBeginDenseJSArray (at ?bs 5))"
    "ahead ?bs 5 (array_bytes tag body xs) []"
    using decode_payload [OF assms(1) refl, of "[]" kBeginDenseJSArray "array_bytes tag body xs"]
    by (simp_all add: tag_defs)
  show ?thesis
    unfolding bs d(1) using ReadArray_ahead [OF assms(1,3-6) d(2) size] by (simp add: payloads)
qed

definition add_string :: "u16string \<Rightarrow> elements \<Rightarrow> elements" where
  "add_string x a = a\<lparr>string_array := string_array a @ [x]\<rparr>"

lemma fold_strings: "string_array (fold add_string xs a) = string_array a @ xs \<and>
    element_tag_first (fold add_string xs a) = element_tag_first a"
  by (induction xs arbitrary: a) (simp_all add: add_string_def)

definition add_bool :: "bool \<Rightarrow> elements \<Rightarrow> elements" where
  "add_bool x a = a\<lparr>boolean_array := boolean_array a @ [x]\<rparr>"

lemma fold_bools: "boolean_array (fold add_bool xs a) = boolean_array a @ xs \<and>
    element_tag_first (fold add_bool xs a) = element_tag_first a"
  by (induction xs arbitrary: a) (simp_all add: add_bool_def)

definition add_double :: "u64 \<Rightarrow> elements \<Rightarrow> elements" where
  "add_double x a = a\<lparr>double_array := double_array a @ [x]\<rparr>"

lemma fold_doubles: "double_array (fold add_double xs a) = double_array a @ xs \<and>
    element_tag_first (fold add_double xs a) = element_tag_first a"
  by (induction xs arbitrary: a) (simp_all add: add_double_def)

definition add_int :: "u64 \<Rightarrow> elements \<Rightarrow> elements" where
  "add_int x a = a\<lparr>int64_array := int64_array a @ [x]\<rparr>"

lemma fold_ints: "int64_array (fold add_int xs a) = int64_array a @ xs \<and>
    element_tag_first (fold add_int xs a) = element_tag_first a"
  by (induction xs arbitrary: a) (simp_all add: add_int_def)

lemma store_strings: "StoreArray (fold add_string xs (no_elements\<lparr>element_tag_first := kOneByteStringTag\<rparr>)) m =
    m\<lparr>msg_string_arr := xs, msg_type := STRINGARRAY\<rparr>"
  by (simp add: StoreArray_def fold_strings) (simp add: no_elements_def IsStringElement_def)

lemma store_bools: "IsBoolElement t \<Longrightarrow>
    StoreArray (fold add_bool xs (no_elements\<lparr>element_tag_first := t\<rparr>)) m =
    m\<lparr>msg_bool_arr := xs, msg_type := BOOLEANARRAY\<rparr>"
  by (simp add: StoreArray_def fold_bools) (auto simp: no_elements_def IsStringElement_def IsBoolElement_def tag_defs)

lemma store_doubles: "StoreArray (fold add_double xs (no_elements\<lparr>element_tag_first := kDouble\<rparr>)) m =
    m\<lparr>msg_double_arr := xs, msg_type := DOUBLEARRAY\<rparr>"
  by (simp add: StoreArray_def fold_doubles) (simp add: no_elements_def IsStringElement_def IsBoolElement_def tag_defs)

lemma store_ints: "t = kInt32 \<or> t = kUint32 \<Longrightarrow>
    StoreArray (fold add_int xs (no_elements\<lparr>element_tag_first := t\<rparr>)) m =
    m\<lparr>msg_int64_arr := xs, msg_type := INT64ARRAY\<rparr>"
  by (simp add: StoreArray_def fold_ints) (auto simp: no_elements_def IsStringElement_def IsBoolElement_def tag_defs)

lemma decode_strings:
  assumes "buffer_ok B at" and "short_array xs" and "list_all short_latin1 xs"
  shows "DecodeToWebMessagePayload B (WriteStringArray xs (WriteHeader [])) m =
    Read (m\<lparr>msg_string_arr := xs, msg_type := STRINGARRAY\<rparr>)"
proof -
  have el: "element_ok B at (\<lambda>_. True) kOneByteStringTag (one_byte_string x) (add_string x)"
    if "x \<in> set xs" for x
    using ReadOneByteString_ahead [OF assms(1)] assms(3) that
    by (auto simp: element_ok_def ReadElement_def add_string_def list_all_iff short_latin1_def)
  have "WriteU16string x buf = buf @ kOneByteStringTag # one_byte_string x" if "x \<in> set xs" for x buf
    using string_bytes assms(3) that by (auto simp: list_all_iff short_latin1_def)
  then show ?thesis
    unfolding WriteStringArray_def
    by (subst decode_array [where put = add_string, OF assms(1) _ el _ _ _ assms(2)])
      (simp_all add: same_kind_def store_strings)
qed

lemma decode_bools:
  assumes "buffer_ok B at" and "short_array xs"
  shows "DecodeToWebMessagePayload B (WriteBoolArray xs (WriteHeader [])) m =
    Read (m\<lparr>msg_bool_arr := xs, msg_type := BOOLEANARRAY\<rparr>)"
proof -
  have el: "element_ok B at (\<lambda>_. True) (if x then kTrue else kFalse) [] (add_bool x)" for x
    by (simp add: element_ok_def ReadElement_def add_bool_def tag_defs)
  show ?thesis
    unfolding WriteBoolArray_def
    by (subst decode_array [where put = add_bool, OF assms(1) _ el _ _ _ assms(2)])
      (simp_all add: bool_bytes same_kind_def IsBoolElement_def store_bools)
qed

lemma decode_doubles:
  assumes "buffer_ok B at" and "short_array xs"
  shows "DecodeToWebMessagePayload B (WriteDoubleArray xs (WriteHeader [])) m =
    Read (m\<lparr>msg_double_arr := xs, msg_type := DOUBLEARRAY\<rparr>)"
proof -
  have "length (u64_bytes x) = 8" for x by (simp add: u64_bytes_def)
  then have el: "element_ok B at (\<lambda>_. True) kDouble (u64_bytes x) (add_double x)" for x
    using ReadDouble_ahead [OF assms(1)] by (simp add: element_ok_def ReadElement_def add_double_def tag_defs)
  show ?thesis
    unfolding WriteDoubleArray_def
    by (subst decode_array [where put = add_double, OF assms(1) _ el _ _ _ assms(2)])
      (simp_all add: double_bytes same_kind_def store_doubles)
qed

lemma decode_uints:
  assumes "buffer_ok B at" and "short_array xs" and "list_all fits_uint32 xs"
  shows "DecodeToWebMessagePayload B (WriteInt64Array xs (WriteHeader [])) m =
    Read (m\<lparr>msg_int64_arr := xs, msg_type := INT64ARRAY\<rparr>)"
proof -
  have same: "ucast (ucast x :: u32) = x" if "x \<in> set xs" for x :: u64
    using assms(3) that by (intro uint32_back) (auto simp: list_all_iff fits_uint32_def)
  have el: "element_ok B at (\<lambda>_. True) kUint32 (varint_bytes (ucast x)) (add_int x)"
    if "x \<in> set xs" for x
    using ReadUint32_varint [OF assms(1)] same [OF that] by (simp add: element_ok_def ReadElement_def add_int_def tag_defs)
  have "WriteInt64 x buf = buf @ kUint32 # varint_bytes (ucast x)" if "x \<in> set xs" for x buf
    using int64_bytes(2) assms(3) that by (auto simp: list_all_iff)
  then show ?thesis
    unfolding WriteInt64Array_def
    by (subst decode_array [where put = add_int, OF assms(1) _ el _ _ _ assms(2)])
      (simp_all add: same_kind_def store_ints)
qed

lemma decode_ints:
  assumes "buffer_ok B at" and "short_array xs"
    and "list_all (\<lambda>v. fits_int32 v \<and> array_int_ok (ucast v)) xs"
  shows "DecodeToWebMessagePayload B (WriteInt64Array xs (WriteHeader [])) m =
    Read (m\<lparr>msg_int64_arr := xs, msg_type := INT64ARRAY\<rparr>)"
proof -
  let ?follow = "\<lambda>r. \<exists>t s. r = t # s \<and> is_element_end t"
  have same: "scast (ucast x :: u32) = x" if "x \<in> set xs" for x :: u64
    using assms(3) that by (intro int32_back) (auto simp: list_all_iff fits_int32_def)
  have el: "element_ok B at ?follow kInt32 (varint_bytes (zigzag (ucast x))) (add_int x)"
    if "x \<in> set xs" for x
    unfolding element_ok_def
  proof (intro conjI allI impI)
    fix bs p r a
    assume a: "ahead bs p (varint_bytes (zigzag (ucast x))) r" and "?follow r"
    then obtain t s where r: "r = t # s" "is_element_end t" by blast
    have "array_int_ok (ucast x)" using assms(3) that by (auto simp: list_all_iff)
    with ReadInt32InArray_varint [OF assms(1) r(2) _ a [unfolded r(1)]] same [OF that]
    show "ReadElement B kInt32 a (at bs p) = (Read (Some (add_int x a)),
        at bs (p + length (varint_bytes (zigzag (ucast x)))))"
      by (simp add: ReadElement_def add_int_def tag_defs)
  qed (simp add: add_int_def)
  have "WriteInt64 x buf = buf @ kInt32 # varint_bytes (zigzag (ucast x))" if "x \<in> set xs" for x buf
    using int64_bytes(1) assms(3) that by (auto simp: list_all_iff)
  then show ?thesis
    unfolding WriteInt64Array_def
    by (subst decode_array [where put = add_int, OF assms(1) _ el _ _ _ assms(2)])
      (simp_all add: same_kind_def store_ints is_element_end_def)
qed

section \<open>An iterator\<close>

definition list_buffer :: "(bytes \<times> nat) buffer_iterator" where
  "list_buffer = \<lparr>bi_make = (\<lambda>bs. (bs, 0)),
     bi_object = (\<lambda>(bs, p). if p < length bs then (Some (bs ! p), (bs, Suc p)) else (None, (bs, p))),
     bi_span8 = (\<lambda>n (bs, p). if p + n \<le> length bs then (take n (drop p bs), (bs, p + n)) else ([], (bs, p))),
     bi_span16 = (\<lambda>n (bs, p). if p + 2 * n \<le> length bs
       then (map (\<lambda>k. ucast (bs ! (p + 2 * k)) OR push_bit 8 (ucast (bs ! (p + 2 * k + 1)))) [0..<n],
             (bs, p + 2 * n))
       else ([], (bs, p))),
     bi_seek = (\<lambda>q (bs, p). (bs, q)), bi_position = snd, bi_total_size = (\<lambda>(bs, p). length bs),
     undefined_shift = (\<lambda>v n. 0)\<rparr>"

lemma list_buffer_ok: "buffer_ok list_buffer Pair"
  by (simp add: buffer_ok_def list_buffer_def)

definition blank :: message where
  "blank = \<lparr>msg_data = [], msg_array_buffer = [], msg_type = NONE, msg_bool_value = False,
     msg_double_value = 0, msg_int64_value = 0, msg_string_arr = [], msg_bool_arr = [],
     msg_double_arr = [], msg_int64_arr = [], msg_err_name = [], msg_err_msg = []\<rparr>"


text \<open>A message of the given type and content.\<close>

definition int_message :: "u64 \<Rightarrow> message" where
  "int_message v = blank\<lparr>msg_type := INTEGER, msg_int64_value := v\<rparr>"

definition ints_message :: "u64 list \<Rightarrow> message" where
  "ints_message vs = blank\<lparr>msg_type := INT64ARRAY, msg_int64_arr := vs\<rparr>"

definition sent :: "message \<Rightarrow> message outcome" where
  "sent m = DecodeToWebMessagePayload list_buffer (encoded_message (EncodeWebMessagePayload length m)) blank"

lemmas encodings = EncodeWebMessagePayload_def Let_def

section \<open>Properties\<close>

text \<open>What arrives of a scalar. A string of less than four gigabytes, Latin-1 or not, a boolean,
  a double, and an error with a Latin-1 text arrive as they were sent (an error with the name of
  its prototype, \<open>SyntaxError\<close> for any other name); an integer arrives as an integer when it
  fits 32 bits, signed or unsigned, and as the nearest double otherwise. Nothing else in the
  receiver's message changes, and this holds for any buffer iterator with the documented laws.\<close>

lemma scalar_messages_arrive:
  assumes "buffer_ok B at" and "scalar_message original"
  shows "DecodeToWebMessagePayload B (encoded_message (EncodeWebMessagePayload moved_size original)) m =
    Read (received original m)"
  using assms decode_string [OF assms(1)] decode_integer [OF assms(1)] decode_bool [OF assms(1)]
    decode_double [OF assms(1)] decode_error [OF assms(1)]
  by (cases "msg_type original") (simp_all add: encodings scalar_message_def received_def)

lemma scalar_messages_arrive_witness: "sent (int_message (- 5)) = Read (int_message (- 5))"
  using scalar_messages_arrive [OF list_buffer_ok, of "int_message (- 5)" length blank]
  by (simp add: sent_def scalar_message_def received_def int_message_def blank_def fits_int32_def)

text \<open>What arrives of an array. An array that is not empty arrives element by element, of
  Latin-1 strings, booleans, doubles, integers beyond 31 bits that fit 32 unsigned, or
  integers of 30 bits and a sign none of whose encodings has, after its first byte, a byte
  that is the tag of an integer or the end tag of an array.\<close>

lemma array_messages_arrive:
  assumes "buffer_ok B at" and "array_message original"
  shows "DecodeToWebMessagePayload B (encoded_message (EncodeWebMessagePayload moved_size original)) m =
    Read (received original m)"
  using assms decode_strings [OF assms(1)] decode_bools [OF assms(1)] decode_doubles [OF assms(1)]
    decode_uints [OF assms(1)] decode_ints [OF assms(1)]
  by (cases "msg_type original") (auto simp: encodings array_message_def received_def)

lemma array_messages_arrive_witness: "sent (ints_message [100, - 3]) = Read (ints_message [100, - 3])"
  using array_messages_arrive [OF list_buffer_ok, of "ints_message [100, - 3]" length blank]
  by (simp add: sent_def array_message_def received_def ints_message_def blank_def fits_int32_def
      short_array_def array_int_ok_def zigzag_def varint_bytes.simps is_element_end_def tag_defs)

text \<open>Messages arrive. A scalar (a string of less than four gigabytes, a boolean, a double, an
  error with a Latin-1 text, an integer, as the nearest double beyond 32 bits) and an array that
  is not empty (of Latin-1 strings, booleans, doubles, integers beyond 31 bits that fit 32
  unsigned, or integers of 30 bits and a sign without the two encodings that are misread) are
  decoded to what was encoded, for any buffer iterator with the documented laws, and nothing
  else in the receiver's message changes.\<close>

lemma messages_arrive:
  assumes "buffer_ok B at" and "scalar_message original \<or> array_message original"
  shows "DecodeToWebMessagePayload B (encoded_message (EncodeWebMessagePayload moved_size original)) m =
    Read (received original m)"
  using scalar_messages_arrive [OF assms(1)] array_messages_arrive [OF assms(1)] assms(2) by blast

text \<open>Decoding always ends. Whatever the bytes are, none of the loops of the decoder needs more
  turns than the buffer has bytes: the message is read or refused.\<close>

lemma decoding_ends:
  assumes "buffer_ok B at"
  shows "DecodeToWebMessagePayload B encoded m = Refused \<or>
    (\<exists>m'. DecodeToWebMessagePayload B encoded m = Read m')"
  using decode_ends [OF assms, of encoded m]
  by (cases "DecodeToWebMessagePayload B encoded m") auto

text \<open>C23: Decoding always ends: whatever the bytes are, the message is read or refused, and none of
  the loops of the decoder needs more turns than the buffer has bytes. A scalar and an array of one
  safe kind are decoded to what was encoded, integers beyond 32 bits as the nearest double.\<close>

theorem messages_are_read_or_refused:
  assumes "buffer_ok B at"
  shows "(DecodeToWebMessagePayload B encoded m = Refused \<or> (\<exists>m'. DecodeToWebMessagePayload B encoded m = Read m')) \<and>
    (scalar_message original \<or> array_message original \<longrightarrow>
      DecodeToWebMessagePayload B (encoded_message (EncodeWebMessagePayload moved_size original)) m =
        Read (received original m))"
  using decoding_ends [OF assms] messages_arrive [OF assms] by blast

lemma messages_are_read_or_refused_witness:
  "sent (int_message (- 5)) = Read (int_message (- 5)) \<and> sent (ints_message [100, - 3]) = Read (ints_message [100, - 3])"
proof -
  have "scalar_message (int_message (- 5))" "array_message (ints_message [100, - 3])"
    by (simp_all add: scalar_message_def int_message_def array_message_def ints_message_def blank_def fits_int32_def
        short_array_def array_int_ok_def zigzag_def varint_bytes.simps is_element_end_def tag_defs)
  then show ?thesis
    using messages_are_read_or_refused [OF list_buffer_ok, where original = "int_message (- 5)" and m = blank
        and moved_size = length]
      messages_are_read_or_refused [OF list_buffer_ok, where original = "ints_message [100, - 3]" and m = blank
        and moved_size = length]
    by (simp add: sent_def received_def int_message_def ints_message_def blank_def fits_int32_def)
qed

section \<open>Messages that do not arrive\<close>

text \<open>
  The second byte of the number 2304 in an array is the end tag, so the number is cut off; a
  number of 31 bits is shifted as a signed one.
\<close>

lemma int_array_cut_off: "sent (ints_message [2304]) = Read (ints_message [0])"
  by code_simp

lemma int_array_sign: "sent (ints_message [0x40000000]) = Read (ints_message [- 0x40000000])"
  by code_simp

text \<open>Integers of both encodings are taken for a mixed array; an empty array gives no type.\<close>

lemma int_array_mixed: "sent (ints_message [1, 0x80000000]) =
    Read (blank\<lparr>msg_data := mixed_text, msg_type := STRING\<rparr>)"
  by code_simp

lemma empty_array: "sent (ints_message []) = Read blank"
  by code_simp

text \<open>A short error text that is not Latin-1 is preceded by padding, and is lost.\<close>

definition error_message :: "u16string \<Rightarrow> message" where
  "error_message t = blank\<lparr>msg_type := ERROR, msg_err_name := u16s ''TypeError'', msg_err_msg := t\<rparr>"

lemma wide_error_lost: "sent (error_message [0x4E2D]) = Read (error_message [])"
  by code_simp


text \<open>A sixth byte of a length is shifted by 35, which the language does not define.\<close>

lemma ReadUint32_loop_numeral: "ReadUint32_loop B (numeral n) v shift it =
    andthen (ReadUint8 B it) (\<lambda>current_byte it.
       let v = v OR shift_left B (ucast (current_byte AND 0x7F)) shift
       in if current_byte AND 0x80 \<noteq> 0 then ReadUint32_loop B (pred_numeral n) v (shift + 7) it else (Read v, it))"
  by (simp only: numeral_eq_Suc ReadUint32_loop.simps)

lemma long_varint_undefined:
  "fst (ReadUint32 (list_buffer\<lparr>undefined_shift := g\<rparr>) ([0x80, 0x80, 0x80, 0x80, 0x80, 1], 0)) = Read (g 1 35)"
  by (simp add: ReadUint32_def loop_fuel_def list_buffer_def ReadUint8_def shift_left_def
      ReadUint32_loop_numeral Let_def)



end
