(* ===== verification/Codec_Wrapper.thy ===== *)
theory Codec_Wrapper
  imports Prelude
begin

text \<open>
  \<open>codec_wrapper.cc\<close>: the wrapper of a video decoder. The decoder lends output buffers by
  index; the wrapper hands them out under ids of its own, as \<open>CodecOutputBuffer\<close> objects, and
  returns each to the decoder when its object renders it or is destroyed. The decoder
  (\<open>MediaCodecDecoderBridgeImpl\<close>) is the environment: what it answers is an argument of the
  operation that asks it, and the calls it gets are a log. A release from another sequence is
  posted, which is \<open>cw_posted\<close>.
\<close>

section \<open>State\<close>

datatype decoder_code = DECODER_OK | DECODER_ERROR | DECODER_RETRY

datatype codec_state = kCodecError | kFlushed | kRunning | kDraining | kDrained

text \<open>
  \<open>CcLend id i\<close>: the decoder gave the buffer \<open>i\<close>, which got the id; \<open>CcEnd i\<close>: it gave the
  buffer that ends the stream and got it back; \<open>CcReturn id i render\<close>: \<open>ReleaseOutputBuffer\<close>.
\<close>

datatype codec_call =
    CcLend int int
  | CcEnd int
  | CcReturn int int bool
  | CcFlush
  | CcQueue
  | CcQueueEnd
  | CcSetSurface
  | CcVideoSurface int
  | CcRecycleDma
  | CcResumeDma
  | CcDecryption bool

record 'w codec_wrapper =
  cw_codec :: bool
  cw_config :: "int \<times> int"
  cw_state :: codec_state
  cw_surface :: "'w option"
  cw_next :: int
  cw_ids :: "(int \<times> int) list"
  cw_owned_input :: "int option"
  cw_size :: "int \<times> int"
  cw_elided :: bool
  cw_view :: bool
  cw_runner :: bool
  cw_posted :: "int list"
  cw_calls :: "codec_call list"

record output_buffer =
  ob_id :: int
  ob_rendered :: bool
  ob_size :: "int \<times> int"
  ob_view :: bool

definition cw_call :: "codec_call \<Rightarrow> 'w codec_wrapper \<Rightarrow> 'w codec_wrapper" where
  "cw_call c s = s\<lparr>cw_calls := cw_calls s @ [c]\<rparr>"

definition CodecWrapper_Impl :: "int \<times> int \<Rightarrow> 'w option \<Rightarrow> bool \<Rightarrow> 'w codec_wrapper" where
  "CodecWrapper_Impl config surface runner =
     \<lparr>cw_codec = True, cw_config = config, cw_state = kFlushed, cw_surface = surface, cw_next = 0,
      cw_ids = [], cw_owned_input = None, cw_size = config, cw_elided = False, cw_view = False,
      cw_runner = runner, cw_posted = [], cw_calls = []\<rparr>"

section \<open>Operations\<close>

definition IsFlushed :: "'w codec_wrapper \<Rightarrow> bool" where
  "IsFlushed s \<longleftrightarrow> cw_state s = kFlushed"

definition IsDraining :: "'w codec_wrapper \<Rightarrow> bool" where
  "IsDraining s \<longleftrightarrow> cw_state s = kDraining"

definition IsDrained :: "'w codec_wrapper \<Rightarrow> bool" where
  "IsDrained s \<longleftrightarrow> cw_state s = kDrained"

definition HasUnreleasedOutputBuffers :: "'w codec_wrapper \<Rightarrow> bool" where
  "HasUnreleasedOutputBuffers s \<longleftrightarrow> cw_ids s \<noteq> []"

definition DiscardOutputBuffers_Locked :: "'w codec_wrapper \<Rightarrow> 'w codec_wrapper" where
  "DiscardOutputBuffers_Locked s =
     (fold (\<lambda>(i, x). cw_call (CcReturn i x False)) (cw_ids s) s)\<lparr>cw_ids := []\<rparr>"

definition DiscardOutputBuffers :: "'w codec_wrapper \<Rightarrow> 'w codec_wrapper" where
  "DiscardOutputBuffers s = DiscardOutputBuffers_Locked s"

text \<open>The result: was there a codec, and the surface that goes with it.\<close>

definition TakeCodecSurfacePair :: "'w codec_wrapper \<Rightarrow> (bool \<times> 'w option) \<times> 'w codec_wrapper" where
  "TakeCodecSurfacePair s =
     (if \<not> cw_codec s then ((False, None), s)
      else let s = DiscardOutputBuffers_Locked s
           in ((True, cw_surface s), s\<lparr>cw_codec := False, cw_surface := None\<rparr>))"

definition Codec_Flush :: "decoder_code \<Rightarrow> 'w codec_wrapper \<Rightarrow> bool \<times> 'w codec_wrapper" where
  "Codec_Flush status s =
     (let s = cw_call CcFlush (s\<lparr>cw_ids := [], cw_owned_input := None\<rparr>)
      in if status = DECODER_ERROR then (False, s\<lparr>cw_state := kCodecError\<rparr>)
         else (True, s\<lparr>cw_state := kFlushed, cw_elided := False\<rparr>))"

datatype queue_status = QkOk | QkError | QkTryAgainLater | QkNoKey

definition QueueInputBuffer ::
  "bool \<Rightarrow> decoder_code \<Rightarrow> 'w codec_wrapper \<Rightarrow> queue_status \<times> 'w codec_wrapper" where
  "QueueInputBuffer end_of_stream status s =
     (if end_of_stream
      then if cw_state s = kFlushed \<or> cw_state s = kDrained
           then (QkOk, s\<lparr>cw_elided := True, cw_state := kDraining\<rparr>)
           else let s = cw_call CcQueueEnd s
                in if status = DECODER_RETRY then (QkTryAgainLater, s)
                   else (QkOk, s\<lparr>cw_state := kDraining\<rparr>)
      else let s = cw_call CcQueue s
           in (case status of
                 DECODER_OK \<Rightarrow> (QkOk, s\<lparr>cw_state := kRunning\<rparr>)
               | DECODER_ERROR \<Rightarrow> (QkError, s\<lparr>cw_state := kCodecError\<rparr>)
               | DECODER_RETRY \<Rightarrow> (QkTryAgainLater, s)))"

datatype dequeue_status = DkOk | DkError | DkTryAgainLater

text \<open>What the decoder answers to a dequeue, and then to the question for the format.\<close>

record dequeue_reply =
  dr_status :: decoder_code
  dr_index :: int
  dr_eos :: bool
  dr_format_status :: decoder_code
  dr_format :: "int \<times> int"

text \<open>
  Every code of the decoder returns from the body of the loop, so its first turn is the only
  one. The flag says whether \<open>end_of_stream\<close> was set.
\<close>

definition DequeueOutputBuffer ::
  "dequeue_reply \<Rightarrow> 'w codec_wrapper \<Rightarrow>
   dequeue_status \<times> bool \<times> output_buffer option \<times> 'w codec_wrapper" where
  "DequeueOutputBuffer r s =
     (if cw_elided s then (DkOk, True, None, s\<lparr>cw_elided := False, cw_state := kDrained\<rparr>)
      else case dr_status r of
        DECODER_OK \<Rightarrow>
          if dr_eos r then (DkOk, True, None, cw_call (CcEnd (dr_index r)) (s\<lparr>cw_state := kDrained\<rparr>))
          else let i = cw_next s;
                   s = cw_call (CcLend i (dr_index r))
                         (s\<lparr>cw_next := i + 1, cw_ids := om_put i (dr_index r) (cw_ids s)\<rparr>);
                   s = s\<lparr>cw_size := (if dr_format_status r = DECODER_OK then dr_format r else cw_config s)\<rparr>
               in (DkOk, False,
                   Some \<lparr>ob_id = i, ob_rendered = False, ob_size = cw_size s, ob_view = cw_view s\<rparr>, s)
      | DECODER_RETRY \<Rightarrow> (DkTryAgainLater, False, None, s)
      | DECODER_ERROR \<Rightarrow> (DkError, False, None, s\<lparr>cw_state := kCodecError\<rparr>))"

definition SetSurface ::
  "'w option \<Rightarrow> decoder_code \<Rightarrow> 'w codec_wrapper \<Rightarrow> bool \<times> 'w codec_wrapper" where
  "SetSurface surface status s =
     (if surface = None then (False, s\<lparr>cw_state := kCodecError\<rparr>)
      else let s = cw_call CcSetSurface s
           in if status = DECODER_ERROR then (False, s\<lparr>cw_state := kCodecError\<rparr>)
              else (True, s\<lparr>cw_surface := surface, cw_view := False\<rparr>))"

definition SetVideoSurface :: "int \<Rightarrow> 'w codec_wrapper \<Rightarrow> 'w codec_wrapper" where
  "SetVideoSurface widget_id s =
     (if cw_codec s then (cw_call (CcVideoSurface widget_id) s)\<lparr>cw_view := widget_id > 0\<rparr> else s)"

definition RecycleDmaBuffer :: "'w codec_wrapper \<Rightarrow> 'w codec_wrapper" where
  "RecycleDmaBuffer s = (if cw_codec s then cw_call CcRecycleDma s else s)"

definition ResumeDmaBuffer :: "'w codec_wrapper \<Rightarrow> 'w codec_wrapper" where
  "ResumeDmaBuffer s = (if cw_codec s then cw_call CcResumeDma s else s)"

definition SetDecryptionConfig ::
  "bool \<Rightarrow> decoder_code \<Rightarrow> 'w codec_wrapper \<Rightarrow> bool \<times> 'w codec_wrapper" where
  "SetDecryptionConfig secure status s = (status = DECODER_OK, cw_call (CcDecryption secure) s)"

text \<open>\<open>here\<close>: does the caller run on the sequence on which buffers are released?\<close>

definition ReleaseCodecOutputBuffer ::
  "bool \<Rightarrow> int \<Rightarrow> bool \<Rightarrow> 'w codec_wrapper \<Rightarrow> bool \<times> 'w codec_wrapper" where
  "ReleaseCodecOutputBuffer here i render s =
     (if \<not> render \<and> cw_runner s \<and> \<not> here then (True, s\<lparr>cw_posted := cw_posted s @ [i]\<rparr>)
      else if \<not> cw_codec s \<or> cw_state s = kCodecError then (False, s)
      else case map_of (cw_ids s) i of
        None \<Rightarrow> (False, s)
      | Some x \<Rightarrow> (True, (cw_call (CcReturn i x render) s)\<lparr>cw_ids := om_del i (cw_ids s)\<rparr>))"

section \<open>Output buffers\<close>

definition ReleaseToSurface ::
  "output_buffer \<Rightarrow> 'w codec_wrapper \<Rightarrow> bool \<times> output_buffer \<times> 'w codec_wrapper" where
  "ReleaseToSurface b s =
     (case ReleaseCodecOutputBuffer True (ob_id b) True s of
        (result, s) \<Rightarrow> (result, b\<lparr>ob_rendered := True\<rparr>, s))"

definition OutputBuffer_Destroy :: "bool \<Rightarrow> output_buffer \<Rightarrow> 'w codec_wrapper \<Rightarrow> 'w codec_wrapper" where
  "OutputBuffer_Destroy here b s =
     (if \<not> ob_rendered b then snd (ReleaseCodecOutputBuffer here (ob_id b) False s) else s)"

end
