(* ===== verification/Codec_Ledger.thy ===== *)
theory Codec_Ledger
  imports Codec_Wrapper
begin

text \<open>
  What the wrapper promises the decoder, as an abstract specification: a ledger of the buffers
  that the decoder has lent, on which a call is an entry that may be illegal. The wrapper and
  the output buffers that are alive are a machine; its calls are legal entries, and the ledger
  they lead to is the table of the wrapper.
\<close>

section \<open>The ledger\<close>

record ledger =
  lg_lent :: "int \<Rightarrow> int option"
  lg_next :: int

definition new_ledger :: ledger where
  "new_ledger = \<lparr>lg_lent = Map.empty, lg_next = 0\<rparr>"

text \<open>
  A buffer is lent under the next id; it is returned under the id it was lent for, while it is
  lent; a flush takes all of them back.
\<close>

fun account :: "codec_call \<Rightarrow> ledger \<Rightarrow> ledger option" where
  "account (CcLend i x) l =
     (if i = lg_next l
      then Some \<lparr>lg_lent = (lg_lent l)(i \<mapsto> x), lg_next = i + 1\<rparr> else None)"
| "account (CcReturn i x render) l =
     (if lg_lent l i = Some x then Some (l\<lparr>lg_lent := (lg_lent l)(i := None)\<rparr>) else None)"
| "account CcFlush l = Some (l\<lparr>lg_lent := Map.empty\<rparr>)"
| "account _ l = Some l"

text \<open>On a legal ledger a buffer is returned at most once for each time it was lent.\<close>

definition returns_of :: "int \<Rightarrow> codec_call list \<Rightarrow> nat" where
  "returns_of i cs = length (filter (\<lambda>c. \<exists>x r. c = CcReturn i x r) cs)"

definition lent_in :: "codec_call list \<Rightarrow> int \<Rightarrow> int \<Rightarrow> bool" where
  "lent_in cs i x \<longleftrightarrow> CcLend i x \<in> set cs"

definition ledger_ok :: "codec_call list \<Rightarrow> ledger \<Rightarrow> bool" where
  "ledger_ok cs l \<longleftrightarrow> (\<forall>i x. lg_lent l i = Some x \<longrightarrow> i < lg_next l \<and> returns_of i cs = 0 \<and> lent_in cs i x) \<and>
     (\<forall>i. returns_of i cs \<le> 1 \<and> (returns_of i cs \<noteq> 0 \<longrightarrow> i < lg_next l)) \<and>
     (\<forall>i x r. CcReturn i x r \<in> set cs \<longrightarrow> lent_in cs i x)"

lemma returns_of_simps [simp]:
  "returns_of i [] = 0" "returns_of i (cs @ ds) = returns_of i cs + returns_of i ds"
  "returns_of i [CcReturn j x r] = (if j = i then 1 else 0)" "returns_of i [CcLend j x] = 0"
  "returns_of i [CcEnd x] = 0" "returns_of i [CcFlush] = 0" "returns_of i [CcQueue] = 0"
  "returns_of i [CcQueueEnd] = 0" "returns_of i [CcSetSurface] = 0" "returns_of i [CcVideoSurface w] = 0"
  "returns_of i [CcRecycleDma] = 0" "returns_of i [CcResumeDma] = 0" "returns_of i [CcDecryption b] = 0"
  by (auto simp: returns_of_def)

lemma ledger_step: "ledger_ok cs l \<Longrightarrow> account c l = Some l' \<Longrightarrow> ledger_ok (cs @ [c]) l'"
proof (cases c)
  case (CcLend i x)
  assume ok: "ledger_ok cs l" and "account c l = Some l'"
  then have l': "l' = \<lparr>lg_lent = (lg_lent l)(i \<mapsto> x), lg_next = i + 1\<rparr>" and i: "i = lg_next l"
    unfolding CcLend by (simp_all split: if_splits)
  have "returns_of j cs \<noteq> 0 \<Longrightarrow> j < i" "lg_lent l j = Some y \<Longrightarrow> j < i \<and> returns_of j cs = 0 \<and> lent_in cs j y"
    for j y using ok i by (simp_all add: ledger_ok_def)
  moreover from this(1) [of i] have "returns_of i cs = 0" by auto
  moreover have "returns_of j cs \<le> 1" for j using ok by (simp add: ledger_ok_def)
  moreover have "CcReturn j y r \<in> set cs \<Longrightarrow> lent_in cs j y" for j y r
    using ok unfolding ledger_ok_def by blast
  ultimately show ?thesis unfolding CcLend l'
    by (auto simp: ledger_ok_def lent_in_def intro!: less_imp_le)
next
  case (CcReturn i x r)
  assume ok: "ledger_ok cs l" and "account c l = Some l'"
  then have l': "l' = l\<lparr>lg_lent := (lg_lent l)(i := None)\<rparr>" and lent: "lg_lent l i = Some x"
    unfolding CcReturn by (simp_all split: if_splits)
  from lent ok have "i < lg_next l" "returns_of i cs = 0" "lent_in cs i x" by (simp_all add: ledger_ok_def)
  with ok show ?thesis unfolding CcReturn l' by (auto simp: ledger_ok_def lent_in_def)
qed (auto simp: ledger_ok_def lent_in_def split: if_splits)

lemma ledger_replay: "ledger_ok cs l \<Longrightarrow> replay account ds l = Some l' \<Longrightarrow> ledger_ok (cs @ ds) l'"
proof (induction ds arbitrary: cs l)
  case (Cons d ds)
  then obtain k where k: "account d l = Some k" "replay account ds k = Some l'"
    by (auto split: option.splits)
  from Cons.IH [OF ledger_step [OF Cons.prems(1) k(1)] k(2)] show ?case by simp
qed simp

lemma legal_ledger: "replay account cs new_ledger = Some l \<Longrightarrow> ledger_ok cs l"
  using ledger_replay [of "[]" new_ledger cs l] by (simp add: ledger_ok_def new_ledger_def)

section \<open>The machine\<close>

record 'w codec_machine =
  cm_wrapper :: "'w codec_wrapper"
  cm_buffers :: "output_buffer list"

datatype 'w codec_event =
    CeQueue bool decoder_code
  | CeDequeue dequeue_reply
  | CeFlush decoder_code
  | CeDiscard
  | CeTake
  | CeSetSurface "'w option" decoder_code
  | CeVideoSurface int
  | CeRecycle
  | CeResume
  | CeDecryption bool decoder_code
  | CeRender nat
  | CeDestroy nat bool
  | CePosted

definition on_wrapper :: "('w codec_wrapper \<Rightarrow> 'w codec_wrapper) \<Rightarrow> 'w codec_machine \<Rightarrow> 'w codec_machine" where
  "on_wrapper f m = m\<lparr>cm_wrapper := f (cm_wrapper m)\<rparr>"

definition drop_at :: "nat \<Rightarrow> 'a list \<Rightarrow> 'a list" where
  "drop_at n xs = take n xs @ drop (Suc n) xs"

fun cm_step :: "'w codec_machine \<Rightarrow> 'w codec_event \<Rightarrow> 'w codec_machine" where
  "cm_step m (CeQueue eos status) = on_wrapper (\<lambda>s. snd (QueueInputBuffer eos status s)) m"
| "cm_step m (CeDequeue r) =
     (case DequeueOutputBuffer r (cm_wrapper m) of
        (_, _, b, s) \<Rightarrow> m\<lparr>cm_wrapper := s,
          cm_buffers := cm_buffers m @ (case b of None \<Rightarrow> [] | Some b \<Rightarrow> [b])\<rparr>)"
| "cm_step m (CeFlush status) = on_wrapper (\<lambda>s. snd (Codec_Flush status s)) m"
| "cm_step m CeDiscard = on_wrapper DiscardOutputBuffers m"
| "cm_step m CeTake = on_wrapper (\<lambda>s. snd (TakeCodecSurfacePair s)) m"
| "cm_step m (CeSetSurface w status) = on_wrapper (\<lambda>s. snd (SetSurface w status s)) m"
| "cm_step m (CeVideoSurface w) = on_wrapper (SetVideoSurface w) m"
| "cm_step m CeRecycle = on_wrapper RecycleDmaBuffer m"
| "cm_step m CeResume = on_wrapper ResumeDmaBuffer m"
| "cm_step m (CeDecryption secure status) = on_wrapper (\<lambda>s. snd (SetDecryptionConfig secure status s)) m"
| "cm_step m (CeRender k) =
     (case ReleaseToSurface (cm_buffers m ! k) (cm_wrapper m) of
        (_, b, s) \<Rightarrow> m\<lparr>cm_wrapper := s, cm_buffers := (cm_buffers m)[k := b]\<rparr>)"
| "cm_step m (CeDestroy k here) =
     (on_wrapper (OutputBuffer_Destroy here (cm_buffers m ! k)) m)\<lparr>cm_buffers := drop_at k (cm_buffers m)\<rparr>"
| "cm_step m CePosted =
     on_wrapper (\<lambda>s. snd (ReleaseCodecOutputBuffer True (hd (cw_posted s)) False
                            (s\<lparr>cw_posted := tl (cw_posted s)\<rparr>))) m"

text \<open>
  The preconditions that the operations check (\<open>DCHECK\<close>), and the buffers that exist.
\<close>

definition usable :: "'w codec_machine \<Rightarrow> bool" where
  "usable m \<longleftrightarrow> cw_codec (cm_wrapper m) \<and> cw_state (cm_wrapper m) \<noteq> kCodecError"

fun cm_ok :: "'w codec_machine \<Rightarrow> 'w codec_event \<Rightarrow> bool" where
  "cm_ok m (CeQueue eos status) = usable m"
| "cm_ok m (CeDequeue r) = usable m"
| "cm_ok m (CeFlush status) = usable m"
| "cm_ok m (CeSetSurface w status) = (usable m \<and> w \<noteq> None)"
| "cm_ok m (CeDecryption secure status) = cw_codec (cm_wrapper m)"
| "cm_ok m (CeRender k) = (k < length (cm_buffers m))"
| "cm_ok m (CeDestroy k here) = (k < length (cm_buffers m))"
| "cm_ok m CePosted = (cw_posted (cm_wrapper m) \<noteq> [])"
| "cm_ok m _ = True"

definition cm_start :: "int \<times> int \<Rightarrow> 'w option \<Rightarrow> bool \<Rightarrow> 'w codec_machine" where
  "cm_start config surface runner = \<lparr>cm_wrapper = CodecWrapper_Impl config surface runner, cm_buffers = []\<rparr>"

definition cm_calls :: "'w codec_machine \<Rightarrow> codec_call list" where
  "cm_calls m = cw_calls (cm_wrapper m)"

definition ledger_of :: "'w codec_wrapper \<Rightarrow> ledger" where
  "ledger_of s = \<lparr>lg_lent = map_of (cw_ids s), lg_next = cw_next s\<rparr>"

definition cm_abs :: "'w codec_machine \<Rightarrow> ledger" where
  "cm_abs m = ledger_of (cm_wrapper m)"

text \<open>Ids grow; every output buffer has one that was given out; without a codec nothing is lent.\<close>

definition cw_inv :: "'w codec_wrapper \<Rightarrow> bool" where
  "cw_inv s \<longleftrightarrow> om_ok (cw_ids s) \<and> (\<forall>i \<in> fst ` set (cw_ids s). i < cw_next s) \<and>
     (\<not> cw_codec s \<longrightarrow> cw_ids s = [])"

definition cm_inv :: "'w codec_machine \<Rightarrow> bool" where
  "cm_inv m \<longleftrightarrow> cw_inv (cm_wrapper m)"

section \<open>Every call is a legal entry\<close>

text \<open>An operation that keeps the invariant and makes legal calls.\<close>

definition accounts :: "'w codec_wrapper \<Rightarrow> 'w codec_wrapper \<Rightarrow> bool" where
  "accounts s t \<longleftrightarrow> cw_inv t \<and>
     (\<exists>cs. cw_calls t = cw_calls s @ cs \<and> replay account cs (ledger_of s) = Some (ledger_of t))"

lemma accountsI: "cw_inv t \<Longrightarrow> cw_calls t = cw_calls s @ cs \<Longrightarrow>
    replay account cs (ledger_of s) = Some (ledger_of t) \<Longrightarrow> accounts s t"
  by (auto simp: accounts_def)

text \<open>Nothing that concerns the buffers: one call, or none.\<close>

lemma accounts_quiet:
  "cw_inv s \<Longrightarrow> cw_ids t = cw_ids s \<Longrightarrow> cw_next t = cw_next s \<Longrightarrow> cw_codec t = cw_codec s \<Longrightarrow>
    cw_calls t = cw_calls s @ cs \<Longrightarrow> \<forall>l. replay account cs l = Some l \<Longrightarrow> accounts s t"
  by (rule accountsI [of _ _ cs]) (simp_all add: cw_inv_def ledger_of_def)

lemma cw_call_reads [simp]:
  "cw_ids (cw_call c s) = cw_ids s" "cw_next (cw_call c s) = cw_next s" "cw_codec (cw_call c s) = cw_codec s"
  "cw_calls (cw_call c s) = cw_calls s @ [c]" "cw_state (cw_call c s) = cw_state s"
  "cw_posted (cw_call c s) = cw_posted s" "cw_runner (cw_call c s) = cw_runner s"
  by (simp_all add: cw_call_def)

lemma Release_accounts:
  assumes "cw_inv s"
  shows "accounts s (snd (ReleaseCodecOutputBuffer here i render s))"
proof (cases "map_of (cw_ids s) i")
  case None
  with assms show ?thesis
    by (intro accounts_quiet [of _ _ "[]"]) (simp_all add: ReleaseCodecOutputBuffer_def)
next
  case (Some x)
  let ?t = "(cw_call (CcReturn i x render) s)\<lparr>cw_ids := om_del i (cw_ids s)\<rparr>"
  have "accounts s ?t"
    using assms Some
    by (intro accountsI [of _ _ "[CcReturn i x render]"]) (auto simp: cw_inv_def ledger_of_def)
  moreover have "accounts s s" "accounts s (s\<lparr>cw_posted := p\<rparr>)" for p
    using assms by (auto intro!: accounts_quiet [of _ _ "[]"])
  ultimately show ?thesis using Some by (simp add: ReleaseCodecOutputBuffer_def)
qed

lemma discard_fold [simp]:
  "fold (\<lambda>(i, x). cw_call (CcReturn i x False)) l u =
     u\<lparr>cw_calls := cw_calls u @ map (\<lambda>(i, x). CcReturn i x False) l\<rparr>"
  by (induction l arbitrary: u) (auto simp: cw_call_def)

lemma Discard_accounts:
  assumes "cw_inv s"
  shows "accounts s (DiscardOutputBuffers_Locked s)"
proof -
  let ?cs = "map (\<lambda>(i, x). CcReturn i x False) (cw_ids s)"
  have r: "replay account (map (\<lambda>(i, x). CcReturn i x False) l) \<lparr>lg_lent = map_of l, lg_next = n\<rparr> =
      Some \<lparr>lg_lent = Map.empty, lg_next = n\<rparr>" if "distinct (map fst l)" for l n
    using that
  proof (induction l)
    case (Cons p l)
    have "map_of l (fst p) = None" using Cons.prems by (simp add: map_of_eq_None_iff)
    then have "(map_of (p # l))(fst p := None) = map_of l" by (cases p) auto
    moreover have "map_of (p # l) (fst p) = Some (snd p)" by (cases p) simp
    ultimately show ?case using Cons by (simp add: case_prod_beta del: map_of.simps)
  qed simp
  have "distinct (map fst (cw_ids s))" using assms om_ok_distinct by (auto simp: cw_inv_def)
  then show ?thesis
    using assms r [of "cw_ids s" "cw_next s"]
    by (intro accountsI [of _ _ ?cs]) (simp_all add: DiscardOutputBuffers_Locked_def cw_inv_def ledger_of_def)
qed

lemma accounts_then:
  "accounts s t \<Longrightarrow> cw_inv u \<Longrightarrow> cw_ids u = cw_ids t \<Longrightarrow> cw_next u = cw_next t \<Longrightarrow>
    cw_calls u = cw_calls t \<Longrightarrow> accounts s u"
  by (simp add: accounts_def ledger_of_def)

lemma Dequeue_accounts:
  assumes inv: "cw_inv s" and codec: "cw_codec s"
  shows "accounts s (snd (snd (snd (DequeueOutputBuffer r s))))"
proof -
  let ?x = "dr_index r" and ?i = "cw_next s"
  let ?put = "om_put ?i ?x (cw_ids s)"
  have same: "accounts s (s\<lparr>cw_state := st\<rparr>)" "accounts s s" "accounts s (s\<lparr>cw_elided := False, cw_state := st\<rparr>)" for st
    using inv by (auto intro!: accounts_quiet [of _ _ "[]"])
  show ?thesis
  proof (cases "cw_elided s \<or> dr_status r \<noteq> DECODER_OK")
    case True
    then show ?thesis using same by (cases "dr_status r") (auto simp: DequeueOutputBuffer_def)
  next
    case False
    show ?thesis
    proof (cases "dr_eos r")
      case True
      have "accounts s (cw_call (CcEnd ?x) (s\<lparr>cw_state := kDrained\<rparr>))"
        using inv by (intro accountsI [of _ _ "[CcEnd ?x]"]) (simp_all add: cw_inv_def ledger_of_def)
      with True False show ?thesis by (simp add: DequeueOutputBuffer_def)
    next
      case eos: False
      have u: "accounts s (cw_call (CcLend ?i ?x) (s\<lparr>cw_next := ?i + 1, cw_ids := ?put\<rparr>))" (is "accounts s ?u")
        using inv codec
        by (intro accountsI [of _ _ "[CcLend ?i ?x]"]) (auto simp: cw_inv_def ledger_of_def)
      have "accounts s (?u\<lparr>cw_size := z\<rparr>)" for z
        using u by (rule accounts_then) (use u in \<open>simp_all add: accounts_def cw_inv_def\<close>)
      with False eos show ?thesis by (simp add: DequeueOutputBuffer_def Let_def)
    qed
  qed
qed

lemma cm_accounts:
  assumes inv: "cm_inv m" and ok: "cm_ok m e"
  shows "accounts (cm_wrapper m) (cm_wrapper (cm_step m e))"
proof -
  let ?s = "cm_wrapper m"
  have i: "cw_inv ?s" using inv by (simp add: cm_inv_def)
  note quiet = accounts_quiet [OF i]
  show ?thesis
  proof (cases e)
    case (CeQueue eos status)
    have "accounts ?s (snd (QueueInputBuffer eos status ?s))"
      by (cases eos; cases status) (auto simp: QueueInputBuffer_def intro: quiet [of _ "[]"] quiet [of _ "[CcQueueEnd]"] quiet [of _ "[CcQueue]"])
    with CeQueue show ?thesis by (simp add: on_wrapper_def)
  next
    case (CeDequeue r)
    with ok Dequeue_accounts [OF i, of r] show ?thesis
      by (auto simp: usable_def split: prod.splits)
  next
    case (CeFlush status)
    have "accounts ?s (snd (Codec_Flush status ?s))"
      using i by (intro accountsI [of _ _ "[CcFlush]"]) (auto simp: Codec_Flush_def cw_inv_def ledger_of_def Let_def)
    with CeFlush show ?thesis by (simp add: on_wrapper_def)
  next
    case CeTake
    have "accounts ?s (snd (TakeCodecSurfacePair ?s))"
      using accounts_then [OF Discard_accounts [OF i], of "(DiscardOutputBuffers_Locked ?s)\<lparr>cw_codec := False, cw_surface := None\<rparr>"]
        Discard_accounts [OF i] quiet [of ?s "[]"]
      by (auto simp: TakeCodecSurfacePair_def cw_inv_def accounts_def Let_def DiscardOutputBuffers_Locked_def)
    with CeTake show ?thesis by (simp add: on_wrapper_def)
  next
    case (CeSetSurface w status)
    have "accounts ?s (snd (SetSurface w status ?s))"
      by (auto simp: SetSurface_def Let_def intro: quiet [of _ "[]"] quiet [of _ "[CcSetSurface]"])
    with CeSetSurface show ?thesis by (simp add: on_wrapper_def)
  next
    case (CeRender k)
    with Release_accounts [OF i, of True "ob_id (cm_buffers m ! k)" True] show ?thesis
      by (auto simp: ReleaseToSurface_def split: prod.splits)
  next
    case (CeDestroy k here)
    have "accounts ?s (OutputBuffer_Destroy here (cm_buffers m ! k) ?s)"
      using Release_accounts [OF i] quiet [of ?s "[]"] by (simp add: OutputBuffer_Destroy_def)
    with CeDestroy show ?thesis by (simp add: on_wrapper_def)
  next
    case CePosted
    let ?p = "?s\<lparr>cw_posted := tl (cw_posted ?s)\<rparr>"
    have "cw_inv ?p" using i by (simp add: cw_inv_def)
    from Release_accounts [OF this, of True "hd (cw_posted ?s)" False] CePosted show ?thesis
      by (simp add: on_wrapper_def accounts_def ledger_of_def)
  qed (use i in \<open>auto simp: on_wrapper_def DiscardOutputBuffers_def SetVideoSurface_def RecycleDmaBuffer_def
      ResumeDmaBuffer_def SetDecryptionConfig_def intro: Discard_accounts quiet [of _ "[]"]
      quiet [of _ "[CcVideoSurface w]" for w] quiet [of _ "[CcRecycleDma]"] quiet [of _ "[CcResumeDma]"]
      quiet [of _ "[CcDecryption b]" for b]\<close>)
qed

interpretation cm_refines: refinement cm_step cm_ok cm_inv cm_calls account cm_abs
proof unfold_locales
  fix m :: "'a codec_machine" and e
  assume "cm_inv m" "cm_ok m e"
  then show "cm_inv (cm_step m e)"
    "\<exists>cs. cm_calls (cm_step m e) = cm_calls m @ cs \<and> replay account cs (cm_abs m) = Some (cm_abs (cm_step m e))"
    using cm_accounts [of m e] by (auto simp: accounts_def cm_inv_def cm_calls_def cm_abs_def)
qed

section \<open>Nobody forgets a buffer\<close>

text \<open>
  Without an error, a lent buffer has an output buffer that has not rendered yet, or its
  release is on its way.
\<close>

definition held_by :: "'w codec_machine \<Rightarrow> int \<Rightarrow> bool" where
  "held_by m i \<longleftrightarrow> (\<exists>b \<in> set (cm_buffers m). ob_id b = i \<and> \<not> ob_rendered b) \<or> i \<in> set (cw_posted (cm_wrapper m))"

definition cm_owned :: "'w codec_machine \<Rightarrow> bool" where
  "cm_owned m \<longleftrightarrow> cw_state (cm_wrapper m) \<noteq> kCodecError \<longrightarrow> (\<forall>i \<in> fst ` set (cw_ids (cm_wrapper m)). held_by m i)"

lemma cm_ownedI:
  "(\<And>i. cw_state (cm_wrapper n) \<noteq> kCodecError \<Longrightarrow> i \<in> fst ` set (cw_ids (cm_wrapper n)) \<Longrightarrow> held_by n i) \<Longrightarrow> cm_owned n"
  by (simp add: cm_owned_def)

lemma cm_ownedD:
  "cm_owned m \<Longrightarrow> cw_state (cm_wrapper m) \<noteq> kCodecError \<Longrightarrow> i \<in> fst ` set (cw_ids (cm_wrapper m)) \<Longrightarrow> held_by m i"
  by (auto simp: cm_owned_def)

text \<open>An operation that lends nothing, posts nothing and leaves no error.\<close>

definition keeps_ids :: "'w codec_wrapper \<Rightarrow> 'w codec_wrapper \<Rightarrow> bool" where
  "keeps_ids s t \<longleftrightarrow> fst ` set (cw_ids t) \<subseteq> fst ` set (cw_ids s) \<and> cw_posted t = cw_posted s \<and>
     (cw_state s = kCodecError \<longrightarrow> cw_state t = kCodecError \<or> cw_ids t = [])"

lemma keeps_ids_owned: "cm_owned m \<Longrightarrow> keeps_ids (cm_wrapper m) (f (cm_wrapper m)) \<Longrightarrow> cm_owned (on_wrapper f m)"
proof (rule cm_ownedI)
  fix i
  assume "cm_owned m" and k: "keeps_ids (cm_wrapper m) (f (cm_wrapper m))"
    and e: "cw_state (cm_wrapper (on_wrapper f m)) \<noteq> kCodecError"
    and i: "i \<in> fst ` set (cw_ids (cm_wrapper (on_wrapper f m)))"
  moreover have "cw_state (cm_wrapper m) \<noteq> kCodecError"
    using k e i by (auto simp: keeps_ids_def on_wrapper_def)
  moreover have "i \<in> fst ` set (cw_ids (cm_wrapper m))"
    using k i by (auto simp: keeps_ids_def on_wrapper_def)
  ultimately have "held_by m i" by (blast intro: cm_ownedD)
  with k show "held_by (on_wrapper f m) i" by (simp add: held_by_def keeps_ids_def on_wrapper_def)
qed

lemma Release_state [simp]: "cw_state (snd (ReleaseCodecOutputBuffer here i render s)) = cw_state s"
  by (simp add: ReleaseCodecOutputBuffer_def split: option.split)

lemma Release_codec [simp]: "cw_codec (snd (ReleaseCodecOutputBuffer here i render s)) = cw_codec s"
  by (simp add: ReleaseCodecOutputBuffer_def split: option.split)

lemma ReleaseToSurface_eq:
  "ReleaseToSurface b s = (fst (ReleaseCodecOutputBuffer True (ob_id b) True s), b\<lparr>ob_rendered := True\<rparr>,
     snd (ReleaseCodecOutputBuffer True (ob_id b) True s))"
  by (simp add: ReleaseToSurface_def split: prod.split)

lemma Release_here:
  assumes "cw_inv s" and "cw_state s \<noteq> kCodecError" and "render \<or> here"
  shows "cw_ids (snd (ReleaseCodecOutputBuffer here i render s)) = om_del i (cw_ids s) \<and>
    cw_posted (snd (ReleaseCodecOutputBuffer here i render s)) = cw_posted s"
proof (cases "cw_codec s \<and> i \<in> fst ` set (cw_ids s)")
  case True
  then obtain x where "map_of (cw_ids s) i = Some x" by (metis map_of_eq_None_iff not_None_eq)
  with True assms show ?thesis by (auto simp: ReleaseCodecOutputBuffer_def)
next
  case False
  then have "map_of (cw_ids s) i = None" "om_del i (cw_ids s) = cw_ids s"
    using assms(1) by (auto simp: cw_inv_def map_of_eq_None_iff om_del_absent)
  with assms show ?thesis by (auto simp: ReleaseCodecOutputBuffer_def)
qed

lemma Release_away:
  assumes "cw_inv s" and "cw_state s \<noteq> kCodecError"
  shows "let t = snd (ReleaseCodecOutputBuffer here i False s)
    in cw_ids t = om_del i (cw_ids s) \<and> cw_posted t = cw_posted s \<or>
       cw_ids t = cw_ids s \<and> cw_posted t = cw_posted s @ [i]"
proof (cases "cw_runner s \<and> \<not> here")
  case True
  then show ?thesis by (simp add: ReleaseCodecOutputBuffer_def Let_def)
next
  case False
  then have "ReleaseCodecOutputBuffer here i False s = ReleaseCodecOutputBuffer True i False s"
    by (auto simp: ReleaseCodecOutputBuffer_def)
  with Release_here [OF assms, of False True i] show ?thesis by (simp add: Let_def)
qed

lemma in_list_update: "b \<in> set xs \<Longrightarrow> k < length xs \<Longrightarrow> b \<noteq> xs ! k \<Longrightarrow> b \<in> set (xs[k := y])"
  by (metis in_set_conv_nth length_list_update nth_list_update_neq)

lemma in_drop_at:
  assumes "b \<in> set xs" and "k < length xs" and "b \<noteq> xs ! k"
  shows "b \<in> set (drop_at k xs)"
proof -
  have "set xs = insert (xs ! k) (set (drop_at k xs))"
    unfolding drop_at_def by (subst id_take_nth_drop [OF assms(2)]) auto
  with assms show ?thesis by auto
qed

lemma keeps_ids_quiet:
  "cw_ids t = cw_ids s \<Longrightarrow> cw_posted t = cw_posted s \<Longrightarrow> cw_state t = cw_state s \<or> cw_state s \<noteq> kCodecError \<Longrightarrow> keeps_ids s t"
  by (auto simp: keeps_ids_def)

lemma keeps_ids_empty: "cw_ids t = [] \<Longrightarrow> cw_posted t = cw_posted s \<Longrightarrow> keeps_ids s t"
  by (simp add: keeps_ids_def)

lemma step_keeps_ids:
  "cw_state s \<noteq> kCodecError \<Longrightarrow> keeps_ids s (snd (QueueInputBuffer eos status s))"
  "keeps_ids s (snd (Codec_Flush status s))"
  "cw_state s \<noteq> kCodecError \<Longrightarrow> keeps_ids s (snd (SetSurface w status s))"
  "keeps_ids s (DiscardOutputBuffers s)"
  "keeps_ids s (snd (TakeCodecSurfacePair s))"
  "keeps_ids s (SetVideoSurface v s)" "keeps_ids s (RecycleDmaBuffer s)" "keeps_ids s (ResumeDmaBuffer s)"
  "keeps_ids s (snd (SetDecryptionConfig secure status s))"
proof -
  show "keeps_ids s (snd (QueueInputBuffer eos status s))" if "cw_state s \<noteq> kCodecError"
    using that by (cases status) (auto simp: QueueInputBuffer_def Let_def intro: keeps_ids_quiet)
  show "keeps_ids s (snd (TakeCodecSurfacePair s))"
    by (auto simp: TakeCodecSurfacePair_def DiscardOutputBuffers_Locked_def Let_def intro: keeps_ids_quiet keeps_ids_empty)
qed (auto simp: Codec_Flush_def SetSurface_def DiscardOutputBuffers_def DiscardOutputBuffers_Locked_def SetVideoSurface_def
    RecycleDmaBuffer_def ResumeDmaBuffer_def SetDecryptionConfig_def Let_def intro: keeps_ids_quiet keeps_ids_empty)

text \<open>One release: the id is gone or on its way, the buffers differ at one place.\<close>

lemma release_owned:
  assumes own: "cm_owned m" and state: "cw_state (cm_wrapper n) = cw_state (cm_wrapper m)"
    and ids: "cw_state (cm_wrapper m) \<noteq> kCodecError \<Longrightarrow>
      cw_ids (cm_wrapper n) = om_del i (cw_ids (cm_wrapper m)) \<or>
      cw_ids (cm_wrapper n) = cw_ids (cm_wrapper m) \<and> (i \<in> set (cw_posted (cm_wrapper n)) \<or> \<not> held_by m i \<or> held_by n i)"
    and others: "\<And>j. cw_state (cm_wrapper m) \<noteq> kCodecError \<Longrightarrow> j \<noteq> i \<Longrightarrow> held_by m j \<Longrightarrow> held_by n j"
  shows "cm_owned n"
proof (rule cm_ownedI)
  fix j
  assume "cw_state (cm_wrapper n) \<noteq> kCodecError" and j: "j \<in> fst ` set (cw_ids (cm_wrapper n))"
  then have e: "cw_state (cm_wrapper m) \<noteq> kCodecError" using state by simp
  have "fst ` set (cw_ids (cm_wrapper n)) \<subseteq> fst ` set (cw_ids (cm_wrapper m))"
    using ids [OF e] by (elim disjE) (simp_all add: Diff_subset)
  with own e j have m: "held_by m j" by (blast intro: cm_ownedD)
  show "held_by n j"
  proof (cases "j = i")
    case True
    with j have "cw_ids (cm_wrapper n) \<noteq> om_del i (cw_ids (cm_wrapper m))"
      by (metis DiffE om_del_keys singletonI)
    with True ids [OF e] m show ?thesis by (auto simp: held_by_def)
  next
    case False
    with e m others show ?thesis by blast
  qed
qed

lemma held_elsewhere:
  assumes "held_by m j" and "k < length (cm_buffers m)" and "ob_id (cm_buffers m ! k) \<noteq> j \<or> ob_rendered (cm_buffers m ! k)"
    and "set (cw_posted (cm_wrapper m)) \<subseteq> set (cw_posted (cm_wrapper n))"
    and "cm_buffers n = (cm_buffers m)[k := b] \<or> cm_buffers n = drop_at k (cm_buffers m)"
  shows "held_by n j"
proof (cases "j \<in> set (cw_posted (cm_wrapper m))")
  case True
  with assms(4) show ?thesis by (auto simp: held_by_def)
next
  case False
  with assms(1) obtain c where c: "c \<in> set (cm_buffers m)" "ob_id c = j" "\<not> ob_rendered c"
    by (auto simp: held_by_def)
  with assms(3) have "c \<noteq> cm_buffers m ! k" by auto
  with c assms(2,5) have "c \<in> set (cm_buffers n)" using in_list_update in_drop_at by metis
  with c show ?thesis by (auto simp: held_by_def)
qed

lemma Dequeue_owned:
  assumes "cm_owned m" and "cw_state (cm_wrapper m) \<noteq> kCodecError"
  shows "cm_owned (cm_step m (CeDequeue r))"
proof -
  let ?s = "cm_wrapper m" and ?n = "cm_step m (CeDequeue r)"
  have more: "set (cm_buffers m) \<subseteq> set (cm_buffers ?n)" "cw_posted (cm_wrapper ?n) = cw_posted ?s"
    by (cases "dr_status r"; auto simp: DequeueOutputBuffer_def Let_def)
      (cases "dr_status r"; auto simp: DequeueOutputBuffer_def Let_def)
  have new: "held_by ?n i" if "i \<in> fst ` set (cw_ids (cm_wrapper ?n))" "i \<notin> fst ` set (cw_ids ?s)" for i
    using that by (cases "dr_status r"; cases "cw_elided ?s"; cases "dr_eos r")
      (simp_all add: DequeueOutputBuffer_def Let_def held_by_def)
  show ?thesis
  proof (rule cm_ownedI)
    fix i
    assume i: "i \<in> fst ` set (cw_ids (cm_wrapper ?n))"
    show "held_by ?n i"
    proof (cases "i \<in> fst ` set (cw_ids ?s)")
      case True
      with assms have "held_by m i" by (blast intro: cm_ownedD)
      with more show ?thesis unfolding held_by_def by auto
    qed (use new i in blast)
  qed
qed

lemma cm_owns:
  assumes inv: "cm_inv m" and own: "cm_owned m" and ok: "cm_ok m e"
  shows "cm_owned (cm_step m e)"
proof -
  let ?s = "cm_wrapper m"
  have i: "cw_inv ?s" using inv by (simp add: cm_inv_def)
  note keep = keeps_ids_owned [OF own]
  show ?thesis
  proof (cases e)
    case (CeDequeue r)
    with Dequeue_owned [OF own] ok show ?thesis by (simp add: usable_def)
  next
    case (CeRender k)
    let ?b = "cm_buffers m ! k"
    have k: "k < length (cm_buffers m)" using ok CeRender by simp
    let ?n = "cm_step m (CeRender k)" and ?t = "snd (ReleaseCodecOutputBuffer True (ob_id ?b) True ?s)"
    have n: "cm_wrapper ?n = ?t" "cm_buffers ?n = (cm_buffers m)[k := ?b\<lparr>ob_rendered := True\<rparr>]"
      by (simp_all add: ReleaseToSurface_def split: prod.split)
    note t = Release_here [OF i, of True True "ob_id ?b"]
    have away: "held_by ?n j" if "cw_state ?s \<noteq> kCodecError" "ob_id ?b \<noteq> j" "held_by m j" for j
      by (rule held_elsewhere [OF that(3) k]) (use t that n in \<open>auto simp del: cm_step.simps\<close>)
    show ?thesis unfolding CeRender
    proof (rule release_owned [OF own, where i = "ob_id ?b"], goal_cases)
      case 1
      show ?case unfolding n by simp
    next
      case 2
      with t show ?case unfolding n(1) by simp
    next
      case (3 j)
      show ?case by (rule away [OF 3(1) 3(2) [symmetric] 3(3)])
    qed
  next
    case (CeDestroy k here)
    let ?b = "cm_buffers m ! k"
    have k: "k < length (cm_buffers m)" using ok CeDestroy by simp
    let ?n = "cm_step m (CeDestroy k here)" and ?t = "OutputBuffer_Destroy here ?b ?s"
    have n: "cm_wrapper ?n = ?t" "cm_buffers ?n = drop_at k (cm_buffers m)" by (simp_all add: on_wrapper_def)
    have t: "cw_state ?t = cw_state ?s" "cw_state ?s \<noteq> kCodecError \<Longrightarrow>
        ob_rendered ?b \<and> ?t = ?s \<or> cw_ids ?t = om_del (ob_id ?b) (cw_ids ?s) \<and> cw_posted ?t = cw_posted ?s \<or>
        cw_ids ?t = cw_ids ?s \<and> cw_posted ?t = cw_posted ?s @ [ob_id ?b]"
      using Release_away [OF i, of here "ob_id ?b"] by (auto simp: OutputBuffer_Destroy_def Let_def)
    have away: "held_by ?n j"
      if "cw_state ?s \<noteq> kCodecError" "ob_id ?b \<noteq> j \<or> ob_rendered ?b" "held_by m j" for j
      by (rule held_elsewhere [OF that(3) k that(2)]) (use t that(1) n in \<open>auto\<close>)
    show ?thesis unfolding CeDestroy
    proof (rule release_owned [OF own, where i = "ob_id ?b"], goal_cases)
      case 1
      show ?case unfolding n t(1) ..
    next
      case 2
      from t(2) [OF 2] away [OF 2, of "ob_id ?b"] show ?case unfolding n(1) by (elim disjE) (auto simp del: cm_step.simps)
    next
      case (3 j)
      from 3(2) have "ob_id ?b \<noteq> j \<or> ob_rendered ?b" by simp
      then show ?case by (rule away [OF 3(1) _ 3(3)])
    qed
  next
    case CePosted
    let ?p = "?s\<lparr>cw_posted := tl (cw_posted ?s)\<rparr>"
    have "cw_inv ?p" using i by (simp add: cw_inv_def)
    note rel = Release_here [OF this, of False True "hd (cw_posted ?s)"]
    have p: "set (cw_posted ?s) = insert (hd (cw_posted ?s)) (set (tl (cw_posted ?s)))"
      using ok CePosted by (cases "cw_posted ?s") auto
    show ?thesis unfolding CePosted
      by (rule release_owned [OF own, where i = "hd (cw_posted ?s)"])
        (use rel p in \<open>auto simp: on_wrapper_def held_by_def\<close>)
  qed (use ok in \<open>auto simp: usable_def intro!: keep step_keeps_ids\<close>)
qed

interpretation cm_owner: machine cm_step cm_ok "\<lambda>m. cm_inv m \<and> cm_owned m"
  using cm_refines.inv_step cm_owns by unfold_locales auto

end
