(* ===== verification/Codec_Renderer.thy ===== *)
theory Codec_Renderer
  imports Codec_Ledger
begin

text \<open>
  From a decoded buffer to the front buffer of its surface: \<open>codec_output_buffer_renderer.cc\<close>
  (the phases of a buffer), \<open>codec_buffer_wait_coordinator.cc\<close> (waiting for the frame that was
  released to the surface) and \<open>codec_image.cc\<close> (the image that the compositor sees). The
  renderers of a surface share its coordinator. Times are microseconds; the clock, and whether
  the frame arrives while a call waits, are arguments.
\<close>

section \<open>State\<close>

datatype render_phase = kInCodec | kInBackBuffer | kInFrontBuffer | kInvalidated

datatype bindings_mode = kBindImage | kDontBindImage

record renderer =
  rd_phase :: render_phase
  rd_buffer :: output_buffer
  rd_coordinator :: bool
  rd_bound :: bool

text \<open>
  \<open>SfFrame id\<close>: the surface got the frame of the buffer; \<open>SfUpdate\<close>: \<open>UpdateNativeImage\<close> takes
  what the surface holds; \<open>SfWait d\<close>: a wait of at most \<open>d\<close>; \<open>SfLate\<close>: the time for it was over.
\<close>

datatype surface_call =
    SfFrame int
  | SfUpdate
  | SfBind nat
  | SfWait int
  | SfLate
  | SfNativeBuffer

text \<open>
  A surface with its coordinator: \<open>release_time_\<close> (null is 0), the event that a frame is
  available, \<open>max_wait_\<close>, does the texture owner bind on update, and the codec whose buffers
  are rendered to it.
\<close>

record 'w surface =
  sf_release :: int
  sf_signaled :: bool
  sf_max_wait :: int
  sf_binds :: bool
  sf_codec :: "'w codec_wrapper"
  sf_calls :: "surface_call list"

definition sf_call :: "surface_call \<Rightarrow> 'w surface \<Rightarrow> 'w surface" where
  "sf_call c f = f\<lparr>sf_calls := sf_calls f @ [c]\<rparr>"

section \<open>Waiting for a frame\<close>

definition SetReleaseTimeToNow :: "int \<Rightarrow> 'w surface \<Rightarrow> 'w surface" where
  "SetReleaseTimeToNow now f = f\<lparr>sf_release := now\<rparr>"

definition IsExpectingFrameAvailable :: "'w surface \<Rightarrow> bool" where
  "IsExpectingFrameAvailable f \<longleftrightarrow> sf_release f \<noteq> 0"

text \<open>
  The event resets itself when it is found signaled. \<open>arrives\<close>: is a frame signaled within the
  time that the call waits? The result says whether the wait timed out, which is only logged.
\<close>

definition WaitForFrameAvailable :: "int \<Rightarrow> bool \<Rightarrow> 'w surface \<Rightarrow> bool \<times> 'w surface" where
  "WaitForFrameAvailable now arrives f =
     (let elapsed = now - sf_release f;
          remaining = sf_max_wait f - elapsed;
          f = f\<lparr>sf_release := 0\<rparr>
      in if remaining \<le> 0
         then (\<not> sf_signaled f, sf_call SfLate (f\<lparr>sf_signaled := False\<rparr>))
         else (\<not> (sf_signaled f \<or> arrives), sf_call (SfWait remaining) (f\<lparr>sf_signaled := False\<rparr>)))"

section \<open>The phases of a buffer\<close>

definition CodecOutputBufferRenderer :: "output_buffer \<Rightarrow> bool \<Rightarrow> renderer" where
  "CodecOutputBufferRenderer b coordinator =
     \<lparr>rd_phase = kInCodec, rd_buffer = b, rd_coordinator = coordinator, rd_bound = False\<rparr>"

definition RenderToTextureOwnerBackBuffer ::
  "int \<Rightarrow> renderer \<Rightarrow> 'w surface \<Rightarrow> bool \<times> renderer \<times> 'w surface" where
  "RenderToTextureOwnerBackBuffer now r f =
     (if rd_phase r = kInBackBuffer then (True, r, f)
      else if rd_phase r = kInvalidated then (False, r, f)
      else if \<not> rd_coordinator r then (False, r, f)
      else if IsExpectingFrameAvailable f then (False, r, f)
      else
        let (released, b, w) = ReleaseToSurface (rd_buffer r) (sf_codec f);
            r = r\<lparr>rd_buffer := b\<rparr>;
            f = f\<lparr>sf_codec := w\<rparr>
        in if \<not> released then (False, r\<lparr>rd_phase := kInvalidated\<rparr>, f)
           else (True, r\<lparr>rd_phase := kInBackBuffer\<rparr>,
                 SetReleaseTimeToNow now (sf_call (SfFrame (ob_id b)) f)))"

definition EnsureBoundIfNeeded ::
  "bindings_mode \<Rightarrow> nat \<Rightarrow> renderer \<Rightarrow> 'w surface \<Rightarrow> renderer \<times> 'w surface" where
  "EnsureBoundIfNeeded mode service_id r f =
     (if mode = kBindImage then (r\<lparr>rd_bound := True\<rparr>, sf_call (SfBind service_id) f) else (r, f))"

text \<open>The times at which one rendering calls, and whether frames arrive.\<close>

record render_env =
  re_before :: int
  re_before_arrives :: bool
  re_release :: int
  re_after :: int
  re_after_arrives :: bool

definition RenderToTextureOwnerFrontBuffer ::
  "bindings_mode \<Rightarrow> nat \<Rightarrow> render_env \<Rightarrow> renderer \<Rightarrow> 'w surface \<Rightarrow> bool \<times> renderer \<times> 'w surface" where
  "RenderToTextureOwnerFrontBuffer mode service_id e r f =
     (if \<not> rd_coordinator r then (False, r, f)
      else if rd_phase r = kInFrontBuffer
      then case EnsureBoundIfNeeded mode service_id r f of (r, f) \<Rightarrow> (True, r, f)
      else if rd_phase r = kInvalidated then (False, r, f)
      else
        let (ok, r, f) =
              (if rd_phase r \<noteq> kInBackBuffer
               then let f = (if IsExpectingFrameAvailable f
                             then sf_call SfUpdate (snd (WaitForFrameAvailable (re_before e) (re_before_arrives e) f))
                             else f)
                    in RenderToTextureOwnerBackBuffer (re_release e) r f
               else (True, r, f))
        in if \<not> ok then (False, r, f)
           else
             let r = r\<lparr>rd_phase := kInFrontBuffer\<rparr>;
                 f = (if IsExpectingFrameAvailable f
                      then snd (WaitForFrameAvailable (re_after e) (re_after_arrives e) f) else f);
                 f = sf_call SfUpdate f;
                 r = (if sf_binds f then r\<lparr>rd_bound := True\<rparr> else r)
             in case EnsureBoundIfNeeded mode service_id r f of (r, f) \<Rightarrow> (True, r, f))"

definition RenderToFrontBuffer ::
  "render_env \<Rightarrow> renderer \<Rightarrow> 'w surface \<Rightarrow> bool \<times> renderer \<times> 'w surface" where
  "RenderToFrontBuffer e r f = RenderToTextureOwnerFrontBuffer kDontBindImage 0 e r f"

definition RenderVideoView :: "renderer \<Rightarrow> bool" where
  "RenderVideoView r = ob_view (rd_buffer r)"

text \<open>The buffer goes with the renderer.\<close>

definition Renderer_Destroy :: "bool \<Rightarrow> renderer \<Rightarrow> 'w surface \<Rightarrow> 'w surface" where
  "Renderer_Destroy here r f = f\<lparr>sf_codec := OutputBuffer_Destroy here (rd_buffer r) (sf_codec f)\<rparr>"

section \<open>Images\<close>

record codec_image =
  ci_renderer :: "renderer option"
  ci_backed :: bool
  ci_unused :: "nat list"

definition CodecImage :: codec_image where
  "CodecImage = \<lparr>ci_renderer = None, ci_backed = False, ci_unused = []\<rparr>"

definition Image_Initialize :: "renderer \<Rightarrow> bool \<Rightarrow> codec_image \<Rightarrow> codec_image" where
  "Image_Initialize r backed i = i\<lparr>ci_renderer := Some r, ci_backed := backed\<rparr>"

definition AddUnusedCB :: "nat \<Rightarrow> codec_image \<Rightarrow> codec_image" where
  "AddUnusedCB cb i = i\<lparr>ci_unused := ci_unused i @ [cb]\<rparr>"

definition ReleaseCodecBuffer :: "bool \<Rightarrow> codec_image \<Rightarrow> 'w surface \<Rightarrow> codec_image \<times> 'w surface" where
  "ReleaseCodecBuffer here i f =
     (case ci_renderer i of
        None \<Rightarrow> (i, f)
      | Some r \<Rightarrow> (i\<lparr>ci_renderer := None\<rparr>, Renderer_Destroy here r f))"

text \<open>The first result is the callbacks that run, in order.\<close>

definition NotifyUnused ::
  "bool \<Rightarrow> codec_image \<Rightarrow> 'w surface \<Rightarrow> nat list \<times> codec_image \<times> 'w surface" where
  "NotifyUnused here i f =
     (case ReleaseCodecBuffer here i f of
        (i, f) \<Rightarrow> (ci_unused i, i\<lparr>ci_unused := []\<rparr>, f))"

definition ReleaseResources :: "bool \<Rightarrow> codec_image \<Rightarrow> 'w surface \<Rightarrow> codec_image \<times> 'w surface" where
  "ReleaseResources here i f = ReleaseCodecBuffer here i f"

definition IsUsingGpuMemory :: "codec_image \<Rightarrow> bool" where
  "IsUsingGpuMemory i = (case ci_renderer i of None \<Rightarrow> False | Some r \<Rightarrow> rd_bound r)"

definition HasTextureOwner :: "codec_image \<Rightarrow> bool" where
  "HasTextureOwner i = (case ci_renderer i of None \<Rightarrow> False | Some r \<Rightarrow> rd_coordinator r)"

definition was_rendered_to_front_buffer :: "codec_image \<Rightarrow> bool" where
  "was_rendered_to_front_buffer i =
     (case ci_renderer i of None \<Rightarrow> False | Some r \<Rightarrow> rd_phase r = kInFrontBuffer)"

text \<open>The guard that every rendering of an image starts with.\<close>

definition with_renderer ::
  "(renderer \<Rightarrow> 'w surface \<Rightarrow> bool \<times> renderer \<times> 'w surface) \<Rightarrow> codec_image \<Rightarrow> 'w surface \<Rightarrow>
   bool \<times> codec_image \<times> 'w surface" where
  "with_renderer render i f =
     (case ci_renderer i of
        None \<Rightarrow> (False, i, f)
      | Some r \<Rightarrow> case render r f of (ok, r, f) \<Rightarrow> (ok, i\<lparr>ci_renderer := Some r\<rparr>, f))"

definition Image_RenderToFrontBuffer ::
  "render_env \<Rightarrow> codec_image \<Rightarrow> 'w surface \<Rightarrow> bool \<times> codec_image \<times> 'w surface" where
  "Image_RenderToFrontBuffer e = with_renderer (RenderToFrontBuffer e)"

definition Image_RenderToTextureOwnerBackBuffer ::
  "int \<Rightarrow> codec_image \<Rightarrow> 'w surface \<Rightarrow> bool \<times> codec_image \<times> 'w surface" where
  "Image_RenderToTextureOwnerBackBuffer now = with_renderer (RenderToTextureOwnerBackBuffer now)"

definition Image_RenderToTextureOwnerFrontBuffer ::
  "bindings_mode \<Rightarrow> nat \<Rightarrow> render_env \<Rightarrow> codec_image \<Rightarrow> 'w surface \<Rightarrow> bool \<times> codec_image \<times> 'w surface" where
  "Image_RenderToTextureOwnerFrontBuffer mode service_id e =
     with_renderer (RenderToTextureOwnerFrontBuffer mode service_id e)"

definition UpdateAndBindTexImage ::
  "nat \<Rightarrow> render_env \<Rightarrow> codec_image \<Rightarrow> 'w surface \<Rightarrow> codec_image \<times> 'w surface" where
  "UpdateAndBindTexImage service_id e i f =
     snd (Image_RenderToTextureOwnerFrontBuffer kBindImage service_id e i f)"

text \<open>The texture owner is asked whatever the rendering came to.\<close>

definition GetNativeBuffer :: "render_env \<Rightarrow> codec_image \<Rightarrow> 'w surface \<Rightarrow> bool \<times> codec_image \<times> 'w surface" where
  "GetNativeBuffer e i f =
     (if ci_renderer i = None then (False, i, f)
      else case Image_RenderToTextureOwnerFrontBuffer kDontBindImage 0 e i f of
             (_, i, f) \<Rightarrow> (True, i, sf_call SfNativeBuffer f))"

section \<open>The surface as a slot for one frame\<close>

text \<open>
  What a surface can take: a frame when the last one has been taken, and a wait only for a frame
  that is on its way, no longer than the bound. The abstract state is whether a frame is on its
  way, and the bound.
\<close>

fun one_slot :: "surface_call \<Rightarrow> bool \<times> int \<Rightarrow> (bool \<times> int) option" where
  "one_slot (SfFrame i) (full, bound) = (if full then None else Some (True, bound))"
| "one_slot SfUpdate (full, bound) = Some (False, bound)"
| "one_slot (SfWait d) (full, bound) = (if full \<and> 0 < d \<and> d \<le> bound then Some (full, bound) else None)"
| "one_slot SfLate (full, bound) = (if full then Some (full, bound) else None)"
| "one_slot _ (full, bound) = Some (full, bound)"

record 'w surface_machine =
  sm_surface :: "'w surface"
  sm_images :: "codec_image list"

definition surface_start :: "int \<Rightarrow> bool \<Rightarrow> 'w codec_wrapper \<Rightarrow> 'w surface_machine" where
  "surface_start max_wait binds w =
     \<lparr>sm_surface = \<lparr>sf_release = 0, sf_signaled = False, sf_max_wait = max_wait, sf_binds = binds,
                    sf_codec = w, sf_calls = []\<rparr>,
      sm_images = []\<rparr>"

text \<open>
  \<open>SeImage\<close>: an image is made for an output buffer; \<open>SeCodec\<close>: the codec goes on, in whatever
  way; \<open>SeSignal\<close>: the surface says that a frame is available.
\<close>

datatype 'w surface_event =
    SeImage output_buffer
  | SeFront nat render_env
  | SeBack nat int
  | SeBind nat nat render_env
  | SeNative nat render_env
  | SeUnused nat bool
  | SeSignal
  | SeCodec "'w codec_wrapper"

definition put_image :: "nat \<Rightarrow> codec_image \<times> 'w surface \<Rightarrow> 'w surface_machine \<Rightarrow> 'w surface_machine" where
  "put_image k r m = m\<lparr>sm_images := (sm_images m)[k := fst r], sm_surface := snd r\<rparr>"

fun sm_step :: "'w surface_machine \<Rightarrow> 'w surface_event \<Rightarrow> 'w surface_machine" where
  "sm_step m (SeImage b) =
     m\<lparr>sm_images := sm_images m @ [Image_Initialize (CodecOutputBufferRenderer b True) True CodecImage]\<rparr>"
| "sm_step m (SeFront k e) = put_image k (snd (Image_RenderToFrontBuffer e (sm_images m ! k) (sm_surface m))) m"
| "sm_step m (SeBack k now) = put_image k (snd (Image_RenderToTextureOwnerBackBuffer now (sm_images m ! k) (sm_surface m))) m"
| "sm_step m (SeBind k i e) = put_image k (UpdateAndBindTexImage i e (sm_images m ! k) (sm_surface m)) m"
| "sm_step m (SeNative k e) = put_image k (snd (GetNativeBuffer e (sm_images m ! k) (sm_surface m))) m"
| "sm_step m (SeUnused k here) = put_image k (snd (NotifyUnused here (sm_images m ! k) (sm_surface m))) m"
| "sm_step m SeSignal = m\<lparr>sm_surface := (sm_surface m)\<lparr>sf_signaled := True\<rparr>\<rparr>"
| "sm_step m (SeCodec w) = m\<lparr>sm_surface := (sm_surface m)\<lparr>sf_codec := w\<rparr>\<rparr>"

text \<open>The clock goes forward from a time that is not null; an image that renders exists.\<close>

definition clock_ok :: "render_env \<Rightarrow> 'w surface \<Rightarrow> bool" where
  "clock_ok e f \<longleftrightarrow> 0 < re_before e \<and> sf_release f \<le> re_before e \<and> re_before e \<le> re_release e \<and> re_release e \<le> re_after e"

fun sm_ok :: "'w surface_machine \<Rightarrow> 'w surface_event \<Rightarrow> bool" where
  "sm_ok m (SeFront k e) = (k < length (sm_images m) \<and> clock_ok e (sm_surface m))"
| "sm_ok m (SeBack k now) = (k < length (sm_images m) \<and> 0 < now)"
| "sm_ok m (SeBind k i e) = (k < length (sm_images m) \<and> clock_ok e (sm_surface m))"
| "sm_ok m (SeNative k e) = (k < length (sm_images m) \<and> clock_ok e (sm_surface m))"
| "sm_ok m (SeUnused k here) = (k < length (sm_images m))"
| "sm_ok m _ = True"

definition slot_of :: "'w surface \<Rightarrow> bool \<times> int" where
  "slot_of f = (IsExpectingFrameAvailable f, sf_max_wait f)"

text \<open>What every rendering keeps to.\<close>

definition slots :: "'w surface \<Rightarrow> 'w surface \<Rightarrow> bool" where
  "slots f g \<longleftrightarrow> (\<exists>cs. sf_calls g = sf_calls f @ cs \<and> replay one_slot cs (slot_of f) = Some (slot_of g))"

lemma slots_refl [simp]: "slots f f"
  unfolding slots_def by (intro exI [of _ "[]"]) simp

lemma slots_trans: "slots f g \<Longrightarrow> slots g h \<Longrightarrow> slots f h"
  unfolding slots_def by (elim exE) (rule_tac x = "cs @ csa" in exI, simp)

lemma slots_quiet: "sf_calls g = sf_calls f \<Longrightarrow> slot_of g = slot_of f \<Longrightarrow> slots f g"
  unfolding slots_def by (intro exI [of _ "[]"]) simp

lemma slots_calls: "sf_calls g = sf_calls f @ cs \<Longrightarrow> replay one_slot cs (slot_of f) = Some (slot_of g) \<Longrightarrow> slots f g"
  by (auto simp: slots_def)

lemmas slot_simps = slot_of_def sf_call_def IsExpectingFrameAvailable_def SetReleaseTimeToNow_def

lemma slots_bind: "slots f (snd (EnsureBoundIfNeeded mode i r f))"
proof (cases mode)
  case kBindImage
  then show ?thesis by (intro slots_calls [of _ _ "[SfBind i]"]) (simp_all add: EnsureBoundIfNeeded_def slot_simps)
qed (simp add: EnsureBoundIfNeeded_def)

text \<open>A frame that is on its way is waited for and taken.\<close>

lemma slots_take:
  assumes "sf_release f \<le> now"
  shows "slots f (sf_call SfUpdate (if IsExpectingFrameAvailable f then snd (WaitForFrameAvailable now arrives f) else f))"
proof (cases "IsExpectingFrameAvailable f")
  case True
  let ?d = "sf_max_wait f - (now - sf_release f)"
  have "slots f (sf_call SfUpdate (snd (WaitForFrameAvailable now arrives f)))"
    by (rule slots_calls [of _ _ "[if ?d \<le> 0 then SfLate else SfWait ?d, SfUpdate]"])
      (use True assms in \<open>simp_all add: WaitForFrameAvailable_def Let_def slot_simps\<close>)
  with True show ?thesis by simp
next
  case False
  then show ?thesis by (intro slots_calls [of _ _ "[SfUpdate]"]) (simp_all add: slot_simps)
qed

lemma slots_back:
  assumes "0 < now"
  shows "slots f (snd (snd (RenderToTextureOwnerBackBuffer now r f)))"
proof -
  let ?w = "snd (ReleaseCodecOutputBuffer True (ob_id (rd_buffer r)) True (sf_codec f))"
  have "slots f (SetReleaseTimeToNow now (sf_call (SfFrame i) (f\<lparr>sf_codec := ?w\<rparr>)))" if "\<not> IsExpectingFrameAvailable f" for i
    by (rule slots_calls [of _ _ "[SfFrame i]"]) (use that assms in \<open>simp_all add: slot_simps\<close>)
  moreover have "slots f (f\<lparr>sf_codec := ?w\<rparr>)"
    by (rule slots_quiet) (simp_all add: slot_of_def IsExpectingFrameAvailable_def)
  ultimately show ?thesis by (simp add: RenderToTextureOwnerBackBuffer_def ReleaseToSurface_eq Let_def)
qed

lemma back_release:
  "sf_release (snd (snd (RenderToTextureOwnerBackBuffer now r f))) \<in> {sf_release f, now}"
  by (simp add: RenderToTextureOwnerBackBuffer_def ReleaseToSurface_eq Let_def SetReleaseTimeToNow_def sf_call_def)

lemma take_release:
  "sf_release (sf_call SfUpdate (if IsExpectingFrameAvailable f then snd (WaitForFrameAvailable now arrives f) else f)) = 0"
  by (simp add: WaitForFrameAvailable_def Let_def slot_simps)

text \<open>The second half of a rendering to the front: the frame that the surface has is taken.\<close>

definition to_front :: "bindings_mode \<Rightarrow> nat \<Rightarrow> render_env \<Rightarrow> renderer \<Rightarrow> 'w surface \<Rightarrow> renderer \<times> 'w surface" where
  "to_front mode i e r f =
     (let f = sf_call SfUpdate (if IsExpectingFrameAvailable f
                                then snd (WaitForFrameAvailable (re_after e) (re_after_arrives e) f) else f)
      in EnsureBoundIfNeeded mode i (r\<lparr>rd_phase := kInFrontBuffer, rd_bound := sf_binds f \<or> rd_bound r\<rparr>) f)"

text \<open>The first half: the frame that another buffer has on its way is taken, then ours is released.\<close>

definition to_back :: "render_env \<Rightarrow> renderer \<Rightarrow> 'w surface \<Rightarrow> bool \<times> renderer \<times> 'w surface" where
  "to_back e r f =
     RenderToTextureOwnerBackBuffer (re_release e) r
       (if IsExpectingFrameAvailable f
        then sf_call SfUpdate (snd (WaitForFrameAvailable (re_before e) (re_before_arrives e) f)) else f)"

lemma front_halves:
  "rd_coordinator r \<Longrightarrow> rd_phase r = kInBackBuffer \<Longrightarrow>
     RenderToTextureOwnerFrontBuffer mode i e r f = (True, to_front mode i e r f)"
  "rd_coordinator r \<Longrightarrow> rd_phase r = kInCodec \<Longrightarrow>
     RenderToTextureOwnerFrontBuffer mode i e r f =
       (case to_back e r f of (ok, r, f) \<Rightarrow> if ok then (True, to_front mode i e r f) else (False, r, f))"
  by (simp_all add: RenderToTextureOwnerFrontBuffer_def to_front_def to_back_def Let_def sf_call_def
      WaitForFrameAvailable_def split: prod.split)

lemma slots_to_front: "sf_release f \<le> re_after e \<Longrightarrow> slots f (snd (to_front mode i e r f))"
  unfolding to_front_def Let_def by (rule slots_trans [OF slots_take slots_bind])

lemma slots_to_back:
  assumes "clock_ok e f"
  shows "slots f (snd (snd (to_back e r f)))" "sf_release (snd (snd (to_back e r f))) \<le> re_after e"
proof -
  let ?g = "if IsExpectingFrameAvailable f
    then sf_call SfUpdate (snd (WaitForFrameAvailable (re_before e) (re_before_arrives e) f)) else f"
  have g: "slots f ?g" "sf_release ?g = 0"
    using slots_take [of f "re_before e" "re_before_arrives e"] take_release [of f "re_before e" "re_before_arrives e"] assms
    by (auto simp: clock_ok_def slot_simps split: if_splits)
  have pos: "0 < re_release e" using assms by (simp add: clock_ok_def)
  show "slots f (snd (snd (to_back e r f)))"
    unfolding to_back_def by (rule slots_trans [OF g(1) slots_back [OF pos]])
  show "sf_release (snd (snd (to_back e r f))) \<le> re_after e"
    using back_release [of "re_release e" r ?g] g(2) assms unfolding to_back_def by (auto simp: clock_ok_def)
qed

lemma slots_front:
  assumes e: "clock_ok e f"
  shows "slots f (snd (snd (RenderToTextureOwnerFrontBuffer mode i e r f)))"
proof (cases "rd_coordinator r \<and> rd_phase r \<noteq> kInFrontBuffer \<and> rd_phase r \<noteq> kInvalidated")
  case False
  then show ?thesis
    using slots_bind [of f mode i r] by (auto simp: RenderToTextureOwnerFrontBuffer_def split: prod.split)
next
  case True
  then consider (behind) "rd_phase r = kInBackBuffer" | (codec) "rd_phase r = kInCodec" by (cases "rd_phase r") auto
  then show ?thesis
  proof cases
    case behind
    with True e show ?thesis by (simp add: front_halves slots_to_front clock_ok_def)
  next
    case codec
    obtain b r' g where b: "to_back e r f = (b, r', g)" by (metis prod_cases3)
    have g: "slots f g" "sf_release g \<le> re_after e" using slots_to_back [OF e, of r] b by simp_all
    have "slots f (snd (to_front mode i e r' g))" by (rule slots_trans [OF g(1) slots_to_front [OF g(2)]])
    with True codec b g show ?thesis by (simp add: front_halves)
  qed
qed

lemma slots_with_renderer:
  assumes "\<And>r. slots f (snd (snd (render r f)))"
  shows "slots f (snd (snd (with_renderer render i f)))"
  using assms by (simp add: with_renderer_def split: option.split prod.split) (metis snd_conv)

definition sm_calls :: "'w surface_machine \<Rightarrow> surface_call list" where
  "sm_calls m = sf_calls (sm_surface m)"

lemma sm_slots:
  assumes "sm_ok m e"
  shows "slots (sm_surface m) (sm_surface (sm_step m e))"
proof (cases e)
  case (SeFront k v)
  with assms show ?thesis
    by (simp add: put_image_def Image_RenderToFrontBuffer_def RenderToFrontBuffer_def slots_with_renderer slots_front)
next
  case (SeBack k now)
  with assms show ?thesis
    by (simp add: put_image_def Image_RenderToTextureOwnerBackBuffer_def slots_with_renderer slots_back)
next
  case (SeBind k i v)
  with assms show ?thesis
    by (simp add: put_image_def UpdateAndBindTexImage_def Image_RenderToTextureOwnerFrontBuffer_def slots_with_renderer slots_front)
next
  case (SeNative k v)
  let ?f = "sm_surface m"
  let ?g = "snd (snd (Image_RenderToTextureOwnerFrontBuffer kDontBindImage 0 v (sm_images m ! k) ?f))"
  have "slots ?f ?g" using SeNative assms
    by (simp add: Image_RenderToTextureOwnerFrontBuffer_def slots_with_renderer slots_front)
  moreover have "slots g (sf_call SfNativeBuffer g)" for g :: "'a surface"
    by (rule slots_calls [of _ _ "[SfNativeBuffer]"]) (simp_all add: slot_simps)
  ultimately have "slots ?f (sf_call SfNativeBuffer ?g)" by (rule slots_trans)
  with SeNative show ?thesis by (simp add: put_image_def GetNativeBuffer_def case_prod_beta)
next
  case (SeUnused k here)
  have "slots f (f\<lparr>sf_codec := w\<rparr>)" for w and f :: "'a surface" by (rule slots_quiet) (simp_all add: slot_simps)
  with SeUnused show ?thesis
    by (simp add: put_image_def NotifyUnused_def ReleaseCodecBuffer_def Renderer_Destroy_def split: option.split)
qed (auto intro!: slots_quiet simp: slot_simps)

interpretation sm_refines: refinement sm_step sm_ok "\<lambda>_. True" sm_calls one_slot "\<lambda>m. slot_of (sm_surface m)"
proof unfold_locales
  fix m :: "'a surface_machine" and e
  assume "sm_ok m e"
  then show "\<exists>cs. sm_calls (sm_step m e) = sm_calls m @ cs \<and>
      replay one_slot cs (slot_of (sm_surface m)) = Some (slot_of (sm_surface (sm_step m e)))"
    using sm_slots [of m e] by (simp add: slots_def sm_calls_def)
qed simp

text \<open>
  What a rendering to the front answers: with a coordinator it fails only for a buffer that the
  codec has taken back, which is what \<open>DCHECK(phase_ == Phase::kInvalidated)\<close> says.
\<close>

lemma front_outcome:
  assumes "rd_coordinator r" and "RenderToTextureOwnerFrontBuffer mode i e r f = (ok, r', f')"
  shows "rd_phase r' = (if ok then kInFrontBuffer else kInvalidated)"
proof -
  have bind: "rd_phase (fst (EnsureBoundIfNeeded mode i s g)) = rd_phase s" for s and g :: "'a surface"
    by (simp add: EnsureBoundIfNeeded_def)
  have front: "rd_phase (fst (to_front mode i e s g)) = kInFrontBuffer" for s and g :: "'a surface"
    by (simp add: to_front_def Let_def bind)
  show ?thesis
  proof (cases "rd_phase r")
    case kInCodec
    obtain b s g where b: "to_back e r f = (b, s, g)" by (metis prod_cases3)
    have "b \<or> rd_phase s = kInvalidated"
    proof -
      let ?g = "if IsExpectingFrameAvailable f
        then sf_call SfUpdate (snd (WaitForFrameAvailable (re_before e) (re_before_arrives e) f)) else f"
      have "\<not> IsExpectingFrameAvailable ?g"
        by (simp add: slot_simps WaitForFrameAvailable_def Let_def)
      with b assms(1) kInCodec show ?thesis
        by (auto simp: to_back_def RenderToTextureOwnerBackBuffer_def ReleaseToSurface_eq Let_def split: if_splits)
    qed
    with assms kInCodec b front [of s g] show ?thesis by (auto simp: front_halves split: if_splits)
  next
    case kInBackBuffer
    with assms front [of r f] show ?thesis by (auto simp: front_halves)
  qed (use assms bind [of r f] in \<open>auto simp: RenderToTextureOwnerFrontBuffer_def split: prod.splits\<close>)
qed

end
