(* ===== verification/Video_Decoder.thy ===== *)
theory Video_Decoder
  imports Codec_Ledger
begin

text \<open>
  \<open>ohos_video_decoder.cc\<close>: the decoder that a media pipeline drives. It queues what the client
  asks to decode, pumps the queue into the codec wrapper and the buffers of the codec to the
  frame factory, and answers every request. What others answer (the codec, the factory, the
  allocator, the key system) is an argument of the operation that asks or of the event that
  delivers the answer. Callbacks are numbered; the calls the decoder makes are a log. The
  client's callbacks do not call the decoder back while it runs one.
\<close>

section \<open>State\<close>

datatype decoder_status =
    DsOk | DsFailed | DsAborted | DsUnsupportedConfig | DsCantChangeCodec | DsUnsupportedEncryptionMode

datatype video_codec = kH264 | kHEVC | kVP8 | kOtherCodec

record video_config =
  vg_valid :: bool
  vg_codec :: video_codec
  vg_size :: "int \<times> int"
  vg_encrypted :: bool

datatype decoder_state = VdInitializing | VdRunning | VdError | VdSurfaceDestroyed

datatype drain_type = kForReset | kForDestroy

datatype 'w video_call =
    VcInit nat decoder_status
  | VcDecoded nat decoder_status
  | VcReset nat
  | VcWaiting
  | VcOutput
  | VcCreateFrame int "int \<times> int"
  | VcFactoryInit
  | VcFactorySurface "'w option"
  | VcPip bool
  | VcCreateCodec
  | VcReleaseCodec
  | VcDeleteSoon

text \<open>
  A pending decode is the end-of-stream flag of its buffer and its callback; \<open>DoNothing\<close> is no
  number. \<open>vd_creations\<close> are the codecs under creation, with the surface and whether the weak
  pointer of the request is still good; \<open>vd_after\<close> and \<open>vd_frames\<close> hold the generations that
  the callbacks given to the frame factory carry; \<open>vd_retired\<close> are the wrappers that are gone
  but for their output buffers.
\<close>

record 'w video_decoder =
  vd_state :: decoder_state
  vd_lazy_init :: bool
  vd_pending :: "(bool \<times> nat option) list"
  vd_drain :: "drain_type option"
  vd_reset_cb :: "nat option"
  vd_generation :: int
  vd_eos_cb :: "nat option option"
  vd_config :: video_config
  vd_codec :: "'w codec_machine option"
  vd_target :: "'w option"
  vd_texture :: "'w option"
  vd_deferred_flush :: bool
  vd_deferred_realloc :: bool
  vd_last_width :: int
  vd_surface_id :: int
  vd_crypto :: bool
  vd_ready_cb :: "nat option"
  vd_secure :: bool
  vd_waiting_key :: bool
  vd_session :: "int option"
  vd_alive :: bool
  vd_factory_pending :: bool
  vd_creations :: "('w option \<times> bool) list"
  vd_after :: "int list"
  vd_frames :: "int list"
  vd_retired :: "'w codec_machine list"
  vd_log :: "'w video_call list"

definition no_config :: video_config where
  "no_config = \<lparr>vg_valid = False, vg_codec = kOtherCodec, vg_size = (0, 0), vg_encrypted = False\<rparr>"

definition OhosVideoDecoder :: "'w video_decoder" where
  "OhosVideoDecoder =
     \<lparr>vd_state = VdInitializing, vd_lazy_init = True, vd_pending = [], vd_drain = None,
      vd_reset_cb = None, vd_generation = 0, vd_eos_cb = None, vd_config = no_config,
      vd_codec = None, vd_target = None, vd_texture = None, vd_deferred_flush = False,
      vd_deferred_realloc = False, vd_last_width = 0, vd_surface_id = -1, vd_crypto = False,
      vd_ready_cb = None, vd_secure = False, vd_waiting_key = False, vd_session = None,
      vd_alive = True, vd_factory_pending = False, vd_creations = [], vd_after = [],
      vd_frames = [], vd_retired = [], vd_log = []\<rparr>"

definition vd_call :: "'w video_call \<Rightarrow> 'w video_decoder \<Rightarrow> 'w video_decoder" where
  "vd_call c s = s\<lparr>vd_log := vd_log s @ [c]\<rparr>"

definition run_decode_cb :: "nat option \<Rightarrow> decoder_status \<Rightarrow> 'w video_decoder \<Rightarrow> 'w video_decoder" where
  "run_decode_cb cb status s = (case cb of None \<Rightarrow> s | Some t \<Rightarrow> vd_call (VcDecoded t status) s)"

definition put_wrapper :: "'w codec_wrapper \<Rightarrow> 'w video_decoder \<Rightarrow> 'w video_decoder" where
  "put_wrapper w s = s\<lparr>vd_codec := map_option (\<lambda>m. m\<lparr>cm_wrapper := w\<rparr>) (vd_codec s)\<rparr>"

text \<open>\<open>weak_factory_.InvalidateWeakPtrs\<close> of the factory for the allocator's callbacks.\<close>

definition invalidate_creations :: "'w video_decoder \<Rightarrow> 'w video_decoder" where
  "invalidate_creations s = s\<lparr>vd_creations := map (\<lambda>(w, _). (w, False)) (vd_creations s)\<rparr>"

section \<open>Codec creation and release\<close>

definition CreateCodec :: "'w video_decoder \<Rightarrow> 'w video_decoder" where
  "CreateCodec s =
     (let s = vd_call (VcFactorySurface (vd_target s)) s
      in vd_call VcCreateCodec (s\<lparr>vd_creations := vd_creations s @ [(vd_target s, True)]\<rparr>))"

definition ReleaseCodec :: "'w video_decoder \<Rightarrow> 'w video_decoder" where
  "ReleaseCodec s =
     (case vd_codec s of
        None \<Rightarrow> s
      | Some m \<Rightarrow>
          let (_, w) = TakeCodecSurfacePair (cm_wrapper m)
          in vd_call VcReleaseCodec
               (s\<lparr>vd_codec := None, vd_retired := vd_retired s @ [m\<lparr>cm_wrapper := w\<rparr>]\<rparr>))"

definition CancelPendingDecodes :: "decoder_status \<Rightarrow> 'w video_decoder \<Rightarrow> 'w video_decoder" where
  "CancelPendingDecodes status s =
     (let s = (fold (\<lambda>(_, cb). run_decode_cb cb status) (vd_pending s) s)\<lparr>vd_pending := []\<rparr>
      in case vd_eos_cb s of
           None \<Rightarrow> s
         | Some cb \<Rightarrow> run_decode_cb cb status (s\<lparr>vd_eos_cb := None\<rparr>))"

text \<open>\<open>*drain_type_\<close> is read, so one is set. \<open>flush\<close> is \<open>FlushCodec\<close>, which is below.\<close>

definition OnCodecDrained ::
  "('w video_decoder \<Rightarrow> 'w video_decoder) \<Rightarrow> 'w video_decoder \<Rightarrow> 'w video_decoder" where
  "OnCodecDrained flush s =
     (let drain = the (vd_drain s);
          s = s\<lparr>vd_drain := None\<rparr>
      in if drain = kForDestroy then vd_call VcDeleteSoon s
         else let s = (case vd_reset_cb s of
                         None \<Rightarrow> s
                       | Some t \<Rightarrow> vd_call (VcReset t) (s\<lparr>vd_reset_cb := None\<rparr>))
              in case vd_codec s of
                   None \<Rightarrow> s
                 | Some m \<Rightarrow>
                     if \<not> IsFlushed (cm_wrapper m) \<and> \<not> IsDrained (cm_wrapper m) \<and> \<not> vd_deferred_flush s
                     then flush s else s)"

text \<open>
  The codec is released before \<open>OnCodecDrained\<close> runs, which therefore does not flush
  (\<open>EnterTerminalState_drains\<close>).
\<close>

definition EnterTerminalState :: "decoder_state \<Rightarrow> 'w video_decoder \<Rightarrow> 'w video_decoder" where
  "EnterTerminalState state s =
     (let s = ReleaseCodec (invalidate_creations (s\<lparr>vd_state := state\<rparr>));
          s = s\<lparr>vd_target := None, vd_texture := None\<rparr>;
          s = (if state = VdError then CancelPendingDecodes DsFailed s else s)
      in if vd_drain s \<noteq> None then OnCodecDrained id s else s)"

definition FlushCodec :: "decoder_code \<Rightarrow> 'w video_decoder \<Rightarrow> 'w video_decoder" where
  "FlushCodec code s =
     (let s = s\<lparr>vd_deferred_flush := False\<rparr>;
          s = (if vd_deferred_realloc s then CreateCodec (ReleaseCodec (s\<lparr>vd_deferred_realloc := False\<rparr>)) else s)
      in case vd_codec s of
           None \<Rightarrow> s
         | Some m \<Rightarrow>
             if IsFlushed (cm_wrapper m) then s
             else let (flushed, w) = Codec_Flush code (cm_wrapper m);
                      s = put_wrapper w s
                  in if flushed then s else EnterTerminalState VdError s)"

section \<open>Pumping the codec\<close>

text \<open>What the codec answers in one turn of the pump. Once it has no more to say, it says \<open>RETRY\<close>.\<close>

record codec_reply =
  cr_queue :: decoder_code
  cr_flush :: decoder_code
  cr_dequeue :: dequeue_reply

definition retry_reply :: codec_reply where
  "retry_reply = \<lparr>cr_queue = DECODER_RETRY, cr_flush = DECODER_OK,
     cr_dequeue = \<lparr>dr_status = DECODER_RETRY, dr_index = 0, dr_eos = False,
                   dr_format_status = DECODER_OK, dr_format = (0, 0)\<rparr>\<rparr>"

definition reply_of :: "codec_reply list \<Rightarrow> codec_reply" where
  "reply_of rs = (case rs of [] \<Rightarrow> retry_reply | r # _ \<Rightarrow> r)"

definition QueueInput :: "codec_reply \<Rightarrow> 'w video_decoder \<Rightarrow> bool \<times> 'w video_decoder" where
  "QueueInput r s =
     (case vd_codec s of
        None \<Rightarrow> (False, s)
      | Some m \<Rightarrow>
          if vd_waiting_key s then (False, s)
          else if IsDrained (cm_wrapper m) \<or> vd_deferred_flush s
          then if vd_pending s \<noteq> [] then (True, FlushCodec (cr_flush r) s) else (False, s)
          else case vd_pending s of
            [] \<Rightarrow> (False, s)
          | (eos, cb) # rest \<Rightarrow>
              let (status, w) = QueueInputBuffer eos (cr_queue r) (cm_wrapper m);
                  s = put_wrapper w s
              in case status of
                   QkTryAgainLater \<Rightarrow> (False, s)
                 | QkNoKey \<Rightarrow> (False, vd_call VcWaiting (s\<lparr>vd_waiting_key := True\<rparr>))
                 | QkError \<Rightarrow> (False, EnterTerminalState VdError s)
                 | QkOk \<Rightarrow>
                     let s = (if eos then s\<lparr>vd_eos_cb := Some cb\<rparr> else run_decode_cb cb DsOk s)
                     in (True, s\<lparr>vd_pending := rest\<rparr>))"

definition area :: "int \<times> int \<Rightarrow> int" where
  "area d = fst d * snd d"

text \<open>
  A frame for the client; the output buffer belongs to the frame from then on. Without one
  (\<open>kOk\<close> and no end of stream always comes with one) there would be nothing to do.
\<close>

definition DequeueOutput :: "codec_reply \<Rightarrow> 'w video_decoder \<Rightarrow> bool \<times> 'w video_decoder" where
  "DequeueOutput r s =
     (case vd_codec s of
        None \<Rightarrow> (False, s)
      | Some m \<Rightarrow>
          if IsDrained (cm_wrapper m) \<or> vd_waiting_key s then (False, s)
          else
            let (status, eos, buf, w) = DequeueOutputBuffer (cr_dequeue r) (cm_wrapper m);
                s = put_wrapper w s
            in case status of
                 DkTryAgainLater \<Rightarrow> (False, s)
               | DkError \<Rightarrow> (False, EnterTerminalState VdError s)
               | DkOk \<Rightarrow>
                   if eos
                   then let s = (if vd_eos_cb s \<noteq> None then s\<lparr>vd_after := vd_after s @ [vd_generation s]\<rparr> else s);
                            s = (if vd_drain s \<noteq> None then OnCodecDrained (FlushCodec (cr_flush r)) s else s)
                        in (False, s)
                   else case buf of
                     None \<Rightarrow> (True, s)
                   | Some b \<Rightarrow>
                       if vd_drain s \<noteq> None \<or> vd_deferred_flush s
                       then (True, put_wrapper (OutputBuffer_Destroy True b w) s)
                       else
                         let s = (if area (ob_size b) > area (vg_size (vd_config s))
                                  then s\<lparr>vd_config := (vd_config s)\<lparr>vg_size := ob_size b\<rparr>\<rparr> else s);
                             s = s\<lparr>vd_codec := Some \<lparr>cm_wrapper = w, cm_buffers = cm_buffers m @ [b]\<rparr>,
                                   vd_frames := vd_frames s @ [vd_generation s]\<rparr>
                         in (True, vd_call (VcCreateFrame (ob_id b) (ob_size b)) s))"

text \<open>
  The pump ends: a turn without an answer of the codec takes a request from the queue, ends an
  elided end of stream, or flushes a drained codec.
\<close>

definition pump_fuel :: "'w video_decoder \<Rightarrow> nat" where
  "pump_fuel s = 4 * length (vd_pending s) +
     (case vd_codec s of
        None \<Rightarrow> 0
      | Some m \<Rightarrow> (if IsDrained (cm_wrapper m) \<or> vd_deferred_flush s then 1 else 0) +
          (if cw_elided (cm_wrapper m) then 2 else 0))"

lemma run_decode_cb_keeps [simp]:
  "vd_pending (run_decode_cb cb st s) = vd_pending s" "vd_codec (run_decode_cb cb st s) = vd_codec s"
  "vd_deferred_flush (run_decode_cb cb st s) = vd_deferred_flush s" "vd_drain (run_decode_cb cb st s) = vd_drain s"
  "vd_eos_cb (run_decode_cb cb st s) = vd_eos_cb s" "vd_state (run_decode_cb cb st s) = vd_state s"
  "vd_alive (run_decode_cb cb st s) = vd_alive s" "vd_retired (run_decode_cb cb st s) = vd_retired s"
  "vd_target (run_decode_cb cb st s) = vd_target s" "vd_creations (run_decode_cb cb st s) = vd_creations s"
  "vd_reset_cb (run_decode_cb cb st s) = vd_reset_cb s" "vd_deferred_realloc (run_decode_cb cb st s) = vd_deferred_realloc s"
  by (simp_all add: run_decode_cb_def vd_call_def split: option.split)

lemma run_decode_cbs_keep [simp]:
  "vd_codec (fold (\<lambda>(_, cb). run_decode_cb cb st) cbs s) = vd_codec s"
  "vd_deferred_flush (fold (\<lambda>(_, cb). run_decode_cb cb st) cbs s) = vd_deferred_flush s"
  "vd_drain (fold (\<lambda>(_, cb). run_decode_cb cb st) cbs s) = vd_drain s"
  "vd_eos_cb (fold (\<lambda>(_, cb). run_decode_cb cb st) cbs s) = vd_eos_cb s"
  "vd_state (fold (\<lambda>(_, cb). run_decode_cb cb st) cbs s) = vd_state s"
  "vd_alive (fold (\<lambda>(_, cb). run_decode_cb cb st) cbs s) = vd_alive s"
  "vd_retired (fold (\<lambda>(_, cb). run_decode_cb cb st) cbs s) = vd_retired s"
  "vd_target (fold (\<lambda>(_, cb). run_decode_cb cb st) cbs s) = vd_target s"
  "vd_creations (fold (\<lambda>(_, cb). run_decode_cb cb st) cbs s) = vd_creations s"
  "vd_reset_cb (fold (\<lambda>(_, cb). run_decode_cb cb st) cbs s) = vd_reset_cb s"
  "vd_deferred_realloc (fold (\<lambda>(_, cb). run_decode_cb cb st) cbs s) = vd_deferred_realloc s"
  by (induction cbs arbitrary: s) (simp_all add: case_prod_beta)

lemma vd_call_keeps [simp]:
  "vd_pending (vd_call c s) = vd_pending s" "vd_codec (vd_call c s) = vd_codec s"
  "vd_deferred_flush (vd_call c s) = vd_deferred_flush s" "vd_drain (vd_call c s) = vd_drain s"
  "vd_eos_cb (vd_call c s) = vd_eos_cb s" "vd_state (vd_call c s) = vd_state s" "vd_alive (vd_call c s) = vd_alive s"
  "vd_retired (vd_call c s) = vd_retired s" "vd_target (vd_call c s) = vd_target s"
  "vd_creations (vd_call c s) = vd_creations s" "vd_reset_cb (vd_call c s) = vd_reset_cb s"
  "vd_deferred_realloc (vd_call c s) = vd_deferred_realloc s" "vd_log (vd_call c s) = vd_log s @ [c]"
  by (simp_all add: vd_call_def)

lemma CancelPendingDecodes_keeps [simp]:
  "vd_pending (CancelPendingDecodes st s) = []" "vd_codec (CancelPendingDecodes st s) = vd_codec s"
  "vd_deferred_flush (CancelPendingDecodes st s) = vd_deferred_flush s"
  "vd_drain (CancelPendingDecodes st s) = vd_drain s" "vd_eos_cb (CancelPendingDecodes st s) = None"
  "vd_state (CancelPendingDecodes st s) = vd_state s" "vd_alive (CancelPendingDecodes st s) = vd_alive s"
  "vd_retired (CancelPendingDecodes st s) = vd_retired s" "vd_target (CancelPendingDecodes st s) = vd_target s"
  "vd_creations (CancelPendingDecodes st s) = vd_creations s" "vd_reset_cb (CancelPendingDecodes st s) = vd_reset_cb s"
  "vd_deferred_realloc (CancelPendingDecodes st s) = vd_deferred_realloc s"
  by (simp_all add: CancelPendingDecodes_def Let_def split: option.split)

lemma ReleaseCodec_keeps [simp]:
  "vd_codec (ReleaseCodec s) = None" "vd_pending (ReleaseCodec s) = vd_pending s"
  "vd_deferred_flush (ReleaseCodec s) = vd_deferred_flush s" "vd_drain (ReleaseCodec s) = vd_drain s"
  "vd_eos_cb (ReleaseCodec s) = vd_eos_cb s" "vd_state (ReleaseCodec s) = vd_state s"
  "vd_alive (ReleaseCodec s) = vd_alive s" "vd_target (ReleaseCodec s) = vd_target s"
  "vd_creations (ReleaseCodec s) = vd_creations s" "vd_reset_cb (ReleaseCodec s) = vd_reset_cb s"
  "vd_deferred_realloc (ReleaseCodec s) = vd_deferred_realloc s"
  by (simp_all add: ReleaseCodec_def Let_def split: option.split prod.split)

lemma CreateCodec_keeps [simp]:
  "vd_codec (CreateCodec s) = vd_codec s" "vd_pending (CreateCodec s) = vd_pending s"
  "vd_deferred_flush (CreateCodec s) = vd_deferred_flush s" "vd_drain (CreateCodec s) = vd_drain s"
  "vd_eos_cb (CreateCodec s) = vd_eos_cb s" "vd_state (CreateCodec s) = vd_state s"
  "vd_alive (CreateCodec s) = vd_alive s" "vd_retired (CreateCodec s) = vd_retired s"
  "vd_target (CreateCodec s) = vd_target s" "vd_reset_cb (CreateCodec s) = vd_reset_cb s"
  "vd_deferred_realloc (CreateCodec s) = vd_deferred_realloc s"
  "vd_creations (CreateCodec s) = vd_creations s @ [(vd_target s, True)]"
  by (simp_all add: CreateCodec_def Let_def)

lemma put_wrapper_keeps [simp]:
  "vd_codec (put_wrapper w s) = map_option (\<lambda>m. m\<lparr>cm_wrapper := w\<rparr>) (vd_codec s)"
  "vd_pending (put_wrapper w s) = vd_pending s"
  "vd_deferred_flush (put_wrapper w s) = vd_deferred_flush s" "vd_drain (put_wrapper w s) = vd_drain s"
  "vd_eos_cb (put_wrapper w s) = vd_eos_cb s" "vd_state (put_wrapper w s) = vd_state s"
  "vd_alive (put_wrapper w s) = vd_alive s" "vd_retired (put_wrapper w s) = vd_retired s"
  "vd_target (put_wrapper w s) = vd_target s" "vd_creations (put_wrapper w s) = vd_creations s"
  "vd_reset_cb (put_wrapper w s) = vd_reset_cb s" "vd_deferred_realloc (put_wrapper w s) = vd_deferred_realloc s"
  "vd_log (put_wrapper w s) = vd_log s" "vd_waiting_key (put_wrapper w s) = vd_waiting_key s"
  by (simp_all add: put_wrapper_def)

lemma OnCodecDrained_no_codec: "vd_codec s = None \<Longrightarrow> OnCodecDrained f s = OnCodecDrained g s"
  by (simp add: OnCodecDrained_def Let_def split: option.split)

lemma OnCodecDrained_id_keeps [simp]:
  "vd_codec (OnCodecDrained id s) = vd_codec s" "vd_pending (OnCodecDrained id s) = vd_pending s"
  "vd_deferred_flush (OnCodecDrained id s) = vd_deferred_flush s" "vd_eos_cb (OnCodecDrained id s) = vd_eos_cb s"
  "vd_state (OnCodecDrained id s) = vd_state s" "vd_alive (OnCodecDrained id s) = vd_alive s"
  "vd_retired (OnCodecDrained id s) = vd_retired s" "vd_target (OnCodecDrained id s) = vd_target s"
  "vd_creations (OnCodecDrained id s) = vd_creations s" "vd_drain (OnCodecDrained id s) = None"
  by (simp_all add: OnCodecDrained_def Let_def split: option.split)

lemma EnterTerminalState_keeps [simp]:
  "vd_codec (EnterTerminalState VdError s) = None" "vd_pending (EnterTerminalState VdError s) = []"
  "vd_eos_cb (EnterTerminalState VdError s) = None" "vd_state (EnterTerminalState VdError s) = VdError"
  "vd_deferred_flush (EnterTerminalState VdError s) = vd_deferred_flush s"
  "vd_alive (EnterTerminalState VdError s) = vd_alive s" "vd_drain (EnterTerminalState VdError s) = None"
  "vd_target (EnterTerminalState VdError s) = None"
  by (simp_all add: EnterTerminalState_def Let_def invalidate_creations_def)

lemma EnterTerminalState_drains:
  "EnterTerminalState state s =
     (let s = ReleaseCodec (invalidate_creations (s\<lparr>vd_state := state\<rparr>));
          s = s\<lparr>vd_target := None, vd_texture := None\<rparr>;
          s = (if state = VdError then CancelPendingDecodes DsFailed s else s)
      in if vd_drain s \<noteq> None then OnCodecDrained (FlushCodec code) s else s)"
proof -
  have "OnCodecDrained id t = OnCodecDrained (FlushCodec code) t" if "vd_codec t = None" for t :: "'a video_decoder"
    using that by (rule OnCodecDrained_no_codec)
  then show ?thesis unfolding EnterTerminalState_def Let_def by simp
qed

lemma Codec_Flush_cases:
  "Codec_Flush code w = (False, w') \<Longrightarrow> cw_state w' = kCodecError"
  "Codec_Flush code w = (True, w') \<Longrightarrow> cw_state w' = kFlushed \<and> \<not> cw_elided w'"
  by (auto simp: Codec_Flush_def Let_def split: if_splits)

lemma FlushCodec_less:
  assumes "vd_codec s = Some m" and "IsDrained (cm_wrapper m) \<or> vd_deferred_flush s"
  shows "pump_fuel (FlushCodec code s) < pump_fuel s"
  using assms Codec_Flush_cases(2)
  by (fastforce simp: FlushCodec_def pump_fuel_def Let_def IsFlushed_def IsDrained_def split: prod.split)

lemma FlushCodec_pending: "length (vd_pending (FlushCodec code s)) \<le> length (vd_pending s)"
  by (simp add: FlushCodec_def Let_def split: option.split prod.split)

lemma OnCodecDrained_fuel:
  assumes "vd_codec s = Some m" and "IsDrained (cm_wrapper m)"
  shows "pump_fuel (OnCodecDrained f s) = pump_fuel s \<and> length (vd_pending (OnCodecDrained f s)) = length (vd_pending s)"
  using assms by (cases "vd_reset_cb s") (simp_all add: OnCodecDrained_def pump_fuel_def Let_def)

lemma OnCodecDrained_pending: "length (vd_pending (OnCodecDrained (FlushCodec code) s)) \<le> length (vd_pending s)"
proof -
  have "length (vd_pending (FlushCodec code t)) \<le> length (vd_pending s)" if "vd_pending t = vd_pending s" for t :: "'a video_decoder"
    using FlushCodec_pending [of code t] that by simp
  then show ?thesis by (simp add: OnCodecDrained_def Let_def split: option.split)
qed

lemma QueueInput_pending: "length (vd_pending (snd (QueueInput r s))) \<le> length (vd_pending s)"
  by (auto simp: QueueInput_def Let_def FlushCodec_pending split: option.split prod.split list.split queue_status.split)

lemma DequeueOutput_pending: "length (vd_pending (snd (DequeueOutput r s))) \<le> length (vd_pending s)"
proof -
  have "length (vd_pending (OnCodecDrained (FlushCodec c) t)) \<le> length (vd_pending s)" if "vd_pending t = vd_pending s" for c and t :: "'a video_decoder"
    using OnCodecDrained_pending [of c t] that by simp
  then show ?thesis
    by (auto simp: DequeueOutput_def Let_def split: option.split prod.split dequeue_status.split)
qed

lemma pump_fuel_bounds: "4 * length (vd_pending s) \<le> pump_fuel s" "pump_fuel s \<le> 4 * length (vd_pending s) + 3"
  by (simp_all add: pump_fuel_def split: option.split)

lemma QueueInput_retry:
  assumes "QueueInput retry_reply s = (True, t)"
  shows "pump_fuel t < pump_fuel s"
proof -
  from assms obtain m where m: "vd_codec s = Some m" "\<not> vd_waiting_key s" by (auto simp: QueueInput_def split: option.splits if_splits)
  show ?thesis
  proof (cases "IsDrained (cm_wrapper m) \<or> vd_deferred_flush s")
    case True
    with assms m have "t = FlushCodec (cr_flush retry_reply) s" by (auto simp: QueueInput_def split: if_splits)
    with FlushCodec_less [OF m(1) True] show ?thesis by simp
  next
    case False
    with assms m show ?thesis
      by (auto simp: QueueInput_def QueueInputBuffer_def retry_reply_def pump_fuel_def IsDrained_def Let_def
          split: list.splits if_splits queue_status.splits)
  qed
qed

lemma DequeueOutput_retry:
  "\<not> fst (DequeueOutput retry_reply s) \<and> pump_fuel (snd (DequeueOutput retry_reply s)) \<le> pump_fuel s"
proof (cases "vd_codec s")
  case (Some m)
  let ?w = "(cm_wrapper m)\<lparr>cw_elided := False, cw_state := kDrained\<rparr>"
  let ?s = "put_wrapper ?w s"
  have "pump_fuel (OnCodecDrained f t) = pump_fuel t" if "vd_codec t = vd_codec ?s" for f t
    using OnCodecDrained_fuel [of t "m\<lparr>cm_wrapper := ?w\<rparr>" f] that Some by (simp add: IsDrained_def)
  moreover have "pump_fuel (?s\<lparr>vd_after := a\<rparr>) = pump_fuel ?s" for a
    using Some by (simp add: pump_fuel_def)
  moreover have "pump_fuel ?s \<le> pump_fuel s" if "cw_elided (cm_wrapper m)"
    using that Some by (simp add: pump_fuel_def IsDrained_def)
  moreover have "put_wrapper (cm_wrapper m) s = s" using Some by (simp add: put_wrapper_def)
  ultimately show ?thesis using Some
    by (simp add: DequeueOutput_def DequeueOutputBuffer_def retry_reply_def Let_def)
qed (simp add: DequeueOutput_def)

function PumpCodec :: "codec_reply list \<Rightarrow> 'w video_decoder \<Rightarrow> 'w video_decoder" where
  "PumpCodec rs s =
     (case QueueInput (reply_of rs) s of (did_input, s) \<Rightarrow>
      case DequeueOutput (reply_of rs) s of (did_output, s) \<Rightarrow>
        if did_input \<or> did_output then PumpCodec (tl rs) s else s)"
  by pat_completeness auto

lemma turn_fuel:
  assumes q: "QueueInput (reply_of rs) s = (i, s1)" and d: "DequeueOutput (reply_of rs) s1 = (d, s2)" and "i \<or> d"
  shows "8 * length (tl rs) + pump_fuel s2 < 8 * length rs + pump_fuel s"
proof (cases rs)
  case Nil
  with d have "\<not> d" "pump_fuel s2 \<le> pump_fuel s1" using DequeueOutput_retry [of s1] by (simp_all add: reply_of_def)
  with assms(3) Nil q QueueInput_retry [of s s1] show ?thesis by (simp add: reply_of_def)
next
  case (Cons r rs')
  have "length (vd_pending s2) \<le> length (vd_pending s)"
    using QueueInput_pending [of "reply_of rs" s] DequeueOutput_pending [of "reply_of rs" s1] q d by simp
  with Cons pump_fuel_bounds [of s2] pump_fuel_bounds [of s] show ?thesis by simp
qed

termination PumpCodec
  by (relation "measure (\<lambda>(rs, s). 8 * length rs + pump_fuel s)") (auto dest: turn_fuel [OF sym sym])

declare PumpCodec.simps [simp del]

section \<open>Starting up\<close>

definition StartLazyInit :: "'w video_decoder \<Rightarrow> 'w video_decoder" where
  "StartLazyInit s = vd_call VcFactoryInit (s\<lparr>vd_lazy_init := False, vd_factory_pending := True\<rparr>)"

text \<open>A context for the key system: none, or does it have the crypto context of the platform?\<close>

definition SetCdm :: "bool option \<Rightarrow> nat \<Rightarrow> 'w video_decoder \<Rightarrow> 'w video_decoder" where
  "SetCdm cdm init_cb s =
     (if cdm = None then vd_call (VcInit init_cb DsFailed) s
      else s\<lparr>vd_crypto := (cdm = Some True), vd_ready_cb := Some init_cb\<rparr>)"

definition Decoder_Initialize ::
  "video_config \<Rightarrow> bool option \<Rightarrow> nat \<Rightarrow> 'w video_decoder \<Rightarrow> 'w video_decoder" where
  "Decoder_Initialize config cdm init_cb s =
     (let first_init = (\<not> vg_valid (vd_config s))
      in if \<not> vg_valid config then vd_call (VcInit init_cb DsUnsupportedConfig) s
         else if \<not> first_init \<and> vg_codec (vd_config s) \<noteq> vg_codec config
         then vd_call (VcInit init_cb DsCantChangeCodec) s
         else
           let s = s\<lparr>vd_config := config\<rparr>;
               width = fst (vg_size (vd_config s))
           in if first_init \<and> cdm = Some True then SetCdm cdm init_cb (s\<lparr>vd_last_width := width\<rparr>)
              else if vg_encrypted config \<and> vd_session s = None
              then vd_call (VcInit init_cb DsUnsupportedEncryptionMode) s
              else let s = vd_call (VcInit init_cb DsOk) s
                   in if first_init then s\<lparr>vd_last_width := width\<rparr> else s)"

definition OnMediaCryptoReady ::
  "nat \<Rightarrow> int option \<Rightarrow> bool \<Rightarrow> decoder_code \<Rightarrow> 'w video_decoder \<Rightarrow> 'w video_decoder" where
  "OnMediaCryptoReady init_cb session secure code s =
     (if session = None
      then
        let s = s\<lparr>vd_ready_cb := None, vd_crypto := False, vd_session := None, vd_secure := secure\<rparr>;
            s = (case vd_codec s of
                   None \<Rightarrow> s
                 | Some m \<Rightarrow> put_wrapper (snd (SetDecryptionConfig secure code (cm_wrapper m))) s)
        in if vg_encrypted (vd_config s)
           then vd_call (VcInit init_cb DsUnsupportedEncryptionMode) (EnterTerminalState VdError s)
           else vd_call (VcInit init_cb DsOk) s
      else vd_call (VcInit init_cb DsOk) (s\<lparr>vd_session := session, vd_secure := secure\<rparr>))"

definition OnCdmContextEvent :: "bool \<Rightarrow> codec_reply list \<Rightarrow> 'w video_decoder \<Rightarrow> 'w video_decoder" where
  "OnCdmContextEvent additional_key rs s =
     (if \<not> additional_key then s else PumpCodec rs (s\<lparr>vd_waiting_key := False\<rparr>))"

definition OnSurfaceChosen :: "'w video_decoder \<Rightarrow> 'w video_decoder" where
  "OnSurfaceChosen s =
     (let s = s\<lparr>vd_target := vd_texture s\<rparr>
      in if vd_state s = VdInitializing then CreateCodec (s\<lparr>vd_state := VdRunning\<rparr>) else s)"

text \<open>A surface bundle is named by its texture owner.\<close>

definition OnVideoFrameFactoryInitialized :: "'w option \<Rightarrow> 'w video_decoder \<Rightarrow> 'w video_decoder" where
  "OnVideoFrameFactoryInitialized owner s =
     (if owner = None then EnterTerminalState VdError s
      else OnSurfaceChosen (s\<lparr>vd_texture := owner\<rparr>))"

text \<open>What a codec answers while it is configured, and the size it has then.\<close>

record configure_reply =
  cf_configure :: decoder_code
  cf_decryption :: decoder_code
  cf_surface :: decoder_code
  cf_config :: "int \<times> int"

definition OnCodecConfigured ::
  "'w option \<Rightarrow> configure_reply option \<Rightarrow> codec_reply list \<Rightarrow> 'w video_decoder \<Rightarrow> 'w video_decoder" where
  "OnCodecConfigured surface codec rs s =
     (case codec of
        None \<Rightarrow> EnterTerminalState VdError s
      | Some c \<Rightarrow>
          if cf_configure c = DECODER_ERROR then EnterTerminalState VdError s
          else if vd_session s \<noteq> None \<and> cf_decryption c = DECODER_ERROR then EnterTerminalState VdError s
          else if surface = None \<or> cf_surface c = DECODER_ERROR then EnterTerminalState VdError s
          else
            let w = CodecWrapper_Impl (cf_config c) surface True;
                s = s\<lparr>vd_codec := Some \<lparr>cm_wrapper = w, cm_buffers = []\<rparr>\<rparr>;
                s = (if vd_surface_id s > 0
                     then put_wrapper (SetVideoSurface (vd_surface_id s) w) (s\<lparr>vd_surface_id := -1\<rparr>)
                     else s)
            in PumpCodec rs s)"

text \<open>The allocator answers the oldest request; the decoder may have given it up.\<close>

definition OnCodecConfiguredInternal ::
  "configure_reply option \<Rightarrow> codec_reply list \<Rightarrow> 'w video_decoder \<Rightarrow> 'w video_decoder" where
  "OnCodecConfiguredInternal codec rs s =
     (case vd_creations s of
        [] \<Rightarrow> s
      | (surface, weak_this) # rest \<Rightarrow>
          let s = s\<lparr>vd_creations := rest\<rparr>
          in if \<not> weak_this then if codec \<noteq> None then vd_call VcReleaseCodec s else s
             else OnCodecConfigured surface codec rs s)"

section \<open>Requests of the client\<close>

text \<open>A buffer is none, or does it end the stream?\<close>

definition Decoder_Decode ::
  "bool option \<Rightarrow> nat \<Rightarrow> codec_reply list \<Rightarrow> 'w video_decoder \<Rightarrow> 'w video_decoder" where
  "Decoder_Decode buffer decode_cb rs s =
     (case buffer of
        None \<Rightarrow> run_decode_cb (Some decode_cb) DsFailed s
      | Some eos \<Rightarrow>
          if vd_state s = VdError then run_decode_cb (Some decode_cb) DsFailed s
          else
            let s = s\<lparr>vd_pending := vd_pending s @ [(eos, Some decode_cb)]\<rparr>
            in if vd_state s = VdInitializing
               then if vd_lazy_init s then StartLazyInit s else s
               else PumpCodec rs s)"

definition PendingDecode_CreateEos :: "bool \<times> nat option" where
  "PendingDecode_CreateEos = (True, None)"

definition StartDrainingCodec :: "drain_type \<Rightarrow> codec_reply list \<Rightarrow> 'w video_decoder \<Rightarrow> 'w video_decoder" where
  "StartDrainingCodec drain rs s =
     (let s = s\<lparr>vd_drain := Some drain\<rparr>;
          s = (case vd_codec s of None \<Rightarrow> s | Some m \<Rightarrow> put_wrapper (DiscardOutputBuffers (cm_wrapper m)) s);
          busy = (case vd_codec s of
                    None \<Rightarrow> False
                  | Some m \<Rightarrow> \<not> IsFlushed (cm_wrapper m) \<and> \<not> IsDrained (cm_wrapper m))
      in if vg_codec (vd_config s) \<noteq> kVP8 \<or> \<not> busy
         then OnCodecDrained (FlushCodec (cr_flush (reply_of rs))) (s\<lparr>vd_deferred_flush := busy\<rparr>)
         else
           let draining = (case vd_codec s of None \<Rightarrow> False | Some m \<Rightarrow> IsDraining (cm_wrapper m));
               s = (if \<not> draining then s\<lparr>vd_pending := vd_pending s @ [PendingDecode_CreateEos]\<rparr> else s)
           in PumpCodec rs s)"

definition Decoder_Reset :: "nat \<Rightarrow> codec_reply list \<Rightarrow> 'w video_decoder \<Rightarrow> 'w video_decoder" where
  "Decoder_Reset closure rs s =
     (let s = s\<lparr>vd_generation := vd_generation s + 1, vd_reset_cb := Some closure\<rparr>
      in StartDrainingCodec kForReset rs (CancelPendingDecodes DsAborted s))"

definition DestroyAsync :: "codec_reply list \<Rightarrow> 'w video_decoder \<Rightarrow> 'w video_decoder" where
  "DestroyAsync rs s =
     (let s = s\<lparr>vd_alive := False\<rparr>;
          s = (if vd_crypto s then s\<lparr>vd_ready_cb := None, vd_crypto := False\<rparr> else s);
          s = (case vd_reset_cb s of
                 None \<Rightarrow> s
               | Some t \<Rightarrow> vd_call (VcReset t) (s\<lparr>vd_reset_cb := None\<rparr>))
      in StartDrainingCodec kForDestroy rs (CancelPendingDecodes DsAborted (invalidate_creations s)))"

definition RunEosDecodeCb :: "int \<Rightarrow> 'w video_decoder \<Rightarrow> 'w video_decoder" where
  "RunEosDecodeCb generation s =
     (case vd_eos_cb s of
        None \<Rightarrow> s
      | Some cb \<Rightarrow>
          if generation = vd_generation s then run_decode_cb cb DsOk (s\<lparr>vd_eos_cb := None\<rparr>) else s)"

text \<open>\<open>frame\<close>: did the factory make one?\<close>

definition ForwardVideoFrame :: "int \<Rightarrow> bool \<Rightarrow> 'w video_decoder \<Rightarrow> 'w video_decoder" where
  "ForwardVideoFrame generation frame s =
     (if \<not> frame then EnterTerminalState VdError s
      else if generation = vd_generation s then vd_call VcOutput s else s)"

definition TransitionToTargetSurface :: "decoder_code \<Rightarrow> 'w video_decoder \<Rightarrow> 'w video_decoder" where
  "TransitionToTargetSurface code s =
     (case vd_codec s of
        None \<Rightarrow> s
      | Some m \<Rightarrow>
          let (switched, w) = SetSurface (vd_target s) code (cm_wrapper m);
              s = put_wrapper w s
          in if \<not> switched then EnterTerminalState VdError (vd_call (VcFactorySurface None) s)
             else vd_call (VcFactorySurface (vd_target s)) s)"

definition PipEnable :: "bool \<Rightarrow> decoder_code \<Rightarrow> 'w video_decoder \<Rightarrow> 'w video_decoder" where
  "PipEnable enable code s =
     (let s = vd_call (VcPip enable) s
      in if \<not> enable then TransitionToTargetSurface code s else s)"

definition Decoder_SetVideoSurface :: "int \<Rightarrow> 'w video_decoder \<Rightarrow> 'w video_decoder" where
  "Decoder_SetVideoSurface widget_id s =
     (case vd_codec s of
        None \<Rightarrow> s\<lparr>vd_surface_id := widget_id\<rparr>
      | Some m \<Rightarrow> put_wrapper (SetVideoSurface widget_id (cm_wrapper m)) s)"

definition Decoder_RecycleDmaBuffer :: "'w video_decoder \<Rightarrow> 'w video_decoder" where
  "Decoder_RecycleDmaBuffer s =
     (case vd_codec s of None \<Rightarrow> s | Some m \<Rightarrow> put_wrapper (RecycleDmaBuffer (cm_wrapper m)) s)"

definition Decoder_ResumeDmaBuffer :: "'w video_decoder \<Rightarrow> 'w video_decoder" where
  "Decoder_ResumeDmaBuffer s =
     (case vd_codec s of None \<Rightarrow> s | Some m \<Rightarrow> put_wrapper (ResumeDmaBuffer (cm_wrapper m)) s)"

end
