(* ===== verification/Decoder_Machine.thy ===== *)
theory Decoder_Machine
  imports Video_Decoder
begin

text \<open>
  The video decoder as a machine: the client, the key system, the frame factory, the codec
  allocator, the codec and the owners of the output buffers send the events. Over every run, what the decoder
  has asked of its codecs is what a codec wrapper may be asked.
\<close>

section \<open>The machine\<close>

datatype 'w video_event =
    VeInitialize video_config "bool option" nat
  | VeCryptoReady "int option" bool decoder_code
  | VeKey bool "codec_reply list"
  | VeFactory "'w option"
  | VeCodec "configure_reply option" "codec_reply list"
  | VePump "codec_reply list"
  | VeDecode "bool option" nat "codec_reply list"
  | VeReset nat "codec_reply list"
  | VeDestroy "codec_reply list"
  | VeEos
  | VeFrame bool
  | VePip bool decoder_code
  | VeVideoSurface int
  | VeRecycle
  | VeResume
  | VeDelete
  | VeOutput "'w codec_event"
  | VeRetired nat "'w codec_event"

text \<open>
  Callbacks that were bound to a weak pointer do nothing once the decoder is being destroyed.
\<close>

fun vd_step :: "'w video_decoder \<Rightarrow> 'w video_event \<Rightarrow> 'w video_decoder" where
  "vd_step s (VeInitialize config cdm t) = Decoder_Initialize config cdm t s"
| "vd_step s (VeCryptoReady session secure code) =
     (if vd_alive s then OnMediaCryptoReady (the (vd_ready_cb s)) session secure code (s\<lparr>vd_ready_cb := None\<rparr>) else s)"
| "vd_step s (VeKey additional rs) = (if vd_alive s then OnCdmContextEvent additional rs s else s)"
| "vd_step s (VeFactory owner) =
     (if vd_alive s then OnVideoFrameFactoryInitialized owner (s\<lparr>vd_factory_pending := False\<rparr>) else s)"
| "vd_step s (VeCodec codec rs) = OnCodecConfiguredInternal codec rs s"
| "vd_step s (VePump rs) = (if vd_alive s then PumpCodec rs s else s)"
| "vd_step s (VeDecode buffer t rs) = Decoder_Decode buffer t rs s"
| "vd_step s (VeReset t rs) = Decoder_Reset t rs s"
| "vd_step s (VeDestroy rs) = DestroyAsync rs s"
| "vd_step s VeEos =
     (let g = hd (vd_after s); s = s\<lparr>vd_after := tl (vd_after s)\<rparr> in if vd_alive s then RunEosDecodeCb g s else s)"
| "vd_step s (VeFrame made) =
     (let g = hd (vd_frames s); s = s\<lparr>vd_frames := tl (vd_frames s)\<rparr> in if vd_alive s then ForwardVideoFrame g made s else s)"
| "vd_step s (VePip enable code) = PipEnable enable code s"
| "vd_step s (VeVideoSurface w) = Decoder_SetVideoSurface w s"
| "vd_step s VeRecycle = Decoder_RecycleDmaBuffer s"
| "vd_step s VeResume = Decoder_ResumeDmaBuffer s"
| "vd_step s VeDelete = ReleaseCodec s"
| "vd_step s (VeOutput e) = s\<lparr>vd_codec := map_option (\<lambda>m. cm_step m e) (vd_codec s)\<rparr>"
| "vd_step s (VeRetired k e) = s\<lparr>vd_retired := (vd_retired s)[k := cm_step (vd_retired s ! k) e]\<rparr>"

text \<open>The owner of an output buffer renders it or lets it go, from any sequence.\<close>

fun of_a_buffer :: "'w codec_event \<Rightarrow> bool" where
  "of_a_buffer (CeRender k) = True"
| "of_a_buffer (CeDestroy k here) = True"
| "of_a_buffer CePosted = True"
| "of_a_buffer _ = False"

text \<open>
  What the client keeps to: after the end of the stream it asks for nothing until it is
  answered or resets, one reset at a time, no request while one is due or after the end.
\<close>

fun vd_ok :: "'w video_decoder \<Rightarrow> 'w video_event \<Rightarrow> bool" where
  "vd_ok s (VeInitialize config cdm t) = (vd_alive s \<and> vd_pending s = [] \<and> vd_eos_cb s = None \<and> vd_reset_cb s = None)"
| "vd_ok s (VeCryptoReady session secure code) = (vd_ready_cb s \<noteq> None)"
| "vd_ok s (VeFactory owner) = vd_factory_pending s"
| "vd_ok s (VeCodec codec rs) = (vd_creations s \<noteq> [])"
| "vd_ok s (VeDecode buffer t rs) =
     (vd_alive s \<and> vd_reset_cb s = None \<and> vd_eos_cb s = None \<and> True \<notin> fst ` set (vd_pending s))"
| "vd_ok s (VeReset t rs) = (vd_alive s \<and> vd_reset_cb s = None)"
| "vd_ok s (VeDestroy rs) = vd_alive s"
| "vd_ok s VeEos = (vd_after s \<noteq> [])"
| "vd_ok s (VeFrame made) = (vd_frames s \<noteq> [])"
| "vd_ok s (VePip enable code) = vd_alive s"
| "vd_ok s (VeVideoSurface w) = vd_alive s"
| "vd_ok s VeRecycle = vd_alive s"
| "vd_ok s VeResume = vd_alive s"
| "vd_ok s VeDelete = (VcDeleteSoon \<in> set (vd_log s))"
| "vd_ok s (VeOutput e) = (of_a_buffer e \<and> (case vd_codec s of None \<Rightarrow> False | Some m \<Rightarrow> cm_ok m e))"
| "vd_ok s (VeRetired k e) = (of_a_buffer e \<and> k < length (vd_retired s) \<and> cm_ok (vd_retired s ! k) e)"
| "vd_ok s _ = True"

section \<open>Every codec is driven within its contract\<close>

definition behaved :: "'w codec_machine \<Rightarrow> bool" where
  "behaved m \<longleftrightarrow> (\<exists>config surface runner. reached cm_step cm_ok (cm_start config surface runner) m)"

lemma behaved_start: "behaved \<lparr>cm_wrapper = CodecWrapper_Impl config surface runner, cm_buffers = []\<rparr>"
  unfolding behaved_def cm_start_def by (intro exI) (rule reached_refl)

lemma behaved_step: "behaved m \<Longrightarrow> cm_ok m e \<Longrightarrow> behaved (cm_step m e)"
  unfolding behaved_def by (blast intro: reached_step)

lemma cm_start_simps:
  "cm_inv (cm_start config surface runner)" "cm_owned (cm_start config surface runner)"
  "cm_calls (cm_start config surface runner) = []" "cm_abs (cm_start config surface runner) = new_ledger"
  by (simp_all add: cm_start_def CodecWrapper_Impl_def cm_inv_def cw_inv_def cm_owned_def cm_calls_def cm_abs_def
      ledger_of_def new_ledger_def)

lemma run_ledger:
  assumes "guarded_run cm_step cm_ok (cm_start config surface runner) es"
  shows "replay account (cm_calls (foldl cm_step (cm_start config surface runner) es)) new_ledger =
    Some (cm_abs (foldl cm_step (cm_start config surface runner) es))"
  using cm_refines.refine_run [OF cm_start_simps(1) assms] by (auto simp: cm_start_simps)

lemma behaved_ledger: "behaved m \<Longrightarrow> replay account (cm_calls m) new_ledger = Some (cm_abs m)"
  unfolding behaved_def reached_def using run_ledger by blast

text \<open>
  \<open>codecs_behave\<close> is what holds also between an error of the codec and the release that
  follows it.
\<close>

definition codecs_behave :: "'w video_decoder \<Rightarrow> bool" where
  "codecs_behave s \<longleftrightarrow> (\<forall>m \<in> set_option (vd_codec s) \<union> set (vd_retired s). behaved m)"

definition has_codec :: "'w video_decoder \<Rightarrow> bool" where
  "has_codec s \<longleftrightarrow> vd_codec s \<noteq> None"

definition creating :: "'w video_decoder \<Rightarrow> nat" where
  "creating s = length (filter snd (vd_creations s))"

text \<open>
  At most one codec, in existence or in creation, and only while the decoder runs; with it
  there is a surface.
\<close>

definition one_codec :: "'w video_decoder \<Rightarrow> bool" where
  "one_codec s \<longleftrightarrow> \<not> vd_deferred_realloc s \<and> creating s + of_bool (has_codec s) \<le> 1 \<and>
     (creating s + of_bool (has_codec s) = 1 \<longrightarrow> vd_state s = VdRunning \<and> vd_target s \<noteq> None)"

definition codec_usable :: "'w video_decoder \<Rightarrow> bool" where
  "codec_usable s \<longleftrightarrow> (\<forall>m \<in> set_option (vd_codec s). usable m)"

definition vd_contract :: "'w video_decoder \<Rightarrow> bool" where
  "vd_contract s \<longleftrightarrow> codecs_behave s \<and> one_codec s \<and> codec_usable s"

lemmas contract_defs = codecs_behave_def one_codec_def codec_usable_def has_codec_def creating_def

lemma contract_cong:
  "vd_codec t = vd_codec s \<Longrightarrow> vd_retired t = vd_retired s \<Longrightarrow> codecs_behave t = codecs_behave s"
  "vd_codec t = vd_codec s \<Longrightarrow> vd_creations t = vd_creations s \<Longrightarrow> vd_state t = vd_state s \<Longrightarrow> vd_target t = vd_target s \<Longrightarrow>
     vd_deferred_realloc t = vd_deferred_realloc s \<Longrightarrow> one_codec t = one_codec s"
  "vd_codec t = vd_codec s \<Longrightarrow> codec_usable t = codec_usable s"
  by (simp_all add: contract_defs)

lemma vd_contract_same:
  "vd_contract s \<Longrightarrow> vd_codec t = vd_codec s \<Longrightarrow> vd_retired t = vd_retired s \<Longrightarrow> vd_creations t = vd_creations s \<Longrightarrow>
   vd_state t = vd_state s \<Longrightarrow> vd_target t = vd_target s \<Longrightarrow> vd_deferred_realloc t = vd_deferred_realloc s \<Longrightarrow>
   vd_contract t"
  by (simp add: vd_contract_def contract_defs)

text \<open>One operation of the wrapper.\<close>

lemma codec_op:
  assumes "codecs_behave s" "one_codec s" and "vd_codec s = Some m" and "cm_ok m e"
    and "cm_step m e = m\<lparr>cm_wrapper := w\<rparr>"
  shows "codecs_behave (put_wrapper w s)" "one_codec (put_wrapper w s)"
  using assms behaved_step [of m e] by (auto simp: contract_defs)

lemma codec_op_usable: "usable (m\<lparr>cm_wrapper := w\<rparr>) \<Longrightarrow> vd_codec s = Some m \<Longrightarrow> codec_usable (put_wrapper w s)"
  by (simp add: codec_usable_def)

lemma ReleaseCodec_behaves:
  assumes "codecs_behave s"
  shows "codecs_behave (ReleaseCodec s)"
proof (cases "vd_codec s")
  case (Some m)
  have "behaved (cm_step m CeTake)" using assms Some by (intro behaved_step) (auto simp: contract_defs)
  with assms Some show ?thesis
    by (auto simp: ReleaseCodec_def Let_def contract_defs on_wrapper_def vd_call_def split: prod.split)
qed (use assms in \<open>simp add: ReleaseCodec_def\<close>)

lemma EnterTerminalState_contract:
  assumes "codecs_behave s" "one_codec s"
  shows "vd_contract (EnterTerminalState VdError s)"
proof -
  let ?s = "ReleaseCodec (invalidate_creations (s\<lparr>vd_state := VdError\<rparr>))"
  have "codecs_behave ?s"
    by (rule ReleaseCodec_behaves) (use assms in \<open>simp add: contract_defs invalidate_creations_def\<close>)
  moreover have "vd_retired (EnterTerminalState VdError s) = vd_retired ?s"
    "vd_creations (EnterTerminalState VdError s) = vd_creations ?s"
    by (simp_all add: EnterTerminalState_def Let_def)
  moreover have "vd_deferred_realloc (EnterTerminalState VdError s) = vd_deferred_realloc s"
    by (simp add: EnterTerminalState_def OnCodecDrained_def invalidate_creations_def Let_def split: option.split)
  moreover have "creating ?s = 0"
    by (simp add: creating_def invalidate_creations_def filter_empty_conv case_prod_beta)
  ultimately show ?thesis using assms
    by (simp add: vd_contract_def contract_defs)
qed

lemma FlushCodec_contract:
  assumes "vd_contract s"
  shows "vd_contract (FlushCodec code s)"
proof -
  let ?s = "s\<lparr>vd_deferred_flush := False\<rparr>"
  have c: "vd_contract ?s" by (rule vd_contract_same [OF assms]) simp_all
  have r: "\<not> vd_deferred_realloc s" using assms by (simp add: vd_contract_def one_codec_def)
  show ?thesis
  proof (cases "vd_codec s")
    case None
    with c r show ?thesis by (simp add: FlushCodec_def Let_def)
  next
    case (Some m)
    then have m: "vd_codec ?s = Some m" by simp
    have ok: "cm_ok m (CeFlush code)" using assms Some by (simp add: vd_contract_def codec_usable_def)
    obtain b w where w: "Codec_Flush code (cm_wrapper m) = (b, w)" by force
    have step: "cm_step m (CeFlush code) = m\<lparr>cm_wrapper := w\<rparr>" using w by (simp add: on_wrapper_def)
    note op = codec_op [OF _ _ m ok step]
    have "usable (m\<lparr>cm_wrapper := w\<rparr>)" if b
      using w that ok by (auto simp: usable_def Codec_Flush_def Let_def split: if_splits)
    with op c codec_op_usable [OF _ m] have "b \<Longrightarrow> vd_contract (put_wrapper w ?s)"
      by (simp add: vd_contract_def)
    moreover from op c have "vd_contract (EnterTerminalState VdError (put_wrapper w ?s))"
      by (intro EnterTerminalState_contract) (simp_all add: vd_contract_def)
    ultimately show ?thesis using c r Some w by (simp add: FlushCodec_def Let_def)
  qed
qed

lemma OnCodecDrained_contract:
  assumes "vd_contract s" and "\<And>t. vd_contract t \<Longrightarrow> vd_contract (flush t)"
  shows "vd_contract (OnCodecDrained flush s)"
proof -
  have c: "vd_contract (s\<lparr>vd_drain := None\<rparr>)" "vd_contract (vd_call c (s\<lparr>vd_drain := None, vd_reset_cb := r\<rparr>))"
    "vd_contract (vd_call c (s\<lparr>vd_drain := None\<rparr>))" for c r
    by (rule vd_contract_same [OF assms(1)]; simp)+
  then show ?thesis
    by (auto simp: OnCodecDrained_def Let_def intro: assms(2) split: option.split)
qed

lemma QueueInput_contract:
  assumes "vd_contract s"
  shows "vd_contract (snd (QueueInput r s))"
proof (cases "vd_codec s")
  case (Some m)
  show ?thesis
  proof (cases "vd_waiting_key s \<or> IsDrained (cm_wrapper m) \<or> vd_deferred_flush s \<or> vd_pending s = []")
    case True
    with assms Some FlushCodec_contract [OF assms] show ?thesis
      by (auto simp: QueueInput_def)
  next
    case False
    then obtain eos cb rest where p: "vd_pending s = (eos, cb) # rest" by (cases "vd_pending s") auto
    obtain st w where w: "QueueInputBuffer eos (cr_queue r) (cm_wrapper m) = (st, w)" by force
    have ok: "cm_ok m (CeQueue eos (cr_queue r))" using assms Some by (simp add: vd_contract_def codec_usable_def)
    have step: "cm_step m (CeQueue eos (cr_queue r)) = m\<lparr>cm_wrapper := w\<rparr>" using w by (simp add: on_wrapper_def)
    have c: "codecs_behave (put_wrapper w s)" "one_codec (put_wrapper w s)"
      using codec_op [OF _ _ Some ok step] assms by (simp_all add: vd_contract_def)
    have "usable (m\<lparr>cm_wrapper := w\<rparr>)" if "st \<noteq> QkError"
      using w that ok by (auto simp: usable_def QueueInputBuffer_def Let_def split: if_splits decoder_code.splits)
    with c codec_op_usable [OF _ Some] have u: "st \<noteq> QkError \<Longrightarrow> vd_contract (put_wrapper w s)"
      by (simp add: vd_contract_def)
    have "vd_contract (t\<lparr>vd_pending := ps\<rparr>)" "vd_contract (run_decode_cb a b t)"
      "vd_contract (t\<lparr>vd_eos_cb := e, vd_pending := ps\<rparr>)" "vd_contract (vd_call c (t\<lparr>vd_waiting_key := k\<rparr>))"
      if "vd_contract t" for t :: "'a video_decoder" and ps a b e c k
      by (rule vd_contract_same [OF that]; simp)+
    with u EnterTerminalState_contract [OF c] False p w Some show ?thesis
      by (simp add: QueueInput_def Let_def split: queue_status.split)
  qed
qed (use assms in \<open>simp add: QueueInput_def\<close>)

lemma Dequeue_usable:
  assumes "DequeueOutputBuffer r w = (st, eos, b, w')" and "cw_state w \<noteq> kCodecError" and "cw_codec w"
  shows "cw_codec w'" "st \<noteq> DkError \<Longrightarrow> cw_state w' \<noteq> kCodecError" "eos \<Longrightarrow> b = None" "b \<noteq> None \<Longrightarrow> st = DkOk"
  using assms by (auto simp: DequeueOutputBuffer_def Let_def split: if_splits decoder_code.splits)

lemma OutputBuffer_Destroy_usable:
  "cw_codec (OutputBuffer_Destroy here b w) = cw_codec w" "cw_state (OutputBuffer_Destroy here b w) = cw_state w"
  by (simp_all add: OutputBuffer_Destroy_def ReleaseCodecOutputBuffer_def split: option.split)

text \<open>A decoder whose codec is replaced by one that behaves.\<close>

lemma new_codec_contract:
  assumes "vd_contract s" and "vd_codec s = Some m" and "behaved n" and "usable n"
    and "vd_codec t = Some n" "vd_retired t = vd_retired s" "vd_creations t = vd_creations s"
    "vd_state t = vd_state s" "vd_target t = vd_target s" "vd_deferred_realloc t = vd_deferred_realloc s"
  shows "vd_contract t"
  using assms by (simp add: vd_contract_def contract_defs)

lemma DequeueOutput_contract:
  assumes c: "vd_contract s"
  shows "vd_contract (snd (DequeueOutput r s))"
proof (cases "vd_codec s")
  case (Some m)
  show ?thesis
  proof (cases "IsDrained (cm_wrapper m) \<or> vd_waiting_key s")
    case True
    with c Some show ?thesis by (simp add: DequeueOutput_def)
  next
    case False
    obtain st eos b w where w: "DequeueOutputBuffer (cr_dequeue r) (cm_wrapper m) = (st, eos, b, w)"
      by (metis prod_cases4)
    let ?m = "cm_step m (CeDequeue (cr_dequeue r))" and ?s = "put_wrapper w s"
    have u: "usable m" and bm: "behaved m" using c Some by (simp_all add: vd_contract_def contract_defs)
    have m: "?m = m\<lparr>cm_wrapper := w, cm_buffers := cm_buffers m @ (case b of None \<Rightarrow> [] | Some b \<Rightarrow> [b])\<rparr>"
      using w by simp
    have beh: "behaved ?m" using u bm by (intro behaved_step) simp_all
    note du = Dequeue_usable [OF w]
    have us: "cw_codec w" "st \<noteq> DkError \<Longrightarrow> cw_state w \<noteq> kCodecError" using du u by (auto simp: usable_def)
    show ?thesis
    proof (cases b)
      case None
      then have mw: "?m = m\<lparr>cm_wrapper := w\<rparr>" using m by simp
      have ok: "cm_ok m (CeDequeue (cr_dequeue r))" using u by simp
      have mid: "codecs_behave ?s" "one_codec ?s"
        using codec_op [OF _ _ Some ok mw] c by (simp_all add: vd_contract_def)
      have good: "vd_contract ?s" if "st \<noteq> DkError"
        by (rule new_codec_contract [OF c Some beh]) (use us that mw Some in \<open>simp_all add: usable_def\<close>)
      then have "st \<noteq> DkError \<Longrightarrow> vd_contract (?s\<lparr>vd_after := a\<rparr>)" for a
        by (rule vd_contract_same) simp_all
      with good have "st \<noteq> DkError \<Longrightarrow> vd_contract (OnCodecDrained (FlushCodec c) (?s\<lparr>vd_after := a\<rparr>))"
        "st \<noteq> DkError \<Longrightarrow> vd_contract (OnCodecDrained (FlushCodec c) ?s)"
        "st \<noteq> DkError \<Longrightarrow> vd_contract (?s\<lparr>vd_after := a\<rparr>)" for a c
        by (auto intro: OnCodecDrained_contract FlushCodec_contract)
      with good EnterTerminalState_contract [OF mid] False w Some None show ?thesis
        by (simp add: DequeueOutput_def Let_def split: dequeue_status.split)
    next
      case b: (Some x)
      then have st: "st = DkOk" "\<not> eos" using du u by (auto simp: usable_def)
      let ?d = "OutputBuffer_Destroy True x w"
      have um: "usable ?m" using us m st by (simp add: usable_def)
      have "behaved (cm_step ?m (CeDestroy (length (cm_buffers m)) True))"
        using beh by (rule behaved_step) (simp add: w b)
      moreover have "cm_step ?m (CeDestroy (length (cm_buffers m)) True) = m\<lparr>cm_wrapper := ?d\<rparr>"
        by (simp add: w b on_wrapper_def drop_at_def)
      ultimately have bd: "behaved (m\<lparr>cm_wrapper := ?d\<rparr>)" by simp
      have ud: "usable (m\<lparr>cm_wrapper := ?d\<rparr>)" using us st by (simp add: usable_def OutputBuffer_Destroy_usable)
      have dropped: "vd_contract (put_wrapper ?d ?s)"
        by (rule new_codec_contract [OF c Some bd ud]) (simp_all add: Some)
      have mk: "?m = \<lparr>cm_wrapper = w, cm_buffers = cm_buffers m @ [x]\<rparr>" using m b by simp
      have kept: "vd_contract t"
        if "vd_codec t = Some \<lparr>cm_wrapper = w, cm_buffers = cm_buffers m @ [x]\<rparr>" "vd_retired t = vd_retired s"
          "vd_creations t = vd_creations s" "vd_state t = vd_state s" "vd_target t = vd_target s"
          "vd_deferred_realloc t = vd_deferred_realloc s" for t
        by (rule new_codec_contract [OF c Some beh um]) (use that mk in simp_all)
      from dropped False w Some b st show ?thesis
        by (auto simp: DequeueOutput_def Let_def intro!: kept)
    qed
  qed
qed (use assms in \<open>simp add: DequeueOutput_def\<close>)

lemma PumpCodec_rule:
  assumes "P s" and q: "\<And>r s. P s \<Longrightarrow> P (snd (QueueInput r s))" and d: "\<And>r s. P s \<Longrightarrow> P (snd (DequeueOutput r s))"
  shows "P (PumpCodec rs s)"
  using assms(1)
proof (induction rs s rule: PumpCodec.induct)
  case (1 rs s)
  obtain i t j u where t: "QueueInput (reply_of rs) s = (i, t)" and u: "DequeueOutput (reply_of rs) t = (j, u)"
    by force
  have "P u" using q [OF 1(2), of "reply_of rs"] d [of t "reply_of rs"] t u by simp
  with 1(1) [OF t [symmetric] u [symmetric]] t u show ?case
    by (subst PumpCodec.simps) simp
qed

lemmas PumpCodec_contract = PumpCodec_rule [where P = vd_contract, OF _ QueueInput_contract DequeueOutput_contract]

lemma codec_op_contract:
  assumes "vd_contract s" and "vd_codec s = Some m" and "cm_ok m e" and "cm_step m e = m\<lparr>cm_wrapper := w\<rparr>"
    and "usable (m\<lparr>cm_wrapper := w\<rparr>)"
  shows "vd_contract (put_wrapper w s)"
  using assms codec_op [OF _ _ assms(2-4)] codec_op_usable [OF assms(5,2)] by (simp add: vd_contract_def)

lemma contract_usable: "vd_contract s \<Longrightarrow> vd_codec s = Some m \<Longrightarrow> usable m"
  by (simp add: vd_contract_def codec_usable_def)

lemma error_contract: "vd_contract s \<Longrightarrow> vd_contract (EnterTerminalState VdError s)"
  by (rule EnterTerminalState_contract) (simp_all add: vd_contract_def)

lemma CancelPendingDecodes_contract: "vd_contract s \<Longrightarrow> vd_contract (CancelPendingDecodes status s)"
  by (erule vd_contract_same) simp_all

text \<open>The wrapper operations that leave no error.\<close>

lemma quiet_ops_contract:
  assumes c: "vd_contract s" and m: "vd_codec s = Some m"
  shows "vd_contract (put_wrapper (snd (SetDecryptionConfig secure code (cm_wrapper m))) s)"
    "vd_contract (put_wrapper (SetVideoSurface v (cm_wrapper m)) s)"
    "vd_contract (put_wrapper (RecycleDmaBuffer (cm_wrapper m)) s)"
    "vd_contract (put_wrapper (ResumeDmaBuffer (cm_wrapper m)) s)"
    "vd_contract (put_wrapper (DiscardOutputBuffers (cm_wrapper m)) s)"
proof -
  note u = contract_usable [OF c m]
  show "vd_contract (put_wrapper (snd (SetDecryptionConfig secure code (cm_wrapper m))) s)"
    by (rule codec_op_contract [OF c m, of "CeDecryption secure code"])
      (use u in \<open>simp_all add: usable_def on_wrapper_def SetDecryptionConfig_def\<close>)
  show "vd_contract (put_wrapper (SetVideoSurface v (cm_wrapper m)) s)"
    by (rule codec_op_contract [OF c m, of "CeVideoSurface v"])
      (use u in \<open>simp_all add: usable_def on_wrapper_def SetVideoSurface_def\<close>)
  show "vd_contract (put_wrapper (RecycleDmaBuffer (cm_wrapper m)) s)"
    by (rule codec_op_contract [OF c m, of CeRecycle])
      (use u in \<open>simp_all add: usable_def on_wrapper_def RecycleDmaBuffer_def\<close>)
  show "vd_contract (put_wrapper (ResumeDmaBuffer (cm_wrapper m)) s)"
    by (rule codec_op_contract [OF c m, of CeResume])
      (use u in \<open>simp_all add: usable_def on_wrapper_def ResumeDmaBuffer_def\<close>)
  show "vd_contract (put_wrapper (DiscardOutputBuffers (cm_wrapper m)) s)"
    by (rule codec_op_contract [OF c m, of CeDiscard])
      (use u in \<open>simp_all add: usable_def on_wrapper_def DiscardOutputBuffers_def DiscardOutputBuffers_Locked_def\<close>)
qed

lemma TransitionToTargetSurface_contract:
  assumes c: "vd_contract s"
  shows "vd_contract (TransitionToTargetSurface code s)"
proof (cases "vd_codec s")
  case (Some m)
  have ok: "cm_ok m (CeSetSurface (vd_target s) code)"
    using c Some contract_usable [OF c Some] by (auto simp: vd_contract_def one_codec_def has_codec_def)
  obtain b w where w: "SetSurface (vd_target s) code (cm_wrapper m) = (b, w)" by force
  have step: "cm_step m (CeSetSurface (vd_target s) code) = m\<lparr>cm_wrapper := w\<rparr>" using w by (simp add: on_wrapper_def)
  have mid: "codecs_behave (put_wrapper w s)" "one_codec (put_wrapper w s)"
    using codec_op [OF _ _ Some ok step] c by (simp_all add: vd_contract_def)
  have "vd_contract (EnterTerminalState VdError (vd_call x (put_wrapper w s)))" for x
    by (rule EnterTerminalState_contract) (use mid in \<open>simp_all add: contract_defs\<close>)
  moreover have "vd_contract (vd_call x (put_wrapper w s))" if b for x
  proof -
    have "usable (m\<lparr>cm_wrapper := w\<rparr>)" using w that ok by (auto simp: usable_def SetSurface_def Let_def split: if_splits)
    then have "vd_contract (put_wrapper w s)" by (rule codec_op_contract [OF c Some ok step])
    then show ?thesis by (rule vd_contract_same) simp_all
  qed
  ultimately show ?thesis using Some w by (simp add: TransitionToTargetSurface_def Let_def)
qed (use c in \<open>simp add: TransitionToTargetSurface_def\<close>)

lemma StartDrainingCodec_contract:
  assumes c: "vd_contract s"
  shows "vd_contract (StartDrainingCodec drain rs s)"
proof -
  let ?s = "s\<lparr>vd_drain := Some drain\<rparr>"
  let ?t = "case vd_codec ?s of None \<Rightarrow> ?s | Some m \<Rightarrow> put_wrapper (DiscardOutputBuffers (cm_wrapper m)) ?s"
  have "vd_contract ?s" by (rule vd_contract_same [OF c]) simp_all
  then have t: "vd_contract ?t" using quiet_ops_contract(5) [of ?s] by (cases "vd_codec s") auto
  have "vd_contract (?t\<lparr>vd_deferred_flush := b\<rparr>)" "vd_contract (?t\<lparr>vd_pending := p\<rparr>)" for b p
    by (rule vd_contract_same [OF t]; simp)+
  with t show ?thesis
    unfolding StartDrainingCodec_def Let_def
    by (simp add: OnCodecDrained_contract FlushCodec_contract PumpCodec_contract)
qed

lemma OnSurfaceChosen_contract:
  assumes c: "vd_contract s" and "vd_texture s \<noteq> None"
  shows "vd_contract (OnSurfaceChosen s)"
proof (cases "vd_codec s")
  case None
  with assms show ?thesis
    by (auto simp: OnSurfaceChosen_def Let_def vd_contract_def contract_defs le_Suc_eq)
next
  case (Some m)
  with c have "vd_state s = VdRunning" by (simp add: vd_contract_def contract_defs)
  with assms Some show ?thesis
    by (auto simp: OnSurfaceChosen_def Let_def vd_contract_def contract_defs)
qed

lemma OnCodecConfigured_contract:
  assumes c: "vd_contract s" and none: "vd_codec s = None" "creating s = 0" and run: "vd_state s = VdRunning" "vd_target s \<noteq> None"
  shows "vd_contract (OnCodecConfigured surface codec rs s)"
proof -
  let ?m = "\<lambda>k. \<lparr>cm_wrapper = CodecWrapper_Impl k surface True, cm_buffers = []\<rparr>"
  have s: "vd_contract (s\<lparr>vd_codec := Some (?m k)\<rparr>)" for k
    using c none run behaved_start
    by (simp add: vd_contract_def contract_defs usable_def CodecWrapper_Impl_def)
  have v: "vd_contract (put_wrapper (SetVideoSurface v (CodecWrapper_Impl k surface True))
      (s\<lparr>vd_codec := Some (?m k), vd_surface_id := i\<rparr>))" for k v i
    using quiet_ops_contract(2) [of "s\<lparr>vd_codec := Some (?m k), vd_surface_id := i\<rparr>" "?m k" v]
      vd_contract_same [OF s [of k], of "s\<lparr>vd_codec := Some (?m k), vd_surface_id := i\<rparr>"] by simp
  show ?thesis
  proof (cases codec)
    case (Some k)
    with s [of "cf_config k"] v [of _ "cf_config k"] c show ?thesis
      by (simp add: OnCodecConfigured_def Let_def error_contract PumpCodec_contract)
  qed (simp add: OnCodecConfigured_def error_contract c)
qed

lemma OnCodecConfiguredInternal_contract:
  assumes c: "vd_contract s"
  shows "vd_contract (OnCodecConfiguredInternal codec rs s)"
proof (cases "vd_creations s")
  case (Cons p rest)
  obtain surface weak where p: "p = (surface, weak)" by force
  let ?s = "s\<lparr>vd_creations := rest\<rparr>"
  have cs: "creating s = of_bool weak + creating ?s" using Cons p by (simp add: creating_def)
  have s: "vd_contract ?s" using c Cons p by (cases weak) (auto simp: vd_contract_def contract_defs)
  have "vd_contract (OnCodecConfigured surface codec rs ?s)" if weak
    by (rule OnCodecConfigured_contract [OF s])
      (use cs c that in \<open>auto simp: vd_contract_def one_codec_def has_codec_def\<close>)
  moreover have "vd_contract (vd_call x ?s)" for x by (rule vd_contract_same [OF s]) simp_all
  ultimately show ?thesis using s Cons p by (simp add: OnCodecConfiguredInternal_def Let_def)
qed (use c in \<open>simp add: OnCodecConfiguredInternal_def\<close>)

lemma OnMediaCryptoReady_contract:
  assumes c: "vd_contract s"
  shows "vd_contract (OnMediaCryptoReady init_cb session secure code s)"
proof -
  let ?s = "s\<lparr>vd_ready_cb := None, vd_crypto := False, vd_session := None, vd_secure := secure\<rparr>"
  let ?t = "case vd_codec ?s of None \<Rightarrow> ?s
    | Some m \<Rightarrow> put_wrapper (snd (SetDecryptionConfig secure code (cm_wrapper m))) ?s"
  have s: "vd_contract ?s" by (rule vd_contract_same [OF c]) simp_all
  then have t: "vd_contract ?t" using quiet_ops_contract(1) [of ?s] by (cases "vd_codec s") auto
  have "vd_contract (vd_call x u)" if "vd_contract u" for x and u :: "'a video_decoder"
    by (rule vd_contract_same [OF that]) simp_all
  moreover have "vd_contract (s\<lparr>vd_session := session, vd_secure := secure\<rparr>)"
    by (rule vd_contract_same [OF c]) simp_all
  ultimately show ?thesis using t error_contract [OF t]
    unfolding OnMediaCryptoReady_def Let_def by simp
qed

lemma vd_contract_step:
  assumes c: "vd_contract s" and ok: "vd_ok s e"
  shows "vd_contract (vd_step s e)"
proof -
  have same: "vd_contract t"
    if "vd_codec t = vd_codec s" "vd_retired t = vd_retired s" "vd_creations t = vd_creations s"
      "vd_state t = vd_state s" "vd_target t = vd_target s" "vd_deferred_realloc t = vd_deferred_realloc s" for t
    using that by (rule vd_contract_same [OF c])
  show ?thesis
  proof (cases e)
    case (VeInitialize config cdm t)
    then show ?thesis
      by (auto simp: Decoder_Initialize_def SetCdm_def Let_def intro!: same)
  next
    case (VeCryptoReady session secure code)
    then show ?thesis by (auto simp: c intro!: OnMediaCryptoReady_contract same)
  next
    case (VeKey additional rs)
    then show ?thesis by (auto simp: c OnCdmContextEvent_def intro!: PumpCodec_contract same)
  next
    case (VeFactory owner)
    then show ?thesis
      by (auto simp: c OnVideoFrameFactoryInitialized_def intro!: error_contract OnSurfaceChosen_contract same)
  next
    case (VeDecode buffer t rs)
    then show ?thesis
      by (auto simp: c Decoder_Decode_def StartLazyInit_def Let_def split: option.split intro!: PumpCodec_contract same)
  next
    case (VeReset t rs)
    then show ?thesis
      by (auto simp: Decoder_Reset_def Let_def intro!: StartDrainingCodec_contract same)
  next
    case (VeDestroy rs)
    have "vd_contract (DestroyAsync rs s)"
    proof -
      have inval: "vd_contract (CancelPendingDecodes DsAborted (invalidate_creations t))"
        if "vd_contract t" for t :: "'a video_decoder"
        using that by (intro CancelPendingDecodes_contract)
          (auto simp: vd_contract_def contract_defs invalidate_creations_def case_prod_beta filter_empty_conv o_def)
      show ?thesis
        unfolding DestroyAsync_def Let_def
        by (intro StartDrainingCodec_contract inval) (auto split: option.split intro!: same)
    qed
    with VeDestroy show ?thesis by simp
  next
    case VeEos
    then show ?thesis by (auto simp: RunEosDecodeCb_def Let_def split: option.split intro!: same)
  next
    case (VeFrame made)
    then show ?thesis
      by (auto simp: ForwardVideoFrame_def Let_def intro!: error_contract same)
  next
    case (VePip enable code)
    then show ?thesis by (auto simp: PipEnable_def Let_def intro!: TransitionToTargetSurface_contract same)
  next
    case (VeOutput e')
    then obtain m where m: "vd_codec s = Some m" "cm_ok m e'" "of_a_buffer e'"
      using ok by (auto split: option.splits)
    have "behaved (cm_step m e')" using c m by (intro behaved_step) (simp_all add: vd_contract_def contract_defs)
    moreover have "usable (cm_step m e')"
      using contract_usable [OF c m(1)] m(3)
      by (cases e') (simp_all add: usable_def on_wrapper_def ReleaseToSurface_eq OutputBuffer_Destroy_usable)
    ultimately show ?thesis using VeOutput m by (intro new_codec_contract [OF c m(1)]) simp_all
  next
    case (VeRetired k e')
    with ok have "behaved (cm_step (vd_retired s ! k) e')"
      using c by (intro behaved_step) (simp_all add: vd_contract_def contract_defs)
    with c VeRetired show ?thesis
      by (auto simp: vd_contract_def contract_defs dest!: subsetD [OF set_update_subset_insert])
  next
    case VeDelete
    have "vd_retired (ReleaseCodec s) = vd_retired s @ map (\<lambda>m. cm_step m CeTake) (case vd_codec s of None \<Rightarrow> [] | Some m \<Rightarrow> [m])"
      by (simp add: ReleaseCodec_def on_wrapper_def Let_def split: option.split prod.split)
    then have "one_codec (ReleaseCodec s)" "codec_usable (ReleaseCodec s)"
      using c by (auto simp: vd_contract_def contract_defs)
    moreover have "codecs_behave (ReleaseCodec s)" using c by (intro ReleaseCodec_behaves) (simp add: vd_contract_def)
    ultimately show ?thesis using VeDelete by (simp add: vd_contract_def)
  qed (use c in \<open>auto simp: OnCodecConfiguredInternal_contract PumpCodec_contract Decoder_SetVideoSurface_def
      Decoder_RecycleDmaBuffer_def Decoder_ResumeDmaBuffer_def quiet_ops_contract split: option.split intro!: same\<close>)
qed

end
