(* ===== verification/Decoder_Requests.thy ===== *)
theory Decoder_Requests
  imports Decoder_Machine
begin

text \<open>
  Over every run of the video decoder, a request of the client waits in the queue or for the
  end of the stream, or it has been answered, once; with an error, or when the decoder is being
  destroyed, none waits.
\<close>

section \<open>Every request is answered once\<close>

definition answers :: "nat \<Rightarrow> 'w video_decoder \<Rightarrow> nat" where
  "answers t s = length (filter (\<lambda>c. case c of VcDecoded u st \<Rightarrow> u = t | _ \<Rightarrow> False) (vd_log s))"

definition waiting :: "nat \<Rightarrow> 'w video_decoder \<Rightarrow> nat" where
  "waiting t s = count_list (map snd (vd_pending s)) (Some t) + of_bool (vd_eos_cb s = Some (Some t))"

text \<open>The end of the stream is the last thing that is asked for.\<close>

definition eos_last :: "'w video_decoder \<Rightarrow> bool" where
  "eos_last s \<longleftrightarrow> True \<notin> fst ` set (butlast (vd_pending s)) \<and> (vd_eos_cb s \<noteq> None \<longrightarrow> True \<notin> fst ` set (vd_pending s))"

definition same_tickets :: "'w video_decoder \<Rightarrow> 'w video_decoder \<Rightarrow> bool" where
  "same_tickets s u \<longleftrightarrow> (\<forall>t. waiting t u + answers t u = waiting t s + answers t s) \<and> (eos_last s \<longrightarrow> eos_last u)"

fun not_decoded :: "'w video_call \<Rightarrow> bool" where
  "not_decoded (VcDecoded t st) = False"
| "not_decoded _ = True"

lemma answers_call [simp]: "not_decoded c \<Longrightarrow> answers t (vd_call c s) = answers t s"
  by (cases c) (simp_all add: answers_def)

lemma answers_cong: "vd_log u = vd_log s \<Longrightarrow> answers t u = answers t s"
  by (simp add: answers_def)

lemma answers_upd [simp]:
  "answers t (s\<lparr>vd_pending := p\<rparr>) = answers t s" "answers t (s\<lparr>vd_eos_cb := e\<rparr>) = answers t s"
  "answers t (s\<lparr>vd_state := x1\<rparr>) = answers t s" "answers t (s\<lparr>vd_drain := x2\<rparr>) = answers t s"
  "answers t (s\<lparr>vd_reset_cb := x3\<rparr>) = answers t s" "answers t (s\<lparr>vd_codec := x4\<rparr>) = answers t s"
  "answers t (s\<lparr>vd_creations := x5\<rparr>) = answers t s" "answers t (s\<lparr>vd_target := x6\<rparr>) = answers t s"
  "answers t (s\<lparr>vd_texture := x7\<rparr>) = answers t s" "answers t (s\<lparr>vd_deferred_flush := b1\<rparr>) = answers t s"
  "answers t (s\<lparr>vd_deferred_realloc := b2\<rparr>) = answers t s" "answers t (s\<lparr>vd_waiting_key := b3\<rparr>) = answers t s"
  "answers t (s\<lparr>vd_after := x8\<rparr>) = answers t s" "answers t (s\<lparr>vd_frames := x9\<rparr>) = answers t s"
  "answers t (s\<lparr>vd_config := x10\<rparr>) = answers t s" "answers t (s\<lparr>vd_alive := b4\<rparr>) = answers t s"
  "answers t (s\<lparr>vd_ready_cb := x11\<rparr>) = answers t s" "answers t (s\<lparr>vd_crypto := b5\<rparr>) = answers t s"
  "answers t (s\<lparr>vd_session := x12\<rparr>) = answers t s" "answers t (s\<lparr>vd_secure := b6\<rparr>) = answers t s"
  "answers t (s\<lparr>vd_generation := x13\<rparr>) = answers t s" "answers t (s\<lparr>vd_lazy_init := b7\<rparr>) = answers t s"
  "answers t (s\<lparr>vd_factory_pending := b8\<rparr>) = answers t s" "answers t (s\<lparr>vd_surface_id := x14\<rparr>) = answers t s"
  "answers t (s\<lparr>vd_last_width := x15\<rparr>) = answers t s" "answers t (s\<lparr>vd_retired := x16\<rparr>) = answers t s"
  by (simp_all add: answers_def)

lemma answers_run [simp]: "answers t (run_decode_cb cb st s) = answers t s + of_bool (cb = Some t)"
  by (auto simp: run_decode_cb_def answers_def split: option.split)

lemma answers_fold: "answers t (fold (\<lambda>(_, cb). run_decode_cb cb st) ps s) = answers t s + count_list (map snd ps) (Some t)"
  by (induction ps arbitrary: s) auto

lemma answers_cancel [simp]: "answers t (CancelPendingDecodes st s) = answers t s + waiting t s"
proof -
  show ?thesis
    by (auto simp: CancelPendingDecodes_def Let_def answers_fold waiting_def split: option.split)
qed

lemma waiting_cancel [simp]: "waiting t (CancelPendingDecodes st s) = 0"
  by (simp add: waiting_def)

lemma answers_release [simp]: "answers t (ReleaseCodec s) = answers t s"
  by (auto simp: ReleaseCodec_def Let_def split: option.split prod.split intro: answers_cong)

lemma answers_create [simp]: "answers t (CreateCodec s) = answers t s"
  by (simp add: CreateCodec_def Let_def)

lemma answers_put [simp]: "answers t (put_wrapper w s) = answers t s"
  by (simp add: answers_def)

lemma ticketsI:
  "(\<And>t. waiting t u + answers t u = waiting t s + answers t s) \<Longrightarrow> (eos_last s \<Longrightarrow> eos_last u) \<Longrightarrow> same_tickets s u"
  by (simp add: same_tickets_def)

lemma tickets_refl [simp]: "same_tickets s s"
  by (simp add: same_tickets_def)

lemma tickets_trans: "same_tickets s u \<Longrightarrow> same_tickets u v \<Longrightarrow> same_tickets s v"
  by (simp add: same_tickets_def)

text \<open>A step that touches neither the queue nor, with an answer, the log.\<close>

lemma tickets_quiet:
  "vd_pending u = vd_pending s \<Longrightarrow> vd_eos_cb u = vd_eos_cb s \<Longrightarrow> (\<And>t. answers t u = answers t s) \<Longrightarrow> same_tickets s u"
  by (simp add: same_tickets_def waiting_def eos_last_def)

lemma tickets_call: "not_decoded c \<Longrightarrow> same_tickets s u \<Longrightarrow> same_tickets s (vd_call c u)"
  by (erule tickets_trans) (rule tickets_quiet; simp)

lemma tickets_cancel: "same_tickets s (CancelPendingDecodes st s)"
  by (rule ticketsI) (simp_all add: eos_last_def)

lemma tickets_drained:
  assumes "\<And>u. same_tickets u (flush u)"
  shows "same_tickets s (OnCodecDrained flush s)"
proof -
  have 1: "same_tickets s (s\<lparr>vd_drain := None\<rparr>)" by (rule tickets_quiet) (simp_all add: answers_def)
  have 2: "same_tickets s (vd_call (VcReset t) (s\<lparr>vd_drain := None, vd_reset_cb := None\<rparr>))" for t
    by (rule tickets_call) (simp, rule tickets_quiet, simp_all add: answers_def)
  have 3: "same_tickets s (vd_call VcDeleteSoon (s\<lparr>vd_drain := None\<rparr>))" by (rule tickets_call) (simp_all add: 1)
  note 4 = tickets_trans [OF 1 assms] tickets_trans [OF 2 assms]
  show ?thesis
    using 1 2 3 4 by (simp add: OnCodecDrained_def Let_def split: option.split)
qed

lemma tickets_terminal: "same_tickets s (EnterTerminalState state s)"
proof -
  let ?s = "ReleaseCodec (invalidate_creations (s\<lparr>vd_state := state\<rparr>))\<lparr>vd_target := None, vd_texture := None\<rparr>"
  have s: "same_tickets s ?s"
    by (rule tickets_quiet) (simp_all add: invalidate_creations_def)
  note c = tickets_trans [OF s tickets_cancel [of ?s DsFailed]]
  have d: "same_tickets u (OnCodecDrained id u)" for u :: "'a video_decoder"
    by (rule tickets_drained) simp
  show ?thesis
    using s c tickets_trans [OF s d] tickets_trans [OF c d]
    unfolding EnterTerminalState_def Let_def by (cases "state = VdError") simp_all
qed

lemma tickets_put: "same_tickets s (put_wrapper w s)"
  by (rule tickets_quiet) simp_all

lemma tickets_flush: "same_tickets s (FlushCodec code s)"
proof -
  let ?s = "s\<lparr>vd_deferred_flush := False\<rparr>"
  let ?t = "if vd_deferred_realloc ?s then CreateCodec (ReleaseCodec (?s\<lparr>vd_deferred_realloc := False\<rparr>)) else ?s"
  have t: "same_tickets s ?t" by (rule tickets_quiet) simp_all
  have p: "same_tickets s (put_wrapper w ?t)" for w by (rule tickets_trans [OF t tickets_put])
  have e: "same_tickets s (EnterTerminalState VdError (put_wrapper w ?t))" for w
    by (rule tickets_trans [OF p tickets_terminal])
  show ?thesis unfolding FlushCodec_def Let_def
    using t p e by (simp only: split: option.split prod.split) auto
qed

text \<open>A request leaves the queue: it is answered, or it is the end of the stream and waits for it.\<close>

lemma tickets_queued:
  assumes e: "eos_last s" and p: "vd_pending s = (eos, cb) # rest"
    and u: "vd_pending u = rest" "\<And>t. answers t u = answers t s + of_bool (\<not> eos \<and> cb = Some t)"
      "vd_eos_cb u = (if eos then Some cb else vd_eos_cb s)"
  shows "same_tickets s u"
proof (cases eos)
  case True
  with e p have "rest = []" "vd_eos_cb s = None" by (auto simp: eos_last_def split: if_splits)
  with True p u show ?thesis by (intro ticketsI) (auto simp: waiting_def eos_last_def)
next
  case False
  have "set (butlast rest) \<subseteq> set (butlast (vd_pending s))" using p by (cases rest) auto
  with False e p u have "eos_last u" by (auto simp: eos_last_def)
  with False p u show ?thesis by (intro ticketsI) (auto simp: waiting_def)
qed

lemma tickets_queue:
  assumes e: "eos_last s"
  shows "same_tickets s (snd (QueueInput r s))"
proof (cases "vd_codec s")
  case (Some m)
  show ?thesis
  proof (cases "vd_waiting_key s \<or> IsDrained (cm_wrapper m) \<or> vd_deferred_flush s \<or> vd_pending s = []")
    case True
    with Some show ?thesis by (auto simp: QueueInput_def tickets_flush)
  next
    case False
    then obtain eos cb rest where p: "vd_pending s = (eos, cb) # rest" by (cases "vd_pending s") auto
    obtain st w where w: "QueueInputBuffer eos (cr_queue r) (cm_wrapper m) = (st, w)" by force
    note put = tickets_put [of s w]
    have key: "same_tickets s (vd_call VcWaiting (put_wrapper w s\<lparr>vd_waiting_key := True\<rparr>))"
      by (rule tickets_quiet) simp_all
    have out: "same_tickets s (put_wrapper w s\<lparr>vd_eos_cb := Some cb, vd_pending := rest\<rparr>)" if eos
      by (rule tickets_queued [OF e p]) (simp_all add: that)
    have ans: "same_tickets s (run_decode_cb cb DsOk (put_wrapper w s)\<lparr>vd_pending := rest\<rparr>)" if "\<not> eos"
      by (rule tickets_queued [OF e p]) (simp_all add: that)
    show ?thesis
      using put key out ans tickets_trans [OF put tickets_terminal] False p w Some
      by (cases st) (simp_all add: QueueInput_def Let_def)
  qed
qed (simp add: QueueInput_def)

lemma tickets_dequeue: "same_tickets s (snd (DequeueOutput r s))"
proof (cases "vd_codec s")
  case (Some m)
  obtain st eos b w where w: "DequeueOutputBuffer (cr_dequeue r) (cm_wrapper m) = (st, eos, b, w)"
    by (metis prod_cases4)
  let ?s = "put_wrapper w s"
  note put = tickets_put [of s w]
  have after: "same_tickets s (?s\<lparr>vd_after := a\<rparr>)" for a by (rule tickets_quiet) simp_all
  have drain: "same_tickets v (OnCodecDrained (FlushCodec c) v)" for c and v :: "'a video_decoder"
    by (rule tickets_drained) (rule tickets_flush)
  have frame: "same_tickets s (vd_call (VcCreateFrame i d) (?s\<lparr>vd_codec := x, vd_frames := f\<rparr>))"
    "same_tickets s (vd_call (VcCreateFrame i d) (?s\<lparr>vd_config := k, vd_codec := x, vd_frames := f\<rparr>))" for i d k x f
    by (rule tickets_quiet; simp)+
  show ?thesis
    using w Some put after tickets_trans [OF put tickets_terminal] tickets_trans [OF put drain]
      tickets_trans [OF after drain] tickets_trans [OF put tickets_put] frame
    by (simp add: DequeueOutput_def Let_def split: dequeue_status.split option.split)
qed (simp add: DequeueOutput_def)

lemma tickets_pump:
  assumes "eos_last s"
  shows "same_tickets s (PumpCodec rs s)"
proof -
  have "eos_last (PumpCodec rs s) \<and> same_tickets s (PumpCodec rs s)"
  proof (rule PumpCodec_rule [where P = "\<lambda>u. eos_last u \<and> same_tickets s u"])
    fix r u assume u: "eos_last u \<and> same_tickets s u"
    then show "eos_last (snd (QueueInput r u)) \<and> same_tickets s (snd (QueueInput r u))"
      "eos_last (snd (DequeueOutput r u)) \<and> same_tickets s (snd (DequeueOutput r u))"
      using tickets_queue [of u r] tickets_dequeue [of u r] by (auto simp: same_tickets_def)
  qed (use assms in simp)
  then show ?thesis ..
qed

text \<open>
  What the pump and an error do to the requests that wait: none comes in, and with an error
  none is left.
\<close>

definition dwindles :: "'w video_decoder \<Rightarrow> 'w video_decoder \<Rightarrow> bool" where
  "dwindles s u \<longleftrightarrow> set (vd_pending u) \<subseteq> set (vd_pending s) \<and>
     set_option (vd_eos_cb u) \<subseteq> set_option (vd_eos_cb s) \<union> snd ` set (vd_pending s) \<and>
     (vd_state u = VdError \<longrightarrow> vd_state s \<noteq> VdError \<longrightarrow> vd_pending u = [] \<and> vd_eos_cb u = None) \<and>
     vd_alive u = vd_alive s"

lemma dwindles_refl [simp]: "dwindles s s"
  by (simp add: dwindles_def)

lemma dwindles_trans:
  assumes "dwindles s u" and "dwindles u v"
  shows "dwindles s v"
proof -
  have p: "set (vd_pending v) \<subseteq> set (vd_pending u)" "set (vd_pending u) \<subseteq> set (vd_pending s)"
    and e: "set_option (vd_eos_cb v) \<subseteq> set_option (vd_eos_cb u) \<union> snd ` set (vd_pending u)"
      "set_option (vd_eos_cb u) \<subseteq> set_option (vd_eos_cb s) \<union> snd ` set (vd_pending s)"
    using assms by (simp_all add: dwindles_def)
  have "snd ` set (vd_pending u) \<subseteq> snd ` set (vd_pending s)" using p(2) by (rule image_mono)
  with e have "set_option (vd_eos_cb v) \<subseteq> set_option (vd_eos_cb s) \<union> snd ` set (vd_pending s)" by blast
  moreover have "vd_pending v = [] \<and> vd_eos_cb v = None" if "vd_state v = VdError" "vd_state s \<noteq> VdError"
  proof (cases "vd_state u = VdError")
    case True
    with assms(1) that have "vd_pending u = []" "vd_eos_cb u = None" by (simp_all add: dwindles_def)
    with p e show ?thesis by (cases "vd_eos_cb v") auto
  qed (use assms(2) that in \<open>simp add: dwindles_def\<close>)
  moreover have "vd_alive v = vd_alive s" using assms by (simp add: dwindles_def)
  ultimately show ?thesis using p unfolding dwindles_def by blast
qed

lemma dwindles_quiet:
  "vd_pending u = vd_pending s \<Longrightarrow> vd_eos_cb u = vd_eos_cb s \<Longrightarrow> vd_state u = vd_state s \<Longrightarrow> vd_alive u = vd_alive s \<Longrightarrow> dwindles s u"
  by (simp add: dwindles_def)

lemma dwindles_error: "dwindles s (EnterTerminalState VdError s)"
  by (simp add: dwindles_def)

lemma dwindles_drained:
  assumes "\<And>u. dwindles u (flush u)"
  shows "dwindles s (OnCodecDrained flush s)"
proof -
  have 1: "dwindles s (s\<lparr>vd_drain := None\<rparr>)" "dwindles s (vd_call VcDeleteSoon (s\<lparr>vd_drain := None\<rparr>))"
    "dwindles s (vd_call (VcReset t) (s\<lparr>vd_drain := None, vd_reset_cb := None\<rparr>))" for t
    by (rule dwindles_quiet; simp)+
  note 2 = dwindles_trans [OF 1(1) assms] dwindles_trans [OF 1(3) assms]
  show ?thesis using 1 2 by (simp add: OnCodecDrained_def Let_def split: option.split)
qed

lemma dwindles_flush: "dwindles s (FlushCodec code s)"
proof -
  let ?s = "s\<lparr>vd_deferred_flush := False\<rparr>"
  let ?t = "if vd_deferred_realloc ?s then CreateCodec (ReleaseCodec (?s\<lparr>vd_deferred_realloc := False\<rparr>)) else ?s"
  have t: "dwindles s ?t" "dwindles s (put_wrapper w ?t)" for w by (rule dwindles_quiet; simp)+
  have e: "dwindles s (EnterTerminalState VdError (put_wrapper w ?t))" for w
    by (rule dwindles_trans [OF t(2) dwindles_error])
  show ?thesis unfolding FlushCodec_def Let_def
    using t e by (simp only: split: option.split prod.split) auto
qed

lemma dwindles_queue: "dwindles s (snd (QueueInput r s))"
proof (cases "vd_codec s")
  case (Some m)
  show ?thesis
  proof (cases "vd_waiting_key s \<or> IsDrained (cm_wrapper m) \<or> vd_deferred_flush s \<or> vd_pending s = []")
    case True
    with Some show ?thesis by (auto simp: QueueInput_def dwindles_flush)
  next
    case False
    then obtain eos cb rest where p: "vd_pending s = (eos, cb) # rest" by (cases "vd_pending s") auto
    obtain st w where w: "QueueInputBuffer eos (cr_queue r) (cm_wrapper m) = (st, w)" by force
    have put: "dwindles s (put_wrapper w s)" "dwindles s (vd_call VcWaiting (put_wrapper w s\<lparr>vd_waiting_key := True\<rparr>))"
      by (rule dwindles_quiet; simp)+
    have out: "dwindles s (put_wrapper w s\<lparr>vd_eos_cb := Some cb, vd_pending := rest\<rparr>)"
      "dwindles s (run_decode_cb cb DsOk (put_wrapper w s)\<lparr>vd_pending := rest\<rparr>)"
      using p by (auto simp: dwindles_def)
    show ?thesis
      using put out dwindles_trans [OF put(1) dwindles_error] False p w Some
      by (cases st) (simp_all add: QueueInput_def Let_def)
  qed
qed (simp add: QueueInput_def)

lemma dwindles_dequeue: "dwindles s (snd (DequeueOutput r s))"
proof (cases "vd_codec s")
  case (Some m)
  obtain st eos b w where w: "DequeueOutputBuffer (cr_dequeue r) (cm_wrapper m) = (st, eos, b, w)"
    by (metis prod_cases4)
  let ?s = "put_wrapper w s"
  have put: "dwindles v (put_wrapper x v)" for x and v :: "'a video_decoder" by (rule dwindles_quiet) simp_all
  have after: "dwindles s (?s\<lparr>vd_after := a\<rparr>)" for a by (rule dwindles_quiet) simp_all
  have drain: "dwindles v (OnCodecDrained (FlushCodec c) v)" for c and v :: "'a video_decoder"
    by (rule dwindles_drained) (rule dwindles_flush)
  have frame: "dwindles s (vd_call (VcCreateFrame i d) (?s\<lparr>vd_codec := x, vd_frames := f\<rparr>))"
    "dwindles s (vd_call (VcCreateFrame i d) (?s\<lparr>vd_config := k, vd_codec := x, vd_frames := f\<rparr>))" for i d k x f
    by (rule dwindles_quiet; simp)+
  show ?thesis
    using w Some put [of s w] after dwindles_trans [OF put dwindles_error] dwindles_trans [OF put drain]
      dwindles_trans [OF after drain] dwindles_trans [OF put put] frame
    by (simp add: DequeueOutput_def Let_def split: dequeue_status.split option.split)
qed (simp add: DequeueOutput_def)

lemma dwindles_pump: "dwindles s (PumpCodec rs s)"
  by (rule PumpCodec_rule [where P = "dwindles s"]) (auto intro: dwindles_trans dwindles_queue dwindles_dequeue)

text \<open>With an error nothing waits; after the end, nothing of the client.\<close>

definition hushed :: "'w video_decoder \<Rightarrow> bool" where
  "hushed s \<longleftrightarrow> snd ` set (vd_pending s) \<union> set_option (vd_eos_cb s) \<subseteq> {None}"

definition vd_ended :: "'w video_decoder \<Rightarrow> bool" where
  "vd_ended s \<longleftrightarrow> (vd_state s = VdError \<longrightarrow> vd_pending s = [] \<and> vd_eos_cb s = None) \<and> (\<not> vd_alive s \<longrightarrow> hushed s)"

lemma dwindles_hushed:
  assumes "dwindles s u" and "hushed s"
  shows "hushed u"
proof -
  have "snd ` set (vd_pending u) \<subseteq> snd ` set (vd_pending s)"
    "set_option (vd_eos_cb u) \<subseteq> set_option (vd_eos_cb s) \<union> snd ` set (vd_pending s)"
    using assms(1) by (auto simp: dwindles_def)
  then have "snd ` set (vd_pending u) \<union> set_option (vd_eos_cb u) \<subseteq> snd ` set (vd_pending s) \<union> set_option (vd_eos_cb s)"
    by (metis Un_least sup.coboundedI1 sup_commute)
  then show ?thesis using assms(2) unfolding hushed_def by (rule order_trans)
qed

lemma dwindles_ended:
  assumes "dwindles s u" and "vd_ended s"
  shows "vd_ended u"
proof -
  have "vd_pending u = [] \<and> vd_eos_cb u = None" if "vd_state u = VdError"
  proof (cases "vd_state s = VdError")
    case True
    with assms(2) have "vd_pending s = []" "vd_eos_cb s = None" by (simp_all add: vd_ended_def)
    with assms(1) show ?thesis by (simp add: dwindles_def)
  qed (use assms(1) that in \<open>simp add: dwindles_def\<close>)
  moreover have "vd_alive u = vd_alive s" using assms(1) by (simp add: dwindles_def)
  ultimately show ?thesis using dwindles_hushed [OF assms(1)] assms(2) by (simp add: vd_ended_def)
qed

lemma hushed_waits: "hushed s \<Longrightarrow> waiting t s = 0"
  by (auto simp: hushed_def waiting_def count_list_0_iff)

text \<open>Requests neither appear nor get lost.\<close>

definition calm :: "'w video_decoder \<Rightarrow> 'w video_decoder \<Rightarrow> bool" where
  "calm s u \<longleftrightarrow> same_tickets s u \<and> (vd_ended s \<longrightarrow> vd_ended u)"

lemma calm_refl [simp]: "calm s s"
  by (simp add: calm_def)

lemma calm_trans: "calm s u \<Longrightarrow> calm u v \<Longrightarrow> calm s v"
  by (auto simp: calm_def intro: tickets_trans)

lemma calm_quiet:
  "vd_pending u = vd_pending s \<Longrightarrow> vd_eos_cb u = vd_eos_cb s \<Longrightarrow> vd_state u = vd_state s \<or> vd_state u \<noteq> VdError \<Longrightarrow>
    vd_alive u = vd_alive s \<Longrightarrow> (\<And>t. answers t u = answers t s) \<Longrightarrow> calm s u"
  by (auto simp: calm_def tickets_quiet vd_ended_def hushed_def)

lemma calm_error: "calm s (EnterTerminalState VdError s)"
  using tickets_terminal dwindles_ended [OF dwindles_error] by (auto simp: calm_def)

lemma calm_pump: "eos_last s \<Longrightarrow> calm s (PumpCodec rs s)"
  using tickets_pump dwindles_ended [OF dwindles_pump] by (auto simp: calm_def)

lemma calm_drained: "calm s (OnCodecDrained (FlushCodec code) s)"
  using tickets_drained [OF tickets_flush] dwindles_ended [OF dwindles_drained [OF dwindles_flush]]
  by (auto simp: calm_def)

lemma calm_call: "not_decoded c \<Longrightarrow> calm s (vd_call c s)"
  by (rule calm_quiet) simp_all

lemma calm_eos: "eos_last s \<Longrightarrow> calm s u \<Longrightarrow> eos_last u"
  by (simp add: calm_def same_tickets_def)

lemma StartDrainingCodec_calm:
  assumes c: "vd_contract s" and p: "vd_pending s = []" "vd_eos_cb s = None"
  shows "calm s (StartDrainingCodec drain rs s)"
proof -
  let ?s = "s\<lparr>vd_drain := Some drain\<rparr>"
  let ?t = "case vd_codec ?s of None \<Rightarrow> ?s | Some m \<Rightarrow> put_wrapper (DiscardOutputBuffers (cm_wrapper m)) ?s"
  have t: "calm s ?t" "calm s (?t\<lparr>vd_deferred_flush := b\<rparr>)" for b
    by (rule calm_quiet; simp split: option.split)+
  note flushed = calm_trans [OF t(2) calm_drained]
  have e: "eos_last ?t" using p by (simp add: eos_last_def split: option.split)
  note pumped = calm_trans [OF t(1) calm_pump [OF e]]
  let ?p = "?t\<lparr>vd_pending := vd_pending ?t @ [PendingDecode_CreateEos]\<rparr>"
  have "vd_pending ?t = []" "vd_eos_cb ?t = None" using p by (simp_all split: option.split)
  then have tp: "same_tickets s ?p" "eos_last ?p"
    using p t(1) by (auto simp: calm_def same_tickets_def waiting_def eos_last_def PendingDecode_CreateEos_def)
  have "vd_state s \<noteq> VdError" if "vd_codec s \<noteq> None"
    using c that by (auto simp: vd_contract_def one_codec_def has_codec_def)
  then have "calm s ?p" if "vd_codec s \<noteq> None"
    using that tp p by (auto simp: calm_def vd_ended_def hushed_def PendingDecode_CreateEos_def split: option.splits)
  then have pushed: "calm s (PumpCodec rs ?p)" if "vd_codec s \<noteq> None"
    using that calm_trans calm_pump [OF tp(2)] by blast
  show ?thesis
    unfolding StartDrainingCodec_def Let_def
    using flushed pumped pushed by (cases "vd_codec s") simp_all
qed

lemma calm_cancelled: "same_tickets s u \<Longrightarrow> calm s (CancelPendingDecodes st u)"
  unfolding calm_def by (auto simp: vd_ended_def hushed_def intro: tickets_trans tickets_cancel)

lemma calm_drains:
  assumes "same_tickets s u" and "vd_contract u"
  shows "calm s (StartDrainingCodec drain rs (CancelPendingDecodes st u))"
  by (rule calm_trans [OF calm_cancelled [OF assms(1)] StartDrainingCodec_calm])
    (simp_all add: CancelPendingDecodes_contract assms(2))

lemma OnCodecConfigured_calm:
  assumes "eos_last s"
  shows "calm s (OnCodecConfigured surface codec rs s)"
proof -
  have c: "calm s (s\<lparr>vd_codec := c\<rparr>)" "calm s (put_wrapper w (s\<lparr>vd_codec := c, vd_surface_id := i\<rparr>))" for c w i
    by (rule calm_quiet; simp)+
  have "calm s (PumpCodec rs u)" if "calm s u" for u
    by (rule calm_trans [OF that calm_pump [OF calm_eos [OF assms that]]])
  with c show ?thesis
    by (simp add: OnCodecConfigured_def Let_def calm_error split: option.split)
qed

lemma TransitionToTargetSurface_calm: "calm s (TransitionToTargetSurface code s)"
proof -
  have c: "calm s (vd_call (VcFactorySurface x) (put_wrapper w s))" for x w
    by (rule calm_quiet) simp_all
  show ?thesis
    using c calm_trans [OF c calm_error]
    by (simp add: TransitionToTargetSurface_def Let_def split: option.split prod.split)
qed

lemma DestroyAsync_calm:
  assumes c: "vd_contract s"
  shows "calm s (DestroyAsync rs s)"
proof -
  let ?k = "\<lambda>s. if vd_crypto s then s\<lparr>vd_ready_cb := None, vd_crypto := False\<rparr> else s"
  let ?r = "\<lambda>s. case vd_reset_cb s of None \<Rightarrow> s | Some t \<Rightarrow> vd_call (VcReset t) (s\<lparr>vd_reset_cb := None\<rparr>)"
  let ?u = "invalidate_creations (?r (?k (s\<lparr>vd_alive := False\<rparr>)))"
  have "vd_contract ?u"
    using c by (auto simp: vd_contract_def contract_defs invalidate_creations_def case_prod_beta filter_empty_conv o_def
        split: option.split)
  moreover have "same_tickets s ?u"
    by (rule tickets_quiet) (simp_all add: invalidate_creations_def split: option.split)
  ultimately show ?thesis unfolding DestroyAsync_def Let_def by (intro calm_drains)
qed

lemma OnMediaCryptoReady_calm: "calm s (OnMediaCryptoReady cb session secure code s)"
proof -
  let ?s = "s\<lparr>vd_ready_cb := None, vd_crypto := False, vd_session := None, vd_secure := secure\<rparr>"
  let ?t = "case vd_codec ?s of None \<Rightarrow> ?s
    | Some m \<Rightarrow> put_wrapper (snd (SetDecryptionConfig secure code (cm_wrapper m))) ?s"
  have t: "calm s ?t" by (rule calm_quiet; simp split: option.split)
  have "calm s (vd_call (VcInit cb x) ?t)" "calm s (vd_call (VcInit cb x) (EnterTerminalState VdError ?t))" for x
    by (rule calm_trans [OF t calm_call] calm_trans [OF calm_trans [OF t calm_error] calm_call]; simp)+
  moreover have "calm s (vd_call (VcInit cb DsOk) (s\<lparr>vd_session := session, vd_secure := secure\<rparr>))"
    by (rule calm_quiet) simp_all
  ultimately show ?thesis unfolding OnMediaCryptoReady_def Let_def by simp
qed

fun vd_issues :: "'w video_event \<Rightarrow> nat option" where
  "vd_issues (VeDecode buffer t rs) = Some t"
| "vd_issues _ = None"

lemma vd_calm_step:
  assumes c: "vd_contract s" and e: "eos_last s" and ok: "vd_ok s ev" and i: "vd_issues ev = None"
  shows "calm s (vd_step s ev)"
proof -
  have pump: "calm s (PumpCodec rs u)" if "calm s u" for rs u
    by (rule calm_trans [OF that calm_pump [OF calm_eos [OF e that]]])
  have err: "calm s (EnterTerminalState VdError u)" if "calm s u" for u
    by (rule calm_trans [OF that calm_error])
  show ?thesis
  proof (cases ev)
    case (VeInitialize config cdm t)
    then show ?thesis by (auto simp: Decoder_Initialize_def SetCdm_def Let_def intro!: calm_quiet)
  next
    case (VeCryptoReady session secure code)
    have "calm s (s\<lparr>vd_ready_cb := None\<rparr>)" by (rule calm_quiet) simp_all
    with VeCryptoReady calm_trans [OF this OnMediaCryptoReady_calm] show ?thesis by simp
  next
    case (VeKey additional rs)
    then show ?thesis by (auto simp: OnCdmContextEvent_def intro!: pump calm_quiet)
  next
    case (VeFactory owner)
    then show ?thesis
      by (auto simp: OnVideoFrameFactoryInitialized_def OnSurfaceChosen_def Let_def intro!: err calm_quiet)
  next
    case (VeCodec codec rs)
    have "calm s (OnCodecConfigured w codec rs (s\<lparr>vd_creations := rest\<rparr>))" for w rest
      by (rule calm_trans [OF calm_quiet OnCodecConfigured_calm]) (use e in \<open>simp_all add: eos_last_def\<close>)
    moreover have "calm s (vd_call VcReleaseCodec (s\<lparr>vd_creations := rest\<rparr>))" "calm s (s\<lparr>vd_creations := rest\<rparr>)" for rest
      by (rule calm_quiet; simp)+
    ultimately show ?thesis using VeCodec
      by (simp add: OnCodecConfiguredInternal_def Let_def split: list.split)
  next
    case (VePump rs)
    then show ?thesis by (simp add: pump)
  next
    case (VeReset t rs)
    have "vd_contract (s\<lparr>vd_generation := vd_generation s + 1, vd_reset_cb := Some t\<rparr>)"
      by (rule vd_contract_same [OF c]) simp_all
    moreover have "same_tickets s (s\<lparr>vd_generation := vd_generation s + 1, vd_reset_cb := Some t\<rparr>)"
      by (rule tickets_quiet) simp_all
    ultimately show ?thesis using VeReset by (simp add: Decoder_Reset_def Let_def calm_drains)
  next
    case (VeDestroy rs)
    with c show ?thesis by (simp add: DestroyAsync_calm)
  next
    case VeEos
    have "calm u (RunEosDecodeCb g u)" for g and u :: "'a video_decoder"
      by (auto simp: RunEosDecodeCb_def calm_def same_tickets_def waiting_def eos_last_def vd_ended_def hushed_def split: option.split)
    moreover have "calm s (s\<lparr>vd_after := a\<rparr>)" for a by (rule calm_quiet) simp_all
    ultimately show ?thesis using VeEos by (auto simp: Let_def intro: calm_trans)
  next
    case (VeFrame made)
    then show ?thesis by (auto simp: ForwardVideoFrame_def Let_def intro!: err calm_quiet)
  next
    case (VePip enable code)
    have "calm s (vd_call (VcPip enable) s)" by (rule calm_call) simp
    with VePip calm_trans [OF this TransitionToTargetSurface_calm] show ?thesis
      by (cases enable) (simp_all add: PipEnable_def Let_def)
  qed (use i in \<open>auto simp: Decoder_SetVideoSurface_def Decoder_RecycleDmaBuffer_def Decoder_ResumeDmaBuffer_def
      split: option.split intro!: calm_quiet\<close>)
qed

lemma vd_decode_step:
  assumes e: "eos_last s" and n: "vd_ended s" and ok: "vd_ok s (VeDecode buffer t rs)"
  shows "waiting x (Decoder_Decode buffer t rs s) + answers x (Decoder_Decode buffer t rs s) =
      waiting x s + answers x s + of_bool (t = x)"
    "eos_last (Decoder_Decode buffer t rs s)" "vd_ended (Decoder_Decode buffer t rs s)"
proof -
  let ?u = "Decoder_Decode buffer t rs s"
  have "(\<forall>x. waiting x ?u + answers x ?u = waiting x s + answers x s + of_bool (t = x)) \<and> eos_last ?u \<and> vd_ended ?u"
  proof (cases "buffer = None \<or> vd_state s = VdError")
    case True
    then have "?u = run_decode_cb (Some t) DsFailed s" by (auto simp: Decoder_Decode_def split: option.split)
    with e n show ?thesis by (simp add: waiting_def eos_last_def vd_ended_def hushed_def)
  next
    case False
    then obtain eos where b: "buffer = Some eos" by auto
    let ?q = "s\<lparr>vd_pending := vd_pending s @ [(eos, Some t)]\<rparr>"
    have q: "waiting x ?q + answers x ?q = waiting x s + answers x s + of_bool (t = x)" "eos_last ?q" "vd_ended ?q" for x
      using e n ok False by (auto simp: waiting_def eos_last_def vd_ended_def)
    have "calm ?q (StartLazyInit ?q)" by (rule calm_quiet) (simp_all add: StartLazyInit_def)
    then have "calm ?q ?u"
      using False b calm_pump [OF q(2)] by (auto simp: Decoder_Decode_def Let_def)
    with q show ?thesis by (simp add: calm_def same_tickets_def)
  qed
  then show "waiting x ?u + answers x ?u = waiting x s + answers x s + of_bool (t = x)" "eos_last ?u" "vd_ended ?u"
    by auto
qed

definition vd_inv :: "'w video_decoder \<Rightarrow> bool" where
  "vd_inv s \<longleftrightarrow> vd_contract s \<and> eos_last s \<and> vd_ended s"

lemma vd_ticket_step:
  assumes "vd_inv s" and "vd_ok s e"
  shows "waiting t (vd_step s e) + answers t (vd_step s e) = waiting t s + answers t s + of_bool (vd_issues e = Some t)"
    "vd_inv (vd_step s e)"
proof -
  have c: "vd_contract s" "eos_last s" "vd_ended s" using assms by (simp_all add: vd_inv_def)
  have "(waiting t (vd_step s e) + answers t (vd_step s e) = waiting t s + answers t s + of_bool (vd_issues e = Some t)) \<and>
      vd_inv (vd_step s e)"
  proof (cases "vd_issues e")
    case None
    with vd_calm_step [OF c(1,2) assms(2)] c vd_contract_step [OF c(1) assms(2)] show ?thesis
      by (simp add: calm_def same_tickets_def vd_inv_def)
  next
    case (Some x)
    then obtain buffer rs where e: "e = VeDecode buffer x rs" by (cases e) auto
    from vd_decode_step [OF c(2,3)] assms(2) vd_contract_step [OF c(1) assms(2)] show ?thesis
      unfolding e vd_inv_def by simp
  qed
  then show "waiting t (vd_step s e) + answers t (vd_step s e) = waiting t s + answers t s + of_bool (vd_issues e = Some t)"
    "vd_inv (vd_step s e)" by auto
qed

lemma vd_start_inv: "vd_inv OhosVideoDecoder"
  by (simp add: vd_inv_def vd_contract_def contract_defs eos_last_def vd_ended_def OhosVideoDecoder_def hushed_def)

interpretation vd_tickets: ticket_machine vd_step vd_ok vd_inv "\<lambda>s t. waiting t s + answers t s" vd_issues
  by unfold_locales (auto simp: vd_ticket_step)

end
