(* ===== verification/Codec_Properties.thy ===== *)
theory Codec_Properties
  imports Codec_Renderer Decoder_Requests
begin

text \<open>
  The properties of the video decoder: the codec wrapper keeps the books of the buffers it
  lends, a surface holds one frame at a time, the decoder drives its codecs within their
  contract, and it answers every request once.
\<close>

section \<open>Concrete runs\<close>

definition dequeued :: "int \<Rightarrow> dequeue_reply" where
  "dequeued x = \<lparr>dr_status = DECODER_OK, dr_index = x, dr_eos = False,
                 dr_format_status = DECODER_OK, dr_format = (1280, 720)\<rparr>"

definition end_of_stream :: dequeue_reply where
  "end_of_stream = (dequeued 0)\<lparr>dr_eos := True\<rparr>"

text \<open>Two buffers: one is rendered, one is dropped on another sequence and returned later.\<close>

definition codec_events :: "nat codec_event list" where
  "codec_events =
     [CeQueue False DECODER_OK, CeDequeue (dequeued 3), CeDequeue (dequeued 4), CeRender 0,
      CeDestroy 1 False, CePosted]"

definition codec_end :: "nat codec_machine" where
  "codec_end = foldl cm_step (cm_start (640, 480) (Some 1) True) codec_events"

lemma codec_run: "guarded_run cm_step cm_ok (cm_start (640, 480) (Some 1) True) codec_events"
  by code_simp

lemma codec_end_eq:
  "map ob_rendered (cm_buffers codec_end) = [True]" "cw_posted (cm_wrapper codec_end) = []"
  "cw_codec (cm_wrapper codec_end)" "cw_state (cm_wrapper codec_end) = kRunning"
  by code_simp+

text \<open>A decoder that starts, decodes two buffers and the end of the stream, and is destroyed.\<close>

definition ok_reply :: "dequeue_reply \<Rightarrow> codec_reply" where
  "ok_reply d = \<lparr>cr_queue = DECODER_OK, cr_flush = DECODER_OK, cr_dequeue = d\<rparr>"

definition decoder_events :: "nat video_event list" where
  "decoder_events =
     [VeInitialize \<lparr>vg_valid = True, vg_codec = kH264, vg_size = (640, 480), vg_encrypted = False\<rparr> None 1,
      VeDecode (Some False) 10 [],
      VeFactory (Some 5),
      VeCodec (Some \<lparr>cf_configure = DECODER_OK, cf_decryption = DECODER_OK, cf_surface = DECODER_OK,
                     cf_config = (640, 480)\<rparr>) [ok_reply (dequeued 3)],
      VeDecode (Some False) 11 [ok_reply (dequeued 4)],
      VeFrame True,
      VeOutput (CeRender 0),
      VeDecode (Some True) 12 [ok_reply end_of_stream],
      VeEos,
      VeReset 20 [],
      VeDecode (Some False) 13 [],
      VeDestroy []]"

definition decoder_end :: "nat video_decoder" where
  "decoder_end = foldl vd_step OhosVideoDecoder decoder_events"

lemma decoder_run: "guarded_run vd_step vd_ok OhosVideoDecoder decoder_events"
  by code_simp

lemma decoder_log: "vd_log decoder_end =
  [VcInit 1 DsOk, VcFactoryInit, VcFactorySurface (Some 5), VcCreateCodec, VcDecoded 10 DsOk,
   VcCreateFrame 0 (1280, 720), VcDecoded 11 DsOk, VcCreateFrame 1 (1280, 720), VcOutput,
   VcDecoded 12 DsOk, VcReset 20, VcDecoded 13 DsAborted, VcDeleteSoon]"
  by code_simp

text \<open>Two images of one surface: the second has to wait for the frame of the first.\<close>

definition surface_events :: "nat surface_event list" where
  "surface_events =
     [SeImage \<lparr>ob_id = 0, ob_rendered = False, ob_size = (1280, 720), ob_view = False\<rparr>,
      SeImage \<lparr>ob_id = 1, ob_rendered = False, ob_size = (1280, 720), ob_view = False\<rparr>,
      SeBack 0 1000,
      SeFront 1 \<lparr>re_before = 3000, re_before_arrives = True, re_release = 4000, re_after = 5000, re_after_arrives = True\<rparr>,
      SeUnused 0 True]"

text \<open>The codec that the images come from has lent both buffers.\<close>

definition lending_codec :: "nat codec_wrapper" where
  "lending_codec = cm_wrapper (foldl cm_step (cm_start (640, 480) (Some 1) True) (take 3 codec_events))"

definition surface_end :: "nat surface_machine" where
  "surface_end = foldl sm_step (surface_start 5000 True lending_codec) surface_events"

lemma surface_run: "guarded_run sm_step sm_ok (surface_start 5000 True lending_codec) surface_events"
  by code_simp

lemma surface_calls:
  "sm_calls surface_end = [SfFrame 0, SfWait 3000, SfUpdate, SfFrame 1, SfWait 4000, SfUpdate]"
  by code_simp

section \<open>The codec wrapper\<close>

text \<open>C5: The codec wrapper refines a ledger of lent buffers. In every run its calls to the decoder
  are legal entries, that is, each buffer is lent under the next id and returned under an id
  it is lent for; the ledger they lead to is the wrapper's table. So a buffer is returned at
  most once for each time it was lent, and once all output buffers have rendered or are gone
  and no release is on its way, a wrapper without an error has nothing lent.\<close>

theorem codec_calls_form_a_ledger:
  assumes "guarded_run cm_step cm_ok (cm_start config surface runner) es"
  defines "m \<equiv> foldl cm_step (cm_start config surface runner) es"
  shows "replay account (cm_calls m) new_ledger = Some (cm_abs m) \<and>
    (\<forall>i. returns_of i (cm_calls m) \<le> 1) \<and>
    (\<forall>i x render. CcReturn i x render \<in> set (cm_calls m) \<longrightarrow> CcLend i x \<in> set (cm_calls m)) \<and>
    (usable m \<and> cw_posted (cm_wrapper m) = [] \<and> (\<forall>b \<in> set (cm_buffers m). ob_rendered b) \<longrightarrow>
       \<not> HasUnreleasedOutputBuffers (cm_wrapper m))"
proof -
  have ledger: "replay account (cm_calls m) new_ledger = Some (cm_abs m)"
    using run_ledger [OF assms(1)] by (simp add: m_def)
  then have ok: "ledger_ok (cm_calls m) (cm_abs m)" by (rule legal_ledger)
  have own: "cm_owned m" using cm_owner.inv_run [OF conjI [OF cm_start_simps(1,2)] assms(1)] by (simp add: m_def)
  have "cw_ids (cm_wrapper m) = []"
    if u: "usable m" and gone: "cw_posted (cm_wrapper m) = []" "\<forall>b \<in> set (cm_buffers m). ob_rendered b"
  proof (rule ccontr)
    assume "cw_ids (cm_wrapper m) \<noteq> []"
    then obtain p where "p \<in> set (cw_ids (cm_wrapper m))" by (cases "cw_ids (cm_wrapper m)") auto
    with own u have "held_by m (fst p)" by (intro cm_ownedD) (simp_all add: usable_def)
    with gone show False by (auto simp: held_by_def)
  qed
  with ledger ok show ?thesis by (auto simp: ledger_ok_def lent_in_def HasUnreleasedOutputBuffers_def)
qed

lemma codec_calls_form_a_ledger_witness:
  "returns_of 1 (cm_calls codec_end) \<le> 1 \<and> \<not> HasUnreleasedOutputBuffers (cm_wrapper codec_end)"
proof -
  have "\<forall>b \<in> set (cm_buffers codec_end). ob_rendered b" using codec_end_eq(1) by (cases "cm_buffers codec_end") auto
  with codec_calls_form_a_ledger [OF codec_run, folded codec_end_def] codec_end_eq show ?thesis
    by (simp add: usable_def)
qed

section \<open>The surface\<close>

text \<open>C14: A surface holds one frame at a time. Whatever images render to it, in whatever order, with
  the clock going forward: a frame is only released to the surface when the last one has been
  taken by \<open>UpdateNativeImage\<close>; every wait is for a frame that is on its way and is bounded by
  \<open>max_wait_\<close>; and the coordinator expects a frame exactly when one is there. A rendering to
  the front fails only by leaving the buffer invalidated.\<close>

theorem surface_holds_one_frame:
  assumes "guarded_run sm_step sm_ok (surface_start max_wait binds w) es"
  defines "m \<equiv> foldl sm_step (surface_start max_wait binds w) es"
  shows "replay one_slot (sm_calls m) (False, max_wait) = Some (slot_of (sm_surface m)) \<and>
    (\<forall>mode i e r ok r' f'. RenderToTextureOwnerFrontBuffer mode i e r (sm_surface m) = (ok, r', f') \<longrightarrow>
       rd_coordinator r \<longrightarrow> rd_phase r' = (if ok then kInFrontBuffer else kInvalidated))"
proof -
  let ?s = "surface_start max_wait binds w"
  have "sm_calls ?s = []" "slot_of (sm_surface ?s) = (False, max_wait)"
    by (simp_all add: surface_start_def sm_calls_def slot_simps)
  with sm_refines.refine_run [OF _ assms(1)] have "replay one_slot (sm_calls m) (False, max_wait) = Some (slot_of (sm_surface m))"
    by (auto simp: m_def)
  then show ?thesis using front_outcome by blast
qed

lemma surface_holds_one_frame_witness:
  "replay one_slot [SfFrame 0, SfWait 3000, SfUpdate, SfFrame 1, SfWait 4000, SfUpdate] (False, 5000) =
     Some (slot_of (sm_surface surface_end))"
  using surface_holds_one_frame [OF surface_run, folded surface_end_def] unfolding surface_calls by blast

section \<open>The video decoder\<close>

text \<open>C13: The decoder drives its codecs within their contract. In every run, every codec it has had
  is a codec wrapper that was only called as its preconditions (\<open>DCHECK\<close>) allow, so its calls
  form a legal ledger; the decoder has at most one codec, existing or under creation, and only
  while it runs; and the codec it has is never one with an error.\<close>

theorem decoder_drives_codecs_within_contract:
  assumes "guarded_run vd_step vd_ok OhosVideoDecoder es"
  defines "s \<equiv> foldl vd_step OhosVideoDecoder es"
  shows "(\<forall>m \<in> set_option (vd_codec s) \<union> set (vd_retired s).
      behaved m \<and> replay account (cm_calls m) new_ledger = Some (cm_abs m)) \<and>
    creating s + of_bool (has_codec s) \<le> 1 \<and>
    (\<forall>m. vd_codec s = Some m \<longrightarrow> usable m \<and> vd_state s = VdRunning \<and> vd_target s \<noteq> None)"
proof -
  have "vd_inv s" unfolding s_def by (rule vd_tickets.inv_run [OF vd_start_inv assms(1)])
  then have c: "codecs_behave s" "one_codec s" "codec_usable s" by (simp_all add: vd_inv_def vd_contract_def)
  have "replay account (cm_calls m) new_ledger = Some (cm_abs m)" if "behaved m" for m :: "'a codec_machine"
    using that by (rule behaved_ledger)
  with c show ?thesis by (auto simp: contract_defs)
qed

lemma decoder_drives_codecs_within_contract_witness:
  "vd_codec decoder_end \<noteq> None \<and> usable (the (vd_codec decoder_end)) \<and> vd_state decoder_end = VdRunning \<and>
   creating decoder_end = 0"
proof -
  have "vd_codec decoder_end \<noteq> None" by code_simp
  with decoder_drives_codecs_within_contract [OF decoder_run, folded decoder_end_def] show ?thesis
    by (auto simp: has_codec_def)
qed

text \<open>C2: Every decode request is answered once. For a client that keeps to the interface, a request
  is at any time either waiting or answered, never both and never twice; and when the decoder
  has met an error or is being destroyed, none is left waiting. The numbers count: a request
  that was made \<open>n\<close> times under one number waits or is answered \<open>n\<close> times.\<close>

theorem every_decode_is_answered_once:
  assumes "guarded_run vd_step vd_ok OhosVideoDecoder es"
  defines "s \<equiv> foldl vd_step OhosVideoDecoder es"
  shows "answers t s + waiting t s = length (filter (\<lambda>e. vd_issues e = Some t) es) \<and>
    (vd_state s = VdError \<or> \<not> vd_alive s \<longrightarrow>
       waiting t s = 0 \<and> answers t s = length (filter (\<lambda>e. vd_issues e = Some t) es))"
proof -
  have "waiting t (OhosVideoDecoder :: 'a video_decoder) + answers t (OhosVideoDecoder :: 'a video_decoder) = 0"
    by (simp add: OhosVideoDecoder_def waiting_def answers_def)
  with vd_tickets.held_run [OF vd_start_inv assms(1), of t]
  have n: "answers t s + waiting t s = length (filter (\<lambda>e. vd_issues e = Some t) es)"
    by (simp add: s_def)
  have "vd_inv s" unfolding s_def by (rule vd_tickets.inv_run [OF vd_start_inv assms(1)])
  then have "vd_state s = VdError \<or> \<not> vd_alive s \<Longrightarrow> waiting t s = 0"
    using hushed_waits [of s t] by (auto simp: vd_inv_def vd_ended_def waiting_def)
  with n show ?thesis by auto
qed

lemma every_decode_is_answered_once_witness:
  "answers 12 decoder_end = 1 \<and> answers 13 decoder_end = 1 \<and> waiting 13 decoder_end = 0"
proof -
  have "\<not> vd_alive decoder_end" by code_simp
  then show ?thesis
    using every_decode_is_answered_once [OF decoder_run, folded decoder_end_def, of 12]
      every_decode_is_answered_once [OF decoder_run, folded decoder_end_def, of 13]
    by (simp add: decoder_events_def)
qed

end
