(* ===== verification/Audio_Decoder.thy ===== *)
theory Audio_Decoder
  imports Prelude "HOL-Library.Word"
begin

text \<open>
  \<open>ohos_audio_decoder.cc\<close> and \<open>ohos_audio_decoder_loop.cc\<close>: the decoder of encrypted audio and
  the loop that moves data between its queues and the codec of the system. The codec and the
  key system are the environment: what they answer is an argument of the operation that asks,
  the calls they get are in the log. Everything but the arrival of buffers runs on the
  decoder's sequence; a buffer that arrives while the loop runs counts as arriving after it.
  The time stamps of frames (\<open>AudioTimestampHelper\<close>) are left out.
\<close>

section \<open>State\<close>

datatype audio_status = AsOk | AsFailed | AsAborted | AsUnsupportedCodec | AsUnsupportedEncryptionMode

datatype audio_code = AudOk | AudError | AudRetry

datatype audio_state = AdUninitialized | AdWaitingForMediaCrypto | AdReady | AdError

datatype loop_state = LsReady | LsWaitingForKey | LsDraining | LsDrained | LsError

datatype audio_codec = kAAC | kFLAC | kVorbis | kMP3 | kAMR_NB | kAMR_WB | kOtherAudio

datatype encryption_scheme = kUnencrypted | kCenc | kCbcs | kOtherScheme

datatype cenc_algorithm = DRM_ALG_CENC_UNENCRYPTED | DRM_ALG_CENC_AES_CTR | DRM_ALG_CENC_AES_CBC

record audio_config =
  au_codec :: audio_codec
  au_encrypted :: bool
  au_channels :: int
  au_rate :: int

text \<open>A \<open>DecryptConfig\<close>; the pattern is the number of encrypted and of skipped blocks.\<close>

record decrypt_config =
  dc_key_id :: "8 word list"
  dc_iv :: "8 word list"
  dc_scheme :: encryption_scheme
  dc_pattern :: "(int \<times> int) option"
  dc_subsamples :: "(int \<times> int) list"

datatype cenc_mode = DRM_CENC_INFO_KEY_IV_SUBSAMPLES_SET | DRM_CENC_INFO_KEY_IV_SUBSAMPLES_NOT_SET

text \<open>\<open>OHOSAudioCencInfo\<close>; without a pattern its block counts stay unset.\<close>

record cenc_info =
  ci_key_id :: "8 word list"
  ci_iv :: "8 word list"
  ci_algo :: cenc_algorithm
  ci_blocks :: "(int \<times> int) option"
  ci_first_offset :: int
  ci_clear_lens :: "int list"
  ci_payload_lens :: "int list"
  ci_mode :: cenc_mode

text \<open>A \<open>DecoderBuffer\<close>: does it end the stream, do its subsamples match, has it a time stamp.\<close>

record audio_buffer =
  ab_eos :: bool
  ab_subsamples_match :: bool
  ab_time :: "int option"
  ab_size :: int
  ab_decrypt :: "decrypt_config option"

record audio_output =
  ao_index :: int
  ao_size :: int
  ao_eos :: bool

text \<open>What goes to the codec with an input buffer.\<close>

record input_data =
  in_length :: int
  in_time :: "int option"
  in_eos :: bool
  in_cenc :: "cenc_info option"
  in_encrypted :: bool

text \<open>
  \<open>AcStart created\<close>: \<open>StartDecoder\<close> of a codec, for which \<open>CreateAudioDecoderByMime\<close> was called
  or was not.
\<close>

datatype audio_call =
    AcInit nat audio_status
  | AcDecoded nat audio_status
  | AcReset nat
  | AcOutput int
  | AcCreate string
  | AcDecryption
  | AcConfigure int int
  | AcStart bool
  | AcFormat
  | AcQueue int input_data
  | AcRelease int
  | AcFlush
  | AcStop

record audio_loop =
  al_state :: loop_state
  al_timer :: bool
  al_idle :: int

record audio_decoder =
  ad_state :: audio_state
  ad_mime :: string
  ad_codec :: "bool option"
  ad_created :: bool
  ad_inputs :: "int list"
  ad_outputs :: "audio_output list"
  ad_config :: audio_config
  ad_channels :: int
  ad_rate :: int
  ad_loop :: "audio_loop option"
  ad_queue :: "(audio_buffer \<times> nat) list"
  ad_crypto :: bool
  ad_ready_cb :: "nat option"
  ad_session :: "int option"
  ad_waiting_key :: bool
  ad_timeouts :: int
  ad_timer :: bool
  ad_alive :: bool
  ad_log :: "audio_call list"

definition OHOSAudioDecoder :: audio_decoder where
  "OHOSAudioDecoder =
     \<lparr>ad_state = AdUninitialized, ad_mime = [], ad_codec = None, ad_created = False, ad_inputs = [],
      ad_outputs = [], ad_config = \<lparr>au_codec = kOtherAudio, au_encrypted = False, au_channels = 0, au_rate = 0\<rparr>,
      ad_channels = 0, ad_rate = 0, ad_loop = None, ad_queue = [], ad_crypto = False,
      ad_ready_cb = None, ad_session = None, ad_waiting_key = True, ad_timeouts = 0,
      ad_timer = False, ad_alive = True, ad_log = []\<rparr>"

definition ad_call :: "audio_call \<Rightarrow> audio_decoder \<Rightarrow> audio_decoder" where
  "ad_call c s = s\<lparr>ad_log := ad_log s @ [c]\<rparr>"

section \<open>What the loop asks its client\<close>

definition Audio_SetState :: "audio_state \<Rightarrow> audio_decoder \<Rightarrow> audio_decoder" where
  "Audio_SetState new_state s = s\<lparr>ad_state := new_state\<rparr>"

definition ClearInputQueue :: "audio_status \<Rightarrow> audio_decoder \<Rightarrow> audio_decoder" where
  "ClearInputQueue status s = (fold (\<lambda>(_, cb). ad_call (AcDecoded cb status)) (ad_queue s) s)\<lparr>ad_queue := []\<rparr>"

definition OnCodecLoopError :: "audio_decoder \<Rightarrow> audio_decoder" where
  "OnCodecLoopError s = ClearInputQueue AsFailed (Audio_SetState AdError s)"

definition IsAnyInputPending :: "audio_decoder \<Rightarrow> bool" where
  "IsAnyInputPending s \<longleftrightarrow> ad_state s = AdReady \<and> ad_queue s \<noteq> []"

fun scheme_algorithm :: "encryption_scheme \<Rightarrow> cenc_algorithm \<times> bool" where
  "scheme_algorithm kUnencrypted = (DRM_ALG_CENC_UNENCRYPTED, False)"
| "scheme_algorithm kCenc = (DRM_ALG_CENC_AES_CTR, True)"
| "scheme_algorithm kCbcs = (DRM_ALG_CENC_AES_CBC, True)"
| "scheme_algorithm kOtherScheme = (DRM_ALG_CENC_UNENCRYPTED, False)"

text \<open>\<open>OHOSAudioCencInfo\<close> of a \<open>DecryptConfig\<close>, as the audio decoder and the bridge of the video decoder make it.\<close>

definition cenc_info_of :: "decrypt_config \<Rightarrow> cenc_info" where
  "cenc_info_of c =
     \<lparr>ci_key_id = dc_key_id c, ci_iv = dc_iv c, ci_algo = fst (scheme_algorithm (dc_scheme c)), ci_blocks = dc_pattern c,
      ci_first_offset = 0, ci_clear_lens = map fst (dc_subsamples c), ci_payload_lens = map snd (dc_subsamples c),
      ci_mode = DRM_CENC_INFO_KEY_IV_SUBSAMPLES_SET\<rparr>"

definition SetCencInfoToInputData :: "decrypt_config option \<Rightarrow> input_data \<Rightarrow> input_data" where
  "SetCencInfoToInputData config d =
     (case config of
        None \<Rightarrow> d
      | Some c \<Rightarrow> d\<lparr>in_cenc := Some (cenc_info_of c), in_encrypted := snd (scheme_algorithm (dc_scheme c))\<rparr>)"

text \<open>No data is \<open>is_valid = false\<close>.\<close>

definition ProvideInputData :: "audio_decoder \<Rightarrow> input_data option" where
  "ProvideInputData s =
     (case ad_queue s of
        [] \<Rightarrow> None
      | (b, _) # _ \<Rightarrow>
          Some (if ab_eos b
                then \<lparr>in_length = 0, in_time = ab_time b, in_eos = True, in_cenc = None, in_encrypted = False\<rparr>
                else SetCencInfoToInputData (ab_decrypt b)
                       \<lparr>in_length = ab_size b, in_time = ab_time b, in_eos = False, in_cenc = None, in_encrypted = False\<rparr>))"

definition OnInputDataQueued :: "bool \<Rightarrow> audio_decoder \<Rightarrow> audio_decoder" where
  "OnInputDataQueued success s =
     (case ad_queue s of
        [] \<Rightarrow> s
      | (b, cb) # rest \<Rightarrow>
          if ab_eos b \<and> success then s
          else (ad_call (AcDecoded cb (if success then AsOk else AsFailed)) s)\<lparr>ad_queue := rest\<rparr>)"

definition OnDecodedEos :: "audio_output \<Rightarrow> audio_decoder \<Rightarrow> bool \<times> audio_decoder" where
  "OnDecodedEos out s =
     (case ad_queue s of
        [] \<Rightarrow> (False, s)
      | (b, cb) # rest \<Rightarrow>
          if \<not> ab_eos b then (False, s)
          else (True, (ad_call (AcDecoded cb AsOk) s)\<lparr>ad_queue := rest, ad_outputs := tl (ad_outputs s)\<rparr>))"

definition kInvalidBufferIndex :: int where
  "kInvalidBufferIndex = 0xFFFFFFFF"

text \<open>\<open>copied\<close>: does the frame fit into the buffer that is made for it? The result of a frame is its length.\<close>

definition OnDecodedFrame :: "bool \<Rightarrow> audio_output \<Rightarrow> audio_decoder \<Rightarrow> bool \<times> audio_decoder" where
  "OnDecodedFrame copied out s =
     (if ao_size out = 0 \<or> ao_index out = kInvalidBufferIndex \<or> ad_loop s = None \<or> ad_channels s = 0 then (False, s)
      else if ad_codec s = None then (False, s)
      else
        let bytes_per_frame = 2 * ad_channels s;
            frame_count = ao_size out div bytes_per_frame;
            s = ad_call (AcRelease (ao_index out)) s
        in if \<not> copied then (False, s)
           else (True, ad_call (AcOutput frame_count) (s\<lparr>ad_outputs := tl (ad_outputs s)\<rparr>)))"

definition Audio_FlushDecoder :: "audio_code \<Rightarrow> audio_decoder \<Rightarrow> audio_code \<times> audio_decoder" where
  "Audio_FlushDecoder code s = (if ad_codec s = None then (AudError, s) else (code, ad_call AcFlush s))"

definition MaxTimeOutCount :: int where
  "MaxTimeOutCount = 2"

definition WaitingForLicence :: "audio_decoder \<Rightarrow> audio_decoder" where
  "WaitingForLicence s =
     (if \<not> ad_waiting_key s then s\<lparr>ad_timer := False, ad_timeouts := 0\<rparr>
      else if ad_timeouts s > MaxTimeOutCount
      then Audio_SetState AdError (s\<lparr>ad_timer := False, ad_timeouts := 0\<rparr>)
      else s\<lparr>ad_timeouts := ad_timeouts s + 1, ad_timer := True\<rparr>)"

definition QueueInputBufferDec ::
  "audio_code \<Rightarrow> int \<Rightarrow> input_data \<Rightarrow> audio_decoder \<Rightarrow> audio_code \<times> audio_decoder" where
  "QueueInputBufferDec code index d s =
     (if ad_state s = AdWaitingForMediaCrypto then (AudRetry, s)
      else if ad_codec s = None then (AudError, s)
      else
        let s = ad_call (AcQueue index d) s
        in if code = AudError \<and> ad_waiting_key s
           then let s = Audio_SetState AdWaitingForMediaCrypto s
                in (AudRetry, if \<not> ad_timer s then WaitingForLicence s else s)
           else (code, s))"

definition ReleaseOutputBufferDec :: "int \<Rightarrow> audio_decoder \<Rightarrow> audio_decoder" where
  "ReleaseOutputBufferDec index s = (if ad_codec s = None then s else ad_call (AcRelease index) s)"

section \<open>The loop\<close>

definition loop_state_of :: "audio_decoder \<Rightarrow> loop_state" where
  "loop_state_of s = (case ad_loop s of None \<Rightarrow> LsError | Some l \<Rightarrow> al_state l)"

definition on_loop :: "(audio_loop \<Rightarrow> audio_loop) \<Rightarrow> audio_decoder \<Rightarrow> audio_decoder" where
  "on_loop f s = s\<lparr>ad_loop := map_option f (ad_loop s)\<rparr>"

definition Loop_SetState :: "loop_state \<Rightarrow> audio_decoder \<Rightarrow> audio_decoder" where
  "Loop_SetState new_state s =
     (let old_state = loop_state_of s;
          s = on_loop (\<lambda>l. l\<lparr>al_state := new_state\<rparr>) s
      in if old_state \<noteq> new_state \<and> new_state = LsError then OnCodecLoopError s else s)"

text \<open>What the codec answers in one turn of the loop.\<close>

record audio_reply =
  ar_queue :: audio_code
  ar_copied :: bool

definition audio_reply_of :: "audio_reply list \<Rightarrow> audio_reply" where
  "audio_reply_of rs = (case rs of [] \<Rightarrow> \<lparr>ar_queue = AudOk, ar_copied = True\<rparr> | r # _ \<Rightarrow> r)"

definition Loop_EnqueueInputBuffer ::
  "audio_reply \<Rightarrow> int \<Rightarrow> audio_decoder \<Rightarrow> bool \<times> audio_decoder" where
  "Loop_EnqueueInputBuffer r index s =
     (case ProvideInputData s of
        None \<Rightarrow> (False, s)
      | Some d \<Rightarrow>
          let s = (if in_eos d then Loop_SetState LsDraining s else s);
              (code, s) = QueueInputBufferDec (ar_queue r) index d s
          in (True,
              case code of
                AudRetry \<Rightarrow> Loop_SetState LsWaitingForKey s
              | AudOk \<Rightarrow> OnInputDataQueued True s
              | AudError \<Rightarrow> Loop_SetState LsError (OnInputDataQueued False s)))"

definition ProcessOneInputBuffer :: "audio_reply \<Rightarrow> audio_decoder \<Rightarrow> bool \<times> audio_decoder" where
  "ProcessOneInputBuffer r s =
     (if loop_state_of s \<noteq> LsReady then (False, s)
      else if \<not> IsAnyInputPending s then (False, s)
      else case ad_inputs s of
        [] \<Rightarrow> (False, s)
      | index # rest \<Rightarrow>
          let s = s\<lparr>ad_inputs := rest\<rparr>
          in if index = kInvalidBufferIndex then (False, s)
             else
               let (ret, s) = Loop_EnqueueInputBuffer r index s;
                   s = (if \<not> ret then s\<lparr>ad_inputs := ad_inputs s @ [index]\<rparr> else s)
               in (loop_state_of s \<noteq> LsError, s))"

definition ProcessOneOutputBuffer :: "audio_reply \<Rightarrow> audio_decoder \<Rightarrow> bool \<times> audio_decoder" where
  "ProcessOneOutputBuffer r s =
     (if loop_state_of s = LsError then (False, s)
      else case ad_outputs s of
        [] \<Rightarrow> (False, s)
      | out # _ \<Rightarrow>
          if ao_eos out
          then
            let s = ReleaseOutputBufferDec (ao_index out) (Loop_SetState LsDrained s);
                (ok, s) = OnDecodedEos out s
            in (True, if \<not> ok then Loop_SetState LsError s else s)
          else
            let (ok, s) = OnDecodedFrame (ar_copied r) out s
            in (True, if \<not> ok then Loop_SetState LsError s else s))"

text \<open>\<open>idle_time_begin_\<close> is 0 until the timer is first managed. The clock is read once per call.\<close>

definition kIdleTimerTimeout :: int where
  "kIdleTimerTimeout = 1000000"

definition ManageTimer :: "int \<Rightarrow> bool \<Rightarrow> audio_decoder \<Rightarrow> audio_decoder" where
  "ManageTimer now did_work =
     on_loop (\<lambda>l.
       let fresh = (did_work \<or> al_idle l = 0);
           should_be_running = (fresh \<or> \<not> now - al_idle l > kIdleTimerTimeout);
           l = (if fresh then l\<lparr>al_idle := now\<rparr> else l)
       in if should_be_running \<and> \<not> al_timer l then l\<lparr>al_timer := True\<rparr>
          else if \<not> should_be_running \<and> al_timer l then l\<lparr>al_timer := False\<rparr>
          else l)"

text \<open>
  Every turn of the loop of \<open>DoPendingWork\<close> that does something takes a request or an output
  buffer from its queue, or leaves a state of the loop that is not entered again.
\<close>

definition pending_work :: "audio_decoder \<Rightarrow> nat" where
  "pending_work s = length (ad_queue s) + length (ad_outputs s) +
     of_bool (loop_state_of s = LsReady) + of_bool (loop_state_of s \<noteq> LsError)"

lemma loop_upd [simp]:
  "loop_state_of (s\<lparr>ad_queue := q\<rparr>) = loop_state_of s" "loop_state_of (s\<lparr>ad_outputs := os\<rparr>) = loop_state_of s"
  "loop_state_of (s\<lparr>ad_inputs := is\<rparr>) = loop_state_of s" "loop_state_of (s\<lparr>ad_log := l\<rparr>) = loop_state_of s"
  "loop_state_of (s\<lparr>ad_state := st\<rparr>) = loop_state_of s" "loop_state_of (s\<lparr>ad_timer := tm\<rparr>) = loop_state_of s"
  "loop_state_of (s\<lparr>ad_timeouts := n\<rparr>) = loop_state_of s"
  by (simp_all add: loop_state_of_def)

lemma ad_call_reads [simp]:
  "ad_queue (ad_call c s) = ad_queue s" "ad_outputs (ad_call c s) = ad_outputs s"
  "ad_inputs (ad_call c s) = ad_inputs s" "ad_loop (ad_call c s) = ad_loop s"
  "ad_state (ad_call c s) = ad_state s" "ad_codec (ad_call c s) = ad_codec s"
  "ad_alive (ad_call c s) = ad_alive s" "loop_state_of (ad_call c s) = loop_state_of s"
  "ad_log (ad_call c s) = ad_log s @ [c]"
  by (simp_all add: ad_call_def loop_state_of_def)

lemma ClearInputQueue_eq:
  "ClearInputQueue st s = s\<lparr>ad_log := ad_log s @ map (\<lambda>(_, cb). AcDecoded cb st) (ad_queue s), ad_queue := []\<rparr>"
proof -
  have "fold (\<lambda>(_, cb). ad_call (AcDecoded cb st)) q s = s\<lparr>ad_log := ad_log s @ map (\<lambda>(_, cb). AcDecoded cb st) q\<rparr>" for q
    by (induction q arbitrary: s) (auto simp: ad_call_def)
  from this [of "ad_queue s"] show ?thesis unfolding ClearInputQueue_def by simp
qed

lemma Loop_SetState_state [simp]:
  "ad_loop s \<noteq> None \<Longrightarrow> loop_state_of (Loop_SetState st s) = st"
  by (auto simp: Loop_SetState_def Let_def OnCodecLoopError_def ClearInputQueue_eq Audio_SetState_def
      on_loop_def loop_state_of_def)

lemma Loop_SetState_quiet:
  "st \<noteq> LsError \<Longrightarrow> Loop_SetState st s = on_loop (\<lambda>l. l\<lparr>al_state := st\<rparr>) s"
  by (simp add: Loop_SetState_def)

lemma Loop_SetState_queues:
  "length (ad_queue (Loop_SetState st s)) \<le> length (ad_queue s)" "ad_outputs (Loop_SetState st s) = ad_outputs s"
  "ad_loop (Loop_SetState st s) = None \<longleftrightarrow> ad_loop s = None"
  by (simp_all add: Loop_SetState_def Let_def OnCodecLoopError_def ClearInputQueue_eq Audio_SetState_def on_loop_def)

lemma QueueInputBufferDec_frame:
  assumes "QueueInputBufferDec code index d s = (c, u)"
  shows "ad_queue u = ad_queue s" "ad_outputs u = ad_outputs s" "ad_loop u = ad_loop s" "ad_inputs u = ad_inputs s"
  using assms
  by (auto simp: QueueInputBufferDec_def Let_def WaitingForLicence_def Audio_SetState_def split: if_splits)

lemma loop_error_iff: "loop_state_of s \<noteq> LsError \<Longrightarrow> ad_loop s \<noteq> None"
  by (cases "ad_loop s") (simp_all add: loop_state_of_def)

lemma IsAnyInputPending_data: "IsAnyInputPending s \<Longrightarrow> \<exists>b cb rest d. ad_queue s = (b, cb) # rest \<and> ProvideInputData s = Some d \<and> in_eos d = ab_eos b"
  by (cases "ad_queue s")
    (auto simp: IsAnyInputPending_def ProvideInputData_def SetCencInfoToInputData_def split: option.split prod.split)

text \<open>An input turn.\<close>

lemma Enqueue_turn:
  assumes data: "ad_queue s = (b, cb) # rest" "ProvideInputData s = Some d" "in_eos d = ab_eos b"
    and ready: "loop_state_of s = LsReady"
    and run: "Loop_EnqueueInputBuffer r index s = (ret, u)"
  shows "ret" "pending_work u < pending_work s" "ad_outputs u = ad_outputs s"
proof -
  let ?s = "if in_eos d then Loop_SetState LsDraining s else s"
  obtain code v where q: "QueueInputBufferDec (ar_queue r) index d ?s = (code, v)" by force
  have u: "ret \<and> u = (case code of AudRetry \<Rightarrow> Loop_SetState LsWaitingForKey v | AudOk \<Rightarrow> OnInputDataQueued True v
      | AudError \<Rightarrow> Loop_SetState LsError (OnInputDataQueued False v))"
    using run data q by (auto simp: Loop_EnqueueInputBuffer_def Let_def split: prod.splits)
  have l: "ad_loop s \<noteq> None" using ready by (intro loop_error_iff) simp
  have s: "ad_queue ?s = ad_queue s" "ad_outputs ?s = ad_outputs s" "ad_loop ?s \<noteq> None"
      "loop_state_of ?s = (if ab_eos b then LsDraining else LsReady)"
    using l ready data(3) by (auto simp: Loop_SetState_quiet on_loop_def loop_state_of_def)
  note v = QueueInputBufferDec_frame [OF q]
  have vs: "loop_state_of v = (if ab_eos b then LsDraining else LsReady)"
    using v(3) s(4) by (simp add: loop_state_of_def)
  have vl: "ad_loop v \<noteq> None" using v(3) s(3) by simp
  have o: "ad_outputs u = ad_outputs s \<and> length (ad_queue u) \<le> length (ad_queue s)"
    using u v s(1,2) data(1) Loop_SetState_queues [of _ v]
      le_trans [OF Loop_SetState_queues(1) [of LsError "OnInputDataQueued False v"]]
    by (auto simp: OnInputDataQueued_def Loop_SetState_queues(2) split: audio_code.split)
  then show "ret" "ad_outputs u = ad_outputs s" using u by auto
  show "pending_work u < pending_work s"
  proof (cases code)
    case AudOk
    then show ?thesis using u v(1,2) s(1,2) data(1) vs ready by (auto simp: pending_work_def OnInputDataQueued_def)
  next
    case AudError
    have n: "ad_loop (OnInputDataQueued False v) \<noteq> None" using v(1) s(1) data(1) vl by (simp add: OnInputDataQueued_def)
    from AudError u have "u = Loop_SetState LsError (OnInputDataQueued False v)" by simp
    with Loop_SetState_state [OF n] o ready show ?thesis by (auto simp: pending_work_def)
  next
    case AudRetry
    with u have "u = Loop_SetState LsWaitingForKey v" by simp
    with Loop_SetState_state [OF vl] o ready show ?thesis by (auto simp: pending_work_def)
  qed
qed

lemma ProcessOneInputBuffer_turn:
  assumes "ProcessOneInputBuffer r s = (did, u)"
  shows "pending_work u \<le> pending_work s" "did \<Longrightarrow> pending_work u < pending_work s"
proof -
  have "pending_work u \<le> pending_work s \<and> (did \<longrightarrow> pending_work u < pending_work s)"
  proof (cases "loop_state_of s = LsReady \<and> IsAnyInputPending s \<and> (\<exists>i rest. ad_inputs s = i # rest \<and> i \<noteq> kInvalidBufferIndex)")
    case True
    then obtain i free b cb rest d where f: "ad_inputs s = i # free" "i \<noteq> kInvalidBufferIndex"
      and d: "ad_queue s = (b, cb) # rest" "ProvideInputData s = Some d" "in_eos d = ab_eos b"
      and r: "loop_state_of s = LsReady" "IsAnyInputPending s"
      using IsAnyInputPending_data by blast
    let ?s = "s\<lparr>ad_inputs := free\<rparr>"
    obtain ret v where e: "Loop_EnqueueInputBuffer r i ?s = (ret, v)" by force
    have "ProvideInputData ?s = Some d" using d(2) by (simp add: ProvideInputData_def)
    note turn = Enqueue_turn [OF _ this d(3) _ e]
    have "ret" "pending_work v < pending_work s" using turn(1,2) d(1) r(1) by (simp_all add: pending_work_def)
    with assms f r e show ?thesis by (simp add: ProcessOneInputBuffer_def)
  next
    case False
    with assms show ?thesis
      by (auto simp: ProcessOneInputBuffer_def pending_work_def split: list.splits if_splits)
  qed
  then show "pending_work u \<le> pending_work s" "did \<Longrightarrow> pending_work u < pending_work s" by auto
qed

text \<open>An output turn.\<close>

lemma OnDecodedFrame_turn:
  assumes "OnDecodedFrame copied out s = (ok, u)"
  shows "ad_queue u = ad_queue s" "ad_loop u = ad_loop s" "ad_outputs u = (if ok then tl (ad_outputs s) else ad_outputs s)"
  using assms by (auto simp: OnDecodedFrame_def Let_def split: if_splits)

lemma OnDecodedEos_turn:
  assumes "OnDecodedEos out s = (ok, u)"
  shows "ad_loop u = ad_loop s" "ad_outputs u = (if ok then tl (ad_outputs s) else ad_outputs s)"
    "ad_queue u = (if ok then tl (ad_queue s) else ad_queue s)"
  using assms by (auto simp: OnDecodedEos_def Let_def split: list.splits prod.splits if_splits)

lemma error_turn:
  assumes "loop_state_of s \<noteq> LsError" "ad_loop u \<noteq> None" "ad_outputs u = ad_outputs s" "length (ad_queue u) \<le> length (ad_queue s)"
  shows "pending_work (Loop_SetState LsError u) < pending_work s"
  using assms Loop_SetState_queues [of LsError u] by (simp add: pending_work_def)

lemma ProcessOneOutputBuffer_turn:
  assumes "ProcessOneOutputBuffer r s = (did, u)"
  shows "pending_work u \<le> pending_work s" "did \<Longrightarrow> pending_work u < pending_work s"
proof -
  have "u = s \<and> \<not> did \<or> pending_work u < pending_work s"
  proof (cases "loop_state_of s = LsError \<or> ad_outputs s = []")
    case True
    with assms show ?thesis by (auto simp: ProcessOneOutputBuffer_def split: if_splits)
  next
    case False
    then obtain out os where o: "ad_outputs s = out # os" and l: "loop_state_of s \<noteq> LsError" "ad_loop s \<noteq> None"
      using loop_error_iff by (cases "ad_outputs s") auto
    have "pending_work u < pending_work s"
    proof (cases "ao_eos out")
      case True
      let ?s = "ReleaseOutputBufferDec (ao_index out) (Loop_SetState LsDrained s)"
      obtain ok v where e: "OnDecodedEos out ?s = (ok, v)" by force
      have s: "ad_outputs ?s = ad_outputs s" "ad_queue ?s = ad_queue s" "ad_loop ?s \<noteq> None" "loop_state_of ?s = LsDrained"
        using l by (auto simp: ReleaseOutputBufferDec_def Loop_SetState_quiet on_loop_def loop_state_of_def)
      note v = OnDecodedEos_turn [OF e]
      have "loop_state_of v = LsDrained" using v(1) s(4) by (simp add: loop_state_of_def)
      moreover have "u = (if ok then v else Loop_SetState LsError v)"
        using assms l o True e by (auto simp: ProcessOneOutputBuffer_def Let_def)
      ultimately show ?thesis using o l s(1-3) v error_turn [OF l(1), of v]
        by (cases ok) (auto simp: pending_work_def)
    next
      case False
      obtain ok v where e: "OnDecodedFrame (ar_copied r) out s = (ok, v)" by force
      note v = OnDecodedFrame_turn [OF e]
      have "loop_state_of v = loop_state_of s" using v(2) by (simp add: loop_state_of_def)
      moreover have "u = (if ok then v else Loop_SetState LsError v)"
        using assms l o False e by (auto simp: ProcessOneOutputBuffer_def Let_def)
      ultimately show ?thesis using o l v error_turn [OF l(1), of v] by (auto simp: pending_work_def)
    qed
    then show ?thesis ..
  qed
  then show "pending_work u \<le> pending_work s" "did \<Longrightarrow> pending_work u < pending_work s" by auto
qed

text \<open>The turns of \<open>DoPendingWork\<close>, each with its own answers of the codec.\<close>

function pending_turns :: "audio_reply list \<Rightarrow> bool \<Rightarrow> audio_decoder \<Rightarrow> bool \<times> audio_decoder" where
  "pending_turns rs did_work s =
     (let (did_input, v) = ProcessOneInputBuffer (audio_reply_of rs) s;
          (did_output, u) = ProcessOneOutputBuffer (audio_reply_of rs) v
      in if did_input \<or> did_output then pending_turns (tl rs) True u else (did_work, u))"
  by pat_completeness auto
termination
proof (relation "measure (\<lambda>(rs, did_work, s). pending_work s)", goal_cases)
  case (2 rs did_work s x did_input v y did_output u)
  then have "ProcessOneInputBuffer (audio_reply_of rs) s = (did_input, v)"
    "ProcessOneOutputBuffer (audio_reply_of rs) v = (did_output, u)" by simp_all
  from ProcessOneInputBuffer_turn [OF this(1)] ProcessOneOutputBuffer_turn [OF this(2)] 2 show ?case by auto
qed simp

declare pending_turns.simps [simp del]

definition DoPendingWork :: "int \<Rightarrow> audio_reply list \<Rightarrow> audio_decoder \<Rightarrow> audio_decoder" where
  "DoPendingWork now rs s =
     (if loop_state_of s = LsError then s
      else let (did_work, s) = pending_turns rs False s in ManageTimer now did_work s)"

definition ExpectWork :: "int \<Rightarrow> audio_reply list \<Rightarrow> audio_decoder \<Rightarrow> audio_decoder" where
  "ExpectWork now rs s = DoPendingWork now rs (ManageTimer now True s)"

definition OnKeyAdded :: "int \<Rightarrow> audio_reply list \<Rightarrow> audio_decoder \<Rightarrow> audio_decoder" where
  "OnKeyAdded now rs s =
     ExpectWork now rs (if loop_state_of s = LsWaitingForKey then Loop_SetState LsReady s else s)"

definition TryFlush :: "audio_code \<Rightarrow> audio_decoder \<Rightarrow> bool \<times> audio_decoder" where
  "TryFlush code s =
     (if loop_state_of s = LsError then (False, s)
      else
        let s = on_loop (\<lambda>l. l\<lparr>al_timer := False\<rparr>) s;
            (code, s) = Audio_FlushDecoder code s
        in if code \<noteq> AudOk then (False, Loop_SetState LsError s) else (True, Loop_SetState LsReady s))"

section \<open>The decoder\<close>

definition OHOSAudioDecoderLoop :: audio_loop where
  "OHOSAudioDecoderLoop = \<lparr>al_state = LsReady, al_timer = False, al_idle = 0\<rparr>"

definition CreateOhosDecoderLoop :: "audio_decoder \<Rightarrow> bool \<times> audio_decoder" where
  "CreateOhosDecoderLoop s = (True, s\<lparr>ad_loop := Some OHOSAudioDecoderLoop\<rparr>)"

fun mime_of :: "audio_codec \<Rightarrow> string option" where
  "mime_of kAAC = Some ''audio/mp4a-latm''"
| "mime_of kFLAC = Some ''audio/flac''"
| "mime_of kVorbis = Some ''audio/vorbis''"
| "mime_of kMP3 = Some ''audio/mpeg''"
| "mime_of kAMR_NB = Some ''audio/3gpp''"
| "mime_of kAMR_WB = Some ''audio/amr-wb''"
| "mime_of kOtherAudio = None"

text \<open>The member keeps the type of the last codec that had one.\<close>

definition GetMimeType :: "audio_config \<Rightarrow> audio_decoder \<Rightarrow> string \<times> audio_decoder" where
  "GetMimeType config s =
     (let s = (case mime_of (au_codec config) of None \<Rightarrow> s | Some m \<Rightarrow> s\<lparr>ad_mime := m\<rparr>) in (ad_mime s, s))"

definition PrepareParameters :: "audio_config \<Rightarrow> audio_decoder \<Rightarrow> audio_decoder" where
  "PrepareParameters config s =
     s\<lparr>ad_config := config, ad_channels := au_channels config, ad_rate := au_rate config\<rparr>"

text \<open>What the adapter of the system answers while a codec is set up.\<close>

record audio_setup =
  us_adapter :: bool
  us_mime :: audio_code
  us_start :: audio_code
  us_format :: audio_code

definition InitAudioDecoder :: "audio_setup \<Rightarrow> audio_decoder \<Rightarrow> bool \<times> audio_decoder" where
  "InitAudioDecoder a s =
     (if \<not> us_adapter a then (False, s\<lparr>ad_codec := None\<rparr>)
      else
        let by_mime = \<not> ad_created s;
            s = s\<lparr>ad_codec := Some False\<rparr>;
            s = (if by_mime then ad_call (AcCreate (ad_mime s)) s else s)
        in if by_mime \<and> us_mime a \<noteq> AudOk then (False, s)
           else
             let s = (if by_mime then s\<lparr>ad_created := True, ad_codec := Some True\<rparr> else s);
                 s = (if au_encrypted (ad_config s) \<and> ad_session s \<noteq> None then ad_call AcDecryption s else s);
                 s = ad_call (AcStart by_mime) (ad_call (AcConfigure (ad_rate s) (ad_channels s)) s)
             in if us_start a \<noteq> AudOk then (False, s)
                else (us_format a = AudOk, ad_call AcFormat s))"

definition InitializeNotEncrypted :: "audio_setup \<Rightarrow> nat \<Rightarrow> audio_decoder \<Rightarrow> audio_decoder" where
  "InitializeNotEncrypted a init_cb s =
     (let (ok, s) = InitAudioDecoder a s
      in if \<not> ok then ad_call (AcInit init_cb AsFailed) s
         else ad_call (AcInit init_cb AsOk) (Audio_SetState AdReady (snd (CreateOhosDecoderLoop s))))"

text \<open>\<open>cdm\<close>: is there a \<open>CdmContext\<close>, and with it a media crypto context?\<close>

definition Audio_SetCdm :: "bool \<Rightarrow> nat \<Rightarrow> audio_decoder \<Rightarrow> audio_decoder" where
  "Audio_SetCdm cdm init_cb s =
     (if \<not> cdm then ad_call (AcInit init_cb AsFailed) s
      else s\<lparr>ad_crypto := True, ad_ready_cb := Some init_cb\<rparr>)"

definition Audio_Initialize :: "audio_config \<Rightarrow> bool \<Rightarrow> audio_setup \<Rightarrow> nat \<Rightarrow> audio_decoder \<Rightarrow> audio_decoder" where
  "Audio_Initialize config cdm a init_cb s =
     (if \<not> au_encrypted config then ad_call (AcInit init_cb AsUnsupportedCodec) s
      else
        let s = ClearInputQueue AsAborted s
        in if ad_state s = AdError then ad_call (AcInit init_cb AsFailed) s
           else
             let (mime, s) = GetMimeType config s
             in if mime = [] then ad_call (AcInit init_cb AsUnsupportedCodec) s
                else
                  let s = PrepareParameters config s
                  in if au_encrypted (ad_config s)
                     then if \<not> cdm
                          then ad_call (AcInit init_cb AsUnsupportedEncryptionMode) (Audio_SetState AdError s)
                          else Audio_SetCdm cdm init_cb (Audio_SetState AdWaitingForMediaCrypto s)
                     else InitializeNotEncrypted a init_cb s)"

definition Audio_OnMediaCryptoReady ::
  "nat \<Rightarrow> int option \<Rightarrow> audio_setup \<Rightarrow> audio_decoder \<Rightarrow> audio_decoder" where
  "Audio_OnMediaCryptoReady init_cb session a s =
     (if session = None
      then ad_call (AcInit init_cb AsUnsupportedEncryptionMode) (Audio_SetState AdUninitialized s)
      else
        let (ok, s) = InitAudioDecoder a (s\<lparr>ad_session := session\<rparr>)
        in if \<not> ok then ad_call (AcInit init_cb AsFailed) s
           else
             let (made, s) = CreateOhosDecoderLoop s
             in if \<not> made then ad_call (AcInit init_cb AsFailed) (Audio_SetState AdUninitialized s)
                else ad_call (AcInit init_cb AsOk) (Audio_SetState AdReady s))"

definition Audio_OnCdmContextEvent :: "bool \<Rightarrow> int \<Rightarrow> audio_reply list \<Rightarrow> audio_decoder \<Rightarrow> audio_decoder" where
  "Audio_OnCdmContextEvent additional_key now rs s =
     (if \<not> additional_key then s
      else
        let s = (Audio_SetState AdReady (s\<lparr>ad_waiting_key := False\<rparr>))\<lparr>ad_timer := False\<rparr>
        in if ad_loop s \<noteq> None then OnKeyAdded now rs s else s)"

definition Audio_OnError :: "audio_decoder \<Rightarrow> audio_decoder" where
  "Audio_OnError s =
     (if ad_state s \<noteq> AdWaitingForMediaCrypto \<and> ad_waiting_key s then Audio_SetState AdWaitingForMediaCrypto s else s)"

definition Audio_Decode :: "audio_buffer \<Rightarrow> nat \<Rightarrow> int \<Rightarrow> audio_reply list \<Rightarrow> audio_decoder \<Rightarrow> audio_decoder" where
  "Audio_Decode buffer decode_cb now rs s =
     (if \<not> ab_subsamples_match buffer then ad_call (AcDecoded decode_cb AsFailed) s
      else if \<not> ab_eos buffer \<and> ab_time buffer = None then ad_call (AcDecoded decode_cb AsFailed) s
      else if ad_state s = AdError \<or> ad_loop s = None
      then ad_call (AcDecoded decode_cb AsFailed) (ClearInputQueue AsFailed s)
      else ExpectWork now rs (s\<lparr>ad_queue := ad_queue s @ [(buffer, decode_cb)]\<rparr>))"

text \<open>Without a loop the source follows a null pointer here; the machine below does not do that.\<close>

definition Audio_Reset :: "nat \<Rightarrow> audio_code \<Rightarrow> audio_decoder \<Rightarrow> audio_decoder" where
  "Audio_Reset closure flushed s =
     (case ad_codec s of
        None \<Rightarrow> s
      | Some created \<Rightarrow>
          let (success, s) = TryFlush flushed (ClearInputQueue AsAborted s);
              s = s\<lparr>ad_inputs := [], ad_outputs := [], ad_timer := False\<rparr>;
              (success, s) = (if success then CreateOhosDecoderLoop s else (success, s));
              s = ad_call (AcStart created) s
          in ad_call (AcReset closure) (Audio_SetState (if success then AdReady else AdError) s))"

definition NeedsBitstreamConversion :: "audio_decoder \<Rightarrow> bool" where
  "NeedsBitstreamConversion s \<longleftrightarrow> au_codec (ad_config s) = kAAC"

definition AddInputBuffer :: "int \<Rightarrow> audio_decoder \<Rightarrow> audio_decoder" where
  "AddInputBuffer index s = s\<lparr>ad_inputs := ad_inputs s @ [index]\<rparr>"

definition AddOutputBuffer :: "audio_output \<Rightarrow> audio_decoder \<Rightarrow> audio_decoder" where
  "AddOutputBuffer out s = s\<lparr>ad_outputs := ad_outputs s @ [out]\<rparr>"

definition UpdateOutputFormat :: "audio_decoder \<Rightarrow> audio_decoder" where
  "UpdateOutputFormat s = (if ad_codec s = None then s else ad_call AcFormat s)"

text \<open>The destructor.\<close>

definition Audio_Destroy :: "audio_decoder \<Rightarrow> audio_decoder" where
  "Audio_Destroy s =
     (let s = s\<lparr>ad_loop := None\<rparr>;
          s = (if ad_crypto s then s\<lparr>ad_ready_cb := None\<rparr> else s);
          s = (if ad_codec s \<noteq> None then (ad_call AcStop s)\<lparr>ad_codec := None, ad_created := False\<rparr> else s)
      in (ClearInputQueue AsAborted s)\<lparr>ad_timer := False, ad_alive := False\<rparr>)"

end
