(* ===== verification/Audio_Machine.thy ===== *)
theory Audio_Machine
  imports Audio_Decoder
begin

text \<open>
  The audio decoder under all interleavings of its client, its key system, its codec and its
  two timers: what is asked of it, and the order in which it answers.
\<close>

section \<open>The machine\<close>

datatype audio_event =
    AeInitialize audio_config bool audio_setup nat
  | AeCryptoReady "int option" audio_setup
  | AeKey bool int "audio_reply list"
  | AeDecode audio_buffer nat int "audio_reply list"
  | AeReset nat audio_code
  | AeDestroy
  | AeInput int
  | AeOutput audio_output
  | AeError
  | AeFormat
  | AeTick int "audio_reply list"
  | AeLicence

fun ad_step :: "audio_decoder \<Rightarrow> audio_event \<Rightarrow> audio_decoder" where
  "ad_step s (AeInitialize config cdm a t) = Audio_Initialize config cdm a t s"
| "ad_step s (AeCryptoReady session a) =
     Audio_OnMediaCryptoReady (the (ad_ready_cb s)) session a (s\<lparr>ad_ready_cb := None\<rparr>)"
| "ad_step s (AeKey additional now rs) = Audio_OnCdmContextEvent additional now rs s"
| "ad_step s (AeDecode buffer t now rs) = Audio_Decode buffer t now rs s"
| "ad_step s (AeReset t flushed) = Audio_Reset t flushed s"
| "ad_step s AeDestroy = Audio_Destroy s"
| "ad_step s (AeInput index) = AddInputBuffer index s"
| "ad_step s (AeOutput out) = AddOutputBuffer out s"
| "ad_step s AeError = Audio_OnError s"
| "ad_step s AeFormat = UpdateOutputFormat s"
| "ad_step s (AeTick now rs) = DoPendingWork now rs s"
| "ad_step s AeLicence = WaitingForLicence s"

text \<open>
  One initialisation at a time; key events come from a registered key system; a timer fires
  while it runs; and no reset of a codec that has no loop.
\<close>

fun ad_allowed :: "audio_decoder \<Rightarrow> audio_event \<Rightarrow> bool" where
  "ad_allowed s (AeInitialize config cdm a t) = (ad_ready_cb s = None)"
| "ad_allowed s (AeCryptoReady session a) = (ad_ready_cb s \<noteq> None)"
| "ad_allowed s (AeKey additional now rs) = ad_crypto s"
| "ad_allowed s (AeReset t flushed) = (ad_codec s \<noteq> None \<longrightarrow> ad_loop s \<noteq> None)"
| "ad_allowed s (AeTick now rs) = (case ad_loop s of None \<Rightarrow> False | Some l \<Rightarrow> al_timer l)"
| "ad_allowed s AeLicence = ad_timer s"
| "ad_allowed s _ = True"

definition ad_ok :: "audio_decoder \<Rightarrow> audio_event \<Rightarrow> bool" where
  "ad_ok s e \<longleftrightarrow> ad_alive s \<and> ad_allowed s e"

section \<open>The order of the answers\<close>

fun decoded_call :: "audio_call \<Rightarrow> nat list" where
  "decoded_call (AcDecoded t st) = [t]"
| "decoded_call _ = []"

fun init_call :: "audio_call \<Rightarrow> nat list" where
  "init_call (AcInit t st) = [t]"
| "init_call _ = []"

text \<open>Who has been answered, in order.\<close>

definition decoded :: "audio_decoder \<Rightarrow> nat list" where
  "decoded s = concat (map decoded_call (ad_log s))"

definition initialised :: "audio_decoder \<Rightarrow> nat list" where
  "initialised s = concat (map init_call (ad_log s))"

definition queued :: "audio_decoder \<Rightarrow> nat list" where
  "queued s = map snd (ad_queue s)"

definition awaited :: "audio_decoder \<Rightarrow> nat list" where
  "awaited s = (case ad_ready_cb s of None \<Rightarrow> [] | Some t \<Rightarrow> [t])"

definition decode_line :: "audio_decoder \<Rightarrow> nat list" where
  "decode_line s = decoded s @ queued s"

definition init_line :: "audio_decoder \<Rightarrow> nat list" where
  "init_line s = initialised s @ awaited s"

definition keeps_lines :: "audio_decoder \<Rightarrow> audio_decoder \<Rightarrow> bool" where
  "keeps_lines s u \<longleftrightarrow> decode_line u = decode_line s \<and> initialised u = initialised s \<and> ad_ready_cb u = ad_ready_cb s \<and>
     ad_alive u = ad_alive s"

lemmas line_defs = keeps_lines_def decode_line_def decoded_def queued_def initialised_def

lemma lines_refl [simp]: "keeps_lines s s"
  by (simp add: keeps_lines_def)

lemma lines_trans: "keeps_lines s u \<Longrightarrow> keeps_lines u v \<Longrightarrow> keeps_lines s v"
  by (simp add: keeps_lines_def)

text \<open>A step that answers nobody and leaves the queue.\<close>

lemma lines_quiet:
  "ad_queue u = ad_queue s \<Longrightarrow> ad_log u = ad_log s @ cs \<Longrightarrow> \<forall>c \<in> set cs. decoded_call c = [] \<and> init_call c = [] \<Longrightarrow>
   ad_ready_cb u = ad_ready_cb s \<Longrightarrow> ad_alive u = ad_alive s \<Longrightarrow> keeps_lines s u"
  by (auto simp: line_defs)

lemma lines_call: "decoded_call c = [] \<Longrightarrow> init_call c = [] \<Longrightarrow> keeps_lines s (ad_call c s)"
  by (rule lines_quiet [where cs = "[c]"]) (simp_all add: ad_call_def)

lemma lines_same:
  "ad_queue u = ad_queue s \<Longrightarrow> ad_log u = ad_log s \<Longrightarrow> ad_ready_cb u = ad_ready_cb s \<Longrightarrow> ad_alive u = ad_alive s \<Longrightarrow> keeps_lines s u"
  by (rule lines_quiet [where cs = "[]"]) simp_all

lemma decoded_all: "concat (map decoded_call (map (\<lambda>(_, cb). AcDecoded cb st) q)) = map snd q"
  by (induction q) auto

lemma initialised_none: "concat (map init_call (map (\<lambda>(_, cb). AcDecoded cb st) q)) = []"
  by (induction q) auto

lemma lines_clear: "keeps_lines s (ClearInputQueue st s)"
  using decoded_all [of st "ad_queue s"] initialised_none [of st "ad_queue s"]
  by (simp add: line_defs ClearInputQueue_eq del: map_map)

lemma lines_loop_state: "keeps_lines s (Loop_SetState st s)"
proof -
  have 1: "keeps_lines s (on_loop f s)" for f by (rule lines_same) (simp_all add: on_loop_def)
  have 2: "keeps_lines s (Audio_SetState AdError (on_loop f s))" for f
    by (rule lines_same) (simp_all add: on_loop_def Audio_SetState_def)
  from 1 lines_trans [OF 2 lines_clear] show ?thesis
    by (simp add: Loop_SetState_def Let_def OnCodecLoopError_def)
qed

text \<open>The head of the queue is answered.\<close>

lemma lines_pop:
  assumes "ad_queue s = (b, cb) # rest" "ad_queue u = rest" "ad_log u = ad_log s @ [AcDecoded cb st]"
    "ad_ready_cb u = ad_ready_cb s" "ad_alive u = ad_alive s"
  shows "keeps_lines s u"
  using assms by (simp add: line_defs)

lemma lines_data_queued: "keeps_lines s (OnInputDataQueued success s)"
  by (auto simp: OnInputDataQueued_def ad_call_def split: list.split intro: lines_pop)

lemma lines_eos: "OnDecodedEos out s = (ok, u) \<Longrightarrow> keeps_lines s u"
  by (auto simp: OnDecodedEos_def ad_call_def line_defs split: list.splits if_splits)

lemma lines_frame: "OnDecodedFrame copied out s = (ok, u) \<Longrightarrow> keeps_lines s u"
  by (auto simp: OnDecodedFrame_def Let_def ad_call_def line_defs split: if_splits)

lemma lines_licence: "keeps_lines s (WaitingForLicence s)"
  by (rule lines_same) (simp_all add: WaitingForLicence_def Audio_SetState_def)

lemma lines_queue_dec:
  assumes "QueueInputBufferDec code index d s = (c, u)"
  shows "keeps_lines s u"
  by (rule lines_quiet [where cs = "if ad_state s = AdWaitingForMediaCrypto \<or> ad_codec s = None then [] else [AcQueue index d]"])
    (use assms in \<open>auto simp: QueueInputBufferDec_def Let_def WaitingForLicence_def Audio_SetState_def ad_call_def
      split: if_splits\<close>)

lemma lines_release: "keeps_lines s (ReleaseOutputBufferDec i s)"
  by (simp add: ReleaseOutputBufferDec_def lines_call)

section \<open>The loop keeps the order\<close>

lemma lines_enqueue:
  assumes "Loop_EnqueueInputBuffer r index s = (ret, u)"
  shows "keeps_lines s u"
proof (cases "ProvideInputData s")
  case (Some d)
  let ?s = "if in_eos d then Loop_SetState LsDraining s else s"
  obtain code v where q: "QueueInputBufferDec (ar_queue r) index d ?s = (code, v)" by force
  have "keeps_lines s ?s" by (simp add: lines_loop_state)
  note v = lines_trans [OF this lines_queue_dec [OF q]]
  note steps = lines_trans [OF v lines_data_queued] lines_trans [OF v lines_loop_state]
  from assms Some q show ?thesis
    using lines_trans [OF steps(1) lines_loop_state] steps
    by (auto simp: Loop_EnqueueInputBuffer_def Let_def split: audio_code.splits prod.splits)
qed (use assms in \<open>simp add: Loop_EnqueueInputBuffer_def\<close>)

lemma lines_input:
  assumes "ProcessOneInputBuffer r s = (did, u)"
  shows "keeps_lines s u"
proof -
  have free: "keeps_lines v (v\<lparr>ad_inputs := is\<rparr>)" for v "is" by (rule lines_same) simp_all
  show ?thesis
    using assms lines_trans [OF free lines_enqueue] lines_trans [OF lines_trans [OF free lines_enqueue] free] free
    by (auto simp: ProcessOneInputBuffer_def Let_def split: if_splits list.splits prod.splits)
qed

lemma lines_output:
  assumes "ProcessOneOutputBuffer r s = (did, u)"
  shows "keeps_lines s u"
proof -
  note eos = lines_trans [OF lines_trans [OF lines_loop_state lines_release] lines_eos]
  show ?thesis
    using assms eos lines_frame lines_trans [OF eos lines_loop_state] lines_trans [OF lines_frame lines_loop_state]
    by (auto simp: ProcessOneOutputBuffer_def Let_def split: if_splits list.splits prod.splits)
qed

lemma lines_turns: "keeps_lines s (snd (pending_turns rs did s))"
proof (induction rs did s rule: pending_turns.induct)
  case (1 rs did s)
  obtain i v where i: "ProcessOneInputBuffer (audio_reply_of rs) s = (i, v)" by force
  obtain out u where out: "ProcessOneOutputBuffer (audio_reply_of rs) v = (out, u)" by force
  note u = lines_trans [OF lines_input [OF i] lines_output [OF out]]
  have "keeps_lines u (snd (pending_turns (tl rs) True u))" if "i \<or> out"
    using "1.IH" [OF i [symmetric] refl out [symmetric] refl that] .
  then show ?case using i out u lines_trans [OF u]
    by (subst pending_turns.simps) (simp add: Let_def)
qed

lemma lines_manage: "keeps_lines s (ManageTimer now did s)"
  by (rule lines_same) (simp_all add: ManageTimer_def on_loop_def)

lemma lines_pending: "keeps_lines s (DoPendingWork now rs s)"
proof -
  obtain did u where "pending_turns rs False s = (did, u)" by force
  with lines_turns [of s rs False] lines_trans [OF _ lines_manage] show ?thesis
    by (simp add: DoPendingWork_def)
qed

lemma lines_expect: "keeps_lines s (ExpectWork now rs s)"
  unfolding ExpectWork_def by (rule lines_trans [OF lines_manage lines_pending])

lemma lines_key: "keeps_lines s (OnKeyAdded now rs s)"
  using lines_trans [OF lines_loop_state lines_expect] lines_expect by (simp add: OnKeyAdded_def)

lemma lines_flush: "keeps_lines s (snd (TryFlush code s))"
proof -
  let ?s = "on_loop (\<lambda>l. l\<lparr>al_timer := False\<rparr>) s"
  obtain c u where f: "Audio_FlushDecoder code ?s = (c, u)" by force
  then have "keeps_lines ?s u"
    by (auto simp: Audio_FlushDecoder_def lines_call split: if_splits)
  then have "keeps_lines s u" by (rule lines_trans [rotated]) (rule lines_same; simp add: on_loop_def)
  with f lines_trans [OF this lines_loop_state] show ?thesis
    by (simp add: TryFlush_def Let_def)
qed

section \<open>Every event\<close>

lemma lines_setup: "keeps_lines s (snd (InitAudioDecoder a s))"
  by (simp add: InitAudioDecoder_def Let_def ad_call_def line_defs)

lemma lines_error: "keeps_lines s (Audio_OnError s)"
  by (rule lines_same) (simp_all add: Audio_OnError_def Audio_SetState_def)

lemma lines_reset: "keeps_lines s (Audio_Reset t code s)"
proof (cases "ad_codec s")
  case (Some created)
  obtain ok u where f: "TryFlush code (ClearInputQueue AsAborted s) = (ok, u)" by force
  have u: "keeps_lines s u" using lines_trans [OF lines_clear [of s AsAborted] lines_flush [of _ code]] f by simp
  have "keeps_lines u (Audio_Reset t code s)"
    by (rule lines_quiet [where cs = "[AcStart created, AcReset t]"])
      (use Some f in \<open>simp_all add: Audio_Reset_def Let_def CreateOhosDecoderLoop_def Audio_SetState_def ad_call_def\<close>)
  with u show ?thesis by (rule lines_trans)
qed (simp add: Audio_Reset_def)

lemma lines_cdm_event: "keeps_lines s (Audio_OnCdmContextEvent additional now rs s)"
proof -
  let ?s = "(Audio_SetState AdReady (s\<lparr>ad_waiting_key := False\<rparr>))\<lparr>ad_timer := False\<rparr>"
  have "keeps_lines s ?s" by (rule lines_same) (simp_all add: Audio_SetState_def)
  with lines_trans [OF this lines_key] show ?thesis
    by (simp add: Audio_OnCdmContextEvent_def Let_def)
qed

text \<open>A request that the decoder takes: its samples are described and, unless it ends the stream, it has a time.\<close>

definition well_formed :: "audio_buffer \<Rightarrow> bool" where
  "well_formed b \<longleftrightarrow> ab_subsamples_match b \<and> (ab_eos b \<or> ab_time b \<noteq> None)"

lemma decode_well_formed:
  assumes "well_formed b"
  shows "decode_line (Audio_Decode b t now rs s) = decode_line s @ [t]" "init_line (Audio_Decode b t now rs s) = init_line s"
    "ad_alive (Audio_Decode b t now rs s) = ad_alive s"
proof -
  have "decode_line (Audio_Decode b t now rs s) = decode_line s @ [t] \<and> init_line (Audio_Decode b t now rs s) = init_line s \<and>
      ad_alive (Audio_Decode b t now rs s) = ad_alive s"
  proof (cases "ad_state s = AdError \<or> ad_loop s = None")
    case True
    with assms lines_clear [of s AsFailed] show ?thesis
      by (auto simp: Audio_Decode_def well_formed_def ad_call_def ClearInputQueue_eq line_defs init_line_def awaited_def)
  next
    case False
    let ?s = "s\<lparr>ad_queue := ad_queue s @ [(b, t)]\<rparr>"
    have "Audio_Decode b t now rs s = ExpectWork now rs ?s"
      using assms False by (auto simp: Audio_Decode_def well_formed_def)
    moreover have "decode_line ?s = decode_line s @ [t]" "init_line ?s = init_line s" "ad_alive ?s = ad_alive s"
      by (simp_all add: line_defs init_line_def awaited_def)
    ultimately show ?thesis using lines_expect [of ?s now rs]
      by (simp add: keeps_lines_def init_line_def awaited_def)
  qed
  then show "decode_line (Audio_Decode b t now rs s) = decode_line s @ [t]" "init_line (Audio_Decode b t now rs s) = init_line s"
    "ad_alive (Audio_Decode b t now rs s) = ad_alive s" by simp_all
qed

lemma decode_malformed:
  "\<not> well_formed b \<Longrightarrow> Audio_Decode b t now rs s = ad_call (AcDecoded t AsFailed) s"
  by (auto simp: Audio_Decode_def well_formed_def)

fun decode_joins :: "audio_event \<Rightarrow> nat list" where
  "decode_joins (AeDecode b t now rs) = [t]"
| "decode_joins _ = []"

fun ad_issues :: "audio_event \<Rightarrow> nat option" where
  "ad_issues (AeDecode b t now rs) = Some t"
| "ad_issues _ = None"

fun init_joins :: "audio_event \<Rightarrow> nat list" where
  "init_joins (AeInitialize config cdm a t) = [t]"
| "init_joins _ = []"

fun takes_well_formed :: "audio_event \<Rightarrow> bool" where
  "takes_well_formed (AeDecode b t now rs) = well_formed b"
| "takes_well_formed _ = True"

lemma initialize_lines:
  assumes "ad_ready_cb s = None"
  shows "decode_line (Audio_Initialize config cdm a t s) = decode_line s"
    "init_line (Audio_Initialize config cdm a t s) = init_line s @ [t]"
    "ad_alive (Audio_Initialize config cdm a t s) = ad_alive s"
  using assms decoded_all [of AsAborted "ad_queue s"] initialised_none [of AsAborted "ad_queue s"]
  by (simp_all add: Audio_Initialize_def Let_def ClearInputQueue_eq GetMimeType_def PrepareParameters_def Audio_SetCdm_def
      Audio_SetState_def ad_call_def line_defs init_line_def awaited_def split: option.split del: map_map)

lemma crypto_ready_lines:
  assumes "ad_ready_cb s = Some t"
    and u: "u = Audio_OnMediaCryptoReady t session a (s\<lparr>ad_ready_cb := None\<rparr>)"
  shows "decode_line u = decode_line s" "init_line u = init_line s" "ad_alive u = ad_alive s"
proof -
  let ?s = "s\<lparr>ad_ready_cb := None, ad_session := session\<rparr>"
  obtain ok v where i: "InitAudioDecoder a ?s = (ok, v)" by force
  have v: "keeps_lines ?s v" using lines_setup [of ?s a] i by simp
  have "decode_line u = decode_line s \<and> init_line u = init_line s \<and> ad_alive u = ad_alive s"
    using assms i v
    by (cases "session = None")
      (auto simp: Audio_OnMediaCryptoReady_def CreateOhosDecoderLoop_def Audio_SetState_def
        ad_call_def line_defs init_line_def awaited_def)
  then show "decode_line u = decode_line s" "init_line u = init_line s" "ad_alive u = ad_alive s" by simp_all
qed

lemma destroy_lines:
  "decode_line (Audio_Destroy s) = decode_line s" "queued (Audio_Destroy s) = []" "\<not> ad_alive (Audio_Destroy s)"
  using decoded_all [of AsAborted "ad_queue s"]
  by (simp_all add: Audio_Destroy_def Let_def ClearInputQueue_eq ad_call_def line_defs del: map_map)

lemma same_lines:
  assumes "keeps_lines s u"
  shows "decode_line u = decode_line s" "init_line u = init_line s" "ad_alive u = ad_alive s"
  using assms by (simp_all add: keeps_lines_def init_line_def awaited_def)

lemma ad_step_lines:
  assumes ok: "ad_ok s e" and e: "e \<noteq> AeDestroy"
  shows "ad_alive (ad_step s e)" "init_line (ad_step s e) = init_line s @ init_joins e"
    "takes_well_formed e \<Longrightarrow> decode_line (ad_step s e) = decode_line s @ decode_joins e"
    "\<not> takes_well_formed e \<Longrightarrow> decoded (ad_step s e) = decoded s @ decode_joins e \<and> queued (ad_step s e) = queued s"
proof -
  have alive: "ad_alive s" using ok by (simp add: ad_ok_def)
  have quiet: "ad_alive u \<and> init_line u = init_line s \<and> decode_line u = decode_line s" if "keeps_lines s u" for u
    using same_lines [OF that] alive by simp
  have same: "keeps_lines s u" if "ad_queue u = ad_queue s" "ad_log u = ad_log s" "ad_ready_cb u = ad_ready_cb s" "ad_alive u = ad_alive s" for u
    using that by (rule lines_same)
  have "ad_alive (ad_step s e) \<and> init_line (ad_step s e) = init_line s @ init_joins e \<and>
      (takes_well_formed e \<longrightarrow> decode_line (ad_step s e) = decode_line s @ decode_joins e) \<and>
      (\<not> takes_well_formed e \<longrightarrow> decoded (ad_step s e) = decoded s @ decode_joins e \<and> queued (ad_step s e) = queued s)"
  proof (cases e)
    case (AeInitialize config cdm a t)
    then show ?thesis using ok initialize_lines [of s config cdm a t] by (simp add: ad_ok_def)
  next
    case (AeCryptoReady session a)
    then obtain t where "ad_ready_cb s = Some t" using ok by (auto simp: ad_ok_def)
    with crypto_ready_lines [OF this refl] AeCryptoReady alive show ?thesis by simp
  next
    case (AeDecode b t now rs)
    show ?thesis
    proof (cases "well_formed b")
      case True
      with AeDecode decode_well_formed [OF True] alive show ?thesis by simp
    next
      case False
      with AeDecode alive show ?thesis
        by (simp add: decode_malformed) (simp add: ad_call_def line_defs init_line_def awaited_def)
    qed
  next
    case (AeKey additional now rs)
    then show ?thesis using quiet [OF lines_cdm_event] by simp
  next
    case (AeReset t code)
    then show ?thesis using quiet [OF lines_reset] by simp
  next
    case AeError
    then show ?thesis using quiet [OF lines_error] by simp
  next
    case (AeTick now rs)
    then show ?thesis using quiet [OF lines_pending] by simp
  next
    case AeLicence
    then show ?thesis using quiet [OF lines_licence] by simp
  next
    case AeFormat
    then show ?thesis using quiet [OF lines_call [of AcFormat s]] quiet [OF lines_refl]
      by (simp add: UpdateOutputFormat_def)
  next
    case (AeInput i)
    then show ?thesis using quiet [OF same, of "AddInputBuffer i s"] by (simp add: AddInputBuffer_def)
  next
    case (AeOutput out)
    then show ?thesis using quiet [OF same, of "AddOutputBuffer out s"] by (simp add: AddOutputBuffer_def)
  qed (use e in simp)
  then show "ad_alive (ad_step s e)" "init_line (ad_step s e) = init_line s @ init_joins e"
    "takes_well_formed e \<Longrightarrow> decode_line (ad_step s e) = decode_line s @ decode_joins e"
    "\<not> takes_well_formed e \<Longrightarrow> decoded (ad_step s e) = decoded s @ decode_joins e \<and> queued (ad_step s e) = queued s"
    by blast+
qed

text \<open>The destroyed decoder holds no request.\<close>

definition ad_inv :: "audio_decoder \<Rightarrow> bool" where
  "ad_inv s \<longleftrightarrow> \<not> ad_alive s \<longrightarrow> queued s = []"

lemma ad_inv_step: "ad_inv s \<Longrightarrow> ad_ok s e \<Longrightarrow> ad_inv (ad_step s e)"
  using ad_step_lines(1) [of s e] destroy_lines(2) [of s] by (cases "e = AeDestroy") (auto simp: ad_inv_def)

lemma decode_count_step:
  assumes ok: "ad_ok s e"
  shows "count_list (decode_line (ad_step s e)) t = count_list (decode_line s) t + (if ad_issues e = Some t then 1 else 0)"
proof (cases "e = AeDestroy")
  case True
  then show ?thesis by (simp add: destroy_lines)
next
  case False
  note lines = ad_step_lines(3,4) [OF ok False]
  show ?thesis
  proof (cases e)
    case (AeDecode b x now rs)
    with lines show ?thesis by (cases "well_formed b") (simp_all add: decode_line_def)
  qed (use lines False in simp_all)
qed

text \<open>Every request waits in the queue or has been answered, once.\<close>

interpretation ad_tickets: ticket_machine ad_step ad_ok ad_inv "\<lambda>s t. count_list (decode_line s) t" ad_issues
  by unfold_locales (simp_all add: ad_inv_step decode_count_step)

text \<open>Requests that the decoder can take are answered in the order they come.\<close>

definition ad_orderly :: "audio_decoder \<Rightarrow> audio_event \<Rightarrow> bool" where
  "ad_orderly s e \<longleftrightarrow> ad_ok s e \<and> takes_well_formed e"

interpretation ad_fifo: fifo_machine ad_step ad_orderly ad_inv decode_line decode_joins
proof unfold_locales
  fix s e assume "ad_inv s" "ad_orderly s e"
  then show "ad_inv (ad_step s e)" "decode_line (ad_step s e) = decode_line s @ decode_joins e"
    using ad_inv_step ad_step_lines(3) [of s e] destroy_lines(1) [of s]
    by (auto simp: ad_orderly_def) (cases "e = AeDestroy"; simp)
qed

text \<open>While it lives, a decoder answers its initialisations in the order they come.\<close>

definition ad_living :: "audio_decoder \<Rightarrow> audio_event \<Rightarrow> bool" where
  "ad_living s e \<longleftrightarrow> ad_ok s e \<and> e \<noteq> AeDestroy"

interpretation ad_inits: fifo_machine ad_step ad_living ad_alive init_line init_joins
  by unfold_locales (auto simp: ad_living_def ad_step_lines)

lemma run_living:
  "guarded_run ad_step ad_ok s es \<Longrightarrow> ad_alive (foldl ad_step s es) \<Longrightarrow> guarded_run ad_step ad_living s es"
proof (induction es arbitrary: s)
  case (Cons e es)
  have "e \<noteq> AeDestroy"
  proof
    assume "e = AeDestroy"
    with Cons.prems destroy_lines(3) [of s] show False by (cases es) (auto simp: ad_ok_def)
  qed
  with Cons show ?case by (simp add: ad_living_def)
qed simp

end
