(* ===== verification/Audio_Turns.thy ===== *)
theory Audio_Turns
  imports Audio_Decoder
begin

text \<open>
  What one call of \<open>DoPendingWork\<close> leaves behind: it stops only when nothing can be moved or
  the loop is in error, and without an error every output buffer it found went back to the
  codec, in order.
\<close>

section \<open>Output buffers go back to the codec\<close>

fun release_call :: "audio_call \<Rightarrow> int list" where
  "release_call (AcRelease i) = [i]"
| "release_call _ = []"

definition releases :: "audio_decoder \<Rightarrow> int list" where
  "releases s = concat (map release_call (ad_log s))"

text \<open>What has gone back, then what is still to go.\<close>

definition output_line :: "audio_decoder \<Rightarrow> int list" where
  "output_line s = releases s @ map ao_index (ad_outputs s)"

definition holds_outputs :: "audio_decoder \<Rightarrow> audio_decoder \<Rightarrow> bool" where
  "holds_outputs s u \<longleftrightarrow> ad_outputs u = ad_outputs s \<and> releases u = releases s \<and> ad_codec u = ad_codec s"

lemma holds_refl [simp]: "holds_outputs s s"
  by (simp add: holds_outputs_def)

lemma holds_trans: "holds_outputs s u \<Longrightarrow> holds_outputs u v \<Longrightarrow> holds_outputs s v"
  by (simp add: holds_outputs_def)

lemma releases_call [simp]: "releases (ad_call c s) = releases s @ release_call c"
  by (simp add: releases_def)

lemma releases_cong: "ad_log u = ad_log s \<Longrightarrow> releases u = releases s"
  by (simp add: releases_def)

lemma holds_same: "ad_outputs u = ad_outputs s \<Longrightarrow> ad_log u = ad_log s \<Longrightarrow> ad_codec u = ad_codec s \<Longrightarrow> holds_outputs s u"
  by (simp add: holds_outputs_def releases_def)

lemma released_none: "concat (map release_call (map (\<lambda>(_, cb). AcDecoded cb st) q)) = []"
  by (induction q) auto

lemma holds_loop_state: "holds_outputs s (Loop_SetState st s)"
  using released_none [of AsFailed "ad_queue s"]
  by (simp add: holds_outputs_def releases_def Loop_SetState_def Let_def OnCodecLoopError_def ClearInputQueue_eq
      Audio_SetState_def on_loop_def del: map_map)

lemma holds_data_queued: "holds_outputs s (OnInputDataQueued success s)"
  by (auto simp: holds_outputs_def OnInputDataQueued_def ad_call_def releases_def split: list.split)

lemma holds_queue_dec: "QueueInputBufferDec code index d s = (c, u) \<Longrightarrow> holds_outputs s u"
  by (auto simp: holds_outputs_def releases_def QueueInputBufferDec_def Let_def WaitingForLicence_def Audio_SetState_def ad_call_def
      split: if_splits)

lemma holds_enqueue:
  assumes "Loop_EnqueueInputBuffer r index s = (ret, u)"
  shows "holds_outputs s u"
proof (cases "ProvideInputData s")
  case (Some d)
  let ?s = "if in_eos d then Loop_SetState LsDraining s else s"
  obtain code v where q: "QueueInputBufferDec (ar_queue r) index d ?s = (code, v)" by force
  have "holds_outputs s ?s" by (simp add: holds_loop_state)
  note v = holds_trans [OF this holds_queue_dec [OF q]]
  note steps = holds_trans [OF v holds_data_queued] holds_trans [OF v holds_loop_state]
  from assms Some q show ?thesis
    using holds_trans [OF steps(1) holds_loop_state] steps
    by (auto simp: Loop_EnqueueInputBuffer_def Let_def split: audio_code.splits prod.splits)
qed (use assms in \<open>simp add: Loop_EnqueueInputBuffer_def\<close>)

lemma holds_input:
  assumes "ProcessOneInputBuffer r s = (did, u)"
  shows "holds_outputs s u"
proof -
  have free: "holds_outputs v (v\<lparr>ad_inputs := is\<rparr>)" for v "is" by (rule holds_same) simp_all
  show ?thesis
    using assms holds_trans [OF free holds_enqueue] holds_trans [OF holds_trans [OF free holds_enqueue] free] free
    by (auto simp: ProcessOneInputBuffer_def Let_def split: if_splits list.splits prod.splits)
qed

text \<open>An output turn gives the buffer back, or ends in an error.\<close>

lemma frame_released:
  assumes "OnDecodedFrame copied out s = (True, u)" and "ad_outputs s = out # os"
  shows "output_line u = output_line s" "ad_codec u = ad_codec s"
  using assms by (auto simp: OnDecodedFrame_def Let_def output_line_def ad_call_def releases_def split: if_splits)

lemma eos_released:
  assumes "OnDecodedEos out s = (True, u)" and "ad_outputs s = out # os"
  shows "releases u = releases s" "ad_outputs u = os" "ad_codec u = ad_codec s"
  using assms by (auto simp: OnDecodedEos_def ad_call_def releases_def split: list.splits if_splits)

lemma output_released:
  assumes run: "ProcessOneOutputBuffer r s = (did, u)" and codec: "ad_codec s \<noteq> None" and fine: "loop_state_of u \<noteq> LsError"
  shows "output_line u = output_line s \<and> ad_codec u = ad_codec s"
proof (cases "loop_state_of s = LsError \<or> ad_outputs s = []")
  case True
  with run show ?thesis by (auto simp: ProcessOneOutputBuffer_def split: if_splits)
next
  case False
  then obtain out os where o: "ad_outputs s = out # os" and l: "loop_state_of s \<noteq> LsError" "ad_loop s \<noteq> None"
    using loop_error_iff by (cases "ad_outputs s") auto
  show ?thesis
  proof (cases "ao_eos out")
    case True
    let ?d = "Loop_SetState LsDrained s"
    let ?s = "ReleaseOutputBufferDec (ao_index out) ?d"
    obtain ok v where e: "OnDecodedEos out ?s = (ok, v)" by force
    have d: "holds_outputs s ?d" by (rule holds_loop_state)
    have s: "ad_outputs ?s = out # os" "releases ?s = releases s @ [ao_index out]" "ad_codec ?s = ad_codec s" "ad_loop ?s \<noteq> None"
      using d o codec l Loop_SetState_queues(3) [of LsDrained s] by (auto simp: holds_outputs_def ReleaseOutputBufferDec_def)
    have u: "u = (if ok then v else Loop_SetState LsError v)"
      using run l o True e by (auto simp: ProcessOneOutputBuffer_def Let_def)
    have "ad_loop v \<noteq> None" using OnDecodedEos_turn(1) [OF e] s(4) by simp
    then have ok using fine u by (cases ok) auto
    with e u eos_released [of out ?s v os] s o show ?thesis by (auto simp: output_line_def)
  next
    case False
    obtain ok v where e: "OnDecodedFrame (ar_copied r) out s = (ok, v)" by force
    have u: "u = (if ok then v else Loop_SetState LsError v)"
      using run l o False e by (auto simp: ProcessOneOutputBuffer_def Let_def)
    have "ad_loop v \<noteq> None" using OnDecodedFrame_turn(2) [OF e] l(2) by simp
    then have ok using fine u by (cases ok) auto
    with e u frame_released [of "ar_copied r" out s v os] o show ?thesis by simp
  qed
qed

section \<open>The turns end settled\<close>

lemma error_turns:
  "loop_state_of s = LsError \<Longrightarrow> ProcessOneInputBuffer r s = (False, s)"
  "loop_state_of s = LsError \<Longrightarrow> ProcessOneOutputBuffer r s = (False, s)"
  by (simp_all add: ProcessOneInputBuffer_def ProcessOneOutputBuffer_def)

lemma error_stops: "loop_state_of s = LsError \<Longrightarrow> pending_turns rs did s = (did, s)"
  by (subst pending_turns.simps) (simp add: error_turns)

text \<open>Nothing can be moved, or the loop is in error.\<close>

definition settled :: "audio_decoder \<Rightarrow> bool" where
  "settled s \<longleftrightarrow> loop_state_of s = LsError \<or>
     ad_outputs s = [] \<and> (loop_state_of s \<noteq> LsReady \<or> \<not> IsAnyInputPending s \<or> ad_inputs s = [])"

lemma idle_input:
  assumes "ProcessOneInputBuffer r s = (False, u)" and "kInvalidBufferIndex \<notin> set (ad_inputs s)"
  shows "loop_state_of u = LsError \<or> u = s \<and> (loop_state_of s \<noteq> LsReady \<or> \<not> IsAnyInputPending s \<or> ad_inputs s = [])"
  using assms by (auto simp: ProcessOneInputBuffer_def Let_def split: if_splits list.splits prod.splits)

lemma idle_output:
  assumes "ProcessOneOutputBuffer r s = (False, u)"
  shows "u = s \<and> (loop_state_of s = LsError \<or> ad_outputs s = [])"
  using assms by (auto simp: ProcessOneOutputBuffer_def Let_def split: if_splits list.splits prod.splits)

lemma inputs_loop_state [simp]: "ad_inputs (Loop_SetState st s) = ad_inputs s"
  by (simp add: Loop_SetState_def Let_def OnCodecLoopError_def ClearInputQueue_eq Audio_SetState_def on_loop_def)

lemma inputs_enqueue:
  assumes "Loop_EnqueueInputBuffer r index s = (ret, u)"
  shows "ad_inputs u = ad_inputs s"
  using assms QueueInputBufferDec_frame(4)
  by (auto simp: Loop_EnqueueInputBuffer_def Let_def OnInputDataQueued_def split: option.splits prod.splits audio_code.splits list.splits if_splits)

lemma inputs_turn:
  "ProcessOneInputBuffer r s = (did, u) \<Longrightarrow> set (ad_inputs u) \<subseteq> set (ad_inputs s)"
  by (auto simp: ProcessOneInputBuffer_def Let_def dest!: inputs_enqueue split: if_splits list.splits prod.splits)

lemma inputs_output:
  "ProcessOneOutputBuffer r s = (did, u) \<Longrightarrow> ad_inputs u = ad_inputs s"
  by (auto simp: ProcessOneOutputBuffer_def Let_def OnDecodedEos_def OnDecodedFrame_def ReleaseOutputBufferDec_def
      split: if_splits list.splits prod.splits)

lemma turns_settle:
  assumes "kInvalidBufferIndex \<notin> set (ad_inputs s)" and "ad_codec s \<noteq> None"
  shows "settled (snd (pending_turns rs did s)) \<and>
    (loop_state_of (snd (pending_turns rs did s)) \<noteq> LsError \<longrightarrow> output_line (snd (pending_turns rs did s)) = output_line s)"
  using assms
proof (induction rs did s rule: pending_turns.induct)
  case (1 rs did s)
  obtain i v where i: "ProcessOneInputBuffer (audio_reply_of rs) s = (i, v)" by force
  obtain w u where w: "ProcessOneOutputBuffer (audio_reply_of rs) v = (w, u)" by force
  let ?fin = "snd (pending_turns rs did s)"
  have inputs: "kInvalidBufferIndex \<notin> set (ad_inputs u)" using 1(2) inputs_turn [OF i] inputs_output [OF w] by auto
  have v: "output_line v = output_line s" "ad_codec v \<noteq> None"
    using holds_input [OF i] 1(3) by (simp_all add: holds_outputs_def output_line_def)
  show ?case
  proof (cases "i \<or> w")
    case True
    then have e: "?fin = snd (pending_turns (tl rs) True u)" using i w by (subst pending_turns.simps) simp
    show ?thesis
    proof (cases "loop_state_of u = LsError")
      case True
      then show ?thesis unfolding e by (simp add: error_stops settled_def)
    next
      case False
      with output_released [OF w v(2)] v
      have u: "output_line u = output_line s" "ad_codec u \<noteq> None" by auto
      from "1.IH" [OF i [symmetric] refl w [symmetric] refl \<open>i \<or> w\<close> inputs u(2)] u(1)
      show ?thesis unfolding e by simp
    qed
  next
    case False
    then have e: "?fin = u" using i w by (subst pending_turns.simps) simp
    from False i w have idle: "ProcessOneInputBuffer (audio_reply_of rs) s = (False, v)" "ProcessOneOutputBuffer (audio_reply_of rs) v = (False, u)"
      by auto
    from idle_input [OF idle(1) 1(2)] idle_output [OF idle(2)] v show ?thesis unfolding e settled_def by auto
  qed
qed

lemma manage_settled:
  "settled (ManageTimer now did s) \<longleftrightarrow> settled s" "output_line (ManageTimer now did s) = output_line s"
  "loop_state_of (ManageTimer now did s) = loop_state_of s"
  by (auto simp: settled_def ManageTimer_def on_loop_def loop_state_of_def IsAnyInputPending_def output_line_def releases_def Let_def
      split: option.split)

lemma DoPendingWork_settles:
  assumes "kInvalidBufferIndex \<notin> set (ad_inputs s)" and "ad_codec s \<noteq> None"
  shows "settled (DoPendingWork now rs s)"
    "loop_state_of (DoPendingWork now rs s) \<noteq> LsError \<Longrightarrow> output_line (DoPendingWork now rs s) = output_line s"
proof -
  obtain did u where "pending_turns rs False s = (did, u)" by force
  with turns_settle [OF assms, of rs False]
  have "settled (DoPendingWork now rs s) \<and>
      (loop_state_of (DoPendingWork now rs s) \<noteq> LsError \<longrightarrow> output_line (DoPendingWork now rs s) = output_line s)"
    by (auto simp: DoPendingWork_def manage_settled settled_def [of s])
  then show "settled (DoPendingWork now rs s)"
    "loop_state_of (DoPendingWork now rs s) \<noteq> LsError \<Longrightarrow> output_line (DoPendingWork now rs s) = output_line s" by auto
qed

end
