(* ===== verification/Audio_Properties.thy ===== *)
theory Audio_Properties
  imports Audio_Machine Audio_Turns
begin

text \<open>
  The properties of the audio decoder: requests are answered once and in order, the loop stops
  only when nothing can be moved, and the cases in which a request is left waiting.
\<close>

section \<open>A failed loop\<close>

definition failed :: "audio_decoder \<Rightarrow> bool" where
  "failed s \<longleftrightarrow> ad_loop s \<noteq> None \<and> loop_state_of s = LsError"

text \<open>What happens without the client.\<close>

fun of_environment :: "audio_event \<Rightarrow> bool" where
  "of_environment (AeInitialize config cdm a t) = False"
| "of_environment (AeCryptoReady session a) = False"
| "of_environment (AeDecode b t now rs) = False"
| "of_environment (AeReset t code) = False"
| "of_environment AeDestroy = False"
| "of_environment _ = True"

definition ad_unasked :: "audio_decoder \<Rightarrow> audio_event \<Rightarrow> bool" where
  "ad_unasked s e \<longleftrightarrow> ad_ok s e \<and> of_environment e"

lemma failed_manage: "failed s \<Longrightarrow> failed (ManageTimer now did s) \<and> ad_queue (ManageTimer now did s) = ad_queue s"
  by (auto simp: failed_def ManageTimer_def on_loop_def loop_state_of_def Let_def)

lemma failed_pending: "failed s \<Longrightarrow> DoPendingWork now rs s = s"
  by (simp add: failed_def DoPendingWork_def)

lemma failed_key: "failed s \<Longrightarrow> failed (OnKeyAdded now rs s) \<and> ad_queue (OnKeyAdded now rs s) = ad_queue s"
  using failed_manage [of s now True] failed_pending [of "ManageTimer now True s" now rs]
  by (simp add: OnKeyAdded_def ExpectWork_def failed_def)

lemma failed_same:
  "ad_loop u = ad_loop s \<Longrightarrow> failed u \<longleftrightarrow> failed s"
  by (simp add: failed_def loop_state_of_def)

lemma failed_step:
  assumes f: "failed s" and e: "ad_unasked s e"
  shows "failed (ad_step s e) \<and> ad_queue (ad_step s e) = ad_queue s"
proof (cases e)
  case (AeKey additional now rs)
  let ?s = "(Audio_SetState AdReady (s\<lparr>ad_waiting_key := False\<rparr>))\<lparr>ad_timer := False\<rparr>"
  have s: "failed ?s" "ad_queue ?s = ad_queue s" using f failed_same [of ?s s] by (simp_all add: Audio_SetState_def)
  then show ?thesis
    using AeKey f failed_key [OF s(1), of now rs] by (simp add: Audio_OnCdmContextEvent_def Let_def failed_def)
next
  case AeLicence
  have "ad_loop (WaitingForLicence s) = ad_loop s" "ad_queue (WaitingForLicence s) = ad_queue s"
    by (simp_all add: WaitingForLicence_def Audio_SetState_def)
  with AeLicence f failed_same [of "WaitingForLicence s" s] show ?thesis by simp
next
  case AeError
  have "ad_loop (Audio_OnError s) = ad_loop s" "ad_queue (Audio_OnError s) = ad_queue s"
    by (simp_all add: Audio_OnError_def Audio_SetState_def)
  with AeError f failed_same [of "Audio_OnError s" s] show ?thesis by simp
qed (use f e in \<open>simp_all add: ad_unasked_def failed_pending AddInputBuffer_def AddOutputBuffer_def UpdateOutputFormat_def failed_def\<close>)

text \<open>Nothing but the client moves the requests of a failed loop.\<close>

interpretation failed_loop: fifo_machine ad_step ad_unasked failed ad_queue "\<lambda>_. []"
  by unfold_locales (simp_all add: failed_step)

section \<open>Runs\<close>

definition aac_config :: audio_config where
  "aac_config = \<lparr>au_codec = kAAC, au_encrypted = True, au_channels = 2, au_rate = 48000\<rparr>"

definition good_setup :: audio_setup where
  "good_setup = \<lparr>us_adapter = True, us_mime = AudOk, us_start = AudOk, us_format = AudOk\<rparr>"

definition sample_frame :: "int \<Rightarrow> audio_buffer" where
  "sample_frame t = \<lparr>ab_eos = False, ab_subsamples_match = True, ab_time = Some t, ab_size = 64, 
     ab_decrypt = Some \<lparr>dc_key_id = [1], dc_iv = [2], dc_scheme = kCenc, dc_pattern = None, dc_subsamples = [(16, 48)]\<rparr>\<rparr>"

definition queues :: "audio_code \<Rightarrow> audio_reply list" where
  "queues code = [\<lparr>ar_queue = code, ar_copied = True\<rparr>]"

definition opened :: "audio_event list" where
  "opened = [AeInitialize aac_config True good_setup 1, AeCryptoReady (Some 7) good_setup, AeKey True 1 [],
     AeInput 0, AeInput 1]"

definition plays :: "audio_event list" where
  "plays = opened @
    [AeDecode (sample_frame 0) 10 2 (queues AudOk), AeOutput \<lparr>ao_index = 5, ao_size = 400, ao_eos = False\<rparr>, AeTick 3 [],
     AeDecode (sample_frame 20) 11 4 (queues AudOk), AeDecode (sample_frame 40) 12 5 [], AeDestroy]"

definition played :: audio_decoder where
  "played = foldl ad_step OHOSAudioDecoder plays"

lemma plays_orderly: "guarded_run ad_step ad_orderly OHOSAudioDecoder plays" "guarded_run ad_step ad_ok OHOSAudioDecoder plays"
  by code_simp+

text \<open>A frame is due while two buffers are free.\<close>

definition with_output :: audio_decoder where
  "with_output = foldl ad_step OHOSAudioDecoder (take 7 plays)"

lemma with_output_reads:
  "ad_inputs with_output = [1]" "ad_codec with_output = Some True" "ad_outputs with_output \<noteq> []" "releases with_output = []"
  "map ao_index (ad_outputs with_output) = [5]" "loop_state_of (DoPendingWork 3 [] with_output) = LsReady"
  by code_simp+

text \<open>After a failed turn the decoder is told of another key, and is asked again.\<close>

definition stranding :: "audio_event list" where
  "stranding = opened @
    [AeDecode (sample_frame 0) 10 2 (queues AudError), AeKey True 3 [], AeDecode (sample_frame 20) 11 4 []]"

definition stranded :: audio_decoder where
  "stranded = foldl ad_step OHOSAudioDecoder stranding"

lemma stranded_reads:
  "guarded_run ad_step ad_ok OHOSAudioDecoder stranding" "failed stranded" "ad_state stranded = AdReady" "queued stranded = [11]"
  by code_simp+

text \<open>The licence does not come.\<close>

definition unlicensed :: "audio_event list" where
  "unlicensed = [AeInitialize aac_config True good_setup 1, AeCryptoReady (Some 7) good_setup, AeInput 0,
     AeDecode (sample_frame 0) 10 2 (queues AudError), AeLicence, AeLicence, AeLicence]"

definition denied :: audio_decoder where
  "denied = foldl ad_step OHOSAudioDecoder unlicensed"

lemma denied_reads:
  "guarded_run ad_step ad_ok OHOSAudioDecoder unlicensed" "ad_state denied = AdError" "queued denied = [10]"
  "\<not> ad_timer denied" "decoded denied = []"
  by code_simp+

text \<open>The decoder is initialised again, with the same codec and with one that it does not know.\<close>

definition restarts :: "audio_codec \<Rightarrow> audio_event list" where
  "restarts codec = take 2 opened @ [AeInitialize (aac_config\<lparr>au_codec := codec\<rparr>) True good_setup 2]"

definition restarted :: "audio_codec \<Rightarrow> audio_decoder" where
  "restarted codec = foldl ad_step OHOSAudioDecoder (restarts codec)"

lemma restarted_reads:
  "guarded_run ad_step ad_ok OHOSAudioDecoder (restarts kAAC @ [AeCryptoReady (Some 7) good_setup])"
  "ad_codec (ad_step (restarted kAAC) (AeCryptoReady (Some 7) good_setup)) = Some False"
  "guarded_run ad_step ad_ok OHOSAudioDecoder (restarts kOtherAudio)"
  "ad_ready_cb (restarted kOtherAudio) = Some 2" "ad_mime (restarted kOtherAudio) = ''audio/mp4a-latm''"
  by code_simp+

section \<open>Requests\<close>

text \<open>C3: The audio decoder answers every request once. In every run a decode request waits in the queue
  or has been answered, once; requests for buffers with a time and matching subsamples are
  answered in the order they were made; initialisations are answered in their order while the
  decoder lives, the last of them when the key system is ready; and a destroyed decoder has
  answered every decode request.\<close>

theorem audio_requests_are_served_in_order:
  assumes "guarded_run ad_step ad_ok OHOSAudioDecoder es"
  defines "s \<equiv> foldl ad_step OHOSAudioDecoder es"
  shows "count_list (decoded s @ queued s) t = length (filter (\<lambda>e. ad_issues e = Some t) es) \<and>
    (list_all takes_well_formed es \<longrightarrow> decoded s @ queued s = concat (map decode_joins es)) \<and>
    (ad_alive s \<longrightarrow> initialised s @ awaited s = concat (map init_joins es)) \<and>
    (\<not> ad_alive s \<longrightarrow> queued s = [])"
proof -
  have start: "ad_inv OHOSAudioDecoder" "ad_alive OHOSAudioDecoder" "decode_line OHOSAudioDecoder = []" "init_line OHOSAudioDecoder = []"
    by (simp_all add: ad_inv_def OHOSAudioDecoder_def line_defs init_line_def awaited_def)
  have "guarded_run ad_step ad_orderly u es" if "guarded_run ad_step ad_ok u es" "list_all takes_well_formed es" for u
    using that by (induction es arbitrary: u) (auto simp: ad_orderly_def)
  note fifo = ad_fifo.line_run [OF start(1) this [OF assms(1)]]
  note inits = ad_inits.line_run [OF start(2) run_living [OF assms(1)]]
  have "ad_inv s" unfolding s_def by (rule ad_tickets.inv_run [OF start(1) assms(1)])
  with ad_tickets.held_run [OF start(1) assms(1), of t] fifo inits start(3,4) show ?thesis
    by (simp add: s_def decode_line_def init_line_def ad_inv_def)
qed

lemma audio_requests_are_served_in_order_witness: "decoded played = [10, 11, 12] \<and> queued played = []"
proof -
  have "list_all takes_well_formed plays" "\<not> ad_alive played" "concat (map decode_joins plays) = [10, 11, 12]" by code_simp+
  with audio_requests_are_served_in_order [OF plays_orderly(2), folded played_def, of 10] show ?thesis by auto
qed

section \<open>The loop\<close>

text \<open>C15: \<open>DoPendingWork\<close> ends, and leaves nothing undone. Whatever the codec answers in each turn,
  afterwards the loop is in error, or no output buffer is left and no request that could be
  queued meets a free input buffer; and without an error every output buffer that was there has
  gone back to the codec, in order and after those before it.\<close>

theorem pending_work_is_done:
  assumes "kInvalidBufferIndex \<notin> set (ad_inputs s)" and "ad_codec s \<noteq> None"
  shows "settled (DoPendingWork now rs s) \<and>
    (loop_state_of (DoPendingWork now rs s) \<noteq> LsError \<longrightarrow>
       releases (DoPendingWork now rs s) = releases s @ map ao_index (ad_outputs s))"
  using DoPendingWork_settles [OF assms, of now rs] by (auto simp: settled_def output_line_def)

lemma pending_work_is_done_witness: "releases (DoPendingWork 3 [] with_output) = [5]"
  using pending_work_is_done [of with_output 3 "[]"] with_output_reads by (simp add: kInvalidBufferIndex_def)

section \<open>Requests that are not answered\<close>

text \<open>C35: A request can be left waiting. When the loop has failed, a further key makes the decoder
  ready again, and the requests it then takes wait, whatever the codec, the key system and the
  timers do from then on. When the licence does not come, the decoder is in error after the third
  time its timer fires, and the request it could not queue is not answered. Initialised
  again, it starts an adapter for which no codec was created, or accepts a codec that it does
  not know as the last one it knew; and a reset without an adapter never runs its closure.\<close>

theorem audio_requests_can_be_stranded:
  assumes "guarded_run ad_step ad_unasked stranded es"
  shows "stranded = foldl ad_step OHOSAudioDecoder stranding \<and> guarded_run ad_step ad_ok OHOSAudioDecoder stranding \<and>
    ad_state stranded = AdReady \<and> queued (foldl ad_step stranded es) = [11] \<and>
    guarded_run ad_step ad_ok OHOSAudioDecoder unlicensed \<and>
    ad_state (foldl ad_step OHOSAudioDecoder unlicensed) = AdError \<and> queued (foldl ad_step OHOSAudioDecoder unlicensed) = [10] \<and>
    \<not> ad_timer (foldl ad_step OHOSAudioDecoder unlicensed) \<and>
    ad_codec (ad_step (restarted kAAC) (AeCryptoReady (Some 7) good_setup)) = Some False \<and>
    ad_mime (restarted kOtherAudio) = ''audio/mp4a-latm'' \<and> ad_ready_cb (restarted kOtherAudio) = Some 2 \<and>
    ad_log (ad_step OHOSAudioDecoder (AeReset 9 AudOk)) = []"
proof -
  have "queued (foldl ad_step stranded es) = queued stranded"
    using failed_loop.line_run [OF stranded_reads(2) assms] by (simp add: queued_def)
  moreover have "ad_log (ad_step OHOSAudioDecoder (AeReset 9 AudOk)) = []"
    by (simp add: Audio_Reset_def OHOSAudioDecoder_def)
  ultimately show ?thesis
    using stranded_reads denied_reads restarted_reads by (simp add: denied_def stranded_def [symmetric])
qed

lemma audio_requests_can_be_stranded_witness:
  "queued (foldl ad_step stranded [AeInput 2, AeTick 5 (queues AudOk), AeKey True 6 (queues AudOk), AeError]) = [11]"
proof -
  have "guarded_run ad_step ad_unasked stranded [AeInput 2, AeTick 5 (queues AudOk), AeKey True 6 (queues AudOk), AeError]"
    by code_simp
  from audio_requests_can_be_stranded [OF this] show ?thesis by simp
qed

end
