(* ===== verification/Decoder_Bridge.thy ===== *)
theory Decoder_Bridge
  imports Codec_Wrapper Audio_Decoder
begin

text \<open>
  \<open>ohos_media_decoder_bridge_impl.cc\<close>: the bridge between the codec wrapper and the video codec
  of the system. The codec offers its buffers on threads of its own; each offer is posted to the
  decoder's sequence, where it joins a queue, unless the bridge is flushing. The codec
  (\<open>MediaCodecDecoderAdapter\<close>) is the environment: its answers are arguments, the calls it gets
  are in the log, with what it offers and what the bridge hands out.
\<close>

section \<open>State\<close>

datatype buffer_flag = CODEC_BUFFER_FLAG_NONE | CODEC_BUFFER_FLAG_EOS | CODEC_BUFFER_FLAG_SYNC_FRAME | CODEC_BUFFER_FLAG_OTHER

text \<open>An offered input buffer: its index, its size, and whether it is mapped.\<close>

record bridge_input =
  bi_index :: int
  bi_size :: int
  bi_mapped :: bool

record bridge_output =
  bo_index :: int
  bo_flag :: buffer_flag
  bo_time :: int

record decoder_format =
  df_width :: int
  df_height :: int
  df_rate :: int

text \<open>Tasks of the decoder's sequence.\<close>

datatype bridge_task =
    TkUpdateFlushToFalse
  | TkNeedInput "bridge_input option"
  | TkNeedOutput "bridge_output option"
  | TkError

text \<open>
  \<open>BkOfferInput\<close>, \<open>BkOfferOutput\<close>: the codec offers a buffer. \<open>BkTake\<close>: the bridge hands out an output
  buffer. The others are calls to the codec; the code is its answer.
\<close>

datatype 'w bridge_call =
    BkOfferInput int
  | BkOfferOutput int
  | BkTake int
  | BkAvailable
  | BkCreate string
  | BkSetCallback
  | BkConfigure decoder_format
  | BkParameter decoder_format
  | BkSurface "'w option"
  | BkPrepare
  | BkStart
  | BkStop decoder_code
  | BkFlush decoder_code
  | BkReset decoder_code
  | BkRelease
  | BkCenc int cenc_info
  | BkQueue int int int buffer_flag decoder_code
  | BkReleaseOutput int bool
  | BkDecryption bool

record bridge_signal =
  bs_inputs :: "bridge_input list"
  bs_outputs :: "bridge_output list"
  bs_flushing :: bool
  bs_error :: bool

record 'w bridge =
  br_decoder :: bool
  br_created :: bool
  br_running :: bool
  br_signal :: "bridge_signal option"
  br_notifies :: bool
  br_size :: "int \<times> int"
  br_window :: "'w option"
  br_video_surface :: int
  br_tasks :: "bridge_task list"
  br_log :: "'w bridge_call list"

definition br_call :: "'w bridge_call \<Rightarrow> 'w bridge \<Rightarrow> 'w bridge" where
  "br_call c b = b\<lparr>br_log := br_log b @ [c]\<rparr>"

definition on_signal :: "(bridge_signal \<Rightarrow> bridge_signal) \<Rightarrow> 'w bridge \<Rightarrow> 'w bridge" where
  "on_signal f b = b\<lparr>br_signal := map_option f (br_signal b)\<rparr>"

definition clear_queues :: "'w bridge \<Rightarrow> 'w bridge" where
  "clear_queues = on_signal (\<lambda>g. g\<lparr>bs_inputs := [], bs_outputs := []\<rparr>)"

section \<open>Creation\<close>

definition new_bridge :: "'w bridge" where
  "new_bridge =
     \<lparr>br_decoder = False, br_created = False, br_running = False, br_signal = None, br_notifies = False, br_size = (0, 0),
      br_window = None, br_video_surface = - 1, br_tasks = [], br_log = []\<rparr>"

definition PrepareForCallback :: "decoder_code \<Rightarrow> 'w bridge \<Rightarrow> decoder_code \<times> 'w bridge" where
  "PrepareForCallback code b =
     (let b = (if br_signal b = None
               then b\<lparr>br_signal := Some \<lparr>bs_inputs = [], bs_outputs = [], bs_flushing = False, bs_error = False\<rparr>\<rparr>
               else b)
      in (code, br_call BkSetCallback b))"

definition CreateVideoBridgeDecoderByMime ::
  "string \<Rightarrow> decoder_code \<Rightarrow> decoder_code \<Rightarrow> 'w bridge \<Rightarrow> decoder_code \<times> 'w bridge" where
  "CreateVideoBridgeDecoderByMime mime code callback b =
     (if \<not> br_decoder b then (DECODER_ERROR, b)
      else
        let b = br_call (BkCreate mime) b
        in if code = DECODER_ERROR then (code, b)
           else PrepareForCallback callback (b\<lparr>br_created := True\<rparr>))"

definition CreateVideoBridgeDecoderByName ::
  "string \<Rightarrow> decoder_code \<Rightarrow> decoder_code \<Rightarrow> 'w bridge \<Rightarrow> decoder_code \<times> 'w bridge" where
  "CreateVideoBridgeDecoderByName name code callback b =
     (if \<not> br_decoder b then (DECODER_ERROR, b)
      else
        let b = br_call (BkCreate name) b
        in if code = DECODER_ERROR then (code, b)
           else PrepareForCallback callback (b\<lparr>br_created := True\<rparr>))"

text \<open>\<open>available\<close>: is there a callback for available buffers? \<open>adapter\<close>: did the system make an adapter?\<close>

definition MediaCodecDecoderBridgeImpl ::
  "string \<Rightarrow> bool \<Rightarrow> bool \<Rightarrow> decoder_code \<Rightarrow> decoder_code \<Rightarrow> 'w bridge" where
  "MediaCodecDecoderBridgeImpl codec_type available adapter code callback =
     (if \<not> available then new_bridge
      else
        let (ret, b) = CreateVideoBridgeDecoderByMime codec_type code callback (new_bridge\<lparr>br_decoder := adapter\<rparr>)
        in if ret = DECODER_ERROR then b else b\<lparr>br_notifies := True\<rparr>)"

text \<open>The codecs of a configuration.\<close>

datatype bridge_codec = kVideoH264 | kVideoHEVC | kVideoOther

definition CreateVideoDecoder ::
  "string \<Rightarrow> bridge_codec \<Rightarrow> bool \<Rightarrow> bool \<Rightarrow> decoder_code \<Rightarrow> decoder_code \<Rightarrow> 'w bridge option" where
  "CreateVideoDecoder product_model codec available adapter code callback =
     (if product_model = ''emulator'' then None
      else case codec of
        kVideoH264 \<Rightarrow> Some (MediaCodecDecoderBridgeImpl ''video/avc'' available adapter code callback)
      | kVideoHEVC \<Rightarrow> Some (MediaCodecDecoderBridgeImpl ''video/hevc'' available adapter code callback)
      | kVideoOther \<Rightarrow> None)"

definition CheckHasCreated :: "'w bridge \<Rightarrow> bool" where
  "CheckHasCreated b \<longleftrightarrow> br_created b"

section \<open>Configuration\<close>

text \<open>
  A bridge whose codec could not be created has no callback object, and \<open>ConfigureBridgeDecoder\<close> would
  follow a null pointer: the allocator hands out only bridges that pass \<open>CheckHasCreated\<close>.
\<close>

definition ConfigureBridgeDecoder :: "decoder_format \<Rightarrow> decoder_code \<Rightarrow> 'w bridge \<Rightarrow> decoder_code \<times> 'w bridge" where
  "ConfigureBridgeDecoder format code b =
     (let b = b\<lparr>br_size := (df_width format, df_height format)\<rparr>
      in if \<not> br_decoder b then (DECODER_ERROR, b) else (code, br_call (BkConfigure format) b))"

definition SetBridgeParameterDecoder :: "decoder_format \<Rightarrow> decoder_code \<Rightarrow> 'w bridge \<Rightarrow> decoder_code \<times> 'w bridge" where
  "SetBridgeParameterDecoder format code b =
     (if \<not> br_decoder b then (DECODER_ERROR, b) else (code, br_call (BkParameter format) b))"

definition SetBridgeOutputSurface :: "'w option \<Rightarrow> decoder_code \<Rightarrow> 'w bridge \<Rightarrow> decoder_code \<times> 'w bridge" where
  "SetBridgeOutputSurface window code b =
     (if \<not> br_decoder b \<or> window = None then (DECODER_ERROR, b)
      else (code, br_call (BkSurface window) (b\<lparr>br_window := window\<rparr>)))"

text \<open>The format comes back also with an error.\<close>

definition GetOutputFormatBridgeDecoder :: "decoder_format \<Rightarrow> decoder_code \<Rightarrow> 'w bridge \<Rightarrow> decoder_code \<times> decoder_format option" where
  "GetOutputFormatBridgeDecoder answer code b =
     (if \<not> br_decoder b then (DECODER_ERROR, None) else (code, Some answer))"

definition PrepareBridgeDecoder :: "decoder_code \<Rightarrow> 'w bridge \<Rightarrow> decoder_code \<times> 'w bridge" where
  "PrepareBridgeDecoder code b = (if \<not> br_decoder b then (DECODER_ERROR, b) else (code, br_call BkPrepare b))"

definition StartBridgeDecoder :: "decoder_code \<Rightarrow> 'w bridge \<Rightarrow> decoder_code \<times> 'w bridge" where
  "StartBridgeDecoder code b =
     (let b = b\<lparr>br_running := True\<rparr>
      in if \<not> br_decoder b then (DECODER_ERROR, b) else (code, br_call BkStart b))"

definition StopBridgeDecoder :: "decoder_code \<Rightarrow> 'w bridge \<Rightarrow> decoder_code \<times> 'w bridge" where
  "StopBridgeDecoder code b =
     (if \<not> br_decoder b then (DECODER_ERROR, b) else (code, br_call (BkStop code) (b\<lparr>br_running := False\<rparr>)))"

definition ReleaseBridgeDecoder :: "decoder_code \<Rightarrow> 'w bridge \<Rightarrow> decoder_code \<times> 'w bridge" where
  "ReleaseBridgeDecoder code b =
     (if \<not> br_decoder b then (DECODER_ERROR, b) else (code, br_call BkRelease (b\<lparr>br_running := False\<rparr>)))"

definition Bridge_SetVideoSurface ::
  "int \<Rightarrow> 'w option \<Rightarrow> decoder_code \<Rightarrow> 'w bridge \<Rightarrow> decoder_code \<times> 'w bridge" where
  "Bridge_SetVideoSurface widget_id tracked code b =
     (if br_video_surface b = widget_id then (DECODER_OK, b)
      else if \<not> br_decoder b then (DECODER_ERROR, b)
      else if widget_id < 0
      then (if br_window b \<noteq> None then (code, br_call (BkSurface (br_window b)) b) else (DECODER_ERROR, b))
      else (code, br_call (BkSurface tracked) (b\<lparr>br_video_surface := widget_id\<rparr>)))"

text \<open>\<open>known\<close>: does the system know the call?\<close>

definition Bridge_SetDecryptionConfig :: "bool \<Rightarrow> decoder_code \<Rightarrow> bool \<Rightarrow> 'w bridge \<Rightarrow> decoder_code \<times> 'w bridge" where
  "Bridge_SetDecryptionConfig secure code known b =
     (if \<not> br_decoder b then (DECODER_ERROR, b)
      else (if known then code else DECODER_ERROR, br_call (BkDecryption secure) b))"

section \<open>Flush, reset and the fence\<close>

text \<open>
  While \<open>isDecoderFlushing_\<close> is set, offers are dropped. It is cleared by a task that is posted
  after the codec was flushed and before it is started again, so behind every offer that the
  flush has voided.
\<close>

definition UpdateFlushToFalse :: "'w bridge \<Rightarrow> 'w bridge" where
  "UpdateFlushToFalse = on_signal (\<lambda>g. g\<lparr>bs_flushing := False\<rparr>)"

definition FlushBridgeDecoder :: "decoder_code \<Rightarrow> decoder_code \<Rightarrow> 'w bridge \<Rightarrow> decoder_code \<times> 'w bridge" where
  "FlushBridgeDecoder code started b =
     (if \<not> br_decoder b \<or> br_signal b = None then (DECODER_ERROR, b)
      else
        let b = br_call (BkFlush code) (on_signal (\<lambda>g. g\<lparr>bs_flushing := True\<rparr>) b)
        in if code \<noteq> DECODER_OK then (code, b)
           else
             let b = clear_queues b
             in StartBridgeDecoder started (b\<lparr>br_tasks := br_tasks b @ [TkUpdateFlushToFalse]\<rparr>))"

definition ResetBridgeDecoder :: "decoder_code \<Rightarrow> 'w bridge \<Rightarrow> decoder_code \<times> 'w bridge" where
  "ResetBridgeDecoder code b =
     (if \<not> br_decoder b \<or> br_signal b = None then (DECODER_ERROR, b)
      else
        let b = br_call (BkReset code) (on_signal (\<lambda>g. g\<lparr>bs_flushing := True\<rparr>) (b\<lparr>br_running := False\<rparr>))
        in if code \<noteq> DECODER_OK then (code, b)
           else
             let b = clear_queues b
             in (code, b\<lparr>br_tasks := br_tasks b @ [TkUpdateFlushToFalse]\<rparr>))"

definition Bridge_RecycleDmaBuffer :: "decoder_code \<Rightarrow> 'w bridge \<Rightarrow> decoder_code \<times> 'w bridge" where
  "Bridge_RecycleDmaBuffer code b =
     (if \<not> br_decoder b \<or> br_signal b = None then (DECODER_ERROR, b)
      else
        let (ret, b) = StopBridgeDecoder code b
        in if ret \<noteq> DECODER_OK then (DECODER_ERROR, b) else (ret, clear_queues b))"

definition Bridge_ResumeDmaBuffer :: "decoder_code \<Rightarrow> 'w bridge \<Rightarrow> decoder_code \<times> 'w bridge" where
  "Bridge_ResumeDmaBuffer code b =
     (let (ret, b) = StartBridgeDecoder code b in (if ret \<noteq> DECODER_OK then DECODER_ERROR else ret, b))"

section \<open>Input\<close>

definition PopInqueueDec :: "'w bridge \<Rightarrow> 'w bridge" where
  "PopInqueueDec b =
     (case br_signal b of
        None \<Rightarrow> b
      | Some g \<Rightarrow> if bs_error g \<or> bs_inputs g = [] then b else on_signal (\<lambda>g. g\<lparr>bs_inputs := tl (bs_inputs g)\<rparr>) b)"

definition PushInbufferDec ::
  "int \<Rightarrow> int \<Rightarrow> int \<Rightarrow> bool \<Rightarrow> decoder_code \<Rightarrow> 'w bridge \<Rightarrow> decoder_code \<times> 'w bridge" where
  "PushInbufferDec index input_size time is_key_frame code b =
     (code, br_call (BkQueue index time input_size (if is_key_frame then CODEC_BUFFER_FLAG_SYNC_FRAME else CODEC_BUFFER_FLAG_NONE) code) b)"

definition PushInbufferDecEos :: "int \<Rightarrow> decoder_code \<Rightarrow> 'w bridge \<Rightarrow> decoder_code \<times> 'w bridge" where
  "PushInbufferDecEos index code b = (code, br_call (BkQueue index 0 0 CODEC_BUFFER_FLAG_EOS code) b)"

definition SetAVCencInfo ::
  "int \<Rightarrow> decrypt_config option \<Rightarrow> decoder_code \<Rightarrow> bool \<Rightarrow> 'w bridge \<Rightarrow> decoder_code \<times> 'w bridge" where
  "SetAVCencInfo index config code known b =
     (if \<not> br_decoder b then (DECODER_ERROR, b)
      else case config of
        None \<Rightarrow> (DECODER_ERROR, b)
      | Some c \<Rightarrow> (if known then code else DECODER_ERROR, br_call (BkCenc index (cenc_info_of c)) b))"

text \<open>
  The data of a frame: is there any, its size, time, decryption and whether it is a key frame.
\<close>

record frame_data =
  fd_data :: bool
  fd_size :: int
  fd_time :: int
  fd_decrypt :: "decrypt_config option"
  fd_key :: bool

record input_answers =
  ia_copied :: bool
  ia_cenc :: decoder_code
  ia_known :: bool
  ia_queue :: decoder_code

text \<open>A frame that is larger than the buffer is cut to its size.\<close>

definition Bridge_QueueInputBuffer ::
  "frame_data \<Rightarrow> input_answers \<Rightarrow> 'w bridge \<Rightarrow> decoder_code \<times> 'w bridge" where
  "Bridge_QueueInputBuffer d a b =
     (if \<not> fd_data d \<or> fd_size d = 0 then (DECODER_ERROR, b)
      else case br_signal b of
        None \<Rightarrow> (DECODER_ERROR, b)
      | Some g \<Rightarrow>
          if bs_error g then (DECODER_ERROR, b)
          else if bs_flushing g \<or> bs_inputs g = [] then (DECODER_RETRY, b)
          else if \<not> br_running b then (DECODER_RETRY, b)
          else if \<not> br_decoder b then (DECODER_ERROR, b)
          else
            let buffer = hd (bs_inputs g);
                input_size = (if bi_size buffer \<ge> fd_size d then fd_size d else bi_size buffer)
            in if \<not> bi_mapped buffer then (DECODER_ERROR, b)
               else if \<not> ia_copied a then (DECODER_ERROR, b)
               else
                 let (cenc, b) = (if fd_decrypt d \<noteq> None
                                  then SetAVCencInfo (bi_index buffer) (fd_decrypt d) (ia_cenc a) (ia_known a) b
                                  else (DECODER_OK, b))
                 in if cenc = DECODER_ERROR then (DECODER_ERROR, b)
                    else
                      let (ret, b) = PushInbufferDec (bi_index buffer) input_size (fd_time d) (fd_key d) (ia_queue a) b
                      in (ret, PopInqueueDec b))"

definition QueueInputBufferEOS :: "decoder_code \<Rightarrow> 'w bridge \<Rightarrow> decoder_code \<times> 'w bridge" where
  "QueueInputBufferEOS code b =
     (case br_signal b of
        None \<Rightarrow> (DECODER_ERROR, b)
      | Some g \<Rightarrow>
          if bs_error g then (DECODER_ERROR, b)
          else if bs_flushing g \<or> bs_inputs g = [] \<or> \<not> br_running b then (DECODER_RETRY, b)
          else if \<not> br_decoder b then (DECODER_ERROR, b)
          else
            let (ret, b) = PushInbufferDecEos (bi_index (hd (bs_inputs g))) code b
            in (ret, (PopInqueueDec b)\<lparr>br_running := False\<rparr>))"

section \<open>Output\<close>

definition ReleaseOutputBuffer :: "int \<Rightarrow> bool \<Rightarrow> decoder_code \<Rightarrow> 'w bridge \<Rightarrow> decoder_code \<times> 'w bridge" where
  "ReleaseOutputBuffer index render code b =
     (if \<not> br_decoder b then (DECODER_ERROR, b) else (code, br_call (BkReleaseOutput index render) b))"

definition PopOutqueueDec :: "'w bridge \<Rightarrow> 'w bridge" where
  "PopOutqueueDec = on_signal (\<lambda>g. g\<lparr>bs_outputs := tl (bs_outputs g)\<rparr>)"

text \<open>The result: the code, and the buffer with its index, end of the stream and time.\<close>

definition Bridge_DequeueOutputBuffer :: "'w bridge \<Rightarrow> decoder_code \<times> (int \<times> bool \<times> int) option \<times> 'w bridge" where
  "Bridge_DequeueOutputBuffer b =
     (case br_signal b of
        None \<Rightarrow> (DECODER_ERROR, None, b)
      | Some g \<Rightarrow>
          if bs_error g then (DECODER_ERROR, None, b)
          else if bs_flushing g \<or> bs_outputs g = [] then (DECODER_RETRY, None, b)
          else if \<not> br_decoder b then (DECODER_ERROR, None, b)
          else
            let out = hd (bs_outputs g)
            in (DECODER_OK, Some (bo_index out, bo_flag out = CODEC_BUFFER_FLAG_EOS, bo_time out),
                PopOutqueueDec (br_call (BkTake (bo_index out)) b)))"

section \<open>What the codec offers\<close>

text \<open>On a thread of the codec the callbacks post themselves; below is what they do as tasks.\<close>

definition Bridge_OnError :: "'w bridge \<Rightarrow> 'w bridge" where
  "Bridge_OnError b = clear_queues (on_signal (\<lambda>g. g\<lparr>bs_error := True\<rparr>) b)"

definition OnNeedInputData :: "bridge_input option \<Rightarrow> 'w bridge \<Rightarrow> 'w bridge" where
  "OnNeedInputData buffer b =
     (case br_signal b of
        None \<Rightarrow> b
      | Some g \<Rightarrow>
          if bs_flushing g then b
          else case buffer of
            None \<Rightarrow> b
          | Some x \<Rightarrow> br_call BkAvailable (on_signal (\<lambda>g. g\<lparr>bs_inputs := bs_inputs g @ [x]\<rparr>) b))"

definition OnNeedOutputData :: "bridge_output option \<Rightarrow> 'w bridge \<Rightarrow> 'w bridge" where
  "OnNeedOutputData info b =
     (case info of
        None \<Rightarrow> b
      | Some x \<Rightarrow>
          (case br_signal b of
             None \<Rightarrow> b
           | Some g \<Rightarrow>
               if bs_flushing g then b
               else br_call BkAvailable (on_signal (\<lambda>g. g\<lparr>bs_outputs := bs_outputs g @ [x]\<rparr>) b)))"

end
