(* ===== verification/Bridge_Machine.thy ===== *)
theory Bridge_Machine
  imports Decoder_Bridge
begin

text \<open>
  The bridge between its client, the codec's threads and the tasks of the decoder's sequence.
  The ledger says which buffers the codec has offered and not got back or voided; the fence
  of a flush keeps the bridge within it.
\<close>

section \<open>The buffers the codec has offered\<close>

text \<open>Input and output buffers. A flush, a reset or a stop of the codec voids all of them.\<close>

fun lends :: "'w bridge_call \<Rightarrow> int set \<times> int set \<Rightarrow> (int set \<times> int set) option" where
  "lends (BkOfferInput i) (ins, outs) = (if i \<in> ins then None else Some (insert i ins, outs))"
| "lends (BkOfferOutput i) (ins, outs) = (if i \<in> outs then None else Some (ins, insert i outs))"
| "lends (BkTake i) (ins, outs) = (if i \<in> outs then Some (ins, outs) else None)"
| "lends (BkQueue i time len flag code) (ins, outs) =
     (if i \<in> ins then Some (if code = DECODER_OK then ins - {i} else ins, outs) else None)"
| "lends (BkReleaseOutput i render) (ins, outs) = (if i \<in> outs then Some (ins, outs - {i}) else None)"
| "lends (BkFlush code) (ins, outs) = Some (if code = DECODER_OK then ({}, {}) else (ins, outs))"
| "lends (BkReset code) (ins, outs) = Some (if code = DECODER_OK then ({}, {}) else (ins, outs))"
| "lends (BkStop code) (ins, outs) = Some (if code = DECODER_OK then ({}, {}) else (ins, outs))"
| "lends _ (ins, outs) = Some (ins, outs)"

definition lent :: "'w bridge \<Rightarrow> (int set \<times> int set) option" where
  "lent b = replay lends (br_log b) ({}, {})"

lemma lent_call [simp]: "lent (br_call c b) = (case lent b of None \<Rightarrow> None | Some l \<Rightarrow> lends c l)"
  by (simp add: lent_def br_call_def split: option.split)

text \<open>Has input been queued since the last flush?\<close>

fun readies :: "bool \<Rightarrow> 'w bridge_call \<Rightarrow> bool" where
  "readies ready (BkFlush code) = False"
| "readies ready (BkReset code) = False"
| "readies ready (BkQueue i time len flag code) = True"
| "readies ready _ = ready"

definition flush_ready :: "'w bridge \<Rightarrow> bool" where
  "flush_ready b = foldl readies True (br_log b)"

lemma ready_call [simp]: "flush_ready (br_call c b) = readies (flush_ready b) c"
  by (simp add: flush_ready_def br_call_def)

section \<open>What the tasks will bring\<close>

fun offered_input :: "bridge_task \<Rightarrow> int list" where
  "offered_input (TkNeedInput (Some x)) = [bi_index x]"
| "offered_input _ = []"

fun offered_output :: "bridge_task \<Rightarrow> int list" where
  "offered_output (TkNeedOutput (Some x)) = [bo_index x]"
| "offered_output _ = []"

text \<open>The offers that will be accepted: none before the end of the flush.\<close>

fun coming :: "(bridge_task \<Rightarrow> int list) \<Rightarrow> bool \<Rightarrow> bridge_task list \<Rightarrow> int list" where
  "coming pick flushing [] = []"
| "coming pick flushing (t # ts) = (if flushing then [] else pick t) @ coming pick (flushing \<and> TkUpdateFlushToFalse \<noteq> t) ts"

lemma coming_append [simp]:
  "coming pick f (ts @ us) = coming pick f ts @ coming pick (f \<and> TkUpdateFlushToFalse \<notin> set ts) us"
  by (induction ts arbitrary: f) auto

lemma coming_fenced: "TkUpdateFlushToFalse \<notin> set ts \<Longrightarrow> coming pick True ts = []"
  by (induction ts) auto

definition within :: "int list \<Rightarrow> int set \<Rightarrow> bool" where
  "within xs A \<longleftrightarrow> distinct xs \<and> set xs \<subseteq> A"

definition arriving_inputs :: "bridge_signal \<Rightarrow> bridge_task list \<Rightarrow> int list" where
  "arriving_inputs g ts = map bi_index (bs_inputs g) @ coming offered_input (bs_flushing g) ts"

definition arriving_outputs :: "bridge_signal \<Rightarrow> bridge_task list \<Rightarrow> int list" where
  "arriving_outputs g ts = map bo_index (bs_outputs g) @ coming offered_output (bs_flushing g) ts"

lemmas arriving_defs = arriving_inputs_def arriving_outputs_def

section \<open>The machine\<close>

datatype 'w bridge_event =
    BvOfferInput "bridge_input option"
  | BvOfferOutput "bridge_output option"
  | BvCodecError
  | BvTask
  | BvConfigure decoder_format decoder_code
  | BvSurface "'w option" decoder_code
  | BvVideoSurface int "'w option" decoder_code
  | BvDecryption bool decoder_code bool
  | BvStart decoder_code
  | BvQueue frame_data input_answers
  | BvQueueEos decoder_code
  | BvDequeue
  | BvReleaseOutput int bool decoder_code
  | BvFlush decoder_code decoder_code
  | BvReset decoder_code
  | BvRecycle decoder_code
  | BvResume decoder_code

text \<open>An offer of the codec.\<close>

definition offers :: "'w bridge_call option \<Rightarrow> bridge_task \<Rightarrow> 'w bridge \<Rightarrow> 'w bridge" where
  "offers c t b = (let b = (case c of None \<Rightarrow> b | Some x \<Rightarrow> br_call x b) in b\<lparr>br_tasks := br_tasks b @ [t]\<rparr>)"

fun run_task :: "bridge_task \<Rightarrow> 'w bridge \<Rightarrow> 'w bridge" where
  "run_task TkUpdateFlushToFalse b = UpdateFlushToFalse b"
| "run_task (TkNeedInput buffer) b = OnNeedInputData buffer b"
| "run_task (TkNeedOutput info) b = OnNeedOutputData info b"
| "run_task TkError b = Bridge_OnError b"

fun br_step :: "'w bridge \<Rightarrow> 'w bridge_event \<Rightarrow> 'w bridge" where
  "br_step b (BvOfferInput x) = offers (map_option (\<lambda>x. BkOfferInput (bi_index x)) x) (TkNeedInput x) b"
| "br_step b (BvOfferOutput x) = offers (map_option (\<lambda>x. BkOfferOutput (bo_index x)) x) (TkNeedOutput x) b"
| "br_step b BvCodecError = offers None TkError b"
| "br_step b BvTask = (case br_tasks b of [] \<Rightarrow> b | t # ts \<Rightarrow> run_task t (b\<lparr>br_tasks := ts\<rparr>))"
| "br_step b (BvConfigure format code) = snd (ConfigureBridgeDecoder format code b)"
| "br_step b (BvSurface window code) = snd (SetBridgeOutputSurface window code b)"
| "br_step b (BvVideoSurface widget_id tracked code) = snd (Bridge_SetVideoSurface widget_id tracked code b)"
| "br_step b (BvDecryption secure code known) = snd (Bridge_SetDecryptionConfig secure code known b)"
| "br_step b (BvStart code) = snd (StartBridgeDecoder code b)"
| "br_step b (BvQueue d a) = snd (Bridge_QueueInputBuffer d a b)"
| "br_step b (BvQueueEos code) = snd (QueueInputBufferEOS code b)"
| "br_step b BvDequeue = snd (snd (Bridge_DequeueOutputBuffer b))"
| "br_step b (BvReleaseOutput i render code) = snd (ReleaseOutputBuffer i render code b)"
| "br_step b (BvFlush code started) = snd (FlushBridgeDecoder code started b)"
| "br_step b (BvReset code) = snd (ResetBridgeDecoder code b)"
| "br_step b (BvRecycle code) = snd (Bridge_RecycleDmaBuffer code b)"
| "br_step b (BvResume code) = snd (Bridge_ResumeDmaBuffer code b)"

text \<open>
  The codec offers a buffer it has not offered, and the client returns an output buffer that
  it was handed and the codec is still due. That is all that \<open>br_plain\<close> asks.
\<close>

fun br_plain :: "'w bridge \<Rightarrow> 'w bridge_event \<Rightarrow> bool" where
  "br_plain b (BvOfferInput (Some x)) = (case lent b of None \<Rightarrow> False | Some l \<Rightarrow> bi_index x \<notin> fst l)"
| "br_plain b (BvOfferOutput (Some x)) = (case lent b of None \<Rightarrow> False | Some l \<Rightarrow> bo_index x \<notin> snd l)"
| "br_plain b (BvReleaseOutput i render code) =
     (case (lent b, br_signal b) of
        (Some l, Some g) \<Rightarrow> i \<in> snd l \<and> i \<notin> set (arriving_outputs g (br_tasks b))
      | _ \<Rightarrow> False)"
| "br_plain b BvTask = (br_tasks b \<noteq> [])"
| "br_plain b _ = True"

text \<open>
  And the client flushes only when no flush is under way, and recycles only when no offer is.
  A client that has queued input since its last flush knows the first.
\<close>

definition flush_allowed :: "'w bridge \<Rightarrow> bool" where
  "flush_allowed b \<longleftrightarrow> flush_ready b \<or> (case br_signal b of None \<Rightarrow> False | Some g \<Rightarrow> \<not> bs_flushing g)"

fun br_ok :: "'w bridge \<Rightarrow> 'w bridge_event \<Rightarrow> bool" where
  "br_ok b (BvFlush code started) = flush_allowed b"
| "br_ok b (BvReset code) = flush_allowed b"
| "br_ok b (BvRecycle code) =
     (case br_signal b of
        None \<Rightarrow> False
      | Some g \<Rightarrow> coming offered_input (bs_flushing g) (br_tasks b) = [] \<and> coming offered_output (bs_flushing g) (br_tasks b) = [])"
| "br_ok b e = br_plain b e"

section \<open>The fence holds\<close>

definition fenced :: "int set \<times> int set \<Rightarrow> 'w bridge \<Rightarrow> bool" where
  "fenced l b \<longleftrightarrow>
     (case br_signal b of
        None \<Rightarrow> False
      | Some g \<Rightarrow> within (arriving_inputs g (br_tasks b)) (fst l) \<and> within (arriving_outputs g (br_tasks b)) (snd l) \<and>
          count_list (br_tasks b) TkUpdateFlushToFalse \<le> of_bool (bs_flushing g) \<and> (flush_ready b \<longrightarrow> \<not> bs_flushing g))"

definition bridge_inv :: "'w bridge \<Rightarrow> bool" where
  "bridge_inv b \<longleftrightarrow> br_decoder b \<and> (\<exists>l. lent b = Some l \<and> fenced l b)"

lemma invI: "br_decoder b \<Longrightarrow> lent b = Some l \<Longrightarrow> fenced l b \<Longrightarrow> bridge_inv b"
  by (auto simp: bridge_inv_def)

lemma lent_cong: "br_log u = br_log b \<Longrightarrow> lent u = lent b"
  by (simp add: lent_def)

lemma ready_cong: "br_log u = br_log b \<Longrightarrow> flush_ready u = flush_ready b"
  by (simp add: flush_ready_def)

lemma no_fence: "count_list ts TkUpdateFlushToFalse \<le> of_bool False \<Longrightarrow> TkUpdateFlushToFalse \<notin> set ts"
  by (simp add: count_list_0_iff)

text \<open>Calls that neither lend nor flush.\<close>

fun neutral :: "'w bridge_call \<Rightarrow> bool" where
  "neutral (BkOfferInput i) = False"
| "neutral (BkOfferOutput i) = False"
| "neutral (BkTake i) = False"
| "neutral (BkQueue i time len flag code) = False"
| "neutral (BkReleaseOutput i render) = False"
| "neutral (BkFlush code) = False"
| "neutral (BkReset code) = False"
| "neutral (BkStop code) = False"
| "neutral _ = True"

lemma neutral_lends: "neutral c \<Longrightarrow> lends c l = Some l"
  by (cases l; cases c) simp_all

lemma neutral_ready: "neutral c \<Longrightarrow> flush_ready (br_call c b) = flush_ready b"
  by (cases c) simp_all

lemma call_reads [simp]:
  "br_signal (br_call c b) = br_signal b" "br_tasks (br_call c b) = br_tasks b" "br_decoder (br_call c b) = br_decoder b"
  "br_running (br_call c b) = br_running b"
  by (simp_all add: br_call_def)

lemma fenced_cong:
  "br_signal u = br_signal b \<Longrightarrow> br_tasks u = br_tasks b \<Longrightarrow> flush_ready u = flush_ready b \<Longrightarrow> fenced l u \<longleftrightarrow> fenced l b"
  by (simp only: fenced_def)

lemma inv_same:
  assumes "bridge_inv b" and "br_signal u = br_signal b" "br_tasks u = br_tasks b" "br_decoder u = br_decoder b" "br_log u = br_log b"
  shows "bridge_inv u"
proof -
  from assms(5) have "lent u = lent b" "flush_ready u = flush_ready b" by (simp_all add: lent_def flush_ready_def)
  with assms fenced_cong [of u b] show ?thesis by (simp add: bridge_inv_def)
qed

lemma inv_neutral:
  assumes "bridge_inv b" and "neutral c"
  shows "bridge_inv (br_call c b)"
proof -
  from assms(1) obtain l where l: "lent b = Some l" "fenced l b" "br_decoder b" by (auto simp: bridge_inv_def)
  have "fenced l (br_call c b) = fenced l b" by (rule fenced_cong) (use assms(2) in \<open>simp_all only: neutral_ready call_reads\<close>)
  with l assms(2) show ?thesis by (simp add: bridge_inv_def neutral_lends)
qed

lemma inv_cases:
  assumes "bridge_inv b"
  obtains g ins outs where "br_signal b = Some g" "lent b = Some (ins, outs)" "br_decoder b"
    "within (arriving_inputs g (br_tasks b)) ins" "within (arriving_outputs g (br_tasks b)) outs"
    "count_list (br_tasks b) TkUpdateFlushToFalse \<le> of_bool (bs_flushing g)" "flush_ready b \<Longrightarrow> \<not> bs_flushing g"
  using assms by (auto simp: bridge_inv_def fenced_def split: option.splits)

section \<open>Every event keeps the fence\<close>

lemma signal_upd [simp]:
  "br_signal (on_signal f b) = map_option f (br_signal b)" "br_tasks (on_signal f b) = br_tasks b"
  "br_decoder (on_signal f b) = br_decoder b" "lent (on_signal f b) = lent b" "flush_ready (on_signal f b) = flush_ready b"
  by (simp_all add: on_signal_def lent_def flush_ready_def)

lemma tasks_upd [simp]:
  "lent (b\<lparr>br_tasks := ts\<rparr>) = lent b" "flush_ready (b\<lparr>br_tasks := ts\<rparr>) = flush_ready b"
  "lent (b\<lparr>br_running := r\<rparr>) = lent b" "flush_ready (b\<lparr>br_running := r\<rparr>) = flush_ready b"
  by (simp_all add: lent_def flush_ready_def)

lemma inv_offer_input:
  assumes inv: "bridge_inv b" and ok: "br_plain b (BvOfferInput x)"
  shows "bridge_inv (br_step b (BvOfferInput x))"
proof (rule inv_cases [OF inv])
  fix g ins outs
  assume b: "br_signal b = Some g" "lent b = Some (ins, outs)" "br_decoder b"
    "within (arriving_inputs g (br_tasks b)) ins" "within (arriving_outputs g (br_tasks b)) outs"
    "count_list (br_tasks b) TkUpdateFlushToFalse \<le> of_bool (bs_flushing g)" "flush_ready b \<Longrightarrow> \<not> bs_flushing g"
  show ?thesis
  proof (cases x)
    case None
    with b show ?thesis
      by (intro invI [where l = "(ins, outs)"]) (auto simp: offers_def fenced_def arriving_defs)
  next
    case (Some y)
    with ok b(2) have "bi_index y \<notin> ins" by simp
    with Some b show ?thesis
      by (intro invI [where l = "(insert (bi_index y) ins, outs)"]) (auto simp: offers_def fenced_def arriving_defs within_def)
  qed
qed

lemma inv_offer_output:
  assumes inv: "bridge_inv b" and ok: "br_plain b (BvOfferOutput x)"
  shows "bridge_inv (br_step b (BvOfferOutput x))"
proof (rule inv_cases [OF inv])
  fix g ins outs
  assume b: "br_signal b = Some g" "lent b = Some (ins, outs)" "br_decoder b"
    "within (arriving_inputs g (br_tasks b)) ins" "within (arriving_outputs g (br_tasks b)) outs"
    "count_list (br_tasks b) TkUpdateFlushToFalse \<le> of_bool (bs_flushing g)" "flush_ready b \<Longrightarrow> \<not> bs_flushing g"
  show ?thesis
  proof (cases x)
    case None
    with b show ?thesis
      by (intro invI [where l = "(ins, outs)"]) (auto simp: offers_def fenced_def arriving_defs)
  next
    case (Some y)
    with ok b(2) have "bo_index y \<notin> outs" by simp
    with Some b show ?thesis
      by (intro invI [where l = "(ins, insert (bo_index y) outs)"]) (auto simp: offers_def fenced_def arriving_defs within_def)
  qed
qed

lemma inv_task:
  assumes inv: "bridge_inv b"
  shows "bridge_inv (br_step b BvTask)"
proof (rule inv_cases [OF inv])
  fix g ins outs
  assume b: "br_signal b = Some g" "lent b = Some (ins, outs)" "br_decoder b"
    "within (arriving_inputs g (br_tasks b)) ins" "within (arriving_outputs g (br_tasks b)) outs"
    "count_list (br_tasks b) TkUpdateFlushToFalse \<le> of_bool (bs_flushing g)" "flush_ready b \<Longrightarrow> \<not> bs_flushing g"
  show ?thesis
  proof (cases "br_tasks b")
    case (Cons t ts)
    note defs = fenced_def arriving_defs within_def
    show ?thesis
    proof (cases t)
      case TkUpdateFlushToFalse
      with Cons b show ?thesis
        by (intro invI [where l = "(ins, outs)"]) (auto simp: defs UpdateFlushToFalse_def split: if_splits)
    next
      case (TkNeedInput x)
      with Cons b show ?thesis
        by (intro invI [where l = "(ins, outs)"]) (auto simp: defs OnNeedInputData_def split: option.split if_splits)
    next
      case (TkNeedOutput x)
      with Cons b show ?thesis
        by (intro invI [where l = "(ins, outs)"]) (auto simp: defs OnNeedOutputData_def split: option.split if_splits)
    next
      case TkError
      with Cons b show ?thesis
        by (intro invI [where l = "(ins, outs)"]) (auto simp: defs Bridge_OnError_def clear_queues_def)
    qed
  qed (use inv in simp)
qed

lemma inv_push:
  assumes inv: "bridge_inv b" and g: "br_signal b = Some g" "\<not> bs_flushing g" "\<not> bs_error g" "bs_inputs g = x # xs"
  shows "bridge_inv (PopInqueueDec (br_call (BkQueue (bi_index x) time len flag code) b))"
proof (rule inv_cases [OF inv])
  fix g' ins outs
  assume b: "br_signal b = Some g'" "lent b = Some (ins, outs)" "br_decoder b"
    "within (arriving_inputs g' (br_tasks b)) ins" "within (arriving_outputs g' (br_tasks b)) outs"
    "count_list (br_tasks b) TkUpdateFlushToFalse \<le> of_bool (bs_flushing g')" "flush_ready b \<Longrightarrow> \<not> bs_flushing g'"
  from b g have "bi_index x \<in> ins" by (auto simp: arriving_defs within_def)
  with b g show ?thesis
    by (intro invI [where l = "(if code = DECODER_OK then ins - {bi_index x} else ins, outs)"])
      (auto simp: PopInqueueDec_def fenced_def arriving_defs within_def dest: rev_image_eqI [OF _ sym])
qed

lemma inv_queue: "bridge_inv b \<Longrightarrow> bridge_inv (snd (Bridge_QueueInputBuffer d a b))"
proof -
  assume inv: "bridge_inv b"
  then obtain g where g: "br_signal b = Some g" by (rule inv_cases)
  show ?thesis
  proof (cases "fd_data d \<and> fd_size d \<noteq> 0 \<and> \<not> bs_error g \<and> \<not> bs_flushing g \<and> bs_inputs g \<noteq> [] \<and> br_running b \<and> br_decoder b")
    case True
    then obtain x xs where x: "bs_inputs g = x # xs" by (cases "bs_inputs g") auto
    obtain cenc u where c: "(if fd_decrypt d \<noteq> None then SetAVCencInfo (bi_index x) (fd_decrypt d) (ia_cenc a) (ia_known a) b
        else (DECODER_OK, b)) = (cenc, u)" by force
    have u: "bridge_inv u \<and> br_signal u = Some g"
      using c inv g inv_neutral [of b] True by (auto simp: SetAVCencInfo_def split: if_splits option.splits)
    with True x inv_push [of u g x xs] have
      "bridge_inv (PopInqueueDec (br_call (BkQueue (bi_index x) time len flag code) u))" for time len flag code by simp
    with True x g c u inv show ?thesis
      by (simp add: Bridge_QueueInputBuffer_def Let_def PushInbufferDec_def split: if_splits)
  qed (use inv g in \<open>auto simp: Bridge_QueueInputBuffer_def\<close>)
qed

lemma inv_queue_eos: "bridge_inv b \<Longrightarrow> bridge_inv (snd (QueueInputBufferEOS code b))"
proof -
  assume inv: "bridge_inv b"
  then obtain g where g: "br_signal b = Some g" by (rule inv_cases)
  show ?thesis
  proof (cases "\<not> bs_error g \<and> \<not> bs_flushing g \<and> bs_inputs g \<noteq> [] \<and> br_running b \<and> br_decoder b")
    case True
    then obtain x xs where x: "bs_inputs g = x # xs" by (cases "bs_inputs g") auto
    let ?u = "PopInqueueDec (br_call (BkQueue (bi_index x) 0 0 CODEC_BUFFER_FLAG_EOS code) b)"
    have "bridge_inv ?u" using True x g inv by (intro inv_push) simp_all
    then have "bridge_inv (?u\<lparr>br_running := False\<rparr>)" by (rule inv_same) simp_all
    with True x g show ?thesis by (simp add: QueueInputBufferEOS_def PushInbufferDecEos_def)
  qed (use inv g in \<open>auto simp: QueueInputBufferEOS_def\<close>)
qed

lemma inv_dequeue: "bridge_inv b \<Longrightarrow> bridge_inv (snd (snd (Bridge_DequeueOutputBuffer b)))"
proof -
  assume inv: "bridge_inv b"
  then show ?thesis
  proof (rule inv_cases)
    fix g ins outs
    assume b: "br_signal b = Some g" "lent b = Some (ins, outs)" "br_decoder b"
      "within (arriving_inputs g (br_tasks b)) ins" "within (arriving_outputs g (br_tasks b)) outs"
      "count_list (br_tasks b) TkUpdateFlushToFalse \<le> of_bool (bs_flushing g)" "flush_ready b \<Longrightarrow> \<not> bs_flushing g"
    show ?thesis
    proof (cases "\<not> bs_error g \<and> \<not> bs_flushing g \<and> bs_outputs g \<noteq> []")
      case True
      then obtain x xs where x: "bs_outputs g = x # xs" by (cases "bs_outputs g") auto
      with b have "bo_index x \<in> outs" by (auto simp: arriving_defs within_def)
      with True b x show ?thesis
        by (intro invI [where l = "(ins, outs)"])
          (auto simp: Bridge_DequeueOutputBuffer_def PopOutqueueDec_def fenced_def arriving_defs within_def)
    qed (use inv b in \<open>auto simp: Bridge_DequeueOutputBuffer_def\<close>)
  qed
qed

lemma inv_release:
  assumes inv: "bridge_inv b" and ok: "br_plain b (BvReleaseOutput i render code)"
  shows "bridge_inv (snd (ReleaseOutputBuffer i render code b))"
proof (rule inv_cases [OF inv])
  fix g ins outs
  assume b: "br_signal b = Some g" "lent b = Some (ins, outs)" "br_decoder b"
    "within (arriving_inputs g (br_tasks b)) ins" "within (arriving_outputs g (br_tasks b)) outs"
    "count_list (br_tasks b) TkUpdateFlushToFalse \<le> of_bool (bs_flushing g)" "flush_ready b \<Longrightarrow> \<not> bs_flushing g"
  with ok show ?thesis
    by (intro invI [where l = "(ins, outs - {i})"]) (auto simp: ReleaseOutputBuffer_def fenced_def within_def)
qed

lemma inv_start: "bridge_inv b \<Longrightarrow> bridge_inv (snd (StartBridgeDecoder code b))"
  using inv_neutral [OF inv_same [of b "b\<lparr>br_running := True\<rparr>"], of BkStart] inv_same [of b "b\<lparr>br_running := True\<rparr>"]
  by (simp add: StartBridgeDecoder_def Let_def)

text \<open>The flush: behind the offers that it voids stands the task that ends it.\<close>

lemma inv_flush:
  assumes inv: "bridge_inv b" and ready: "flush_allowed b"
  shows "bridge_inv (snd (FlushBridgeDecoder code started b))"
proof (rule inv_cases [OF inv])
  fix g ins outs
  assume b: "br_signal b = Some g" "lent b = Some (ins, outs)" "br_decoder b"
    "within (arriving_inputs g (br_tasks b)) ins" "within (arriving_outputs g (br_tasks b)) outs"
    "count_list (br_tasks b) TkUpdateFlushToFalse \<le> of_bool (bs_flushing g)" "flush_ready b \<Longrightarrow> \<not> bs_flushing g"
  then have no: "TkUpdateFlushToFalse \<notin> set (br_tasks b)" using ready by (intro no_fence) (auto simp: flush_allowed_def)
  let ?u = "br_call (BkFlush code) (on_signal (\<lambda>g. g\<lparr>bs_flushing := True\<rparr>) b)"
  show ?thesis
  proof (cases "code = DECODER_OK")
    case True
    let ?v = "(clear_queues ?u)\<lparr>br_tasks := br_tasks b @ [TkUpdateFlushToFalse]\<rparr>"
    have "bridge_inv ?v"
      using b no True by (intro invI [where l = "({}, {})"])
        (auto simp: clear_queues_def fenced_def arriving_defs within_def coming_fenced)
    with b True show ?thesis using inv_start [of ?v started] by (simp add: FlushBridgeDecoder_def clear_queues_def Let_def)
  next
    case False
    have "bridge_inv ?u"
      using b no False by (intro invI [where l = "(ins, outs)"]) (auto simp: fenced_def arriving_defs within_def coming_fenced)
    with b False show ?thesis by (simp add: FlushBridgeDecoder_def)
  qed
qed

lemma inv_reset:
  assumes inv: "bridge_inv b" and ready: "flush_allowed b"
  shows "bridge_inv (snd (ResetBridgeDecoder code b))"
proof (rule inv_cases [OF inv])
  fix g ins outs
  assume b: "br_signal b = Some g" "lent b = Some (ins, outs)" "br_decoder b"
    "within (arriving_inputs g (br_tasks b)) ins" "within (arriving_outputs g (br_tasks b)) outs"
    "count_list (br_tasks b) TkUpdateFlushToFalse \<le> of_bool (bs_flushing g)" "flush_ready b \<Longrightarrow> \<not> bs_flushing g"
  then have no: "TkUpdateFlushToFalse \<notin> set (br_tasks b)" using ready by (intro no_fence) (auto simp: flush_allowed_def)
  let ?u = "br_call (BkReset code) (on_signal (\<lambda>g. g\<lparr>bs_flushing := True\<rparr>) (b\<lparr>br_running := False\<rparr>))"
  show ?thesis
  proof (cases "code = DECODER_OK")
    case True
    have "bridge_inv ((clear_queues ?u)\<lparr>br_tasks := br_tasks b @ [TkUpdateFlushToFalse]\<rparr>)"
      using b no True by (intro invI [where l = "({}, {})"])
        (auto simp: clear_queues_def fenced_def arriving_defs within_def coming_fenced)
    with b True show ?thesis by (simp add: ResetBridgeDecoder_def clear_queues_def)
  next
    case False
    have "bridge_inv ?u"
      using b no False by (intro invI [where l = "(ins, outs)"]) (auto simp: fenced_def arriving_defs within_def coming_fenced)
    with b False show ?thesis by (simp add: ResetBridgeDecoder_def)
  qed
qed

lemma inv_recycle:
  assumes inv: "bridge_inv b" and ok: "br_ok b (BvRecycle code)"
  shows "bridge_inv (snd (Bridge_RecycleDmaBuffer code b))"
proof (rule inv_cases [OF inv])
  fix g ins outs
  assume b: "br_signal b = Some g" "lent b = Some (ins, outs)" "br_decoder b"
    "within (arriving_inputs g (br_tasks b)) ins" "within (arriving_outputs g (br_tasks b)) outs"
    "count_list (br_tasks b) TkUpdateFlushToFalse \<le> of_bool (bs_flushing g)" "flush_ready b \<Longrightarrow> \<not> bs_flushing g"
  with ok show ?thesis
    by (intro invI [where l = "if code = DECODER_OK then ({}, {}) else (ins, outs)"])
      (auto simp: Bridge_RecycleDmaBuffer_def StopBridgeDecoder_def clear_queues_def fenced_def arriving_defs within_def)
qed

lemma bridge_inv_step:
  assumes inv: "bridge_inv b" and ok: "br_ok b e"
  shows "bridge_inv (br_step b e)"
proof (cases e)
  case (BvOfferInput x)
  then show ?thesis using inv ok inv_offer_input [of b x] by (cases x) auto
next
  case (BvOfferOutput x)
  then show ?thesis using inv ok inv_offer_output [of b x] by (cases x) auto
next
  case BvCodecError
  from inv show ?thesis unfolding BvCodecError
    by (rule inv_cases) (rule invI, auto simp: offers_def fenced_def arriving_defs)
next
  case (BvConfigure format code)
  then show ?thesis using inv inv_neutral [OF inv_same [of b "b\<lparr>br_size := (df_width format, df_height format)\<rparr>"]]
      inv_same [of b "b\<lparr>br_size := (df_width format, df_height format)\<rparr>"]
    by (simp add: ConfigureBridgeDecoder_def Let_def)
next
  case (BvSurface window code)
  then show ?thesis using inv inv_neutral [OF inv_same [of b "b\<lparr>br_window := window\<rparr>"]]
    by (simp add: SetBridgeOutputSurface_def)
next
  case (BvVideoSurface w tracked code)
  then show ?thesis using inv inv_neutral [OF inv_same [of b "b\<lparr>br_video_surface := w\<rparr>"]] inv_neutral [of b]
    by (simp add: Bridge_SetVideoSurface_def)
next
  case (BvDecryption secure code known)
  then show ?thesis using inv inv_neutral [of b] by (simp add: Bridge_SetDecryptionConfig_def)
next
  case (BvResume code)
  then show ?thesis using inv_start [OF inv, of code] by (auto simp: Bridge_ResumeDmaBuffer_def split: prod.split)
qed (use inv ok inv_task inv_start inv_queue inv_queue_eos inv_dequeue inv_release inv_flush inv_reset inv_recycle in auto)

interpretation bridge_fence: machine br_step br_ok bridge_inv
  by unfold_locales (rule bridge_inv_step)

text \<open>A bridge for which a codec was created.\<close>

lemma new_bridge_inv: "bridge_inv (MediaCodecDecoderBridgeImpl codec_type True True DECODER_OK callback)"
  by (rule invI [where l = "({}, {})"])
    (auto simp: MediaCodecDecoderBridgeImpl_def CreateVideoBridgeDecoderByMime_def PrepareForCallback_def new_bridge_def
      lent_def br_call_def fenced_def arriving_defs within_def split: if_splits)

end
