(* ===== verification/Wrapped_Bridge.thy ===== *)
theory Wrapped_Bridge
  imports Bridge_Machine Codec_Ledger
begin

text \<open>
  The codec wrapper on top of the bridge: the answers that the wrapper takes as arguments are those of the
  bridge, and the calls that the wrapper makes are carried out on the bridge. What the bridge
  asks of a client that returns output buffers is proved of the wrapper.
\<close>

section \<open>The wrapper and the bridge\<close>

record 'w wired =
  wd_client :: "'w codec_machine"
  wd_bridge :: "'w bridge"

text \<open>The calls of the wrapper that return a buffer.\<close>

fun carry_out :: "codec_call \<Rightarrow> 'w bridge \<Rightarrow> 'w bridge" where
  "carry_out (CcReturn i x render) b = snd (ReleaseOutputBuffer x render DECODER_OK b)"
| "carry_out (CcEnd x) b = snd (ReleaseOutputBuffer x False DECODER_OK b)"
| "carry_out _ b = b"

definition new_calls :: "'w codec_machine \<Rightarrow> 'w codec_machine \<Rightarrow> codec_call list" where
  "new_calls m n = drop (length (cm_calls m)) (cm_calls n)"

definition client_does :: "'w codec_event \<Rightarrow> 'w bridge \<Rightarrow> 'w wired \<Rightarrow> 'w wired" where
  "client_does e b w =
     (let m = cm_step (wd_client w) e
      in \<lparr>wd_client = m, wd_bridge = fold carry_out (new_calls (wd_client w) m) b\<rparr>)"

datatype 'w wired_event =
    WeCodec "'w bridge_event"
  | WeQueue frame_data input_answers
  | WeQueueEos decoder_code
  | WeDequeue decoder_code "int \<times> int"
  | WeFlush decoder_code decoder_code
  | WeBuffers "'w codec_event"
  | WeSetSurface "'w option" decoder_code
  | WeVideoSurface int "'w option" decoder_code
  | WeRecycle decoder_code
  | WeResume decoder_code
  | WeDecryption bool decoder_code bool

definition dequeue_answer :: "decoder_code \<times> (int \<times> bool \<times> int) option \<Rightarrow> decoder_code \<Rightarrow> int \<times> int \<Rightarrow> dequeue_reply" where
  "dequeue_answer answer format_status format =
     \<lparr>dr_status = fst answer, dr_index = (case snd answer of None \<Rightarrow> 0 | Some (i, _) \<Rightarrow> i),
      dr_eos = (case snd answer of None \<Rightarrow> False | Some (_, eos, _) \<Rightarrow> eos), dr_format_status = format_status, dr_format = format\<rparr>"

text \<open>An end of stream that is elided does not reach the bridge.\<close>

fun wired_step :: "'w wired \<Rightarrow> 'w wired_event \<Rightarrow> 'w wired" where
  "wired_step w (WeCodec e) = w\<lparr>wd_bridge := br_step (wd_bridge w) e\<rparr>"
| "wired_step w (WeQueue d a) =
     (case Bridge_QueueInputBuffer d a (wd_bridge w) of (code, b) \<Rightarrow> client_does (CeQueue False code) b w)"
| "wired_step w (WeQueueEos code) =
     (if cw_state (cm_wrapper (wd_client w)) \<in> {kFlushed, kDrained}
      then client_does (CeQueue True DECODER_OK) (wd_bridge w) w
      else case QueueInputBufferEOS code (wd_bridge w) of (code, b) \<Rightarrow> client_does (CeQueue True code) b w)"
| "wired_step w (WeDequeue format_status format) =
     (if cw_elided (cm_wrapper (wd_client w))
      then client_does (CeDequeue (dequeue_answer (DECODER_OK, None) format_status format)) (wd_bridge w) w
      else case Bridge_DequeueOutputBuffer (wd_bridge w) of
        (code, out, b) \<Rightarrow> client_does (CeDequeue (dequeue_answer (code, out) format_status format)) b w)"
| "wired_step w (WeFlush code started) =
     (case FlushBridgeDecoder code started (wd_bridge w) of (code, b) \<Rightarrow> client_does (CeFlush code) b w)"
| "wired_step w (WeBuffers e) = client_does e (wd_bridge w) w"
| "wired_step w (WeSetSurface window code) =
     (case SetBridgeOutputSurface window code (wd_bridge w) of (code, b) \<Rightarrow> client_does (CeSetSurface window code) b w)"
| "wired_step w (WeVideoSurface widget_id tracked code) =
     (if cw_codec (cm_wrapper (wd_client w))
      then client_does (CeVideoSurface widget_id) (snd (Bridge_SetVideoSurface widget_id tracked code (wd_bridge w))) w
      else w)"
| "wired_step w (WeRecycle code) =
     (if cw_codec (cm_wrapper (wd_client w)) then client_does CeRecycle (snd (Bridge_RecycleDmaBuffer code (wd_bridge w))) w else w)"
| "wired_step w (WeResume code) =
     (if cw_codec (cm_wrapper (wd_client w)) then client_does CeResume (snd (Bridge_ResumeDmaBuffer code (wd_bridge w))) w else w)"
| "wired_step w (WeDecryption secure code known) =
     (case Bridge_SetDecryptionConfig secure code known (wd_bridge w) of
        (code, b) \<Rightarrow> client_does (CeDecryption secure code) b w)"

text \<open>What comes from the codec, and what the owners of output buffers do.\<close>

fun from_codec :: "'w bridge_event \<Rightarrow> bool" where
  "from_codec (BvOfferInput x) = True"
| "from_codec (BvOfferOutput x) = True"
| "from_codec BvCodecError = True"
| "from_codec BvTask = True"
| "from_codec _ = False"

fun on_buffers :: "'w codec_event \<Rightarrow> bool" where
  "on_buffers CeDiscard = True"
| "on_buffers CeTake = True"
| "on_buffers (CeRender k) = True"
| "on_buffers (CeDestroy k here) = True"
| "on_buffers CePosted = True"
| "on_buffers _ = False"

text \<open>
  The preconditions of the wrapper, and of the codec that it offers no buffer twice. That is all that
  \<open>wired_plain\<close> asks.
\<close>

fun wired_plain :: "'w wired \<Rightarrow> 'w wired_event \<Rightarrow> bool" where
  "wired_plain w (WeCodec e) = (from_codec e \<and> br_plain (wd_bridge w) e)"
| "wired_plain w (WeQueue d a) = usable (wd_client w)"
| "wired_plain w (WeQueueEos code) = usable (wd_client w)"
| "wired_plain w (WeDequeue format_status format) = usable (wd_client w)"
| "wired_plain w (WeFlush code started) = usable (wd_client w)"
| "wired_plain w (WeBuffers e) = (on_buffers e \<and> cm_ok (wd_client w) e)"
| "wired_plain w (WeSetSurface window code) = (usable (wd_client w) \<and> window \<noteq> None)"
| "wired_plain w (WeDecryption secure code known) = cw_codec (cm_wrapper (wd_client w))"
| "wired_plain w _ = True"

text \<open>
  And the wrapper is flushed only when it is running or no flush is under way, and recycled
  only when no buffer is lent and no offer is on its way.
\<close>

fun wired_ok :: "'w wired \<Rightarrow> 'w wired_event \<Rightarrow> bool" where
  "wired_ok w (WeFlush code started) =
     (usable (wd_client w) \<and> (cw_state (cm_wrapper (wd_client w)) = kRunning \<or> flush_allowed (wd_bridge w)))"
| "wired_ok w (WeRecycle code) =
     (cw_ids (cm_wrapper (wd_client w)) = [] \<and> br_ok (wd_bridge w) (BvRecycle code))"
| "wired_ok w e = wired_plain w e"

section \<open>Buffers that were handed out\<close>

text \<open>The codec is due an output buffer that is not offered: the bridge has handed it out.\<close>

definition handed :: "'w bridge \<Rightarrow> int \<Rightarrow> bool" where
  "handed b x = br_plain b (BvReleaseOutput x False DECODER_OK)"

lemma handed_plain [simp]: "br_plain b (BvReleaseOutput x render code) = handed b x"
  by (simp add: handed_def)

lemma handedI:
  "br_signal b = Some g \<Longrightarrow> lent b = Some (ins, outs) \<Longrightarrow> x \<in> outs \<Longrightarrow> x \<notin> set (arriving_outputs g (br_tasks b)) \<Longrightarrow> handed b x"
  by (simp add: handed_def)

lemma handed_same:
  "br_signal u = br_signal b \<Longrightarrow> br_tasks u = br_tasks b \<Longrightarrow> lent u = lent b \<Longrightarrow> handed u x = handed b x"
  by (cases "lent b"; cases "br_signal b") (simp_all add: handed_def)

lemma handed_neutral: "neutral c \<Longrightarrow> handed (br_call c b) x = handed b x"
  by (simp add: handed_def neutral_lends split: option.split)

lemma handed_cases:
  assumes "handed b x"
  obtains g ins outs where "br_signal b = Some g" "lent b = Some (ins, outs)" "x \<in> outs" "x \<notin> set (arriving_outputs g (br_tasks b))"
  using assms by (cases "lent b"; cases "br_signal b") (auto simp: handed_def)

text \<open>A buffer that is handed out stays so, unless it is returned or voided.\<close>

lemma handed_offer:
  assumes "handed b x" and "br_plain b (BvOfferOutput y)"
  shows "handed (br_step b (BvOfferOutput y)) x"
  using assms(1)
proof (rule handed_cases)
  fix g ins outs
  assume b: "br_signal b = Some g" "lent b = Some (ins, outs)" "x \<in> outs" "x \<notin> set (arriving_outputs g (br_tasks b))"
  show ?thesis
  proof (cases y)
    case None
    with b show ?thesis by (intro handedI [where g = g and ins = ins and outs = outs]) (auto simp: offers_def arriving_defs)
  next
    case (Some z)
    with assms(2) b(2) have "bo_index z \<notin> outs" by simp
    with Some b show ?thesis
      by (intro handedI [where g = g and ins = ins and outs = "insert (bo_index z) outs"]) (auto simp: offers_def arriving_defs)
  qed
qed

lemma handed_task:
  assumes "handed b x"
  shows "handed (br_step b BvTask) x"
  using assms
proof (rule handed_cases)
  fix g ins outs
  assume b: "br_signal b = Some g" "lent b = Some (ins, outs)" "x \<in> outs" "x \<notin> set (arriving_outputs g (br_tasks b))"
  show ?thesis
  proof (cases "br_tasks b")
    case (Cons t ts)
    let ?u = "run_task t (b\<lparr>br_tasks := ts\<rparr>)"
    have "\<exists>h. br_signal ?u = Some h \<and> x \<notin> set (arriving_outputs h ts)" "br_tasks ?u = ts" "lent ?u = Some (ins, outs)"
      using b Cons
      by (cases t; auto simp: UpdateFlushToFalse_def OnNeedInputData_def OnNeedOutputData_def Bridge_OnError_def clear_queues_def
          arriving_defs split: option.split if_splits)+
    with b(3) Cons show ?thesis by (auto intro: handedI)
  qed (use assms in simp)
qed


lemma handed_push:
  assumes "handed b x"
  shows "handed (PopInqueueDec (br_call (BkQueue i time len flag code) b)) x \<or> lent (br_call (BkQueue i time len flag code) b) = None"
  using assms
proof (rule handed_cases)
  fix g ins outs
  assume b: "br_signal b = Some g" "lent b = Some (ins, outs)" "x \<in> outs" "x \<notin> set (arriving_outputs g (br_tasks b))"
  show ?thesis
  proof (cases "i \<in> ins")
    case True
    with b have "handed (br_call (BkQueue i time len flag code) b) x"
      by (intro handedI [where g = g and ins = "if code = DECODER_OK then ins - {i} else ins" and outs = outs]) auto
    then have "handed (PopInqueueDec (br_call (BkQueue i time len flag code) b)) x"
      by (rule handed_cases) (auto simp: PopInqueueDec_def arriving_defs intro!: handedI)
    then show ?thesis ..
  qed (use b in simp)
qed

lemma handed_queue:
  assumes inv: "bridge_inv b" and x: "handed b x"
  shows "handed (snd (Bridge_QueueInputBuffer d a b)) x"
proof -
  from inv obtain g where g: "br_signal b = Some g" by (rule inv_cases)
  show ?thesis
  proof (cases "fd_data d \<and> fd_size d \<noteq> 0 \<and> \<not> bs_error g \<and> \<not> bs_flushing g \<and> bs_inputs g \<noteq> [] \<and> br_running b \<and> br_decoder b")
    case True
    then obtain y ys where y: "bs_inputs g = y # ys" by (cases "bs_inputs g") auto
    obtain cenc u where c: "(if fd_decrypt d \<noteq> None then SetAVCencInfo (bi_index y) (fd_decrypt d) (ia_cenc a) (ia_known a) b
        else (DECODER_OK, b)) = (cenc, u)" by force
    have u: "bridge_inv u" "br_signal u = Some g" "handed u x"
      using c inv g x inv_neutral [of b] handed_neutral [of _ b x] True by (auto simp: SetAVCencInfo_def split: if_splits option.splits)
    have "lent (br_call (BkQueue (bi_index y) time len flag code) u) \<noteq> None" for time len flag code
    proof -
      have "bridge_inv (PopInqueueDec (br_call (BkQueue (bi_index y) time len flag code) u))"
        using True y u by (intro inv_push) simp_all
      moreover have "lent (PopInqueueDec v) = lent v" for v :: "'a bridge" by (simp add: PopInqueueDec_def split: option.split)
      ultimately show ?thesis by (auto simp: bridge_inv_def simp del: lent_call)
    qed
    with handed_push [OF u(3)] have "handed (PopInqueueDec (br_call (BkQueue (bi_index y) time len flag code) u)) x"
      for time len flag code by blast
    with True y g c u x show ?thesis
      by (simp add: Bridge_QueueInputBuffer_def Let_def PushInbufferDec_def split: if_splits)
  qed (use x g in \<open>auto simp: Bridge_QueueInputBuffer_def\<close>)
qed

lemma handed_running [simp]: "handed (b\<lparr>br_running := r\<rparr>) x = handed b x"
  by (rule handed_same) simp_all

lemma handed_queue_eos:
  assumes inv: "bridge_inv b" and x: "handed b x"
  shows "handed (snd (QueueInputBufferEOS code b)) x"
proof -
  from inv obtain g where g: "br_signal b = Some g" by (rule inv_cases)
  show ?thesis
  proof (cases "\<not> bs_error g \<and> \<not> bs_flushing g \<and> bs_inputs g \<noteq> [] \<and> br_running b \<and> br_decoder b")
    case True
    then obtain y ys where y: "bs_inputs g = y # ys" by (cases "bs_inputs g") auto
    let ?c = "br_call (BkQueue (bi_index y) 0 0 CODEC_BUFFER_FLAG_EOS code) b"
    have "bridge_inv (PopInqueueDec ?c)" using True y g inv by (intro inv_push) simp_all
    moreover have "lent (PopInqueueDec ?c) = lent ?c" by (simp add: PopInqueueDec_def split: option.split)
    ultimately have "lent ?c \<noteq> None" by (auto simp: bridge_inv_def simp del: lent_call)
    then have "handed (PopInqueueDec ?c) x"
      using handed_push [OF x, of "bi_index y" 0 0 CODEC_BUFFER_FLAG_EOS code] by argo
    with True y g show ?thesis by (simp add: QueueInputBufferEOS_def PushInbufferDecEos_def)
  qed (use x g in \<open>auto simp: QueueInputBufferEOS_def\<close>)
qed

text \<open>What is dequeued was not handed out before, and is now.\<close>

lemma handed_dequeue:
  assumes inv: "bridge_inv b" and deq: "Bridge_DequeueOutputBuffer b = (code, out, u)"
  shows "handed b x \<Longrightarrow> handed u x" and "out = Some (i, eos, t) \<Longrightarrow> \<not> handed b i \<and> handed u i"
    and "code = DECODER_OK \<Longrightarrow> out \<noteq> None"
proof -
  from inv obtain g ins outs where b: "br_signal b = Some g" "lent b = Some (ins, outs)"
    "within (arriving_outputs g (br_tasks b)) outs" by (rule inv_cases)
  have "(handed b x \<longrightarrow> handed u x) \<and> (out = Some (i, eos, t) \<longrightarrow> \<not> handed b i \<and> handed u i) \<and> (code = DECODER_OK \<longrightarrow> out \<noteq> None)"
  proof (cases "\<not> bs_error g \<and> \<not> bs_flushing g \<and> bs_outputs g \<noteq> [] \<and> br_decoder b")
    case True
    then obtain y ys where y: "bs_outputs g = y # ys" by (cases "bs_outputs g") auto
    have u: "u = PopOutqueueDec (br_call (BkTake (bo_index y)) b)" "out = Some (bo_index y, bo_flag y = CODEC_BUFFER_FLAG_EOS, bo_time y)"
      using True y b deq by (auto simp: Bridge_DequeueOutputBuffer_def)
    have "br_signal u = Some (g\<lparr>bs_outputs := ys\<rparr>)" "lent u = Some (ins, outs)" "br_tasks u = br_tasks b"
      using b y by (auto simp: u PopOutqueueDec_def within_def arriving_defs)
    with b y u(2) show ?thesis by (auto simp: handed_def within_def arriving_defs)
  qed (use b deq in \<open>auto simp: Bridge_DequeueOutputBuffer_def split: if_splits\<close>)
  then show "handed b x \<Longrightarrow> handed u x" "out = Some (i, eos, t) \<Longrightarrow> \<not> handed b i \<and> handed u i"
    "code = DECODER_OK \<Longrightarrow> out \<noteq> None" by blast+
qed

lemma handed_release: "handed b x \<Longrightarrow> handed b y \<Longrightarrow> x \<noteq> y \<Longrightarrow> handed (snd (ReleaseOutputBuffer y render code b)) x"
  by (elim handed_cases) (auto simp: ReleaseOutputBuffer_def intro: handedI elim: handedI)


section \<open>The invariant\<close>

text \<open>
  Every buffer that the wrapper has lent under an id is handed out, each under one id; and a wrapper
  that is running has queued input since the last flush.
\<close>

definition holds :: "'w codec_wrapper \<Rightarrow> int set" where
  "holds s = snd ` set (cw_ids s)"

definition hands :: "'w codec_wrapper \<Rightarrow> 'w bridge \<Rightarrow> bool" where
  "hands s b \<longleftrightarrow> distinct (map snd (cw_ids s)) \<and> (\<forall>x \<in> holds s. handed b x)"

definition wired_inv :: "'w wired \<Rightarrow> bool" where
  "wired_inv w \<longleftrightarrow> bridge_inv (wd_bridge w) \<and> cm_inv (wd_client w) \<and> hands (cm_wrapper (wd_client w)) (wd_bridge w) \<and>
     (cw_state (cm_wrapper (wd_client w)) = kRunning \<longrightarrow> flush_ready (wd_bridge w))"

lemma handsD: "hands s b \<Longrightarrow> x \<in> holds s \<Longrightarrow> handed b x"
  by (simp add: hands_def)

text \<open>The calls of one event.\<close>

lemma new_calls_append: "cw_calls (cm_wrapper n) = cw_calls (cm_wrapper m) @ cs \<Longrightarrow> new_calls m n = cs"
  by (simp add: new_calls_def cm_calls_def)

lemma release_ready [simp]: "flush_ready (snd (ReleaseOutputBuffer x render code b)) = flush_ready b"
  by (simp add: ReleaseOutputBuffer_def)

lemma carry_out_ready [simp]: "flush_ready (carry_out c b) = flush_ready b"
  by (cases c) simp_all

lemma carry_out_all_ready [simp]: "flush_ready (fold carry_out cs b) = flush_ready b"
  by (induction cs arbitrary: b) simp_all

text \<open>A client that returns distinct buffers that were handed out keeps the others.\<close>

lemma carry_out_returns:
  assumes "bridge_inv b" and "distinct (map snd l @ map snd k)" and "\<forall>x \<in> snd ` set (l @ k). handed b x"
  shows "bridge_inv (fold carry_out (map (\<lambda>(i, x). CcReturn i x r) l) b) \<and>
    (\<forall>x \<in> snd ` set k. handed (fold carry_out (map (\<lambda>(i, x). CcReturn i x r) l) b) x)"
  using assms
proof (induction l arbitrary: b)
  case (Cons p l)
  obtain i x where p: "p = (i, x)" by force
  let ?u = "snd (ReleaseOutputBuffer x r DECODER_OK b)"
  have "bridge_inv ?u" using Cons.prems p by (intro inv_release) (simp_all add: handed_def)
  moreover have "\<forall>y \<in> snd ` set (l @ k). handed ?u y" using Cons.prems p by (auto intro!: handed_release simp: image_iff)
  ultimately have "bridge_inv (fold carry_out (map (\<lambda>(i, x). CcReturn i x r) l) ?u) \<and>
      (\<forall>y \<in> snd ` set k. handed (fold carry_out (map (\<lambda>(i, x). CcReturn i x r) l) ?u) y)"
    using Cons.prems by (intro Cons.IH) auto
  with p show ?case by simp
qed simp

lemma om_del_snd:
  assumes "om_ok l" "map_of l i = Some x" "distinct (map snd l)"
  shows "distinct (map snd (om_del i l))" "snd ` set (om_del i l) = snd ` set l - {x}"
proof -
  have d: "om_del i l = filter (\<lambda>p. fst p \<noteq> i) l" by (simp add: om_del_def)
  show "distinct (map snd (om_del i l))" unfolding d by (rule distinct_map_filter [OF assms(3)])
  have il: "(i, x) \<in> set l" using assms(2) by (rule map_of_SomeD)
  have inj: "inj_on fst (set l)" "inj_on snd (set l)"
    using om_ok_distinct [OF assms(1)] assms(3) by (simp_all add: distinct_map)
  have "fst p = i \<longleftrightarrow> snd p = x" if "p \<in> set l" for p
    using inj_onD [OF inj(1) _ that il] inj_onD [OF inj(2) _ that il] by (metis fst_conv snd_conv)
  then have "snd ` {p \<in> set l. fst p \<noteq> i} = snd ` {p \<in> set l. snd p \<noteq> x}" by (auto intro: imageI)
  moreover have "snd ` {p \<in> set l. snd p \<noteq> x} = snd ` set l - {x}" by auto
  ultimately show "snd ` set (om_del i l) = snd ` set l - {x}" unfolding d by simp
qed


section \<open>Every event keeps it\<close>

text \<open>The bridge's part of each event that voids nothing.\<close>

lemma PopInqueue_ready [simp]: "flush_ready (PopInqueueDec b) = flush_ready b"
  by (simp add: PopInqueueDec_def split: option.split)

lemma running_ready [simp]: "flush_ready (PopOutqueueDec b) = flush_ready b"
  by (simp add: PopOutqueueDec_def)

lemma queue_ready:
  "flush_ready b \<or> fst (Bridge_QueueInputBuffer d a b) = DECODER_OK \<Longrightarrow> flush_ready (snd (Bridge_QueueInputBuffer d a b))"
  by (auto simp: Bridge_QueueInputBuffer_def Let_def SetAVCencInfo_def PushInbufferDec_def split: option.splits if_splits prod.splits)

lemma queue_eos_ready: "flush_ready b \<Longrightarrow> flush_ready (snd (QueueInputBufferEOS code b))"
  by (auto simp: QueueInputBufferEOS_def PushInbufferDecEos_def split: option.split)

lemma dequeue_ready: "Bridge_DequeueOutputBuffer b = (code, out, u) \<Longrightarrow> flush_ready u = flush_ready b"
  by (auto simp: Bridge_DequeueOutputBuffer_def Let_def split: option.splits if_splits)

lemma codec_ready:
  assumes "from_codec e" and "flush_ready b"
  shows "flush_ready (br_step b e)"
proof (cases e)
  case BvTask
  have "flush_ready (run_task t c) = flush_ready c" for t and c :: "'a bridge"
    by (cases t) (auto simp: UpdateFlushToFalse_def OnNeedInputData_def OnNeedOutputData_def Bridge_OnError_def clear_queues_def split: option.split)
  with assms BvTask show ?thesis by (auto split: list.split)
qed (use assms in \<open>auto simp: offers_def split: option.split\<close>)

lemma codec_handed:
  assumes "from_codec e" and "br_plain b e" and "handed b x"
  shows "handed (br_step b e) x"
proof (cases e)
  case (BvOfferInput y)
  from assms(3) show ?thesis
  proof (rule handed_cases)
    fix g ins outs
    assume "br_signal b = Some g" "lent b = Some (ins, outs)" "x \<in> outs" "x \<notin> set (arriving_outputs g (br_tasks b))"
    with assms(2) BvOfferInput show ?thesis
      by (cases y) (auto simp: offers_def arriving_defs intro!: handedI split: if_splits)
  qed
next
  case BvCodecError
  from assms(3) BvCodecError show ?thesis
    by (elim handed_cases) (auto simp: offers_def arriving_defs intro!: handedI split: if_splits)
qed (use assms handed_offer handed_task in auto)

text \<open>Operations that only make neutral calls.\<close>

lemma neutral_ops:
  assumes inv: "bridge_inv b"
  shows "bridge_inv (snd (SetBridgeOutputSurface window code b))" "bridge_inv (snd (Bridge_SetVideoSurface w tracked code b))"
    "bridge_inv (snd (Bridge_ResumeDmaBuffer code b))" "bridge_inv (snd (Bridge_SetDecryptionConfig secure code known b))"
    "handed (snd (SetBridgeOutputSurface window code b)) x = handed b x" "handed (snd (Bridge_SetVideoSurface w tracked code b)) x = handed b x"
    "handed (snd (Bridge_ResumeDmaBuffer code b)) x = handed b x" "handed (snd (Bridge_SetDecryptionConfig secure code known b)) x = handed b x"
    "flush_ready (snd (SetBridgeOutputSurface window code b)) = flush_ready b" "flush_ready (snd (Bridge_SetVideoSurface w tracked code b)) = flush_ready b"
    "flush_ready (snd (Bridge_ResumeDmaBuffer code b)) = flush_ready b" "flush_ready (snd (Bridge_SetDecryptionConfig secure code known b)) = flush_ready b"
proof -
  have "handed (b\<lparr>br_window := v\<rparr>) x = handed b x" "handed (b\<lparr>br_video_surface := n\<rparr>) x = handed b x" for v n
    by (rule handed_same; simp add: lent_def)+
  then show "handed (snd (SetBridgeOutputSurface window code b)) x = handed b x"
    "handed (snd (Bridge_SetVideoSurface w tracked code b)) x = handed b x"
    "handed (snd (Bridge_ResumeDmaBuffer code b)) x = handed b x" "handed (snd (Bridge_SetDecryptionConfig secure code known b)) x = handed b x"
    by (auto simp: SetBridgeOutputSurface_def Bridge_SetVideoSurface_def Bridge_ResumeDmaBuffer_def Bridge_SetDecryptionConfig_def
        StartBridgeDecoder_def handed_neutral Let_def)
  show "bridge_inv (snd (SetBridgeOutputSurface window code b))"
    using bridge_inv_step [OF inv, of "BvSurface window code"] by simp
  show "bridge_inv (snd (Bridge_SetVideoSurface w tracked code b))"
    using bridge_inv_step [OF inv, of "BvVideoSurface w tracked code"] by simp
  show "bridge_inv (snd (Bridge_ResumeDmaBuffer code b))"
    using bridge_inv_step [OF inv, of "BvResume code"] by simp
  show "bridge_inv (snd (Bridge_SetDecryptionConfig secure code known b))"
    using bridge_inv_step [OF inv, of "BvDecryption secure code known"] by simp
  have "flush_ready (b\<lparr>br_window := v\<rparr>) = flush_ready b" "flush_ready (b\<lparr>br_video_surface := n\<rparr>) = flush_ready b" for v n
    by (simp_all add: flush_ready_def)
  then show "flush_ready (snd (SetBridgeOutputSurface window code b)) = flush_ready b"
    "flush_ready (snd (Bridge_SetVideoSurface w tracked code b)) = flush_ready b"
    "flush_ready (snd (Bridge_ResumeDmaBuffer code b)) = flush_ready b"
    "flush_ready (snd (Bridge_SetDecryptionConfig secure code known b)) = flush_ready b"
    by (simp_all add: SetBridgeOutputSurface_def Bridge_SetVideoSurface_def Bridge_ResumeDmaBuffer_def Bridge_SetDecryptionConfig_def
        StartBridgeDecoder_def Let_def split: prod.split)
qed


text \<open>The wrapper's part: events that return no buffer, and events that do.\<close>

fun silent :: "codec_call \<Rightarrow> bool" where
  "silent (CcReturn i x render) = False"
| "silent (CcEnd x) = False"
| "silent _ = True"

lemma carry_out_silent: "list_all silent cs \<Longrightarrow> fold carry_out cs b = b"
proof (induction cs arbitrary: b)
  case (Cons c cs)
  then show ?case by (cases c) simp_all
qed simp

fun asks :: "'w codec_event \<Rightarrow> bool" where
  "asks (CeDequeue r) = False"
| "asks e = (\<not> on_buffers e)"

lemma asks_silent:
  assumes "asks e"
  shows "\<exists>cs. cw_calls (cm_wrapper (cm_step m e)) = cw_calls (cm_wrapper m) @ cs \<and> list_all silent cs \<and>
    (cw_ids (cm_wrapper (cm_step m e)) = cw_ids (cm_wrapper m) \<or> cw_ids (cm_wrapper (cm_step m e)) = [])"
proof (cases e)
  case (CeQueue eos status)
  then show ?thesis by (cases eos; cases status) (auto simp: on_wrapper_def QueueInputBuffer_def Let_def)
qed (use assms in \<open>auto simp: on_wrapper_def Codec_Flush_def SetSurface_def SetVideoSurface_def RecycleDmaBuffer_def
    ResumeDmaBuffer_def SetDecryptionConfig_def Let_def\<close>)

lemma asking_keeps:
  assumes inv: "wired_inv w" and ok: "cm_ok (wd_client w) e" "asks e" and b: "bridge_inv b"
    and handed: "\<And>x. x \<in> holds (cm_wrapper (wd_client w)) \<Longrightarrow> cw_ids (cm_wrapper (cm_step (wd_client w) e)) \<noteq> [] \<Longrightarrow> handed b x"
    and ready: "cw_state (cm_wrapper (cm_step (wd_client w) e)) = kRunning \<Longrightarrow> flush_ready b"
  shows "wired_inv (client_does e b w)"
proof -
  let ?m = "wd_client w" and ?n = "cm_step (wd_client w) e"
  obtain cs where cs: "cw_calls (cm_wrapper ?n) = cw_calls (cm_wrapper ?m) @ cs" "list_all silent cs"
    "cw_ids (cm_wrapper ?n) = cw_ids (cm_wrapper ?m) \<or> cw_ids (cm_wrapper ?n) = []"
    using asks_silent [OF ok(2)] by blast
  have "cm_inv ?n" using inv ok(1) cm_refines.inv_step by (auto simp: wired_inv_def)
  moreover have "hands (cm_wrapper ?n) b"
    using cs(3)
  proof
    assume same: "cw_ids (cm_wrapper ?n) = cw_ids (cm_wrapper ?m)"
    then have "holds (cm_wrapper ?n) = holds (cm_wrapper ?m)" by (simp add: holds_def)
    moreover have "handed b x" if "x \<in> holds (cm_wrapper ?m)" for x
      using handed [OF that] that same by (cases "cw_ids (cm_wrapper ?m) = []") (simp_all add: holds_def)
    ultimately show ?thesis using same inv by (simp add: wired_inv_def hands_def)
  qed (simp add: hands_def holds_def)
  ultimately show ?thesis
    using b ready by (simp add: wired_inv_def client_does_def Let_def new_calls_append [OF cs(1)] carry_out_silent [OF cs(2)])
qed

text \<open>Buffers returned, each once, and the rest kept.\<close>

definition returns :: "'w codec_wrapper \<Rightarrow> 'w codec_wrapper \<Rightarrow> bool" where
  "returns s t \<longleftrightarrow> (\<exists>l r. cw_calls t = cw_calls s @ map (\<lambda>(i, x). CcReturn i x r) l \<and>
     distinct (map snd l @ map snd (cw_ids t)) \<and> snd ` set l \<union> holds t \<subseteq> holds s \<and> cw_state t = cw_state s)"

lemma returnsI:
  "cw_calls t = cw_calls s @ map (\<lambda>(i, x). CcReturn i x r) l \<Longrightarrow> distinct (map snd l @ map snd (cw_ids t)) \<Longrightarrow>
   snd ` set l \<union> holds t \<subseteq> holds s \<Longrightarrow> cw_state t = cw_state s \<Longrightarrow> returns s t"
  by (auto simp: returns_def)

lemma returns_none:
  "distinct (map snd (cw_ids s)) \<Longrightarrow> cw_calls t = cw_calls s \<Longrightarrow> cw_ids t = cw_ids s \<Longrightarrow> cw_state t = cw_state s \<Longrightarrow> returns s t"
  by (rule returnsI [where l = "[]"]) (simp_all add: holds_def)

lemma Release_returns:
  assumes "cw_inv s" and d: "distinct (map snd (cw_ids s))"
  shows "returns s (snd (ReleaseCodecOutputBuffer here i render s))"
proof (cases "map_of (cw_ids s) i")
  case None
  with d show ?thesis by (auto simp: ReleaseCodecOutputBuffer_def intro: returns_none)
next
  case (Some x)
  have ok: "om_ok (cw_ids s)" using assms(1) by (simp add: cw_inv_def)
  note del = om_del_snd [OF ok Some d]
  have "x \<in> snd ` set (cw_ids s)" using map_of_SomeD [OF Some] by force
  then have "returns s ((cw_call (CcReturn i x render) s)\<lparr>cw_ids := om_del i (cw_ids s)\<rparr>)"
    using del by (intro returnsI [where l = "[(i, x)]" and r = render]) (auto simp: holds_def simp flip: set_map)
  with Some d show ?thesis by (auto simp: ReleaseCodecOutputBuffer_def intro: returns_none)
qed

lemma Discard_returns:
  assumes "distinct (map snd (cw_ids s))"
  shows "returns s (DiscardOutputBuffers_Locked s)"
  by (rule returnsI [where l = "cw_ids s" and r = False])
    (use assms in \<open>simp_all add: DiscardOutputBuffers_Locked_def holds_def\<close>)

lemma buffers_return:
  assumes inv: "cw_inv (cm_wrapper m)" and d: "distinct (map snd (cw_ids (cm_wrapper m)))" and e: "on_buffers e"
  shows "returns (cm_wrapper m) (cm_wrapper (cm_step m e))"
proof (cases e)
  case CeDiscard
  then show ?thesis using Discard_returns [OF d] by (simp add: on_wrapper_def DiscardOutputBuffers_def)
next
  case CeTake
  then show ?thesis using Discard_returns [OF d] returns_none [OF d]
    by (auto simp: on_wrapper_def TakeCodecSurfacePair_def Let_def returns_def holds_def)
next
  case (CeRender k)
  then show ?thesis using Release_returns [OF inv d] by (simp add: ReleaseToSurface_eq)
next
  case (CeDestroy k here)
  then show ?thesis using Release_returns [OF inv d] returns_none [OF d] by (simp add: on_wrapper_def OutputBuffer_Destroy_def)
next
  case CePosted
  let ?p = "(cm_wrapper m)\<lparr>cw_posted := tl (cw_posted (cm_wrapper m))\<rparr>"
  have "returns ?p (snd (ReleaseCodecOutputBuffer True (hd (cw_posted (cm_wrapper m))) False ?p))"
    using inv d by (intro Release_returns) (simp_all add: cw_inv_def)
  with CePosted show ?thesis by (simp add: on_wrapper_def returns_def holds_def)
qed (use e in auto)

lemma returning_keeps:
  assumes inv: "wired_inv w" and ok: "cm_ok (wd_client w) e" "on_buffers e"
  shows "wired_inv (client_does e (wd_bridge w) w)"
proof -
  let ?m = "wd_client w" and ?n = "cm_step (wd_client w) e"
  have w: "cm_inv ?m" "bridge_inv (wd_bridge w)" "hands (cm_wrapper ?m) (wd_bridge w)" using inv by (simp_all add: wired_inv_def)
  have "returns (cm_wrapper ?m) (cm_wrapper ?n)"
    using w ok(2) by (intro buffers_return) (simp_all add: cm_inv_def hands_def)
  then obtain l r where l: "cw_calls (cm_wrapper ?n) = cw_calls (cm_wrapper ?m) @ map (\<lambda>(i, x). CcReturn i x r) l"
    "distinct (map snd l @ map snd (cw_ids (cm_wrapper ?n)))" "snd ` set l \<union> holds (cm_wrapper ?n) \<subseteq> holds (cm_wrapper ?m)"
    "cw_state (cm_wrapper ?n) = cw_state (cm_wrapper ?m)" unfolding returns_def by blast
  have "\<forall>x \<in> snd ` set (l @ cw_ids (cm_wrapper ?n)). handed (wd_bridge w) x"
    using l(3) handsD [OF w(3)] by (simp only: set_append image_Un holds_def) blast
  from carry_out_returns [OF w(2) l(2) this, of r] have "bridge_inv (wd_bridge (client_does e (wd_bridge w) w))"
    "hands (cm_wrapper ?n) (wd_bridge (client_does e (wd_bridge w) w))"
    using l(2) by (simp_all add: client_does_def Let_def new_calls_append [OF l(1)] hands_def holds_def)
  moreover have "cm_inv ?n" using w(1) ok(1) cm_refines.inv_step by blast
  ultimately show ?thesis using inv l(4) by (simp add: wired_inv_def client_does_def Let_def)
qed


text \<open>A buffer that was dequeued is handed out; it is lent under a new id, or returned at once.\<close>

lemma dequeue_client:
  assumes "cw_inv (cm_wrapper m)"
  shows "cw_state (cm_wrapper (cm_step m (CeDequeue r))) = kRunning \<Longrightarrow> cw_state (cm_wrapper m) = kRunning"
    and "(\<not> cw_elided (cm_wrapper m) \<and> dr_status r = DECODER_OK \<and>
          (dr_eos r \<and> new_calls m (cm_step m (CeDequeue r)) = [CcEnd (dr_index r)] \<and>
             cw_ids (cm_wrapper (cm_step m (CeDequeue r))) = cw_ids (cm_wrapper m) \<or>
           (\<exists>i. new_calls m (cm_step m (CeDequeue r)) = [CcLend i (dr_index r)] \<and> i \<notin> fst ` set (cw_ids (cm_wrapper m)) \<and>
             cw_ids (cm_wrapper (cm_step m (CeDequeue r))) = om_put i (dr_index r) (cw_ids (cm_wrapper m))))) \<or>
        new_calls m (cm_step m (CeDequeue r)) = [] \<and> cw_ids (cm_wrapper (cm_step m (CeDequeue r))) = cw_ids (cm_wrapper m)"
  using assms
  by (cases "dr_status r"; auto simp: DequeueOutputBuffer_def new_calls_def cm_calls_def cw_inv_def Let_def split: if_splits)+

lemma om_put_snd: "i \<notin> fst ` set l \<Longrightarrow> snd ` set (om_put i x l) = insert x (snd ` set l)"
  by (induction i x l rule: om_put.induct) auto

lemma om_put_distinct:
  "i \<notin> fst ` set l \<Longrightarrow> distinct (map snd (om_put i x l)) \<longleftrightarrow> x \<notin> snd ` set l \<and> distinct (map snd l)"
proof (induction i x l rule: om_put.induct)
  case (2 k v k' v' xs)
  then have "snd ` set (om_put k v xs) = insert v (snd ` set xs)" by (simp add: om_put_snd)
  with 2 show ?case by (simp only: om_put.simps list.map distinct.simps set_map) (auto simp: om_put_snd)
qed simp

lemma dequeue_keeps:
  assumes inv: "wired_inv w" and ok: "usable (wd_client w)"
  shows "wired_inv (wired_step w (WeDequeue status format))"
proof -
  let ?m = "wd_client w" and ?s = "cm_wrapper (wd_client w)" and ?b = "wd_bridge w"
  have w: "cm_inv ?m" "bridge_inv ?b" "hands ?s ?b" "cw_inv ?s" using inv by (simp_all add: wired_inv_def cm_inv_def)
  have client: "cm_inv (cm_step ?m (CeDequeue r))" for r
    by (rule cm_refines.inv_step [OF w(1)]) (use ok in simp)
  show ?thesis
  proof (cases "cw_elided ?s")
    case True
    let ?r = "dequeue_answer (DECODER_OK, None) status format"
    from dequeue_client(2) [OF w(4), of ?r] True have
      "new_calls ?m (cm_step ?m (CeDequeue ?r)) = []" "cw_ids (cm_wrapper (cm_step ?m (CeDequeue ?r))) = cw_ids ?s" by blast+
    with inv client dequeue_client(1) [OF w(4), of ?r] True show ?thesis
      by (auto simp: wired_inv_def client_does_def hands_def holds_def Let_def simp del: cm_step.simps)
  next
    case False
    obtain code out u where deq: "Bridge_DequeueOutputBuffer ?b = (code, out, u)" by (cases "Bridge_DequeueOutputBuffer ?b") auto
    let ?r = "dequeue_answer (code, out) status format" and ?n = "cm_step ?m (CeDequeue (dequeue_answer (code, out) status format))"
    have u: "bridge_inv u" using inv_dequeue [OF w(2)] deq by simp
    have keep: "handed u x" if "x \<in> holds ?s" for x
      using handed_dequeue(1) [OF w(2) deq] handsD [OF w(3) that] by blast
    have ready: "cw_state (cm_wrapper ?n) = kRunning \<Longrightarrow> flush_ready u"
      using inv dequeue_client(1) [OF w(4), of ?r] dequeue_ready [OF deq] by (simp add: wired_inv_def del: cm_step.simps)
    have step: "wired_step w (WeDequeue status format) = \<lparr>wd_client = ?n, wd_bridge = fold carry_out (new_calls ?m ?n) u\<rparr>"
      using False deq by (simp add: client_does_def Let_def del: cm_step.simps)
    from dequeue_client(2) [OF w(4), of ?r] consider
      (eos) "code = DECODER_OK" "new_calls ?m ?n = [CcEnd (dr_index ?r)]" "cw_ids (cm_wrapper ?n) = cw_ids ?s"
      | (lend) i where "code = DECODER_OK" "new_calls ?m ?n = [CcLend i (dr_index ?r)]" "i \<notin> fst ` set (cw_ids ?s)"
          "cw_ids (cm_wrapper ?n) = om_put i (dr_index ?r) (cw_ids ?s)"
      | (none) "new_calls ?m ?n = []" "cw_ids (cm_wrapper ?n) = cw_ids ?s"
      by (simp add: dequeue_answer_def del: cm_step.simps) blast
    then show ?thesis
    proof cases
      case none
      with client u keep ready w(3) show ?thesis
        unfolding step by (simp add: wired_inv_def hands_def holds_def del: cm_step.simps)
    next
      case eos
      with handed_dequeue(3) [OF w(2) deq] obtain i e t where out: "out = Some (i, e, t)" by force
      then have i: "dr_index ?r = i" "\<not> handed ?b i" "handed u i"
        using handed_dequeue(2) [OF w(2) deq] by (simp_all add: dequeue_answer_def)
      let ?v = "snd (ReleaseOutputBuffer i False DECODER_OK u)"
      have "bridge_inv ?v" using i(3) by (intro inv_release [OF u]) (simp only: handed_plain)
      moreover have "handed ?v x" if "x \<in> holds ?s" for x
        using keep [OF that] handsD [OF w(3) that] i by (intro handed_release) auto
      ultimately show ?thesis
        using eos client ready w(3) i(1) unfolding step by (simp add: wired_inv_def hands_def holds_def del: cm_step.simps)
    next
      case lend
      with handed_dequeue(3) [OF w(2) deq] obtain j e t where out: "out = Some (j, e, t)" by force
      then have j: "dr_index ?r = j" "\<not> handed ?b j" "handed u j"
        using handed_dequeue(2) [OF w(2) deq] by (simp_all add: dequeue_answer_def)
      have "j \<notin> holds ?s" using handsD [OF w(3), of j] j(2) by blast
      with lend j keep w(3) have "hands (cm_wrapper ?n) u"
        by (simp add: hands_def holds_def om_put_snd om_put_distinct del: cm_step.simps)
      with lend client ready u show ?thesis
        unfolding step by (simp add: wired_inv_def del: cm_step.simps)
    qed
  qed
qed


lemma wired_inv_step:
  assumes inv: "wired_inv w" and ok: "wired_ok w e"
  shows "wired_inv (wired_step w e)"
proof -
  let ?m = "wd_client w" and ?s = "cm_wrapper (wd_client w)" and ?b = "wd_bridge w"
  have b: "bridge_inv ?b" and handed: "\<And>x. x \<in> holds ?s \<Longrightarrow> handed ?b x"
    and ready: "cw_state ?s = kRunning \<Longrightarrow> flush_ready ?b"
    using inv handsD unfolding wired_inv_def by blast+
  note asking = asking_keeps [OF inv]
  show ?thesis
  proof (cases e)
    case (WeCodec v)
    with ok have v: "from_codec v" "br_plain ?b v" by simp_all
    then have "br_ok ?b v" by (cases v) auto
    from bridge_inv_step [OF b this] codec_handed [OF v] codec_ready [OF v(1)] inv WeCodec show ?thesis
      by (auto simp: wired_inv_def hands_def)
  next
    case (WeQueue d a)
    obtain code u where q: "Bridge_QueueInputBuffer d a ?b = (code, u)" by force
    have "wired_inv (client_does (CeQueue False code) u w)"
    proof (rule asking)
      show "flush_ready u" if "cw_state (cm_wrapper (cm_step ?m (CeQueue False code))) = kRunning"
        using that queue_ready [of ?b d a] q ready by (cases code) (auto simp: on_wrapper_def QueueInputBuffer_def)
    qed (use ok WeQueue q inv_queue [OF b, of d a] handed_queue [OF b, of _ d a] handed in auto)
    with WeQueue q show ?thesis by simp
  next
    case (WeQueueEos code)
    show ?thesis
    proof (cases "cw_state ?s \<in> {kFlushed, kDrained}")
      case True
      have "wired_inv (client_does (CeQueue True DECODER_OK) ?b w)"
        by (rule asking) (use ok WeQueueEos True b handed in \<open>auto simp: on_wrapper_def QueueInputBuffer_def\<close>)
      with WeQueueEos True show ?thesis by simp
    next
      case False
      obtain c u where q: "QueueInputBufferEOS code ?b = (c, u)" by force
      have "wired_inv (client_does (CeQueue True c) u w)"
      proof (rule asking)
        show "flush_ready u" if "cw_state (cm_wrapper (cm_step ?m (CeQueue True c))) = kRunning"
          using that queue_eos_ready [of ?b code] q ready False
          by (auto simp: on_wrapper_def QueueInputBuffer_def Let_def split: if_splits)
      qed (use ok WeQueueEos q inv_queue_eos [OF b, of code] handed_queue_eos [OF b, of _ code] handed in auto)
      with WeQueueEos q False show ?thesis by simp
    qed
  next
    case (WeDequeue status format)
    with ok dequeue_keeps [OF inv] show ?thesis by simp
  next
    case (WeFlush code started)
    obtain c u where q: "FlushBridgeDecoder code started ?b = (c, u)" by force
    have "flush_allowed ?b" using ok WeFlush ready by (auto simp: flush_allowed_def)
    from inv_flush [OF b this, of code started] q have u: "bridge_inv u" by simp
    have "wired_inv (client_does (CeFlush c) u w)"
      by (rule asking; cases "c = DECODER_ERROR") (use ok WeFlush u in \<open>auto simp: on_wrapper_def Codec_Flush_def Let_def\<close>)
    with WeFlush q show ?thesis by simp
  next
    case (WeBuffers v)
    with ok returning_keeps [OF inv] show ?thesis by simp
  next
    case (WeSetSurface window code)
    obtain c u where q: "SetBridgeOutputSurface window code ?b = (c, u)" by force
    note ops = neutral_ops(1,5,9) [OF b, where window = window and code = code, unfolded q]
    have "wired_inv (client_does (CeSetSurface window c) u w)"
      by (rule asking) (use ok WeSetSurface ops handed ready in \<open>auto simp: on_wrapper_def SetSurface_def Let_def split: if_splits\<close>)
    with WeSetSurface q show ?thesis by simp
  next
    case (WeVideoSurface widget_id tracked code)
    have "wired_inv (client_does (CeVideoSurface widget_id) (snd (Bridge_SetVideoSurface widget_id tracked code ?b)) w)"
      by (rule asking) (use neutral_ops(2,6,10) [OF b] handed ready in \<open>auto simp: on_wrapper_def SetVideoSurface_def split: if_splits\<close>)
    with WeVideoSurface inv show ?thesis by simp
  next
    case (WeRecycle code)
    have "wired_inv (client_does CeRecycle (snd (Bridge_RecycleDmaBuffer code ?b)) w)"
    proof (rule asking)
      have "flush_ready (snd (Bridge_RecycleDmaBuffer code ?b)) = flush_ready ?b"
        by (simp add: Bridge_RecycleDmaBuffer_def StopBridgeDecoder_def clear_queues_def Let_def)
      with ready show "flush_ready (snd (Bridge_RecycleDmaBuffer code ?b))"
        if "cw_state (cm_wrapper (cm_step ?m CeRecycle)) = kRunning"
        using that by (auto simp: on_wrapper_def RecycleDmaBuffer_def split: if_splits)
    qed (use ok WeRecycle inv_recycle [OF b, of code] in \<open>auto simp: holds_def\<close>)
    with WeRecycle inv show ?thesis by simp
  next
    case (WeResume code)
    have "wired_inv (client_does CeResume (snd (Bridge_ResumeDmaBuffer code ?b)) w)"
      by (rule asking) (use neutral_ops(3,7,11) [OF b] handed ready in \<open>auto simp: on_wrapper_def ResumeDmaBuffer_def split: if_splits\<close>)
    with WeResume inv show ?thesis by simp
  next
    case (WeDecryption secure code known)
    obtain c u where q: "Bridge_SetDecryptionConfig secure code known ?b = (c, u)" by force
    note ops = neutral_ops(4,8,12) [OF b, where secure = secure and code = code and known = known, unfolded q]
    have "wired_inv (client_does (CeDecryption secure c) u w)"
      by (rule asking) (use ok WeDecryption ops handed ready in \<open>auto simp: on_wrapper_def SetDecryptionConfig_def\<close>)
    with WeDecryption q show ?thesis by simp
  qed
qed

interpretation wired: machine wired_step wired_ok wired_inv
  by unfold_locales (rule wired_inv_step)

end
