(* ===== verification/Bridge_Properties.thy ===== *)
theory Bridge_Properties
  imports Wrapped_Bridge
begin

text \<open>
  The properties of the bridge to the video codec: it uses only buffers that the codec has
  offered and not voided, the wrapper on top of it returns only buffers that it was handed, and
  where the two do not do what their clients expect.
\<close>

section \<open>Runs\<close>

definition new_codec :: "nat bridge" where
  "new_codec = MediaCodecDecoderBridgeImpl ''video/avc'' True True DECODER_OK DECODER_OK"

definition offer_input :: "int \<Rightarrow> nat bridge_event" where
  "offer_input i = BvOfferInput (Some \<lparr>bi_index = i, bi_size = 100, bi_mapped = True\<rparr>)"

definition offer_output :: "int \<Rightarrow> nat bridge_event" where
  "offer_output i = BvOfferOutput (Some \<lparr>bo_index = i, bo_flag = CODEC_BUFFER_FLAG_NONE, bo_time = 0\<rparr>)"

definition frame_of_size :: "int \<Rightarrow> frame_data" where
  "frame_of_size len = \<lparr>fd_data = True, fd_size = len, fd_time = 0, fd_decrypt = None, fd_key = True\<rparr>"

definition accepted :: input_answers where
  "accepted = \<lparr>ia_copied = True, ia_cenc = DECODER_OK, ia_known = True, ia_queue = DECODER_OK\<rparr>"

definition frame_of :: "int \<Rightarrow> nat bridge_event" where
  "frame_of len = BvQueue (frame_of_size len) accepted"

text \<open>Two offers are on their way when the client flushes; they are dropped, and the buffers are offered again.\<close>

definition flushing :: "nat bridge_event list" where
  "flushing =
     [BvStart DECODER_OK, offer_input 0, BvTask, frame_of 80, offer_output 4, BvTask, BvDequeue, BvReleaseOutput 4 True DECODER_OK,
      offer_input 1, offer_input 2, BvFlush DECODER_OK DECODER_OK, offer_input 1, BvTask, BvTask, BvTask, BvTask, frame_of 70]"

definition flushed :: "nat bridge" where
  "flushed = foldl br_step new_codec flushing"

lemma flushing_ok: "guarded_run br_step br_ok new_codec flushing"
  by code_simp

lemma flushed_log: "br_log flushed =
  [BkCreate ''video/avc'', BkSetCallback, BkStart, BkOfferInput 0, BkAvailable, BkQueue 0 0 80 CODEC_BUFFER_FLAG_SYNC_FRAME DECODER_OK,
   BkOfferOutput 4, BkAvailable, BkTake 4, BkReleaseOutput 4 True, BkOfferInput 1, BkOfferInput 2, BkFlush DECODER_OK, BkStart,
   BkOfferInput 1, BkAvailable, BkQueue 1 0 70 CODEC_BUFFER_FLAG_SYNC_FRAME DECODER_OK]"
  by code_simp

section \<open>Offered buffers\<close>



section \<open>The wrapper on top\<close>


text \<open>Two frames are decoded, one is shown, and after a flush the other is returned in vain.\<close>

definition watching :: "nat wired_event list" where
  "watching = [WeCodec (offer_input 0), WeCodec BvTask, WeQueue (frame_of_size 80) accepted, WeCodec (offer_output 4),
     WeCodec (offer_output 5), WeCodec BvTask, WeCodec BvTask, WeDequeue DECODER_OK (2, 2), WeDequeue DECODER_OK (2, 2),
     WeBuffers (CeRender 0), WeFlush DECODER_OK DECODER_OK, WeBuffers (CeDestroy 1 True), WeCodec (offer_output 5)]"

definition player :: "nat wired" where
  "player = \<lparr>wd_client = cm_start (2, 2) (Some 1) False, wd_bridge = foldl br_step new_codec [BvStart DECODER_OK]\<rparr>"

definition watched :: "nat wired" where
  "watched = foldl wired_step player watching"

lemma watching_ok: "guarded_run wired_step wired_ok player watching"
  by code_simp


section \<open>Departures\<close>

text \<open>An offer is on its way when the codec is stopped; it is accepted, and used when the codec runs again.\<close>

definition recycling :: "nat bridge_event list" where
  "recycling = [BvStart DECODER_OK, offer_input 0, BvRecycle DECODER_OK, BvTask, BvResume DECODER_OK, frame_of 80]"

text \<open>A second flush while the first is under way: its end lets an offer through that the second has voided.\<close>

definition flushing_twice :: "nat bridge_event list" where
  "flushing_twice = [BvStart DECODER_OK, BvFlush DECODER_OK DECODER_OK, offer_input 1, BvFlush DECODER_OK DECODER_OK, BvTask, BvTask, frame_of 80]"

text \<open>
  The same through the wrapper: it is recycled while a buffer is lent, which it then shows; and a wrapper
  that is drained by an elided end of stream is flushed again.
\<close>

definition recycling_lent :: "nat wired_event list" where
  "recycling_lent = [WeCodec (offer_output 4), WeCodec BvTask, WeDequeue DECODER_OK (2, 2), WeRecycle DECODER_OK,
     WeResume DECODER_OK, WeBuffers (CeRender 0)]"

definition elided_flushes :: "nat wired_event list" where
  "elided_flushes = [WeQueueEos DECODER_OK, WeDequeue DECODER_OK (2, 2), WeFlush DECODER_OK DECODER_OK, WeCodec (offer_input 1),
     WeQueueEos DECODER_OK, WeDequeue DECODER_OK (2, 2), WeFlush DECODER_OK DECODER_OK, WeCodec BvTask, WeCodec BvTask,
     WeQueue (frame_of_size 80) accepted]"

text \<open>The video goes to a widget, back to the decoder's window, and to the widget again.\<close>

definition moving :: "nat bridge_event list" where
  "moving = [BvSurface (Some 3) DECODER_OK, BvVideoSurface 5 (Some 9) DECODER_OK, BvVideoSurface (- 1) None DECODER_OK,
     BvVideoSurface 5 (Some 9) DECODER_OK]"


end
