(* ===== verification/Tab_Discarding.thy ===== *)
theory Tab_Discarding
  imports Prelude "HOL-Library.Multiset" "HOL-Library.Sublist"
begin

text \<open>
  \<open>ohos_tab_discarding_policy.cc\<close>: the policy that keeps the number of loaded tabs down. The
  graph of pages is the environment: an operation that looks at it takes the pages as an
  argument. \<open>std::sort\<close> leaves the order of equal elements open, so what it makes of a list is
  the argument \<open>arrange\<close>, with the law of a sort. Times are microseconds.
\<close>

section \<open>State\<close>

text \<open>What the graph and the rules of Chromium say of a page. \<open>pg_discarded\<close> is \<open>None\<close> without live state.\<close>

record tab_page =
  pg_id :: nat
  pg_tab :: bool
  pg_main_frame :: bool
  pg_discarded :: "bool option"
  pg_contents :: bool
  pg_needs_reload :: bool
  pg_empty_url :: bool
  pg_visible :: bool
  pg_changed :: int
  pg_proactive :: bool
  pg_urgent :: bool

record limits =
  max_loaded_tabs :: nat
  max_hidden_time :: int
  max_restored_background_loads :: nat

datatype pressure = MEMORY_PRESSURE_LEVEL_NONE | MEMORY_PRESSURE_LEVEL_MODERATE | MEMORY_PRESSURE_LEVEL_CRITICAL

text \<open>What the policy does; \<open>TdDiscard\<close> has the time, for whom and what for.\<close>

datatype discard_call =
    TdPressure pressure
  | TdDiscard int "nat list" bool

record tab_policy =
  td_limits :: limits
  td_observing :: bool
  td_enforce_timer :: bool
  td_hidden_timer :: bool
  td_pressure_timer :: bool
  td_last_discard :: int
  td_log :: "discard_call list"

text \<open>\<open>base::Minutes\<close>.\<close>

definition base_minutes :: "int \<Rightarrow> int" where
  "base_minutes n = n * 60000000"

definition kPhoneLimits :: limits where
  "kPhoneLimits = \<lparr>max_loaded_tabs = 5, max_hidden_time = base_minutes 30, max_restored_background_loads = 0\<rparr>"

definition kTabletLimits :: limits where
  "kTabletLimits = \<lparr>max_loaded_tabs = 10, max_hidden_time = base_minutes 60, max_restored_background_loads = 3\<rparr>"

definition kMemoryDiscardInterval :: int where
  "kMemoryDiscardInterval = 10000000"

definition LimitsForThisDevice :: "bool \<Rightarrow> limits" where
  "LimitsForThisDevice single_process = (if single_process then kPhoneLimits else kTabletLimits)"

definition OhosTabDiscardingPolicy :: "limits \<Rightarrow> tab_policy" where
  "OhosTabDiscardingPolicy l =
     \<lparr>td_limits = l, td_observing = False, td_enforce_timer = False, td_hidden_timer = False, td_pressure_timer = False,
      td_last_discard = 0, td_log = []\<rparr>"

definition td_call :: "discard_call \<Rightarrow> tab_policy \<Rightarrow> tab_policy" where
  "td_call c s = s\<lparr>td_log := td_log s @ [c]\<rparr>"

section \<open>The pages\<close>

definition LoadedTabs :: "tab_page list \<Rightarrow> tab_page list" where
  "LoadedTabs pages =
     filter (\<lambda>p. \<not> (\<not> pg_tab p \<or> \<not> pg_main_frame p) \<and> pg_discarded p \<noteq> Some True \<and>
                 \<not> (\<not> pg_contents p \<or> pg_needs_reload p \<or> pg_empty_url p)) pages"

text \<open>\<open>rules\<close>: is there a \<open>DiscardEligibilityPolicy\<close>?\<close>

definition can_discard :: "bool \<Rightarrow> tab_page \<Rightarrow> bool" where
  "can_discard urgent p \<longleftrightarrow> \<not> pg_visible p \<and> (if urgent then pg_urgent p else pg_proactive p)"

definition DiscardableOldestFirst ::
  "(tab_page list \<Rightarrow> tab_page list) \<Rightarrow> bool \<Rightarrow> tab_page list \<Rightarrow> bool \<Rightarrow> tab_page list" where
  "DiscardableOldestFirst arrange rules tabs urgent =
     (if \<not> rules then [] else arrange (filter (can_discard urgent) tabs))"

text \<open>\<open>helper\<close>: is there a \<open>PageDiscardingHelper\<close>?\<close>

definition Discard :: "bool \<Rightarrow> int \<Rightarrow> tab_page list \<Rightarrow> bool \<Rightarrow> tab_policy \<Rightarrow> tab_policy" where
  "Discard helper now pages urgent s =
     (if pages = [] then s
      else if \<not> helper then s
      else td_call (TdDiscard now (map pg_id pages) urgent) s)"

section \<open>Operations\<close>

definition ScheduleEnforce :: "tab_policy \<Rightarrow> tab_policy" where
  "ScheduleEnforce s = (if \<not> td_enforce_timer s then s\<lparr>td_enforce_timer := True\<rparr> else s)"

definition Tabs_OnPassedToGraph :: "tab_policy \<Rightarrow> tab_policy" where
  "Tabs_OnPassedToGraph s = s\<lparr>td_observing := True, td_hidden_timer := True\<rparr>"

definition Tabs_OnTakenFromGraph :: "tab_policy \<Rightarrow> tab_policy" where
  "Tabs_OnTakenFromGraph s =
     s\<lparr>td_observing := False, td_pressure_timer := False, td_hidden_timer := False, td_enforce_timer := False\<rparr>"

definition Tabs_OnPageNodeAdded :: "tab_policy \<Rightarrow> tab_policy" where
  "Tabs_OnPageNodeAdded = ScheduleEnforce"

definition OnTypeChanged :: "tab_policy \<Rightarrow> tab_policy" where
  "OnTypeChanged = ScheduleEnforce"

definition Tabs_OnIsVisibleChanged :: "tab_policy \<Rightarrow> tab_policy" where
  "Tabs_OnIsVisibleChanged = ScheduleEnforce"

definition OnMainFrameDocumentChanged :: "tab_policy \<Rightarrow> tab_policy" where
  "OnMainFrameDocumentChanged = ScheduleEnforce"

text \<open>The loop of \<open>Enforce\<close> over the candidates.\<close>

definition pick_victims :: "nat \<Rightarrow> int \<Rightarrow> int \<Rightarrow> tab_page list \<Rightarrow> tab_page list" where
  "pick_victims over_limit now max_hidden candidates =
     fold (\<lambda>p victims. if length victims < over_limit \<or> now - pg_changed p \<ge> max_hidden then victims @ [p] else victims) candidates []"

record surroundings =
  en_arrange :: "tab_page list \<Rightarrow> tab_page list"
  en_rules :: bool
  en_helper :: bool
  en_now :: int
  en_pages :: "tab_page list"

definition over_limit :: "tab_policy \<Rightarrow> tab_page list \<Rightarrow> nat" where
  "over_limit s loaded =
     (if length loaded > max_loaded_tabs (td_limits s) then length loaded - max_loaded_tabs (td_limits s) else 0)"

definition enforce_victims :: "surroundings \<Rightarrow> tab_policy \<Rightarrow> tab_page list" where
  "enforce_victims e s =
     (let loaded = LoadedTabs (en_pages e);
          candidates = DiscardableOldestFirst (en_arrange e) (en_rules e) loaded False
      in pick_victims (over_limit s loaded) (en_now e) (max_hidden_time (td_limits s)) candidates)"

definition Enforce :: "surroundings \<Rightarrow> tab_policy \<Rightarrow> tab_policy" where
  "Enforce e s =
     (let s = s\<lparr>td_enforce_timer := False\<rparr>;
          victims = enforce_victims e s
      in if victims = [] then s else Discard (en_helper e) (en_now e) victims False s)"

definition ReleaseMemoryPressure :: "tab_policy \<Rightarrow> tab_policy" where
  "ReleaseMemoryPressure s = td_call (TdPressure MEMORY_PRESSURE_LEVEL_NONE) s"

text \<open>\<open>AbilityConstant.MemoryLevel\<close>: what the level means, and whether all tabs go.\<close>

definition level_pressure :: "int \<Rightarrow> (pressure \<times> bool) option" where
  "level_pressure level =
     (if level = 0 then Some (MEMORY_PRESSURE_LEVEL_MODERATE, False)
      else if level = 1 \<or> level = 5 then Some (MEMORY_PRESSURE_LEVEL_MODERATE, False)
      else if level = 2 \<or> level = 6 then Some (MEMORY_PRESSURE_LEVEL_CRITICAL, True)
      else None)"

definition memory_victims :: "bool \<Rightarrow> surroundings \<Rightarrow> tab_page list" where
  "memory_victims discard_all e =
     (let victims = DiscardableOldestFirst (en_arrange e) (en_rules e) (LoadedTabs (en_pages e)) True
      in if \<not> discard_all \<and> length victims > 1 then take 1 victims else victims)"

definition OnMemoryLevel :: "int \<Rightarrow> surroundings \<Rightarrow> tab_policy \<Rightarrow> tab_policy" where
  "OnMemoryLevel level e s =
     (case level_pressure level of
        None \<Rightarrow> s
      | Some (pressure, discard_all) \<Rightarrow>
          let s = (td_call (TdPressure pressure) s)\<lparr>td_pressure_timer := True\<rparr>
          in if level = 0 then s
             else if td_last_discard s \<noteq> 0 \<and> en_now e - td_last_discard s < kMemoryDiscardInterval then s
             else Discard (en_helper e) (en_now e) (memory_victims discard_all e) True (s\<lparr>td_last_discard := en_now e\<rparr>))"

text \<open>An event of the system service; \<open>level\<close> is what the dictionary holds under that name.\<close>

definition OnSystemServiceEvent :: "string \<Rightarrow> int option \<Rightarrow> surroundings \<Rightarrow> tab_policy \<Rightarrow> tab_policy" where
  "OnSystemServiceEvent event level e s =
     (if event \<noteq> ''level'' then s
      else case level of None \<Rightarrow> s | Some n \<Rightarrow> OnMemoryLevel n e s)"

section \<open>The oldest go first\<close>

text \<open>The law of a sort, for any that \<open>std::sort\<close> may be.\<close>

locale oldest_first =
  fixes arrange :: "tab_page list \<Rightarrow> tab_page list"
  assumes arranged_mset: "mset (arrange ps) = mset ps"
    and arranged_sorted: "sorted (map pg_changed (arrange ps))"
begin

lemma arranged_set: "set (arrange ps) = set ps"
  by (metis arranged_mset set_mset_mset)

lemma arranged_length: "length (arrange ps) = length ps"
  by (metis arranged_mset size_mset)

lemma arranged_distinct: "distinct ps \<Longrightarrow> distinct (arrange ps)"
  by (metis arranged_mset mset_eq_imp_distinct_iff)

lemma arranged_front: "p \<in> set (take k (arrange ps)) \<Longrightarrow> q \<in> set (drop k (arrange ps)) \<Longrightarrow> pg_changed p \<le> pg_changed q"
proof -
  assume p: "p \<in> set (take k (arrange ps))" and q: "q \<in> set (drop k (arrange ps))"
  have "sorted (map pg_changed (take k (arrange ps)) @ map pg_changed (drop k (arrange ps)))"
    using arranged_sorted [of ps] by (simp flip: map_append)
  with p q show ?thesis by (auto simp: sorted_append)
qed

end

definition arranges :: "(tab_page list \<Rightarrow> tab_page list) \<Rightarrow> bool" where
  "arranges f \<longleftrightarrow> (\<forall>ps. mset (f ps) = mset ps \<and> sorted (map pg_changed (f ps)))"

lemma arranges_sort_key: "arranges (sort_key pg_changed)"
  by (simp add: arranges_def)

interpretation stable: oldest_first "sort_key pg_changed"
  by unfold_locales simp_all

lemma arranges_locale: "arranges f \<Longrightarrow> oldest_first f"
  by unfold_locales (simp_all add: arranges_def)

section \<open>Which tabs go\<close>

lemma pick_victims_snoc:
  "pick_victims n now h (ps @ [p]) =
     (if length (pick_victims n now h ps) < n \<or> now - pg_changed p \<ge> h then pick_victims n now h ps @ [p] else pick_victims n now h ps)"
  by (simp add: pick_victims_def)

text \<open>On sorted candidates the loop takes a prefix: as many as are over the limit, and all that are hidden too long.\<close>

lemma pick_victims_prefix:
  "sorted (map pg_changed ps) \<Longrightarrow>
   pick_victims n now h ps = take (max n (length (filter (\<lambda>p. now - pg_changed p \<ge> h) ps))) ps"
proof (induction ps rule: rev_induct)
  case Nil
  then show ?case by (simp add: pick_victims_def)
next
  case (snoc p ps)
  let ?old = "\<lambda>p. now - pg_changed p \<ge> h"
  let ?m = "length (filter ?old ps)"
  have IH: "pick_victims n now h ps = take (max n ?m) ps" using snoc by (simp add: sorted_append)
  show ?case
  proof (cases "?old p")
    case True
    have "?old q" if "q \<in> set ps" for q using snoc.prems that True by (force simp: sorted_append)
    then have "filter ?old ps = ps" by (simp add: filter_id_conv)
    with True IH show ?thesis by (simp add: pick_victims_snoc)
  next
    case False
    have m: "?m \<le> length ps" by (rule length_filter_le)
    with False IH show ?thesis using order_trans [OF _ m, of n] by (cases "length ps < n") (auto simp: pick_victims_snoc min_def max_def)
  qed
qed

text \<open>The candidates of \<open>Enforce\<close>.\<close>

definition candidates_of :: "surroundings \<Rightarrow> tab_page list" where
  "candidates_of e = DiscardableOldestFirst (en_arrange e) (en_rules e) (LoadedTabs (en_pages e)) False"

lemma discardable_sorted: "arranges arrange \<Longrightarrow> sorted (map pg_changed (DiscardableOldestFirst arrange rules tabs urgent))"
  using oldest_first.arranged_sorted [OF arranges_locale] by (simp add: DiscardableOldestFirst_def)

lemma discardable_set:
  "arranges arrange \<Longrightarrow> set (DiscardableOldestFirst arrange rules tabs urgent) = (if rules then {p \<in> set tabs. can_discard urgent p} else {})"
  using oldest_first.arranged_set [OF arranges_locale] by (simp add: DiscardableOldestFirst_def)

lemma discardable_distinct:
  "arranges arrange \<Longrightarrow> distinct tabs \<Longrightarrow> distinct (DiscardableOldestFirst arrange rules tabs urgent)"
  using oldest_first.arranged_distinct [OF arranges_locale] by (simp add: DiscardableOldestFirst_def)

lemma discardable_front:
  "arranges arrange \<Longrightarrow> p \<in> set (take k (DiscardableOldestFirst arrange rules tabs urgent)) \<Longrightarrow>
   q \<in> set (drop k (DiscardableOldestFirst arrange rules tabs urgent)) \<Longrightarrow> pg_changed p \<le> pg_changed q"
  using oldest_first.arranged_front [OF arranges_locale, of arrange p k] by (auto simp: DiscardableOldestFirst_def split: if_splits)

definition too_long :: "surroundings \<Rightarrow> tab_policy \<Rightarrow> tab_page \<Rightarrow> bool" where
  "too_long e s p \<longleftrightarrow> en_now e - pg_changed p \<ge> max_hidden_time (td_limits s)"

definition victim_count :: "surroundings \<Rightarrow> tab_policy \<Rightarrow> nat" where
  "victim_count e s = max (over_limit s (LoadedTabs (en_pages e))) (length (filter (too_long e s) (candidates_of e)))"

lemma enforce_prefix:
  "arranges (en_arrange e) \<Longrightarrow> enforce_victims e s = take (victim_count e s) (candidates_of e)"
  using pick_victims_prefix [OF discardable_sorted]
  by (simp add: enforce_victims_def candidates_of_def victim_count_def too_long_def [abs_def] Let_def)

text \<open>In a sorted list, what is left behind the old ones is not old.\<close>

lemma kept_not_old:
  assumes "sorted (map pg_changed ps)" and "length (filter (\<lambda>p. now - pg_changed p \<ge> h) ps) \<le> k" and "q \<in> set (drop k ps)"
  shows "now - pg_changed q < h"
proof (rule ccontr)
  let ?old = "\<lambda>p. now - pg_changed p \<ge> h"
  assume old: "\<not> now - pg_changed q < h"
  have "?old p" if "p \<in> set (take k ps)" for p
  proof -
    have "sorted (map pg_changed (take k ps) @ map pg_changed (drop k ps))" using assms(1) by (simp flip: map_append)
    with that assms(3) have "pg_changed p \<le> pg_changed q" by (auto simp: sorted_append)
    with old show ?thesis by simp
  qed
  then have "filter ?old (take k ps) = take k ps" by (simp add: filter_id_conv)
  moreover have "filter ?old (drop k ps) \<noteq> []" using assms(3) old by (force simp: filter_empty_conv not_less)
  ultimately have "length (filter ?old ps) > length (take k ps)"
    by (subst append_take_drop_id [of k ps, symmetric], subst filter_append) simp
  moreover have "k < length ps" using assms(3) by (cases "k < length ps") auto
  ultimately show False using assms(2) by simp
qed

section \<open>Over time\<close>

datatype tab_event =
    TeChange
  | TeEnforce surroundings
  | TeService string "int option" surroundings
  | TeRelease
  | TeAttach
  | TeDetach

fun td_step :: "tab_policy \<Rightarrow> tab_event \<Rightarrow> tab_policy" where
  "td_step s TeChange = ScheduleEnforce s"
| "td_step s (TeEnforce e) = Enforce e s"
| "td_step s (TeService event level e) = OnSystemServiceEvent event level e s"
| "td_step s TeRelease = ReleaseMemoryPressure (s\<lparr>td_pressure_timer := False\<rparr>)"
| "td_step s TeAttach = Tabs_OnPassedToGraph s"
| "td_step s TeDetach = Tabs_OnTakenFromGraph s"

text \<open>A timer fires while it runs, and the clock does not go back.\<close>

fun td_ok :: "tab_policy \<Rightarrow> tab_event \<Rightarrow> bool" where
  "td_ok s (TeEnforce e) = (td_enforce_timer s \<or> td_hidden_timer s)"
| "td_ok s (TeService event level e) = (0 < en_now e \<and> td_last_discard s \<le> en_now e)"
| "td_ok s TeRelease = td_pressure_timer s"
| "td_ok s _ = True"

fun memory_time :: "discard_call \<Rightarrow> int list" where
  "memory_time (TdDiscard now ids urgent) = (if urgent then [now] else [])"
| "memory_time _ = []"

text \<open>When tabs were discarded for memory.\<close>

definition memory_times :: "tab_policy \<Rightarrow> int list" where
  "memory_times s = concat (map memory_time (td_log s))"

definition apart :: "int list \<Rightarrow> bool" where
  "apart = successively (\<lambda>a b. b - a \<ge> kMemoryDiscardInterval)"

definition td_inv :: "tab_policy \<Rightarrow> bool" where
  "td_inv s \<longleftrightarrow> apart (memory_times s) \<and> (memory_times s \<noteq> [] \<longrightarrow> td_last_discard s \<noteq> 0 \<and> last (memory_times s) \<le> td_last_discard s)"

lemma memory_call [simp]: "memory_times (td_call c s) = memory_times s @ memory_time c" "td_last_discard (td_call c s) = td_last_discard s"
  by (simp_all add: memory_times_def td_call_def)

lemma memory_upd [simp]:
  "memory_times (s\<lparr>td_last_discard := n\<rparr>) = memory_times s" "memory_times (s\<lparr>td_enforce_timer := b1\<rparr>) = memory_times s"
  "memory_times (s\<lparr>td_pressure_timer := b2\<rparr>) = memory_times s" "memory_times (s\<lparr>td_hidden_timer := b3\<rparr>) = memory_times s"
  "memory_times (s\<lparr>td_observing := b4\<rparr>) = memory_times s"
  by (simp_all add: memory_times_def)

lemma OnMemoryLevel_inv:
  assumes inv: "td_inv s" and now: "0 < en_now e" "td_last_discard s \<le> en_now e"
  shows "td_inv (OnMemoryLevel level e s)"
proof (cases "level_pressure level")
  case (Some p)
  obtain pressure discard_all where p: "p = (pressure, discard_all)" by force
  let ?s = "(td_call (TdPressure pressure) s)\<lparr>td_pressure_timer := True\<rparr>"
  have s: "memory_times ?s = memory_times s" "td_last_discard ?s = td_last_discard s" by simp_all
  have gap: "apart (memory_times s @ [en_now e])"
    if "\<not> (td_last_discard s \<noteq> 0 \<and> en_now e - td_last_discard s < kMemoryDiscardInterval)"
    using inv that by (cases "memory_times s = []") (auto simp: td_inv_def apart_def successively_append_iff)
  show ?thesis
  proof (cases "level = 0 \<or> (td_last_discard s \<noteq> 0 \<and> en_now e - td_last_discard s < kMemoryDiscardInterval)")
    case True
    then have "OnMemoryLevel level e s = ?s" using Some p by (auto simp: OnMemoryLevel_def Let_def)
    with inv show ?thesis by (simp add: td_inv_def)
  next
    case False
    with gap have "apart (memory_times s @ [en_now e])" by simp
    moreover have "OnMemoryLevel level e s =
        Discard (en_helper e) (en_now e) (memory_victims discard_all e) True (?s\<lparr>td_last_discard := en_now e\<rparr>)"
      using Some p False by (auto simp: OnMemoryLevel_def Let_def)
    ultimately show ?thesis using inv now by (auto simp: Discard_def td_inv_def)
  qed
qed (use inv in \<open>simp add: OnMemoryLevel_def\<close>)

lemma td_inv_step: "td_inv s \<Longrightarrow> td_ok s e \<Longrightarrow> td_inv (td_step s e)"
proof (cases e)
  case (TeEnforce en)
  assume "td_inv s"
  moreover have "memory_times (Enforce en s) = memory_times s" "td_last_discard (Enforce en s) = td_last_discard s"
    by (simp_all add: Enforce_def Let_def Discard_def)
  ultimately show ?thesis using TeEnforce by (simp add: td_inv_def)
next
  case (TeService event level en)
  assume "td_inv s" "td_ok s e"
  then show ?thesis using TeService OnMemoryLevel_inv [of s en] by (cases level) (auto simp: OnSystemServiceEvent_def)
qed (simp_all add: td_inv_def ScheduleEnforce_def ReleaseMemoryPressure_def Tabs_OnPassedToGraph_def Tabs_OnTakenFromGraph_def)

interpretation tab_policy: machine td_step td_ok td_inv
  by unfold_locales (rule td_inv_step)

end
