(* ===== verification/Tab_Properties.thy ===== *)
theory Tab_Properties
  imports Tab_Discarding
begin

text \<open>The properties of the policy that discards tabs.\<close>

section \<open>Sample pages\<close>

definition sample_page :: "nat \<Rightarrow> int \<Rightarrow> tab_page" where
  "sample_page i t =
     \<lparr>pg_id = i, pg_tab = True, pg_main_frame = True, pg_discarded = None, pg_contents = True, pg_needs_reload = False,
      pg_empty_url = False, pg_visible = (i = 0), pg_changed = t, pg_proactive = True, pg_urgent = True\<rparr>"

text \<open>A phone with seven tabs; the first is shown.\<close>

definition phone_now :: "int \<Rightarrow> surroundings" where
  "phone_now t =
     \<lparr>en_arrange = sort_key pg_changed, en_rules = True, en_helper = True, en_now = t,
      en_pages = [sample_page 0 900, sample_page 1 800, sample_page 2 300, sample_page 3 700, sample_page 4 200, sample_page 5 600, sample_page 6 500]\<rparr>"

definition phone_policy :: tab_policy where
  "phone_policy = OhosTabDiscardingPolicy (LimitsForThisDevice True)"

definition tab_events :: "tab_event list" where
  "tab_events =
     [TeAttach, TeChange, TeEnforce (phone_now 1000), TeService ''level'' (Some 1) (phone_now 2000),
      TeService ''level'' (Some 2) (phone_now 3000), TeService ''level'' (Some 6) (phone_now 20000000), TeRelease]"

definition tabs_after :: tab_policy where
  "tabs_after = foldl td_step phone_policy tab_events"

lemma tab_run: "guarded_run td_step td_ok phone_policy tab_events"
  by code_simp

lemma tabs_log: "td_log tabs_after =
  [TdDiscard 1000 [4, 2] False, TdPressure MEMORY_PRESSURE_LEVEL_MODERATE, TdDiscard 2000 [4] True,
   TdPressure MEMORY_PRESSURE_LEVEL_CRITICAL, TdPressure MEMORY_PRESSURE_LEVEL_CRITICAL,
   TdDiscard 20000000 [4, 2, 6, 5, 3, 1] True, TdPressure MEMORY_PRESSURE_LEVEL_NONE]"
  by code_simp

section \<open>Properties\<close>

text \<open>C21: A pass of the policy discards the least recently seen tabs, and enough of them. Whatever order the
  sort gives to tabs of the same time, the victims are loaded, hidden tabs that Chromium lets
  go, none twice and none seen later than one that may go and stays; when it is over the number of
  loaded tabs is within the limit, or none is left that may go; and no tab that may go
  has been hidden too long.\<close>

theorem tabs_go_oldest_first:
  fixes e :: surroundings and s :: tab_policy
  assumes "arranges (en_arrange e)" and "distinct (en_pages e)"
  defines "loaded \<equiv> LoadedTabs (en_pages e)"
    and "candidates \<equiv> DiscardableOldestFirst (en_arrange e) (en_rules e) (LoadedTabs (en_pages e)) False"
    and "victims \<equiv> enforce_victims e s"
  shows "td_log (Enforce e s) =
      td_log s @ (if victims = [] \<or> \<not> en_helper e then [] else [TdDiscard (en_now e) (map pg_id victims) False]) \<and>
    distinct victims \<and>
    (\<forall>p \<in> set victims. p \<in> set loaded \<and> \<not> pg_visible p \<and> pg_proactive p) \<and>
    (\<forall>p \<in> set victims. \<forall>q \<in> set candidates - set victims. pg_changed p \<le> pg_changed q) \<and>
    (length loaded - length victims \<le> max_loaded_tabs (td_limits s) \<or> set victims = set candidates) \<and>
    (\<forall>q \<in> set candidates - set victims. en_now e - pg_changed q < max_hidden_time (td_limits s))"
proof -
  let ?k = "victim_count e s"
  have c: "candidates = candidates_of e" by (simp add: candidates_def candidates_of_def)
  have v: "victims = take ?k candidates" unfolding victims_def c by (rule enforce_prefix [OF assms(1)])
  have "distinct loaded" using assms(2) by (simp add: loaded_def LoadedTabs_def)
  then have d: "distinct candidates" unfolding candidates_def loaded_def by (rule discardable_distinct [OF assms(1)])
  have rest: "set candidates - set victims \<subseteq> set (drop ?k candidates)"
    unfolding v by (subst append_take_drop_id [of ?k candidates, symmetric], subst set_append) auto
  have sub: "p \<in> set loaded \<and> \<not> pg_visible p \<and> pg_proactive p" if "p \<in> set candidates" for p
    using that discardable_set [OF assms(1), of "en_rules e" loaded False]
    by (auto simp: candidates_def loaded_def can_discard_def split: if_splits)
  have old: "pg_changed p \<le> pg_changed q" if "p \<in> set victims" "q \<in> set candidates - set victims" for p q
    using that rest discardable_front [OF assms(1)] unfolding v candidates_def by blast
  have "sorted (map pg_changed candidates)" unfolding candidates_def by (rule discardable_sorted [OF assms(1)])
  moreover have "length (filter (\<lambda>p. en_now e - pg_changed p \<ge> max_hidden_time (td_limits s)) candidates) \<le> ?k"
    by (simp add: c victim_count_def too_long_def [abs_def])
  ultimately have kept: "en_now e - pg_changed q < max_hidden_time (td_limits s)" if "q \<in> set candidates - set victims" for q
    using kept_not_old that rest by blast
  have enough: "length loaded - length victims \<le> max_loaded_tabs (td_limits s) \<or> set victims = set candidates"
  proof (cases "?k \<le> length candidates")
    case True
    then have "over_limit s loaded \<le> length victims" by (simp add: v victim_count_def loaded_def)
    then show ?thesis by (auto simp: over_limit_def split: if_splits)
  qed (simp add: v)
  have log: "td_log (Enforce e s) =
      td_log s @ (if victims = [] \<or> \<not> en_helper e then [] else [TdDiscard (en_now e) (map pg_id victims) False])"
    by (simp add: Enforce_def victims_def Let_def Discard_def td_call_def enforce_victims_def over_limit_def)
  from log sub old kept enough d show ?thesis by (auto simp: v dest: in_set_takeD)
qed

lemma tabs_go_oldest_first_witness:
  "td_log (Enforce (phone_now 1000) phone_policy) = [TdDiscard 1000 (map pg_id (enforce_victims (phone_now 1000) phone_policy)) False]"
proof -
  have "arranges (en_arrange (phone_now 1000))" by (simp add: phone_now_def arranges_sort_key)
  moreover have "distinct (en_pages (phone_now 1000))" by (simp add: phone_now_def sample_page_def)
  moreover have "enforce_victims (phone_now 1000) phone_policy \<noteq> []" "en_helper (phone_now 1000)" "td_log phone_policy = []"
    "en_now (phone_now 1000) = 1000" by code_simp+
  ultimately show ?thesis using tabs_go_oldest_first [of "phone_now 1000" phone_policy] by simp
qed

text \<open>C25: Tabs are discarded for memory at most once in ten seconds, whatever the system reports. In every run
  the times of the urgent discards are at least \<open>kMemoryDiscardInterval\<close> apart; a low level
  takes one tab at most, the least recently seen, a critical one all that may go, and a moderate one
  none.\<close>

theorem memory_discards_are_spaced:
  assumes "guarded_run td_step td_ok (OhosTabDiscardingPolicy l) es" and "arranges (en_arrange e)"
  defines "s \<equiv> foldl td_step (OhosTabDiscardingPolicy l) es"
  shows "apart (memory_times s) \<and>
    memory_times (OnMemoryLevel 0 e s) = memory_times s \<and>
    length (memory_victims False e) \<le> 1 \<and>
    (\<forall>p \<in> set (memory_victims False e). \<forall>q \<in> set (memory_victims True e). pg_changed p \<le> pg_changed q) \<and>
    set (memory_victims True e) = (if en_rules e then {p \<in> set (LoadedTabs (en_pages e)). can_discard True p} else {})"
proof -
  have "td_inv (OhosTabDiscardingPolicy l)"
    by (simp add: td_inv_def OhosTabDiscardingPolicy_def memory_times_def apart_def)
  then have "td_inv s" unfolding s_def by (rule tab_policy.inv_run [OF _ assms(1)])
  moreover have "memory_times (OnMemoryLevel 0 e s) = memory_times s"
    by (simp add: OnMemoryLevel_def level_pressure_def)
  moreover have "length (memory_victims False e) \<le> 1" by (simp add: memory_victims_def Let_def)
  moreover have "pg_changed p \<le> pg_changed q" if "p \<in> set (memory_victims False e)" "q \<in> set (memory_victims True e)" for p q
    using that discardable_sorted [OF assms(2), of "en_rules e" "LoadedTabs (en_pages e)" True]
    by (cases "DiscardableOldestFirst (en_arrange e) (en_rules e) (LoadedTabs (en_pages e)) True")
      (auto simp: memory_victims_def Let_def split: if_splits)
  moreover have "set (memory_victims True e) = (if en_rules e then {p \<in> set (LoadedTabs (en_pages e)). can_discard True p} else {})"
    using discardable_set [OF assms(2)] by (simp add: memory_victims_def)
  ultimately show ?thesis by (simp add: td_inv_def)
qed

lemma memory_discards_are_spaced_witness: "apart [2000, 20000000] \<and> length (memory_victims False (phone_now 1000)) \<le> 1"
proof -
  have "arranges (en_arrange (phone_now 1000))" by (simp add: phone_now_def arranges_sort_key)
  moreover have "memory_times tabs_after = [2000, 20000000]" by code_simp
  ultimately show ?thesis
    using memory_discards_are_spaced [OF tab_run [unfolded phone_policy_def], folded phone_policy_def, folded tabs_after_def, of "phone_now 1000"]
    by simp
qed

end
