(* ===== verification/Background_Tasks.thy ===== *)
theory Background_Tasks
  imports Prelude
begin

text \<open>
  \<open>background_task_policy.cc\<close>: when the browser asks the system to go on running in the background,
  so that sound goes on while no page is shown. The graph reports pages; the policy counts. The
  render frames, their \<open>WebContents\<close> and what those answer are the environment. The policy runs
  on the UI thread, so what is posted there is called.
\<close>

section \<open>State\<close>

text \<open>An \<open>AudioContextId\<close>: a pointer to a render frame, which may be null, and a number.\<close>

type_synonym audio_context = "nat option \<times> int"

record bg_page =
  bp_visible :: bool
  bp_playing :: bool
  bp_audible :: bool
  bp_contents :: "nat option"

text \<open>
  The switch for web audio, the contents of a frame (none, when it is not found), and whether contents agree to a background
  task. The order in which a set of pointers is visited is that of the list.
\<close>

record bg_world =
  bw_switch :: bool
  bw_contents :: "nat \<Rightarrow> nat option"
  bw_agrees :: "nat \<Rightarrow> bool"

record bg_policy =
  bg_observing :: bool
  bg_requested :: bool
  bg_visible :: int
  bg_playing :: int
  bg_audible :: int
  bg_players :: "audio_context list"
  bg_requests :: "bool list"

datatype task_reason = NEED_BG_TASK | NO_NEED_BG_TASK | NO_CHANGE_BG_TASK

definition BackgroundTaskPolicy :: bg_policy where
  "BackgroundTaskPolicy =
     \<lparr>bg_observing = False, bg_requested = False, bg_visible = 0, bg_playing = 0, bg_audible = 0, bg_players = [], bg_requests = []\<rparr>"

text \<open>\<open>RequestBackgroundRunning\<close> of the system.\<close>

definition MaybeRequestBackgroundRunning :: "bool \<Rightarrow> bg_policy \<Rightarrow> bg_policy" where
  "MaybeRequestBackgroundRunning running s = s\<lparr>bg_requests := bg_requests s @ [running]\<rparr>"

section \<open>Web audio\<close>

text \<open>The loop over the players ends at the first whose contents agree.\<close>

fun players_agree :: "bg_world \<Rightarrow> audio_context list \<Rightarrow> bool" where
  "players_agree w [] = False"
| "players_agree w ((frame, i) # ps) =
     (case frame of
        None \<Rightarrow> players_agree w ps
      | Some f \<Rightarrow>
          (case bw_contents w f of
             None \<Rightarrow> players_agree w ps
           | Some c \<Rightarrow> if bw_agrees w c then True else players_agree w ps))"

definition GetWebAudioStartBackgroundTaskOnUIThread :: "bg_world \<Rightarrow> bg_policy \<Rightarrow> bool" where
  "GetWebAudioStartBackgroundTaskOnUIThread w s = (if bg_players s = [] then True else players_agree w (bg_players s))"

definition IsWebAudioRequestBackgroundRunning :: "bg_world \<Rightarrow> bg_policy \<Rightarrow> bool" where
  "IsWebAudioRequestBackgroundRunning w s =
     (if \<not> bw_switch w then True
      else if nat (bg_audible s) \<noteq> length (bg_players s) then True
      else GetWebAudioStartBackgroundTaskOnUIThread w s)"

text \<open>
  The loop that drops the players of a page. At a null frame it goes on without moving its
  iterator, so it does not return: \<open>None\<close>.
\<close>

partial_function (option) drop_players :: "bg_world \<Rightarrow> nat option \<Rightarrow> audio_context list \<Rightarrow> audio_context list \<Rightarrow> audio_context list option" where
  "drop_players w page kept rest =
     (case rest of
        [] \<Rightarrow> Some kept
      | (frame, i) # ps \<Rightarrow>
          (case frame of
             None \<Rightarrow> drop_players w page kept rest
           | Some f \<Rightarrow>
               if bw_contents w f = page then drop_players w page kept ps
               else drop_players w page (kept @ [(frame, i)]) ps))"

definition ProcessAudioContextPlayersOnUIThread :: "bg_world \<Rightarrow> bg_page option \<Rightarrow> bg_policy \<Rightarrow> bg_policy option" where
  "ProcessAudioContextPlayersOnUIThread w page s =
     (case page of
        None \<Rightarrow> Some s
      | Some p \<Rightarrow>
          if bg_audible s = 0 then Some (s\<lparr>bg_players := []\<rparr>)
          else if bg_players s = [] then Some s
          else map_option (\<lambda>ps. s\<lparr>bg_players := ps\<rparr>) (drop_players w (bp_contents p) [] (bg_players s)))"

definition ProcessAudioContextPlayers :: "bg_world \<Rightarrow> bg_page option \<Rightarrow> bg_policy \<Rightarrow> bg_policy option" where
  "ProcessAudioContextPlayers w page s =
     (if \<not> bw_switch w then Some s
      else case page of None \<Rightarrow> Some s | Some p \<Rightarrow> ProcessAudioContextPlayersOnUIThread w (Some p) s)"

definition OnAudioContextPlaybackStarted :: "audio_context \<Rightarrow> bg_policy \<Rightarrow> bg_policy" where
  "OnAudioContextPlaybackStarted x s =
     (if x \<in> set (bg_players s) then s else s\<lparr>bg_players := bg_players s @ [x]\<rparr>)"

definition OnAudioContextPlaybackStopped :: "audio_context \<Rightarrow> bg_policy \<Rightarrow> bg_policy" where
  "OnAudioContextPlaybackStopped x s = s\<lparr>bg_players := filter (\<lambda>y. y \<noteq> x) (bg_players s)\<rparr>"

section \<open>Pages\<close>

definition change_reason :: "bg_world \<Rightarrow> bg_policy \<Rightarrow> task_reason" where
  "change_reason w s =
     (let reason =
        (if bg_requested s \<and> (bg_visible s > 0 \<or> (bg_playing s = 0 \<and> bg_audible s = 0)) then NO_NEED_BG_TASK
         else if \<not> bg_requested s \<and> bg_visible s = 0 \<and> (bg_playing s > 0 \<or> bg_audible s > 0) then NEED_BG_TASK
         else NO_CHANGE_BG_TASK);
        reason = (if reason = NEED_BG_TASK \<and> \<not> IsWebAudioRequestBackgroundRunning w s then NO_CHANGE_BG_TASK else reason)
      in if bg_requested s \<and> bg_visible s = 0 \<and> length (bg_players s) > 0 \<and> \<not> IsWebAudioRequestBackgroundRunning w s
         then NO_NEED_BG_TASK else reason)"

definition MaybeChangeBackgroundTask :: "bg_world \<Rightarrow> bg_policy \<Rightarrow> bg_policy" where
  "MaybeChangeBackgroundTask w s =
     (let reason = change_reason w s
      in if reason = NO_CHANGE_BG_TASK then s
         else let need_request = (reason = NEED_BG_TASK)
              in (MaybeRequestBackgroundRunning need_request s)\<lparr>bg_requested := need_request\<rparr>)"

definition clamp :: "int \<Rightarrow> int" where
  "clamp n = (if n < 0 then 0 else n)"

text \<open>A graph, and a page of it, may be a null pointer.\<close>

definition Bg_OnPassedToGraph :: "unit option \<Rightarrow> bg_policy \<Rightarrow> bg_policy" where
  "Bg_OnPassedToGraph graph s = (case graph of None \<Rightarrow> s | Some _ \<Rightarrow> s\<lparr>bg_observing := True\<rparr>)"

definition Bg_OnTakenFromGraph :: "unit option \<Rightarrow> bg_policy \<Rightarrow> bg_policy" where
  "Bg_OnTakenFromGraph graph s = (case graph of None \<Rightarrow> s | Some _ \<Rightarrow> s\<lparr>bg_observing := False\<rparr>)"

definition Bg_OnPageNodeAdded :: "bg_world \<Rightarrow> bg_page option \<Rightarrow> bg_policy \<Rightarrow> bg_policy" where
  "Bg_OnPageNodeAdded w page s =
     (case page of
        None \<Rightarrow> s
      | Some _ \<Rightarrow> MaybeChangeBackgroundTask w (s\<lparr>bg_visible := bg_visible s + 1\<rparr>))"

definition OnBeforePageNodeRemoved :: "bg_page option \<Rightarrow> bg_policy \<Rightarrow> bg_policy" where
  "OnBeforePageNodeRemoved page s = s"

definition Bg_OnIsVisibleChanged :: "bg_world \<Rightarrow> bg_page option \<Rightarrow> bg_policy \<Rightarrow> bg_policy" where
  "Bg_OnIsVisibleChanged w page s =
     (case page of
        None \<Rightarrow> s
      | Some p \<Rightarrow>
          MaybeChangeBackgroundTask w (s\<lparr>bg_visible := clamp (bg_visible s + (if bp_visible p then 1 else - 1))\<rparr>))"

definition OnIsMediaPlayingChanged :: "bg_world \<Rightarrow> bg_page option \<Rightarrow> bg_policy \<Rightarrow> bg_policy" where
  "OnIsMediaPlayingChanged w page s =
     (case page of
        None \<Rightarrow> s
      | Some p \<Rightarrow>
          MaybeChangeBackgroundTask w (s\<lparr>bg_playing := clamp (bg_playing s + (if bp_playing p then 1 else - 1))\<rparr>))"

definition OnDecrementAudioNum :: "bg_world \<Rightarrow> bg_page option \<Rightarrow> bg_policy \<Rightarrow> bg_policy" where
  "OnDecrementAudioNum w page s =
     (case page of
        None \<Rightarrow> s
      | Some p \<Rightarrow>
          let s = s\<lparr>bg_playing := clamp (bg_playing s - of_bool (bp_playing p))\<rparr>;
              s = s\<lparr>bg_audible := clamp (bg_audible s - of_bool (bp_audible p))\<rparr>;
              s = (if bg_audible s = 0 then s\<lparr>bg_players := []\<rparr> else s)
          in MaybeChangeBackgroundTask w s)"

definition OnIsAudibleChanged :: "bg_world \<Rightarrow> bg_page option \<Rightarrow> bg_policy \<Rightarrow> bg_policy option" where
  "OnIsAudibleChanged w page s =
     (case page of
        None \<Rightarrow> Some s
      | Some p \<Rightarrow>
          let s = s\<lparr>bg_audible := clamp (bg_audible s + (if bp_audible p then 1 else - 1))\<rparr>;
              s = (if bg_audible s = 0 then s\<lparr>bg_players := []\<rparr> else s)
          in map_option (MaybeChangeBackgroundTask w)
               (if \<not> bp_audible p then ProcessAudioContextPlayers w (Some p) s else Some s))"

definition SetBrowserForeground :: "bg_policy \<Rightarrow> bg_policy" where
  "SetBrowserForeground s = MaybeRequestBackgroundRunning False s"

definition SetBrowserBackground :: "bg_world \<Rightarrow> bg_policy \<Rightarrow> bg_policy" where
  "SetBrowserBackground w s =
     (if bg_playing s > 0 \<or> bg_audible s > 0
      then if \<not> IsWebAudioRequestBackgroundRunning w s then s else MaybeRequestBackgroundRunning True s
      else s)"

section \<open>When the loop returns\<close>

lemma drop_players_returns:
  "None \<notin> fst ` set rest \<Longrightarrow>
   drop_players w page kept rest =
     Some (kept @ filter (\<lambda>(frame, i). bw_contents w (the frame) \<noteq> page) rest)"
proof (induction rest arbitrary: kept)
  case Nil
  then show ?case by (simp add: drop_players.simps)
next
  case (Cons x ps)
  obtain frame i where x: "x = (frame, i)" by force
  with Cons obtain f where "frame = Some f" by (cases frame) auto
  with Cons x show ?case by (subst drop_players.simps) simp
qed

text \<open>It never returns when it meets a null frame.\<close>

lemma drop_players_only_returns:
  assumes "drop_players w page kept rest = Some ps"
  shows "None \<notin> fst ` set rest"
proof (rule drop_players.raw_induct [where P = "\<lambda>w page kept rest ps. None \<notin> fst ` set rest", OF _ assms])
  fix f :: "bg_world \<Rightarrow> nat option \<Rightarrow> audio_context list \<Rightarrow> audio_context list \<Rightarrow> audio_context list option"
    and w page kept rest ps
  assume IH: "\<And>w page kept rest ps. f w page kept rest = Some ps \<Longrightarrow> None \<notin> fst ` set rest"
    and eq: "(case rest of [] \<Rightarrow> Some kept
      | (frame, i) # ps \<Rightarrow> (case frame of None \<Rightarrow> f w page kept rest
          | Some g \<Rightarrow> if bw_contents w g = page then f w page kept ps else f w page (kept @ [(frame, i)]) ps)) = Some ps"
  show "None \<notin> fst ` set rest"
  proof (cases rest)
    case (Cons x qs)
    obtain frame i where x: "x = (frame, i)" by force
    show ?thesis
    proof (cases frame)
      case None
      with eq Cons x have "f w page kept rest = Some ps" by simp
      then show ?thesis by (rule IH)
    next
      case (Some g)
      with eq Cons x have "f w page kept qs = Some ps \<or> f w page (kept @ [(frame, i)]) qs = Some ps"
        by (simp split: if_splits)
      then have "None \<notin> fst ` set qs" by (auto dest: IH)
      with Cons x Some show ?thesis by simp
    qed
  qed simp
qed

lemma drop_players_spins: "None \<in> fst ` set rest \<Longrightarrow> drop_players w page kept rest = None"
  using drop_players_only_returns [of w page kept rest] by (cases "drop_players w page kept rest") auto

end
