(* ===== verification/Background_Properties.thy ===== *)
theory Background_Properties
  imports Background_Tasks
begin

text \<open>
  Runs of the policy of \<open>Background_Tasks\<close>: what it counts, when a background task is held, and
  what goes wrong.
\<close>

section \<open>Runs\<close>

datatype bg_event =
    PassedToGraph "unit option"
  | TakenFromGraph "unit option"
  | PageAdded "bg_page option"
  | BeforePageRemoved "bg_page option"
  | VisibleChanged "bg_page option"
  | PlayingChanged "bg_page option"
  | AudioDecremented "bg_page option"
  | AudibleChanged "bg_page option"
  | PlaybackStarted audio_context
  | PlaybackStopped audio_context
  | BrowserForeground
  | BrowserBackground

fun bg_step :: "bg_world \<Rightarrow> bg_event \<Rightarrow> bg_policy \<Rightarrow> bg_policy option" where
  "bg_step w (PassedToGraph g) s = Some (Bg_OnPassedToGraph g s)"
| "bg_step w (TakenFromGraph g) s = Some (Bg_OnTakenFromGraph g s)"
| "bg_step w (PageAdded p) s = Some (Bg_OnPageNodeAdded w p s)"
| "bg_step w (BeforePageRemoved p) s = Some (OnBeforePageNodeRemoved p s)"
| "bg_step w (VisibleChanged p) s = Some (Bg_OnIsVisibleChanged w p s)"
| "bg_step w (PlayingChanged p) s = Some (OnIsMediaPlayingChanged w p s)"
| "bg_step w (AudioDecremented p) s = Some (OnDecrementAudioNum w p s)"
| "bg_step w (AudibleChanged p) s = OnIsAudibleChanged w p s"
| "bg_step w (PlaybackStarted x) s = Some (OnAudioContextPlaybackStarted x s)"
| "bg_step w (PlaybackStopped x) s = Some (OnAudioContextPlaybackStopped x s)"
| "bg_step w BrowserForeground s = Some (SetBrowserForeground s)"
| "bg_step w BrowserBackground s = Some (SetBrowserBackground w s)"

text \<open>The events with the environment of each; the run ends where an event does not return.\<close>

fun bg_run :: "(bg_world \<times> bg_event) list \<Rightarrow> bg_policy \<Rightarrow> bg_policy option" where
  "bg_run [] s = Some s"
| "bg_run ((w, e) # es) s = (case bg_step w e s of None \<Rightarrow> None | Some t \<Rightarrow> bg_run es t)"

lemma bg_run_append: "bg_run (es @ fs) s = Option.bind (bg_run es s) (bg_run fs)"
  by (induction es s rule: bg_run.induct) (auto split: option.split)

section \<open>What holds in every state\<close>

text \<open>Events that name no null frame, events of a page, and events that ask the system of their own.\<close>

fun names_a_frame :: "bg_event \<Rightarrow> bool" where
  "names_a_frame (PlaybackStarted x) = (fst x \<noteq> None)"
| "names_a_frame _ = True"

fun decides :: "bg_event \<Rightarrow> bool" where
  "decides (PageAdded p) = (p \<noteq> None)"
| "decides (VisibleChanged p) = (p \<noteq> None)"
| "decides (PlayingChanged p) = (p \<noteq> None)"
| "decides (AudioDecremented p) = (p \<noteq> None)"
| "decides (AudibleChanged p) = (p \<noteq> None)"
| "decides _ = False"

fun of_the_browser :: "bg_event \<Rightarrow> bool" where
  "of_the_browser BrowserForeground = True"
| "of_the_browser BrowserBackground = True"
| "of_the_browser _ = False"

definition unseen_sound :: "bg_policy \<Rightarrow> bool" where
  "unseen_sound s \<longleftrightarrow> bg_visible s = 0 \<and> (bg_playing s > 0 \<or> bg_audible s > 0)"

definition counted :: "bg_policy \<Rightarrow> bool" where
  "counted s \<longleftrightarrow>
     0 \<le> bg_visible s \<and> 0 \<le> bg_playing s \<and> 0 \<le> bg_audible s \<and> None \<notin> fst ` set (bg_players s)"

definition bg_inv :: "bg_policy \<Rightarrow> bool" where
  "bg_inv s \<longleftrightarrow> counted s \<and> (bg_requested s \<longrightarrow> unseen_sound s)"

text \<open>What the system was asked never repeats, and its last word is what the policy holds.\<close>

definition asked_in_turn :: "bg_policy \<Rightarrow> bool" where
  "asked_in_turn s \<longleftrightarrow>
     successively (\<noteq>) (False # bg_requests s) \<and> last (False # bg_requests s) = bg_requested s"

lemma clamp_nonneg [simp]: "0 \<le> clamp n"
  by (simp add: clamp_def)

lemma silent_players: "bg_players s = [] \<Longrightarrow> IsWebAudioRequestBackgroundRunning w s"
  by (simp add: IsWebAudioRequestBackgroundRunning_def GetWebAudioStartBackgroundTaskOnUIThread_def)

text \<open>The two tests of the policy decide one condition.\<close>

lemma change_decides:
  assumes "counted s"
  shows "change_reason w s =
     (if (unseen_sound s \<and> IsWebAudioRequestBackgroundRunning w s) = bg_requested s then NO_CHANGE_BG_TASK
      else if bg_requested s then NO_NEED_BG_TASK else NEED_BG_TASK)"
  using assms silent_players [of s w]
  by (auto simp: change_reason_def unseen_sound_def counted_def Let_def)

lemma Maybe_frame [simp]:
  "bg_visible (MaybeChangeBackgroundTask w s) = bg_visible s"
  "bg_playing (MaybeChangeBackgroundTask w s) = bg_playing s"
  "bg_audible (MaybeChangeBackgroundTask w s) = bg_audible s"
  "bg_players (MaybeChangeBackgroundTask w s) = bg_players s"
  "counted (MaybeChangeBackgroundTask w s) = counted s"
  "unseen_sound (MaybeChangeBackgroundTask w s) = unseen_sound s"
  by (simp_all add: MaybeChangeBackgroundTask_def MaybeRequestBackgroundRunning_def counted_def unseen_sound_def Let_def)

lemma web_audio_frame [simp]:
  "IsWebAudioRequestBackgroundRunning w (MaybeChangeBackgroundTask u s) = IsWebAudioRequestBackgroundRunning w s"
  by (simp add: IsWebAudioRequestBackgroundRunning_def GetWebAudioStartBackgroundTaskOnUIThread_def)

lemma Maybe_decides:
  "counted s \<Longrightarrow>
   bg_requested (MaybeChangeBackgroundTask w s) = (unseen_sound s \<and> IsWebAudioRequestBackgroundRunning w s)"
  by (auto simp: MaybeChangeBackgroundTask_def MaybeRequestBackgroundRunning_def change_decides Let_def)

lemma successively_snoc: "successively (\<noteq>) (bs @ [b]) \<longleftrightarrow> successively (\<noteq>) bs \<and> (bs = [] \<or> last bs \<noteq> b)"
  for b :: bool
  by (simp add: successively_append_iff)

lemma asked_again:
  assumes "asked_in_turn s" "b \<noteq> bg_requested s"
  shows "asked_in_turn (s\<lparr>bg_requests := bg_requests s @ [b], bg_requested := b\<rparr>)"
  using assms successively_snoc [of "False # bg_requests s" b] by (simp add: asked_in_turn_def)

lemma Maybe_asks_in_turn:
  assumes "counted s" "asked_in_turn s"
  shows "asked_in_turn (MaybeChangeBackgroundTask w s)"
  using assms asked_again [OF assms(2), of "\<not> bg_requested s"]
  by (cases "bg_requested s")
    (simp_all add: MaybeChangeBackgroundTask_def MaybeRequestBackgroundRunning_def change_decides Let_def)

section \<open>Every event keeps it\<close>

text \<open>What a handler hands to the decision: a counted state that has asked for nothing meanwhile.\<close>

definition same_requests :: "bg_policy \<Rightarrow> bg_policy \<Rightarrow> bool" where
  "same_requests s t \<longleftrightarrow> bg_requests t = bg_requests s \<and> bg_requested t = bg_requested s"

lemma process_players_returns:
  assumes "counted s"
  shows "\<exists>t. ProcessAudioContextPlayers w page s = Some t \<and> counted t \<and> same_requests s t"
  using assms
  by (cases page)
    (auto simp: ProcessAudioContextPlayers_def ProcessAudioContextPlayersOnUIThread_def same_requests_def counted_def
      drop_players_returns image_iff)

lemma decided_from:
  "counted t \<Longrightarrow> same_requests s t \<Longrightarrow>
   \<exists>u. Some (MaybeChangeBackgroundTask w t) = Some (MaybeChangeBackgroundTask w u) \<and> counted u \<and> same_requests s u"
  by blast

lemma deciding_step:
  assumes "decides e" "counted s"
  shows "\<exists>t. bg_step w e s = Some (MaybeChangeBackgroundTask w t) \<and> counted t \<and> same_requests s t"
proof (cases e)
  case (AudibleChanged p)
  with assms obtain page where p: "p = Some page" by auto
  define t where "t = s\<lparr>bg_audible := clamp (bg_audible s + (if bp_audible page then 1 else - 1))\<rparr>"
  define u where "u = (if bg_audible t = 0 then t\<lparr>bg_players := []\<rparr> else t)"
  have u: "counted u" "same_requests s u"
    using assms by (auto simp: t_def u_def counted_def same_requests_def)
  obtain v where "ProcessAudioContextPlayers w (Some page) u = Some v" "counted v" "same_requests u v"
    using process_players_returns [OF u(1)] by blast
  with u AudibleChanged p show ?thesis
    by (auto simp: OnIsAudibleChanged_def Let_def same_requests_def simp flip: t_def u_def)
next
  case (AudioDecremented p)
  with assms obtain page where p: "p = Some page" by auto
  define t where "t = s\<lparr>bg_playing := clamp (bg_playing s - of_bool (bp_playing page)),
    bg_audible := clamp (bg_audible s - of_bool (bp_audible page))\<rparr>"
  define u where "u = (if bg_audible t = 0 then t\<lparr>bg_players := []\<rparr> else t)"
  have "counted u" "same_requests s u"
    using assms by (auto simp: t_def u_def counted_def same_requests_def)
  moreover have "bg_step w e s = Some (MaybeChangeBackgroundTask w u)"
    by (simp add: AudioDecremented p OnDecrementAudioNum_def Let_def t_def u_def)
  ultimately show ?thesis by blast
next
  case (PageAdded p)
  with assms show ?thesis
    by (auto simp: Bg_OnPageNodeAdded_def intro!: decided_from [unfolded option.inject])
      (auto simp: counted_def same_requests_def)
next
  case (VisibleChanged p)
  with assms show ?thesis
    by (auto simp: Bg_OnIsVisibleChanged_def simp del: if_split intro!: decided_from [unfolded option.inject])
      (auto simp: counted_def same_requests_def)
next
  case (PlayingChanged p)
  with assms show ?thesis
    by (auto simp: OnIsMediaPlayingChanged_def simp del: if_split intro!: decided_from [unfolded option.inject])
      (auto simp: counted_def same_requests_def)
qed (use assms in auto)

lemma other_step:
  assumes "\<not> decides e" "names_a_frame e" "counted s"
  shows "\<exists>t. bg_step w e s = Some t \<and> counted t \<and> unseen_sound t = unseen_sound s \<and> bg_requested t = bg_requested s \<and>
     (\<not> of_the_browser e \<longrightarrow> bg_requests t = bg_requests s)"
  using assms
  by (cases e)
    (auto simp: Bg_OnPassedToGraph_def Bg_OnTakenFromGraph_def Bg_OnPageNodeAdded_def Bg_OnIsVisibleChanged_def
      OnIsMediaPlayingChanged_def OnDecrementAudioNum_def OnIsAudibleChanged_def OnBeforePageNodeRemoved_def
      OnAudioContextPlaybackStarted_def OnAudioContextPlaybackStopped_def SetBrowserForeground_def
      SetBrowserBackground_def MaybeRequestBackgroundRunning_def counted_def unseen_sound_def split: option.split)

text \<open>One step, of either kind.\<close>

lemma bg_step_inv:
  assumes inv: "bg_inv s" and frame: "names_a_frame e"
  shows "\<exists>t. bg_step w e s = Some t \<and> bg_inv t \<and>
     (decides e \<longrightarrow> bg_requested t = (unseen_sound t \<and> IsWebAudioRequestBackgroundRunning w t)) \<and>
     (\<not> of_the_browser e \<longrightarrow> asked_in_turn s \<longrightarrow> asked_in_turn t)"
proof (cases "decides e")
  case True
  then obtain t where t: "bg_step w e s = Some (MaybeChangeBackgroundTask w t)" "counted t" "same_requests s t"
    using deciding_step inv unfolding bg_inv_def by blast
  then have "asked_in_turn s \<Longrightarrow> asked_in_turn (MaybeChangeBackgroundTask w t)"
    by (intro Maybe_asks_in_turn) (auto simp: asked_in_turn_def same_requests_def)
  with t show ?thesis by (auto simp: bg_inv_def Maybe_decides)
next
  case False
  then obtain t where "bg_step w e s = Some t" "counted t" "unseen_sound t = unseen_sound s"
      "bg_requested t = bg_requested s" "\<not> of_the_browser e \<longrightarrow> bg_requests t = bg_requests s"
    using other_step frame inv unfolding bg_inv_def by blast
  with inv False show ?thesis by (auto simp: bg_inv_def asked_in_turn_def)
qed

lemma bg_run_inv:
  "bg_inv s \<Longrightarrow> list_all (names_a_frame \<circ> snd) es \<Longrightarrow>
   \<exists>t. bg_run es s = Some t \<and> bg_inv t \<and>
     (es \<noteq> [] \<longrightarrow> decides (snd (last es)) \<longrightarrow>
        bg_requested t = (unseen_sound t \<and> IsWebAudioRequestBackgroundRunning (fst (last es)) t)) \<and>
     (list_all (Not \<circ> of_the_browser \<circ> snd) es \<longrightarrow> asked_in_turn s \<longrightarrow> asked_in_turn t)"
proof (induction es s rule: bg_run.induct)
  case (2 w e es s)
  from 2(2,3) obtain t where t: "bg_step w e s = Some t" "bg_inv t"
      "decides e \<longrightarrow> bg_requested t = (unseen_sound t \<and> IsWebAudioRequestBackgroundRunning w t)"
      "\<not> of_the_browser e \<longrightarrow> asked_in_turn s \<longrightarrow> asked_in_turn t"
    using bg_step_inv [of s e w] by auto
  with 2(1) [OF t(1,2)] 2(3) show ?case by (cases es) auto
qed auto

lemma new_policy_inv: "bg_inv BackgroundTaskPolicy" "asked_in_turn BackgroundTaskPolicy"
  by (simp_all add: BackgroundTaskPolicy_def bg_inv_def counted_def asked_in_turn_def)


section \<open>Properties\<close>


text \<open>A page plays, is hidden, and is shown again; contents 1 refuse a background task for web audio.\<close>

definition frames_of :: bg_world where
  "frames_of = \<lparr>bw_switch = True, bw_contents = (\<lambda>f. Some f), bw_agrees = (\<lambda>c. c \<noteq> 1)\<rparr>"

definition tab :: "bool \<Rightarrow> bool \<Rightarrow> bool \<Rightarrow> bg_page option" where
  "tab visible playing audible =
     Some \<lparr>bp_visible = visible, bp_playing = playing, bp_audible = audible, bp_contents = Some 1\<rparr>"

definition hiding :: "(bg_world \<times> bg_event) list" where
  "hiding = map (Pair frames_of)
     [PageAdded (tab True False False), AudibleChanged (tab True False True), PlaybackStarted (Some 1, 0),
      AudibleChanged (tab True False True), VisibleChanged (tab False False True)]"

definition hidden :: bg_policy where
  "hidden = \<lparr>bg_observing = False, bg_requested = True, bg_visible = 0, bg_playing = 0, bg_audible = 2,
     bg_players = [(Some 1, 0)], bg_requests = [True]\<rparr>"

lemma hiding_run: "bg_run hiding BackgroundTaskPolicy = Some hidden"
  by code_simp


section \<open>Departures\<close>

definition without_web_audio :: "bg_event list \<Rightarrow> (bg_world \<times> bg_event) list" where
  "without_web_audio = map (Pair (frames_of\<lparr>bw_switch := False\<rparr>))"

text \<open>Two pages are audible, one player has no frame, and a page falls silent.\<close>

definition frameless :: "(bg_world \<times> bg_event) list" where
  "frameless = map (Pair frames_of)
     [PageAdded (tab True False False), AudibleChanged (tab True False True), AudibleChanged (tab True False True),
      PlaybackStarted (None, 0)]"

definition frameless_end :: bg_policy where
  "frameless_end = \<lparr>bg_observing = False, bg_requested = False, bg_visible = 1, bg_playing = 0, bg_audible = 2,
     bg_players = [(None, 0)], bg_requests = []\<rparr>"

lemma frameless_run: "bg_run frameless BackgroundTaskPolicy = Some frameless_end"
  by code_simp

lemma frameless_spins: "OnIsAudibleChanged frames_of (tab True False False) frameless_end = None"
  by (simp add: OnIsAudibleChanged_def tab_def clamp_def frames_of_def frameless_end_def ProcessAudioContextPlayers_def
      ProcessAudioContextPlayersOnUIThread_def drop_players_spins Let_def)


end
