(* ===== verification/Ad_Lists.thy ===== *)
theory Ad_Lists
  imports Platform
begin

text \<open>
  The filter lists of the advertisement blocker (\<open>adblock.cc\<close>, \<open>engine.cc\<close>): the sources
  and the settings that make up a configuration, how a configuration is written to and
  restored from the profile, and how it is compiled into an engine. A \<open>std::set\<close> of hosts
  is a set; a \<open>double\<close> is its IEEE pattern. The engine is a separate library behind a C
  interface; it, the JSON reader and writer and \<open>base::FilePath\<close> are further fields of the
  library record.
\<close>

section \<open>What the code calls\<close>

record ad_saved =
  saved_root :: dict
  saved_sources :: "dict option list option"

record ad_info =
  info_root :: dict
  info_counts :: "dict option list option"

record ad_input =
  ai_id :: string
  ai_text :: string
  ai_bundled :: bool
  ai_strict :: bool

record ('u, 'g) ad_lib = "'u lib" +
  has_port :: "'u \<Rightarrow> bool"
  scheme_is_ws_or_wss :: "'u \<Rightarrow> bool"
  utf16_size :: "string \<Rightarrow> int"
  double_of_u64 :: "u64 \<Rightarrow> u64"
  day_passed :: "u64 \<Rightarrow> u64 \<Rightarrow> bool"
  read_saved :: "string \<Rightarrow> ad_saved option"
  write_saved :: "ad_saved \<Rightarrow> string"
  api_valid :: bool
  write_inputs :: "ad_input list \<Rightarrow> string option"
  api_compile :: "string \<Rightarrow> 'g option \<times> string option"
  read_info :: "string \<Rightarrow> ad_info option"
  write_query :: "(string \<times> string) list \<Rightarrow> string option"
  api_query :: "'g \<Rightarrow> string \<Rightarrow> string option"
  read_result :: "string \<Rightarrow> dict option"
  file_is_absolute :: "string \<Rightarrow> bool"
  file_references_parent :: "string \<Rightarrow> bool"
  file_base_name :: "string \<Rightarrow> string"
  file_dir_name :: "string \<Rightarrow> string"

definition kListMaxBytes :: nat where "kListMaxBytes = 16 * 1024 * 1024"
definition kTotalBytes :: nat where "kTotalBytes = 64 * 1024 * 1024"

definition Str :: "dict \<Rightarrow> string \<Rightarrow> string" where
  "Str v key = (case find_string v key of Some s \<Rightarrow> s | None \<Rightarrow> [])"

section \<open>URLs and hosts\<close>

definition SubscriptionUrl :: "('u, 'g) ad_lib \<Rightarrow> 'u \<Rightarrow> bool" where
  "SubscriptionUrl A u \<longleftrightarrow> url_is_valid A u \<and> scheme_is_https A u \<and> \<not> has_username A u \<and>
     \<not> has_password A u \<and> \<not> has_ref A u \<and> length (spec A u) \<le> 4096"

definition drop_last_dots :: "string \<Rightarrow> string" where
  "drop_last_dots s = rev (dropWhile (\<lambda>c. c = CHR ''.'') (rev s))"

definition Host :: "('u, 'g) ad_lib \<Rightarrow> 'u \<Rightarrow> string" where
  "Host A u = (if \<not> scheme_is_http_or_https A u then [] else drop_last_dots (host A u))"

definition NormalizeHost :: "('u, 'g) ad_lib \<Rightarrow> string \<Rightarrow> string" where
  "NormalizeHost A text =
     (if text = [] \<or> (\<exists>c \<in> set text. c \<in> {CHR ''/'', CHR 0x5C, CHR ''?'', CHR ''#'', CHR ''@'',
                                              CHR '' '', CHR 0x09, CHR 0x0D, CHR 0x0A}) then []
      else let url = gurl A (''https://'' @ text @ ''/'')
           in if has_port A url \<or> \<not> url_is_valid A url then [] else Host A url)"

section \<open>Sources\<close>

record filter_source =
  fs_id :: string
  fs_name :: string
  fs_kind :: string
  fs_url :: string
  fs_text :: string
  fs_status :: string
  fs_etag :: string
  fs_modified :: string
  fs_enabled :: bool
  fs_rules :: int
  fs_unsupported :: int
  fs_updated :: u64

definition new_source :: "string \<Rightarrow> string \<Rightarrow> string \<Rightarrow> string \<Rightarrow> filter_source" where
  "new_source i name kind url = \<lparr>fs_id = i, fs_name = name, fs_kind = kind, fs_url = url,
     fs_text = [], fs_status = ''missing'', fs_etag = [], fs_modified = [], fs_enabled = True,
     fs_rules = 0, fs_unsupported = 0, fs_updated = 0\<rparr>"

text \<open>
  The names of the built-in lists are UTF-8 bytes in the source. A dictionary is built from
  the values that are set, by their type.
\<close>

definition utf8_bytes :: "nat list \<Rightarrow> string" where
  "utf8_bytes bs = map char_of bs"

datatype ad_value = AvBool bool | AvString string | AvInt int | AvDouble u64 | AvStrings "string list"

definition dict_of :: "(string \<times> ad_value) list \<Rightarrow> dict" where
  "dict_of vs =
     \<lparr>find_int = \<lambda>k. (case map_of vs k of Some (AvInt n) \<Rightarrow> Some n | _ \<Rightarrow> None),
      find_bool = \<lambda>k. (case map_of vs k of Some (AvBool b) \<Rightarrow> Some b | _ \<Rightarrow> None),
      find_string = \<lambda>k. (case map_of vs k of Some (AvString t) \<Rightarrow> Some t | _ \<Rightarrow> None),
      find_double = \<lambda>k. (case map_of vs k of Some (AvDouble w) \<Rightarrow> Some w | _ \<Rightarrow> None),
      find_list = \<lambda>k. (case map_of vs k of Some (AvStrings ts) \<Rightarrow> Some (map Some ts) | _ \<Rightarrow> None),
      find_dict = \<lambda>_. None, has_key = \<lambda>k. map_of vs k \<noteq> None\<rparr>"

definition Source_Value :: "bool \<Rightarrow> filter_source \<Rightarrow> dict" where
  "Source_Value disk s = dict_of
     ([(''id'', AvString (fs_id s)), (''name'', AvString (fs_name s)),
       (''kind'', AvString (fs_kind s)), (''url'', AvString (fs_url s)),
       (''enabled'', AvBool (fs_enabled s)), (''status'', AvString (fs_status s)),
       (''ruleCount'', AvInt (fs_rules s)), (''unsupportedCount'', AvInt (fs_unsupported s)),
       (''updatedAt'', AvDouble (fs_updated s))] @
      (if disk then [(''text'', AvString (fs_text s)), (''etag'', AvString (fs_etag s)),
                     (''modified'', AvString (fs_modified s))] else []))"

definition find_source :: "string \<Rightarrow> filter_source list \<Rightarrow> filter_source option" where
  "find_source i ss = List.find (\<lambda>s. fs_id s = i) ss"

text \<open>A change through the pointer that \<open>Find\<close> returns: the first source with the id.\<close>

fun update_source :: "string \<Rightarrow> (filter_source \<Rightarrow> filter_source) \<Rightarrow> filter_source list \<Rightarrow> filter_source list" where
  "update_source i f [] = []"
| "update_source i f (s # ss) = (if fs_id s = i then f s # ss else s # update_source i f ss)"

section \<open>Configurations\<close>

record ad_config =
  ac_enabled :: bool
  ac_auto_update :: bool
  ac_sources :: "filter_source list"
  ac_exceptions :: "string set"
  ac_user :: string
  ac_user_rule_count :: int

definition builtin_sources :: "filter_source list" where
  "builtin_sources =
     [new_source ''easylist''
        (utf8_bytes [0xE5, 0x9F, 0xBA, 0xE7, 0xA1, 0x80, 0xE5, 0xB9, 0xBF, 0xE5, 0x91, 0x8A,
                     0xE8, 0xBF, 0x87, 0xE6, 0xBB, 0xA4, 0x20, 0xC2, 0xB7, 0x20] @ ''EasyList'')
        ''builtin'' ''https://easylist.to/easylist/easylist.txt'',
      new_source ''easylist-china''
        (utf8_bytes [0xE4, 0xB8, 0xAD, 0xE6, 0x96, 0x87, 0xE8, 0xA1, 0xA5, 0xE5, 0x85, 0x85,
                     0xE8, 0xBF, 0x87, 0xE6, 0xBB, 0xA4, 0x20, 0xC2, 0xB7, 0x20] @ ''EasyList China'')
        ''builtin'' ''https://easylist-downloads.adblockplus.org/easylistchina.txt'',
      (new_source ''easyprivacy''
        (utf8_bytes [0xE9, 0x9A, 0x90, 0xE7, 0xA7, 0x81, 0xE4, 0xBF, 0x9D, 0xE6, 0x8A, 0xA4,
                     0x20, 0xC2, 0xB7, 0x20] @ ''EasyPrivacy'')
        ''builtin'' ''https://easylist.to/easylist/easyprivacy.txt'')\<lparr>fs_enabled := False\<rparr>,
      (new_source ''brave-compat''
        (utf8_bytes [0xE5, 0x85, 0xBC, 0xE5, 0xAE, 0xB9, 0xE8, 0xA1, 0xA5, 0xE5, 0x85, 0x85,
                     0x20, 0xC2, 0xB7, 0x20] @ ''Brave '' @
         utf8_bytes [0xE9, 0x85, 0x8D, 0xE5, 0xA5, 0x97, 0xE8, 0xA7, 0x84, 0xE5, 0x88, 0x99])
        ''builtin'' [])\<lparr>fs_enabled := False\<rparr>]"

definition default_config :: ad_config where
  "default_config = \<lparr>ac_enabled = True, ac_auto_update = True, ac_sources = builtin_sources,
     ac_exceptions = {}, ac_user = [], ac_user_rule_count = 0\<rparr>"

text \<open>A set is iterated in the order of its elements.\<close>

definition Config_Value :: "bool \<Rightarrow> ad_config \<Rightarrow> ad_saved" where
  "Config_Value disk c =
     \<lparr>saved_root = dict_of
        [(''enabled'', AvBool (ac_enabled c)), (''autoUpdate'', AvBool (ac_auto_update c)),
         (''exceptions'', AvStrings (sorted_list_of_set (ac_exceptions c))),
         (''userRules'', AvString (ac_user c))],
      saved_sources = Some (map (\<lambda>s. Some (Source_Value disk s)) (ac_sources c))\<rparr>"

section \<open>Restoring\<close>

fun restore_hosts :: "('u, 'g) ad_lib \<Rightarrow> string option list \<Rightarrow> string set \<Rightarrow> string set" where
  "restore_hosts A [] hosts = hosts"
| "restore_hosts A (v # vs) hosts =
     (case v of
        None \<Rightarrow> restore_hosts A vs hosts
      | Some h \<Rightarrow>
          if card hosts \<ge> 1000 then restore_hosts A vs hosts
          else let normalized = NormalizeHost A h
               in restore_hosts A vs (if normalized \<noteq> [] then insert normalized hosts else hosts))"

text \<open>
  One entry of the saved list: a source that is not known yet is added when it may be, and
  then what was saved of it is taken over, unless its text is too large or not UTF-8.
\<close>

definition admitted_entry :: "('u, 'g) ad_lib \<Rightarrow> dict \<Rightarrow> filter_source list \<Rightarrow> filter_source list option" where
  "admitted_entry A v ss =
     (if find_source (Str v ''id'') ss \<noteq> None then Some ss
      else if length ss \<ge> 32 \<or> Str v ''id'' = [] \<or> length (Str v ''id'') > 64 then None
      else let kind = Str v ''kind''
           in if kind \<noteq> ''file'' \<and> kind \<noteq> ''subscription'' then None
              else if kind = ''subscription'' \<and> \<not> SubscriptionUrl A (gurl A (Str v ''url'')) then None
              else Some (ss @ [new_source (Str v ''id'') (Str v ''name'') kind (Str v ''url'')]))"

definition take_saved :: "dict \<Rightarrow> filter_source \<Rightarrow> filter_source" where
  "take_saved v s = s
     \<lparr>fs_enabled := (case find_bool v ''enabled'' of Some b \<Rightarrow> b | None \<Rightarrow> True),
      fs_text := (if Str v ''id'' = ''brave-compat'' then [] else Str v ''text''),
      fs_updated := (case find_double v ''updatedAt'' of Some w \<Rightarrow> w | None \<Rightarrow> 0),
      fs_etag := Str v ''etag'',
      fs_modified := Str v ''modified''\<rparr>"

definition restore_source :: "('u, 'g) ad_lib \<Rightarrow> dict \<Rightarrow> filter_source list \<Rightarrow> filter_source list" where
  "restore_source A v ss =
     (case admitted_entry A v ss of
        None \<Rightarrow> ss
      | Some ss' \<Rightarrow>
          if length (Str v ''text'') > kListMaxBytes \<or> \<not> is_utf8 A (Str v ''text'') then ss'
          else update_source (Str v ''id'') (take_saved v) ss')"

fun restore_sources :: "('u, 'g) ad_lib \<Rightarrow> dict option list \<Rightarrow> filter_source list \<Rightarrow> filter_source list" where
  "restore_sources A [] ss = ss"
| "restore_sources A (None # vs) ss = restore_sources A vs ss"
| "restore_sources A (Some v # vs) ss = restore_sources A vs (restore_source A v ss)"

definition names_brave :: "dict option \<Rightarrow> bool" where
  "names_brave v = (case v of None \<Rightarrow> False | Some d \<Rightarrow> Str d ''id'' = ''brave-compat'')"

definition restored_sources :: "('u, 'g) ad_lib \<Rightarrow> dict option list option \<Rightarrow> filter_source list" where
  "restored_sources A saved =
     (case saved of
        None \<Rightarrow> builtin_sources
      | Some vs \<Rightarrow> restore_sources A vs
          (if length vs \<ge> 32 \<and> \<not> list_ex names_brave vs
           then filter (\<lambda>s. fs_id s \<noteq> ''brave-compat'') builtin_sources
           else builtin_sources))"

text \<open>\<open>file\<close> is what the profile's file holds, if it can be opened.\<close>

definition Restore_config :: "('u, 'g) ad_lib \<Rightarrow> string option \<Rightarrow> ad_config" where
  "Restore_config A file =
     (case file of
        None \<Rightarrow> default_config
      | Some json \<Rightarrow>
          if length json > kTotalBytes + 1024 * 1024 then default_config
          else case read_saved A json of
            None \<Rightarrow> default_config
          | Some v \<Rightarrow>
              \<lparr>ac_enabled = (case find_bool (saved_root v) ''enabled'' of Some b \<Rightarrow> b | None \<Rightarrow> True),
               ac_auto_update =
                 (case find_bool (saved_root v) ''autoUpdate'' of Some b \<Rightarrow> b | None \<Rightarrow> True),
               ac_sources = restored_sources A (saved_sources v),
               ac_exceptions = (case find_list (saved_root v) ''exceptions'' of
                                  None \<Rightarrow> {} | Some hs \<Rightarrow> restore_hosts A hs {}),
               ac_user = (let user = Str (saved_root v) ''userRules''
                          in if utf16_size A user > 65536 then [] else user),
               ac_user_rule_count = 0\<rparr>)"

section \<open>Compiling\<close>

definition empty_info :: ad_info where
  "empty_info = \<lparr>info_root = empty_dict, info_counts = None\<rparr>"

definition info_of :: "(string \<times> ad_value) list \<Rightarrow> ad_info" where
  "info_of vs = \<lparr>info_root = dict_of vs, info_counts = None\<rparr>"

definition Decode_info :: "('u, 'g) ad_lib \<Rightarrow> string option \<Rightarrow> ad_info" where
  "Decode_info A result = (case result of None \<Rightarrow> empty_info
     | Some json \<Rightarrow> (case read_info A json of None \<Rightarrow> empty_info | Some v \<Rightarrow> v))"

definition Engine_Compile :: "('u, 'g) ad_lib \<Rightarrow> ad_input list \<Rightarrow> 'g option \<times> ad_info" where
  "Engine_Compile A input =
     (if \<not> api_valid A then (None, info_of [(''reason'', AvString ''engineUnavailable'')])
      else case write_inputs A input of
        None \<Rightarrow> (None, empty_info)
      | Some json \<Rightarrow> (fst (api_compile A json), Decode_info A (snd (api_compile A json))))"

definition Engine_Query :: "('u, 'g) ad_lib \<Rightarrow> 'g \<Rightarrow> (string \<times> string) list \<Rightarrow> dict" where
  "Engine_Query A engine input =
     (case write_query A input of
        None \<Rightarrow> empty_dict
      | Some json \<Rightarrow> (case api_query A engine json of
            None \<Rightarrow> empty_dict
          | Some result \<Rightarrow> (case read_result A result of None \<Rightarrow> empty_dict | Some v \<Rightarrow> v)))"

record 'g compiled =
  co_config :: ad_config
  co_engine :: "'g option"
  co_info :: ad_info

definition int_or_zero :: "dict \<Rightarrow> string \<Rightarrow> int" where
  "int_or_zero v key = (case find_int v key of Some n \<Rightarrow> n | None \<Rightarrow> 0)"

definition count_source :: "dict \<Rightarrow> filter_source \<Rightarrow> filter_source" where
  "count_source v s = s
     \<lparr>fs_rules := int_or_zero v ''ruleCount'',
      fs_unsupported := int_or_zero v ''unsupportedCount'',
      fs_status := (if fs_kind s = ''builtin'' \<or> fs_text s \<noteq> [] then ''ready'' else ''missing'')\<rparr>"

fun apply_counts :: "dict option list \<Rightarrow> ad_config \<Rightarrow> ad_config" where
  "apply_counts [] c = c"
| "apply_counts (None # vs) c = apply_counts vs c"
| "apply_counts (Some v # vs) c =
     (let c = (if Str v ''id'' = ''user''
               then c\<lparr>ac_user_rule_count := int_or_zero v ''ruleCount''\<rparr> else c)
      in apply_counts vs
           (c\<lparr>ac_sources := update_source (Str v ''id'') (count_source v) (ac_sources c)\<rparr>))"

definition config_bytes :: "ad_config \<Rightarrow> nat" where
  "config_bytes c = foldl (\<lambda>bytes s. bytes + length (fs_text s)) (length (ac_user c)) (ac_sources c)"

definition compile_inputs :: "ad_config \<Rightarrow> ad_input list" where
  "compile_inputs c =
     map (\<lambda>s. \<lparr>ai_id = fs_id s, ai_text = fs_text s, ai_bundled = fs_kind s = ''builtin'',
               ai_strict = False\<rparr>) (filter fs_enabled (ac_sources c)) @
     [\<lparr>ai_id = ''user'', ai_text = ac_user c, ai_bundled = False, ai_strict = True\<rparr>]"

definition Compile_config :: "('u, 'g) ad_lib \<Rightarrow> ad_config \<Rightarrow> 'g compiled" where
  "Compile_config A config =
     (if config_bytes config > kTotalBytes
      then \<lparr>co_config = config, co_engine = None,
            co_info = info_of [(''reason'', AvString ''limit'')]\<rparr>
      else let (engine, info) = Engine_Compile A (compile_inputs config)
           in \<lparr>co_config = (case info_counts info of None \<Rightarrow> config
                              | Some counts \<Rightarrow> apply_counts counts config),
               co_engine = engine, co_info = info\<rparr>)"

section \<open>Imported files\<close>

text \<open>
  What the file system says of the directory and the file: whether the directory is its own
  real path, whether both can be opened without following a link, and what \<open>fstat\<close> reports.
\<close>

record import_stat =
  im_canonical :: bool
  im_opened :: bool
  im_regular :: bool
  im_size :: int

text \<open>\<open>substr(pos, count)\<close>, where the count is a \<open>size_t\<close> and wraps.\<close>

definition substr :: "string \<Rightarrow> nat \<Rightarrow> int \<Rightarrow> string" where
  "substr s pos count = take (nat (count mod 2 ^ 64)) (drop pos s)"

definition approved_dir :: "string \<Rightarrow> bool" where
  "approved_dir d =
     (let prefix = ''/data/storage/el2/base/haps/'';
          approved = (d = ''/data/storage/el2/base/cache'')
      in if starts_with d prefix \<and> ends_with d ''/cache''
         then let module = substr d (length prefix) (int (length d) - int (length prefix) - 6)
              in module \<noteq> [] \<and> CHR ''/'' \<notin> set module \<and> module \<noteq> ''.'' \<and> module \<noteq> ''..''
         else approved)"

definition OpenImport :: "('u, 'g) ad_lib \<Rightarrow> import_stat \<Rightarrow> string \<Rightarrow> bool" where
  "OpenImport A st filename =
     (if \<not> file_is_absolute A filename \<or> file_references_parent A filename then False
      else if \<not> starts_with (file_base_name A filename) ''adblock-import-'' \<or>
              \<not> ends_with (file_base_name A filename) ''.txt'' then False
      else if \<not> approved_dir (file_dir_name A filename) then False
      else if \<not> im_canonical st then False
      else im_opened st \<and> im_regular st \<and> 0 < im_size st \<and> im_size st \<le> int kListMaxBytes)"

text \<open>
  What the worker does with the file: \<open>len\<close> is the length it has by then and \<open>bytes\<close> what
  could be read of it.
\<close>

definition Import_config ::
  "('u, 'g) ad_lib \<Rightarrow> env \<Rightarrow> int \<Rightarrow> string option \<Rightarrow> ad_config \<Rightarrow> 'g compiled" where
  "Import_config A E len bytes config =
     (if len \<le> 0 \<or> len > int kListMaxBytes
      then \<lparr>co_config = config, co_engine = None,
            co_info = info_of [(''reason'', AvString ''invalidFile'')]\<rparr>
      else case bytes of
        None \<Rightarrow> \<lparr>co_config = config, co_engine = None,
                 co_info = info_of [(''reason'', AvString ''invalidRules''), (''errorLine'', AvInt 1)]\<rparr>
      | Some text \<Rightarrow>
          if int (length text) \<noteq> len \<or> \<not> is_utf8 A text
          then \<lparr>co_config = config, co_engine = None,
                co_info = info_of [(''reason'', AvString ''invalidRules''), (''errorLine'', AvInt 1)]\<rparr>
          else let ss = ac_sources config;
                   s = (last ss)\<lparr>fs_text := text, fs_updated := ms_of_time A (now E)\<rparr>
               in Compile_config A (config\<lparr>ac_sources := butlast ss @ [s]\<rparr>))"

end
