(* ===== verification/Ad_Blocking.thy ===== *)
theory Ad_Blocking
  imports Ad_Lists
begin

text \<open>
  The advertisement blocker of a profile (\<open>Service\<close> in \<open>adblock.cc\<close>): its settings, the
  compilation of its lists on a worker, the downloads one after another, the commands of
  the shell, the pages (\<open>Page\<close>) and the checks of their requests. A profile and the
  incognito window opened from it share one record, because the service of the window
  reads the configuration and the engine of its parent: owner 0 is the profile, any other
  owner the incognito service of that number. \<open>ab_jobs\<close> are the compilations posted to the
  worker whose reply is \<open>Installed\<close>, \<open>ab_waiting\<close> the queries kept until the first of them
  is over, \<open>ab_matching\<close> the queries posted to the matcher with the engine they hold.
  \<open>ab_log\<close> records what leaves the service: writes of the file, events to the shell,
  downloads, replies to commands and decisions.
\<close>

section \<open>State\<close>

text \<open>A command's reply is the number the shell gave it; the first job has none.\<close>

datatype ad_job =
    JobRestore
  | JobCompile ad_config "nat option"
  | JobImport ad_config nat

record ad_private =
  pv_instance :: nat
  pv_context :: string
  pv_revision :: u64
  pv_overrides :: "(string \<times> bool) list"

record 'u ad_page =
  pg_owner :: nat
  pg_committing :: "(nat \<times> 'u \<times> 'u) list"
  pg_navigation :: string
  pg_url :: 'u
  pg_blocked :: u64
  pg_reload :: bool
  pg_pending :: bool
  pg_hits :: "(string \<times> string \<times> string) list"
  pg_notify :: bool

record 'u ad_check =
  ck_ticket :: nat
  ck_owner :: nat
  ck_page :: "nat option"
  ck_navigation :: string
  ck_revision :: u64
  ck_url :: 'u
  ck_site :: 'u
  ck_type :: string
  ck_method :: string

record 'u ad_decision =
  de_blocked :: bool
  de_redirect :: string
  de_rewritten :: 'u
  de_csp :: string
  de_reason :: string

datatype 'u ad_effect =
    AdWrite ad_saved
  | AdBroadcast nat u64
  | AdPageBroadcast nat string
  | AdDownload string string string
  | AdReply nat string int
  | AdDecide "'u ad_check" "'u ad_decision"
  | AdDrop "'u ad_check"

record ('u, 'g) ad_service =
  ab_context :: string
  ab_config :: ad_config
  ab_engine :: "'g option"
  ab_initialized :: bool
  ab_busy :: bool
  ab_error :: string
  ab_active :: string
  ab_queue :: "string list"
  ab_retry :: "(string \<times> int) list"
  ab_failures :: "(string \<times> int) list"
  ab_loading :: bool
  ab_revision :: u64
  ab_private :: "ad_private option"
  ab_pages :: "(nat \<times> 'u ad_page) list"
  ab_jobs :: "ad_job list"
  ab_waiting :: "'u ad_check list"
  ab_matching :: "('u ad_check \<times> 'g) list"
  ab_gone :: "nat list"
  ab_log :: "'u ad_effect list"

definition ad_emit :: "'u ad_effect \<Rightarrow> ('u, 'g) ad_service \<Rightarrow> ('u, 'g) ad_service" where
  "ad_emit e s = s\<lparr>ab_log := ab_log s @ [e]\<rparr>"

definition Service_Service :: "string \<Rightarrow> ('u, 'g) ad_service" where
  "Service_Service context =
     \<lparr>ab_context = context, ab_config = default_config, ab_engine = None, ab_initialized = False,
      ab_busy = True, ab_error = [], ab_active = [], ab_queue = [], ab_retry = [], ab_failures = [],
      ab_loading = False, ab_revision = 1, ab_private = None, ab_pages = [], ab_jobs = [JobRestore],
      ab_waiting = [], ab_matching = [], ab_gone = [], ab_log = []\<rparr>"

text \<open>The service of an incognito window, and its end.\<close>

definition Service_Incognito :: "nat \<Rightarrow> string \<Rightarrow> ('u, 'g) ad_service \<Rightarrow> ('u, 'g) ad_service" where
  "Service_Incognito n context s = s\<lparr>ab_private :=
     Some \<lparr>pv_instance = n, pv_context = context, pv_revision = 1, pv_overrides = []\<rparr>\<rparr>"

section \<open>Questions\<close>

definition owner_private :: "nat \<Rightarrow> ('u, 'g) ad_service \<Rightarrow> ad_private option" where
  "owner_private owner s =
     (case ab_private s of None \<Rightarrow> None | Some p \<Rightarrow> if pv_instance p = owner then Some p else None)"

definition owner_alive :: "nat \<Rightarrow> ('u, 'g) ad_service \<Rightarrow> bool" where
  "owner_alive owner s \<longleftrightarrow> owner = 0 \<or> owner_private owner s \<noteq> None"

definition revision_of :: "nat \<Rightarrow> ('u, 'g) ad_service \<Rightarrow> u64" where
  "revision_of owner s = (if owner = 0 then ab_revision s
     else case owner_private owner s of None \<Rightarrow> 0 | Some p \<Rightarrow> pv_revision p)"

definition context_of :: "nat \<Rightarrow> ('u, 'g) ad_service \<Rightarrow> string" where
  "context_of owner s = (if owner = 0 then ab_context s
     else case owner_private owner s of None \<Rightarrow> [] | Some p \<Rightarrow> pv_context p)"

definition overrides_of :: "nat \<Rightarrow> ('u, 'g) ad_service \<Rightarrow> (string \<times> bool) list" where
  "overrides_of owner s = (if owner = 0 then []
     else case owner_private owner s of None \<Rightarrow> [] | Some p \<Rightarrow> pv_overrides p)"

definition SiteEnabled :: "('u, 'g) ad_lib \<Rightarrow> nat \<Rightarrow> ('u, 'g) ad_service \<Rightarrow> 'u \<Rightarrow> bool" where
  "SiteEnabled A owner s url =
     (case map_of (overrides_of owner s) (Host A url) of
        Some enabled \<Rightarrow> enabled
      | None \<Rightarrow> Host A url \<notin> ac_exceptions (ab_config s))"

definition Eligible :: "('u, 'g) ad_lib \<Rightarrow> nat \<Rightarrow> ('u, 'g) ad_service \<Rightarrow> 'u \<Rightarrow> bool" where
  "Eligible A owner s url \<longleftrightarrow>
     ac_enabled (ab_config s) \<and> Host A url \<noteq> [] \<and> SiteEnabled A owner s url"

definition Active :: "('u, 'g) ad_lib \<Rightarrow> nat \<Rightarrow> ('u, 'g) ad_service \<Rightarrow> 'u \<Rightarrow> bool" where
  "Active A owner s url \<longleftrightarrow> Eligible A owner s url \<and> ab_engine s \<noteq> None \<and>
     (ac_user_rule_count (ab_config s) > 0 \<or>
      list_ex (\<lambda>src. fs_enabled src \<and> fs_rules src > 0) (ac_sources (ab_config s)))"

definition SourceName :: "string \<Rightarrow> ('u, 'g) ad_service \<Rightarrow> string" where
  "SourceName i s =
     (if i = ''user''
      then utf8_bytes [0xE4, 0xB8, 0xAA, 0xE4, 0xBA, 0xBA, 0xE8, 0xA7, 0x84, 0xE5, 0x88, 0x99]
      else case find_source i (ac_sources (ab_config s)) of
             Some src \<Rightarrow> fs_name src
           | None \<Rightarrow> utf8_bytes [0xE5, 0xB9, 0xBF, 0xE5, 0x91, 0x8A, 0xE8, 0xBF, 0x87, 0xE6, 0xBB,
                                 0xA4, 0xE8, 0xA7, 0x84, 0xE5, 0x88, 0x99])"

definition CheckRevision :: "('u, 'g) ad_lib \<Rightarrow> nat \<Rightarrow> dict \<Rightarrow> ('u, 'g) ad_service \<Rightarrow> string" where
  "CheckRevision A owner cmd s =
     (if Str cmd ''contextId'' \<noteq> context_of owner s \<or>
         find_double cmd ''expectedRevision'' \<noteq> Some (double_of_u64 A (revision_of owner s))
      then ''stale'' else [])"

section \<open>Telling the observers\<close>

text \<open>\<open>Page::Notify\<close> starts a timer of 300 milliseconds unless it runs.\<close>

definition Page_Notify :: "'u ad_page \<Rightarrow> 'u ad_page" where
  "Page_Notify pg = (if pg_notify pg then pg else pg\<lparr>pg_notify := True\<rparr>)"

definition pages_reload :: "nat \<Rightarrow> ('u, 'g) ad_service \<Rightarrow> ('u, 'g) ad_service" where
  "pages_reload owner s = s\<lparr>ab_pages := map (\<lambda>(k, pg). (k,
     if pg_owner pg = owner then Page_Notify (pg\<lparr>pg_reload := True\<rparr>) else pg)) (ab_pages s)\<rparr>"

text \<open>
  \<open>Changed\<close>: the service of an incognito window never persists; the service of the profile
  notifies it, which is how the window's revision moves with the profile's.
\<close>

definition Incognito_Changed :: "('u, 'g) ad_service \<Rightarrow> ('u, 'g) ad_service" where
  "Incognito_Changed s =
     (case ab_private s of
        None \<Rightarrow> s
      | Some p \<Rightarrow>
          pages_reload (pv_instance p)
            (ad_emit (AdBroadcast (pv_instance p) (pv_revision p + 1))
              (s\<lparr>ab_private := Some (p\<lparr>pv_revision := pv_revision p + 1\<rparr>)\<rparr>)))"

definition Changed :: "bool \<Rightarrow> ('u, 'g) ad_service \<Rightarrow> ('u, 'g) ad_service" where
  "Changed persist s =
     (let s = s\<lparr>ab_revision := ab_revision s + 1\<rparr>;
          s = (if persist then ad_emit (AdWrite (Config_Value True (ab_config s))) s else s);
          s = ad_emit (AdBroadcast 0 (ab_revision s)) s
      in Incognito_Changed (pages_reload 0 s))"

section \<open>Checking requests\<close>

definition new_decision :: "('u, 'g) ad_lib \<Rightarrow> 'u ad_decision" where
  "new_decision A = \<lparr>de_blocked = False, de_redirect = [], de_rewritten = empty_url A,
     de_csp = [], de_reason = []\<rparr>"

definition ad_decide :: "'u ad_check \<Rightarrow> 'u ad_decision \<Rightarrow> ('u, 'g) ad_service \<Rightarrow> ('u, 'g) ad_service" where
  "ad_decide ck d s = ad_emit (AdDecide ck d) s"

definition put_page :: "nat \<Rightarrow> 'u ad_page \<Rightarrow> ('u, 'g) ad_service \<Rightarrow> ('u, 'g) ad_service" where
  "put_page k pg s = s\<lparr>ab_pages := om_put k pg (ab_pages s)\<rparr>"

text \<open>The page of a check, if it still exists.\<close>

definition check_page :: "'u ad_check \<Rightarrow> ('u, 'g) ad_service \<Rightarrow> 'u ad_page option" where
  "check_page ck s = (case ck_page ck of None \<Rightarrow> None | Some k \<Rightarrow> map_of (ab_pages s) k)"

definition Page_Record ::
  "('u, 'g) ad_lib \<Rightarrow> string \<Rightarrow> 'u \<Rightarrow> string \<Rightarrow> string \<Rightarrow> 'u ad_page \<Rightarrow> 'u ad_page" where
  "Page_Record A navigation url type source pg =
     (if navigation \<noteq> pg_navigation pg then pg
      else let hits = (if length (pg_hits pg) = 100 then tl (pg_hits pg) else pg_hits pg)
           in Page_Notify (pg\<lparr>pg_blocked := pg_blocked pg + 1,
                             pg_hits := hits @ [(Host A url, type, source)]\<rparr>))"

definition requester_gone :: "'u ad_check \<Rightarrow> ('u, 'g) ad_service \<Rightarrow> bool" where
  "requester_gone ck s \<longleftrightarrow> ck_ticket ck \<in> set (ab_gone s)"

definition filled_decision :: "('u, 'g) ad_lib \<Rightarrow> bool \<Rightarrow> dict \<Rightarrow> 'u ad_decision" where
  "filled_decision A blocked result =
     \<lparr>de_blocked = blocked, de_redirect = Str result ''redirect'',
      de_rewritten = gurl A (Str result ''rewrittenUrl''), de_csp = Str result ''csp'',
      de_reason = (if find_bool result ''redirectMissing'' = Some True
                   then ''missingRedirectResource'' else [])\<rparr>"

text \<open>The last part of the reply to a query, when neither the page nor the rules have changed.\<close>

definition Check_final ::
  "('u, 'g) ad_lib \<Rightarrow> 'u ad_check \<Rightarrow> dict \<Rightarrow> ('u, 'g) ad_service \<Rightarrow> ('u, 'g) ad_service" where
  "Check_final A ck result s =
     (let fresh = (owner_alive (ck_owner ck) s \<and> Active A (ck_owner ck) s (ck_site ck) \<and>
                   revision_of (ck_owner ck) s = ck_revision ck);
          blocked = (fresh \<and> find_bool result ''blocked'' = Some True);
          s = (case check_page ck s of
                 None \<Rightarrow> s
               | Some pg \<Rightarrow>
                   if blocked
                   then put_page (the (ck_page ck))
                          (Page_Record A (ck_navigation ck) (ck_url ck) (ck_type ck)
                            (SourceName (Str result ''sourceId'') s) pg) s
                   else s)
      in ad_decide ck (if fresh then filled_decision A blocked result else new_decision A) s)"

text \<open>What the callback of a query is bound to: the page, its navigation and the revision.\<close>

definition bind_check :: "'u ad_check \<Rightarrow> ('u, 'g) ad_service \<Rightarrow> 'u ad_check" where
  "bind_check ck s = ck
     \<lparr>ck_page := (if check_page ck s = None then None else ck_page ck),
      ck_navigation := (case check_page ck s of None \<Rightarrow> [] | Some pg \<Rightarrow> pg_navigation pg),
      ck_revision := revision_of (ck_owner ck) s\<rparr>"

lemma bind_check_simps [simp]:
  "ck_ticket (bind_check ck s) = ck_ticket ck" "ck_owner (bind_check ck s) = ck_owner ck"
  "ck_revision (bind_check ck s) = revision_of (ck_owner ck) s" "ck_site (bind_check ck s) = ck_site ck"
  "ck_url (bind_check ck s) = ck_url ck"
  by (simp_all add: bind_check_def)

text \<open>
  \<open>CheckRequest\<close> with \<open>Query\<close>, and the callback it binds, which asks again when the rules
  have changed meanwhile. A query that is not kept waiting and is for an inactive site is
  answered at once, with an empty dictionary.
\<close>

function CheckRequest ::
    "('u, 'g) ad_lib \<Rightarrow> 'u ad_check \<Rightarrow> ('u, 'g) ad_service \<Rightarrow> ('u, 'g) ad_service"
  and Check_result ::
    "('u, 'g) ad_lib \<Rightarrow> 'u ad_check \<Rightarrow> dict \<Rightarrow> ('u, 'g) ad_service \<Rightarrow> ('u, 'g) ad_service" where
  "CheckRequest A ck s =
     (if \<not> (scheme_is_http_or_https A (ck_url ck) \<or> scheme_is_ws_or_wss A (ck_url ck)) \<or>
         \<not> Eligible A (ck_owner ck) s (ck_site ck)
      then ad_decide ck (new_decision A) s
      else let ck = bind_check ck s
           in if \<not> ab_initialized s \<and> (ck_owner ck \<noteq> 0 \<or> length (ab_waiting s) < 4096)
              then s\<lparr>ab_waiting := ab_waiting s @ [ck]\<rparr>
              else if \<not> Active A (ck_owner ck) s (ck_site ck) then Check_result A ck empty_dict s
              else s\<lparr>ab_matching := ab_matching s @ [(ck, the (ab_engine s))]\<rparr>)"
| "Check_result A ck result s =
     (if requester_gone ck s then ad_emit (AdDrop ck) s
      else if (case check_page ck s of None \<Rightarrow> False | Some pg \<Rightarrow> pg_navigation pg \<noteq> ck_navigation ck)
      then ad_decide ck (new_decision A) s
      else if owner_alive (ck_owner ck) s \<and> revision_of (ck_owner ck) s \<noteq> ck_revision ck
      then CheckRequest A ck s
      else Check_final A ck result s)"
  by pat_completeness auto
termination
  by (relation "measure (\<lambda>x. case x of Inl _ \<Rightarrow> 1
        | Inr (A, ck, result, s) \<Rightarrow> if revision_of (ck_owner ck) s = ck_revision ck then 0 else 2)")
    auto

declare CheckRequest.simps [simp del] Check_result.simps [simp del]

text \<open>A waiting query whose incognito service is gone is not run.\<close>

definition Query_again ::
  "('u, 'g) ad_lib \<Rightarrow> 'u ad_check \<Rightarrow> ('u, 'g) ad_service \<Rightarrow> ('u, 'g) ad_service" where
  "Query_again A ck s =
     (if \<not> owner_alive (ck_owner ck) s then ad_emit (AdDrop ck) s
      else if \<not> ab_initialized s \<and> (ck_owner ck \<noteq> 0 \<or> length (ab_waiting s) < 4096)
      then s\<lparr>ab_waiting := ab_waiting s @ [ck]\<rparr>
      else if \<not> Active A (ck_owner ck) s (ck_site ck) then Check_result A ck empty_dict s
      else s\<lparr>ab_matching := ab_matching s @ [(ck, the (ab_engine s))]\<rparr>)"

end
