(* ===== verification/Ad_Service.thy ===== *)
theory Ad_Service
  imports Ad_Blocking
begin

text \<open>
  The operations of the advertisement blocker: updates, compilations, commands, pages and
  the requests that are checked, and the machine they make up: what the shell, the network,
  the workers, the timer and the pages may do, in any order.
\<close>

section \<open>Updates\<close>

definition Queue :: "string \<Rightarrow> ('u, 'g) ad_service \<Rightarrow> ('u, 'g) ad_service" where
  "Queue i s =
     (case find_source i (ac_sources (ab_config s)) of
        None \<Rightarrow> s
      | Some src \<Rightarrow>
          if fs_url src = [] then s
          else if i \<noteq> ab_active s \<and> i \<notin> set (ab_queue s)
          then s\<lparr>ab_queue := ab_queue s @ [i]\<rparr> else s)"

definition queue_all :: "(filter_source \<Rightarrow> bool) \<Rightarrow> ('u, 'g) ad_service \<Rightarrow> ('u, 'g) ad_service" where
  "queue_all P s = fold (\<lambda>src s. if P src then Queue (fs_id src) s else s) (ac_sources (ab_config s)) s"

function StartNext :: "('u, 'g) ad_service \<Rightarrow> ('u, 'g) ad_service" where
  "StartNext s =
     (if ab_busy s \<or> ab_loading s \<or> ab_queue s = [] then s
      else let s' = s\<lparr>ab_active := hd (ab_queue s), ab_queue := tl (ab_queue s)\<rparr>
           in case find_source (ab_active s') (ac_sources (ab_config s')) of
                None \<Rightarrow> StartNext (s'\<lparr>ab_active := []\<rparr>)
              | Some src \<Rightarrow>
                  if fs_kind src = ''file'' then StartNext (s'\<lparr>ab_active := []\<rparr>)
                  else Changed False
                         (ad_emit (AdDownload (fs_url src) (fs_etag src) (fs_modified src))
                           (s'\<lparr>ab_loading := True\<rparr>)))"
  by pat_completeness auto
termination
  by (relation "measure (\<lambda>s. length (ab_queue s))") auto

declare StartNext.simps [simp del]

text \<open>One more failure of a source: the count stops at seven and doubles the wait.\<close>

definition note_failure :: "env \<Rightarrow> string \<Rightarrow> ('u, 'g) ad_service \<Rightarrow> ('u, 'g) ad_service" where
  "note_failure E i s =
     (let failures = min ((case map_of (ab_failures s) i of Some n \<Rightarrow> n | None \<Rightarrow> 0) + 1) 7
      in s\<lparr>ab_failures := om_put i failures (ab_failures s),
           ab_retry := om_put i (now E + minutes (5 * 2 ^ nat failures)) (ab_retry s)\<rparr>)"

definition set_sources :: "filter_source list \<Rightarrow> ('u, 'g) ad_service \<Rightarrow> ('u, 'g) ad_service" where
  "set_sources ss s = s\<lparr>ab_config := (ab_config s)\<lparr>ac_sources := ss\<rparr>\<rparr>"

definition mark_failed :: "string \<Rightarrow> ('u, 'g) ad_service \<Rightarrow> ('u, 'g) ad_service" where
  "mark_failed i s =
     set_sources (update_source i (\<lambda>src. src\<lparr>fs_status := ''failed''\<rparr>) (ac_sources (ab_config s))) s"

definition Failed :: "env \<Rightarrow> ('u, 'g) ad_service \<Rightarrow> ('u, 'g) ad_service" where
  "Failed E s =
     (let s = s\<lparr>ab_loading := False\<rparr>;
          s = note_failure E (ab_active s) (mark_failed (ab_active s) s);
          s = s\<lparr>ab_active := [], ab_error := ''downloadFailed''\<rparr>
      in StartNext (Changed False s))"

definition Rebuild :: "ad_config \<Rightarrow> nat option \<Rightarrow> ('u, 'g) ad_service \<Rightarrow> ('u, 'g) ad_service" where
  "Rebuild config reply s =
     (let s = Changed False (s\<lparr>ab_busy := True, ab_error := []\<rparr>)
      in s\<lparr>ab_jobs := ab_jobs s @ [JobCompile config reply]\<rparr>)"

definition ad_reply :: "nat option \<Rightarrow> string \<Rightarrow> int \<Rightarrow> ('u, 'g) ad_service \<Rightarrow> ('u, 'g) ad_service" where
  "ad_reply reply error line s =
     (case reply of None \<Rightarrow> s | Some t \<Rightarrow> ad_emit (AdReply t error line) s)"

text \<open>\<open>Installed\<close>, up to the point where the waiting queries run.\<close>

definition install_result ::
  "env \<Rightarrow> 'g compiled \<Rightarrow> ('u, 'g) ad_service \<Rightarrow> ('u, 'g) ad_service" where
  "install_result E c s =
     (case co_engine c of
        Some engine \<Rightarrow>
          s\<lparr>ab_config := (if ab_initialized s
                          then (co_config c)\<lparr>ac_enabled := ac_enabled (ab_config s),
                                 ac_auto_update := ac_auto_update (ab_config s),
                                 ac_exceptions := ac_exceptions (ab_config s)\<rparr>
                          else co_config c),
            ab_engine := Some engine, ab_error := []\<rparr>
      | None \<Rightarrow>
          let reason = Str (info_root (co_info c)) ''reason'';
              s = s\<lparr>ab_error := (if reason = [] then ''compileFailed'' else reason)\<rparr>
          in if find_source (ab_active s) (ac_sources (ab_config s)) = None then s
             else note_failure E (ab_active s) (mark_failed (ab_active s) s))"

definition Installed ::
  "('u, 'g) ad_lib \<Rightarrow> env \<Rightarrow> bool \<Rightarrow> nat option \<Rightarrow> 'g compiled \<Rightarrow> ('u, 'g) ad_service \<Rightarrow>
   ('u, 'g) ad_service" where
  "Installed A E persist reply c s =
     (let s = install_result E c (s\<lparr>ab_busy := False\<rparr>);
          s = s\<lparr>ab_initialized := True, ab_active := []\<rparr>;
          s = Changed (persist \<and> ab_error s = []) s;
          s = ad_reply reply (ab_error s) (int_or_zero (info_root (co_info c)) ''errorLine'') s;
          waiting = ab_waiting s;
          s = fold (Query_again A) waiting (s\<lparr>ab_waiting := []\<rparr>);
          s = (if persist \<and> ab_error s = []
               then queue_all (\<lambda>src. fs_enabled src \<and> fs_kind src = ''subscription'' \<and>
                                     fs_status src = ''missing'') s
               else s)
      in StartNext s)"

definition AutoUpdate ::
  "('u, 'g) ad_lib \<Rightarrow> env \<Rightarrow> bool \<Rightarrow> ('u, 'g) ad_service \<Rightarrow> ('u, 'g) ad_service" where
  "AutoUpdate A E offline s =
     (if \<not> ab_initialized s \<or> ab_busy s \<or> \<not> ac_enabled (ab_config s) \<or>
         \<not> ac_auto_update (ab_config s) \<or> offline then s
      else StartNext (queue_all (\<lambda>src. fs_enabled src \<and> fs_kind src \<noteq> ''file'' \<and>
             day_passed A (ms_of_time A (now E)) (fs_updated src) \<and>
             (case map_of (ab_retry s) (fs_id src) of None \<Rightarrow> True | Some t \<Rightarrow> t \<le> now E)) s))"

text \<open>What the loader reports: the status line and two headers, if there was a response.\<close>

record ad_response =
  rp_headers :: "(int \<times> string option \<times> string option) option"
  rp_data :: "string option"

definition capped :: "string option \<Rightarrow> string" where
  "capped v = (case v of None \<Rightarrow> [] | Some h \<Rightarrow> if length h > 4096 then [] else h)"

definition Downloaded ::
  "('u, 'g) ad_lib \<Rightarrow> env \<Rightarrow> ad_response \<Rightarrow> ('u, 'g) ad_service \<Rightarrow> ('u, 'g) ad_service" where
  "Downloaded A E r s =
     (let ss = ac_sources (ab_config s);
          i = ab_active s;
          status = (case rp_headers r of None \<Rightarrow> 0 | Some (code, etag, modified) \<Rightarrow> code)
      in case find_source i ss of
           None \<Rightarrow> Failed E s
         | Some src \<Rightarrow>
             if status = 304 \<and> (fs_text src \<noteq> [] \<or> fs_kind src = ''builtin'')
             then let s = set_sources (update_source i (\<lambda>src. src\<lparr>
                            fs_updated := ms_of_time A (now E), fs_status := ''ready''\<rparr>) ss) s;
                      s = s\<lparr>ab_loading := False, ab_failures := om_del i (ab_failures s),
                            ab_active := [], ab_error := []\<rparr>
                  in StartNext (Changed True s)
             else case rp_data r of
               None \<Rightarrow> Failed E s
             | Some data \<Rightarrow>
                 if status \<noteq> 200 \<or> data = [] \<or> \<not> is_utf8 A data then Failed E s
                 else case rp_headers r of
                   None \<Rightarrow> Failed E s
                 | Some (code, etag, modified) \<Rightarrow>
                     let next = (ab_config s)\<lparr>ac_sources := update_source i (\<lambda>src. src\<lparr>
                                  fs_text := data, fs_updated := ms_of_time A (now E),
                                  fs_etag := capped etag, fs_modified := capped modified\<rparr>) ss\<rparr>
                     in Rebuild next None
                          (s\<lparr>ab_failures := om_del i (ab_failures s), ab_loading := False\<rparr>))"

text \<open>A redirect to a URL that may not be a subscription ends the download.\<close>

definition OnRedirect ::
  "('u, 'g) ad_lib \<Rightarrow> env \<Rightarrow> 'u \<Rightarrow> ('u, 'g) ad_service \<Rightarrow> ('u, 'g) ad_service" where
  "OnRedirect A E new_url s = (if \<not> SubscriptionUrl A new_url then Failed E s else s)"

section \<open>Commands of the shell\<close>

definition SetSite ::
  "('u, 'g) ad_lib \<Rightarrow> nat \<Rightarrow> 'u \<Rightarrow> bool \<Rightarrow> ('u, 'g) ad_service \<Rightarrow> string \<times> ('u, 'g) ad_service" where
  "SetSite A owner url enabled s =
     (let h = Host A url
      in if h = [] then (''invalidSite'', s)
         else if owner \<noteq> 0
         then (case owner_private owner s of
                 None \<Rightarrow> ([], s)
               | Some p \<Rightarrow>
                   if h \<notin> fst ` set (pv_overrides p) \<and> length (pv_overrides p) \<ge> 1000 then (''limit'', s)
                   else ([], Incognito_Changed (s\<lparr>ab_private :=
                           Some (p\<lparr>pv_overrides := om_put h enabled (pv_overrides p)\<rparr>)\<rparr>)))
         else let hosts = ac_exceptions (ab_config s)
              in if \<not> enabled \<and> h \<notin> hosts \<and> card hosts \<ge> 1000 then (''limit'', s)
                 else ([], Changed True (s\<lparr>ab_config := (ab_config s)
                        \<lparr>ac_exceptions := (if enabled then hosts - {h} else insert h hosts)\<rparr>\<rparr>)))"

definition cleared_source :: "filter_source \<Rightarrow> filter_source" where
  "cleared_source src = src\<lparr>fs_text := [], fs_updated := 0, fs_etag := [], fs_modified := [],
     fs_rules := 0, fs_unsupported := 0, fs_status := ''missing''\<rparr>"

definition saved_source :: "string \<Rightarrow> string \<Rightarrow> filter_source \<Rightarrow> filter_source" where
  "saved_source title url src =
     (if fs_url src \<noteq> url then cleared_source src else src)\<lparr>fs_name := title, fs_url := url\<rparr>"

text \<open>
  The commands that change the sources or the user's rules: the error, or the configuration
  that is to be compiled.
\<close>

definition next_config ::
  "('u, 'g) ad_lib \<Rightarrow> env \<Rightarrow> string \<Rightarrow> dict \<Rightarrow> ad_config \<Rightarrow> string + ad_config" where
  "next_config A E name cmd c =
     (let i = Str cmd ''sourceId'';
          ss = ac_sources c;
          source = find_source i ss
      in if name = ''setAdBlockSourceEnabled''
         then (case (source, find_bool cmd ''enabled'') of
                 (Some src, Some b) \<Rightarrow>
                   Inr (c\<lparr>ac_sources := update_source i (\<lambda>src. src\<lparr>fs_enabled := b\<rparr>) ss\<rparr>)
               | _ \<Rightarrow> Inl ''invalidSource'')
         else if name = ''saveAdBlockSource''
         then let title = Str cmd ''name'';
                  url = gurl A (Str cmd ''url'')
              in if title = [] \<or> length title > 240 \<or> \<not> SubscriptionUrl A url then Inl ''invalidSource''
                 else (case source of
                         Some src \<Rightarrow>
                           if fs_kind src \<noteq> ''subscription'' then Inl ''readOnly''
                           else Inr (c\<lparr>ac_sources := update_source i (saved_source title (spec A url)) ss\<rparr>)
                       | None \<Rightarrow>
                           if i \<noteq> [] \<or> length ss \<ge> 32 then Inl ''limit''
                           else Inr (c\<lparr>ac_sources := ss @ [saved_source title (spec A url)
                                       (new_source (token E) [] ''subscription'' [])]\<rparr>))
         else if name = ''removeAdBlockSource''
         then (case source of
                 None \<Rightarrow> Inl ''invalidSource''
               | Some src \<Rightarrow>
                   if fs_kind src = ''builtin'' then Inl ''readOnly''
                   else Inr (c\<lparr>ac_sources := filter (\<lambda>src. fs_id src \<noteq> i) ss\<rparr>))
         else if name = ''setAdBlockUserRules''
         then (case find_string cmd ''text'' of
                 None \<Rightarrow> Inl ''invalidRules''
               | Some text \<Rightarrow>
                   if \<not> is_utf8 A text \<or> utf16_size A text > 65536 then Inl ''limit''
                   else Inr (c\<lparr>ac_user := text\<rparr>))
         else Inl ''invalidRequest'')"

definition ImportFile ::
  "('u, 'g) ad_lib \<Rightarrow> env \<Rightarrow> import_stat \<Rightarrow> dict \<Rightarrow> nat \<Rightarrow> ('u, 'g) ad_service \<Rightarrow>
   ('u, 'g) ad_service" where
  "ImportFile A E st cmd t s =
     (let ss = ac_sources (ab_config s);
          title = Str cmd ''name''
      in if length ss \<ge> 32 then ad_reply (Some t) ''limit'' 0 s
         else if \<not> OpenImport A st (Str cmd ''path'') then ad_reply (Some t) ''invalidFile'' 0 s
         else if title = [] \<or> length title > 240 then ad_reply (Some t) ''invalidSource'' 0 s
         else let next = (ab_config s)\<lparr>ac_sources := ss @ [new_source (token E) title ''file'' []]\<rparr>;
                  s = Changed False (s\<lparr>ab_busy := True\<rparr>)
              in s\<lparr>ab_jobs := ab_jobs s @ [JobImport next t]\<rparr>)"

definition Mutate ::
  "('u, 'g) ad_lib \<Rightarrow> env \<Rightarrow> import_stat \<Rightarrow> nat \<Rightarrow> string \<Rightarrow> dict \<Rightarrow> nat \<Rightarrow>
   ('u, 'g) ad_service \<Rightarrow> ('u, 'g) ad_service" where
  "Mutate A E st owner name cmd t s =
     (let error = CheckRevision A owner cmd s;
          error = (if error = [] \<and> owner \<noteq> 0 then ''readOnly'' else error);
          error = (if error = [] \<and> \<not> ab_initialized s then ''initializing'' else error);
          ss = ac_sources (ab_config s);
          i = Str cmd ''sourceId''
      in if error \<noteq> [] then ad_reply (Some t) error 0 s
         else if name = ''setAdBlockEnabled'' \<or> name = ''setAdBlockAutoUpdate''
         then (case find_bool cmd ''enabled'' of
                 None \<Rightarrow> ad_reply (Some t) ''invalidRequest'' 0 s
               | Some b \<Rightarrow> ad_reply (Some t) [] 0 (Changed True (s\<lparr>ab_config :=
                   (if name = ''setAdBlockEnabled'' then (ab_config s)\<lparr>ac_enabled := b\<rparr>
                    else (ab_config s)\<lparr>ac_auto_update := b\<rparr>)\<rparr>)))
         else if name = ''removeAdBlockException''
         then let h = NormalizeHost A (Str cmd ''text'')
              in if h = [] then ad_reply (Some t) ''invalidSite'' 0 s
                 else ad_reply (Some t) [] 0 (Changed True (s\<lparr>ab_config := (ab_config s)
                        \<lparr>ac_exceptions := ac_exceptions (ab_config s) - {h}\<rparr>\<rparr>))
         else if name = ''updateAdBlockSources''
         then if i \<noteq> [] \<and> (case find_source i ss of None \<Rightarrow> True | Some src \<Rightarrow> fs_kind src = ''file'')
              then ad_reply (Some t) ''invalidSource'' 0 s
              else ad_reply (Some t) [] 0 (StartNext (queue_all (\<lambda>src. fs_kind src \<noteq> ''file'' \<and>
                     ((i = [] \<and> fs_enabled src) \<or> fs_id src = i)) s))
         else if ab_busy s \<or> ab_loading s then ad_reply (Some t) ''busy'' 0 s
         else if name = ''importAdBlockFile'' then ImportFile A E st cmd t s
         else case next_config A E name cmd (ab_config s) of
                Inl error \<Rightarrow> ad_reply (Some t) error 0 s
              | Inr next \<Rightarrow> Rebuild next (Some t) s)"

text \<open>\<open>setAdBlockSiteEnabled\<close>: \<open>k\<close> is the page of the tab that the command names, if there is one.\<close>

definition HandleAdBlockSite ::
  "('u, 'g) ad_lib \<Rightarrow> nat \<Rightarrow> nat option \<Rightarrow> dict \<Rightarrow> nat \<Rightarrow> ('u, 'g) ad_service \<Rightarrow>
   ('u, 'g) ad_service" where
  "HandleAdBlockSite A owner k cmd t s =
     (case (case k of None \<Rightarrow> None | Some k \<Rightarrow> map_of (ab_pages s) k) of
        None \<Rightarrow> ad_reply (Some t) ''invalidTab'' 0 s
      | Some pg \<Rightarrow>
          let error = CheckRevision A owner cmd s;
              error = (if error = [] \<and>
                          (pg_navigation pg \<noteq> Str cmd ''navigationId'' \<or>
                           find_bool cmd ''enabled'' = None \<or>
                           \<not> (Host A (pg_url pg) \<noteq> [] \<and> \<not> pg_pending pg))
                       then ''stale'' else error)
          in if error \<noteq> [] then ad_reply (Some t) error 0 s
             else let (error, s) = SetSite A owner (pg_url pg) (the (find_bool cmd ''enabled'')) s
                  in ad_reply (Some t) error 0 s)"

end
