(* ===== verification/Ad_Pages.thy ===== *)
theory Ad_Pages
  imports Ad_Service
begin

text \<open>
  The pages of the advertisement blocker, the three ways in which requests reach it (the
  filter interface of a renderer, the throttle of the browser, web sockets), the throttle
  that carries out a decision, and the machine of the whole component.
\<close>

section \<open>Pages\<close>

record 'u ad_navigation =
  nh_id :: string
  nh_url :: 'u
  nh_primary_main :: bool
  nh_same_document :: bool
  nh_committed :: bool
  nh_frame :: nat
  nh_main_url :: "'u option"

text \<open>\<open>nh_main_url\<close> is the committed URL of the outermost main frame, for a frame with a parent.\<close>

definition new_page :: "nat \<Rightarrow> 'u \<Rightarrow> string \<Rightarrow> 'u ad_page" where
  "new_page owner url navigation = \<lparr>pg_owner = owner, pg_committing = [], pg_navigation = navigation,
     pg_url = url, pg_blocked = 0, pg_reload = False, pg_pending = False, pg_hits = [],
     pg_notify = False\<rparr>"

definition Page_Get :: "nat \<Rightarrow> nat \<Rightarrow> 'u \<Rightarrow> string \<Rightarrow> ('u, 'g) ad_service \<Rightarrow> ('u, 'g) ad_service" where
  "Page_Get k owner url navigation s =
     (if k \<in> fst ` set (ab_pages s) then s else put_page k (new_page owner url navigation) s)"

definition Page_ReadyToCommit :: "'u ad_navigation \<Rightarrow> 'u ad_page \<Rightarrow> 'u ad_page" where
  "Page_ReadyToCommit h pg =
     (let site = (case nh_main_url h of Some main \<Rightarrow> main | None \<Rightarrow> nh_url h)
      in pg\<lparr>pg_committing := om_put (nh_frame h) (nh_url h, site) (pg_committing pg)\<rparr>)"

definition Page_FrameDeleted :: "nat \<Rightarrow> 'u ad_page \<Rightarrow> 'u ad_page" where
  "Page_FrameDeleted frame pg = pg\<lparr>pg_committing := om_del frame (pg_committing pg)\<rparr>"

definition Page_DidStart :: "'u ad_navigation \<Rightarrow> 'u ad_page \<Rightarrow> 'u ad_page" where
  "Page_DidStart h pg =
     (if \<not> nh_primary_main h \<or> nh_same_document h then pg
      else Page_Notify (pg\<lparr>pg_pending := True, pg_navigation := nh_id h, pg_url := nh_url h,
             pg_blocked := 0, pg_hits := [], pg_reload := False\<rparr>))"

definition Page_DidRedirect :: "'u ad_navigation \<Rightarrow> 'u ad_page \<Rightarrow> 'u ad_page" where
  "Page_DidRedirect h pg =
     (if nh_primary_main h \<and> \<not> nh_same_document h then Page_Notify (pg\<lparr>pg_url := nh_url h\<rparr>) else pg)"

text \<open>\<open>last_url\<close> is the last committed URL of the contents, \<open>fresh\<close> a new token.\<close>

definition Page_DidFinish :: "'u \<Rightarrow> string \<Rightarrow> 'u ad_navigation \<Rightarrow> 'u ad_page \<Rightarrow> 'u ad_page" where
  "Page_DidFinish last_url fresh h pg =
     (let pg = (if nh_committed h \<and> \<not> nh_same_document h
                then pg\<lparr>pg_committing := om_del (nh_frame h) (pg_committing pg)\<rparr> else pg)
      in if \<not> nh_primary_main h then pg
         else if nh_same_document h
         then (if nh_committed h then Page_Notify (pg\<lparr>pg_url := nh_url h\<rparr>) else pg)
         else let pg = pg\<lparr>pg_pending := False\<rparr>
              in Page_Notify
                   (if nh_committed h then pg\<lparr>pg_url := nh_url h, pg_navigation := nh_id h\<rparr>
                    else pg\<lparr>pg_url := last_url, pg_navigation := fresh, pg_blocked := 0,
                           pg_hits := []\<rparr>))"

text \<open>The timer of \<open>Notify\<close> fires: the shell is told that the page has changed.\<close>

definition Page_NotifyFired :: "nat \<Rightarrow> ('u, 'g) ad_service \<Rightarrow> ('u, 'g) ad_service" where
  "Page_NotifyFired k s =
     (case map_of (ab_pages s) k of
        None \<Rightarrow> s
      | Some pg \<Rightarrow> ad_emit (AdPageBroadcast (pg_owner pg) (pg_navigation pg))
                     (put_page k (pg\<lparr>pg_notify := False\<rparr>) s))"

text \<open>A frame as the checks see it: its page, and the committed URL of its outermost main frame.\<close>

record 'u ad_frame =
  fr_id :: nat
  fr_page :: nat
  fr_owner :: nat
  fr_primary :: bool
  fr_url :: 'u
  fr_main_url :: 'u

definition Page_CosmeticSite :: "'u ad_frame \<Rightarrow> 'u \<Rightarrow> 'u ad_page \<Rightarrow> 'u option" where
  "Page_CosmeticSite frame url pg =
     (case map_of (pg_committing pg) (fr_id frame) of
        Some (committing, site) \<Rightarrow>
          if committing = url then Some site
          else if fr_url frame = url then Some (fr_main_url frame) else None
      | None \<Rightarrow> if fr_url frame = url then Some (fr_main_url frame) else None)"

definition Page_RequestSite :: "('u, 'g) ad_lib \<Rightarrow> 'u ad_frame \<Rightarrow> 'u \<Rightarrow> 'u ad_page \<Rightarrow> 'u" where
  "Page_RequestSite A frame initiator pg =
     (case map_of (pg_committing pg) (fr_id frame) of
        Some (committing, site) \<Rightarrow>
          if same_origin A committing initiator then site else fr_main_url frame
      | None \<Rightarrow> fr_main_url frame)"

section \<open>Where requests come from\<close>

text \<open>
  What the browser process knows of a request: the frame of its token if it still exists, the
  service of the process if that still exists, and whether the process may use the
  initiator's origin. The throttle has the contents it was made for.
\<close>

datatype 'u ad_origin =
    FromFilter bool "'u ad_frame option" "nat option" bool 'u string string
  | FromThrottle nat "'u ad_frame option" bool bool "'u option" string
  | FromSocket "'u ad_frame option" "nat option" 'u

definition check_for ::
  "nat \<Rightarrow> nat \<Rightarrow> nat option \<Rightarrow> 'u \<Rightarrow> 'u \<Rightarrow> string \<Rightarrow> string \<Rightarrow> 'u ad_check" where
  "check_for t owner page url site type method = \<lparr>ck_ticket = t, ck_owner = owner, ck_page = page,
     ck_navigation = [], ck_revision = 0, ck_url = url, ck_site = site, ck_type = type,
     ck_method = method\<rparr>"

definition page_site ::
  "('u, 'g) ad_lib \<Rightarrow> 'u ad_frame \<Rightarrow> 'u \<Rightarrow> ('u, 'g) ad_service \<Rightarrow> 'u" where
  "page_site A frame initiator s =
     (case map_of (ab_pages s) (fr_page frame) of
        None \<Rightarrow> fr_main_url frame
      | Some pg \<Rightarrow> Page_RequestSite A frame initiator pg)"

text \<open>The check that \<open>FilterHost::Check\<close> makes, or none if it settles at once.\<close>

fun FilterHost_Check ::
  "('u, 'g) ad_lib \<Rightarrow> nat \<Rightarrow> bool \<Rightarrow> 'u ad_frame option \<Rightarrow> nat option \<Rightarrow> bool \<Rightarrow> 'u \<Rightarrow> string \<Rightarrow>
   string \<Rightarrow> 'u \<Rightarrow> ('u, 'g) ad_service \<Rightarrow> 'u ad_check option" where
  "FilterHost_Check A t has_token frame process may_access initiator type method url s =
     (if length type > 32 \<or> length method > 32 \<or>
         (url_is_valid A initiator \<and> \<not> scheme_is_http_or_https A initiator) then None
      else if \<not> has_token
      then (case process of
              None \<Rightarrow> None
            | Some owner \<Rightarrow>
                if \<not> scheme_is_http_or_https A initiator \<or> \<not> may_access then None
                else Some (check_for t owner None url initiator type method))
      else case frame of
        None \<Rightarrow> None
      | Some f \<Rightarrow> Some (check_for t (fr_owner f) (if fr_primary f then Some (fr_page f) else None)
                         url (page_site A f initiator s) type method))"

text \<open>\<open>BrowserThrottle::Check\<close>, which defers the request when it asks.\<close>

fun BrowserThrottle_Check ::
  "('u, 'g) ad_lib \<Rightarrow> nat \<Rightarrow> nat \<Rightarrow> 'u ad_frame option \<Rightarrow> bool \<Rightarrow> bool \<Rightarrow> 'u option \<Rightarrow> string \<Rightarrow>
   'u \<Rightarrow> ('u, 'g) ad_service \<Rightarrow> 'u ad_check option" where
  "BrowserThrottle_Check A t owner contents worker main initiator method url s =
     (if \<not> owner_alive owner s \<or> (\<not> worker \<and> contents = None) \<or> \<not> scheme_is_http_or_https A url
      then None
      else let site = (if worker then (case initiator of Some i \<Rightarrow> i | None \<Rightarrow> url)
                       else if main then url
                       else fr_main_url (the contents))
           in if \<not> Eligible A owner s site then None
              else Some (check_for t owner (if worker then None else Some (fr_page (the contents)))
                     url site
                     (if worker then ''script'' else if main then ''document'' else ''subdocument'')
                     method))"

fun CheckWebSocket ::
  "('u, 'g) ad_lib \<Rightarrow> nat \<Rightarrow> 'u ad_frame option \<Rightarrow> nat option \<Rightarrow> 'u \<Rightarrow> 'u \<Rightarrow>
   ('u, 'g) ad_service \<Rightarrow> 'u ad_check option" where
  "CheckWebSocket A t frame process from url s =
     (case process of
        None \<Rightarrow> None
      | Some owner \<Rightarrow>
          if \<not> scheme_is_http_or_https A from then None
          else case frame of
            None \<Rightarrow> Some (check_for t owner None url from ''websocket'' ''GET'')
          | Some f \<Rightarrow> Some (check_for t owner (Some (fr_page f)) url (page_site A f from s)
                             ''websocket'' ''GET''))"

fun check_of ::
  "('u, 'g) ad_lib \<Rightarrow> nat \<Rightarrow> 'u ad_origin \<Rightarrow> 'u \<Rightarrow> ('u, 'g) ad_service \<Rightarrow> 'u ad_check option" where
  "check_of A t (FromFilter has_token frame process may initiator type method) url s =
     FilterHost_Check A t has_token frame process may initiator type method url s"
| "check_of A t (FromThrottle owner contents worker main initiator method) url s =
     BrowserThrottle_Check A t owner contents worker main initiator method url s"
| "check_of A t (FromSocket frame process from) url s = CheckWebSocket A t frame process from url s"

text \<open>A request without a check goes on; the decision that says so has no rules in it.\<close>

definition Ask ::
  "('u, 'g) ad_lib \<Rightarrow> nat \<Rightarrow> 'u ad_origin \<Rightarrow> 'u \<Rightarrow> ('u, 'g) ad_service \<Rightarrow> ('u, 'g) ad_service" where
  "Ask A t origin url s =
     (case check_of A t origin url s of
        None \<Rightarrow> ad_decide (check_for t 0 None url url [] []) (new_decision A) s
      | Some ck \<Rightarrow> CheckRequest A ck s)"

section \<open>Carrying out a decision\<close>

text \<open>
  \<open>DecisionThrottle\<close>: \<open>parse\<close> is what \<open>net::DataURL::Parse\<close> makes of the replacement and
  \<open>override_ok\<close> the answer of \<open>OverrideDeferredRequest\<close>.
\<close>

datatype 'u throttle_call =
    ThrottleServe string string string
  | ThrottleRewrite 'u
  | ThrottleResume
  | ThrottleCancel string

record ad_throttle =
  th_csp :: string
  th_rewrites :: int

definition kMaxReplacement :: nat where "kMaxReplacement = 1024 * 1024"

definition block_reason :: "'u ad_decision \<Rightarrow> string" where
  "block_reason d = (if de_reason d = ''missingRedirectResource''
     then ''lumie-adblock-missing-resource'' else ''lumie-adblock'')"

definition Throttle_Resolve ::
  "('u, 'g) ad_lib \<Rightarrow> ('u \<Rightarrow> (string \<times> string \<times> string) option) \<Rightarrow> bool \<Rightarrow> 'u ad_decision option \<Rightarrow>
   ad_throttle \<Rightarrow> 'u throttle_call list \<times> ad_throttle" where
  "Throttle_Resolve A parse override_ok decision th =
     (case decision of
        None \<Rightarrow> ([ThrottleResume], th\<lparr>th_csp := []\<rparr>)
      | Some d \<Rightarrow>
          let th = th\<lparr>th_csp := de_csp d\<rparr>
          in if de_blocked d
             then (case (if de_redirect d \<noteq> [] \<and> length (de_redirect d) \<le> 2 * kMaxReplacement
                         then parse (gurl A (de_redirect d)) else None) of
                     None \<Rightarrow> ([ThrottleCancel (block_reason d)], th)
                   | Some (mime, charset, body) \<Rightarrow>
                       if length body > kMaxReplacement then ([ThrottleCancel (block_reason d)], th)
                       else if override_ok
                       then ([ThrottleServe mime charset body, ThrottleResume], th)
                       else ([ThrottleServe mime charset body, ThrottleCancel (block_reason d)], th))
             else if de_rewritten d \<noteq> empty_url A
             then let th = th\<lparr>th_rewrites := th_rewrites th + 1\<rparr>
                  in if th_rewrites th > 8 then ([ThrottleCancel ''too-many-redirects''], th)
                     else if \<not> override_ok
                     then ([ThrottleRewrite (de_rewritten d), ThrottleCancel ''too-many-redirects''], th)
                     else ([ThrottleRewrite (de_rewritten d), ThrottleResume], th)
             else ([ThrottleResume], th))"

section \<open>The machine\<close>

text \<open>
  \<open>AdJob\<close> is the reply of the worker to its only job: the file it read, or the length and
  the bytes of an imported file.
\<close>

datatype 'u ad_event =
    AdJob env "string option" int "string option"
  | AdLoaded env ad_response
  | AdRedirected env 'u
  | AdTimer env bool
  | AdCommand env import_stat nat string dict nat
  | AdSiteCommand nat "nat option" dict nat
  | AdIncognito nat string
  | AdIncognitoEnd
  | AdPageNew nat nat 'u string
  | AdPageGone nat
  | AdPageCommit nat "'u ad_navigation"
  | AdPageFrameGone nat nat
  | AdPageStart nat "'u ad_navigation"
  | AdPageRedirect nat "'u ad_navigation"
  | AdPageFinish nat 'u string "'u ad_navigation"
  | AdPageTimer nat
  | AdAsk nat "'u ad_origin" 'u
  | AdMatched nat
  | AdRequesterGone nat

definition on_page ::
  "nat \<Rightarrow> ('u ad_page \<Rightarrow> 'u ad_page) \<Rightarrow> ('u, 'g) ad_service \<Rightarrow> ('u, 'g) ad_service" where
  "on_page k f s = (case map_of (ab_pages s) k of None \<Rightarrow> s | Some pg \<Rightarrow> put_page k (f pg) s)"

definition job_result ::
  "('u, 'g) ad_lib \<Rightarrow> env \<Rightarrow> string option \<Rightarrow> int \<Rightarrow> string option \<Rightarrow> ad_job \<Rightarrow> 'g compiled" where
  "job_result A E file len bytes job =
     (case job of
        JobRestore \<Rightarrow> Compile_config A (Restore_config A file)
      | JobCompile config reply \<Rightarrow> Compile_config A config
      | JobImport config t \<Rightarrow> Import_config A E len bytes config)"

fun job_reply :: "ad_job \<Rightarrow> nat option" where
  "job_reply JobRestore = None"
| "job_reply (JobCompile config reply) = reply"
| "job_reply (JobImport config t) = Some t"

definition check_query :: "('u, 'g) ad_lib \<Rightarrow> 'u ad_check \<Rightarrow> (string \<times> string) list" where
  "check_query A ck = [(''url'', spec A (ck_url ck)), (''source'', spec A (ck_site ck)),
     (''type'', ck_type ck), (''method'', ck_method ck)]"

definition remove_at :: "nat \<Rightarrow> 'a list \<Rightarrow> 'a list" where
  "remove_at n xs = take n xs @ drop (Suc n) xs"

fun adb_step :: "('u, 'g) ad_lib \<Rightarrow> ('u, 'g) ad_service \<Rightarrow> 'u ad_event \<Rightarrow> ('u, 'g) ad_service" where
  "adb_step A s (AdJob E file len bytes) =
     (case ab_jobs s of
        [] \<Rightarrow> s
      | job # jobs \<Rightarrow> Installed A E (job \<noteq> JobRestore) (job_reply job)
          (job_result A E file len bytes job) (s\<lparr>ab_jobs := jobs\<rparr>))"
| "adb_step A s (AdLoaded E r) = Downloaded A E r s"
| "adb_step A s (AdRedirected E url) = OnRedirect A E url s"
| "adb_step A s (AdTimer E offline) = AutoUpdate A E offline s"
| "adb_step A s (AdCommand E st owner name cmd t) = Mutate A E st owner name cmd t s"
| "adb_step A s (AdSiteCommand owner k cmd t) = HandleAdBlockSite A owner k cmd t s"
| "adb_step A s (AdIncognito n context) = Service_Incognito n context s"
| "adb_step A s AdIncognitoEnd = s\<lparr>ab_private := None\<rparr>"
| "adb_step A s (AdPageNew k owner url navigation) = Page_Get k owner url navigation s"
| "adb_step A s (AdPageGone k) = s\<lparr>ab_pages := om_del k (ab_pages s)\<rparr>"
| "adb_step A s (AdPageCommit k h) = on_page k (Page_ReadyToCommit h) s"
| "adb_step A s (AdPageFrameGone k frame) = on_page k (Page_FrameDeleted frame) s"
| "adb_step A s (AdPageStart k h) = on_page k (Page_DidStart h) s"
| "adb_step A s (AdPageRedirect k h) = on_page k (Page_DidRedirect h) s"
| "adb_step A s (AdPageFinish k url fresh h) = on_page k (Page_DidFinish url fresh h) s"
| "adb_step A s (AdPageTimer k) = Page_NotifyFired k s"
| "adb_step A s (AdAsk t origin url) = Ask A t origin url s"
| "adb_step A s (AdMatched n) =
     (case ab_matching s ! n of (ck, engine) \<Rightarrow>
        Check_result A ck (Engine_Query A engine (check_query A ck))
          (s\<lparr>ab_matching := remove_at n (ab_matching s)\<rparr>))"
| "adb_step A s (AdRequesterGone t) = s\<lparr>ab_gone := t # ab_gone s\<rparr>"

text \<open>
  The environment: the worker answers a job it has, the loader answers while it loads and
  with no more than it may download, a fresh token has 32 characters and is not the id of a
  source, a command comes
  from a service that exists, a page belongs to one and is made once, and the numbers of
  incognito services are new.
\<close>

definition ids :: "ad_config \<Rightarrow> string set" where
  "ids c = fs_id ` set (ac_sources c)"

fun adb_ok :: "('u, 'g) ad_service \<Rightarrow> 'u ad_event \<Rightarrow> bool" where
  "adb_ok s (AdJob E file len bytes) = (ab_jobs s \<noteq> [])"
| "adb_ok s (AdLoaded E r) = (ab_loading s \<and>
     (case rp_data r of None \<Rightarrow> True | Some d \<Rightarrow> length d \<le> kListMaxBytes))"
| "adb_ok s (AdRedirected E url) = ab_loading s"
| "adb_ok s (AdTimer E offline) = True"
| "adb_ok s (AdCommand E st owner name cmd t) =
     (owner_alive owner s \<and> length (token E) = 32 \<and> token E \<notin> ids (ab_config s))"
| "adb_ok s (AdSiteCommand owner k cmd t) = (owner_alive owner s \<and>
     (case k of None \<Rightarrow> True | Some k \<Rightarrow> (case map_of (ab_pages s) k of None \<Rightarrow> True
        | Some pg \<Rightarrow> pg_owner pg = owner)))"
| "adb_ok s (AdIncognito n context) = (n \<noteq> 0 \<and> ab_private s = None \<and>
     list_all (\<lambda>ck. ck_owner ck \<noteq> n) (ab_waiting s @ map fst (ab_matching s)))"
| "adb_ok s AdIncognitoEnd = True"
| "adb_ok s (AdPageNew k owner url navigation) = owner_alive owner s"
| "adb_ok s (AdMatched n) = (n < length (ab_matching s))"
| "adb_ok s _ = True"

end
