(* ===== verification/Ad_Machine.thy ===== *)
theory Ad_Machine
  imports Ad_Pages
begin

text \<open>
  The invariant of the advertisement blocker: its configuration stays well formed, one
  compilation or one download is on its way at a time and the queue is empty when neither
  is, and every check and every command is answered once. First what each operation leaves
  alone, then the preservation of the parts of the invariant.
\<close>

section \<open>What the operations leave alone\<close>

lemma ad_emit_simps [simp]:
  "ab_config (ad_emit e s) = ab_config s" "ab_engine (ad_emit e s) = ab_engine s"
  "ab_initialized (ad_emit e s) = ab_initialized s" "ab_busy (ad_emit e s) = ab_busy s"
  "ab_error (ad_emit e s) = ab_error s" "ab_active (ad_emit e s) = ab_active s"
  "ab_queue (ad_emit e s) = ab_queue s" "ab_retry (ad_emit e s) = ab_retry s"
  "ab_failures (ad_emit e s) = ab_failures s" "ab_loading (ad_emit e s) = ab_loading s"
  "ab_revision (ad_emit e s) = ab_revision s" "ab_private (ad_emit e s) = ab_private s"
  "ab_pages (ad_emit e s) = ab_pages s" "ab_jobs (ad_emit e s) = ab_jobs s"
  "ab_waiting (ad_emit e s) = ab_waiting s" "ab_matching (ad_emit e s) = ab_matching s"
  "ab_gone (ad_emit e s) = ab_gone s" "ab_context (ad_emit e s) = ab_context s"
  "ab_log (ad_emit e s) = ab_log s @ [e]"
  by (simp_all add: ad_emit_def)

lemma pages_reload_simps [simp]:
  "ab_config (pages_reload n s) = ab_config s" "ab_engine (pages_reload n s) = ab_engine s"
  "ab_initialized (pages_reload n s) = ab_initialized s" "ab_busy (pages_reload n s) = ab_busy s"
  "ab_error (pages_reload n s) = ab_error s" "ab_active (pages_reload n s) = ab_active s"
  "ab_queue (pages_reload n s) = ab_queue s" "ab_retry (pages_reload n s) = ab_retry s"
  "ab_failures (pages_reload n s) = ab_failures s" "ab_loading (pages_reload n s) = ab_loading s"
  "ab_revision (pages_reload n s) = ab_revision s" "ab_private (pages_reload n s) = ab_private s"
  "ab_jobs (pages_reload n s) = ab_jobs s" "ab_waiting (pages_reload n s) = ab_waiting s"
  "ab_matching (pages_reload n s) = ab_matching s" "ab_gone (pages_reload n s) = ab_gone s"
  "ab_log (pages_reload n s) = ab_log s"
  by (simp_all add: pages_reload_def)

lemma Incognito_Changed_simps [simp]:
  "ab_config (Incognito_Changed s) = ab_config s" "ab_engine (Incognito_Changed s) = ab_engine s"
  "ab_initialized (Incognito_Changed s) = ab_initialized s" "ab_busy (Incognito_Changed s) = ab_busy s"
  "ab_error (Incognito_Changed s) = ab_error s" "ab_active (Incognito_Changed s) = ab_active s"
  "ab_queue (Incognito_Changed s) = ab_queue s" "ab_retry (Incognito_Changed s) = ab_retry s"
  "ab_failures (Incognito_Changed s) = ab_failures s" "ab_loading (Incognito_Changed s) = ab_loading s"
  "ab_revision (Incognito_Changed s) = ab_revision s" "ab_jobs (Incognito_Changed s) = ab_jobs s"
  "ab_waiting (Incognito_Changed s) = ab_waiting s" "ab_matching (Incognito_Changed s) = ab_matching s"
  "ab_gone (Incognito_Changed s) = ab_gone s"
  by (simp_all add: Incognito_Changed_def split: option.split)

lemma Changed_simps [simp]:
  "ab_config (Changed p s) = ab_config s" "ab_engine (Changed p s) = ab_engine s"
  "ab_initialized (Changed p s) = ab_initialized s" "ab_busy (Changed p s) = ab_busy s"
  "ab_error (Changed p s) = ab_error s" "ab_active (Changed p s) = ab_active s"
  "ab_queue (Changed p s) = ab_queue s" "ab_retry (Changed p s) = ab_retry s"
  "ab_failures (Changed p s) = ab_failures s" "ab_loading (Changed p s) = ab_loading s"
  "ab_revision (Changed p s) = ab_revision s + 1" "ab_jobs (Changed p s) = ab_jobs s"
  "ab_waiting (Changed p s) = ab_waiting s" "ab_matching (Changed p s) = ab_matching s"
  "ab_gone (Changed p s) = ab_gone s"
  by (simp_all add: Changed_def Let_def)

lemma ad_reply_simps [simp]:
  "ab_config (ad_reply t e l s) = ab_config s" "ab_engine (ad_reply t e l s) = ab_engine s"
  "ab_initialized (ad_reply t e l s) = ab_initialized s" "ab_busy (ad_reply t e l s) = ab_busy s"
  "ab_error (ad_reply t e l s) = ab_error s" "ab_active (ad_reply t e l s) = ab_active s"
  "ab_queue (ad_reply t e l s) = ab_queue s" "ab_retry (ad_reply t e l s) = ab_retry s"
  "ab_failures (ad_reply t e l s) = ab_failures s" "ab_loading (ad_reply t e l s) = ab_loading s"
  "ab_private (ad_reply t e l s) = ab_private s" "ab_pages (ad_reply t e l s) = ab_pages s"
  "ab_jobs (ad_reply t e l s) = ab_jobs s" "ab_waiting (ad_reply t e l s) = ab_waiting s"
  "ab_matching (ad_reply t e l s) = ab_matching s" "ab_revision (ad_reply t e l s) = ab_revision s"
  by (simp_all add: ad_reply_def split: option.split)

text \<open>
  What a check may change: the lists of pending checks, the pages and the log. \<open>rest_of\<close> is
  the rest of the state.
\<close>

definition rest_of :: "('u, 'g) ad_service \<Rightarrow> ('u, 'g) ad_service" where
  "rest_of s = s\<lparr>ab_pages := [], ab_waiting := [], ab_matching := [], ab_log := []\<rparr>"

lemma rest_ofD:
  assumes "rest_of s = rest_of s'"
  shows "ab_config s = ab_config s'" "ab_engine s = ab_engine s'"
    "ab_initialized s = ab_initialized s'" "ab_busy s = ab_busy s'" "ab_error s = ab_error s'"
    "ab_active s = ab_active s'" "ab_queue s = ab_queue s'" "ab_retry s = ab_retry s'"
    "ab_failures s = ab_failures s'" "ab_loading s = ab_loading s'" "ab_jobs s = ab_jobs s'"
    "ab_private s = ab_private s'" "ab_revision s = ab_revision s'" "ab_gone s = ab_gone s'"
  using assms by (cases s; cases s'; simp add: rest_of_def)+

lemma rest_of_simps [simp]:
  "rest_of (ad_emit e s) = rest_of s" "rest_of (ad_decide ck d s) = rest_of s"
  "rest_of (s\<lparr>ab_waiting := w\<rparr>) = rest_of s" "rest_of (s\<lparr>ab_matching := m\<rparr>) = rest_of s"
  "rest_of (put_page k pg s) = rest_of s"
  by (simp_all add: rest_of_def ad_decide_def ad_emit_def put_page_def)

lemma Check_final_frame [simp]: "rest_of (Check_final A ck result s) = rest_of s"
  by (simp add: Check_final_def Let_def split: option.split)

lemma Check_frame [simp]:
  "rest_of (CheckRequest A ck s) = rest_of s"
  "rest_of (Check_result A ck result s) = rest_of s"
proof (induction A ck s and A ck result s rule: CheckRequest_Check_result.induct)
  case (1 A ck s)
  then show ?case
    by (subst CheckRequest.simps) (simp add: Let_def del: if_cancel)
next
  case (2 A ck result s)
  then show ?case
    by (subst Check_result.simps) simp
qed

lemma Query_again_frame [simp]: "rest_of (Query_again A ck s) = rest_of s"
  by (simp add: Query_again_def)

lemma Query_again_fold_frame [simp]: "rest_of (fold (Query_again A) cks s) = rest_of s"
  by (induction cks arbitrary: s) simp_all

lemmas check_frames [simp] =
  rest_ofD [OF Check_frame(1)] rest_ofD [OF Check_frame(2)] rest_ofD [OF Query_again_frame]
  rest_ofD [OF Query_again_fold_frame]

section \<open>Every check is answered once\<close>

text \<open>How often a check is waiting, with the matcher, or decided or dropped.\<close>

definition settles :: "nat \<Rightarrow> 'u ad_effect \<Rightarrow> bool" where
  "settles t e = (case e of AdDecide ck d \<Rightarrow> ck_ticket ck = t | AdDrop ck \<Rightarrow> ck_ticket ck = t | _ \<Rightarrow> False)"

definition check_count :: "('u, 'g) ad_service \<Rightarrow> nat \<Rightarrow> nat" where
  "check_count s t = length (filter (\<lambda>ck. ck_ticket ck = t) (ab_waiting s)) +
     length (filter (\<lambda>(ck, engine). ck_ticket ck = t) (ab_matching s)) +
     length (filter (settles t) (ab_log s))"

definition one_if :: "bool \<Rightarrow> nat" where "one_if b = (if b then 1 else 0)"

lemma one_if_simps [simp]: "one_if True = 1" "one_if False = 0"
  by (simp_all add: one_if_def)

lemma check_count_emit [simp]:
  "check_count (ad_emit e s) t = check_count s t + one_if (settles t e)"
  by (simp add: check_count_def one_if_def)

lemma settles_simps [simp]:
  "settles t (AdDecide ck d) = (ck_ticket ck = t)" "settles t (AdDrop ck) = (ck_ticket ck = t)"
  "\<not> settles t (AdWrite v)" "\<not> settles t (AdBroadcast n r)" "\<not> settles t (AdPageBroadcast n p)"
  "\<not> settles t (AdDownload a b c)" "\<not> settles t (AdReply k e l)"
  by (simp_all add: settles_def)

lemma check_count_frame:
  "ab_waiting s = ab_waiting s' \<Longrightarrow> ab_matching s = ab_matching s' \<Longrightarrow>
   filter (settles t) (ab_log s) = filter (settles t) (ab_log s') \<Longrightarrow> check_count s t = check_count s' t"
  by (simp add: check_count_def)

lemma check_count_waiting:
  "check_count (s\<lparr>ab_waiting := ab_waiting s @ [ck]\<rparr>) t = check_count s t + one_if (ck_ticket ck = t)"
  "check_count (s\<lparr>ab_matching := ab_matching s @ [(ck, g)]\<rparr>) t = check_count s t + one_if (ck_ticket ck = t)"
  by (simp_all add: check_count_def one_if_def)

lemma Check_final_count:
  "check_count (Check_final A ck result s) t = check_count s t + one_if (ck_ticket ck = t)"
proof -
  have "check_count (put_page k pg s) t = check_count s t" for k pg
    by (rule check_count_frame) (simp_all add: put_page_def)
  then show ?thesis
    by (simp add: Check_final_def Let_def ad_decide_def split: option.split)
qed

lemma Check_count:
  "check_count (CheckRequest A ck s) t = check_count s t + one_if (ck_ticket ck = t)"
  "check_count (Check_result A ck result s) t = check_count s t + one_if (ck_ticket ck = t)"
proof (induction A ck s and A ck result s rule: CheckRequest_Check_result.induct)
  case (1 A ck s)
  then show ?case
    by (subst CheckRequest.simps) (simp add: Let_def ad_decide_def check_count_waiting)
next
  case (2 A ck result s)
  then show ?case
    by (subst Check_result.simps) (simp add: ad_decide_def Check_final_count)
qed

lemma Query_again_count:
  "check_count (Query_again A ck s) t = check_count s t + one_if (ck_ticket ck = t)"
  by (simp add: Query_again_def Check_count check_count_waiting)

lemma Query_again_fold_count:
  "check_count (fold (Query_again A) cks s) t =
   check_count s t + length (filter (\<lambda>ck. ck_ticket ck = t) cks)"
  by (induction cks arbitrary: s) (simp_all add: Query_again_count one_if_def)

text \<open>Every command of the shell is answered once: the reply waits with a job, or is in the log.\<close>

definition replies :: "nat \<Rightarrow> 'u ad_effect \<Rightarrow> bool" where
  "replies t e = (case e of AdReply k error line \<Rightarrow> k = t | _ \<Rightarrow> False)"

lemma replies_simps [simp]:
  "replies t (AdReply k error line) = (k = t)" "\<not> replies t (AdDecide ck d)" "\<not> replies t (AdDrop ck)"
  "\<not> replies t (AdWrite v)" "\<not> replies t (AdBroadcast n w)" "\<not> replies t (AdPageBroadcast n p)"
  "\<not> replies t (AdDownload a b c)"
  by (simp_all add: replies_def)

definition reply_count :: "('u, 'g) ad_service \<Rightarrow> nat \<Rightarrow> nat" where
  "reply_count s t = length (filter (\<lambda>j. job_reply j = Some t) (ab_jobs s)) +
     length (filter (replies t) (ab_log s))"

lemma reply_count_emit [simp]:
  "reply_count (ad_emit e s) t = reply_count s t + one_if (replies t e)"
  by (simp add: reply_count_def one_if_def)

lemma reply_count_jobs [simp]:
  "reply_count (s\<lparr>ab_jobs := ab_jobs s @ [j]\<rparr>) t = reply_count s t + one_if (job_reply j = Some t)"
  by (simp add: reply_count_def one_if_def)

text \<open>Neither count looks at the rest of the state.\<close>

lemma counts_upd [simp]:
  "check_count (s\<lparr>ab_config := c\<rparr>) t = check_count s t" "reply_count (s\<lparr>ab_config := c\<rparr>) t = reply_count s t"
  "check_count (s\<lparr>ab_engine := g\<rparr>) t = check_count s t" "reply_count (s\<lparr>ab_engine := g\<rparr>) t = reply_count s t"
  "check_count (s\<lparr>ab_initialized := b\<rparr>) t = check_count s t" "reply_count (s\<lparr>ab_initialized := b\<rparr>) t = reply_count s t"
  "check_count (s\<lparr>ab_busy := b\<rparr>) t = check_count s t" "reply_count (s\<lparr>ab_busy := b\<rparr>) t = reply_count s t"
  "check_count (s\<lparr>ab_error := x\<rparr>) t = check_count s t" "reply_count (s\<lparr>ab_error := x\<rparr>) t = reply_count s t"
  "check_count (s\<lparr>ab_active := x\<rparr>) t = check_count s t" "reply_count (s\<lparr>ab_active := x\<rparr>) t = reply_count s t"
  "check_count (s\<lparr>ab_queue := q\<rparr>) t = check_count s t" "reply_count (s\<lparr>ab_queue := q\<rparr>) t = reply_count s t"
  "check_count (s\<lparr>ab_retry := m\<rparr>) t = check_count s t" "reply_count (s\<lparr>ab_retry := m\<rparr>) t = reply_count s t"
  "check_count (s\<lparr>ab_failures := m\<rparr>) t = check_count s t" "reply_count (s\<lparr>ab_failures := m\<rparr>) t = reply_count s t"
  "check_count (s\<lparr>ab_loading := b\<rparr>) t = check_count s t" "reply_count (s\<lparr>ab_loading := b\<rparr>) t = reply_count s t"
  "check_count (s\<lparr>ab_revision := w\<rparr>) t = check_count s t" "reply_count (s\<lparr>ab_revision := w\<rparr>) t = reply_count s t"
  "check_count (s\<lparr>ab_private := p\<rparr>) t = check_count s t" "reply_count (s\<lparr>ab_private := p\<rparr>) t = reply_count s t"
  "check_count (s\<lparr>ab_pages := ps\<rparr>) t = check_count s t" "reply_count (s\<lparr>ab_pages := ps\<rparr>) t = reply_count s t"
  "check_count (s\<lparr>ab_gone := gs\<rparr>) t = check_count s t" "reply_count (s\<lparr>ab_gone := gs\<rparr>) t = reply_count s t"
  "check_count (s\<lparr>ab_jobs := js\<rparr>) t = check_count s t"
  "reply_count (s\<lparr>ab_waiting := cks\<rparr>) t = reply_count s t"
  "reply_count (s\<lparr>ab_matching := ms\<rparr>) t = reply_count s t"
  by (simp_all add: check_count_def reply_count_def)

lemma counts_Changed [simp]:
  "check_count (Changed p s) t = check_count s t" "reply_count (Changed p s) t = reply_count s t"
  "check_count (Incognito_Changed s) t = check_count s t"
  "reply_count (Incognito_Changed s) t = reply_count s t"
  by (simp_all add: Changed_def Incognito_Changed_def pages_reload_def Let_def split: option.split)

lemma counts_reply [simp]:
  "check_count (ad_reply k e l s) t = check_count s t"
  "reply_count (ad_reply k e l s) t = reply_count s t + one_if (k = Some t)"
  by (cases k; simp add: ad_reply_def)+

lemma counts_sources [simp]:
  "check_count (set_sources ss s) t = check_count s t" "reply_count (set_sources ss s) t = reply_count s t"
  "check_count (mark_failed i s) t = check_count s t" "reply_count (mark_failed i s) t = reply_count s t"
  "check_count (note_failure E i s) t = check_count s t" "reply_count (note_failure E i s) t = reply_count s t"
  "check_count (Queue i s) t = check_count s t" "reply_count (Queue i s) t = reply_count s t"
  "check_count (put_page k pg s) t = check_count s t" "reply_count (put_page k pg s) t = reply_count s t"
  by (simp_all add: set_sources_def mark_failed_def note_failure_def Queue_def put_page_def Let_def
      split: option.split)

lemma counts_queue_all [simp]:
  "check_count (queue_all P s) t = check_count s t" "reply_count (queue_all P s) t = reply_count s t"
proof -
  have "check_count (fold (\<lambda>src s. if P src then Queue (fs_id src) s else s) ss s) t = check_count s t \<and>
        reply_count (fold (\<lambda>src s. if P src then Queue (fs_id src) s else s) ss s) t = reply_count s t" for ss
    by (induction ss arbitrary: s) simp_all
  then show "check_count (queue_all P s) t = check_count s t"
    and "reply_count (queue_all P s) t = reply_count s t"
    unfolding queue_all_def by blast+
qed

lemma counts_StartNext [simp]:
  "check_count (StartNext s) t = check_count s t" "reply_count (StartNext s) t = reply_count s t"
proof (induction s rule: StartNext.induct)
  case (1 s)
  { case 1
    show ?case using "1.IH" by (subst StartNext.simps) (simp add: Let_def split: option.split)
  next
    case 2
    show ?case using "1.IH" by (subst StartNext.simps) (simp add: Let_def split: option.split) }
qed

lemma counts_Failed [simp]:
  "check_count (Failed E s) t = check_count s t" "reply_count (Failed E s) t = reply_count s t"
  by (simp_all add: Failed_def Let_def)

lemma counts_Rebuild [simp]:
  "check_count (Rebuild config k s) t = check_count s t"
  "reply_count (Rebuild config k s) t = reply_count s t + one_if (k = Some t)"
  unfolding Rebuild_def Let_def reply_count_jobs by simp_all

lemma counts_ImportFile [simp]:
  "check_count (ImportFile A E st cmd k s) t = check_count s t"
  "reply_count (ImportFile A E st cmd k s) t = reply_count s t + one_if (k = t)"
  unfolding ImportFile_def Let_def by (simp_all only: reply_count_jobs if_distrib [of "\<lambda>s. reply_count s t"]) simp_all

lemma counts_Downloaded [simp]:
  "check_count (Downloaded A E r s) t = check_count s t" "reply_count (Downloaded A E r s) t = reply_count s t"
  by (simp_all add: Downloaded_def Let_def split: option.split prod.split)

lemma counts_install_result [simp]:
  "check_count (install_result E c s) t = check_count s t" "reply_count (install_result E c s) t = reply_count s t"
  by (simp_all add: install_result_def Let_def split: option.split)


lemma counts_SetSite [simp]:
  "check_count (snd (SetSite A owner url b s)) t = check_count s t"
  "reply_count (snd (SetSite A owner url b s)) t = reply_count s t"
  by (simp_all add: SetSite_def Let_def split: option.split)

lemma counts_Mutate [simp]:
  "check_count (Mutate A E st owner name cmd k s) t = check_count s t"
  "reply_count (Mutate A E st owner name cmd k s) t = reply_count s t + one_if (k = t)"
  by (simp_all add: Mutate_def Let_def split: option.split sum.split)

lemma counts_HandleSiteCommand [simp]:
  "check_count (HandleAdBlockSite A owner k cmd m s) t = check_count s t"
  "reply_count (HandleAdBlockSite A owner k cmd m s) t = reply_count s t + one_if (m = t)"
  by (simp_all add: HandleAdBlockSite_def Let_def case_prod_unfold split: option.split)

lemma counts_on_page [simp]:
  "check_count (on_page k f s) t = check_count s t" "reply_count (on_page k f s) t = reply_count s t"
  "check_count (Page_Get k n u w s) t = check_count s t" "reply_count (Page_Get k n u w s) t = reply_count s t"
  "check_count (Page_NotifyFired k s) t = check_count s t" "reply_count (Page_NotifyFired k s) t = reply_count s t"
  by (simp_all add: on_page_def Page_Get_def Page_NotifyFired_def split: option.split)

text \<open>A check leaves no reply, and a job that is taken gives its reply.\<close>

lemma reply_count_frame:
  "ab_jobs s = ab_jobs s' \<Longrightarrow> filter (replies t) (ab_log s) = filter (replies t) (ab_log s') \<Longrightarrow>
   reply_count s t = reply_count s' t"
  by (simp add: reply_count_def)

lemma reply_count_Check [simp]:
  "reply_count (CheckRequest A ck s) t = reply_count s t"
  "reply_count (Check_result A ck result s) t = reply_count s t"
proof (induction A ck s and A ck result s rule: CheckRequest_Check_result.induct)
  case (1 A ck s)
  then show ?case
    by (subst CheckRequest.simps) (simp add: Let_def ad_decide_def)
next
  case (2 A ck result s)
  then show ?case
    by (subst Check_result.simps) (simp add: ad_decide_def Check_final_def Let_def split: option.split)
qed

lemma reply_count_fold [simp]: "reply_count (fold (Query_again A) cks s) t = reply_count s t"
  by (induction cks arbitrary: s) (simp_all add: Query_again_def)

lemma counts_Installed:
  "check_count (Installed A E p k c s) t = check_count s t"
  "reply_count (Installed A E p k c s) t = reply_count s t + one_if (k = Some t)"
proof -
  have w: "check_count (s\<lparr>ab_waiting := []\<rparr>) t + length (filter (\<lambda>ck. ck_ticket ck = t) (ab_waiting s))
      = check_count s t" for s :: "('a, 'b) ad_service"
    by (simp add: check_count_def)
  have 1: "check_count (fold (Query_again A) (ab_waiting s) (s\<lparr>ab_waiting := []\<rparr>)) t = check_count s t"
    for s :: "('a, 'b) ad_service"
    using w [of s] by (simp add: Query_again_fold_count)
  show "check_count (Installed A E p k c s) t = check_count s t"
    unfolding Installed_def Let_def by (simp add: 1 del: ad_reply_simps Changed_simps)
  show "reply_count (Installed A E p k c s) t = reply_count s t + one_if (k = Some t)"
    unfolding Installed_def Let_def by simp
qed

section \<open>Tickets\<close>

fun ad_asks :: "'u ad_event \<Rightarrow> nat option" where
  "ad_asks (AdAsk t origin url) = Some t"
| "ad_asks _ = None"

fun ad_commands :: "'u ad_event \<Rightarrow> nat option" where
  "ad_commands (AdCommand E st owner name cmd t) = Some t"
| "ad_commands (AdSiteCommand owner k cmd t) = Some t"
| "ad_commands _ = None"

lemma check_of_ticket: "check_of A t origin url s = Some ck \<Longrightarrow> ck_ticket ck = t"
  by (cases origin) (auto simp: check_for_def Let_def split: option.splits if_splits)

lemma remove_at_count:
  "n < length xs \<Longrightarrow> length (filter P (remove_at n xs)) + one_if (P (xs ! n)) = length (filter P xs)"
proof -
  assume "n < length xs"
  then have "filter P xs = filter P (take n xs @ xs ! n # drop (Suc n) xs)"
    using id_take_nth_drop by metis
  then show ?thesis by (simp add: remove_at_def one_if_def)
qed

lemma check_count_step:
  "adb_ok s e \<Longrightarrow> check_count (adb_step A s e) t = check_count s t + (if ad_asks e = Some t then 1 else 0)"
proof (cases e)
  case (AdAsk k origin url)
  show ?thesis
  proof (cases "check_of A k origin url s")
    case None
    with AdAsk show ?thesis by (simp add: Ask_def ad_decide_def check_for_def one_if_def)
  next
    case (Some ck)
    with AdAsk check_of_ticket [OF Some] show ?thesis by (simp add: Ask_def Check_count one_if_def)
  qed
next
  case (AdMatched n)
  moreover assume "adb_ok s e"
  ultimately have n: "n < length (ab_matching s)" by simp
  obtain ck g where ck: "ab_matching s ! n = (ck, g)" by (cases "ab_matching s ! n")
  have "check_count (s\<lparr>ab_matching := remove_at n (ab_matching s)\<rparr>) t + one_if (ck_ticket ck = t)
      = check_count s t"
    using remove_at_count [OF n, of "\<lambda>(ck, engine). ck_ticket ck = t"] ck
    by (simp add: check_count_def)
  with AdMatched ck show ?thesis by (simp add: Check_count)
next
  case AdJob
  then show ?thesis by (simp add: counts_Installed split: list.split)
qed (simp_all add: OnRedirect_def AutoUpdate_def Service_Incognito_def)

lemma reply_count_step:
  "adb_ok s e \<Longrightarrow> reply_count (adb_step A s e) t = reply_count s t + (if ad_commands e = Some t then 1 else 0)"
proof (cases e)
  case (AdJob E contents len bytes)
  moreover assume "adb_ok s e"
  ultimately obtain j js where j: "ab_jobs s = j # js" by (cases "ab_jobs s") auto
  have "reply_count (s\<lparr>ab_jobs := js\<rparr>) t + one_if (job_reply j = Some t) = reply_count s t"
    using j by (simp add: reply_count_def one_if_def)
  with AdJob j show ?thesis by (simp add: counts_Installed)
qed (simp_all add: OnRedirect_def AutoUpdate_def Service_Incognito_def Ask_def ad_decide_def one_if_def
    split: option.split prod.split)

interpretation ad_checks: ticket_machine "adb_step A" adb_ok "\<lambda>s. True" check_count ad_asks
  for A :: "('u, 'g) ad_lib"
  by unfold_locales (simp_all add: check_count_step)

interpretation ad_replies: ticket_machine "adb_step A" adb_ok "\<lambda>s. True" reply_count ad_commands
  for A :: "('u, 'g) ad_lib"
  by unfold_locales (simp_all add: reply_count_step)

end
