(* ===== verification/Ad_Invariant.thy ===== *)
theory Ad_Invariant
  imports Ad_Machine
begin

text \<open>
  The invariant of the advertisement blocker. Its configuration is well formed: the built-in
  lists first and unchanged, then the user's, at most 32 with different ids, within the
  limits on sizes. One compilation or download is on its way at a time, and no list is left
  in the queue when nothing is.
\<close>

section \<open>Laws of the library\<close>

text \<open>
  The empty text is valid and short; the canonical text of a URL that may be a subscription
  parses to one; the host of a URL, put back into an HTTPS URL, is its own normal form.
\<close>

definition ad_laws :: "('u, 'g) ad_lib \<Rightarrow> bool" where
  "ad_laws A \<longleftrightarrow> is_utf8 A [] \<and> utf16_size A [] \<le> 65536 \<and>
     (\<forall>u. SubscriptionUrl A u \<longrightarrow> SubscriptionUrl A (gurl A (spec A u))) \<and>
     (\<forall>u. Host A u \<noteq> [] \<longrightarrow> NormalizeHost A (Host A u) = Host A u)"

section \<open>Well-formed configurations\<close>

definition stem :: "filter_source \<Rightarrow> string \<times> string \<times> string \<times> string" where
  "stem s = (fs_id s, fs_name s, fs_kind s, fs_url s)"

definition source_ok :: "('u, 'g) ad_lib \<Rightarrow> filter_source \<Rightarrow> bool" where
  "source_ok A s \<longleftrightarrow> fs_id s \<noteq> [] \<and> length (fs_id s) \<le> 64 \<and> length (fs_text s) \<le> kListMaxBytes \<and>
     is_utf8 A (fs_text s) \<and> (fs_id s = ''brave-compat'' \<longrightarrow> fs_text s = [])"

definition custom_ok :: "('u, 'g) ad_lib \<Rightarrow> filter_source \<Rightarrow> bool" where
  "custom_ok A s \<longleftrightarrow> fs_id s \<noteq> ''brave-compat'' \<and>
     (fs_kind s = ''file'' \<or> fs_kind s = ''subscription'' \<and> SubscriptionUrl A (gurl A (fs_url s)))"

definition is_builtin_part :: "filter_source list \<Rightarrow> bool" where
  "is_builtin_part bs \<longleftrightarrow> map stem bs = map stem builtin_sources \<or>
     map stem bs = map stem (take 3 builtin_sources)"

definition sources_ok :: "('u, 'g) ad_lib \<Rightarrow> filter_source list \<Rightarrow> bool" where
  "sources_ok A ss \<longleftrightarrow> distinct (map fs_id ss) \<and> length ss \<le> 32 \<and> (\<forall>s \<in> set ss. source_ok A s) \<and>
     (\<exists>bs cs. ss = bs @ cs \<and> is_builtin_part bs \<and> (\<forall>s \<in> set cs. custom_ok A s))"

definition config_ok :: "('u, 'g) ad_lib \<Rightarrow> ad_config \<Rightarrow> bool" where
  "config_ok A c \<longleftrightarrow> sources_ok A (ac_sources c) \<and> finite (ac_exceptions c) \<and>
     card (ac_exceptions c) \<le> 1000 \<and>
     (\<forall>h \<in> ac_exceptions c. h \<noteq> [] \<and> NormalizeHost A h = h) \<and> utf16_size A (ac_user c) \<le> 65536"

lemma find_source_Some: "find_source i ss = Some s \<Longrightarrow> s \<in> set ss \<and> fs_id s = i"
  by (auto simp: find_source_def find_Some_iff)

lemma find_source_None: "find_source i ss = None \<longleftrightarrow> i \<notin> fs_id ` set ss"
  by (auto simp: find_source_def find_None_iff)

lemma update_source_map: "(\<And>s. g (f s) = g s) \<Longrightarrow> map g (update_source i f ss) = map g ss"
  by (induction i f ss rule: update_source.induct) auto

lemma update_source_length [simp]: "length (update_source i f ss) = length ss"
  by (induction i f ss rule: update_source.induct) auto

lemma update_source_append:
  "update_source i f (xs @ ys) =
     (if i \<in> fs_id ` set xs then update_source i f xs @ ys else xs @ update_source i f ys)"
  by (induction i f xs rule: update_source.induct) auto

lemma update_source_in:
  "s \<in> set (update_source i f ss) \<Longrightarrow> s \<in> set ss \<or> (\<exists>s0 \<in> set ss. fs_id s0 = i \<and> s = f s0)"
  by (induction i f ss rule: update_source.induct) (auto split: if_splits)

lemma stem_id: "stem (f s) = stem s \<Longrightarrow> fs_id (f s) = fs_id s"
  by (simp add: stem_def)

lemma stem_custom: "stem s = stem s' \<Longrightarrow> custom_ok A s = custom_ok A s'"
  by (simp add: stem_def custom_ok_def)

lemma builtin_part_stems: "map stem xs = map stem ys \<Longrightarrow> is_builtin_part xs = is_builtin_part ys"
  by (simp add: is_builtin_part_def)

text \<open>The ids, the size and the kinds survive a change that keeps what names a source.\<close>

lemma sources_ok_update:
  assumes ok: "sources_ok A ss" and stem: "\<And>s. stem (f s) = stem s"
    and keep: "\<And>s. s \<in> set ss \<Longrightarrow> fs_id s = i \<Longrightarrow> source_ok A s \<Longrightarrow> source_ok A (f s)"
  shows "sources_ok A (update_source i f ss)"
proof -
  from ok obtain bs cs where ss: "ss = bs @ cs" and bs: "is_builtin_part bs"
    and cs: "\<forall>s \<in> set cs. custom_ok A s"
    by (auto simp: sources_ok_def)
  have id: "fs_id (f s) = fs_id s" and custom: "custom_ok A (f s) = custom_ok A s" for s
    by (rule stem_id, rule stem) (rule stem_custom, rule stem)
  have "distinct (map fs_id (update_source i f ss))"
    using ok update_source_map [of fs_id f i ss, OF id] by (simp add: sources_ok_def)
  moreover have "\<forall>s \<in> set (update_source i f ss). source_ok A s"
    using ok keep by (auto simp: sources_ok_def dest: update_source_in)
  moreover have "\<exists>bs cs. update_source i f ss = bs @ cs \<and> is_builtin_part bs \<and> (\<forall>s \<in> set cs. custom_ok A s)"
  proof (cases "i \<in> fs_id ` set bs")
    case True
    with ss bs cs show ?thesis
      by (intro exI [of _ "update_source i f bs"] exI [of _ cs])
        (simp add: update_source_append builtin_part_stems [OF update_source_map [of stem f, OF stem]])
  next
    case False
    have "\<forall>s \<in> set (update_source i f cs). custom_ok A s"
      using cs custom by (auto dest!: update_source_in)
    with ss bs False show ?thesis
      by (intro exI [of _ bs] exI [of _ "update_source i f cs"]) (simp add: update_source_append)
  qed
  ultimately show ?thesis using ok by (simp add: sources_ok_def)
qed

lemma builtin_source_kind: "s \<in> set builtin_sources \<Longrightarrow> fs_kind s = ''builtin''"
proof -
  have "list_all (\<lambda>s. fs_kind s = ''builtin'') builtin_sources"
    by (simp add: builtin_sources_def new_source_def)
  then show "s \<in> set builtin_sources \<Longrightarrow> ?thesis" by (simp add: list_all_iff)
qed

lemma builtin_part_kind: "is_builtin_part bs \<Longrightarrow> s \<in> set bs \<Longrightarrow> fs_kind s = ''builtin''"
proof -
  assume "is_builtin_part bs" "s \<in> set bs"
  moreover have "set (take 3 builtin_sources) \<subseteq> set builtin_sources" by (rule set_take_subset)
  moreover have "stem ` set bs = stem ` set builtin_sources \<or> stem ` set bs = stem ` set (take 3 builtin_sources)"
    using \<open>is_builtin_part bs\<close> unfolding is_builtin_part_def by (metis list.set_map)
  ultimately have "stem s \<in> stem ` set builtin_sources" by blast
  then obtain b where "b \<in> set builtin_sources" "fs_kind s = fs_kind b" by (auto simp: stem_def)
  with builtin_source_kind show ?thesis by simp
qed

lemma builtin_part_ids:
  "is_builtin_part bs \<Longrightarrow> fs_id ` set bs = {''easylist'', ''easylist-china'', ''easyprivacy'', ''brave-compat''} \<or>
     fs_id ` set bs = {''easylist'', ''easylist-china'', ''easyprivacy''}"
proof -
  have id: "fs_id ` set bs = fst ` set (map stem bs)" by (force simp: stem_def)
  assume "is_builtin_part bs"
  then show ?thesis unfolding is_builtin_part_def
    by (elim disjE) (simp_all add: id builtin_sources_def new_source_def stem_def)
qed

lemma sources_ok_builtin: "ad_laws A \<Longrightarrow> sources_ok A builtin_sources"
  unfolding sources_ok_def
  by (intro conjI exI [of _ builtin_sources] exI [of _ "[]"])
    (auto simp: builtin_sources_def new_source_def source_ok_def ad_laws_def kListMaxBytes_def
      is_builtin_part_def)

lemma sources_ok_three:
  "ad_laws A \<Longrightarrow> sources_ok A (filter (\<lambda>s. fs_id s \<noteq> ''brave-compat'') builtin_sources)"
proof -
  have *: "filter (\<lambda>s. fs_id s \<noteq> ''brave-compat'') builtin_sources = take 3 builtin_sources"
    by (simp add: builtin_sources_def new_source_def)
  assume "ad_laws A"
  then show ?thesis unfolding * sources_ok_def
    by (intro conjI exI [of _ "take 3 builtin_sources"] exI [of _ "[]"])
      (auto simp: builtin_sources_def new_source_def source_ok_def ad_laws_def kListMaxBytes_def
        is_builtin_part_def)
qed

lemma sources_ok_add:
  assumes "sources_ok A ss" and "length ss < 32" and "source_ok A s" and "custom_ok A s"
    and "fs_id s \<notin> fs_id ` set ss"
  shows "sources_ok A (ss @ [s])"
proof -
  from assms(1) obtain bs cs where "ss = bs @ cs" "is_builtin_part bs" "\<forall>s \<in> set cs. custom_ok A s"
    by (auto simp: sources_ok_def)
  then have "\<exists>bs cs. ss @ [s] = bs @ cs \<and> is_builtin_part bs \<and> (\<forall>s \<in> set cs. custom_ok A s)"
    using assms(4) by (intro exI [of _ bs] exI [of _ "cs @ [s]"]) simp
  with assms show ?thesis by (auto simp: sources_ok_def)
qed

lemma sources_ok_remove:
  assumes ok: "sources_ok A ss" and src: "find_source i ss = Some s" "fs_kind s \<noteq> ''builtin''"
  shows "sources_ok A (filter (\<lambda>s. fs_id s \<noteq> i) ss)"
proof -
  from ok obtain bs cs where ss: "ss = bs @ cs" and bs: "is_builtin_part bs"
    and cs: "\<forall>s \<in> set cs. custom_ok A s"
    by (auto simp: sources_ok_def)
  have "s \<in> set ss" "fs_id s = i" using find_source_Some [OF src(1)] by auto
  then have "i \<notin> fs_id ` set bs"
    using ok ss src(2) builtin_part_kind [OF bs] by (force simp: sources_ok_def)
  then have "filter (\<lambda>s. fs_id s \<noteq> i) bs = bs" by (auto simp: filter_id_conv)
  then have "\<exists>bs cs. filter (\<lambda>s. fs_id s \<noteq> i) ss = bs @ cs \<and> is_builtin_part bs \<and> (\<forall>s \<in> set cs. custom_ok A s)"
    using ss bs cs by (intro exI [of _ bs] exI [of _ "filter (\<lambda>s. fs_id s \<noteq> i) cs"]) simp
  moreover have "length (filter (\<lambda>s. fs_id s \<noteq> i) ss) \<le> 32"
    using ok length_filter_le [of _ ss] by (meson order_trans sources_ok_def)
  ultimately show ?thesis using ok by (auto simp: sources_ok_def distinct_map_filter)
qed

text \<open>A subscription that is saved under a new name or URL stays one of the user's sources.\<close>

lemma sources_ok_saved:
  assumes laws: "ad_laws A" and ok: "sources_ok A ss" and src: "find_source i ss = Some s"
    and kind: "fs_kind s = ''subscription''" and url: "SubscriptionUrl A (gurl A url)"
  shows "sources_ok A (update_source i (saved_source title url) ss)"
proof -
  from ok obtain bs cs where ss: "ss = bs @ cs" and bs: "is_builtin_part bs"
    and cs: "\<forall>s \<in> set cs. custom_ok A s"
    by (auto simp: sources_ok_def)
  have s: "s \<in> set ss" "fs_id s = i" using find_source_Some [OF src] by auto
  then have out: "i \<notin> fs_id ` set bs"
    using ok ss kind builtin_part_kind [OF bs] by (force simp: sources_ok_def)
  have id: "fs_id (saved_source title url x) = fs_id x"
    and kind': "fs_kind (saved_source title url x) = fs_kind x"
    and url': "fs_url (saved_source title url x) = url" for x
    by (simp_all add: saved_source_def cleared_source_def)
  have one: "x = s" if "x \<in> set ss" "fs_id x = i" for x
    using ok that s by (auto simp: sources_ok_def distinct_map inj_on_def)
  have "distinct (map fs_id (update_source i (saved_source title url) ss))"
    using ok update_source_map [of fs_id "saved_source title url" i ss] id by (simp add: sources_ok_def)
  moreover have "source_ok A (saved_source title url x)" if "source_ok A x" for x
    using that laws by (simp add: source_ok_def saved_source_def cleared_source_def ad_laws_def)
  then have "\<forall>x \<in> set (update_source i (saved_source title url) ss). source_ok A x"
    using ok by (auto simp: sources_ok_def dest!: update_source_in)
  moreover have "custom_ok A x" if "x \<in> set (update_source i (saved_source title url) cs)" for x
    using update_source_in [OF that]
  proof
    assume "\<exists>s0 \<in> set cs. fs_id s0 = i \<and> x = saved_source title url s0"
    then obtain s0 where "s0 \<in> set cs" "fs_id s0 = i" "x = saved_source title url s0" by blast
    moreover from this one ss have "s0 = s" by simp
    ultimately show ?thesis using cs kind url id kind' url' by (auto simp: custom_ok_def)
  qed (use cs in blast)
  ultimately show ?thesis using ok ss bs out unfolding sources_ok_def
    by (intro conjI exI [of _ bs] exI [of _ "update_source i (saved_source title url) cs"])
      (simp_all add: update_source_append)
qed

lemma source_ok_count [simp]: "source_ok A (count_source v s) = source_ok A s"
  by (simp add: source_ok_def count_source_def)

lemma apply_counts_ok: "sources_ok A (ac_sources c) \<Longrightarrow> sources_ok A (ac_sources (apply_counts vs c))"
proof (induction vs c rule: apply_counts.induct)
  case (3 v vs c)
  have "sources_ok A (update_source (Str v ''id'') (count_source v) (ac_sources c))"
    using "3.prems" by (rule sources_ok_update) (simp_all add: stem_def count_source_def source_ok_def)
  then show ?case using "3.IH" [OF refl] by (cases "Str v ''id'' = ''user''") (simp_all add: Let_def)
qed simp_all

lemma apply_counts_rest [simp]:
  "ac_enabled (apply_counts vs c) = ac_enabled c" "ac_auto_update (apply_counts vs c) = ac_auto_update c"
  "ac_exceptions (apply_counts vs c) = ac_exceptions c" "ac_user (apply_counts vs c) = ac_user c"
  by (induction vs c rule: apply_counts.induct) (simp_all add: Let_def)

lemma Compile_config_ok:
  "config_ok A c \<Longrightarrow> config_ok A (co_config (Compile_config A c :: 'g compiled))"
  by (simp add: Compile_config_def config_ok_def apply_counts_ok Let_def split: option.split prod.split)

section \<open>What is restored is well formed\<close>

lemma NormalizeHost_idem:
  "ad_laws A \<Longrightarrow> NormalizeHost A h \<noteq> [] \<Longrightarrow> NormalizeHost A (NormalizeHost A h) = NormalizeHost A h"
proof -
  assume laws: "ad_laws A" and ne: "NormalizeHost A h \<noteq> []"
  then have "NormalizeHost A h = Host A (gurl A (''https://'' @ h @ ''/''))"
    by (simp add: NormalizeHost_def Let_def split: if_splits)
  with laws ne show ?thesis by (simp add: ad_laws_def)
qed

definition hosts_ok :: "('u, 'g) ad_lib \<Rightarrow> string set \<Rightarrow> bool" where
  "hosts_ok A hs \<longleftrightarrow> finite hs \<and> card hs \<le> 1000 \<and> (\<forall>h \<in> hs. h \<noteq> [] \<and> NormalizeHost A h = h)"

lemma hosts_ok_insert:
  "hosts_ok A hs \<Longrightarrow> card hs < 1000 \<or> h \<in> hs \<Longrightarrow> h \<noteq> [] \<Longrightarrow> NormalizeHost A h = h \<Longrightarrow>
   hosts_ok A (insert h hs)"
  by (auto simp: hosts_ok_def card_insert_if)

lemma hosts_ok_delete: "hosts_ok A hs \<Longrightarrow> hosts_ok A (hs - {h})"
  using card_Diff1_le [of hs h] by (auto simp: hosts_ok_def)

lemma restore_hosts_ok: "ad_laws A \<Longrightarrow> hosts_ok A hs \<Longrightarrow> hosts_ok A (restore_hosts A vs hs)"
proof (induction A vs hs rule: restore_hosts.induct)
  case (2 A v vs hosts)
  show ?case
  proof (cases v)
    case None
    with 2 show ?thesis by simp
  next
    case (Some h)
    have "hosts_ok A (insert (NormalizeHost A h) hosts)" if "card hosts < 1000" "NormalizeHost A h \<noteq> []"
      using "2.prems" that NormalizeHost_idem by (intro hosts_ok_insert) auto
    with Some 2 show ?thesis by (simp add: Let_def not_le)
  qed
qed simp

lemma config_ok_hosts:
  "config_ok A c \<longleftrightarrow> sources_ok A (ac_sources c) \<and> hosts_ok A (ac_exceptions c) \<and>
     utf16_size A (ac_user c) \<le> 65536"
  by (auto simp: config_ok_def hosts_ok_def)

lemma admitted_entry_ok:
  assumes laws: "ad_laws A" and ok: "sources_ok A ss"
    and brave: "''brave-compat'' \<in> fs_id ` set ss \<or> Str v ''id'' \<noteq> ''brave-compat''"
    and res: "admitted_entry A v ss = Some ss'"
  shows "sources_ok A ss' \<and> fs_id ` set ss \<subseteq> fs_id ` set ss'"
proof (cases "find_source (Str v ''id'') ss = None")
  case False
  with res ok show ?thesis by (simp add: admitted_entry_def)
next
  case True
  let ?s = "new_source (Str v ''id'') (Str v ''name'') (Str v ''kind'') (Str v ''url'')"
  have ss': "ss' = ss @ [?s]" and len: "length ss < 32" "Str v ''id'' \<noteq> []" "length (Str v ''id'') \<le> 64"
    and kind: "Str v ''kind'' = ''file'' \<or> Str v ''kind'' = ''subscription'' \<and> SubscriptionUrl A (gurl A (Str v ''url''))"
    using res True by (auto simp: admitted_entry_def Let_def split: if_splits)
  have new: "Str v ''id'' \<notin> fs_id ` set ss" using True by (simp add: find_source_None)
  have "sources_ok A (ss @ [?s])"
    using ok len(1)
    by (rule sources_ok_add)
      (use len kind brave new laws in \<open>auto simp: source_ok_def custom_ok_def new_source_def ad_laws_def\<close>)
  with ss' show ?thesis by auto
qed

lemma restore_source_ok:
  assumes laws: "ad_laws A" and ok: "sources_ok A ss"
    and brave: "''brave-compat'' \<in> fs_id ` set ss \<or> Str v ''id'' \<noteq> ''brave-compat''"
  shows "sources_ok A (restore_source A v ss) \<and> fs_id ` set ss \<subseteq> fs_id ` set (restore_source A v ss)"
proof (cases "admitted_entry A v ss")
  case None
  with ok show ?thesis by (simp add: restore_source_def)
next
  case (Some ss')
  note ss' = admitted_entry_ok [OF laws ok brave Some]
  have ids: "fs_id ` set (update_source (Str v ''id'') (take_saved v) ss') = fs_id ` set ss'"
  proof -
    have "map fs_id (update_source (Str v ''id'') (take_saved v) ss') = map fs_id ss'"
      by (rule update_source_map) (simp add: take_saved_def)
    then show ?thesis by (metis list.set_map)
  qed
  show ?thesis
  proof (cases "length (Str v ''text'') > kListMaxBytes \<or> \<not> is_utf8 A (Str v ''text'')")
    case True
    with Some ss' show ?thesis by (auto simp: restore_source_def)
  next
    case False
    have "sources_ok A (update_source (Str v ''id'') (take_saved v) ss')"
      using ss' [THEN conjunct1] by (rule sources_ok_update)
        (use False laws in \<open>auto simp: stem_def take_saved_def source_ok_def ad_laws_def\<close>)
    with Some False ss' ids show ?thesis by (simp add: restore_source_def)
  qed
qed

lemma restore_sources_ok:
  "ad_laws A \<Longrightarrow> sources_ok A ss \<Longrightarrow> ''brave-compat'' \<in> fs_id ` set ss \<or> \<not> list_ex names_brave vs \<Longrightarrow>
   sources_ok A (restore_sources A vs ss)"
proof (induction A vs ss rule: restore_sources.induct)
  case (3 A v vs ss)
  have "''brave-compat'' \<in> fs_id ` set ss \<or> Str v ''id'' \<noteq> ''brave-compat''"
    using "3.prems"(3) by (auto simp: names_brave_def)
  note step = restore_source_ok [OF "3.prems"(1,2) this]
  have "''brave-compat'' \<in> fs_id ` set (restore_source A v ss) \<or> \<not> list_ex names_brave vs"
    using step "3.prems"(3) by auto
  with "3.IH" [OF "3.prems"(1) step [THEN conjunct1]] show ?case by simp
qed (simp_all add: names_brave_def)

lemma Restore_config_ok: "ad_laws A \<Longrightarrow> config_ok A (Restore_config A contents)"
proof -
  assume laws: "ad_laws A"
  have def: "config_ok A default_config"
    using laws sources_ok_builtin
    by (simp add: config_ok_def default_config_def ad_laws_def)
  have src: "sources_ok A (restored_sources A saved)" for saved
  proof (cases saved)
    case None
    with laws sources_ok_builtin show ?thesis by (simp add: restored_sources_def)
  next
    case (Some vs)
    have "''brave-compat'' \<in> fs_id ` set builtin_sources"
      by (simp add: builtin_sources_def new_source_def)
    with Some laws show ?thesis
      by (auto simp: restored_sources_def intro!: restore_sources_ok sources_ok_builtin sources_ok_three)
  qed
  have hosts: "hosts_ok A (case find_list r ''exceptions'' of None \<Rightarrow> {} | Some hs \<Rightarrow> restore_hosts A hs {})" for r
    using laws by (auto simp: hosts_ok_def [of A "{}"] intro!: restore_hosts_ok split: option.split)
  have user: "utf16_size A [] \<le> 65536" using laws by (simp add: ad_laws_def)
  show ?thesis
    using def by (auto simp: Restore_config_def config_ok_hosts src hosts user Let_def split: option.split)
qed

end
