(* ===== verification/Ad_Schedule.thy ===== *)
theory Ad_Schedule
  imports Ad_Invariant
begin

text \<open>
  The schedule of the advertisement blocker: nothing is in flight but one compilation or one
  download, each list waits at most once, and nothing waits when nothing is in flight. With
  the well-formed configuration this is the invariant that every step keeps.
\<close>

section \<open>The invariant\<close>

definition queue_ok :: "('u, 'g) ad_service \<Rightarrow> bool" where
  "queue_ok s \<longleftrightarrow> distinct (ab_queue s) \<and> [] \<notin> set (ab_queue s) \<and>
     ab_active s \<notin> set (ab_queue s) \<and> ''brave-compat'' \<notin> set (ab_queue s) \<and>
     ab_active s \<noteq> ''brave-compat''"

definition turn_ok :: "('u, 'g) ad_service \<Rightarrow> bool" where
  "turn_ok s \<longleftrightarrow> (ab_loading s \<longrightarrow> \<not> ab_busy s \<and> ab_active s \<noteq> []) \<and>
     (ab_active s \<noteq> [] \<longrightarrow> (ab_busy s \<or> ab_loading s) \<and>
        find_source (ab_active s) (ac_sources (ab_config s)) \<noteq> None)"

text \<open>What the user decides about the sources: everything but their contents and counts.\<close>

definition user_view :: "ad_config \<Rightarrow> string \<times> ((string \<times> string \<times> string \<times> string) \<times> bool) list" where
  "user_view c = (ac_user c, map (\<lambda>s. (stem s, fs_enabled s)) (ac_sources c))"

fun job_ok :: "('u, 'g) ad_lib \<Rightarrow> ('u, 'g) ad_service \<Rightarrow> ad_job \<Rightarrow> bool" where
  "job_ok A s JobRestore = (\<not> ab_initialized s)"
| "job_ok A s (JobCompile c reply) = (ab_initialized s \<and> config_ok A c \<and>
     (reply = None \<longrightarrow> user_view c = user_view (ab_config s)))"
| "job_ok A s (JobImport c t) = (ab_initialized s \<and> config_ok A c \<and>
     (\<exists>ss src. ac_sources c = ss @ [src] \<and> fs_kind src = ''file''))"

definition jobs_ok :: "('u, 'g) ad_lib \<Rightarrow> ('u, 'g) ad_service \<Rightarrow> bool" where
  "jobs_ok A s \<longleftrightarrow> (if ab_busy s then \<exists>j. ab_jobs s = [j] \<and> job_ok A s j else ab_jobs s = [])"

definition started_ok :: "('u, 'g) ad_service \<Rightarrow> bool" where
  "started_ok s \<longleftrightarrow> (if ab_initialized s then ab_waiting s = []
     else ab_busy s \<and> \<not> ab_loading s \<and> ab_active s = [] \<and> ab_queue s = [])"

definition fails_ok :: "('u, 'g) ad_service \<Rightarrow> bool" where
  "fails_ok s \<longleftrightarrow> om_ok (ab_failures s) \<and> (\<forall>p \<in> set (ab_failures s). 1 \<le> snd p \<and> snd p \<le> 7)"

definition ad_pre :: "('u, 'g) ad_lib \<Rightarrow> ('u, 'g) ad_service \<Rightarrow> bool" where
  "ad_pre A s \<longleftrightarrow> config_ok A (ab_config s) \<and> queue_ok s \<and> turn_ok s \<and> jobs_ok A s \<and> started_ok s \<and> fails_ok s"

definition adb_inv :: "('u, 'g) ad_lib \<Rightarrow> ('u, 'g) ad_service \<Rightarrow> bool" where
  "adb_inv A s \<longleftrightarrow> ad_pre A s \<and> (\<not> ab_busy s \<and> \<not> ab_loading s \<longrightarrow> ab_queue s = [])"

lemmas ad_pre_defs = ad_pre_def queue_ok_def turn_ok_def jobs_ok_def started_ok_def fails_ok_def

lemma job_ok_cong:
  "ab_initialized s = ab_initialized s' \<Longrightarrow> user_view (ab_config s) = user_view (ab_config s') \<Longrightarrow>
   job_ok A s j = job_ok A s' j"
  by (cases j) simp_all

text \<open>The invariant depends on these fields only.\<close>

lemma ad_pre_cong:
  assumes "ab_config s = ab_config s'" "ab_queue s = ab_queue s'" "ab_active s = ab_active s'"
    "ab_loading s = ab_loading s'" "ab_busy s = ab_busy s'" "ab_jobs s = ab_jobs s'"
    "ab_initialized s = ab_initialized s'" "ab_initialized s \<Longrightarrow> ab_waiting s = ab_waiting s'"
    "ab_failures s = ab_failures s'"
  shows "ad_pre A s = ad_pre A s'" "adb_inv A s = adb_inv A s'"
  using assms job_ok_cong [of s s' A] by (simp_all add: adb_inv_def ad_pre_defs)

lemma ad_pre_simps [simp]:
  "ad_pre A (Changed p s) = ad_pre A s" "ad_pre A (ad_emit e s) = ad_pre A s"
  "ad_pre A (ad_reply k x l s) = ad_pre A s"
  "adb_inv A (Changed p s) = adb_inv A s" "adb_inv A (ad_emit e s) = adb_inv A s"
  "adb_inv A (ad_reply k x l s) = adb_inv A s" "adb_inv A (Incognito_Changed s) = adb_inv A s"
  "adb_inv A (put_page m pg s) = adb_inv A s" "adb_inv A (s\<lparr>ab_private := pv\<rparr>) = adb_inv A s"
  "adb_inv A (s\<lparr>ab_pages := pgs\<rparr>) = adb_inv A s" "adb_inv A (s\<lparr>ab_gone := gs\<rparr>) = adb_inv A s"
  by (rule ad_pre_cong; simp add: put_page_def)+

section \<open>Queueing and starting\<close>

lemma find_source_nonempty:
  "config_ok A c \<Longrightarrow> find_source i (ac_sources c) = Some src \<Longrightarrow> i \<noteq> []"
  using find_source_Some [of i "ac_sources c" src]
  by (auto simp: config_ok_def sources_ok_def source_ok_def)

text \<open>The offline pair of lists has no URL, so it is never queued.\<close>

lemma builtin_brave_url: "s \<in> set builtin_sources \<Longrightarrow> fs_id s = ''brave-compat'' \<Longrightarrow> fs_url s = []"
proof -
  have "list_all (\<lambda>s. fs_id s = ''brave-compat'' \<longrightarrow> fs_url s = []) builtin_sources"
    by (simp add: builtin_sources_def new_source_def)
  then show "s \<in> set builtin_sources \<Longrightarrow> fs_id s = ''brave-compat'' \<Longrightarrow> fs_url s = []"
    by (auto simp: list_all_iff)
qed

lemma brave_url:
  assumes "config_ok A c" and "find_source ''brave-compat'' (ac_sources c) = Some src"
  shows "fs_url src = []"
proof -
  from assms(1) obtain bs cs where ss: "ac_sources c = bs @ cs" and bs: "is_builtin_part bs"
    and cs: "\<forall>s \<in> set cs. custom_ok A s"
    by (auto simp: config_ok_def sources_ok_def)
  have src: "src \<in> set bs \<union> set cs" "fs_id src = ''brave-compat''"
    using find_source_Some [OF assms(2)] ss by auto
  with cs have "src \<in> set bs" by (auto simp: custom_ok_def)
  moreover have "stem ` set bs \<subseteq> stem ` set builtin_sources"
    using bs set_take_subset [of 3 builtin_sources] unfolding is_builtin_part_def
    by (metis image_mono list.set_map order_refl)
  ultimately have "stem src \<in> stem ` set builtin_sources" by blast
  then obtain b where "b \<in> set builtin_sources" "fs_id b = fs_id src" "fs_url b = fs_url src"
    by (auto simp: stem_def)
  with src(2) builtin_brave_url [of b] show ?thesis by simp
qed

lemma Queue_shape:
  "\<exists>q. Queue i s = s\<lparr>ab_queue := q\<rparr>"
  by (auto simp: Queue_def split: option.split intro: exI [of _ "ab_queue s"])

lemma Queue_pre:
  assumes "ad_pre A s" and "ab_initialized s"
  shows "ad_pre A (Queue i s)"
proof (cases "find_source i (ac_sources (ab_config s))")
  case None
  with assms show ?thesis by (simp add: Queue_def)
next
  case (Some src)
  with assms have "i \<noteq> []" by (intro find_source_nonempty) (auto simp: ad_pre_def)
  moreover have "fs_url src \<noteq> [] \<Longrightarrow> i \<noteq> ''brave-compat''"
    using assms Some by (auto simp: ad_pre_def dest: brave_url)
  ultimately show ?thesis using assms Some
    using job_ok_cong [of "s\<lparr>ab_queue := ab_queue s @ [i]\<rparr>" s A]
    by (auto simp: Queue_def ad_pre_defs)
qed

lemma queue_all_pre:
  assumes "ad_pre A s" and "ab_initialized s"
  shows "ad_pre A (queue_all P s) \<and> (\<exists>q. queue_all P s = s\<lparr>ab_queue := q\<rparr>)"
proof -
  have "ad_pre A t \<Longrightarrow> ab_initialized t \<Longrightarrow>
      ad_pre A (fold (\<lambda>src s. if P src then Queue (fs_id src) s else s) ss t) \<and>
      (\<exists>q. fold (\<lambda>src s. if P src then Queue (fs_id src) s else s) ss t = t\<lparr>ab_queue := q\<rparr>)" for ss t
  proof (induction ss arbitrary: t)
    case Nil
    then show ?case by (simp, intro exI [of _ "ab_queue t"]) simp
  next
    case (Cons src ss)
    obtain q where q: "Queue (fs_id src) t = t\<lparr>ab_queue := q\<rparr>" using Queue_shape by blast
    show ?case
    proof (cases "P src")
      case True
      have "ad_pre A (Queue (fs_id src) t)" using Cons.prems by (rule Queue_pre)
      moreover have "ab_initialized (Queue (fs_id src) t)" using q Cons.prems(2) by simp
      ultimately have "ad_pre A (fold (\<lambda>src s. if P src then Queue (fs_id src) s else s) ss (Queue (fs_id src) t)) \<and>
          (\<exists>q'. fold (\<lambda>src s. if P src then Queue (fs_id src) s else s) ss (Queue (fs_id src) t) =
             (Queue (fs_id src) t)\<lparr>ab_queue := q'\<rparr>)"
        by (rule Cons.IH)
      with True q show ?thesis by auto
    next
      case False
      with Cons show ?thesis by simp
    qed
  qed
  with assms show ?thesis unfolding queue_all_def by blast
qed

lemma StartNext_inv: "ad_pre A s \<Longrightarrow> adb_inv A (StartNext s)"
proof (induction s rule: StartNext.induct)
  case (1 s)
  show ?case
  proof (cases "ab_busy s \<or> ab_loading s \<or> ab_queue s = []")
    case True
    with "1.prems" show ?thesis by (subst StartNext.simps) (auto simp: adb_inv_def)
  next
    case False
    then obtain i q where q: "ab_queue s = i # q" and idle: "\<not> ab_busy s" "\<not> ab_loading s"
      by (cases "ab_queue s") auto
    have init: "ab_initialized s" using "1.prems" q by (simp add: ad_pre_def started_ok_def split: if_splits)
    let ?s = "s\<lparr>ab_active := i, ab_queue := q\<rparr>"
    have skip: "ad_pre A (?s\<lparr>ab_active := []\<rparr>)"
      using "1.prems" q idle init by (auto simp: ad_pre_defs)
    have go: "ad_pre A (?s\<lparr>ab_loading := True\<rparr>)" if "find_source i (ac_sources (ab_config s)) \<noteq> None"
      using "1.prems" q idle that init by (auto simp: ad_pre_defs split: if_splits)
    then have "adb_inv A (?s\<lparr>ab_loading := True\<rparr>)"
      if "find_source i (ac_sources (ab_config s)) \<noteq> None"
      using that by (simp add: adb_inv_def)
    with "1.IH" False q skip show ?thesis
      by (subst StartNext.simps) (auto simp: Let_def split: option.split)
  qed
qed

text \<open>A change of the contents of sources keeps the rest.\<close>

lemma find_source_update:
  "(\<And>x. fs_id (f x) = fs_id x) \<Longrightarrow> (find_source i (update_source j f ss) = None) = (find_source i ss = None)"
proof -
  assume id: "\<And>x. fs_id (f x) = fs_id x"
  then have "map fs_id (update_source j f ss) = map fs_id ss" by (rule update_source_map)
  then show ?thesis unfolding find_source_None by (metis list.set_map)
qed

lemma mark_failed_pre: "ad_pre A s \<Longrightarrow> ad_pre A (mark_failed i s)"
proof -
  assume pre: "ad_pre A s"
  let ?f = "\<lambda>src. src\<lparr>fs_status := ''failed''\<rparr>" and ?ss = "ac_sources (ab_config s)"
  have ok: "sources_ok A (update_source i ?f ?ss)"
    using pre by (intro sources_ok_update) (auto simp: ad_pre_def config_ok_def stem_def source_ok_def)
  have view: "user_view (ab_config (mark_failed i s)) = user_view (ab_config s)"
    by (simp add: mark_failed_def set_sources_def user_view_def update_source_map stem_def)
  then have "job_ok A (mark_failed i s) j = job_ok A s j" for j
    by (intro job_ok_cong) (simp_all add: mark_failed_def set_sources_def)
  with pre ok show ?thesis
    by (simp add: ad_pre_defs config_ok_def mark_failed_def set_sources_def find_source_update)
qed

lemma note_failure_fails: "fails_ok s \<Longrightarrow> fails_ok (note_failure E i s)"
proof -
  assume ok: "fails_ok s"
  define n where "n = min ((case map_of (ab_failures s) i of Some n \<Rightarrow> n | None \<Rightarrow> 0) + 1) (7 :: int)"
  have "1 \<le> n" using ok by (auto simp: n_def fails_ok_def split: option.split dest!: map_of_SomeD)
  moreover have "n \<le> 7" by (simp add: n_def)
  moreover have "set (om_put i n (ab_failures s)) \<subseteq> insert (i, n) (set (ab_failures s))"
    by (rule om_set_put)
  ultimately show ?thesis
    using ok unfolding n_def by (fastforce simp: fails_ok_def note_failure_def Let_def)
qed

lemma note_failure_simps [simp]:
  "ab_config (note_failure E i s) = ab_config s" "ab_queue (note_failure E i s) = ab_queue s"
  "ab_active (note_failure E i s) = ab_active s" "ab_loading (note_failure E i s) = ab_loading s"
  "ab_busy (note_failure E i s) = ab_busy s" "ab_jobs (note_failure E i s) = ab_jobs s"
  "ab_initialized (note_failure E i s) = ab_initialized s"
  "ab_waiting (note_failure E i s) = ab_waiting s" "ab_error (note_failure E i s) = ab_error s"
  by (simp_all add: note_failure_def Let_def)

lemma mark_failed_simps [simp]:
  "ab_queue (mark_failed i s) = ab_queue s" "ab_active (mark_failed i s) = ab_active s"
  "ab_loading (mark_failed i s) = ab_loading s" "ab_busy (mark_failed i s) = ab_busy s"
  "ab_jobs (mark_failed i s) = ab_jobs s" "ab_initialized (mark_failed i s) = ab_initialized s"
  "ab_waiting (mark_failed i s) = ab_waiting s" "ab_error (mark_failed i s) = ab_error s"
  by (simp_all add: mark_failed_def set_sources_def)

lemma note_failure_pre: "ad_pre A s \<Longrightarrow> ad_pre A (note_failure E i s)"
proof -
  assume pre: "ad_pre A s"
  have "fails_ok (note_failure E i s)" using pre by (auto simp: ad_pre_def intro: note_failure_fails)
  moreover have "job_ok A (note_failure E i s) j = job_ok A s j" for j
    by (rule job_ok_cong) simp_all
  ultimately show ?thesis using pre
    by (simp add: ad_pre_def queue_ok_def turn_ok_def jobs_ok_def started_ok_def)
qed

text \<open>The turn of a list ends: nothing is in flight and no list is at work.\<close>

lemma turn_over:
  assumes "ad_pre A s" and "ab_loading s"
  shows "ad_pre A (s\<lparr>ab_loading := False, ab_active := [], ab_error := x\<rparr>)"
  using assms by (auto simp: ad_pre_defs split: if_splits)

lemma Failed_inv:
  assumes pre: "ad_pre A s" and "ab_loading s"
  shows "adb_inv A (Failed E s)"
proof -
  let ?s = "note_failure E (ab_active s) (mark_failed (ab_active s) s)"
  have "ad_pre A ?s" using pre by (intro note_failure_pre mark_failed_pre)
  moreover have "ab_loading ?s" using assms(2) by simp
  ultimately have "ad_pre A (?s\<lparr>ab_loading := False, ab_active := [], ab_error := ''downloadFailed''\<rparr>)"
    by (rule turn_over)
  then have "adb_inv A (StartNext (Changed False
      (?s\<lparr>ab_loading := False, ab_active := [], ab_error := ''downloadFailed''\<rparr>)))"
    by (intro StartNext_inv) simp
  moreover have "(note_failure E i (mark_failed i (s\<lparr>ab_loading := False\<rparr>))) =
      (note_failure E i (mark_failed i s))\<lparr>ab_loading := False\<rparr>" for i
    by (simp add: note_failure_def mark_failed_def set_sources_def Let_def)
  ultimately show ?thesis by (simp add: Failed_def Let_def)
qed

section \<open>Compiling and downloading\<close>

lemma Rebuild_inv:
  assumes "config_ok A (ab_config s)" "queue_ok s" "\<not> ab_loading s" "ab_jobs s = []" "ab_initialized s"
    "ab_waiting s = []" "fails_ok s" "config_ok A c"
    "ab_active s \<noteq> [] \<Longrightarrow> find_source (ab_active s) (ac_sources (ab_config s)) \<noteq> None"
    "k = None \<Longrightarrow> user_view c = user_view (ab_config s)"
  shows "adb_inv A (Rebuild c k s)"
  using assms by (auto simp: Rebuild_def Let_def adb_inv_def ad_pre_defs)

lemma set_sources_failures [simp]: "ab_failures (set_sources ss s) = ab_failures s"
  by (simp add: set_sources_def)

lemma downloaded_config_ok:
  assumes "config_ok A c" and "i \<noteq> ''brave-compat''" and "length data \<le> kListMaxBytes" and "is_utf8 A data"
  shows "config_ok A (c\<lparr>ac_sources := update_source i (\<lambda>src. src\<lparr>fs_text := data, fs_updated := w,
    fs_etag := e, fs_modified := m\<rparr>) (ac_sources c)\<rparr>)"
proof -
  have "sources_ok A (update_source i (\<lambda>src. src\<lparr>fs_text := data, fs_updated := w,
      fs_etag := e, fs_modified := m\<rparr>) (ac_sources c))"
    by (rule sources_ok_update) (use assms in \<open>auto simp: config_ok_def stem_def source_ok_def\<close>)
  with assms(1) show ?thesis by (simp add: config_ok_def)
qed

lemma not_modified_pre:
  assumes pre: "ad_pre A s" and "ab_loading s"
  shows "ad_pre A (set_sources (update_source i (\<lambda>src. src\<lparr>fs_updated := w, fs_status := x\<rparr>)
      (ac_sources (ab_config s))) s
    \<lparr>ab_loading := False, ab_failures := om_del i (ab_failures s), ab_active := [], ab_error := []\<rparr>)"
proof -
  have "sources_ok A (update_source i (\<lambda>src. src\<lparr>fs_updated := w, fs_status := x\<rparr>) (ac_sources (ab_config s)))"
    by (rule sources_ok_update) (use pre in \<open>auto simp: ad_pre_def config_ok_def stem_def source_ok_def\<close>)
  with assms show ?thesis
    using om_set_del [of i "ab_failures s"]
    by (auto simp: ad_pre_defs config_ok_def set_sources_def split: if_splits)
qed

lemma Downloaded_inv:
  assumes inv: "adb_inv A s" and load: "ab_loading s"
    and len: "case rp_data r of None \<Rightarrow> True | Some d \<Rightarrow> length d \<le> kListMaxBytes"
  shows "adb_inv A (Downloaded A E r s)"
proof -
  have pre: "ad_pre A s" using inv by (simp add: adb_inv_def)
  have f: "adb_inv A (Failed E s)" using pre load by (rule Failed_inv)
  have n: "adb_inv A (StartNext (Changed True (set_sources (update_source i
      (\<lambda>src. src\<lparr>fs_updated := w, fs_status := x\<rparr>) (ac_sources (ab_config s))) s
      \<lparr>ab_loading := False, ab_failures := om_del i (ab_failures s), ab_active := [], ab_error := []\<rparr>)))"
    for i w x
    by (rule StartNext_inv) (simp add: not_modified_pre [OF pre load])
  have rest: "config_ok A (ab_config s)" "queue_ok s" "fails_ok s" "ab_jobs s = []" "ab_initialized s"
    "ab_waiting s = []" "ab_active s \<noteq> ''brave-compat''"
    using pre load by (auto simp: ad_pre_defs split: if_splits)
  have b: "adb_inv A (Rebuild ((ab_config s)\<lparr>ac_sources := update_source (ab_active s) (\<lambda>src. src\<lparr>
      fs_text := data, fs_updated := w, fs_etag := e, fs_modified := m\<rparr>) (ac_sources (ab_config s))\<rparr>) None
      (s\<lparr>ab_failures := om_del (ab_active s) (ab_failures s), ab_loading := False\<rparr>))"
    if data: "rp_data r = Some data" "is_utf8 A data" and src: "find_source (ab_active s) (ac_sources (ab_config s)) = Some src"
    for data w e m src
  proof (rule Rebuild_inv)
    show "config_ok A ((ab_config s)\<lparr>ac_sources := update_source (ab_active s) (\<lambda>src. src\<lparr>
      fs_text := data, fs_updated := w, fs_etag := e, fs_modified := m\<rparr>) (ac_sources (ab_config s))\<rparr>)"
      using rest data len by (intro downloaded_config_ok) auto
    show "fails_ok (s\<lparr>ab_failures := om_del (ab_active s) (ab_failures s), ab_loading := False\<rparr>)"
      using rest(3) om_set_del [of "ab_active s" "ab_failures s"] by (auto simp: fails_ok_def)
  qed (use rest src in \<open>simp_all add: queue_ok_def user_view_def update_source_map stem_def\<close>)
  show ?thesis
    unfolding Downloaded_def Let_def
    using f n b by (auto split: option.split)
qed

section \<open>Compilations that end\<close>

lemma Check_waiting:
  "ab_initialized s \<Longrightarrow> ab_waiting (CheckRequest A ck s) = ab_waiting s"
  "ab_initialized s \<Longrightarrow> ab_waiting (Check_result A ck result s) = ab_waiting s"
proof (induction A ck s and A ck result s rule: CheckRequest_Check_result.induct)
  case (1 A ck s)
  then show ?case by (subst CheckRequest.simps) (simp add: Let_def ad_decide_def)
next
  case (2 A ck result s)
  then show ?case
    by (subst Check_result.simps)
      (simp add: ad_decide_def Check_final_def Let_def put_page_def split: option.split)
qed

lemma Check_pre:
  "ad_pre A (CheckRequest A ck s) = ad_pre A s" "adb_inv A (CheckRequest A ck s) = adb_inv A s"
  "ad_pre A (Check_result A ck result s) = ad_pre A s" "adb_inv A (Check_result A ck result s) = adb_inv A s"
  by (rule ad_pre_cong; simp add: Check_waiting)+

lemma Query_again_fold_pre:
  "ab_initialized s \<Longrightarrow> ad_pre A (fold (Query_again A) cks s) = ad_pre A s \<and> ab_initialized (fold (Query_again A) cks s)"
proof (induction cks arbitrary: s)
  case (Cons ck cks)
  have "ad_pre A (Query_again A ck s) = ad_pre A s"
    by (rule ad_pre_cong) (use Cons.prems in \<open>simp_all add: Query_again_def Check_waiting\<close>)
  moreover have "ab_initialized (Query_again A ck s)" using Cons.prems by simp
  ultimately show ?case using Cons.IH by simp
qed simp

lemma Import_config_ok:
  assumes c: "config_ok A c" and ss: "ac_sources c = ss @ [src]" "fs_kind src = ''file''"
  shows "config_ok A (co_config (Import_config A E len bytes c :: 'g compiled))"
proof -
  from c obtain bs cs where bs: "ss @ [src] = bs @ cs" "is_builtin_part bs" "\<forall>s \<in> set cs. custom_ok A s"
    using ss by (auto simp: config_ok_def sources_ok_def)
  have "cs \<noteq> []" using bs(1,2) builtin_part_kind [of bs src] ss(2) by auto
  then obtain cs' where cs: "cs = cs' @ [src]" "ss = bs @ cs'" using bs(1) by (cases cs rule: rev_cases) auto
  have ok: "config_ok A (c\<lparr>ac_sources := ss @ [src\<lparr>fs_text := tx, fs_updated := w\<rparr>]\<rparr>)"
    if "length tx \<le> kListMaxBytes" "is_utf8 A tx" for tx w
  proof -
    have "custom_ok A src" using bs(3) cs by simp
    then have cu: "custom_ok A (src\<lparr>fs_text := tx, fs_updated := w\<rparr>)" by (simp add: custom_ok_def)
    have "\<exists>bs cs. ss @ [src\<lparr>fs_text := tx, fs_updated := w\<rparr>] = bs @ cs \<and> is_builtin_part bs \<and>
        (\<forall>s \<in> set cs. custom_ok A s)"
      using bs(2,3) cs cu by (intro exI [of _ bs] exI [of _ "cs' @ [src\<lparr>fs_text := tx, fs_updated := w\<rparr>]"]) simp
    then show ?thesis
      using c ss that \<open>custom_ok A src\<close>
      by (simp add: config_ok_def sources_ok_def) (simp add: source_ok_def custom_ok_def)
  qed
  show ?thesis
  proof (cases "0 < len \<and> len \<le> int kListMaxBytes \<and> (\<exists>text. bytes = Some text \<and> int (length text) = len \<and> is_utf8 A text)")
    case True
    then obtain tx where tx: "bytes = Some tx" "int (length tx) = len" "is_utf8 A tx" by blast
    have "length tx \<le> kListMaxBytes" using True tx(2) by linarith
    with ok [OF this tx(3)] True tx ss show ?thesis
      by (auto simp: Import_config_def Let_def intro: Compile_config_ok)
  next
    case False
    with c show ?thesis by (auto simp: Import_config_def split: option.split)
  qed
qed

lemma job_result_ok:
  "ad_laws A \<Longrightarrow> job_ok A s job \<Longrightarrow> config_ok A (co_config (job_result A E contents len bytes job :: 'g compiled))"
  by (cases job) (auto simp: job_result_def intro: Compile_config_ok Restore_config_ok Import_config_ok)

lemma install_result_pre:
  assumes inv: "ad_pre A s" and busy: "ab_busy s" and c: "config_ok A (co_config c)"
  shows "ad_pre A ((install_result E c (s\<lparr>ab_jobs := [], ab_busy := False\<rparr>))
    \<lparr>ab_initialized := True, ab_active := [], ab_waiting := []\<rparr>)"
proof (cases "co_engine c")
  case (Some g)
  have "config_ok A ((co_config c)\<lparr>ac_enabled := b, ac_auto_update := b', ac_exceptions := ac_exceptions (ab_config s)\<rparr>)" for b b'
    using c inv by (simp add: config_ok_def ad_pre_def)
  with Some c inv busy show ?thesis
    by (auto simp: install_result_def ad_pre_defs split: if_splits)
next
  case None
  let ?t = "s\<lparr>ab_initialized := True, ab_active := [], ab_waiting := [], ab_jobs := [], ab_busy := False\<rparr>"
  have t: "ad_pre A (?t\<lparr>ab_error := x\<rparr>)" for x using inv busy by (auto simp: ad_pre_defs split: if_splits)
  then have "ad_pre A (note_failure E i (mark_failed i (?t\<lparr>ab_error := x\<rparr>)))" for i x
    by (intro note_failure_pre mark_failed_pre)
  define x where "x = (let reason = Str (info_root (co_info c)) ''reason'' in if reason = [] then ''compileFailed'' else reason)"
  let ?r = "(install_result E c (s\<lparr>ab_jobs := [], ab_busy := False\<rparr>))
    \<lparr>ab_initialized := True, ab_active := [], ab_waiting := []\<rparr>"
  have "ad_pre A ?r = ad_pre A (?t\<lparr>ab_error := x\<rparr>)"
    if "find_source (ab_active s) (ac_sources (ab_config s)) = None"
    by (rule ad_pre_cong) (use None that in \<open>simp_all add: install_result_def Let_def\<close>)
  moreover have "ad_pre A ?r = ad_pre A (note_failure E (ab_active s) (mark_failed (ab_active s) (?t\<lparr>ab_error := x\<rparr>)))"
    if "find_source (ab_active s) (ac_sources (ab_config s)) \<noteq> None"
    by (rule ad_pre_cong)
      (use None that in \<open>auto simp: install_result_def Let_def mark_failed_def set_sources_def note_failure_def\<close>)
  ultimately show ?thesis
    using t \<open>\<And>i x. ad_pre A (note_failure E i (mark_failed i (?t\<lparr>ab_error := x\<rparr>)))\<close> by blast
qed

lemma install_result_simps [simp]:
  "ab_waiting (install_result E c s) = ab_waiting s"
  by (simp add: install_result_def Let_def split: option.split)

lemma Installed_inv:
  assumes laws: "ad_laws A" and inv: "adb_inv A s" and jobs: "ab_jobs s = job # jobs"
  shows "adb_inv A (Installed A E p k (job_result A E' contents len bytes job) (s\<lparr>ab_jobs := jobs\<rparr>))"
proof -
  have pre: "ad_pre A s" using inv by (simp add: adb_inv_def)
  have busy: "ab_busy s" and j: "jobs = []" "job_ok A s job"
    using pre jobs by (auto simp: ad_pre_def jobs_ok_def split: if_splits)
  let ?c = "job_result A E' contents len bytes job"
  define t where "t = (install_result E ?c (s\<lparr>ab_jobs := [], ab_busy := False\<rparr>))
      \<lparr>ab_initialized := True, ab_active := []\<rparr>"
  define u where "u = ad_reply k (ab_error (Changed (p \<and> ab_error t = []) t)) (int_or_zero (info_root (co_info ?c)) ''errorLine'')
      (Changed (p \<and> ab_error t = []) t)"
  have "ad_pre A (t\<lparr>ab_waiting := []\<rparr>)"
    using install_result_pre [OF pre busy job_result_ok [OF laws j(2)]] by (simp add: t_def)
  moreover have "ad_pre A (u\<lparr>ab_waiting := []\<rparr>) = ad_pre A (t\<lparr>ab_waiting := []\<rparr>)"
    by (rule ad_pre_cong) (simp_all add: u_def)
  moreover have "ab_initialized u" by (simp add: u_def t_def)
  ultimately have flushed: "ad_pre A (fold (Query_again A) (ab_waiting u) (u\<lparr>ab_waiting := []\<rparr>))"
    "ab_initialized (fold (Query_again A) (ab_waiting u) (u\<lparr>ab_waiting := []\<rparr>))"
    using Query_again_fold_pre [of "u\<lparr>ab_waiting := []\<rparr>"] by simp_all
  define v where "v = fold (Query_again A) (ab_waiting u) (u\<lparr>ab_waiting := []\<rparr>)"
  have "Installed A E p k ?c (s\<lparr>ab_jobs := jobs\<rparr>) =
      StartNext (if p \<and> ab_error v = []
                 then queue_all (\<lambda>src. fs_enabled src \<and> fs_kind src = ''subscription'' \<and>
                                       fs_status src = ''missing'') v else v)"
    unfolding Installed_def Let_def t_def u_def v_def j(1) by (rule refl)
  moreover have "adb_inv A (StartNext v)" and "adb_inv A (StartNext (queue_all P v))" for P
    unfolding v_def
    by (rule StartNext_inv, rule flushed(1))
      (rule StartNext_inv, rule queue_all_pre [OF flushed, THEN conjunct1])
  ultimately show ?thesis by simp
qed

section \<open>Commands\<close>

text \<open>A change of the switches or of the exceptions keeps everything else.\<close>

lemma settings_inv:
  assumes "adb_inv A s" and "ac_sources c = ac_sources (ab_config s)" and "ac_user c = ac_user (ab_config s)"
    and "hosts_ok A (ac_exceptions c)"
  shows "adb_inv A (s\<lparr>ab_config := c\<rparr>)"
proof -
  have "job_ok A (s\<lparr>ab_config := c\<rparr>) j = job_ok A s j" for j
    using assms(2,3) by (intro job_ok_cong) (simp_all add: user_view_def)
  with assms show ?thesis
    by (simp add: adb_inv_def ad_pre_def queue_ok_def turn_ok_def jobs_ok_def started_ok_def fails_ok_def
        config_ok_hosts)
qed

lemma adb_inv_hosts: "adb_inv A s \<Longrightarrow> hosts_ok A (ac_exceptions (ab_config s))"
  by (simp add: adb_inv_def ad_pre_def config_ok_hosts)

lemma SetSite_inv:
  assumes laws: "ad_laws A" and inv: "adb_inv A s"
  shows "adb_inv A (snd (SetSite A owner url b s))"
proof -
  let ?c = "\<lambda>hs. (ab_config s)\<lparr>ac_exceptions := hs\<rparr>"
  have "hosts_ok A (insert (Host A url) (ac_exceptions (ab_config s)))"
    if "Host A url \<noteq> []" "card (ac_exceptions (ab_config s)) < 1000 \<or> Host A url \<in> ac_exceptions (ab_config s)"
    using that laws adb_inv_hosts [OF inv] by (intro hosts_ok_insert) (auto simp: ad_laws_def)
  then have "adb_inv A (s\<lparr>ab_config := ?c (insert (Host A url) (ac_exceptions (ab_config s)))\<rparr>)"
    if "Host A url \<noteq> []" "card (ac_exceptions (ab_config s)) < 1000 \<or> Host A url \<in> ac_exceptions (ab_config s)"
    using that inv by (intro settings_inv) auto
  moreover have "adb_inv A (s\<lparr>ab_config := ?c (ac_exceptions (ab_config s) - {Host A url})\<rparr>)"
    by (rule settings_inv [OF inv]) (use inv in \<open>simp_all add: hosts_ok_delete adb_inv_hosts\<close>)
  ultimately show ?thesis
    using inv by (auto simp: SetSite_def Let_def not_le split: option.split)
qed

lemma next_config_ok:
  assumes laws: "ad_laws A" and c: "config_ok A c" and fresh: "length (token E) = 32" "token E \<notin> ids c"
    and next_eq: "next_config A E name cmd c = Inr c'"
  shows "config_ok A c'"
proof -
  have src: "sources_ok A (ac_sources c)" using c by (simp add: config_ok_def)
  have new: "sources_ok A (ac_sources c @ [saved_source title (spec A url) (new_source (token E) [] ''subscription'' [])])"
    if "length (ac_sources c) < 32" "SubscriptionUrl A url" for title url
    using src that(1)
  proof (rule sources_ok_add)
    show "fs_id (saved_source title (spec A url) (new_source (token E) [] ''subscription'' [])) \<notin> fs_id ` set (ac_sources c)"
      using fresh(2) by (simp add: ids_def saved_source_def cleared_source_def new_source_def)
  qed (use laws that(2) fresh(1) in \<open>auto simp: ad_laws_def source_ok_def custom_ok_def saved_source_def
      cleared_source_def new_source_def\<close>)
  have enabled: "sources_ok A (update_source i (\<lambda>src. src\<lparr>fs_enabled := b\<rparr>) (ac_sources c))" for i b
    using src by (rule sources_ok_update) (auto simp: stem_def source_ok_def)
  have saved: "sources_ok A (update_source i (saved_source title (spec A url)) (ac_sources c))"
    if "find_source i (ac_sources c) = Some s" "fs_kind s = ''subscription''" "SubscriptionUrl A url" for i title url s
    using laws src that by (intro sources_ok_saved) (auto simp: ad_laws_def)
  have removed: "sources_ok A (filter (\<lambda>s. fs_id s \<noteq> i) (ac_sources c))"
    if "find_source i (ac_sources c) = Some s" "fs_kind s \<noteq> ''builtin''" for i s
    using src that by (rule sources_ok_remove)
  from next_eq c new enabled saved removed show ?thesis
    by (auto simp: next_config_def config_ok_def Let_def not_le split: if_splits option.splits)
qed

lemma ImportFile_inv:
  assumes laws: "ad_laws A" and inv: "adb_inv A s" and idle: "\<not> ab_busy s" "\<not> ab_loading s" "ab_initialized s"
    and fresh: "length (token E) = 32" "token E \<notin> ids (ab_config s)"
  shows "adb_inv A (ImportFile A E st cmd t s)"
proof -
  let ?new = "new_source (token E) (Str cmd ''name'') ''file'' []"
  have "sources_ok A (ac_sources (ab_config s) @ [?new])" if "length (ac_sources (ab_config s)) < 32"
    using that inv fresh laws
    by (intro sources_ok_add)
      (auto simp: adb_inv_def ad_pre_def config_ok_def ids_def new_source_def source_ok_def custom_ok_def ad_laws_def)
  then have "config_ok A ((ab_config s)\<lparr>ac_sources := ac_sources (ab_config s) @ [?new]\<rparr>)"
    if "length (ac_sources (ab_config s)) < 32"
    using that inv by (simp add: adb_inv_def ad_pre_def config_ok_def)
  then have "adb_inv A ((Changed False (s\<lparr>ab_busy := True\<rparr>))\<lparr>ab_jobs :=
      ab_jobs s @ [JobImport ((ab_config s)\<lparr>ac_sources := ac_sources (ab_config s) @ [?new]\<rparr>) t]\<rparr>)"
    if "length (ac_sources (ab_config s)) < 32"
    using that inv idle by (auto simp: adb_inv_def ad_pre_defs new_source_def split: if_splits)
  with inv show ?thesis
    by (simp add: ImportFile_def Let_def not_le)
qed

lemma update_all_inv:
  "adb_inv A s \<Longrightarrow> ab_initialized s \<Longrightarrow> adb_inv A (StartNext (queue_all P s))"
  by (intro StartNext_inv queue_all_pre [THEN conjunct1]) (simp_all add: adb_inv_def)

lemma Mutate_ad_inv:
  assumes laws: "ad_laws A" and inv: "adb_inv A s"
    and fresh: "length (token E) = 32" "token E \<notin> ids (ab_config s)"
  shows "adb_inv A (Mutate A E st owner name cmd t s)"
proof -
  have set: "adb_inv A (s\<lparr>ab_config := (ab_config s)\<lparr>ac_enabled := b\<rparr>\<rparr>)"
    "adb_inv A (s\<lparr>ab_config := (ab_config s)\<lparr>ac_auto_update := b\<rparr>\<rparr>)" for b
    by (rule settings_inv; use inv adb_inv_hosts [OF inv] in simp)+
  have del: "adb_inv A (s\<lparr>ab_config := (ab_config s)\<lparr>ac_exceptions := ac_exceptions (ab_config s) - {h}\<rparr>\<rparr>)" for h
    by (rule settings_inv [OF inv]) (use inv in \<open>simp_all add: hosts_ok_delete adb_inv_hosts\<close>)
  have build: "adb_inv A (Rebuild c (Some t) s)"
    if "next_config A E name cmd (ab_config s) = Inr c" "\<not> ab_busy s" "\<not> ab_loading s" "ab_initialized s" for c
  proof (rule Rebuild_inv)
    show "config_ok A c" using laws inv fresh that(1) by (auto simp: adb_inv_def ad_pre_def intro: next_config_ok)
  qed (use inv that in \<open>auto simp: adb_inv_def ad_pre_defs split: if_splits\<close>)
  show ?thesis
    using inv set del build update_all_inv [OF inv] ImportFile_inv [OF laws inv _ _ _ fresh]
    by (simp add: Mutate_def Let_def split: option.split sum.split)
qed

lemma HandleAdBlockSite_inv:
  "ad_laws A \<Longrightarrow> adb_inv A s \<Longrightarrow> adb_inv A (HandleAdBlockSite A owner k cmd t s)"
  by (simp add: HandleAdBlockSite_def Let_def case_prod_unfold SetSite_inv split: option.split)

section \<open>Every step\<close>

lemma adb_inv_step:
  assumes laws: "ad_laws A" and inv: "adb_inv A s" and ok: "adb_ok s e"
  shows "adb_inv A (adb_step A s e)"
proof (cases e)
  case (AdJob E contents len bytes)
  with ok obtain j js where "ab_jobs s = j # js" by (cases "ab_jobs s") auto
  with AdJob Installed_inv [OF laws inv] show ?thesis by simp
next
  case (AdLoaded E r)
  with inv ok show ?thesis by (simp add: Downloaded_inv)
next
  case (AdRedirected E url)
  with inv ok show ?thesis by (simp add: OnRedirect_def Failed_inv adb_inv_def [of A s] del: ad_pre_simps)
next
  case (AdTimer E offline)
  with inv show ?thesis by (simp add: AutoUpdate_def update_all_inv)
next
  case (AdCommand E st owner name cmd t)
  with laws inv ok show ?thesis by (simp add: Mutate_ad_inv)
next
  case (AdSiteCommand owner k cmd t)
  with laws inv show ?thesis by (simp add: HandleAdBlockSite_inv)
next
  case (AdAsk t origin url)
  with inv show ?thesis by (simp add: Ask_def ad_decide_def Check_pre split: option.split)
next
  case (AdMatched n)
  have "adb_inv A (s\<lparr>ab_matching := m\<rparr>) = adb_inv A s" for m by (rule ad_pre_cong) simp_all
  with AdMatched inv show ?thesis by (simp add: Check_pre split: prod.split)
qed (use inv in \<open>simp_all add: Service_Incognito_def Page_Get_def on_page_def Page_NotifyFired_def split: option.split\<close>)

lemma adb_inv_init: "ad_laws A \<Longrightarrow> adb_inv A (Service_Service context :: ('u, 'g) ad_service)"
proof -
  assume laws: "ad_laws A"
  then have "config_ok A default_config"
    using sources_ok_builtin by (simp add: config_ok_def default_config_def ad_laws_def)
  then show ?thesis
    by (simp add: Service_Service_def adb_inv_def ad_pre_defs)
qed

interpretation ad_guarded: machine "adb_step A" adb_ok "\<lambda>s. ad_laws A \<and> adb_inv A s"
  for A :: "('u, 'g) ad_lib"
  by unfold_locales (simp add: adb_inv_step)

end
