(* ===== verification/Ad_Durable.thy ===== *)
theory Ad_Durable
  imports Ad_Schedule
begin

text \<open>
  What the profile's file holds. A configuration that is written is read back as it was, up
  to the counts that a compilation finds out again; in every run whose first compilation
  succeeds and in which no site is switched before it, the last write is the configuration
  in force. The user's decisions change by commands only.
\<close>

section \<open>Writing and reading a configuration\<close>

text \<open>
  What is relied on of the JSON library, for the value that was written: its texts, flags and
  lists read back as they were, and a number written as a double reads as that double.
\<close>

definition dict_agrees :: "dict \<Rightarrow> dict \<Rightarrow> bool" where
  "dict_agrees d d' \<longleftrightarrow> (\<forall>k. find_bool d' k = find_bool d k \<and> find_string d' k = find_string d k \<and>
     find_list d' k = find_list d k \<and> (find_double d k \<noteq> None \<longrightarrow> find_double d' k = find_double d k))"

definition saved_agrees :: "ad_saved \<Rightarrow> ad_saved \<Rightarrow> bool" where
  "saved_agrees v v' \<longleftrightarrow> dict_agrees (saved_root v) (saved_root v') \<and>
     rel_option (list_all2 (rel_option dict_agrees)) (saved_sources v) (saved_sources v')"

definition reads_back :: "('u, 'g) ad_lib \<Rightarrow> ad_saved \<Rightarrow> bool" where
  "reads_back A w \<longleftrightarrow> (case read_saved A (write_saved A w) of None \<Rightarrow> False | Some v \<Rightarrow> saved_agrees w v)"

definition stored_source :: "filter_source \<Rightarrow> filter_source" where
  "stored_source s = s\<lparr>fs_status := ''missing'', fs_rules := 0, fs_unsupported := 0\<rparr>"

definition stored :: "ad_config \<Rightarrow> ad_config" where
  "stored c = c\<lparr>ac_sources := map stored_source (ac_sources c), ac_user_rule_count := 0\<rparr>"

text \<open>
  The offline pair of lists is added when it is missing and there is room for it.
\<close>

definition reopened :: "ad_config \<Rightarrow> ad_config" where
  "reopened c = (stored c)\<lparr>ac_sources :=
     (if ''brave-compat'' \<notin> ids c \<and> length (ac_sources c) < 32
      then take 3 (ac_sources (stored c)) @ [last builtin_sources] @ drop 3 (ac_sources (stored c))
      else ac_sources (stored c))\<rparr>"

lemma reopened_stored: "stored c = stored c' \<Longrightarrow> reopened c = reopened c'"
proof -
  assume eq: "stored c = stored c'"
  then have ss: "map stored_source (ac_sources c) = map stored_source (ac_sources c')"
    by (metis ad_config.select_convs(3) ad_config.surjective ad_config.update_convs(3,6) stored_def)
  have "ids d = fs_id ` set (map stored_source (ac_sources d))" for d
    by (auto simp: ids_def stored_source_def image_image)
  with eq ss show ?thesis unfolding reopened_def by (metis length_map)
qed

definition reads :: "dict \<Rightarrow> filter_source \<Rightarrow> bool" where
  "reads d s \<longleftrightarrow> Str d ''id'' = fs_id s \<and> Str d ''name'' = fs_name s \<and> Str d ''kind'' = fs_kind s \<and>
     Str d ''url'' = fs_url s \<and> Str d ''text'' = fs_text s \<and> Str d ''etag'' = fs_etag s \<and>
     Str d ''modified'' = fs_modified s \<and> find_bool d ''enabled'' = Some (fs_enabled s) \<and>
     find_double d ''updatedAt'' = Some (fs_updated s)"

lemma reads_Value: "dict_agrees (Source_Value True s) d \<Longrightarrow> reads d s"
  by (simp add: dict_agrees_def reads_def Str_def Source_Value_def dict_of_def)

definition fresh_source :: "filter_source \<Rightarrow> bool" where
  "fresh_source s \<longleftrightarrow> fs_status s = ''missing'' \<and> fs_rules s = 0 \<and> fs_unsupported s = 0"

lemma take_saved_stored:
  assumes "reads d s" and "source_ok A s" and "stem x = stem s" and "fresh_source x"
  shows "take_saved d x = stored_source s"
  using assms
  by (cases s; cases x) (auto simp: reads_def take_saved_def stored_source_def stem_def fresh_source_def
      source_ok_def)

lemma restore_known:
  assumes "reads d s" and "source_ok A s" and "stem x = stem s" and "fresh_source x"
    and "fs_id s \<notin> fs_id ` set pre"
  shows "restore_source A d (pre @ x # post) = pre @ stored_source s # post"
proof -
  have id: "Str d ''id'' = fs_id s" "fs_id x = fs_id s" using assms by (auto simp: reads_def stem_def)
  then have "find_source (fs_id s) (pre @ x # post) \<noteq> None" by (auto simp: find_source_None)
  with assms(1,2,5) id take_saved_stored [OF assms(1-4)] show ?thesis
    by (simp add: restore_source_def admitted_entry_def update_source_append reads_def source_ok_def)
qed

lemma restore_new:
  assumes "reads d s" and "source_ok A s" and "custom_ok A s" and "fs_id s \<notin> fs_id ` set ss"
    and "length ss < 32"
  shows "restore_source A d ss = ss @ [stored_source s]"
proof -
  let ?n = "new_source (fs_id s) (fs_name s) (fs_kind s) (fs_url s)"
  have "take_saved d ?n = stored_source s"
    using assms(1,2) by (rule take_saved_stored) (simp_all add: new_source_def stem_def fresh_source_def)
  moreover have "admitted_entry A d ss = Some (ss @ [?n])"
    using assms by (auto simp: admitted_entry_def find_source_None reads_def source_ok_def custom_ok_def Let_def)
  moreover have "Str d ''id'' = fs_id s" "Str d ''text'' = fs_text s" using assms(1) by (auto simp: reads_def)
  ultimately show ?thesis
    using assms(2,4) by (simp add: restore_source_def update_source_append source_ok_def new_source_def)
qed

lemma restore_sources_append:
  "restore_sources A (xs @ ys) ss = restore_sources A ys (restore_sources A xs ss)"
  by (induction A xs ss rule: restore_sources.induct) simp_all

lemma restore_builtins:
  assumes "list_all2 reads ds bs" and "map stem xs = map stem bs" and "\<forall>x \<in> set xs. fresh_source x"
    and "\<forall>s \<in> set bs. source_ok A s" and "distinct (map fs_id (pre @ bs))"
  shows "restore_sources A (map Some ds) (pre @ xs @ post) = pre @ map stored_source bs @ post"
  using assms
proof (induction ds bs arbitrary: pre xs rule: list_all2_induct)
  case (Cons d ds b bs)
  then obtain x xs' where xs: "xs = x # xs'" "stem x = stem b" "map stem xs' = map stem bs" by (cases xs) auto
  have "restore_source A d (pre @ x # xs' @ post) = pre @ stored_source b # xs' @ post"
    using Cons.hyps(1) Cons.prems xs by (intro restore_known) auto
  moreover have "restore_sources A (map Some ds) ((pre @ [stored_source b]) @ xs' @ post) =
      (pre @ [stored_source b]) @ map stored_source bs @ post"
    using Cons.prems xs by (intro Cons.IH) (auto simp: stored_source_def)
  ultimately show ?case using xs by simp
qed simp

lemma restore_customs:
  assumes "list_all2 reads ds cs" and "\<forall>s \<in> set cs. source_ok A s \<and> custom_ok A s"
    and "distinct (map fs_id (base @ cs))" and "length base + length cs \<le> 32"
  shows "restore_sources A (map Some ds) base = base @ map stored_source cs"
  using assms
proof (induction ds cs arbitrary: base rule: list_all2_induct)
  case (Cons d ds c cs)
  have "restore_source A d base = base @ [stored_source c]"
    using Cons.hyps(1) Cons.prems by (intro restore_new) auto
  moreover have "restore_sources A (map Some ds) (base @ [stored_source c]) =
      (base @ [stored_source c]) @ map stored_source cs"
    using Cons.prems by (intro Cons.IH) (auto simp: stored_source_def)
  ultimately show ?case by simp
qed simp

lemma builtin_fresh: "s \<in> set builtin_sources \<Longrightarrow> fresh_source s"
proof -
  have "list_all fresh_source builtin_sources"
    by (simp add: builtin_sources_def new_source_def fresh_source_def)
  then show "s \<in> set builtin_sources \<Longrightarrow> fresh_source s" by (simp add: list_all_iff)
qed

lemma builtin_three:
  "filter (\<lambda>s. fs_id s \<noteq> ''brave-compat'') builtin_sources = take 3 builtin_sources"
  "builtin_sources = take 3 builtin_sources @ [last builtin_sources]"
  "fs_id (last builtin_sources) = ''brave-compat''"
  "fs_id ` set (take 3 builtin_sources) = {''easylist'', ''easylist-china'', ''easyprivacy''}"
  "length builtin_sources = 4"
  by (simp_all add: builtin_sources_def new_source_def)

lemma stem_ids: "map stem xs = map stem ys \<Longrightarrow> map fs_id xs = map fs_id ys"
proof -
  assume "map stem xs = map stem ys"
  then have "map fst (map stem xs) = map fst (map stem ys)" by (rule arg_cong)
  then show ?thesis by (simp add: stem_def comp_def)
qed

lemma restored_sources_round_trip:
  assumes ok: "sources_ok A ss" and vs: "list_all2 (rel_option dict_agrees) (map (\<lambda>s. Some (Source_Value True s)) ss) vs"
  shows "restored_sources A (Some vs) =
    (if ''brave-compat'' \<notin> fs_id ` set ss \<and> length ss < 32
     then take 3 (map stored_source ss) @ [last builtin_sources] @ drop 3 (map stored_source ss)
     else map stored_source ss)"
proof -
  from ok obtain bs cs where ss: "ss = bs @ cs" and bs: "is_builtin_part bs"
    and cs: "\<forall>s \<in> set cs. custom_ok A s"
    by (auto simp: sources_ok_def)
  define ds where "ds = map the vs"
  have each: "\<exists>d. vs ! i = Some d \<and> reads d (ss ! i)" if "i < length ss" for i
    using vs that by (auto simp: list_all2_conv_all_nth option_rel_Some1 reads_Value)
  have len: "length vs = length ss" using vs by (auto dest: list_all2_lengthD)
  have ds: "vs = map Some ds" "list_all2 reads ds ss"
    using each len by (auto simp: ds_def list_all2_conv_all_nth intro!: nth_equalityI) (metis option.sel)+
  then obtain ds1 ds2 where d12: "ds = ds1 @ ds2" "list_all2 reads ds1 bs" "list_all2 reads ds2 cs"
    using ss by (auto simp: list_all2_append2)
  have ids: "distinct (map fs_id (bs @ cs))" "length (bs @ cs) \<le> 32" and src: "\<forall>s \<in> set (bs @ cs). source_ok A s"
    using ok ss by (auto simp: sources_ok_def)
  have brave: "list_ex names_brave vs \<longleftrightarrow> ''brave-compat'' \<in> fs_id ` set ss"
  proof -
    have "names_brave (vs ! i) = (fs_id (ss ! i) = ''brave-compat'')" if "i < length ss" for i
      using each [OF that] by (auto simp: names_brave_def reads_def)
    then have "map names_brave vs = map (\<lambda>s. fs_id s = ''brave-compat'') ss"
      using len by (intro nth_equalityI) simp_all
    then have "True \<in> set (map names_brave vs) \<longleftrightarrow> True \<in> set (map (\<lambda>s. fs_id s = ''brave-compat'') ss)"
      by (rule arg_cong)
    then show ?thesis by (simp add: list_ex_iff image_iff) metis
  qed
  have no_brave: "''brave-compat'' \<notin> fs_id ` set cs" using cs by (auto simp: custom_ok_def)
  have stored_ids: "map fs_id (map stored_source xs) = map fs_id xs" for xs
    by (simp add: stored_source_def)
  have step: "restore_sources A vs (xs @ post) = map stored_source bs @ post @ map stored_source cs"
    if xs: "map stem xs = map stem bs" "\<forall>x \<in> set xs. fresh_source x"
      and post: "distinct (map fs_id (bs @ post @ cs))" "length bs + length post + length cs \<le> 32" for xs post
  proof -
    have "restore_sources A (map Some ds1) ([] @ xs @ post) = [] @ map stored_source bs @ post"
      using d12(2) xs src ids by (intro restore_builtins) auto
    moreover have "restore_sources A (map Some ds2) (map stored_source bs @ post) =
        (map stored_source bs @ post) @ map stored_source cs"
    proof (rule restore_customs [OF d12(3)])
      show "distinct (map fs_id ((map stored_source bs @ post) @ cs))"
        using post(1) by (simp add: stored_ids [unfolded map_map] comp_def stored_source_def image_image)
    qed (use src cs post in auto)
    ultimately show ?thesis using ds(1) d12(1) by (simp add: restore_sources_append)
  qed
  have three: "set (take 3 builtin_sources) \<subseteq> set builtin_sources" by (rule set_take_subset)
  from bs [unfolded is_builtin_part_def] show ?thesis
  proof
    assume four: "map stem bs = map stem builtin_sources"
    then have "''brave-compat'' \<in> fs_id ` set ss"
    proof -
      have "last builtin_sources \<in> set builtin_sources"
        by (rule last_in_set) (simp add: builtin_sources_def)
      then have "''brave-compat'' \<in> set (map fs_id builtin_sources)"
        using builtin_three(3) by (metis image_eqI list.set_map)
      then have "''brave-compat'' \<in> set (map fs_id bs)" using stem_ids [OF four] by simp
      then show ?thesis using ss by auto
    qed
    with brave step [of builtin_sources "[]"] four builtin_fresh ids ss show ?thesis
      by (simp add: restored_sources_def)
  next
    assume part: "map stem bs = map stem (take 3 builtin_sources)"
    have bids: "fs_id ` set bs = {''easylist'', ''easylist-china'', ''easyprivacy''}"
      using arg_cong [OF stem_ids [OF part], of set] builtin_three(4) by simp
    have out: "''brave-compat'' \<notin> fs_id ` set ss"
      unfolding ss set_append image_Un bids Un_iff using no_brave by simp
    have lb: "length bs = 3" using arg_cong [OF part, of length] builtin_three(5) by simp
    show ?thesis
    proof (cases "length ss < 32")
      case True
      have "restore_sources A vs builtin_sources = map stored_source bs @ [last builtin_sources] @ map stored_source cs"
        using step [of "take 3 builtin_sources" "[last builtin_sources]"] part builtin_fresh three ids True ss
          out builtin_three(2,3) by auto
      with True out brave len lb ss show ?thesis by (simp add: restored_sources_def)
    next
      case False
      have "restore_sources A vs (take 3 builtin_sources) = map stored_source bs @ map stored_source cs"
        using step [of "take 3 builtin_sources" "[]"] part builtin_fresh three ids by auto
      with False out brave len ss show ?thesis by (simp add: restored_sources_def builtin_three(1))
    qed
  qed
qed

lemma restore_hosts_round_trip:
  "distinct hs \<Longrightarrow> \<forall>h \<in> set hs. h \<noteq> [] \<and> NormalizeHost A h = h \<Longrightarrow> set hs \<inter> acc = {} \<Longrightarrow> finite acc \<Longrightarrow>
   card acc + length hs \<le> 1000 \<Longrightarrow> restore_hosts A (map Some hs) acc = acc \<union> set hs"
  by (induction hs arbitrary: acc) auto

lemma Restore_written:
  assumes ok: "config_ok A c" and json: "reads_back A (Config_Value True c)"
    and len: "length (write_saved A (Config_Value True c)) \<le> kTotalBytes + 1024 * 1024"
  shows "Restore_config A (Some (write_saved A (Config_Value True c))) = reopened c"
proof -
  from json obtain v where v: "read_saved A (write_saved A (Config_Value True c)) = Some v"
    "saved_agrees (Config_Value True c) v"
    by (auto simp: reads_back_def split: option.splits)
  let ?r = "saved_root v"
  have r: "find_bool ?r ''enabled'' = Some (ac_enabled c)" "find_bool ?r ''autoUpdate'' = Some (ac_auto_update c)"
    "Str ?r ''userRules'' = ac_user c"
    "find_list ?r ''exceptions'' = Some (map Some (sorted_list_of_set (ac_exceptions c)))"
    using v(2) by (simp_all add: saved_agrees_def dict_agrees_def Config_Value_def dict_of_def Str_def)
  have hs: "hosts_ok A (ac_exceptions c)" using ok by (simp add: config_ok_hosts)
  then have "restore_hosts A (map Some (sorted_list_of_set (ac_exceptions c))) {} = {} \<union> set (sorted_list_of_set (ac_exceptions c))"
    by (intro restore_hosts_round_trip) (auto simp: hosts_ok_def)
  then have hosts: "restore_hosts A (map Some (sorted_list_of_set (ac_exceptions c))) {} = ac_exceptions c"
    using hs by (simp add: hosts_ok_def)
  obtain vs where vs: "saved_sources v = Some vs"
    "list_all2 (rel_option dict_agrees) (map (\<lambda>s. Some (Source_Value True s)) (ac_sources c)) vs"
    using v(2) by (auto simp: saved_agrees_def Config_Value_def option_rel_Some1)
  have "restored_sources A (Some vs) = ac_sources (reopened c)"
    using restored_sources_round_trip [where A = A, OF _ vs(2)] ok
    by (simp add: config_ok_def reopened_def stored_def ids_def)
  moreover have "utf16_size A (ac_user c) \<le> 65536" using ok by (simp add: config_ok_def)
  ultimately show ?thesis
    using v(1) r hosts vs(1) len
    by (cases c) (simp add: Restore_config_def reopened_def stored_def Let_def)
qed

section \<open>What reaches the log\<close>

text \<open>
  A kind of effect that is neither an event to the shell, a download nor a reply is left by
  writes and by checks only.
\<close>

definition set_apart :: "('u ad_effect \<Rightarrow> bool) \<Rightarrow> bool" where
  "set_apart Q \<longleftrightarrow> (\<forall>n w. \<not> Q (AdBroadcast n w)) \<and> (\<forall>n p. \<not> Q (AdPageBroadcast n p)) \<and>
     (\<forall>a b c. \<not> Q (AdDownload a b c)) \<and> (\<forall>t x l. \<not> Q (AdReply t x l))"

definition seen :: "('u ad_effect \<Rightarrow> bool) \<Rightarrow> ('u, 'g) ad_service \<Rightarrow> 'u ad_effect list" where
  "seen Q s = filter Q (ab_log s)"

lemma seen_emit: "seen Q (ad_emit e s) = seen Q s @ (if Q e then [e] else [])"
  by (simp add: seen_def)

lemma seen_cong: "ab_log s = ab_log s' \<Longrightarrow> seen Q s = seen Q s'"
  by (simp add: seen_def)

lemma seen_upd [simp]:
  "seen Q (s\<lparr>ab_config := c\<rparr>) = seen Q s" "seen Q (s\<lparr>ab_engine := g\<rparr>) = seen Q s"
  "seen Q (s\<lparr>ab_initialized := b\<rparr>) = seen Q s" "seen Q (s\<lparr>ab_busy := b\<rparr>) = seen Q s"
  "seen Q (s\<lparr>ab_error := x\<rparr>) = seen Q s" "seen Q (s\<lparr>ab_active := x\<rparr>) = seen Q s"
  "seen Q (s\<lparr>ab_queue := q\<rparr>) = seen Q s" "seen Q (s\<lparr>ab_retry := m\<rparr>) = seen Q s"
  "seen Q (s\<lparr>ab_failures := m\<rparr>) = seen Q s" "seen Q (s\<lparr>ab_loading := b\<rparr>) = seen Q s"
  "seen Q (s\<lparr>ab_revision := w\<rparr>) = seen Q s" "seen Q (s\<lparr>ab_private := p\<rparr>) = seen Q s"
  "seen Q (s\<lparr>ab_pages := ps\<rparr>) = seen Q s" "seen Q (s\<lparr>ab_gone := gs\<rparr>) = seen Q s"
  "seen Q (s\<lparr>ab_jobs := js\<rparr>) = seen Q s" "seen Q (s\<lparr>ab_waiting := cks\<rparr>) = seen Q s"
  "seen Q (s\<lparr>ab_matching := ms\<rparr>) = seen Q s" "seen Q (put_page k pg s) = seen Q s"
  "seen Q (set_sources ss s) = seen Q s" "seen Q (mark_failed i s) = seen Q s"
  "seen Q (note_failure E i s) = seen Q s" "seen Q (Queue i s) = seen Q s"
  by (rule seen_cong; simp add: put_page_def set_sources_def mark_failed_def note_failure_def Let_def
      Queue_def split: option.split)+

lemma seen_queue_all [simp]: "seen Q (queue_all P s) = seen Q s"
proof -
  have "seen Q (fold (\<lambda>src s. if P src then Queue (fs_id src) s else s) ss s) = seen Q s" for ss
    by (induction ss arbitrary: s) simp_all
  then show ?thesis by (simp add: queue_all_def)
qed

lemma seen_reply [simp]: "set_apart Q \<Longrightarrow> seen Q (ad_reply k e l s) = seen Q s"
  by (cases k) (simp_all add: ad_reply_def seen_emit set_apart_def)

lemma seen_Changed:
  assumes "set_apart Q"
  shows "seen Q (Changed p s) = seen Q s @
      (if p \<and> Q (AdWrite (Config_Value True (ab_config s))) then [AdWrite (Config_Value True (ab_config s))] else [])"
    and "seen Q (Incognito_Changed s) = seen Q s"
proof -
  have r: "seen Q (pages_reload n s) = seen Q s" for n and s :: "('a, 'b) ad_service"
    by (rule seen_cong) simp
  show i: "seen Q (Incognito_Changed s) = seen Q s" for s :: "('a, 'b) ad_service"
    using assms by (simp add: Incognito_Changed_def seen_emit r set_apart_def split: option.split)
  show "seen Q (Changed p s) = seen Q s @
      (if p \<and> Q (AdWrite (Config_Value True (ab_config s))) then [AdWrite (Config_Value True (ab_config s))] else [])"
    using assms by (simp add: Changed_def Let_def seen_emit r i set_apart_def)
qed

lemma seen_Changed_False [simp]: "set_apart Q \<Longrightarrow> seen Q (Changed False s) = seen Q s"
  by (simp add: seen_Changed)

lemma seen_StartNext [simp]: "set_apart Q \<Longrightarrow> seen Q (StartNext s) = seen Q s"
proof (induction s rule: StartNext.induct)
  case (1 s)
  then show ?case
    by (subst StartNext.simps) (auto simp: Let_def seen_emit set_apart_def split: option.split)
qed

lemma seen_Failed [simp]: "set_apart Q \<Longrightarrow> seen Q (Failed E s) = seen Q s"
  by (simp add: Failed_def Let_def)

lemma seen_Rebuild [simp]: "set_apart Q \<Longrightarrow> seen Q (Rebuild c k s) = seen Q s"
  by (simp add: Rebuild_def Let_def)

lemma seen_ImportFile [simp]: "set_apart Q \<Longrightarrow> seen Q (ImportFile A E st cmd k s) = seen Q s"
  by (simp add: ImportFile_def Let_def)

lemma seen_install_result [simp]: "seen Q (install_result E c s) = seen Q s"
  by (simp add: install_result_def Let_def split: option.split)

lemma seen_pages [simp]:
  "seen Q (on_page k f s) = seen Q s" "seen Q (Page_Get k n u w s) = seen Q s"
  "set_apart Q \<Longrightarrow> seen Q (Page_NotifyFired k s) = seen Q s"
  by (simp_all add: on_page_def Page_Get_def Page_NotifyFired_def seen_emit set_apart_def split: option.split)

text \<open>Writes: no check writes.\<close>

fun is_write :: "'u ad_effect \<Rightarrow> bool" where
  "is_write (AdWrite v) = True"
| "is_write _ = False"

lemma set_apart_write [simp]: "set_apart is_write"
  by (simp add: set_apart_def)

lemma writes_Check [simp]:
  "seen is_write (CheckRequest A ck s) = seen is_write s"
  "seen is_write (Check_result A ck result s) = seen is_write s"
proof (induction A ck s and A ck result s rule: CheckRequest_Check_result.induct)
  case (1 A ck s)
  then show ?case by (subst CheckRequest.simps) (simp add: Let_def ad_decide_def seen_emit)
next
  case (2 A ck result s)
  then show ?case
    by (subst Check_result.simps)
      (simp add: ad_decide_def Check_final_def Let_def seen_emit split: option.split)
qed

lemma writes_flush [simp]: "seen is_write (fold (Query_again A) cks s) = seen is_write s"
  by (induction cks arbitrary: s) (simp_all add: Query_again_def seen_emit)

section \<open>The file is the configuration in force\<close>

lemma StartNext_simps [simp]:
  "ab_config (StartNext s) = ab_config s" "ab_jobs (StartNext s) = ab_jobs s"
  "ab_initialized (StartNext s) = ab_initialized s" "ab_engine (StartNext s) = ab_engine s"
proof (induction s rule: StartNext.induct)
  case (1 s)
  { case 1
    show ?case using "1.IH" by (subst StartNext.simps) (simp add: Let_def split: option.split)
  next
    case 2
    show ?case using "1.IH" by (subst StartNext.simps) (simp add: Let_def split: option.split)
  next
    case 3
    show ?case using "1.IH" by (subst StartNext.simps) (simp add: Let_def split: option.split)
  next
    case 4
    show ?case using "1.IH" by (subst StartNext.simps) (simp add: Let_def split: option.split) }
qed

lemma queue_all_simps [simp]:
  "ab_config (queue_all P s) = ab_config s" "ab_jobs (queue_all P s) = ab_jobs s"
  "ab_initialized (queue_all P s) = ab_initialized s" "ab_engine (queue_all P s) = ab_engine s"
proof -
  have "ab_config (fold (\<lambda>src s. if P src then Queue (fs_id src) s else s) ss s) = ab_config s \<and>
      ab_jobs (fold (\<lambda>src s. if P src then Queue (fs_id src) s else s) ss s) = ab_jobs s \<and>
      ab_initialized (fold (\<lambda>src s. if P src then Queue (fs_id src) s else s) ss s) = ab_initialized s \<and>
      ab_engine (fold (\<lambda>src s. if P src then Queue (fs_id src) s else s) ss s) = ab_engine s" for ss
    by (induction ss arbitrary: s) (simp_all add: Queue_def split: option.split)
  then show "ab_config (queue_all P s) = ab_config s" "ab_jobs (queue_all P s) = ab_jobs s"
    "ab_initialized (queue_all P s) = ab_initialized s" "ab_engine (queue_all P s) = ab_engine s"
    unfolding queue_all_def by blast+
qed

lemma stored_update:
  "(\<And>x. stored_source (f x) = stored_source x) \<Longrightarrow>
   stored (c\<lparr>ac_sources := update_source i f (ac_sources c)\<rparr>) = stored c"
  by (simp add: stored_def update_source_map)

lemma stored_mark_failed [simp]: "stored (ab_config (mark_failed i s)) = stored (ab_config s)"
  by (simp add: mark_failed_def set_sources_def stored_update stored_source_def)

lemma Failed_simps [simp]:
  "stored (ab_config (Failed E s)) = stored (ab_config s)" "ab_jobs (Failed E s) = ab_jobs s"
  "ab_initialized (Failed E s) = ab_initialized s"
proof -
  have "stored (ab_config (mark_failed i (s\<lparr>ab_loading := False\<rparr>))) = stored (ab_config s)" for i
    by simp
  then show "stored (ab_config (Failed E s)) = stored (ab_config s)"
    by (simp add: Failed_def Let_def)
qed (simp_all add: Failed_def Let_def)

text \<open>A step leaves the file and the configuration alone, or writes the one that is then in force.\<close>

definition persists :: "('u, 'g) ad_service \<Rightarrow> ('u, 'g) ad_service \<Rightarrow> bool" where
  "persists s s' \<longleftrightarrow>
     seen is_write s' = seen is_write s \<and> stored (ab_config s') = stored (ab_config s) \<or>
     seen is_write s' = seen is_write s @ [AdWrite (Config_Value True (ab_config s'))]"

lemma persists_same: "seen is_write s' = seen is_write s \<Longrightarrow> ab_config s' = ab_config s \<Longrightarrow> persists s s'"
  by (simp add: persists_def)

lemma persists_reply [simp]: "persists s (ad_reply k e l t) = persists s t"
  by (simp add: persists_def)

lemma persists_written [simp]: "seen is_write s' = seen is_write s \<Longrightarrow> persists s (Changed True s')"
  by (simp add: persists_def seen_Changed)

lemma persists_StartNext [simp]: "persists s (StartNext t) = persists s t"
  by (simp add: persists_def)

lemma persists_SetSite: "persists s (snd (SetSite A owner url b s))"
  by (simp add: SetSite_def Let_def persists_def seen_Changed split: option.split)

lemma persists_Mutate: "persists s (Mutate A E st owner name cmd t s)"
proof -
  have "persists s s" "persists s (ImportFile A E st cmd t s)" "persists s (Rebuild c k s)"
    "persists s (queue_all P s)" for c k P
    by (rule persists_same; simp add: Rebuild_def ImportFile_def Let_def)+
  then show ?thesis
    by (simp add: Mutate_def Let_def split: option.split sum.split)
qed

lemma persists_Downloaded: "persists s (Downloaded A E r s)"
proof -
  have "persists s (Failed E s)" by (simp add: persists_def)
  moreover have "persists s (Rebuild c k (s\<lparr>ab_failures := m, ab_loading := False\<rparr>))" for c k m
    by (rule persists_same) (simp_all add: Rebuild_def Let_def)
  ultimately show ?thesis
    by (simp add: Downloaded_def Let_def split: option.split)
qed

lemma persists_Installed:
  assumes init: "ab_initialized s"
  shows "persists s (Installed A E True k c (s\<lparr>ab_jobs := js\<rparr>))"
proof -
  let ?t = "install_result E c (s\<lparr>ab_jobs := js, ab_busy := False\<rparr>)"
  have err: "ab_error ?t = [] \<longleftrightarrow> co_engine c \<noteq> None"
    by (simp add: install_result_def Let_def split: option.split)
  have same: "stored (ab_config ?t) = stored (ab_config s)" if "co_engine c = None"
    using that by (simp add: install_result_def Let_def)
  show ?thesis
  proof (cases "co_engine c")
    case None
    with err same show ?thesis by (simp add: Installed_def Let_def persists_def)
  next
    case (Some g)
    with err have "ab_error ?t = []" by simp
    then show ?thesis by (simp add: Installed_def Let_def persists_def seen_Changed)
  qed
qed

lemma persists_step:
  assumes inv: "adb_inv A s" and ok: "adb_ok s e" and init: "ab_initialized s"
  shows "persists s (adb_step A s e)"
proof (cases e)
  case (AdJob E contents len bytes)
  with ok obtain j js where j: "ab_jobs s = j # js" by (cases "ab_jobs s") auto
  then have "j \<noteq> JobRestore"
    using inv init by (auto simp: adb_inv_def ad_pre_defs split: if_splits)
  with AdJob j persists_Installed [OF init] show ?thesis by simp
next
  case (AdSiteCommand owner k cmd t)
  have "persists s s" by (simp add: persists_same)
  with AdSiteCommand persists_SetSite [of s] show ?thesis
    by (simp add: HandleAdBlockSite_def Let_def case_prod_unfold split: option.split)
next
  case (AdPageNew k owner url navigation)
  then show ?thesis by (simp add: Page_Get_def put_page_def persists_def seen_def)
qed (simp_all add: persists_Downloaded persists_Mutate, (simp add: persists_def OnRedirect_def AutoUpdate_def
    Service_Incognito_def on_page_def put_page_def Page_NotifyFired_def Ask_def ad_decide_def seen_emit
    split: option.split prod.split)+)

text \<open>
  The last write, and what it has to do with the configuration: it is its image, or nothing
  was written and the configuration is what was restored.
\<close>

definition last_write :: "('u, 'g) ad_service \<Rightarrow> ad_saved option" where
  "last_write s = (case rev (seen is_write s) of AdWrite v # es \<Rightarrow> Some v | _ \<Rightarrow> None)"

definition kept :: "('u, 'g) ad_lib \<Rightarrow> ad_config \<Rightarrow> ('u, 'g) ad_service \<Rightarrow> bool" where
  "kept A base s \<longleftrightarrow> (case last_write s of None \<Rightarrow> stored (ab_config s) = base
     | Some v \<Rightarrow> (\<exists>c. v = Config_Value True c \<and> config_ok A c \<and> stored c = stored (ab_config s)))"

lemma kept_persists:
  assumes "persists s s'" and "kept A base s" and "config_ok A (ab_config s')"
  shows "kept A base s'"
  using assms(1) [unfolded persists_def]
proof
  assume same: "seen is_write s' = seen is_write s \<and> stored (ab_config s') = stored (ab_config s)"
  then have "last_write s' = last_write s" by (simp add: last_write_def)
  with same assms(2) show ?thesis by (cases "last_write s") (simp_all add: kept_def)
next
  assume "seen is_write s' = seen is_write s @ [AdWrite (Config_Value True (ab_config s'))]"
  then have "last_write s' = Some (Config_Value True (ab_config s'))" by (simp add: last_write_def)
  with assms(3) show ?thesis by (auto simp: kept_def)
qed

text \<open>
  The runs in question: the first compilation reads the profile's file and succeeds, and no
  site is switched before it is over.
\<close>

definition durable_ok ::
  "('u, 'g) ad_lib \<Rightarrow> string option \<Rightarrow> ('u, 'g) ad_service \<Rightarrow> 'u ad_event \<Rightarrow> bool" where
  "durable_ok A contents s e \<longleftrightarrow> adb_ok s e \<and> (ab_initialized s \<or>
     (case e of
        AdSiteCommand owner k cmd t \<Rightarrow> False
      | AdJob E found len bytes \<Rightarrow> found = contents \<and>
          co_engine (Compile_config A (Restore_config A contents)) \<noteq> None
      | _ \<Rightarrow> True))"

definition durable_inv :: "('u, 'g) ad_lib \<Rightarrow> string option \<Rightarrow> ('u, 'g) ad_service \<Rightarrow> bool" where
  "durable_inv A contents s \<longleftrightarrow> ad_laws A \<and> adb_inv A s \<and>
     (if ab_initialized s then kept A (stored (Restore_config A contents)) s else seen is_write s = [])"

lemma stored_counts: "stored (apply_counts vs c) = stored c"
proof (induction vs c rule: apply_counts.induct)
  case (3 v vs c)
  have "stored (c\<lparr>ac_user_rule_count := n, ac_sources := update_source i (count_source v) (ac_sources c)\<rparr>) = stored c"
    and "stored (c\<lparr>ac_sources := update_source i (count_source v) (ac_sources c)\<rparr>) = stored c" for i n
    by (simp_all add: stored_def update_source_map stored_source_def count_source_def)
  then show ?case
    using "3.IH" [OF refl] by (cases "Str v ''id'' = ''user''") (simp_all add: Let_def)
qed simp_all

lemma stored_Compile: "stored (co_config (Compile_config A c :: 'g compiled)) = stored c"
  by (simp add: Compile_config_def Let_def stored_counts split: prod.split option.split)

lemma first_install:
  assumes "\<not> ab_initialized s" and "seen is_write s = []" and "co_engine c \<noteq> None"
  shows "seen is_write (Installed A E False k c (s\<lparr>ab_jobs := js\<rparr>)) = []"
    and "ab_config (Installed A E False k c (s\<lparr>ab_jobs := js\<rparr>)) = co_config c"
    and "ab_initialized (Installed A E False k c (s\<lparr>ab_jobs := js\<rparr>))"
  using assms by (auto simp: Installed_def Let_def install_result_def)

lemma first_job: "adb_inv A s \<Longrightarrow> \<not> ab_initialized s \<Longrightarrow> ab_jobs s = [JobRestore]"
proof -
  assume "adb_inv A s" and none: "\<not> ab_initialized s"
  then obtain j where "ab_jobs s = [j]" "job_ok A s j"
    by (auto simp: adb_inv_def ad_pre_def jobs_ok_def started_ok_def split: if_splits)
  with none show ?thesis by (cases j) simp_all
qed

lemma before_install:
  assumes ok: "durable_ok A contents s e" and none: "\<not> ab_initialized s"
    and job: "\<And>E found len bytes. e \<noteq> AdJob E found len bytes" and inv: "adb_inv A s"
  shows "\<not> ab_initialized (adb_step A s e) \<and> seen is_write (adb_step A s e) = seen is_write s"
proof (cases e)
  case (AdCommand E st owner name cmd t)
  with none show ?thesis by (simp add: Mutate_def Let_def CheckRevision_def)
next
  case (AdPageNew k owner url navigation)
  with none show ?thesis by (simp add: Page_Get_def put_page_def seen_def)
qed (use ok none job inv in \<open>auto simp: durable_ok_def OnRedirect_def AutoUpdate_def Service_Incognito_def
    on_page_def put_page_def Page_NotifyFired_def Ask_def ad_decide_def seen_emit adb_inv_def ad_pre_defs
    split: option.split prod.split\<close>)

lemma initialized_step: "ab_initialized s \<Longrightarrow> ab_initialized (adb_step A s e)"
proof (cases e)
  case (AdSiteCommand owner k cmd t)
  moreover assume "ab_initialized s"
  moreover have "ab_initialized (snd (SetSite A owner url b s)) = ab_initialized s" for url b
    by (simp add: SetSite_def Let_def split: option.split)
  ultimately show ?thesis
    by (simp add: HandleAdBlockSite_def Let_def case_prod_unfold split: option.split)
qed (auto simp: Installed_def Downloaded_def Mutate_def Rebuild_def ImportFile_def Let_def OnRedirect_def
    AutoUpdate_def Service_Incognito_def Page_Get_def on_page_def put_page_def Page_NotifyFired_def Ask_def
    ad_decide_def set_sources_def split: list.split option.split sum.split prod.split)

lemma durable_inv_step:
  assumes inv: "durable_inv A contents s" and ok: "durable_ok A contents s e"
  shows "durable_inv A contents (adb_step A s e)"
proof -
  have laws: "ad_laws A" and ad: "adb_inv A s" and e: "adb_ok s e"
    using inv ok by (auto simp: durable_inv_def durable_ok_def)
  have ad': "adb_inv A (adb_step A s e)" using laws ad e by (rule adb_inv_step)
  show ?thesis
  proof (cases "ab_initialized s")
    case True
    have p: "persists s (adb_step A s e)" using ad e True by (rule persists_step)
    have "ab_initialized (adb_step A s e)" using True by (rule initialized_step)
    with True p inv ad' kept_persists [OF p] laws show ?thesis
      by (simp add: durable_inv_def adb_inv_def ad_pre_def)
  next
    case False
    show ?thesis
    proof (cases e)
      case (AdJob E found len bytes)
      have j: "ab_jobs s = [JobRestore]"
        using ad False by (rule first_job)
      let ?c = "Compile_config A (Restore_config A contents)"
      have c: "found = contents" "co_engine ?c \<noteq> None" using ok AdJob False by (auto simp: durable_ok_def)
      have st: "adb_step A s e = Installed A E False None ?c (s\<lparr>ab_jobs := []\<rparr>)"
        using AdJob j c(1) by (simp add: job_result_def)
      have "kept A (stored (Restore_config A contents)) (adb_step A s e)"
        using first_install(1,2) [OF False _ c(2)] inv False unfolding st
        by (simp add: kept_def last_write_def durable_inv_def stored_Compile)
      moreover have "ab_initialized (adb_step A s e)"
        unfolding st using first_install(3) [OF False _ c(2)] inv False by (simp add: durable_inv_def)
      ultimately show ?thesis using laws ad' by (simp add: durable_inv_def)
    qed (use before_install [OF ok False _ ad] laws ad' inv False in \<open>auto simp: durable_inv_def\<close>)
  qed
qed

interpretation ad_durable: machine "adb_step A" "durable_ok A contents" "durable_inv A contents"
  for A :: "('u, 'g) ad_lib" and contents
  by unfold_locales (rule durable_inv_step)

lemma durable_inv_init:
  "ad_laws A \<Longrightarrow> durable_inv A contents (Service_Service context :: ('u, 'g) ad_service)"
  by (simp add: durable_inv_def adb_inv_init) (simp add: Service_Service_def seen_def)

section \<open>The user's decisions\<close>

text \<open>The switches, the exceptions, the own rules and the list of sources with their switches.\<close>

definition decided :: "ad_config \<Rightarrow> bool \<times> bool \<times> string set \<times>
    string \<times> ((string \<times> string \<times> string \<times> string) \<times> bool) list" where
  "decided c = (ac_enabled c, ac_auto_update c, ac_exceptions c, user_view c)"

lemma user_view_update:
  "(\<And>x. stem (f x) = stem x \<and> fs_enabled (f x) = fs_enabled x) \<Longrightarrow>
   user_view (c\<lparr>ac_sources := update_source i f (ac_sources c)\<rparr>) = user_view c"
  by (simp add: user_view_def update_source_map)

lemma user_view_counts: "user_view (apply_counts vs c) = user_view c"
proof (induction vs c rule: apply_counts.induct)
  case (3 v vs c)
  have "user_view (c\<lparr>ac_user_rule_count := n, ac_sources := update_source i (count_source v) (ac_sources c)\<rparr>) = user_view c"
    and "user_view (c\<lparr>ac_sources := update_source i (count_source v) (ac_sources c)\<rparr>) = user_view c" for i n
    by (simp_all add: user_view_def update_source_map stem_def count_source_def)
  then show ?case
    using "3.IH" [OF refl] by (cases "Str v ''id'' = ''user''") (simp_all add: Let_def)
qed simp_all

lemma user_view_Compile: "user_view (co_config (Compile_config A c :: 'g compiled)) = user_view c"
  by (simp add: Compile_config_def Let_def user_view_counts split: prod.split option.split)

lemma decided_mark_failed [simp]: "decided (ab_config (mark_failed i s)) = decided (ab_config s)"
  by (simp add: decided_def mark_failed_def set_sources_def user_view_update stem_def)

lemma decided_Failed [simp]: "decided (ab_config (Failed E s)) = decided (ab_config s)"
proof -
  have "decided (ab_config (mark_failed i (s\<lparr>ab_loading := False\<rparr>))) = decided (ab_config s)" for i
    by simp
  then show ?thesis by (simp add: Failed_def Let_def)
qed

text \<open>No command is under way: none of the jobs owes a reply.\<close>

definition no_command :: "('u, 'g) ad_service \<Rightarrow> bool" where
  "no_command s \<longleftrightarrow> (\<forall>j \<in> set (ab_jobs s). job_reply j = None)"

definition quiet_ok :: "('u, 'g) ad_service \<Rightarrow> 'u ad_event \<Rightarrow> bool" where
  "quiet_ok s e \<longleftrightarrow> adb_ok s e \<and> ad_commands e = None"

definition quiet_inv :: "('u, 'g) ad_lib \<Rightarrow> ad_config \<Rightarrow> ('u, 'g) ad_service \<Rightarrow> bool" where
  "quiet_inv A c s \<longleftrightarrow> ad_laws A \<and> adb_inv A s \<and> ab_initialized s \<and> no_command s \<and>
     decided (ab_config s) = decided c"

lemma quiet_Downloaded:
  "ab_jobs s = [] \<Longrightarrow> no_command (Downloaded A E r s)"
  "decided (ab_config (Downloaded A E r s)) = decided (ab_config s)"
proof -
  show "ab_jobs s = [] \<Longrightarrow> no_command (Downloaded A E r s)"
    by (simp add: Downloaded_def Let_def no_command_def Rebuild_def set_sources_def split: option.split)
  have "decided (ab_config (set_sources (update_source i (\<lambda>src. src\<lparr>fs_updated := w, fs_status := x\<rparr>)
      (ac_sources (ab_config s))) s)) = decided (ab_config s)" for i w x
    by (simp add: set_sources_def decided_def user_view_update stem_def)
  then show "decided (ab_config (Downloaded A E r s)) = decided (ab_config s)"
    by (simp add: Downloaded_def Let_def Rebuild_def split: option.split)
qed

lemma quiet_Installed:
  assumes inv: "adb_inv A s" and init: "ab_initialized s" and none: "no_command s" and j: "ab_jobs s = j # js"
  shows "no_command (Installed A E p k (job_result A E' contents len bytes j) (s\<lparr>ab_jobs := js\<rparr>))"
    and "decided (ab_config (Installed A E p k (job_result A E' contents len bytes j) (s\<lparr>ab_jobs := js\<rparr>)))
      = decided (ab_config s)"
proof -
  let ?c = "job_result A E' contents len bytes j" and ?s = "s\<lparr>ab_jobs := js, ab_busy := False\<rparr>"
  have ok: "job_ok A s j" and js: "js = []"
    using inv j by (auto simp: adb_inv_def ad_pre_def jobs_ok_def split: if_splits)
  then obtain c where c: "j = JobCompile c None" "user_view c = user_view (ab_config s)"
    using none j init by (cases j) (auto simp: no_command_def)
  have "decided (ab_config (install_result E ?c ?s)) = decided (ab_config s)"
  proof (cases "co_engine ?c")
    case None
    have "decided (ab_config (mark_failed i (?s\<lparr>ab_error := x\<rparr>))) = decided (ab_config s)" for i x by simp
    with None show ?thesis by (simp add: install_result_def Let_def)
  next
    case (Some g)
    with c init show ?thesis
      by (simp add: install_result_def decided_def job_result_def user_view_Compile [unfolded user_view_def] user_view_def)
  qed
  moreover have "ab_jobs (install_result E ?c ?s) = js"
    by (simp add: install_result_def Let_def split: option.split)
  ultimately show "no_command (Installed A E p k ?c (s\<lparr>ab_jobs := js\<rparr>))"
    and "decided (ab_config (Installed A E p k ?c (s\<lparr>ab_jobs := js\<rparr>))) = decided (ab_config s)"
    using js by (simp_all add: Installed_def Let_def no_command_def)
qed

lemma quiet_inv_step:
  assumes inv: "quiet_inv A c s" and ok: "quiet_ok s e"
  shows "quiet_inv A c (adb_step A s e)"
proof -
  have laws: "ad_laws A" and ad: "adb_inv A s" and init: "ab_initialized s" and none: "no_command s"
    and dec: "decided (ab_config s) = decided c" and e: "adb_ok s e" "ad_commands e = None"
    using inv ok by (auto simp: quiet_inv_def quiet_ok_def)
  have idle: "ab_loading s \<Longrightarrow> ab_jobs s = []"
    using ad by (auto simp: adb_inv_def ad_pre_defs split: if_splits)
  have "no_command (adb_step A s e) \<and> decided (ab_config (adb_step A s e)) = decided (ab_config s)"
  proof (cases e)
    case (AdJob E contents len bytes)
    with e obtain j js where "ab_jobs s = j # js" by (cases "ab_jobs s") auto
    with AdJob quiet_Installed [OF ad init none] show ?thesis by simp
  next
    case (AdLoaded E r)
    with e idle quiet_Downloaded(1) [of s A E r] quiet_Downloaded(2) [of A E r s] show ?thesis by simp
  next
    case (AdPageNew k owner url navigation)
    with none show ?thesis by (simp add: Page_Get_def put_page_def no_command_def)
  qed (use e none in \<open>auto simp: no_command_def OnRedirect_def AutoUpdate_def Service_Incognito_def
      on_page_def put_page_def Page_NotifyFired_def Ask_def ad_decide_def split: option.split prod.split\<close>)
  with laws ad init dec adb_inv_step [OF laws ad e(1)] initialized_step [OF init] show ?thesis
    by (simp add: quiet_inv_def)
qed

interpretation ad_quiet: machine "adb_step A" quiet_ok "quiet_inv A c"
  for A :: "('u, 'g) ad_lib" and c
  by unfold_locales (rule quiet_inv_step)

end
