(* ===== verification/Ad_Properties.thy ===== *)
theory Ad_Properties
  imports Ad_Durable Sample_Platform "HOL-Library.Code_Target_Nat"
begin

text \<open>
  What the advertisement blocker promises: one update at a time and one answer to each
  command, one answer to each check and a verdict only under the rules it was asked under,
  and settings that are on disk when they are in force; and where it departs from that.
\<close>

section \<open>A concrete library\<close>

text \<open>
  A URL is its own text, with a host of letters, digits, dots and dashes. The engine has no
  state: it counts one rule for the built-in list and the user's rules, and blocks every
  request, or it does not compile at all. A JSON text stands for a given value.
\<close>

definition host_char :: "char \<Rightarrow> bool" where
  "host_char c \<longleftrightarrow> CHR ''a'' \<le> c \<and> c \<le> CHR ''z'' \<or> CHR ''0'' \<le> c \<and> c \<le> CHR ''9'' \<or> c = CHR ''.'' \<or> c = CHR ''-''"

definition ad_base :: "string lib" where
  "ad_base = plain_lib
     \<lparr>scheme_is_http_or_https := (\<lambda>u. starts_with u ''https://'' \<and> list_all host_char (host plain_lib u))\<rparr>"

definition ad_counts :: ad_info where
  "ad_counts = \<lparr>info_root = empty_dict, info_counts = Some
     [Some (dict_of [(''id'', AvString ''easylist''), (''ruleCount'', AvInt 1)]),
      Some (dict_of [(''id'', AvString ''user''), (''ruleCount'', AvInt 1)])]\<rparr>"

definition ad_sample :: "bool \<Rightarrow> ad_saved option \<Rightarrow> (string, unit) ad_lib" where
  "ad_sample compiles stored_value = lib.extend ad_base
     (ad_lib.fields (\<lambda>u. False) (\<lambda>u. False) (\<lambda>s. int (length s)) (\<lambda>w. w) (\<lambda>a b. True) (\<lambda>json. stored_value)
       (\<lambda>v. ''json'') True (\<lambda>inputs. Some ''inputs'')
       (\<lambda>json. (if compiles then Some () else None, Some ''info'')) (\<lambda>json. Some ad_counts)
       (\<lambda>query. Some ''query'') (\<lambda>engine query. Some ''result'')
       (\<lambda>json. Some (dict_of [(''blocked'', AvBool True), (''sourceId'', AvString ''easylist'')]))
       (\<lambda>p. True) (\<lambda>p. False) (\<lambda>p. p) (\<lambda>p. p))"

lemma ad_sample_simps [simp]:
  "gurl (ad_sample b v) s = s" "spec (ad_sample b v) s = s" "is_utf8 (ad_sample b v) s = True"
  "has_port (ad_sample b v) u = False" "utf16_size (ad_sample b v) s = int (length s)"
  "url_is_valid (ad_sample b v) u = (u \<noteq> [])"
  "scheme_is_http_or_https (ad_sample b v) u = scheme_is_http_or_https ad_base u"
  "host (ad_sample b v) u = takeWhile (\<lambda>c. c \<noteq> CHR ''/'') (drop 8 u)"
  "read_saved (ad_sample b v) json = v" "write_saved (ad_sample b v) w = ''json''"
  by (simp_all add: ad_sample_def ad_base_def sample_defs lib.defs ad_lib.defs)

lemma drop_last_dots_idem [simp]: "drop_last_dots (drop_last_dots s) = drop_last_dots s"
  by (simp add: drop_last_dots_def dropWhile_idem)

lemma drop_last_dots_set: "set (drop_last_dots s) \<subseteq> set s"
  by (auto simp: drop_last_dots_def dest: set_dropWhileD)

lemma ad_sample_laws: "ad_laws (ad_sample b v)"
proof -
  have "NormalizeHost (ad_sample b v) (Host (ad_sample b v) u) = Host (ad_sample b v) u"
    if "Host (ad_sample b v) u \<noteq> []" for u
  proof -
    define h where "h = Host (ad_sample b v) u"
    have web: "scheme_is_http_or_https ad_base u" and ne: "h \<noteq> []"
      using that by (auto simp: h_def Host_def split: if_splits)
    have h: "h = drop_last_dots (takeWhile (\<lambda>c. c \<noteq> CHR ''/'') (drop 8 u))"
      using web by (simp add: h_def Host_def)
    have "list_all host_char (takeWhile (\<lambda>c. c \<noteq> CHR ''/'') (drop 8 u))"
      using web by (simp add: ad_base_def sample_defs)
    then have chars: "list_all host_char h"
      using drop_last_dots_set [of "takeWhile (\<lambda>c. c \<noteq> CHR ''/'') (drop 8 u)"] h by (auto simp: list_all_iff)
    have bad: "\<not> host_char c" if "c \<in> {CHR ''/'', CHR 0x5C, CHR ''?'', CHR ''#'', CHR ''@'', CHR '' '',
        CHR 0x09, CHR 0x0D, CHR 0x0A}" for c
      using that by (auto simp: host_char_def less_eq_char_def)
    have clean: "\<not> (\<exists>c \<in> set h. c \<in> {CHR ''/'', CHR 0x5C, CHR ''?'', CHR ''#'', CHR ''@'', CHR '' '',
        CHR 0x09, CHR 0x0D, CHR 0x0A})"
      using chars bad by (auto simp: list_all_iff)
    have host: "takeWhile (\<lambda>c. c \<noteq> CHR ''/'') (h @ ''/'') = h"
      using clean by (subst takeWhile_append2) auto
    have "scheme_is_http_or_https ad_base (''https://'' @ h @ ''/'')"
      using chars host by (simp add: ad_base_def sample_defs starts_with_def)
    then have "NormalizeHost (ad_sample b v) h = h"
      unfolding NormalizeHost_def using ne clean host h
      by (simp add: Host_def Let_def)
    then show ?thesis by (simp add: h_def)
  qed
  then show ?thesis by (auto simp: ad_laws_def SubscriptionUrl_def)
qed

text \<open>
  A run: the lists are compiled, the shell asks for an update, a page is opened and a request of
  it is checked, the first list is downloaded and compiled, and a switch is turned.
\<close>

definition ad_env :: env where
  "ad_env = \<lparr>now = 1000000, now_ticks = 0, rand_int = (\<lambda>a b. a), token = replicate 32 (CHR ''t'')\<rparr>"

definition ad_stat :: import_stat where
  "ad_stat = \<lparr>im_canonical = True, im_opened = True, im_regular = True, im_size = 1\<rparr>"

definition ad_cmd :: "u64 \<Rightarrow> bool \<Rightarrow> dict" where
  "ad_cmd revision b = dict_of [(''contextId'', AvString ''ctx''), (''expectedRevision'', AvDouble revision),
     (''enabled'', AvBool b), (''navigationId'', AvString ''n1'')]"

definition ad_frame_of_page :: "string ad_frame" where
  "ad_frame_of_page = \<lparr>fr_id = 1, fr_page = 1, fr_owner = 0, fr_primary = True,
     fr_url = ''https://a.test/'', fr_main_url = ''https://a.test/''\<rparr>"

definition ad_start :: "string ad_event list" where
  "ad_start = [AdJob ad_env None 0 None, AdCommand ad_env ad_stat 0 ''updateAdBlockSources'' (ad_cmd 2 True) 1,
     AdPageNew 1 0 ''https://a.test/'' ''n1'',
     AdAsk 7 (FromFilter True (Some ad_frame_of_page) (Some 0) True ''https://a.test/'' ''image'' ''GET'')
       ''https://b.test/x'']"

definition ad_rest :: "string ad_event list" where
  "ad_rest = [AdLoaded ad_env \<lparr>rp_headers = Some (200, None, None), rp_data = Some ''rules''\<rparr>,
     AdJob ad_env None 0 None]"

definition ad_after :: "bool \<Rightarrow> ad_saved option \<Rightarrow> string ad_event list \<Rightarrow> (string, unit) ad_service" where
  "ad_after b v es = foldl (adb_step (ad_sample b v)) (Service_Service ''ctx'') es"

lemma ad_run_ok: "guarded_run (adb_step (ad_sample True None)) adb_ok (Service_Service ''ctx'') (ad_start @ ad_rest)"
  by code_simp

text \<open>The decisions that block.\<close>

fun blocks :: "'u ad_effect \<Rightarrow> bool" where
  "blocks (AdDecide ck d) = de_blocked d"
| "blocks _ = False"

text \<open>The states are named, so that each is computed once.\<close>

lemma ad_run_states:
  "let s = ad_after True None ad_start;
       s' = foldl (adb_step (ad_sample True None)) s (ad_rest @ [AdMatched 0])
   in ab_queue s = [''easylist-china''] \<and> ab_loading s \<and>
      map (\<lambda>(ck, g). ck_ticket ck) (ab_matching s) = [7] \<and>
      length (seen blocks (adb_step (ad_sample True None) s (AdMatched 0))) = 1 \<and>
      length (seen blocks s') = 0 \<and> length (ab_matching s') = 1"
  by code_simp

lemma ad_after_append: "ad_after b v (es @ fs) = foldl (adb_step (ad_sample b v)) (ad_after b v es) fs"
  by (simp add: ad_after_def)

lemma ad_start_state:
  "ab_queue (ad_after True None ad_start) = [''easylist-china'']"
  "ab_loading (ad_after True None ad_start)"
  using ad_run_states by (simp_all add: Let_def)

section \<open>Turns\<close>

text \<open>C8: In every run of the advertisement blocker its configuration is well formed (at most 32
  lists with different ids, the built-in ones first, at most 1,000 exceptions, each text
  within its limit); at most one compilation or download is on its way; a list waits at most
  once, not while it is being updated, and only while something is on its way; and every
  command has been answered once, or its answer waits with the compilation.
\<close>

theorem ad_updates_take_turns:
  assumes "ad_laws A" and "guarded_run (adb_step A) adb_ok (Service_Service context) es"
  defines "s \<equiv> foldl (adb_step A) (Service_Service context) es"
  shows "config_ok A (ab_config s) \<and>
    length (ab_jobs s) + (if ab_loading s then 1 else 0) \<le> 1 \<and>
    (ab_active s \<noteq> [] \<longrightarrow> ab_active s \<in> ids (ab_config s) \<and> (ab_jobs s \<noteq> [] \<or> ab_loading s)) \<and>
    distinct (ab_queue s) \<and> ab_active s \<notin> set (ab_queue s) \<and>
    (ab_queue s \<noteq> [] \<longrightarrow> ab_jobs s \<noteq> [] \<or> ab_loading s) \<and>
    reply_count s t = length (filter (\<lambda>e. ad_commands e = Some t) es)"
proof -
  have inv: "adb_inv A s"
    unfolding s_def using ad_guarded.inv_run [OF conjI [OF assms(1) adb_inv_init [OF assms(1)]] assms(2)] by blast
  have "find_source (ab_active s) (ac_sources (ab_config s)) \<noteq> None \<Longrightarrow> ab_active s \<in> ids (ab_config s)"
    by (simp add: find_source_None ids_def)
  moreover have "reply_count (Service_Service context :: ('a, 'b) ad_service) t = 0"
    by (simp add: reply_count_def Service_Service_def)
  then have "reply_count s t = length (filter (\<lambda>e. ad_commands e = Some t) es)"
    unfolding s_def using ad_replies.held_run [OF TrueI assms(2)] by simp
  ultimately show ?thesis
    using inv by (auto simp: adb_inv_def ad_pre_defs split: if_splits)
qed

lemma ad_start_ok: "guarded_run (adb_step (ad_sample True None)) adb_ok (Service_Service ''ctx'') ad_start"
  using ad_run_ok by (simp add: guarded_run_append)

theorem ad_updates_take_turns_witness:
  "ab_queue (ad_after True None ad_start) = [''easylist-china''] \<and> ab_loading (ad_after True None ad_start) \<and>
   ab_jobs (ad_after True None ad_start) = [] \<and> reply_count (ad_after True None ad_start) 1 = 1"
  using ad_updates_take_turns [OF ad_sample_laws ad_start_ok, of 1] ad_start_state
  by (auto simp: ad_after_def ad_start_def split: if_splits)

section \<open>Verdicts\<close>

lemma set_apart_blocks [simp]: "set_apart blocks"
  by (simp add: set_apart_def)

lemma blocks_Changed [simp]:
  "seen blocks (Changed p s) = seen blocks s" "seen blocks (Incognito_Changed s) = seen blocks s"
  by (simp_all add: seen_Changed)

lemma Check_final_blocks:
  "find_bool result ''blocked'' \<noteq> Some True \<Longrightarrow> seen blocks (Check_final A ck result s) = seen blocks s"
  by (simp add: Check_final_def Let_def ad_decide_def seen_emit filled_decision_def new_decision_def split: option.split)

lemma Check_blocks:
  "seen blocks (CheckRequest A ck s) = seen blocks s"
  "find_bool result ''blocked'' \<noteq> Some True \<Longrightarrow> seen blocks (Check_result A ck result s) = seen blocks s"
proof (induction A ck s and A ck result s rule: CheckRequest_Check_result.induct)
  case (1 A ck s)
  then show ?case
    by (subst CheckRequest.simps) (simp add: Let_def ad_decide_def seen_emit new_decision_def empty_dict_def)
next
  case (2 A ck result s)
  then show ?case
    by (subst Check_result.simps) (simp add: ad_decide_def seen_emit new_decision_def Check_final_blocks)
qed

lemma flush_blocks [simp]: "seen blocks (fold (Query_again A) cks s) = seen blocks s"
  by (induction cks arbitrary: s) (simp_all add: Query_again_def seen_emit Check_blocks empty_dict_def)

lemma other_blocks:
  "(\<And>n. e \<noteq> AdMatched n) \<Longrightarrow> seen blocks (adb_step A s e) = seen blocks s"
proof (cases e)
  case (AdJob E contents len bytes)
  then show ?thesis by (simp add: Installed_def Let_def split: list.split)
next
  case (AdSiteCommand owner k cmd t)
  have "seen blocks (snd (SetSite A owner url b s)) = seen blocks s" for url b
    by (simp add: SetSite_def Let_def split: option.split)
  with AdSiteCommand show ?thesis
    by (simp add: HandleAdBlockSite_def Let_def case_prod_unfold split: option.split)
next
  case (AdMatched n)
  then show "(\<And>n. e \<noteq> AdMatched n) \<Longrightarrow> ?thesis" by blast
qed (simp_all add: Downloaded_def Mutate_def OnRedirect_def AutoUpdate_def Service_Incognito_def Let_def
    Ask_def ad_decide_def seen_emit new_decision_def Check_blocks split: option.split sum.split)

text \<open>
  When a request may be blocked on an answer of the engine: its requester waits, its page has
  not navigated, the rules are those of the question and apply to its site.
\<close>

definition may_block :: "('u, 'g) ad_lib \<Rightarrow> 'u ad_check \<Rightarrow> dict \<Rightarrow> ('u, 'g) ad_service \<Rightarrow> bool" where
  "may_block A ck result s \<longleftrightarrow> ck_ticket ck \<notin> set (ab_gone s) \<and>
     (\<forall>pg. check_page ck s = Some pg \<longrightarrow> pg_navigation pg = ck_navigation ck) \<and>
     owner_alive (ck_owner ck) s \<and> revision_of (ck_owner ck) s = ck_revision ck \<and>
     Active A (ck_owner ck) s (ck_site ck) \<and> find_bool result ''blocked'' = Some True"

lemma Check_result_blocks:
  "seen blocks (Check_result A ck result s) = seen blocks s @
     (if may_block A ck result s then [AdDecide ck (filled_decision A True result)] else [])"
proof (cases "find_bool result ''blocked'' = Some True")
  case False
  then show ?thesis by (simp add: Check_blocks may_block_def)
next
  case True
  then show ?thesis
    by (subst Check_result.simps)
      (auto simp: may_block_def requester_gone_def Check_blocks Check_final_def Let_def ad_decide_def
        seen_emit filled_decision_def new_decision_def split: option.split)
qed

lemma matched_blocks:
  "seen blocks (adb_step A s e) = seen blocks s \<or>
    (\<exists>n ck engine. e = AdMatched n \<and> ab_matching s ! n = (ck, engine) \<and>
       may_block A ck (Engine_Query A engine (check_query A ck)) s \<and>
       seen blocks (adb_step A s e) = seen blocks s @
         [AdDecide ck (filled_decision A True (Engine_Query A engine (check_query A ck)))])"
proof (cases "\<exists>n. e = AdMatched n")
  case True
  then obtain n ck engine where n: "e = AdMatched n" "ab_matching s ! n = (ck, engine)"
    by (metis surj_pair)
  have o: "owner_private i (s\<lparr>ab_matching := m\<rparr>) = owner_private i s"
    and "check_page ck (s\<lparr>ab_matching := m\<rparr>) = check_page ck s" for m i
    by (simp_all add: check_page_def owner_private_def split: option.split)
  moreover have "SiteEnabled A i (s\<lparr>ab_matching := m\<rparr>) u = SiteEnabled A i s u" for m i u
    by (simp add: SiteEnabled_def overrides_of_def o split: option.split)
  ultimately have "may_block A ck r (s\<lparr>ab_matching := m\<rparr>) = may_block A ck r s" for r m
    by (simp add: may_block_def owner_alive_def revision_of_def Active_def Eligible_def)
  with n show ?thesis by (simp add: Check_result_blocks)
next
  case False
  with other_blocks [of e A s] show ?thesis by blast
qed

text \<open>C11: In every run every check is answered once: it waits for the first compilation, or for
  the matcher, or has been decided or dropped with its requester. A step that adds a blocking
  decision to the log is the matcher's answer to a check that is still wanted, whose page has
  not navigated since, under the revision it was asked under, for a site to which the rules
  apply at that moment; and no check waits any more once the first compilation is over.
\<close>

theorem ad_verdicts_are_fresh:
  assumes "ad_laws A" and "guarded_run (adb_step A) adb_ok (Service_Service context) es"
  defines "s \<equiv> foldl (adb_step A) (Service_Service context) es"
  shows "check_count s t = length (filter (\<lambda>e. ad_asks e = Some t) es) \<and>
    (ab_initialized s \<longrightarrow> ab_waiting s = []) \<and>
    (seen blocks (adb_step A s e) = seen blocks s \<or>
      (\<exists>n ck engine. e = AdMatched n \<and> ab_matching s ! n = (ck, engine) \<and>
         may_block A ck (Engine_Query A engine (check_query A ck)) s \<and>
         seen blocks (adb_step A s e) = seen blocks s @
           [AdDecide ck (filled_decision A True (Engine_Query A engine (check_query A ck)))]))"
proof -
  have inv: "adb_inv A s"
    unfolding s_def using ad_guarded.inv_run [OF conjI [OF assms(1) adb_inv_init [OF assms(1)]] assms(2)] by blast
  have "check_count (Service_Service context :: ('a, 'b) ad_service) t = 0"
    by (simp add: check_count_def Service_Service_def)
  then have "check_count s t = length (filter (\<lambda>e. ad_asks e = Some t) es)"
    unfolding s_def using ad_checks.held_run [OF TrueI assms(2)] by simp
  with inv matched_blocks [of A s e] show ?thesis by (simp add: adb_inv_def ad_pre_def started_ok_def)
qed

text \<open>The answer is used at once; after the next compilation the question is asked again.\<close>

theorem ad_verdicts_are_fresh_witness:
  "check_count (ad_after True None ad_start) 7 = 1 \<and>
   length (seen blocks (adb_step (ad_sample True None) (ad_after True None ad_start) (AdMatched 0))) = 1 \<and>
   length (seen blocks (ad_after True None (ad_start @ ad_rest @ [AdMatched 0]))) = 0 \<and>
   length (ab_matching (ad_after True None (ad_start @ ad_rest @ [AdMatched 0]))) = 1"
proof -
  have "length (seen blocks (adb_step (ad_sample True None) (ad_after True None ad_start) (AdMatched 0))) = 1 \<and>
   length (seen blocks (ad_after True None (ad_start @ ad_rest @ [AdMatched 0]))) = 0 \<and>
   length (ab_matching (ad_after True None (ad_start @ ad_rest @ [AdMatched 0]))) = 1"
    using ad_run_states by (simp add: Let_def ad_after_append)
  then show ?thesis
    using ad_verdicts_are_fresh [OF ad_sample_laws ad_start_ok, of 7 "AdMatched 0"]
    by (simp add: ad_after_def ad_start_def)
qed

section \<open>Settings\<close>


text \<open>A switch is turned, and a download that follows fails.\<close>

definition ad_turned :: "string ad_event list" where
  "ad_turned = [AdJob ad_env None 0 None, AdCommand ad_env ad_stat 0 ''setAdBlockEnabled'' (ad_cmd 2 False) 3]"

definition ad_quiet_after :: "string ad_event list" where
  "ad_quiet_after = [AdTimer ad_env False, AdPageNew 1 0 ''https://a.test/'' ''n1'', AdPageTimer 1]"

lemma ad_turned_ok:
  "guarded_run (adb_step (ad_sample True v)) (durable_ok (ad_sample True v) None) (Service_Service ''ctx'') ad_turned"
  by code_simp

lemma ad_turned_state:
  "let s = ad_after True v ad_turned
   in ab_initialized s \<and> no_command s \<and> \<not> ac_enabled (ab_config s) \<and>
      guarded_run (adb_step (ad_sample True v)) quiet_ok s ad_quiet_after"
  by code_simp

lemma ad_turned_facts:
  "ab_initialized (ad_after True v ad_turned)" "no_command (ad_after True v ad_turned)"
  "\<not> ac_enabled (ab_config (ad_after True v ad_turned))"
  "guarded_run (adb_step (ad_sample True v)) quiet_ok (ad_after True v ad_turned) ad_quiet_after"
  using ad_turned_state [of v] by (simp_all add: Let_def)

lemma ad_turned_write:
  "last_write (ad_after True v ad_turned) = Some (Config_Value True (ab_config (ad_after True v ad_turned)))"
proof -
  let ?A = "ad_sample True v"
  define s where "s = foldl (adb_step ?A) (Service_Service ''ctx'') [AdJob ad_env None 0 None]"
  have "let s = foldl (adb_step ?A) (Service_Service ''ctx'') [AdJob ad_env None 0 None]
      in CheckRevision ?A 0 (ad_cmd 2 False) s = [] \<and> ab_initialized s \<and>
         find_bool (ad_cmd 2 False) ''enabled'' = Some False"
    by code_simp
  then have "CheckRevision ?A 0 (ad_cmd 2 False) s = []" "ab_initialized s"
    "find_bool (ad_cmd 2 False) ''enabled'' = Some False"
    unfolding s_def by (simp_all only: Let_def simp_thms)
  then have "adb_step ?A s (AdCommand ad_env ad_stat 0 ''setAdBlockEnabled'' (ad_cmd 2 False) 3) =
      ad_reply (Some 3) [] 0 (Changed True (s\<lparr>ab_config := (ab_config s)\<lparr>ac_enabled := False\<rparr>\<rparr>))"
    by (simp add: Mutate_def Let_def)
  moreover have "ad_after True v ad_turned = adb_step ?A s (AdCommand ad_env ad_stat 0 ''setAdBlockEnabled'' (ad_cmd 2 False) 3)"
    by (simp only: ad_after_def ad_turned_def s_def foldl_Cons foldl_Nil)
  ultimately show ?thesis by (simp add: last_write_def seen_Changed)
qed

definition ad_kept_config :: ad_config where
  "ad_kept_config = ab_config (ad_after True None ad_turned)"

lemma ad_kept: "ab_config (ad_after True v ad_turned) = ad_kept_config"
  unfolding ad_kept_config_def by code_simp

lemma reads_back_same: "reads_back (ad_sample True (Some w)) w"
  by (simp add: reads_back_def saved_agrees_def dict_agrees_def option.rel_refl list.rel_refl)


section \<open>Departures\<close>

text \<open>A profile whose file has a rule of the user's.\<close>

definition ad_own :: ad_saved where
  "ad_own = \<lparr>saved_root = empty_dict\<lparr>find_string := (\<lambda>k. if k = ''userRules'' then Some ''||ads'' else None)\<rparr>,
     saved_sources = None\<rparr>"

definition ad_first_fails :: "string ad_event list" where
  "ad_first_fails = [AdJob ad_env (Some ''json'') 0 None,
     AdCommand ad_env ad_stat 0 ''setAdBlockEnabled'' (ad_cmd 2 False) 3]"

definition ad_early_switch :: "string ad_event list" where
  "ad_early_switch = [AdPageNew 1 0 ''https://a.test/'' ''n1'', AdSiteCommand 0 (Some 1) (ad_cmd 1 False) 3,
     AdJob ad_env (Some ''json'') 0 None]"

definition file_rules :: "(string, unit) ad_service \<Rightarrow> string option" where
  "file_rules s = map_option (\<lambda>w. Str (saved_root w) ''userRules'') (last_write s)"

lemma own_rules: "ac_user (Restore_config (ad_sample b (Some ad_own)) (Some ''json'')) = ''||ads''"
  by (cases b; code_simp)

lemma first_fails:
  "guarded_run (adb_step (ad_sample False (Some ad_own))) adb_ok (Service_Service ''ctx'') ad_first_fails"
  by code_simp

lemma first_fails_file:
  "file_rules (ad_after False (Some ad_own) ad_first_fails) = Some []"
  by code_simp

lemma early_switch:
  "guarded_run (adb_step (ad_sample True (Some ad_own))) adb_ok (Service_Service ''ctx'') ad_early_switch"
  by code_simp

lemma early_switch_state:
  "let s = ad_after True (Some ad_own) ad_early_switch
   in ac_user (ab_config s) = ''||ads'' \<and> ac_exceptions (ab_config s) = {} \<and> file_rules s = Some [] \<and>
      map_option (\<lambda>w. find_list (saved_root w) ''exceptions'') (last_write s) = Some (Some [Some ''a.test''])"
  by code_simp

lemma bare_cache_dir: "approved_dir ''/data/storage/el2/base/haps/cache''"
  by code_simp


end
