(* ===== verification/Spec2Isabelle.thy ===== *)
theory Spec2Isabelle
  imports Rule_Properties Source_Properties Site_Properties Updater_Properties Service_Properties Navigation_Properties Message_Properties
    Codec_Properties Audio_Properties Bridge_Properties Tab_Properties Background_Properties
    Ad_Properties
begin

text \<open>
  The HarmonyOS port of Chromium is an overlay over the Chromium tree: the sources under
  \<open>src/overlay\<close> replace or extend files of Chromium. Seven of its parts hold logic of their
  own and are modelled here: the URL protection of the browser, the codec of the messages that a
  page and the embedding application exchange, the hardware decoders of video and of
  encrypted audio, the two policies over the graph of pages that decide which tabs are
  discarded and when the browser goes on running in the background, and the advertisement
  blocker.

  \<^bold>\<open>1. URL protection\<close> (\<open>overlay/chrome/browser/ohos/url_protection\<close>)

  A tab's \<open>NavigationThrottle\<close> asks the profile's \<open>Service\<close> about every hop of a navigation. The
  service answers from the exceptions of the user, the packaged or downloaded rules, the
  subscriptions, its cache, and, with the user's consent, from the cloud, which it reaches through
  the bridge of the shell. It owns a \<open>RuleUpdater\<close>, which downloads signed rules, and a
  \<open>RuleSources\<close>, which downloads the subscribed lists; both tell it when what it answers by has
  changed, and it then voids what is pending, empties its cache and lets the throttles ask again.
  What the user is shown of a page's verdict is kept by \<open>SiteVerdictState\<close>.

  \<^item> \<open>Local_Rules\<close> is \<open>local_rules.cc\<close>: which URLs are checked at all, what of a URL may be
    sent to the cloud, and the sorted digests of the packaged list. \<open>Rule_Format\<close> is
    \<open>rule_update_format.cc\<close>: configuration, signed manifest, cache file and acceptance of a rule
    update. \<open>Subscription_Rules\<close> is \<open>subscription_rules.cc\<close>: parsing, matching and caching of a
    list. \<open>Rule_Properties\<close> holds what they promise.
  \<^item> \<open>Rule_Updater\<close> (\<open>rule_updater.cc\<close>) and \<open>Rule_Sources\<close> (\<open>rule_sources.cc\<close>) are the two state
    records with one definition per handler; a request to the loader or the worker is an entry of
    the log and its answer is an event. \<open>Updater_Machine\<close> and \<open>Source_Machine\<close> deliver the answers
    in any order the task queues allow and hold the invariants; \<open>Updater_Properties\<close> and
    \<open>Source_Properties\<close> hold the theorems.
  \<^item> \<open>Protection_Service\<close> is \<open>url_protection.cc\<close>: \<open>ps_pending\<close> is \<open>pending_\<close>, \<open>ps_cache\<close> is
    \<open>cache_\<close>, \<open>ps_revision\<close> is \<open>revision_\<close>; \<open>Check\<close>, \<open>OnCloud\<close>, \<open>OnSources\<close>, \<open>OnRules\<close>,
    \<open>Timeout\<close> and \<open>Configure\<close> carry the names of the source. \<open>Service_Machine\<close> and
    \<open>Service_Privacy\<close> hold the invariants over all interleavings, \<open>Service_Properties\<close> the theorems.
  \<^item> \<open>Navigation_Throttle\<close> is \<open>navigation_throttle.cc\<close>, \<open>Navigation_Machine\<close> composes the tabs of
    a profile with the service; \<open>Navigation_Properties\<close> holds the theorems. \<open>Site_Verdict\<close> is
    \<open>site_verdict_state.h\<close>, with \<open>Site_Properties\<close>.
  \<^item> \<open>Platform\<close> is the code that is called and is not in the repository (\<open>GURL\<close>, the JSON reader,
    BoringSSL, \<open>base::\<close>): a record of functions that every definition takes as an argument. What is
    relied on of it is a named law (\<open>decimal_laws\<close>, \<open>header_laws\<close>, and premises of single theorems);
    \<open>Sample_Platform\<close> is an instance on which the witnesses compute.

  \<^bold>\<open>2. Web messages\<close> (\<open>overlay/arkweb/chromium_ext/third_party/blink/common/messaging\<close>)

  \<open>string_message_codec_ext.cc\<close> writes the payload of a message with the tags of V8's value
  serializer and reads it back. \<open>Message_Codec\<close> is the writing half, \<open>Message_Decode\<close> the reading
  half, byte by byte; \<open>Message_Readers\<close> and \<open>Message_Arrays\<close> hold what the readers make of what the
  writers wrote, \<open>Message_Properties\<close> the round trips, the termination of the decoder on any bytes,
  and the messages that do not arrive. \<open>base::BufferIterator\<close> is a parameter with named laws. A
  loop of the decoder runs on fuel \<open>loop_fuel\<close>, one more than the bytes of the buffer: every turn of
  a loop reads at least one byte, so \<open>messages_are_read_or_refused\<close> shows that it never runs out.

  \<^bold>\<open>3. Video decoder\<close> (\<open>overlay/arkweb/chromium_ext/media/gpu/ohos\<close>)

  \<open>OhosVideoDecoder\<close> queues what a media pipeline asks to decode and pumps it through a
  \<open>CodecWrapper\<close>, which keeps the books of the buffers that the hardware decoder lends. A decoded
  buffer becomes a \<open>CodecOutputBuffer\<close>, which a \<open>CodecOutputBufferRenderer\<close> renders to the surface
  when the compositor wants the \<open>CodecImage\<close> that owns it.

  \<^item> \<open>Codec_Wrapper\<close> is \<open>codec_wrapper.cc\<close>: \<open>cw_ids\<close> is \<open>buffer_ids_\<close>, \<open>cw_next\<close> is
    \<open>next_buffer_id_\<close>, \<open>cw_posted\<close> the releases posted to the release sequence. What the decoder
    answers is an argument, the calls it gets are a log. \<open>Codec_Ledger\<close> is the abstract
    specification, a ledger on which every call is an entry that may be illegal, and the proof that
    the wrapper refines it; and that no lent buffer is forgotten.
  \<^item> \<open>Codec_Renderer\<close> is \<open>codec_output_buffer_renderer.cc\<close>, \<open>codec_buffer_wait_coordinator.cc\<close> and
    \<open>codec_image.cc\<close>, and the proof that a surface refines a slot for one frame.
  \<^item> \<open>Video_Decoder\<close> is \<open>ohos_video_decoder.cc\<close>, on top of the wrapper. \<open>PumpCodec\<close> is a total
    function: a codec that has no more to say answers \<open>RETRY\<close>, and then every turn of the pump takes
    a request from the queue, ends an elided end of stream or flushes a drained codec
    (\<open>pump_fuel\<close>). \<open>Decoder_Machine\<close> shows that every codec is driven within the contract of the
    wrapper, \<open>Decoder_Requests\<close> that every request is answered once; \<open>Codec_Properties\<close> holds the
    theorems.
  \<^item> \<open>Decoder_Bridge\<close> is \<open>ohos_media_decoder_bridge_impl.cc\<close> (\<open>media/base/ohos\<close>), which stands between
    the wrapper and the codec of the system. \<open>br_signal\<close> is \<open>signal_\<close>, the queues of buffers that the
    codec has offered; \<open>br_tasks\<close> is what its threads have posted. \<open>Bridge_Machine\<close> is the abstract
    specification, a ledger of offers, and the proof that the bridge uses no buffer that is not
    offered, since the task that ends a flush is behind every offer that the flush has voided.
    \<open>Wrapped_Bridge\<close> puts the wrapper on top: its answers are those of the bridge, its calls are
    carried out on the bridge, and what the bridge asks of a client that returns buffers is proved
    of the wrapper. \<open>Bridge_Properties\<close> holds the theorems, and the runs that break the ledger.

  \<^bold>\<open>4. Audio decoder\<close> (\<open>overlay/arkweb/chromium_ext/media/filters/ohos\<close>)

  \<open>OHOSAudioDecoder\<close> decodes encrypted audio. Its loop, \<open>OHOSAudioDecoderLoop\<close>, moves requests
  into the free input buffers of a codec and decoded buffers out of it, driven by the client and a
  timer; a second timer waits for the licence. The two classes call each other, so \<open>Audio_Decoder\<close>
  (\<open>ohos_audio_decoder.cc\<close>, \<open>ohos_audio_decoder_loop.cc\<close>) keeps both in one record: \<open>ad_queue\<close> is
  \<open>input_queue_\<close>, \<open>ad_inputs\<close> and \<open>ad_outputs\<close> the indices and buffers the codec has handed over,
  \<open>ad_loop\<close> is \<open>decoder_loop_\<close>. \<open>DoPendingWork\<close> terminates because every turn that does something
  lowers \<open>pending_work\<close>. \<open>Audio_Turns\<close> shows what a call of it leaves behind, \<open>Audio_Machine\<close> the order
  of the answers under all interleavings; \<open>Audio_Properties\<close> holds the theorems, and the runs
  that leave a request waiting.

  \<^bold>\<open>5. Discarding of tabs\<close> (\<open>overlay/chrome/browser/performance_manager/policies\<close>)

  \<open>Tab_Discarding\<close> is \<open>ohos_tab_discarding_policy.cc\<close>: the passes over the loaded tabs, the three
  timers (\<open>td_enforce_timer\<close> and so on say whether they run) and the memory levels of the system. The
  graph of pages at the time of an operation is its argument \<open>surroundings\<close>; \<open>std::sort\<close>, which
  leaves the order of equal times open, is a parameter with the law of a sort (\<open>oldest_first\<close>).
  \<open>Tab_Properties\<close> shows that the least recently seen tabs go, and enough of them, and that discards
  for memory are ten seconds apart.

  \<^bold>\<open>6. Background tasks\<close> (\<open>overlay/arkweb/ohos_nweb/browser/performance_manager/policies\<close>)

  \<open>Background_Tasks\<close> is \<open>background_task_policy.cc\<close>: the counts of visible, playing and audible
  pages and the players of web audio (\<open>bg_players\<close> is \<open>audio_context_players_num_\<close>); what the system
  is asked is the list \<open>bg_requests\<close>. The loop over the players of a page may not end, so it is a
  partial function: \<open>drop_players_returns\<close> shows that it returns when every player has a frame, and
  \<open>drop_players_spins\<close> that it does not when one has none. \<open>Background_Properties\<close> holds the
  invariant of every run, and the departures.

  \<^bold>\<open>7. Advertisement blocker\<close> (\<open>overlay/chrome/browser/ohos/adblock\<close>, \<open>overlay/chrome/common/ohos/adblock\<close>)

  A profile's \<open>Service\<close> keeps the user's lists and switches, compiles them into an engine on a
  worker, downloads what has to be updated one list after another, and answers whether a request
  is to be blocked. A \<open>Page\<close> follows the navigations of a tab and counts what was blocked;
  \<open>FilterHost\<close>, \<open>BrowserThrottle\<close> and \<open>CheckWebSocket\<close> are the entrances of requests, and
  \<open>DecisionThrottle\<close> carries out a decision.

  \<^item> \<open>Ad_Lists\<close> is the first part of \<open>adblock.cc\<close> and \<open>engine.cc\<close>: sources and configurations,
    \<open>Restore\<close>, \<open>Config::Value\<close>, \<open>Compile\<close>, \<open>OpenImport\<close>. The engine is a library behind a C
    interface; with JSON, \<open>base::FilePath\<close> and the rest of what is called it is a field of the
    library record, which extends that of \<open>Platform\<close>.
  \<^item> \<open>Ad_Blocking\<close> is the state of the service (\<open>ab_config\<close> is \<open>config_\<close>, \<open>ab_queue\<close> is \<open>queue_\<close>,
    \<open>ab_loading\<close> says whether \<open>loader_\<close> is set; \<open>ab_jobs\<close> and \<open>ab_matching\<close> are the tasks posted to
    the worker and the matcher), its questions, and \<open>CheckRequest\<close> with the callback that may ask
    again; it terminates because the second question is bound to the current revision. A profile
    and the incognito window opened from it are one record. \<open>Ad_Service\<close> is the updates and the
    commands; \<open>StartNext\<close> terminates because every turn shortens the queue. \<open>Ad_Pages\<close> is the
    pages, the entrances, the throttle, and the machine of the whole.
  \<^item> \<open>Ad_Machine\<close> holds which parts of the state each operation leaves alone, \<open>Ad_Invariant\<close> the
    well-formed configuration, \<open>Ad_Schedule\<close> the order of the updates and the accounts of replies
    and checks, \<open>Ad_Durable\<close> what reaches the file and what restores from it; \<open>Ad_Properties\<close>
    holds the theorems and the runs in which settings are lost.

  \<^bold>\<open>Shared\<close>

  \<open>Prelude\<close> models \<open>std::map\<close> as an association list sorted by key and binary search as the library
  does it, and holds the interfaces that the components are proved against, as locales: \<open>machine\<close>
  (an invariant that every step keeps), \<open>ratchet\<close> (a mark that only moves forward: watermarks),
  \<open>refinement\<close> (the calls of a machine replay on an abstract specification), \<open>ticket_machine\<close>
  (what is issued is accounted for: callbacks and requests), \<open>fifo_machine\<close> (what is issued is
  served in order) and \<open>generation_machine\<close> (a 64-bit
  counter makes stale answers detectable for fewer than \<open>2 ^ 64\<close> steps). Each is interpreted on the
  model's own step functions.

  Integers have their width where they can wrap (\<open>u8\<close>, \<open>u32\<close>, \<open>u64\<close>); counters and sizes that the
  code keeps small are \<open>int\<close> or \<open>nat\<close>, such as \<open>reset_generation_\<close> (an \<open>int\<close>, one more with every
  reset), \<open>next_buffer_id_\<close> (64 bits) and the index of a buffer. Times are microseconds.

  \<^bold>\<open>Not modelled\<close>

  Observers run after the operation that notified them: the report that is broadcast when the
  updater has been initialized may contain the next check time already. The destruction of the
  service while a navigation is deferred is not covered. Of the warning page the decisions are
  modelled, not its HTML; of network requests, that they are made, not their parameters; the
  registries that own the services and updaters are left out. Of a web message that is refused
  nothing is said about its contents. The callbacks of the video decoder do not call it back while
  it runs them; locks are not modelled, since every operation of the wrapper holds its lock from
  beginning to end; of the decoders the supported configurations, the event reports and the times
  and natural sizes of frames are left out. A reset of the audio decoder that has an adapter but
  no loop, where the code follows a null pointer, is not an event of its machine. The video
  decoder is proved against the wrapper and the wrapper against the bridge; the three are not put into one
  machine. The policy of background tasks is taken to run on the UI
  thread; the helper that loads restored tabs is in Chromium. Of the advertisement
  blocker the style sheets of pages (\<open>StartCosmetics\<close>, \<open>Cosmetics\<close>, \<open>SendCosmetics\<close>), the reports
  of its state to the shell, and the response that replaces a blocked one are left out; its engine,
  a Rust library, is a parameter.

  The rest of the overlay is glue or would need models of other systems: the bridges between the
  C interfaces of the system and C++ (\<open>arkweb/glue\<close>), the adapters over the system's native
  libraries (\<open>arkweb/ohos_adapter_ndk\<close>), the embedding layer (\<open>arkweb/ohos_nweb\<close>) and the shell's
  user interface (\<open>chrome/browser/ui/ohos\<close>), which forward calls between Chromium and the system;
  the platform layer of the window system (\<open>ui/ozone/platform/ohos\<close>), which drives EGL, Vulkan and
  the compositor of the system; the translation of pages and the collector of their media
  (\<open>chrome/browser/ohos\<close>); the extensions of Blink, the network stack and the browser process
  (\<open>arkweb/chromium_ext\<close>), which are hooks inside classes that are not in the repository.
\<close>

end
